(* ===== verification/Py_Prelude.thy ===== *)
theory Py_Prelude
  imports Complex_Main "HOL-Library.Monad_Syntax"
begin

text \<open>
  The Python runtime the components share: exceptions as values, JSON-shaped values,
  dictionaries in insertion order, and the string methods the sources call.

  A Python \<open>str\<close> is a \<open>string\<close>, one \<open>char\<close> for each code point below 256;
  \<open>isspace\<close>, \<open>isdigit\<close> and \<open>lower\<close> are those of CPython on that range. An
  \<open>int\<close> is \<open>int\<close>; a \<open>float\<close> is its exact value with the text \<open>repr\<close> prints
  for it (rounding is not modelled). The few string literals of the sources with a code
  point above 255 are written as their UTF-8 bytes. A dict
  whose keys are strings is an association list in insertion order with distinct keys;
  \<open>dict_set\<close> overwrites in place and appends a new key, as CPython does.
\<close>

section \<open>Collections of facts\<close>

named_theorems guard_defs \<open>definitions of the guards, unfolded on every branch\<close>
named_theorems py_simps \<open>rewrite rules of the Python runtime\<close>

section \<open>Exceptions\<close>

datatype py_exn =
    ValueError string
  | TypeError string
  | KeyError string
  | AttributeError string
  | IndexError
  | OSError string
  | FileNotFoundError string
  | IsADirectoryError string
  | RuntimeError string

type_synonym 'a py = "py_exn + 'a"

definition py_bind :: "'e + 'a \<Rightarrow> ('a \<Rightarrow> 'e + 'b) \<Rightarrow> 'e + 'b" where
  "py_bind r f = (case r of Inl e \<Rightarrow> Inl e | Inr x \<Rightarrow> f x)"

lemma py_bind_simps [simp]:
  "py_bind (Inl e) f = Inl e"
  "py_bind (Inr x) f = f x"
  by (simp_all add: py_bind_def)

lemma py_bind_Inr_iff: "py_bind r f = Inr y \<longleftrightarrow> (\<exists>x. r = Inr x \<and> f x = Inr y)"
  by (cases r) auto

section \<open>Characters\<close>

abbreviation NL :: char where "NL \<equiv> CHR 0x0A"
abbreviation DQUOTE :: char where "DQUOTE \<equiv> CHR 0x22"
abbreviation SQUOTE :: char where "SQUOTE \<equiv> CHR 0x27"
abbreviation BSLASH :: char where "BSLASH \<equiv> CHR 0x5C"
abbreviation BTICK :: char where "BTICK \<equiv> CHR 0x60"

definition EMDASH :: string where
  "EMDASH = [CHR 0xE2, CHR 0x80, CHR 0x94]"

definition py_isspace :: "char \<Rightarrow> bool" where
  "py_isspace c \<longleftrightarrow> c \<in> set [CHR 0x20, CHR 0x09, CHR 0x0A, CHR 0x0B, CHR 0x0C, CHR 0x0D,
     CHR 0x1C, CHR 0x1D, CHR 0x1E, CHR 0x1F, CHR 0x85, CHR 0xA0]"

definition ascii_digit :: "char \<Rightarrow> bool" where
  "ascii_digit c \<longleftrightarrow> c \<in> set ''0123456789''"

text \<open>\<open>str.isdigit\<close> also accepts the Latin-1 superscripts.\<close>

definition py_isdigit_char :: "char \<Rightarrow> bool" where
  "py_isdigit_char c \<longleftrightarrow> ascii_digit c \<or> c \<in> set [CHR 0xB2, CHR 0xB3, CHR 0xB9]"

definition py_isdigit :: "string \<Rightarrow> bool" where
  "py_isdigit s \<longleftrightarrow> s \<noteq> [] \<and> list_all py_isdigit_char s"

definition ascii_lower_alpha :: "char \<Rightarrow> bool" where
  "ascii_lower_alpha c \<longleftrightarrow> c \<in> set ''abcdefghijklmnopqrstuvwxyz''"

definition py_lower_char :: "char \<Rightarrow> char" where
  "py_lower_char c =
     (let n = of_char c :: int in
      if (65 \<le> n \<and> n \<le> 90) \<or> (192 \<le> n \<and> n \<le> 222 \<and> n \<noteq> 215)
      then char_of (n + 32) else c)"

definition py_lower :: "string \<Rightarrow> string" where
  "py_lower s = map py_lower_char s"

section \<open>String methods\<close>

definition startswith :: "string \<Rightarrow> string \<Rightarrow> bool" where
  "startswith s p \<longleftrightarrow> take (length p) s = p"

definition endswith :: "string \<Rightarrow> string \<Rightarrow> bool" where
  "endswith s p \<longleftrightarrow> length p \<le> length s \<and> drop (length s - length p) s = p"

text \<open>The operator \<open>sub in s\<close>.\<close>

fun contains :: "string \<Rightarrow> string \<Rightarrow> bool" where
  "contains [] p \<longleftrightarrow> p = []"
| "contains (c # s) p \<longleftrightarrow> startswith (c # s) p \<or> contains s p"

definition lstrip_chars :: "(char \<Rightarrow> bool) \<Rightarrow> string \<Rightarrow> string" where
  "lstrip_chars P s = dropWhile P s"

definition rstrip_chars :: "(char \<Rightarrow> bool) \<Rightarrow> string \<Rightarrow> string" where
  "rstrip_chars P s = rev (dropWhile P (rev s))"

definition py_strip :: "string \<Rightarrow> string" where
  "py_strip s = rstrip_chars py_isspace (lstrip_chars py_isspace s)"

text \<open>\<open>s.split()\<close> with no argument: the maximal runs of non-space characters.\<close>

function py_split :: "string \<Rightarrow> string list" where
  "py_split [] = []"
| "py_split (c # s) =
     (if py_isspace c then py_split s
      else (c # takeWhile (\<lambda>x. \<not> py_isspace x) s) # py_split (dropWhile (\<lambda>x. \<not> py_isspace x) s))"
  by pat_completeness auto
termination
  by (relation "measure length") (auto simp: le_imp_less_Suc length_dropWhile_le)

text \<open>\<open>s.split(sep)\<close> with a one-character separator.\<close>

fun py_split_on :: "char \<Rightarrow> string \<Rightarrow> string list" where
  "py_split_on d [] = [[]]"
| "py_split_on d (c # s) =
     (if c = d then [] # py_split_on d s
      else (case py_split_on d s of [] \<Rightarrow> [[c]] | w # ws \<Rightarrow> (c # w) # ws))"

fun py_join :: "string \<Rightarrow> string list \<Rightarrow> string" where
  "py_join d [] = []"
| "py_join d [w] = w"
| "py_join d (w # ws) = w @ d @ py_join d ws"

text \<open>\<open>os.path.basename\<close> on POSIX: what follows the last slash.\<close>

definition py_basename :: "string \<Rightarrow> string" where
  "py_basename s = rev (takeWhile (\<lambda>c. c \<noteq> CHR ''/'') (rev s))"

text \<open>Decimal rendering, \<open>str(n)\<close> in the f-strings.\<close>

definition digit_char :: "nat \<Rightarrow> char" where
  "digit_char d = char_of (48 + d)"

fun string_of_nat :: "nat \<Rightarrow> string" where
  "string_of_nat n =
     (if n < 10 then [digit_char n] else string_of_nat (n div 10) @ [digit_char (n mod 10)])"

declare string_of_nat.simps [simp del]

definition string_of_int :: "int \<Rightarrow> string" where
  "string_of_int i =
     (if i < 0 then CHR ''-'' # string_of_nat (nat (- i)) else string_of_nat (nat i))"

section \<open>Values\<close>

datatype pyval =
    PyNone
  | PyBool bool
  | PyInt int
  | PyFloat rat string
  | PyStr string
  | PyList "pyval list"
  | PyDict "(string \<times> pyval) list"

type_synonym pydict = "(string \<times> pyval) list"

text \<open>\<open>bool(x)\<close>.\<close>

fun truthy :: "pyval \<Rightarrow> bool" where
  "truthy PyNone \<longleftrightarrow> False"
| "truthy (PyBool b) \<longleftrightarrow> b"
| "truthy (PyInt i) \<longleftrightarrow> i \<noteq> 0"
| "truthy (PyFloat r t) \<longleftrightarrow> r \<noteq> 0"
| "truthy (PyStr s) \<longleftrightarrow> s \<noteq> []"
| "truthy (PyList xs) \<longleftrightarrow> xs \<noteq> []"
| "truthy (PyDict d) \<longleftrightarrow> d \<noteq> []"

fun py_num :: "pyval \<Rightarrow> rat option" where
  "py_num (PyBool b) = Some (if b then 1 else 0)"
| "py_num (PyInt i) = Some (of_int i)"
| "py_num (PyFloat r t) = Some r"
| "py_num _ = None"

text \<open>The operator \<open>==\<close>: numbers compare by value across \<open>bool\<close>, \<open>int\<close> and
  \<open>float\<close>, dictionaries without regard to order.\<close>

fun py_eq :: "pyval \<Rightarrow> pyval \<Rightarrow> bool"
  and py_eq_list :: "pyval list \<Rightarrow> pyval list \<Rightarrow> bool"
  and py_eq_items :: "pydict \<Rightarrow> pydict \<Rightarrow> bool" where
  "py_eq PyNone w \<longleftrightarrow> w = PyNone"
| "py_eq (PyBool b) w \<longleftrightarrow> py_num w = Some (if b then 1 else 0)"
| "py_eq (PyInt i) w \<longleftrightarrow> py_num w = Some (of_int i)"
| "py_eq (PyFloat r t) w \<longleftrightarrow> py_num w = Some r"
| "py_eq (PyStr s) w \<longleftrightarrow> w = PyStr s"
| "py_eq (PyList xs) w \<longleftrightarrow> (case w of PyList ys \<Rightarrow> py_eq_list xs ys | _ \<Rightarrow> False)"
| "py_eq (PyDict d) w \<longleftrightarrow>
     (case w of PyDict e \<Rightarrow> length d = length e \<and> py_eq_items d e | _ \<Rightarrow> False)"
| "py_eq_list [] ys \<longleftrightarrow> ys = []"
| "py_eq_list (x # xs) ys \<longleftrightarrow>
     (case ys of [] \<Rightarrow> False | y # ys' \<Rightarrow> py_eq x y \<and> py_eq_list xs ys')"
| "py_eq_items [] e \<longleftrightarrow> True"
| "py_eq_items (kv # d) e \<longleftrightarrow>
     (case map_of e (fst kv) of None \<Rightarrow> False | Some w \<Rightarrow> py_eq (snd kv) w \<and> py_eq_items d e)"

section \<open>Dictionaries\<close>

text \<open>\<open>d.get(k)\<close> and \<open>d.get(k, default)\<close>; a missing key reads as \<open>None\<close>.\<close>

definition dict_get_default :: "(string \<times> 'v) list \<Rightarrow> string \<Rightarrow> 'v \<Rightarrow> 'v" where
  "dict_get_default d k v = (case map_of d k of None \<Rightarrow> v | Some x \<Rightarrow> x)"

definition dict_get :: "pydict \<Rightarrow> string \<Rightarrow> pyval" where
  "dict_get d k = dict_get_default d k PyNone"

fun dict_set :: "(string \<times> 'v) list \<Rightarrow> string \<Rightarrow> 'v \<Rightarrow> (string \<times> 'v) list" where
  "dict_set [] k v = [(k, v)]"
| "dict_set (kv # d) k v = (if fst kv = k then (k, v) # d else kv # dict_set d k v)"

definition dict_pop :: "(string \<times> 'v) list \<Rightarrow> string \<Rightarrow> (string \<times> 'v) list" where
  "dict_pop d k = filter (\<lambda>kv. fst kv \<noteq> k) d"

definition dict_wf :: "(string \<times> 'v) list \<Rightarrow> bool" where
  "dict_wf d \<longleftrightarrow> distinct (map fst d)"

text \<open>\<open>x or ""\<close> for a string that may be missing.\<close>

definition str_or_empty :: "string option \<Rightarrow> string" where
  "str_or_empty x = (case x of None \<Rightarrow> [] | Some s \<Rightarrow> s)"

definition as_str :: "pyval \<Rightarrow> string option" where
  "as_str v = (case v of PyStr s \<Rightarrow> Some s | _ \<Rightarrow> None)"

definition as_dict :: "pyval \<Rightarrow> pydict option" where
  "as_dict v = (case v of PyDict d \<Rightarrow> Some d | _ \<Rightarrow> None)"

definition as_list :: "pyval \<Rightarrow> pyval list option" where
  "as_list v = (case v of PyList xs \<Rightarrow> Some xs | _ \<Rightarrow> None)"

text \<open>The first result of a loop that returns as soon as its body has one.\<close>

fun first_some :: "('a \<Rightarrow> 'b option) \<Rightarrow> 'a list \<Rightarrow> 'b option" where
  "first_some f [] = None"
| "first_some f (x # xs) = (case f x of Some y \<Rightarrow> Some y | None \<Rightarrow> first_some f xs)"

text \<open>\<open>list(dict.fromkeys(xs))\<close>: first occurrences, in order.\<close>

fun dedup_from :: "'a list \<Rightarrow> 'a list \<Rightarrow> 'a list" where
  "dedup_from seen [] = []"
| "dedup_from seen (x # xs) =
     (if x \<in> set seen then dedup_from seen xs else x # dedup_from (x # seen) xs)"

definition dedup :: "'a list \<Rightarrow> 'a list" where
  "dedup xs = dedup_from [] xs"

text \<open>\<open>int(x)\<close> on a stored value: a float is truncated towards zero, a string must be an
  optionally signed decimal (surrounding space allowed; the underscore form of literals is
  not modelled), anything else is a \<open>TypeError\<close>.\<close>

fun nat_of_digits :: "nat \<Rightarrow> string \<Rightarrow> nat" where
  "nat_of_digits acc [] = acc"
| "nat_of_digits acc (c # s) = nat_of_digits (10 * acc + (of_char c - 48)) s"

definition parse_int :: "string \<Rightarrow> int option" where
  "parse_int s =
     (let t = py_strip s;
          (sg, body) = (case t of c # r \<Rightarrow> (if c = CHR ''-'' then (-1, r)
                                            else if c = CHR ''+'' then (1, r) else (1, t))
                        | [] \<Rightarrow> (1, t))
      in if body \<noteq> [] \<and> list_all ascii_digit body
         then Some (sg * int (nat_of_digits 0 body)) else None)"

definition rat_trunc :: "rat \<Rightarrow> int" where
  "rat_trunc r = (if 0 \<le> r then \<lfloor>r\<rfloor> else \<lceil>r\<rceil>)"

definition py_int :: "pyval \<Rightarrow> int py" where
  "py_int v = (case v of
       PyBool b \<Rightarrow> Inr (if b then 1 else 0)
     | PyInt i \<Rightarrow> Inr i
     | PyFloat r t \<Rightarrow> Inr (rat_trunc r)
     | PyStr s \<Rightarrow> (case parse_int s of Some i \<Rightarrow> Inr i
                   | None \<Rightarrow> Inl (ValueError ''invalid literal for int()''))
     | _ \<Rightarrow> Inl (TypeError ''int() argument must be a string or a number''))"

text \<open>\<open>float(x)\<close> on a stored value; a string is refused (no component stores one where
  it reads a float).\<close>

definition py_float :: "pyval \<Rightarrow> (rat \<times> string) py" where
  "py_float v = (case v of
       PyBool b \<Rightarrow> Inr (if b then (1, ''1.0'') else (0, ''0.0''))
     | PyInt i \<Rightarrow> Inr (of_int i, string_of_int i @ ''.0'')
     | PyFloat r t \<Rightarrow> Inr (r, t)
     | PyStr s \<Rightarrow> Inl (ValueError ''could not convert string to float'')
     | _ \<Rightarrow> Inl (TypeError ''float() argument must be a string or a real number''))"

section \<open>Lemmas\<close>

subsection \<open>Dictionaries\<close>

lemma map_of_dict_set [simp]: "map_of (dict_set d k v) = (map_of d)(k \<mapsto> v)"
  by (induction d) (auto simp: fun_eq_iff)

lemma map_of_dict_pop [simp]: "map_of (dict_pop d k) = (map_of d)(k := None)"
  by (induction d) (auto simp: dict_pop_def fun_eq_iff)

lemma dict_get_set [simp]: "dict_get (dict_set d k v) k' = (if k' = k then v else dict_get d k')"
  by (simp add: dict_get_def dict_get_default_def)

lemma dict_get_default_set [simp]:
  "dict_get_default (dict_set d k v) k' w = (if k' = k then v else dict_get_default d k' w)"
  by (simp add: dict_get_default_def)

lemma dict_get_Nil [simp]: "dict_get [] k = PyNone"
  by (simp add: dict_get_def dict_get_default_def)

lemma dict_get_Cons [simp]:
  "dict_get (kv # d) k = (if fst kv = k then snd kv else dict_get d k)"
  by (cases kv) (simp add: dict_get_def dict_get_default_def)

lemma keys_dict_set: "set (map fst (dict_set d k v)) = insert k (set (map fst d))"
  by (induction d) auto

lemma dict_wf_set [intro]: "dict_wf d \<Longrightarrow> dict_wf (dict_set d k v)"
proof (induction d)
  case Nil
  then show ?case by (simp add: dict_wf_def)
next
  case (Cons kv d)
  then show ?case using keys_dict_set [of d k v] by (auto simp: dict_wf_def)
qed

lemma dict_wf_pop [intro]: "dict_wf d \<Longrightarrow> dict_wf (dict_pop d k)"
  unfolding dict_wf_def dict_pop_def by (rule distinct_map_filter)

lemma dict_set_id: "map_of d k = Some v \<Longrightarrow> dict_set d k v = d"
  by (induction d) (auto split: if_splits)

lemma dict_set_overwrite [simp]: "dict_set (dict_set d k v) k w = dict_set d k w"
  by (induction d) auto

subsection \<open>Searches\<close>

lemma first_some_None_iff [simp]: "first_some f xs = None \<longleftrightarrow> (\<forall>x \<in> set xs. f x = None)"
  by (induction xs) (auto split: option.splits)

lemma first_some_Some: "first_some f xs = Some y \<Longrightarrow> \<exists>x \<in> set xs. f x = Some y"
  by (induction xs) (auto split: option.splits)

lemma first_some_append:
  "first_some f (xs @ ys) = (case first_some f xs of Some y \<Rightarrow> Some y | None \<Rightarrow> first_some f ys)"
  by (induction xs) (simp_all del: first_some_None_iff split: option.split)

subsection \<open>Deduplication\<close>

lemma set_dedup_from: "set (dedup_from seen xs) = set xs - set seen"
  by (induction seen xs rule: dedup_from.induct) auto

lemma set_dedup [simp]: "set (dedup xs) = set xs"
  by (simp add: dedup_def set_dedup_from)

lemma distinct_dedup_from: "distinct (dedup_from seen xs)"
  by (induction seen xs rule: dedup_from.induct) (auto simp: set_dedup_from)

lemma distinct_dedup [simp]: "distinct (dedup xs)"
  by (simp add: dedup_def distinct_dedup_from)

lemma dedup_Nil_iff [simp]: "dedup xs = [] \<longleftrightarrow> xs = []"
  by (metis set_dedup set_empty)

subsection \<open>Strings\<close>

lemma startswith_append [simp]: "startswith (p @ s) p"
  by (simp add: startswith_def)

lemma startswith_self [simp]: "startswith s s"
  by (simp add: startswith_def)

lemma startswith_iff: "startswith s p \<longleftrightarrow> (\<exists>r. s = p @ r)"
  by (metis append_take_drop_id startswith_append startswith_def)

lemma startswith_Nil [simp]: "startswith s []"
  by (simp add: startswith_def)

lemma startswith_Cons: "startswith s (c # p) \<longleftrightarrow> (\<exists>r. s = c # r \<and> startswith r p)"
  by (auto simp: startswith_iff)

lemma contains_self [simp]: "contains s s"
  by (cases s) simp_all

lemma contains_append_left: "contains s p \<Longrightarrow> contains (u @ s) p"
  by (induction u) auto

lemma contains_startswith: "startswith s p \<Longrightarrow> contains s p"
  by (cases s) (auto simp: startswith_def)

lemma contains_iff: "contains s p \<longleftrightarrow> (\<exists>u v. s = u @ p @ v)"
proof
  show "contains s p \<Longrightarrow> \<exists>u v. s = u @ p @ v"
  proof (induction s)
    case Nil
    then show ?case by simp
  next
    case (Cons c s)
    then consider "startswith (c # s) p" | "contains s p" by auto
    then show ?case
    proof cases
      case 1
      then obtain r where "c # s = p @ r" by (auto simp: startswith_iff)
      then have "c # s = [] @ p @ r" by simp
      then show ?thesis by blast
    next
      case 2
      then obtain u v where "s = u @ p @ v" using Cons.IH by blast
      then have "c # s = (c # u) @ p @ v" by simp
      then show ?thesis by blast
    qed
  qed
next
  assume "\<exists>u v. s = u @ p @ v"
  then obtain u v where s: "s = u @ p @ v" by blast
  have "contains (p @ v) p" by (rule contains_startswith) simp
  then show "contains s p" unfolding s by (rule contains_append_left)
qed

lemma contains_mono: "contains s p \<Longrightarrow> contains (u @ s @ v) p"
  unfolding contains_iff by (metis append.assoc)

definition has_space :: "string \<Rightarrow> bool" where
  "has_space s \<longleftrightarrow> list_ex py_isspace s"

definition token :: "string \<Rightarrow> bool" where
  "token w \<longleftrightarrow> w \<noteq> [] \<and> \<not> has_space w"

lemma token_Cons: "token (c # w) \<longleftrightarrow> \<not> py_isspace c \<and> (\<forall>x \<in> set w. \<not> py_isspace x)"
  by (auto simp: token_def has_space_def list_ex_iff)

lemma py_split_token: "w \<in> set (py_split s) \<Longrightarrow> token w"
proof (induction s rule: py_split.induct)
  case 1
  then show ?case by simp
next
  case (2 c s)
  show ?case
  proof (cases "py_isspace c")
    case True
    with 2 show ?thesis by simp
  next
    case False
    with "2.prems" consider "w = c # takeWhile (\<lambda>x. \<not> py_isspace x) s"
      | "w \<in> set (py_split (dropWhile (\<lambda>x. \<not> py_isspace x) s))" by auto
    then show ?thesis
    proof cases
      case 1
      with False show ?thesis by (auto simp: token_Cons dest: set_takeWhileD)
    next
      case 2
      then show ?thesis using "2.IH"(2) [OF False] by blast
    qed
  qed
qed

lemma py_split_token_space:
  assumes "token w" and "py_isspace c"
  shows "py_split (w @ c # s) = w # py_split s"
proof -
  from assms(1) obtain a v where w: "w = a # v" "\<not> py_isspace a"
    and v: "\<forall>x \<in> set v. \<not> py_isspace x"
    by (cases w) (auto simp: token_def has_space_def list_ex_iff)
  have "takeWhile (\<lambda>x. \<not> py_isspace x) (v @ c # s) = v"
    and "dropWhile (\<lambda>x. \<not> py_isspace x) (v @ c # s) = c # s"
    using v assms(2) by (simp_all add: takeWhile_append2 dropWhile_append2)
  with w assms(2) show ?thesis by simp
qed

lemma py_split_single: "token w \<Longrightarrow> py_split w = [w]"
proof (cases w)
  case Nil
  then show "token w \<Longrightarrow> ?thesis" by (simp add: token_def)
next
  case (Cons a v)
  assume "token w"
  with Cons have "\<not> py_isspace a" and v: "\<forall>x \<in> set v. \<not> py_isspace x"
    by (simp_all add: token_Cons)
  moreover have "py_split (dropWhile (\<lambda>x. \<not> py_isspace x) v) = []"
    by (metis v dropWhile_eq_Nil_conv py_split.simps(1))
  ultimately show ?thesis by (simp add: Cons)
qed

lemma isspace_space [simp]: "py_isspace CHR '' ''"
  by (simp add: py_isspace_def)

lemma py_split_join:
  "list_all token ws \<Longrightarrow> py_split (py_join '' '' ws) = ws"
proof (induction ws rule: induct_list012)
  case (3 x y zs)
  then show ?case by (simp add: py_split_token_space)
qed (simp_all add: py_split_single)

lemma py_strip_Nil [simp]: "py_strip [] = []"
  by (simp add: py_strip_def rstrip_chars_def lstrip_chars_def)

lemma py_strip_no_lead: "py_strip s = c # t \<Longrightarrow> \<not> py_isspace c"
proof -
  assume s: "py_strip s = c # t"
  define u where "u = dropWhile py_isspace s"
  have st: "py_strip s = rev (dropWhile py_isspace (rev u))"
    by (simp add: py_strip_def rstrip_chars_def lstrip_chars_def u_def)
  then obtain v where "u = (c # t) @ v"
    using s by (metis dropWhile_eq_drop rev_append rev_rev_ident append_take_drop_id)
  then have "hd u = c" "u \<noteq> []" by auto
  then show ?thesis using hd_dropWhile [of py_isspace s] by (simp add: u_def)
qed

lemma length_rstrip_le: "length (rstrip_chars P s) \<le> length s"
  by (simp add: rstrip_chars_def) (metis length_dropWhile_le length_rev)

lemma py_strip_fixed_iff:
  "py_strip s = s \<longleftrightarrow> s = [] \<or> (\<not> py_isspace (hd s) \<and> \<not> py_isspace (last s))"
proof (cases "s = []")
  case True
  then show ?thesis by (simp add: py_strip_def rstrip_chars_def lstrip_chars_def)
next
  case False
  then obtain c t where s: "s = c # t" by (cases s) auto
  show ?thesis
  proof (cases "py_isspace c")
    case True
    have "py_strip s \<noteq> s"
    proof
      assume "py_strip s = s"
      with s have "\<not> py_isspace c" using py_strip_no_lead by metis
      with True show False by simp
    qed
    with s True show ?thesis by simp
  next
    case False
    then have "py_strip s = rev (dropWhile py_isspace (rev s))"
      by (simp add: s py_strip_def rstrip_chars_def lstrip_chars_def)
    moreover have "rev (dropWhile py_isspace (rev s)) = s \<longleftrightarrow> \<not> py_isspace (last s)"
    proof -
      obtain b x where sb: "s = b @ [x]" using \<open>s \<noteq> []\<close> by (metis rev_exhaust)
      have "length (dropWhile py_isspace (rev b)) \<noteq> Suc (length b)"
        using length_dropWhile_le [of py_isspace "rev b"] by simp
      then have "rev (dropWhile py_isspace (rev b)) \<noteq> b @ [x]"
        by (metis length_append_singleton length_rev)
      then show ?thesis by (simp add: sb)
    qed
    ultimately show ?thesis using s False by simp
  qed
qed

lemma py_strip_idem [simp]: "py_strip (py_strip s) = py_strip s"
proof (cases "py_strip s")
  case Nil
  then show ?thesis by simp
next
  case (Cons c t)
  define u where "u = dropWhile py_isspace s"
  have st: "py_strip s = rev (dropWhile py_isspace (rev u))"
    by (simp add: py_strip_def rstrip_chars_def lstrip_chars_def u_def)
  with Cons have "dropWhile py_isspace (rev u) \<noteq> []" by auto
  then have "\<not> py_isspace (hd (dropWhile py_isspace (rev u)))" by (rule hd_dropWhile)
  then have "\<not> py_isspace (last (py_strip s))"
    using st by (metis hd_rev rev_rev_ident)
  moreover have "\<not> py_isspace (hd (py_strip s))"
    using py_strip_no_lead [OF Cons] Cons by simp
  ultimately show ?thesis by (subst py_strip_fixed_iff) simp
qed

subsection \<open>Equality of values\<close>

lemma py_eq_Str [simp]: "py_eq v (PyStr s) \<longleftrightarrow> v = PyStr s"
  by (cases v) auto

lemma py_eq_None [simp]: "py_eq v PyNone \<longleftrightarrow> v = PyNone"
  by (cases v) auto

lemma as_str_Some [simp]: "as_str v = Some s \<longleftrightarrow> v = PyStr s"
  by (cases v) (auto simp: as_str_def)

lemma as_dict_Some [simp]: "as_dict v = Some d \<longleftrightarrow> v = PyDict d"
  by (cases v) (auto simp: as_dict_def)

lemma as_list_Some [simp]: "as_list v = Some d \<longleftrightarrow> v = PyList d"
  by (cases v) (auto simp: as_list_def)

lemma as_str_PyStr [simp]: "as_str (PyStr s) = Some s"
  by simp

lemma as_dict_PyDict [simp]: "as_dict (PyDict d) = Some d"
  by simp

lemma as_list_PyList [simp]: "as_list (PyList d) = Some d"
  by simp

end
