(* ===== verification/Py_Json.thy ===== *)
theory Py_Json
  imports Py_Prelude
begin

text \<open>
  How values become text: \<open>str\<close> and \<open>repr\<close> of the built-in types, and
  \<open>json.dumps\<close> with the options the sources pass (\<open>sort_keys\<close>, \<open>ensure_ascii\<close>,
  \<open>separators\<close>). All of them are total on the value type, so the \<open>default=str\<close> hook of
  \<open>json.dumps\<close> is never reached.
\<close>

section \<open>Escapes\<close>

definition hex_digit :: "nat \<Rightarrow> char" where
  "hex_digit d = (if d < 10 then char_of (48 + d) else char_of (87 + d))"

definition hex2 :: "char \<Rightarrow> string" where
  "hex2 c = (let n = of_char c :: nat in [hex_digit (n div 16), hex_digit (n mod 16)])"

text \<open>\<open>str.isprintable\<close> on the Latin-1 range.\<close>

definition py_printable :: "char \<Rightarrow> bool" where
  "py_printable c \<longleftrightarrow>
     (let n = of_char c :: nat in (32 \<le> n \<and> n \<le> 126) \<or> (161 \<le> n \<and> n \<noteq> 173))"

definition repr_char :: "char \<Rightarrow> char \<Rightarrow> string" where
  "repr_char q c =
     (if c = q \<or> c = BSLASH then [BSLASH, c]
      else if c = NL then [BSLASH, CHR ''n'']
      else if c = CHR 0x0D then [BSLASH, CHR ''r'']
      else if c = CHR 0x09 then [BSLASH, CHR ''t'']
      else if py_printable c then [c]
      else [BSLASH, CHR ''x''] @ hex2 c)"

definition py_repr_str :: "string \<Rightarrow> string" where
  "py_repr_str s =
     (let q = (if SQUOTE \<in> set s \<and> DQUOTE \<notin> set s then DQUOTE else SQUOTE)
      in [q] @ concat (map (repr_char q) s) @ [q])"

section \<open>repr and str\<close>

fun py_repr :: "pyval \<Rightarrow> string" where
  "py_repr PyNone = ''None''"
| "py_repr (PyBool b) = (if b then ''True'' else ''False'')"
| "py_repr (PyInt i) = string_of_int i"
| "py_repr (PyFloat r t) = t"
| "py_repr (PyStr s) = py_repr_str s"
| "py_repr (PyList xs) = ''['' @ py_join '', '' (map py_repr xs) @ '']''"
| "py_repr (PyDict d) =
     ''{'' @ py_join '', '' (map (\<lambda>(k, v). py_repr_str k @ '': '' @ py_repr v) d) @ ''}''"

definition py_str :: "pyval \<Rightarrow> string" where
  "py_str v = (case v of PyStr s \<Rightarrow> s | _ \<Rightarrow> py_repr v)"

section \<open>json.dumps\<close>

record json_opts =
  ensure_ascii :: bool
  sort_keys :: bool
  item_sep :: string
  key_sep :: string

definition json_default_opts :: json_opts where
  "json_default_opts =
     \<lparr>ensure_ascii = True, sort_keys = False, item_sep = '', '', key_sep = '': ''\<rparr>"

definition json_char :: "bool \<Rightarrow> char \<Rightarrow> string" where
  "json_char ascii c =
     (if c = DQUOTE \<or> c = BSLASH then [BSLASH, c]
      else if c = NL then [BSLASH, CHR ''n'']
      else if c = CHR 0x0D then [BSLASH, CHR ''r'']
      else if c = CHR 0x09 then [BSLASH, CHR ''t'']
      else if c = CHR 0x0C then [BSLASH, CHR ''f'']
      else if c = CHR 0x08 then [BSLASH, CHR ''b'']
      else let n = of_char c :: nat in
        if n < 32 \<or> (ascii \<and> 126 < n) then [BSLASH] @ ''u00'' @ hex2 c else [c])"

definition json_str :: "bool \<Rightarrow> string \<Rightarrow> string" where
  "json_str ascii s = [DQUOTE] @ concat (map (json_char ascii) s) @ [DQUOTE]"

text \<open>Strings compare by code point.\<close>

fun str_le :: "string \<Rightarrow> string \<Rightarrow> bool" where
  "str_le [] t \<longleftrightarrow> True"
| "str_le (c # s) [] \<longleftrightarrow> False"
| "str_le (c # s) (d # t) \<longleftrightarrow>
     (of_char c :: nat) < of_char d \<or> (c = d \<and> str_le s t)"

fun insert_key :: "(string \<times> 'v) \<Rightarrow> (string \<times> 'v) list \<Rightarrow> (string \<times> 'v) list" where
  "insert_key kv [] = [kv]"
| "insert_key kv (lw # d) = (if str_le (fst kv) (fst lw) then kv # lw # d else lw # insert_key kv d)"

definition sort_items :: "(string \<times> 'v) list \<Rightarrow> (string \<times> 'v) list" where
  "sort_items d = foldr insert_key d []"

text \<open>\<open>sorted\<close> of a list of strings.\<close>

definition sorted_strings :: "string list \<Rightarrow> string list" where
  "sorted_strings ss = map fst (sort_items (map (\<lambda>s. (s, ())) ss))"

lemma set_insert_key [simp]: "set (insert_key kv d) = insert kv (set d)"
  by (induction d) auto

lemma set_sort_items [simp]: "set (sort_items d) = set d"
  unfolding sort_items_def by (induction d) auto

lemma length_insert_key [simp]: "length (insert_key kv d) = Suc (length d)"
  by (induction d) auto

lemma length_sort_items [simp]: "length (sort_items d) = length d"
  unfolding sort_items_def by (induction d) auto

fun json_dumps :: "json_opts \<Rightarrow> pyval \<Rightarrow> string" where
  "json_dumps opt PyNone = ''null''"
| "json_dumps opt (PyBool b) = (if b then ''true'' else ''false'')"
| "json_dumps opt (PyInt i) = string_of_int i"
| "json_dumps opt (PyFloat r t) = t"
| "json_dumps opt (PyStr s) = json_str (ensure_ascii opt) s"
| "json_dumps opt (PyList xs) = ''['' @ py_join (item_sep opt) (map (json_dumps opt) xs) @ '']''"
| "json_dumps opt (PyDict d) =
     ''{'' @ py_join (item_sep opt)
       (map (\<lambda>(k, t). json_str (ensure_ascii opt) k @ key_sep opt @ t)
         (let items = map (\<lambda>(k, v). (k, json_dumps opt v)) d
          in if sort_keys opt then sort_items items else items)) @ ''}''"

section \<open>json.loads\<close>

text \<open>
  The decoder of the standard library as a recursive descent over the text, with one unit of
  fuel for every nesting step or list element (\<open>Suc (length text)\<close> is always enough: each
  step consumes a character). \<open>None\<close> is a \<open>JSONDecodeError\<close>. An escape for a code
  point above 255 and the non-standard \<open>NaN\<close> and \<open>Infinity\<close> have no value in the model
  and are refused; a float keeps its literal as its text.
\<close>

definition json_ws :: "char \<Rightarrow> bool" where
  "json_ws c \<longleftrightarrow> c \<in> set [CHR '' '', CHR 0x09, NL, CHR 0x0D]"

definition skip_ws :: "string \<Rightarrow> string" where
  "skip_ws s = dropWhile json_ws s"

definition hex_value :: "char \<Rightarrow> nat option" where
  "hex_value c =
     (let n = of_char c :: nat in
      if 48 \<le> n \<and> n \<le> 57 then Some (n - 48)
      else if 97 \<le> n \<and> n \<le> 102 then Some (n - 87)
      else if 65 \<le> n \<and> n \<le> 70 then Some (n - 55)
      else None)"

text \<open>The character an escape letter stands for.\<close>

definition simple_escape :: "char \<Rightarrow> char option" where
  "simple_escape c = map_of
     [(DQUOTE, DQUOTE), (BSLASH, BSLASH), (CHR ''/'', CHR ''/''), (CHR ''b'', CHR 0x08),
      (CHR ''f'', CHR 0x0C), (CHR ''n'', NL), (CHR ''r'', CHR 0x0D), (CHR ''t'', CHR 0x09)] c"

fun json_string :: "string \<Rightarrow> (string \<times> string) option" where
  "json_string [] = None"
| "json_string (c # s) =
     (if c = DQUOTE then Some ([], s)
      else if c = BSLASH then
        (case s of
           [] \<Rightarrow> None
         | e # r \<Rightarrow>
             if e = CHR ''u'' then
               (case r of
                  a # b # x # y # r' \<Rightarrow>
                    (case (hex_value a, hex_value b, hex_value x, hex_value y) of
                       (Some 0, Some 0, Some m, Some n) \<Rightarrow>
                         map_option (\<lambda>(t, u). (char_of (16 * m + n) # t, u)) (json_string r')
                     | _ \<Rightarrow> None)
                | _ \<Rightarrow> None)
             else (case simple_escape e of
                     None \<Rightarrow> None
                   | Some d \<Rightarrow> map_option (\<lambda>(t, u). (d # t, u)) (json_string r)))
      else if (of_char c :: nat) < 32 then None
      else map_option (\<lambda>(t, u). (c # t, u)) (json_string s))"

definition span_digits :: "string \<Rightarrow> string \<times> string" where
  "span_digits s = (takeWhile ascii_digit s, dropWhile ascii_digit s)"

text \<open>The integer part: an optional sign, then \<open>0\<close> or digits without a leading zero.\<close>

definition json_int_part :: "string \<Rightarrow> (string \<times> string) option" where
  "json_int_part s =
     (let (sg, r) = (case s of c # r \<Rightarrow> if c = CHR ''-'' then (''-'', r) else ([], s) | [] \<Rightarrow> ([], s))
      in case r of
           [] \<Rightarrow> None
         | d # r' \<Rightarrow>
             if d = CHR ''0'' then Some (sg @ ''0'', r')
             else if ascii_digit d
               then (let (ds, rest) = span_digits r in Some (sg @ ds, rest))
             else None)"

definition json_frac_part :: "string \<Rightarrow> string \<times> string" where
  "json_frac_part s =
     (case s of
        c # r \<Rightarrow> if c = CHR ''.'' \<and> fst (span_digits r) \<noteq> []
                 then (c # fst (span_digits r), snd (span_digits r)) else ([], s)
      | [] \<Rightarrow> ([], s))"

definition json_exp_part :: "string \<Rightarrow> string \<times> string" where
  "json_exp_part s =
     (case s of
        c # r \<Rightarrow>
          if c = CHR ''e'' \<or> c = CHR ''E'' then
            (let (sg, r') = (case r of d # r'' \<Rightarrow> if d = CHR ''-'' \<or> d = CHR ''+'' then ([d], r'') else ([], r)
                             | [] \<Rightarrow> ([], r))
             in if fst (span_digits r') \<noteq> []
                then (c # sg @ fst (span_digits r'), snd (span_digits r')) else ([], s))
          else ([], s)
      | [] \<Rightarrow> ([], s))"

definition signed_value :: "string \<Rightarrow> int" where
  "signed_value s = (case s of c # r \<Rightarrow> if c = CHR ''-'' then - int (nat_of_digits 0 r)
                        else if c = CHR ''+'' then int (nat_of_digits 0 r) else int (nat_of_digits 0 s)
                     | [] \<Rightarrow> 0)"

definition float_value :: "string \<Rightarrow> string \<Rightarrow> string \<Rightarrow> rat" where
  "float_value ip fp ep =
     (let digits = tl fp;
          mag = of_nat (nat_of_digits 0 (dropWhile (\<lambda>c. c = CHR ''-'') ip @ digits)) / 10 ^ length digits;
          e = signed_value (tl ep);
          v = (if 0 \<le> e then mag * 10 ^ nat e else mag / 10 ^ nat (- e))
      in if startswith ip ''-'' then - v else v)"

definition json_number :: "string \<Rightarrow> (pyval \<times> string) option" where
  "json_number s =
     (case json_int_part s of
        None \<Rightarrow> None
      | Some (ip, r1) \<Rightarrow>
          let (fp, r2) = json_frac_part r1; (ep, r3) = json_exp_part r2
          in if fp = [] \<and> ep = [] then Some (PyInt (signed_value ip), r1)
             else Some (PyFloat (float_value ip fp ep) (ip @ fp @ ep), r3))"

definition json_literal :: "string \<Rightarrow> (pyval \<times> string) option" where
  "json_literal s =
     (if startswith s ''null'' then Some (PyNone, drop 4 s)
      else if startswith s ''true'' then Some (PyBool True, drop 4 s)
      else if startswith s ''false'' then Some (PyBool False, drop 5 s)
      else json_number s)"

fun json_value :: "nat \<Rightarrow> string \<Rightarrow> (pyval \<times> string) option"
  and json_array :: "nat \<Rightarrow> pyval list \<Rightarrow> string \<Rightarrow> (pyval \<times> string) option"
  and json_object :: "nat \<Rightarrow> pydict \<Rightarrow> string \<Rightarrow> (pyval \<times> string) option" where
  "json_value 0 s = None"
| "json_value (Suc n) s =
     (case s of
        [] \<Rightarrow> None
      | c # r \<Rightarrow>
          if c = DQUOTE then map_option (\<lambda>(t, u). (PyStr t, u)) (json_string r)
          else if c = CHR ''['' then
            (case skip_ws r of
               [] \<Rightarrow> None
             | d # r' \<Rightarrow> if d = CHR '']'' then Some (PyList [], r') else json_array n [] (d # r'))
          else if c = CHR ''{'' then
            (case skip_ws r of
               [] \<Rightarrow> None
             | d # r' \<Rightarrow> if d = CHR ''}'' then Some (PyDict [], r') else json_object n [] (d # r'))
          else json_literal s)"
| "json_array 0 acc s = None"
| "json_array (Suc n) acc s =
     (case json_value n s of
        None \<Rightarrow> None
      | Some (v, r) \<Rightarrow>
          (case skip_ws r of
             [] \<Rightarrow> None
           | d # r' \<Rightarrow>
               if d = CHR '']'' then Some (PyList (acc @ [v]), r')
               else if d = CHR '','' then json_array n (acc @ [v]) (skip_ws r')
               else None))"
| "json_object 0 acc s = None"
| "json_object (Suc n) acc s =
     (case s of
        [] \<Rightarrow> None
      | q # s' \<Rightarrow>
          if q \<noteq> DQUOTE then None
          else (case json_string s' of
             None \<Rightarrow> None
           | Some (k, r) \<Rightarrow>
               (case skip_ws r of
                  [] \<Rightarrow> None
                | d # r' \<Rightarrow>
                    if d \<noteq> CHR '':'' then None
                    else (case json_value n (skip_ws r') of
                       None \<Rightarrow> None
                     | Some (v, r2) \<Rightarrow>
                         (case skip_ws r2 of
                            [] \<Rightarrow> None
                          | e # r3 \<Rightarrow>
                              if e = CHR ''}'' then Some (PyDict (dict_set acc k v), r3)
                              else if e = CHR '','' then json_object n (dict_set acc k v) (skip_ws r3)
                              else None)))))"

definition json_loads :: "string \<Rightarrow> pyval option" where
  "json_loads s =
     (case json_value (Suc (length s)) (skip_ws s) of
        None \<Rightarrow> None
      | Some (v, r) \<Rightarrow> if skip_ws r = [] then Some v else None)"

section \<open>str.splitlines\<close>

definition line_break :: "char \<Rightarrow> bool" where
  "line_break c \<longleftrightarrow> c \<in> set [NL, CHR 0x0D, CHR 0x0B, CHR 0x0C, CHR 0x1C, CHR 0x1D, CHR 0x1E, CHR 0x85]"

fun splitlines_from :: "string \<Rightarrow> string \<Rightarrow> string list" where
  "splitlines_from cur [] = (if cur = [] then [] else [cur])"
| "splitlines_from cur (c # s) =
     (if c = CHR 0x0D \<and> s \<noteq> [] \<and> hd s = NL
      then cur # (case s of [] \<Rightarrow> [] | _ # s' \<Rightarrow> splitlines_from [] s')
      else if line_break c then cur # splitlines_from [] s
      else splitlines_from (cur @ [c]) s)"

definition py_splitlines :: "string \<Rightarrow> string list" where
  "py_splitlines s = splitlines_from [] s"

end
