(* ===== verification/Halt_Delivery.thy ===== *)
theory Halt_Delivery
  imports Py_Json
begin

text \<open>
  The halt signal of a session and how a halted session answers
  (\<open>guardrails/halt_consumer.py\<close>, \<open>conversation/graceful_halt.py\<close>).

  Session state is the dict the callbacks read and write; a key holding \<open>None\<close> reads as
  absent. Of ADK's request and response types only the fields these callbacks touch are
  kept: the tool table, the tools and tool configuration of the request's config, and the
  list of contents. A consumer that finds a halt first lets the model speak once more with
  every tool stripped, then answers with the bare envelope.
\<close>

section \<open>ADK carriers\<close>

record part =
  part_text :: "string option"

record content =
  role :: string
  parts :: "part list"

record llm_request =
  tools_dict :: pydict
  config_tools :: "string list option"
  config_tool_config :: "pyval option"
  contents :: "content list"

record llm_response =
  resp_content :: "content option"

definition text_part :: "string \<Rightarrow> part" where
  "text_part s = \<lparr>part_text = Some s\<rparr>"

section \<open>halt_consumer.py\<close>

definition HALT_REASON_STATE_KEY :: string where
  "HALT_REASON_STATE_KEY = ''halt_reason''"

definition HALT_HANDOFF_DELIVERED_STATE_KEY :: string where
  "HALT_HANDOFF_DELIVERED_STATE_KEY = ''__halt_handoff_delivered__''"

definition halt_content :: "string \<Rightarrow> content" where
  "halt_content reason =
     \<lparr>role = ''model'', parts = [text_part (''[halted: '' @ reason @ '']'')]\<rparr>"

definition acknowledge_halt :: "pydict \<Rightarrow> pydict" where
  "acknowledge_halt state = dict_set state HALT_REASON_STATE_KEY PyNone"

definition reset_halt_handoff :: "pydict \<Rightarrow> pydict" where
  "reset_halt_handoff state = dict_set state HALT_HANDOFF_DELIVERED_STATE_KEY PyNone"

definition latch_halt :: "pydict \<Rightarrow> string \<Rightarrow> bool \<times> pydict" where
  "latch_halt state reason =
     (if truthy (dict_get state HALT_REASON_STATE_KEY) then (False, state)
      else (True, dict_set state HALT_REASON_STATE_KEY (PyStr reason)))"

section \<open>graceful_halt.py\<close>

definition handoff_head :: string where
  "handoff_head =
     ''<system-reminder>'' @ [NL] @ ''STOP '' @ EMDASH @ '' this turn's budget has been reached (''"

definition handoff_tail :: string where
  "handoff_tail =
     ''). Tools are now disabled; you cannot make any more tool calls this turn. Respond with text ONLY.''
     @ [NL, NL] @ ''Your reply MUST contain:'' @ [NL]
     @ ''1. A short summary of the work completed so far this turn.'' @ [NL]
     @ ''2. The remaining tasks that were not finished.'' @ [NL]
     @ ''3. Concrete recommendations for what to do next (the user can reply to continue in a fresh turn with a fresh budget).''
     @ [NL, NL] @ ''Do not apologize at length and do not attempt any tool call '' @ EMDASH
     @ '' it will be rejected.'' @ [NL] @ ''</system-reminder>''"

definition build_handoff_reminder :: "string \<Rightarrow> string" where
  "build_handoff_reminder reason = handoff_head @ reason @ handoff_tail"

definition apply_graceful_halt :: "llm_request \<Rightarrow> string \<Rightarrow> llm_request" where
  "apply_graceful_halt req reason =
     (let req = req\<lparr>tools_dict := []\<rparr>;
          req = (if config_tools req \<noteq> None \<and> config_tools req \<noteq> Some []
                 then req\<lparr>config_tools := Some []\<rparr> else req);
          req = (if config_tool_config req \<noteq> None
                 then req\<lparr>config_tool_config := None\<rparr> else req)
      in req\<lparr>contents := contents req @
           [\<lparr>role = ''user'', parts = [text_part (build_handoff_reminder reason)]\<rparr>]\<rparr>)"

text \<open>The result carries the response (\<open>None\<close> lets the model run), the request and the
  state the callback leaves behind.\<close>

definition deliver_halt_or_envelope ::
    "llm_request \<Rightarrow> pydict \<Rightarrow> string \<Rightarrow> string \<Rightarrow> llm_response option \<times> llm_request \<times> pydict" where
  "deliver_halt_or_envelope req state reason flag_key =
     (if \<not> truthy (dict_get state flag_key)
      then (None, apply_graceful_halt req reason, dict_set state flag_key (PyBool True))
      else (Some \<lparr>resp_content = Some (halt_content reason)\<rparr>, req, state))"

text \<open>The consumer reads a stored reason with \<open>str\<close> (the f-string of the envelope).\<close>

definition halt_consumer_callback ::
    "pydict \<Rightarrow> llm_request \<Rightarrow> llm_response option \<times> llm_request \<times> pydict" where
  "halt_consumer_callback state req =
     (let reason = dict_get state HALT_REASON_STATE_KEY
      in if \<not> truthy reason then (None, req, state)
         else deliver_halt_or_envelope req state (py_str reason) HALT_HANDOFF_DELIVERED_STATE_KEY)"

section \<open>What a halted consumer guarantees\<close>

definition no_tools :: "llm_request \<Rightarrow> bool" where
  "no_tools req \<longleftrightarrow> tools_dict req = [] \<and> (config_tools req = None \<or> config_tools req = Some [])
     \<and> config_tool_config req = None"

lemma HALT_keys_distinct [simp]:
  "HALT_REASON_STATE_KEY \<noteq> HALT_HANDOFF_DELIVERED_STATE_KEY"
  "HALT_HANDOFF_DELIVERED_STATE_KEY \<noteq> HALT_REASON_STATE_KEY"
  by (simp_all add: HALT_REASON_STATE_KEY_def HALT_HANDOFF_DELIVERED_STATE_KEY_def)

lemma apply_graceful_halt_no_tools: "no_tools (apply_graceful_halt req reason)"
  by (auto simp: no_tools_def apply_graceful_halt_def Let_def)

lemma apply_graceful_halt_contents:
  "contents (apply_graceful_halt req reason) =
     contents req @ [\<lparr>role = ''user'', parts = [text_part (build_handoff_reminder reason)]\<rparr>]"
  by (simp add: apply_graceful_halt_def Let_def)

lemma deliver_sets_flag:
  "deliver_halt_or_envelope req state reason k = (r, req', state') \<Longrightarrow> truthy (dict_get state' k)"
  by (auto simp: deliver_halt_or_envelope_def split: if_splits)

lemma deliver_frame:
  "deliver_halt_or_envelope req state reason k = (r, req', state') \<Longrightarrow> k' \<noteq> k \<Longrightarrow>
   dict_get state' k' = dict_get state k'"
  by (auto simp: deliver_halt_or_envelope_def split: if_splits)

lemma deliver_blocks_or_strips:
  "deliver_halt_or_envelope req state reason k = (r, req', state') \<Longrightarrow>
   (r = None \<and> no_tools req') \<or> r = Some \<lparr>resp_content = Some (halt_content reason)\<rparr>"
  by (auto simp: deliver_halt_or_envelope_def apply_graceful_halt_no_tools split: if_splits)

lemma deliver_repeat:
  "truthy (dict_get state k) \<Longrightarrow>
   deliver_halt_or_envelope req state reason k =
     (Some \<lparr>resp_content = Some (halt_content reason)\<rparr>, req, state)"
  by (simp add: deliver_halt_or_envelope_def)

lemma latch_halt_sets: "latch_halt state reason = (b, state') \<Longrightarrow> reason \<noteq> [] \<Longrightarrow>
   truthy (dict_get state' HALT_REASON_STATE_KEY)"
  by (auto simp: latch_halt_def split: if_splits)

lemma latch_halt_frame: "k \<noteq> HALT_REASON_STATE_KEY \<Longrightarrow>
   dict_get (snd (latch_halt state reason)) k = dict_get state k"
  by (simp add: latch_halt_def)

text \<open>The first reason wins: a latched reason is never overwritten by another guard.\<close>

lemma latch_halt_first_wins:
  "truthy (dict_get state HALT_REASON_STATE_KEY) \<Longrightarrow> latch_halt state reason = (False, state)"
  by (simp add: latch_halt_def)

section \<open>The contract of a halt gate\<close>

text \<open>
  Two plugins gate model calls on a halt of their own (the budget and the guardrails). What
  they share is the interface below: outside a halt the gate is the identity; the first
  gated call reaches the model without tools and is marked; every later one is answered by
  the envelope. The callbacks may raise only where the state invariant fails.
\<close>

type_synonym model_outcome = "llm_response option \<times> llm_request \<times> pydict"

definition envelope :: "string \<Rightarrow> llm_response" where
  "envelope why = \<lparr>resp_content = Some (halt_content why)\<rparr>"

text \<open>The outcomes of a series of model calls: the response of the gate and the request as the
  model would see it.\<close>

fun model_calls ::
    "(pydict \<Rightarrow> llm_request \<Rightarrow> model_outcome py) \<Rightarrow> pydict \<Rightarrow> llm_request list \<Rightarrow>
     (llm_response option \<times> llm_request) list py" where
  "model_calls gate s [] = Inr []"
| "model_calls gate s (req # reqs) =
     py_bind (gate s req) (\<lambda>(r, req', s').
     py_bind (model_calls gate s' reqs) (\<lambda>rest. Inr ((r, req') # rest)))"

definition is_envelope :: "llm_response option \<times> llm_request \<Rightarrow> bool" where
  "is_envelope x = (case fst x of None \<Rightarrow> False
     | Some r \<Rightarrow> (case resp_content r of None \<Rightarrow> False
        | Some c \<Rightarrow> role c = ''model'' \<and>
            (case parts c of [q] \<Rightarrow> (case part_text q of None \<Rightarrow> False
                | Some t \<Rightarrow> startswith t ''[halted: '') | _ \<Rightarrow> False)))"

lemma is_envelope_envelope [simp]: "is_envelope (Some (envelope why), req)"
  by (simp add: is_envelope_def envelope_def halt_content_def text_part_def startswith_def)

locale halt_gate =
  fixes inv :: "pydict \<Rightarrow> bool"
    and is_halted :: "pydict \<Rightarrow> bool"
    and delivered :: "pydict \<Rightarrow> bool"
    and gate :: "pydict \<Rightarrow> llm_request \<Rightarrow> model_outcome py"
  assumes pass: "inv s \<Longrightarrow> \<not> is_halted s \<Longrightarrow> gate s req = Inr (None, req, s)"
    and first: "inv s \<Longrightarrow> is_halted s \<Longrightarrow> \<not> delivered s \<Longrightarrow>
      \<exists>req' s'. gate s req = Inr (None, req', s') \<and> no_tools req' \<and>
        inv s' \<and> is_halted s' \<and> delivered s'"
    and later: "inv s \<Longrightarrow> is_halted s \<Longrightarrow> delivered s \<Longrightarrow>
      \<exists>why. gate s req = Inr (Some (envelope why), req, s)"
begin

lemma delivered_all_envelopes:
  assumes "inv s" "is_halted s" "delivered s"
  shows "\<exists>outs. model_calls gate s reqs = Inr outs \<and> length outs = length reqs \<and>
           list_all is_envelope outs"
proof (induction reqs)
  case Nil
  show ?case by simp
next
  case (Cons req reqs)
  obtain why where "gate s req = Inr (Some (envelope why), req, s)"
    using later [OF assms] by blast
  with Cons show ?case by auto
qed

lemma halted_one_handoff:
  assumes "inv s" "is_halted s" "\<not> delivered s"
  shows "\<exists>req' outs. model_calls gate s (req # reqs) = Inr ((None, req') # outs) \<and>
           no_tools req' \<and> length outs = length reqs \<and> list_all is_envelope outs"
proof -
  obtain req' s' where g: "gate s req = Inr (None, req', s')" "no_tools req'"
    and s': "inv s'" "is_halted s'" "delivered s'"
    using first [OF assms] by blast
  from delivered_all_envelopes [OF s', of reqs] g show ?thesis by auto
qed

end

text \<open>The guardrails consumer is such a gate, on any state.\<close>

definition guard_halted :: "pydict \<Rightarrow> bool" where
  "guard_halted s \<longleftrightarrow> truthy (dict_get s HALT_REASON_STATE_KEY)"

definition guard_delivered :: "pydict \<Rightarrow> bool" where
  "guard_delivered s \<longleftrightarrow> truthy (dict_get s HALT_HANDOFF_DELIVERED_STATE_KEY)"

interpretation consumer: halt_gate "\<lambda>s. True" guard_halted guard_delivered
  "\<lambda>s req. Inr (halt_consumer_callback s req)"
proof unfold_locales
  fix s req
  show "\<not> guard_halted s \<Longrightarrow> Inr (halt_consumer_callback s req) = Inr (None, req, s)"
    by (simp add: guard_halted_def halt_consumer_callback_def)
  show "guard_halted s \<Longrightarrow> \<not> guard_delivered s \<Longrightarrow>
    \<exists>req' s'. Inr (halt_consumer_callback s req) = Inr (None, req', s') \<and> no_tools req' \<and>
       True \<and> guard_halted s' \<and> guard_delivered s'"
    by (simp add: guard_halted_def guard_delivered_def halt_consumer_callback_def
        deliver_halt_or_envelope_def apply_graceful_halt_no_tools)
  show "guard_halted s \<Longrightarrow> guard_delivered s \<Longrightarrow>
    \<exists>why. Inr (halt_consumer_callback s req) = Inr (Some (envelope why), req, s)"
    by (auto simp: guard_halted_def guard_delivered_def halt_consumer_callback_def
        deliver_halt_or_envelope_def envelope_def)
qed

end
