(* ===== verification/Iteration_Budget.thy ===== *)
theory Iteration_Budget
  imports Halt_Delivery
begin

text \<open>
  The iteration and tool-call budget of a session: the budget object of
  \<open>conversation/iteration_budget.py\<close> and the plugin of
  \<open>conversation/iteration_budget_plugin.py\<close> that rebuilds it from session state on
  every callback and writes it back. A method that raises leaves the object as it was, so
  an operation returns either the exception or the new object.

  The invariants hold along every sequence of callbacks, which the step function
  \<open>budget_step\<close> and its run \<open>budget_run\<close> describe.
\<close>

section \<open>iteration_budget.py\<close>

datatype budget_exn =
    IterationLimitExceeded string
  | ToolCallLimitExceeded string
  | AgentHalted string

definition budget_exn_str :: "budget_exn \<Rightarrow> string" where
  "budget_exn_str e =
     (case e of IterationLimitExceeded m \<Rightarrow> m | ToolCallLimitExceeded m \<Rightarrow> m | AgentHalted m \<Rightarrow> m)"

record iteration_budget =
  max_iterations :: int
  max_tool_calls_per_iteration :: int
  iterations_used :: int
  tool_calls_this_iteration :: int
  halted :: bool
  halt_reason :: "string option"

definition IterationBudget :: "int \<Rightarrow> int \<Rightarrow> iteration_budget py" where
  "IterationBudget mi mt =
     (if mi \<le> 0 then Inl (ValueError (''max_iterations must be positive, got '' @ string_of_int mi))
      else if mt \<le> 0 then
        Inl (ValueError (''max_tool_calls_per_iteration must be positive, got '' @ string_of_int mt))
      else Inr \<lparr>max_iterations = mi, max_tool_calls_per_iteration = mt, iterations_used = 0,
                tool_calls_this_iteration = 0, halted = False, halt_reason = None\<rparr>)"

definition remaining_iterations :: "iteration_budget \<Rightarrow> int" where
  "remaining_iterations b = max 0 (max_iterations b - iterations_used b)"

definition halted_message :: "iteration_budget \<Rightarrow> string" where
  "halted_message b =
     (case halt_reason b of
        None \<Rightarrow> ''Agent halted''
      | Some r \<Rightarrow> if r = [] then ''Agent halted'' else ''Agent halted: '' @ r)"

definition record_iteration :: "iteration_budget \<Rightarrow> budget_exn + iteration_budget" where
  "record_iteration b =
     (if halted b then Inl (AgentHalted (halted_message b))
      else if iterations_used b \<ge> max_iterations b then
        Inl (IterationLimitExceeded (''Iteration limit reached: '' @ string_of_int (max_iterations b)))
      else Inr (b\<lparr>iterations_used := iterations_used b + 1\<rparr>))"

definition record_tool_call :: "iteration_budget \<Rightarrow> budget_exn + iteration_budget" where
  "record_tool_call b =
     (if halted b then Inl (AgentHalted (halted_message b))
      else if tool_calls_this_iteration b \<ge> max_tool_calls_per_iteration b then
        Inl (ToolCallLimitExceeded (''Tool-call limit reached for this iteration: ''
               @ string_of_int (max_tool_calls_per_iteration b)))
      else Inr (b\<lparr>tool_calls_this_iteration := tool_calls_this_iteration b + 1\<rparr>))"

definition reset_iteration_counters :: "iteration_budget \<Rightarrow> iteration_budget" where
  "reset_iteration_counters b = b\<lparr>tool_calls_this_iteration := 0\<rparr>"

definition halt :: "iteration_budget \<Rightarrow> string \<Rightarrow> iteration_budget" where
  "halt b reason = b\<lparr>halted := True, halt_reason := Some reason\<rparr>"

section \<open>iteration_budget_plugin.py\<close>

definition ITERATION_STATE_KEY :: string where
  "ITERATION_STATE_KEY = ''iteration''"
definition TOOL_CALLS_STATE_KEY :: string where
  "TOOL_CALLS_STATE_KEY = ''_iteration_budget_tool_calls''"
definition HALTED_STATE_KEY :: string where
  "HALTED_STATE_KEY = ''_iteration_budget_halted''"
definition BUDGET_HALT_REASON_STATE_KEY :: string where
  "BUDGET_HALT_REASON_STATE_KEY = ''_iteration_budget_halt_reason''"
definition HANDOFF_DELIVERED_STATE_KEY :: string where
  "HANDOFF_DELIVERED_STATE_KEY = ''_iteration_budget_handoff_delivered''"

lemmas budget_key_defs = ITERATION_STATE_KEY_def TOOL_CALLS_STATE_KEY_def HALTED_STATE_KEY_def
  BUDGET_HALT_REASON_STATE_KEY_def HANDOFF_DELIVERED_STATE_KEY_def

record budget_plugin =
  plugin_max_iterations :: int
  plugin_max_tool_calls :: int

definition IterationBudgetPlugin :: "int \<Rightarrow> int \<Rightarrow> budget_plugin py" where
  "IterationBudgetPlugin mi mt =
     (if mi \<le> 0 then Inl (ValueError (''max_iterations must be positive, got '' @ string_of_int mi))
      else if mt \<le> 0 then
        Inl (ValueError (''max_tool_calls_per_iteration must be positive, got '' @ string_of_int mt))
      else Inr \<lparr>plugin_max_iterations = mi, plugin_max_tool_calls = mt\<rparr>)"

text \<open>A stored reason that is not a string reads as \<open>None\<close>: only the plugin writes this
  key, with a string or \<open>None\<close>.\<close>

definition hydrate_budget :: "budget_plugin \<Rightarrow> pydict \<Rightarrow> iteration_budget py" where
  "hydrate_budget p state =
     py_bind (IterationBudget (plugin_max_iterations p) (plugin_max_tool_calls p)) (\<lambda>b.
     py_bind (py_int (dict_get_default state ITERATION_STATE_KEY (PyInt 0))) (\<lambda>used.
     py_bind (py_int (dict_get_default state TOOL_CALLS_STATE_KEY (PyInt 0))) (\<lambda>calls.
     let b = b\<lparr>iterations_used := used, tool_calls_this_iteration := calls\<rparr>
     in Inr (if truthy (dict_get state HALTED_STATE_KEY)
             then b\<lparr>halted := True, halt_reason := as_str (dict_get state BUDGET_HALT_REASON_STATE_KEY)\<rparr>
             else b))))"

definition opt_str :: "string option \<Rightarrow> pyval" where
  "opt_str r = (case r of None \<Rightarrow> PyNone | Some s \<Rightarrow> PyStr s)"

definition persist_budget :: "pydict \<Rightarrow> iteration_budget \<Rightarrow> pydict" where
  "persist_budget state b =
     dict_set (dict_set (dict_set (dict_set state
       ITERATION_STATE_KEY (PyInt (iterations_used b)))
       TOOL_CALLS_STATE_KEY (PyInt (tool_calls_this_iteration b)))
       HALTED_STATE_KEY (PyBool (halted b)))
       BUDGET_HALT_REASON_STATE_KEY (opt_str (halt_reason b))"

definition before_run_callback :: "budget_plugin \<Rightarrow> pydict \<Rightarrow> pydict py" where
  "before_run_callback p state =
     py_bind (hydrate_budget p state) (\<lambda>b.
     if halted b then Inr state
     else case record_iteration b of
         Inl exc \<Rightarrow> Inr (persist_budget state (halt b (budget_exn_str exc)))
       | Inr b' \<Rightarrow>
           Inr (persist_budget (dict_set state HANDOFF_DELIVERED_STATE_KEY PyNone)
                  (reset_iteration_counters b')))"

definition budget_before_model_callback ::
    "budget_plugin \<Rightarrow> pydict \<Rightarrow> llm_request \<Rightarrow> (llm_response option \<times> llm_request \<times> pydict) py" where
  "budget_before_model_callback p state req =
     py_bind (hydrate_budget p state) (\<lambda>b.
     if \<not> halted b then Inr (None, req, state)
     else let reason = (case halt_reason b of None \<Rightarrow> ''agent halted''
                        | Some r \<Rightarrow> if r = [] then ''agent halted'' else r)
          in Inr (deliver_halt_or_envelope req state reason HANDOFF_DELIVERED_STATE_KEY))"

text \<open>One iteration of the loop over the event's function calls.\<close>

definition count_tool_call :: "iteration_budget \<Rightarrow> iteration_budget" where
  "count_tool_call b =
     (case record_tool_call b of
        Inr b' \<Rightarrow> b'
      | Inl exc \<Rightarrow> if \<not> halted b then halt b (budget_exn_str exc) else b)"

definition on_event_callback :: "budget_plugin \<Rightarrow> pydict \<Rightarrow> nat \<Rightarrow> pydict py" where
  "on_event_callback p state n_calls =
     py_bind (hydrate_budget p state) (\<lambda>b.
     Inr (persist_budget state ((count_tool_call ^^ n_calls) b)))"

text \<open>The live view of \<open>_budget_for\<close>: each mutation is followed by a flush.\<close>

definition bound_halt :: "budget_plugin \<Rightarrow> pydict \<Rightarrow> string \<Rightarrow> pydict py" where
  "bound_halt p state reason =
     py_bind (hydrate_budget p state) (\<lambda>b. Inr (persist_budget state (halt b reason)))"

definition bound_record_iteration :: "budget_plugin \<Rightarrow> pydict \<Rightarrow> (budget_exn + pydict) py" where
  "bound_record_iteration p state =
     py_bind (hydrate_budget p state) (\<lambda>b.
     Inr (case record_iteration b of Inl e \<Rightarrow> Inl e | Inr b' \<Rightarrow> Inr (persist_budget state b')))"

definition bound_record_tool_call :: "budget_plugin \<Rightarrow> pydict \<Rightarrow> (budget_exn + pydict) py" where
  "bound_record_tool_call p state =
     py_bind (hydrate_budget p state) (\<lambda>b.
     Inr (case record_tool_call b of Inl e \<Rightarrow> Inl e | Inr b' \<Rightarrow> Inr (persist_budget state b')))"

definition bound_reset_iteration_counters :: "budget_plugin \<Rightarrow> pydict \<Rightarrow> pydict py" where
  "bound_reset_iteration_counters p state =
     py_bind (hydrate_budget p state) (\<lambda>b.
     Inr (persist_budget state (reset_iteration_counters b)))"

section \<open>Runs of callbacks\<close>

datatype budget_event =
    BeforeRun
  | OnEvent nat
  | BeforeModel llm_request
  | BoundHalt string

definition budget_step :: "budget_plugin \<Rightarrow> pydict \<Rightarrow> budget_event \<Rightarrow> pydict py" where
  "budget_step p state ev =
     (case ev of
        BeforeRun \<Rightarrow> before_run_callback p state
      | OnEvent n \<Rightarrow> on_event_callback p state n
      | BeforeModel req \<Rightarrow>
          py_bind (budget_before_model_callback p state req) (\<lambda>(r, req', state'). Inr state')
      | BoundHalt reason \<Rightarrow> bound_halt p state reason)"

fun budget_run :: "budget_plugin \<Rightarrow> pydict \<Rightarrow> budget_event list \<Rightarrow> pydict py" where
  "budget_run p state [] = Inr state"
| "budget_run p state (ev # evs) =
     py_bind (budget_step p state ev) (\<lambda>state'. budget_run p state' evs)"

definition plugin_ok :: "budget_plugin \<Rightarrow> bool" where
  "plugin_ok p \<longleftrightarrow> 0 < plugin_max_iterations p \<and> 0 < plugin_max_tool_calls p"

text \<open>The object the stored primitives stand for, and its invariant.\<close>

definition budget_ok :: "budget_plugin \<Rightarrow> iteration_budget \<Rightarrow> bool" where
  "budget_ok p b \<longleftrightarrow> max_iterations b = plugin_max_iterations p
     \<and> max_tool_calls_per_iteration b = plugin_max_tool_calls p
     \<and> 0 \<le> iterations_used b \<and> iterations_used b \<le> max_iterations b
     \<and> 0 \<le> tool_calls_this_iteration b
     \<and> tool_calls_this_iteration b \<le> max_tool_calls_per_iteration b
     \<and> (halt_reason b \<noteq> None \<longrightarrow> halted b)"

definition budget_state_ok :: "budget_plugin \<Rightarrow> pydict \<Rightarrow> bool" where
  "budget_state_ok p state \<longleftrightarrow> (\<exists>b. hydrate_budget p state = Inr b \<and> budget_ok p b)"

section \<open>Lemmas\<close>

lemma budget_keys_distinct [simp]:
  "ITERATION_STATE_KEY \<noteq> TOOL_CALLS_STATE_KEY" "TOOL_CALLS_STATE_KEY \<noteq> ITERATION_STATE_KEY"
  "ITERATION_STATE_KEY \<noteq> HALTED_STATE_KEY" "HALTED_STATE_KEY \<noteq> ITERATION_STATE_KEY"
  "ITERATION_STATE_KEY \<noteq> BUDGET_HALT_REASON_STATE_KEY" "BUDGET_HALT_REASON_STATE_KEY \<noteq> ITERATION_STATE_KEY"
  "ITERATION_STATE_KEY \<noteq> HANDOFF_DELIVERED_STATE_KEY" "HANDOFF_DELIVERED_STATE_KEY \<noteq> ITERATION_STATE_KEY"
  "TOOL_CALLS_STATE_KEY \<noteq> HALTED_STATE_KEY" "HALTED_STATE_KEY \<noteq> TOOL_CALLS_STATE_KEY"
  "TOOL_CALLS_STATE_KEY \<noteq> BUDGET_HALT_REASON_STATE_KEY" "BUDGET_HALT_REASON_STATE_KEY \<noteq> TOOL_CALLS_STATE_KEY"
  "TOOL_CALLS_STATE_KEY \<noteq> HANDOFF_DELIVERED_STATE_KEY" "HANDOFF_DELIVERED_STATE_KEY \<noteq> TOOL_CALLS_STATE_KEY"
  "HALTED_STATE_KEY \<noteq> BUDGET_HALT_REASON_STATE_KEY" "BUDGET_HALT_REASON_STATE_KEY \<noteq> HALTED_STATE_KEY"
  "HALTED_STATE_KEY \<noteq> HANDOFF_DELIVERED_STATE_KEY" "HANDOFF_DELIVERED_STATE_KEY \<noteq> HALTED_STATE_KEY"
  "BUDGET_HALT_REASON_STATE_KEY \<noteq> HANDOFF_DELIVERED_STATE_KEY" "HANDOFF_DELIVERED_STATE_KEY \<noteq> BUDGET_HALT_REASON_STATE_KEY"
  by (simp_all add: budget_key_defs)

lemma as_str_opt_str [simp]: "as_str (opt_str r) = r"
  by (simp add: opt_str_def as_str_def split: option.splits)

text \<open>Persisting a budget and rebuilding it gives the budget back.\<close>

lemma hydrate_persist:
  assumes "plugin_ok p" and "budget_ok p b"
  shows "hydrate_budget p (persist_budget state b) = Inr b"
  using assms
  by (cases b)
     (auto simp: hydrate_budget_def persist_budget_def IterationBudget_def plugin_ok_def budget_ok_def
        py_int_def Let_def)

text \<open>The callbacks read only the four budget keys.\<close>

lemma hydrate_cong:
  assumes "\<And>k. k \<in> {ITERATION_STATE_KEY, TOOL_CALLS_STATE_KEY, HALTED_STATE_KEY,
                     BUDGET_HALT_REASON_STATE_KEY} \<Longrightarrow> map_of s k = map_of t k"
  shows "hydrate_budget p s = hydrate_budget p t"
proof -
  have "map_of s ITERATION_STATE_KEY = map_of t ITERATION_STATE_KEY"
    "map_of s TOOL_CALLS_STATE_KEY = map_of t TOOL_CALLS_STATE_KEY"
    "map_of s HALTED_STATE_KEY = map_of t HALTED_STATE_KEY"
    "map_of s BUDGET_HALT_REASON_STATE_KEY = map_of t BUDGET_HALT_REASON_STATE_KEY"
    by (rule assms; simp)+
  then show ?thesis by (simp add: hydrate_budget_def dict_get_def dict_get_default_def Let_def cong: if_cong)
qed

lemma hydrate_set_other [simp]:
  "hydrate_budget p (dict_set s HANDOFF_DELIVERED_STATE_KEY v) = hydrate_budget p s"
  by (rule hydrate_cong) auto

text \<open>A session state the plugin has not written yet; it may hold any other keys.\<close>

definition no_budget_keys :: "pydict \<Rightarrow> bool" where
  "no_budget_keys state \<longleftrightarrow>
     (\<forall>k \<in> {ITERATION_STATE_KEY, TOOL_CALLS_STATE_KEY, HALTED_STATE_KEY,
            BUDGET_HALT_REASON_STATE_KEY}. map_of state k = None)"

lemma hydrate_empty: "plugin_ok p \<Longrightarrow>
  hydrate_budget p [] = IterationBudget (plugin_max_iterations p) (plugin_max_tool_calls p)"
  by (simp add: hydrate_budget_def IterationBudget_def plugin_ok_def py_int_def
      dict_get_default_def)

lemma hydrate_no_keys:
  assumes "plugin_ok p" and "no_budget_keys state"
  shows "hydrate_budget p state = IterationBudget (plugin_max_iterations p) (plugin_max_tool_calls p)"
proof -
  have "hydrate_budget p state = hydrate_budget p []"
    by (rule hydrate_cong) (use assms(2) in \<open>auto simp: no_budget_keys_def\<close>)
  then show ?thesis by (simp only: hydrate_empty [OF assms(1)])
qed

lemma budget_state_ok_empty: "plugin_ok p \<Longrightarrow> budget_state_ok p []"
  by (auto simp: budget_state_ok_def hydrate_empty IterationBudget_def budget_ok_def plugin_ok_def)

lemma budget_ok_halt [simp]: "budget_ok p b \<Longrightarrow> budget_ok p (halt b r)"
  by (simp add: budget_ok_def halt_def)

lemma budget_ok_record_iteration:
  "budget_ok p b \<Longrightarrow> record_iteration b = Inr b' \<Longrightarrow> budget_ok p b' \<and> \<not> halted b' \<and>
   iterations_used b' = iterations_used b + 1"
  by (auto simp: budget_ok_def record_iteration_def split: if_splits)

lemma budget_ok_reset [simp]: "plugin_ok p \<Longrightarrow> budget_ok p b \<Longrightarrow> budget_ok p (reset_iteration_counters b)"
  by (simp add: budget_ok_def reset_iteration_counters_def plugin_ok_def)

lemma budget_ok_count: "budget_ok p b \<Longrightarrow> budget_ok p (count_tool_call b)"
  by (auto simp: budget_ok_def count_tool_call_def record_tool_call_def halt_def split: if_splits)

lemma budget_ok_count_n: "budget_ok p b \<Longrightarrow> budget_ok p ((count_tool_call ^^ n) b)"
  by (induction n) (auto intro: budget_ok_count)

lemma count_tool_call_halted [simp]: "halted b \<Longrightarrow> count_tool_call b = b"
  by (simp add: count_tool_call_def record_tool_call_def)

lemma count_n_halted [simp]: "halted b \<Longrightarrow> (count_tool_call ^^ n) b = b"
  by (induction n) simp_all

lemma count_n_used [simp]: "iterations_used ((count_tool_call ^^ n) b) = iterations_used b"
  by (induction n)
     (simp_all add: count_tool_call_def record_tool_call_def halt_def split: if_splits sum.splits)

text \<open>The two persisted branches as one rule for the callbacks.\<close>

lemma budget_state_ok_persist:
  "plugin_ok p \<Longrightarrow> budget_ok p b \<Longrightarrow> budget_state_ok p (persist_budget s b)"
  by (auto simp: budget_state_ok_def hydrate_persist)

lemma hydrate_deliver:
  assumes "deliver_halt_or_envelope req s reason HANDOFF_DELIVERED_STATE_KEY = (r, req', s')"
  shows "hydrate_budget p s' = hydrate_budget p s"
  using assms by (auto simp: deliver_halt_or_envelope_def split: if_splits)

lemma budget_before_model_total:
  assumes "hydrate_budget p s = Inr b"
  shows "\<exists>r req' s'. budget_before_model_callback p s req = Inr (r, req', s')"
proof -
  have "budget_before_model_callback p s req \<noteq> Inl e" for e
    using assms by (simp add: budget_before_model_callback_def Let_def)
  then show ?thesis by (metis sumE surj_pair)
qed

text \<open>What one callback does to the budget the state stands for.\<close>

definition budget_effect :: "iteration_budget \<Rightarrow> budget_event \<Rightarrow> iteration_budget" where
  "budget_effect b ev =
     (case ev of
        BeforeRun \<Rightarrow>
          if halted b then b
          else (case record_iteration b of
                  Inl exc \<Rightarrow> halt b (budget_exn_str exc)
                | Inr b' \<Rightarrow> reset_iteration_counters b')
      | OnEvent n \<Rightarrow> (count_tool_call ^^ n) b
      | BeforeModel req \<Rightarrow> b
      | BoundHalt reason \<Rightarrow> halt b reason)"

lemma budget_effect_ok:
  assumes "plugin_ok p" and "budget_ok p b"
  shows "budget_ok p (budget_effect b ev)"
  using assms
  by (auto simp: budget_effect_def budget_ok_count_n dest: budget_ok_record_iteration
      split: budget_event.splits sum.splits)

lemma budget_effect_halted: "halted b \<Longrightarrow> halted (budget_effect b ev)"
  by (auto simp: budget_effect_def halt_def split: budget_event.splits)

text \<open>The plugin simulates the object: a callback on the stored primitives never raises and
  its result stands for the object's own step.\<close>

lemma budget_step_simulates:
  assumes "plugin_ok p" and "hydrate_budget p state = Inr b" and "budget_ok p b"
  shows "\<exists>state'. budget_step p state ev = Inr state' \<and>
           hydrate_budget p state' = Inr (budget_effect b ev)"
proof (cases ev)
  case BeforeRun
  show ?thesis
  proof (cases "halted b")
    case True
    then show ?thesis using assms
      by (simp add: BeforeRun budget_step_def before_run_callback_def budget_effect_def)
  next
    case False
    show ?thesis
    proof (cases "record_iteration b")
      case (Inl exc)
      then show ?thesis using assms False
        by (simp add: BeforeRun budget_step_def before_run_callback_def budget_effect_def hydrate_persist)
    next
      case (Inr b')
      let ?s = "persist_budget (dict_set state HANDOFF_DELIVERED_STATE_KEY PyNone)
                  (reset_iteration_counters b')"
      have "budget_ok p (reset_iteration_counters b')"
        by (rule budget_ok_reset [OF assms(1)]) (use budget_ok_record_iteration assms(3) Inr in blast)
      then have "hydrate_budget p ?s = Inr (reset_iteration_counters b')"
        by (rule hydrate_persist [OF assms(1)])
      moreover have "budget_step p state ev = Inr ?s"
        using assms(2) False Inr by (simp add: BeforeRun budget_step_def before_run_callback_def)
      ultimately show ?thesis using False Inr by (simp add: BeforeRun budget_effect_def)
    qed
  qed
next
  case (OnEvent n)
  then show ?thesis using assms
    by (simp add: budget_step_def on_event_callback_def budget_effect_def hydrate_persist budget_ok_count_n)
next
  case (BeforeModel req)
  show ?thesis
  proof (cases "halted b")
    case True
    define reason where "reason = (case halt_reason b of None \<Rightarrow> ''agent halted''
                        | Some r \<Rightarrow> if r = [] then ''agent halted'' else r)"
    obtain r req' s' where d:
      "deliver_halt_or_envelope req state reason HANDOFF_DELIVERED_STATE_KEY = (r, req', s')"
      by (metis prod_cases3)
    have "budget_before_model_callback p state req = Inr (r, req', s')"
      using assms True d by (simp add: budget_before_model_callback_def reason_def Let_def)
    then show ?thesis using assms BeforeModel hydrate_deliver [OF d]
      by (simp add: budget_step_def budget_effect_def)
  next
    case False
    then show ?thesis using assms BeforeModel
      by (simp add: budget_step_def budget_before_model_callback_def budget_effect_def)
  qed
next
  case (BoundHalt reason)
  then show ?thesis using assms
    by (simp add: budget_step_def bound_halt_def budget_effect_def hydrate_persist)
qed

lemma budget_run_simulates:
  assumes "plugin_ok p" and "hydrate_budget p state = Inr b" and "budget_ok p b"
  shows "\<exists>state'. budget_run p state evs = Inr state' \<and>
           hydrate_budget p state' = Inr (foldl budget_effect b evs) \<and>
           budget_ok p (foldl budget_effect b evs)"
  using assms(2,3)
proof (induction evs arbitrary: state b)
  case Nil
  then show ?case by simp
next
  case (Cons ev evs)
  from budget_step_simulates [OF assms(1) Cons.prems, of ev] obtain s1 where
    s1: "budget_step p state ev = Inr s1" "hydrate_budget p s1 = Inr (budget_effect b ev)"
    by blast
  from Cons.IH [OF s1(2) budget_effect_ok [OF assms(1) Cons.prems(2)]] s1(1)
  show ?case by simp
qed

lemma foldl_effect_halted: "halted b \<Longrightarrow> halted (foldl budget_effect b evs)"
  by (induction evs arbitrary: b) (auto simp: budget_effect_halted)

fun count_before_run :: "budget_event list \<Rightarrow> nat" where
  "count_before_run [] = 0"
| "count_before_run (ev # evs) = (if ev = BeforeRun then 1 else 0) + count_before_run evs"

text \<open>Each unhalted run spends one iteration, so an unhalted budget has counted them all.\<close>

lemma foldl_effect_used:
  "\<not> halted (foldl budget_effect b evs) \<Longrightarrow>
   iterations_used (foldl budget_effect b evs) = iterations_used b + int (count_before_run evs)"
proof (induction evs arbitrary: b)
  case Nil
  then show ?case by simp
next
  case (Cons ev evs)
  then have nh: "\<not> halted (budget_effect b ev)" using foldl_effect_halted by fastforce
  have "iterations_used (budget_effect b ev) = iterations_used b + (if ev = BeforeRun then 1 else 0)"
    using nh
    by (auto simp: budget_effect_def halt_def record_iteration_def reset_iteration_counters_def
        split: budget_event.splits if_splits sum.splits)
  then show ?case using Cons by simp
qed

section \<open>The budget as a halt gate\<close>

definition budget_halted :: "budget_plugin \<Rightarrow> pydict \<Rightarrow> bool" where
  "budget_halted p s \<longleftrightarrow> truthy (dict_get s HALTED_STATE_KEY)"

definition budget_delivered :: "pydict \<Rightarrow> bool" where
  "budget_delivered s \<longleftrightarrow> truthy (dict_get s HANDOFF_DELIVERED_STATE_KEY)"

lemma hydrate_halted: "hydrate_budget p s = Inr b \<Longrightarrow> halted b \<longleftrightarrow> budget_halted p s"
  by (auto simp: hydrate_budget_def budget_halted_def IterationBudget_def py_bind_Inr_iff Let_def
      split: if_splits)

lemma budget_gate_pass:
  "budget_state_ok p s \<Longrightarrow> \<not> budget_halted p s \<Longrightarrow>
   budget_before_model_callback p s req = Inr (None, req, s)"
  by (auto simp: budget_state_ok_def budget_before_model_callback_def hydrate_halted)

lemma budget_gate_halted:
  assumes "budget_state_ok p s" and "budget_halted p s"
  shows "\<exists>why. budget_before_model_callback p s req =
           Inr (deliver_halt_or_envelope req s why HANDOFF_DELIVERED_STATE_KEY)"
  using assms
  by (auto simp: budget_state_ok_def budget_before_model_callback_def hydrate_halted Let_def)

interpretation budget_gate: halt_gate "budget_state_ok p" "budget_halted p" budget_delivered
  "budget_before_model_callback p" for p
proof unfold_locales
  fix s req
  assume inv: "budget_state_ok p s"
  show "\<not> budget_halted p s \<Longrightarrow> budget_before_model_callback p s req = Inr (None, req, s)"
    by (rule budget_gate_pass [OF inv])
  assume h: "budget_halted p s"
  from budget_gate_halted [OF inv h] obtain why where
    g: "budget_before_model_callback p s req =
          Inr (deliver_halt_or_envelope req s why HANDOFF_DELIVERED_STATE_KEY)" by blast
  show "\<not> budget_delivered s \<Longrightarrow>
    \<exists>req' s'. budget_before_model_callback p s req = Inr (None, req', s') \<and> no_tools req' \<and>
      budget_state_ok p s' \<and> budget_halted p s' \<and> budget_delivered s'"
    using g inv h
    by (simp add: deliver_halt_or_envelope_def budget_delivered_def budget_halted_def
        apply_graceful_halt_no_tools budget_state_ok_def)
  show "budget_delivered s \<Longrightarrow>
    \<exists>why. budget_before_model_callback p s req = Inr (Some (envelope why), req, s)"
    using g by (auto simp: deliver_halt_or_envelope_def budget_delivered_def envelope_def)
qed

section \<open>Properties\<close>

text \<open>C1: Started on a session whose state has none of the four budget keys, whatever
  other keys it has, any sequence of plugin callbacks runs without an exception, and the
  primitives it leaves in session state stand for exactly the budget object those callbacks
  would have produced, whose iteration and per-iteration tool-call counters are between zero
  and their caps.\<close>

theorem budget_plugin_refines_object:
  assumes "plugin_ok p"
    and "IterationBudget (plugin_max_iterations p) (plugin_max_tool_calls p) = Inr b0"
    and "no_budget_keys state0"
  shows "\<exists>state. budget_run p state0 evs = Inr state \<and>
           hydrate_budget p state = Inr (foldl budget_effect b0 evs) \<and>
           budget_ok p (foldl budget_effect b0 evs)"
proof -
  have "hydrate_budget p state0 = Inr b0" using hydrate_no_keys [OF assms(1,3)] assms(2) by simp
  moreover have "budget_ok p b0"
    using assms by (auto simp: IterationBudget_def budget_ok_def plugin_ok_def split: if_splits)
  ultimately show ?thesis using budget_run_simulates [OF assms(1)] by blast
qed

theorem budget_plugin_refines_object_witness:
  "plugin_ok \<lparr>plugin_max_iterations = 2, plugin_max_tool_calls = 1\<rparr> \<and>
   (\<exists>state. budget_run \<lparr>plugin_max_iterations = 2, plugin_max_tool_calls = 1\<rparr>
        [(''user:theme'', PyStr ''dark'')] [BeforeRun, OnEvent 2] = Inr state)"
proof -
  let ?p = "\<lparr>plugin_max_iterations = 2, plugin_max_tool_calls = 1\<rparr>"
  have p: "plugin_ok ?p" by (simp add: plugin_ok_def)
  have b: "IterationBudget (plugin_max_iterations ?p) (plugin_max_tool_calls ?p) =
      Inr \<lparr>max_iterations = 2, max_tool_calls_per_iteration = 1, iterations_used = 0,
           tool_calls_this_iteration = 0, halted = False, halt_reason = None\<rparr>"
    by (simp add: IterationBudget_def)
  have s: "no_budget_keys [(''user:theme'', PyStr ''dark'')]"
    by (simp add: no_budget_keys_def budget_key_defs)
  show ?thesis using p budget_plugin_refines_object [OF p b s, of "[BeforeRun, OnEvent 2]"] by blast
qed

text \<open>A session cannot outrun its iteration budget: once more invocations have started
  than \<open>max_iterations\<close>, the stored budget is halted, whatever other callbacks happened
  between them.\<close>

theorem budget_exhausted_halts:
  assumes "plugin_ok p" and "budget_run p [] evs = Inr state"
    and "plugin_max_iterations p < int (count_before_run evs)"
    and "hydrate_budget p state = Inr b"
  shows "halted b"
proof (rule ccontr)
  assume nh: "\<not> halted b"
  obtain b0 where b0: "hydrate_budget p [] = Inr b0" "budget_ok p b0"
    using budget_state_ok_empty [OF assms(1)] by (auto simp: budget_state_ok_def)
  have u0: "iterations_used b0 = 0"
    using b0(1) hydrate_empty [OF assms(1)] by (auto simp: IterationBudget_def split: if_splits)
  from budget_run_simulates [OF assms(1) b0, of evs] assms(2,4)
  have b: "b = foldl budget_effect b0 evs" and ok: "budget_ok p b" by auto
  have "iterations_used b = int (count_before_run evs)"
    using foldl_effect_used [of b0 evs] nh u0 b by simp
  then show False using ok assms(3) by (simp add: budget_ok_def)
qed

theorem budget_exhausted_halts_witness:
  "(\<exists>state b. budget_run \<lparr>plugin_max_iterations = 1, plugin_max_tool_calls = 1\<rparr> []
       [BeforeRun, BeforeRun] = Inr state \<and>
     hydrate_budget \<lparr>plugin_max_iterations = 1, plugin_max_tool_calls = 1\<rparr> state = Inr b \<and> halted b)"
proof -
  let ?p = "\<lparr>plugin_max_iterations = 1, plugin_max_tool_calls = 1\<rparr>"
  have p: "plugin_ok ?p" by (simp add: plugin_ok_def)
  obtain b0 where b0: "hydrate_budget ?p [] = Inr b0" "budget_ok ?p b0"
    using budget_state_ok_empty [OF p] by (auto simp: budget_state_ok_def)
  obtain state b where r: "budget_run ?p [] [BeforeRun, BeforeRun] = Inr state"
    and b: "hydrate_budget ?p state = Inr b"
    using budget_run_simulates [OF p b0, of "[BeforeRun, BeforeRun]"] by blast
  have "plugin_max_iterations ?p < int (count_before_run [BeforeRun, BeforeRun])" by simp
  from budget_exhausted_halts [OF p r this b] r b show ?thesis by blast
qed

text \<open>A budget halt is permanent and ends the session's tool use: after a halted budget
  is stored and any further callbacks have run, of the next model calls at most the first
  reaches the model, without any tool, and every other one is answered by the
  \<open>[halted: ...]\<close> envelope.\<close>

theorem budget_halt_is_final:
  assumes "plugin_ok p" and "hydrate_budget p state = Inr b" and "budget_ok p b" and "halted b"
    and "budget_run p state evs = Inr state'"
  shows "\<exists>out outs. model_calls (budget_before_model_callback p) state' (req # reqs) = Inr (out # outs) \<and>
           (is_envelope out \<or> (fst out = None \<and> no_tools (snd out))) \<and>
           length outs = length reqs \<and> list_all is_envelope outs"
proof -
  from budget_run_simulates [OF assms(1-3), of evs] assms(5)
  have h: "hydrate_budget p state' = Inr (foldl budget_effect b evs)"
    and ok: "budget_ok p (foldl budget_effect b evs)" by simp_all
  have "halted (foldl budget_effect b evs)" by (rule foldl_effect_halted [OF assms(4)])
  with hydrate_halted [OF h] have halt: "budget_halted p state'" by simp
  have inv: "budget_state_ok p state'" using h ok by (auto simp: budget_state_ok_def)
  show ?thesis
  proof (cases "budget_delivered state'")
    case True
    from budget_gate.delivered_all_envelopes [OF inv halt True, of "req # reqs"]
    obtain outs where "model_calls (budget_before_model_callback p) state' (req # reqs) = Inr outs"
      "length outs = Suc (length reqs)" "list_all is_envelope outs" by auto
    then show ?thesis by (cases outs) auto
  next
    case False
    from budget_gate.halted_one_handoff [OF inv halt False, of req reqs]
    show ?thesis by fastforce
  qed
qed

theorem budget_halt_is_final_witness:
  "\<exists>out outs. model_calls (budget_before_model_callback \<lparr>plugin_max_iterations = 1, plugin_max_tool_calls = 1\<rparr>)
       (persist_budget [] (halt \<lparr>max_iterations = 1, max_tool_calls_per_iteration = 1,
          iterations_used = 0, tool_calls_this_iteration = 0, halted = False, halt_reason = None\<rparr> ''stop''))
       [\<lparr>tools_dict = [(''bash'', PyNone)], config_tools = None, config_tool_config = None, contents = []\<rparr>]
     = Inr (out # outs) \<and> (is_envelope out \<or> (fst out = None \<and> no_tools (snd out)))"
proof -
  let ?p = "\<lparr>plugin_max_iterations = 1, plugin_max_tool_calls = 1\<rparr>"
  let ?b = "halt \<lparr>max_iterations = 1, max_tool_calls_per_iteration = 1, iterations_used = 0,
              tool_calls_this_iteration = 0, halted = False, halt_reason = None\<rparr> ''stop''"
  let ?s = "persist_budget [] ?b"
  have p: "plugin_ok ?p" by (simp add: plugin_ok_def)
  have b: "budget_ok ?p ?b" "halted ?b" by (simp_all add: budget_ok_def halt_def)
  have s: "hydrate_budget ?p ?s = Inr ?b" by (rule hydrate_persist [OF p b(1)])
  have run: "budget_run ?p ?s [] = Inr ?s" by simp
  from budget_halt_is_final [OF p s b run, of _ "[]"] show ?thesis by blast
qed

end
