(* ===== verification/Json_Roundtrip.thy ===== *)
theory Json_Roundtrip
  imports Py_Json
begin

text \<open>
  The round trip of the JSON model: what \<open>json.dumps\<close> writes with the default separators,
  \<open>json.loads\<close> reads back, for every value without floats whose dictionaries have distinct
  keys; and what a JSON line looks like to \<open>str.splitlines\<close>.
\<close>

section \<open>Round trip\<close>

subsection \<open>Strings\<close>

lemma of_char_lt [simp]: "(of_char c :: nat) < 256"
  using of_char_mod_256 [of c, where 'a = nat] by (metis mod_less_divisor zero_less_numeral)

lemma hex_value_digit: "d < 16 \<Longrightarrow> hex_value (hex_digit d) = Some d"
  by (cases "d < 10") (simp_all add: hex_value_def hex_digit_def Let_def)

lemma json_string_plain_char:
  "c \<noteq> DQUOTE \<Longrightarrow> c \<noteq> BSLASH \<Longrightarrow> \<not> (of_char c :: nat) < 32 \<Longrightarrow>
   json_string (c # s) = map_option (\<lambda>(t, u). (c # t, u)) (json_string s)"
  by simp

lemma json_string_hex:
  "json_string ([BSLASH] @ ''u00'' @ hex2 c @ s) = map_option (\<lambda>(t, u). (c # t, u)) (json_string s)"
proof -
  have d: "(of_char c :: nat) div 16 < 16" "(of_char c :: nat) mod 16 < 16"
    by (rule less_mult_imp_div_less, simp) simp
  have z: "hex_value (CHR ''0'') = Some 0" by code_simp
  have n: "char_of (16 * ((of_char c :: nat) div 16) + of_char c mod 16) = c"
    by (simp only: mult_div_mod_eq char_of_char)
  show ?thesis using n by (simp add: hex2_def Let_def hex_value_digit d z)
qed

lemma json_string_char:
  "json_string (json_char ascii c @ s) = map_option (\<lambda>(t, u). (c # t, u)) (json_string s)"
proof (cases "c \<in> set [DQUOTE, BSLASH, NL, CHR 0x0D, CHR 0x09, CHR 0x0C, CHR 0x08]")
  case True
  then show ?thesis by (auto simp: json_char_def simple_escape_def)
next
  case False
  show ?thesis
  proof (cases "(of_char c :: nat) < 32 \<or> (ascii \<and> 126 < (of_char c :: nat))")
    case True
    with False have "json_char ascii c = [BSLASH] @ ''u00'' @ hex2 c" by (simp add: json_char_def Let_def)
    then show ?thesis using json_string_hex [of c s] by (simp only: append.assoc)
  next
    case plain: False
    with False have "json_char ascii c = [c]" by (simp add: json_char_def Let_def)
    then show ?thesis using False plain by (simp add: json_string_plain_char del: json_string.simps)
  qed
qed

lemma json_string_json_str:
  "json_string (concat (map (json_char ascii) t) @ DQUOTE # s) = Some (t, s)"
  by (induction t) (simp_all add: json_string_char del: json_string.simps(2) , simp)


subsection \<open>Integers\<close>

lemma digit_char_value: "d < 10 \<Longrightarrow> of_char (digit_char d) - 48 = d"
  by (simp add: digit_char_def)

lemma digit_char_ascii: "d < 10 \<Longrightarrow> ascii_digit (digit_char d)"
proof -
  have "list_all (\<lambda>d. ascii_digit (digit_char d)) [0, 1, 2, 3, 4, 5, 6, 7, 8, 9]"
    by (simp add: ascii_digit_def digit_char_def char_of_def bit_0)
  then show "d < 10 \<Longrightarrow> ascii_digit (digit_char d)"
    by (auto simp: list_all_iff numeral_eq_Suc less_Suc_eq)
qed

lemma nat_of_digits_append: "nat_of_digits a (s @ t) = nat_of_digits (nat_of_digits a s) t"
  by (induction s arbitrary: a) auto

lemma string_of_nat_digits: "list_all ascii_digit (string_of_nat n)"
proof (induction n rule: string_of_nat.induct)
  case (1 n)
  then show ?case by (subst string_of_nat.simps) (auto simp: digit_char_ascii)
qed

lemma nat_of_digits_string_of_nat [simp]: "nat_of_digits 0 (string_of_nat n) = n"
proof (induction n rule: string_of_nat.induct)
  case (1 n)
  then show ?case
    by (subst string_of_nat.simps) (auto simp: nat_of_digits_append digit_char_value)
qed

lemma string_of_nat_not_Nil [simp]: "string_of_nat n \<noteq> []"
  by (subst string_of_nat.simps) simp

lemma string_of_nat_hd: "hd (string_of_nat n) = CHR ''0'' \<longleftrightarrow> n = 0"
proof (induction n rule: string_of_nat.induct)
  case (1 n)
  have "digit_char d = CHR ''0'' \<longleftrightarrow> d = 0" if "d < 10" for d
    using digit_char_value [OF that] by (auto simp: digit_char_def char_of_def bit_0)
  then show ?case using 1 by (subst string_of_nat.simps) (auto simp: hd_append)
qed

definition ends_number :: "string \<Rightarrow> bool" where
  "ends_number s \<longleftrightarrow> (case s of [] \<Rightarrow> True | c # _ \<Rightarrow> \<not> ascii_digit c \<and> c \<notin> set ''.eE'')"

lemma ends_number_rest: "ends_number s \<Longrightarrow> json_frac_part s = ([], s) \<and> json_exp_part s = ([], s)"
  by (cases s) (auto simp: ends_number_def json_frac_part_def json_exp_part_def)

lemma span_digits_number:
  "list_all ascii_digit ds \<Longrightarrow> ends_number s \<Longrightarrow> span_digits (ds @ s) = (ds, s)"
  by (cases s) (auto simp: span_digits_def ends_number_def list_all_iff takeWhile_append dropWhile_append)

lemma json_int_part_nat:
  assumes "ends_number s"
  shows "json_int_part (string_of_nat n @ s) = Some (string_of_nat n, s)"
    and "json_int_part (CHR ''-'' # string_of_nat n @ s) = Some (CHR ''-'' # string_of_nat n, s)"
proof -
  obtain d r where ds: "string_of_nat n = d # r" by (cases "string_of_nat n") auto
  have d: "ascii_digit d" using string_of_nat_digits [of n] ds by simp
  have z: "string_of_nat 0 = ''0''" by (subst string_of_nat.simps) (simp add: digit_char_def char_of_def bit_0)
  have m: "d \<noteq> CHR ''-''" using d by (auto simp: ascii_digit_def)
  have n0: "d = CHR ''0'' \<Longrightarrow> r = []" using string_of_nat_hd [of n] ds z by auto
  have sp: "span_digits ((d # r) @ s) = (d # r, s)"
    using span_digits_number [OF string_of_nat_digits assms, of n] ds by simp
  show "json_int_part (string_of_nat n @ s) = Some (string_of_nat n, s)"
    unfolding ds json_int_part_def using d m n0 sp by auto
  show "json_int_part (CHR ''-'' # string_of_nat n @ s) = Some (CHR ''-'' # string_of_nat n, s)"
    unfolding ds json_int_part_def using d m n0 sp by auto
qed

lemma json_number_int:
  assumes "ends_number s"
  shows "json_number (string_of_int i @ s) = Some (PyInt i, s)"
proof -
  have nm: "hd (string_of_nat n) \<noteq> CHR ''-'' \<and> hd (string_of_nat n) \<noteq> CHR ''+''" for n
    using string_of_nat_digits [of n] by (cases "string_of_nat n") (auto simp: ascii_digit_def)
  have sv: "signed_value (string_of_nat n) = int n" for n
    using nm [of n] nat_of_digits_string_of_nat [of n]
    by (cases "string_of_nat n") (auto simp: signed_value_def)
  show ?thesis
    using json_int_part_nat [OF assms] ends_number_rest [OF assms] sv
    by (auto simp: json_number_def string_of_int_def signed_value_def)
qed


subsection \<open>Values\<close>

text \<open>Values the text determines: no floats, and dictionaries with distinct keys.\<close>

fun json_exact :: "pyval \<Rightarrow> bool" where
  "json_exact (PyFloat r t) \<longleftrightarrow> False"
| "json_exact (PyList xs) \<longleftrightarrow> list_all json_exact xs"
| "json_exact (PyDict d) \<longleftrightarrow> distinct (map fst d) \<and> list_all (\<lambda>kv. json_exact (snd kv)) d"
| "json_exact _ \<longleftrightarrow> True"

definition spaced_opts :: "json_opts \<Rightarrow> bool" where
  "spaced_opts opt \<longleftrightarrow> \<not> sort_keys opt \<and> item_sep opt = '', '' \<and> key_sep opt = '': ''"

definition json_pair :: "json_opts \<Rightarrow> string \<times> pyval \<Rightarrow> string" where
  "json_pair opt kv = json_str (ensure_ascii opt) (fst kv) @ '': '' @ json_dumps opt (snd kv)"

lemma json_dumps_dict:
  "spaced_opts opt \<Longrightarrow> json_dumps opt (PyDict d) = ''{'' @ py_join '', '' (map (json_pair opt) d) @ ''}''"
  by (simp add: spaced_opts_def Let_def json_pair_def case_prod_unfold comp_def cong: map_cong)

lemma json_dumps_list:
  "spaced_opts opt \<Longrightarrow> json_dumps opt (PyList xs) = ''['' @ py_join '', '' (map (json_dumps opt) xs) @ '']''"
  by (simp add: spaced_opts_def)

definition starts_value :: "string \<Rightarrow> bool" where
  "starts_value s \<longleftrightarrow> s \<noteq> [] \<and> \<not> json_ws (hd s) \<and> hd s \<notin> set '']},:''"

lemma starts_value_append [simp]: "starts_value s \<Longrightarrow> starts_value (s @ t)"
  by (auto simp: starts_value_def)

lemma skip_ws_value: "starts_value s \<Longrightarrow> skip_ws s = s"
  by (cases s) (auto simp: starts_value_def skip_ws_def)

lemma starts_value_digits: "starts_value (string_of_int i)"
proof -
  have "\<not> json_ws c \<and> c \<notin> set '']},:''" if "ascii_digit c \<or> c = CHR ''-''" for c
    using that by (auto simp: ascii_digit_def json_ws_def)
  moreover have "ascii_digit (hd (string_of_nat n))" for n
    using string_of_nat_digits [of n] by (cases "string_of_nat n") auto
  ultimately show ?thesis by (auto simp: starts_value_def string_of_int_def)
qed

lemma starts_value_str: "starts_value (json_str a s)"
  by (simp add: starts_value_def json_str_def json_ws_def)

lemma starts_value_dumps: "json_exact v \<Longrightarrow> starts_value (json_dumps opt v)"
  by (cases v) (auto simp: starts_value_digits starts_value_str, auto simp: starts_value_def json_ws_def)

lemma json_value_str: "json_value (Suc n) (json_str a s @ r) = Some (PyStr s, r)"
  by (simp add: json_str_def json_string_json_str)

definition reads_value :: "json_opts \<Rightarrow> pyval \<Rightarrow> bool" where
  "reads_value opt v \<longleftrightarrow> (\<forall>n r. length (json_dumps opt v) < n \<longrightarrow> ends_number r \<longrightarrow>
     json_value n (json_dumps opt v @ r) = Some (v, r))"

lemma reads_valueD:
  "reads_value opt v \<Longrightarrow> length (json_dumps opt v) < n \<Longrightarrow> ends_number r \<Longrightarrow>
   json_value n (json_dumps opt v @ r) = Some (v, r)"
  by (simp add: reads_value_def)

lemma ends_number_punct [simp]:
  "ends_number (CHR '']'' # r)" "ends_number (CHR ''}'' # r)" "ends_number (CHR '','' # r)"
  by (simp_all add: ends_number_def ascii_digit_def)

lemma skip_ws_punct [simp]:
  "skip_ws (CHR '']'' # r) = CHR '']'' # r" "skip_ws (CHR ''}'' # r) = CHR ''}'' # r"
  "skip_ws (CHR '','' # r) = CHR '','' # r" "skip_ws (CHR '':'' # r) = CHR '':'' # r"
  "skip_ws (CHR '' '' # r) = skip_ws r" "skip_ws (DQUOTE # r) = DQUOTE # r"
  by (simp_all add: skip_ws_def json_ws_def)

lemma json_array_reads:
  assumes "xs \<noteq> []" "\<forall>x \<in> set xs. reads_value opt x \<and> json_exact x"
    and "length (py_join '', '' (map (json_dumps opt) xs)) + 1 < n"
  shows "json_array n acc (py_join '', '' (map (json_dumps opt) xs) @ CHR '']'' # r)
         = Some (PyList (acc @ xs), r)"
  using assms
proof (induction xs arbitrary: n acc)
  case Nil
  then show ?case by simp
next
  case (Cons x xs)
  obtain m where n: "n = Suc m" using Cons.prems(3) by (cases n) auto
  show ?case
  proof (cases xs)
    case Nil
    then show ?thesis using Cons.prems n reads_valueD [of opt x m "CHR '']'' # r"] by simp
  next
    case (Cons y ys)
    let ?t = "py_join '', '' (map (json_dumps opt) xs) @ CHR '']'' # r"
    have "json_value m (json_dumps opt x @ '', '' @ ?t) = Some (x, '', '' @ ?t)"
      using Cons.prems n Cons by (intro reads_valueD) auto
    moreover have "skip_ws ?t = ?t"
      using starts_value_dumps [of y opt] Cons.prems(2) Cons by (intro skip_ws_value) (cases ys; auto)
    moreover have "json_array m (acc @ [x]) ?t = Some (PyList ((acc @ [x]) @ xs), r)"
      using Cons.prems n Cons by (intro Cons.IH) auto
    ultimately show ?thesis using n Cons by simp
  qed
qed


lemma json_object_step:
  assumes "reads_value opt (snd kv)" "json_exact (snd kv)"
    and "length (json_pair opt kv) < Suc n" "ends_number r"
  shows "json_object (Suc n) acc (json_pair opt kv @ r) =
    (case skip_ws r of
       [] \<Rightarrow> None
     | e # r3 \<Rightarrow>
         if e = CHR ''}'' then Some (PyDict (dict_set acc (fst kv) (snd kv)), r3)
         else if e = CHR '','' then json_object n (dict_set acc (fst kv) (snd kv)) (skip_ws r3)
         else None)"
proof -
  have k: "json_string (concat (map (json_char (ensure_ascii opt)) (fst kv)) @ DQUOTE # s) = Some (fst kv, s)" for s
    by (rule json_string_json_str)
  have w: "skip_ws (json_dumps opt (snd kv) @ r) = json_dumps opt (snd kv) @ r"
    using assms(2) by (intro skip_ws_value) (simp add: starts_value_dumps)
  have v: "json_value n (json_dumps opt (snd kv) @ r) = Some (snd kv, r)"
    using assms by (intro reads_valueD) (auto simp: json_pair_def json_str_def)
  show ?thesis by (simp add: json_pair_def json_str_def k w v)
qed

lemma dict_set_snoc: "k \<notin> set (map fst acc) \<Longrightarrow> dict_set acc k v = acc @ [(k, v)]"
  by (induction acc) auto

lemma json_object_reads:
  assumes "d \<noteq> []" "\<forall>kv \<in> set d. reads_value opt (snd kv) \<and> json_exact (snd kv)"
    and "distinct (map fst (acc @ d))"
    and "length (py_join '', '' (map (json_pair opt) d)) + 1 < n"
  shows "json_object n acc (py_join '', '' (map (json_pair opt) d) @ CHR ''}'' # r)
         = Some (PyDict (acc @ d), r)"
  using assms
proof (induction d arbitrary: n acc)
  case Nil
  then show ?case by simp
next
  case (Cons kv d)
  obtain m where n: "n = Suc m" using Cons.prems(4) by (cases n) auto
  have new: "dict_set acc (fst kv) (snd kv) = acc @ [kv]"
    using Cons.prems(3) dict_set_snoc [of "fst kv" acc "snd kv"] by auto
  show ?case
  proof (cases d)
    case Nil
    then show ?thesis using Cons.prems n new
      by (simp add: json_object_step del: json_object.simps)
  next
    case (Cons y ys)
    let ?t = "py_join '', '' (map (json_pair opt) d) @ CHR ''}'' # r"
    have "skip_ws ?t = ?t"
      using Cons starts_value_str [of "ensure_ascii opt" "fst y"]
      by (intro skip_ws_value) (cases ys; auto simp: json_pair_def)
    moreover have "json_object m (acc @ [kv]) ?t = Some (PyDict ((acc @ [kv]) @ d), r)"
      using Cons.prems n Cons by (intro Cons.IH) auto
    moreover have "json_object (Suc m) acc (json_pair opt kv @ '', '' @ ?t)
      = json_object m (acc @ [kv]) (skip_ws (CHR '' '' # ?t))"
      using Cons.prems n Cons new by (subst json_object_step) auto
    ultimately show ?thesis using n Cons by simp
  qed
qed

lemma json_reads: "spaced_opts opt \<Longrightarrow> json_exact v \<Longrightarrow> reads_value opt v"
proof (induction v)
  case (PyInt i)
  show ?case unfolding reads_value_def
  proof (intro allI impI)
    fix n r assume "length (json_dumps opt (PyInt i)) < n" and r: "ends_number r"
    then obtain m where n: "n = Suc m" by (cases n) auto
    obtain c s where cs: "string_of_int i = c # s" using starts_value_digits [of i]
      by (cases "string_of_int i") (auto simp: starts_value_def)
    have c: "ascii_digit c \<or> c = CHR ''-''"
      using cs string_of_nat_digits [of "nat i"] by (auto simp: string_of_int_def split: if_splits)
    have "json_literal (string_of_int i @ r) = json_number (string_of_int i @ r)"
      using c unfolding cs json_literal_def by (auto simp: startswith_Cons ascii_digit_def)
    moreover have "json_value n (string_of_int i @ r) = json_literal (string_of_int i @ r)"
      using c unfolding cs n by (auto simp: ascii_digit_def)
    ultimately show "json_value n (json_dumps opt (PyInt i) @ r) = Some (PyInt i, r)"
      using json_number_int [OF r] by simp
  qed
next
  case (PyStr s)
  show ?case unfolding reads_value_def
    by (metis json_dumps.simps(5) json_value_str less_nat_zero_code not0_implies_Suc)
next
  case (PyList xs)
  then have e: "\<forall>x \<in> set xs. reads_value opt x \<and> json_exact x" by (auto simp: list_all_iff)
  show ?case unfolding reads_value_def json_dumps_list [OF PyList.prems(1)]
  proof (intro allI impI)
    fix n r assume l: "length (''['' @ py_join '', '' (map (json_dumps opt) xs) @ '']'') < n"
    then obtain m where n: "n = Suc m" by (cases n) auto
    have "json_value n (''['' @ (py_join '', '' (map (json_dumps opt) xs) @ CHR '']'' # r)) = Some (PyList xs, r)"
    proof (cases xs)
      case Nil
      then show ?thesis using n by simp
    next
      case (Cons y ys)
      let ?t = "py_join '', '' (map (json_dumps opt) xs) @ CHR '']'' # r"
      have s: "starts_value ?t" using starts_value_dumps [of y opt] e Cons by (cases ys) auto
      have "json_array m [] ?t = Some (PyList ([] @ xs), r)" using e l n Cons by (intro json_array_reads) auto
      then show ?thesis using s n skip_ws_value [OF s] by (cases ?t) (auto simp: starts_value_def)
    qed
    then show "json_value n ((''['' @ py_join '', '' (map (json_dumps opt) xs) @ '']'') @ r) = Some (PyList xs, r)"
      by simp
  qed
next
  case (PyDict d)
  then have e: "\<forall>kv \<in> set d. reads_value opt (snd kv) \<and> json_exact (snd kv)"
    by (auto simp: list_all_iff)
  have dd: "distinct (map fst d)" using PyDict.prems by simp
  show ?case unfolding reads_value_def json_dumps_dict [OF PyDict.prems(1)]
  proof (intro allI impI)
    fix n r assume l: "length (''{'' @ py_join '', '' (map (json_pair opt) d) @ ''}'') < n"
    then obtain m where n: "n = Suc m" by (cases n) auto
    have "json_value n (''{'' @ (py_join '', '' (map (json_pair opt) d) @ CHR ''}'' # r)) = Some (PyDict d, r)"
    proof (cases d)
      case Nil
      then show ?thesis using n by simp
    next
      case (Cons y ys)
      let ?t = "py_join '', '' (map (json_pair opt) d) @ CHR ''}'' # r"
      have s: "starts_value ?t" using starts_value_str [of "ensure_ascii opt" "fst y"] Cons
        by (cases ys) (auto simp: json_pair_def)
      have "json_object m [] ?t = Some (PyDict ([] @ d), r)" using e l n Cons dd
        by (intro json_object_reads) auto
      then show ?thesis using s n skip_ws_value [OF s] by (cases ?t) (auto simp: starts_value_def)
    qed
    then show "json_value n ((''{'' @ py_join '', '' (map (json_pair opt) d) @ ''}'') @ r) = Some (PyDict d, r)"
      by simp
  qed
next
  case PyNone
  show ?case by (auto simp: reads_value_def json_literal_def startswith_def gr0_conv_Suc elim: less_natE)
next
  case (PyBool b)
  show ?case by (auto simp: reads_value_def json_literal_def startswith_def gr0_conv_Suc elim: less_natE)
qed simp

lemma json_roundtrip:
  assumes "spaced_opts opt" "json_exact v"
  shows "json_loads (json_dumps opt v) = Some v"
proof -
  have "skip_ws (json_dumps opt v) = json_dumps opt v"
    by (rule skip_ws_value [OF starts_value_dumps [OF assms(2)]])
  moreover have "json_value (Suc (length (json_dumps opt v))) (json_dumps opt v @ []) = Some (v, [])"
    by (rule reads_valueD [OF json_reads [OF assms]]) (simp_all add: ends_number_def)
  ultimately show ?thesis by (simp add: json_loads_def skip_ws_def)
qed


section \<open>JSON lines\<close>

definition ascii_text :: "string \<Rightarrow> bool" where
  "ascii_text s \<longleftrightarrow> (\<forall>c \<in> set s. 32 \<le> (of_char c :: nat) \<and> (of_char c :: nat) \<le> 126)"

lemma ascii_text_simps [simp]:
  "ascii_text []"
  "ascii_text (c # s) \<longleftrightarrow> 32 \<le> (of_char c :: nat) \<and> (of_char c :: nat) \<le> 126 \<and> ascii_text s"
  "ascii_text (s @ t) \<longleftrightarrow> ascii_text s \<and> ascii_text t"
  by (auto simp: ascii_text_def)

lemma ascii_text_join: "ascii_text d \<Longrightarrow> (\<forall>w \<in> set ws. ascii_text w) \<Longrightarrow> ascii_text (py_join d ws)"
  by (induction d ws rule: py_join.induct) auto

lemma ascii_text_hex2: "ascii_text (hex2 c)"
proof -
  have "32 \<le> (of_char (hex_digit d) :: nat) \<and> (of_char (hex_digit d) :: nat) \<le> 126" if "d < 16" for d
    using that by (simp add: hex_digit_def)
  moreover have "(of_char c :: nat) div 16 < 16" by (rule less_mult_imp_div_less) simp
  ultimately show ?thesis by (simp add: hex2_def Let_def)
qed

lemma ascii_text_json_char: "ascii_text (json_char True c)"
  by (simp add: json_char_def Let_def ascii_text_hex2 not_less)

lemma ascii_text_json_str: "ascii_text (json_str True s)"
  by (induction s) (auto simp: json_str_def ascii_text_json_char)

lemma ascii_text_string_of_int: "ascii_text (string_of_int i)"
proof -
  have "ascii_text s" if "list_all ascii_digit s" for s
    using that by (induction s) (auto simp: ascii_digit_def)
  then show ?thesis using string_of_nat_digits by (simp add: string_of_int_def)
qed

lemma ascii_text_dumps:
  assumes "spaced_opts opt" "ensure_ascii opt"
  shows "json_exact v \<Longrightarrow> ascii_text (json_dumps opt v)"
proof (induction v)
  case (PyList xs)
  then have "ascii_text (py_join '', '' (map (json_dumps opt) xs))"
    by (intro ascii_text_join) (auto simp: list_all_iff)
  then show ?case unfolding json_dumps_list [OF assms(1)] by simp
next
  case (PyDict d)
  then have "ascii_text (py_join '', '' (map (json_pair opt) d))"
    by (intro ascii_text_join) (auto simp: list_all_iff json_pair_def ascii_text_json_str assms)
  then show ?case unfolding json_dumps_dict [OF assms(1)] by simp
qed (auto simp: ascii_text_json_str ascii_text_string_of_int assms)

lemma ascii_text_no_break: "ascii_text s \<Longrightarrow> c \<in> set s \<Longrightarrow> \<not> line_break c"
  by (auto simp: ascii_text_def line_break_def)

lemma spaced_default [simp]: "spaced_opts json_default_opts" "ensure_ascii json_default_opts"
  by (simp_all add: spaced_opts_def json_default_opts_def)

definition whole_lines :: "string \<Rightarrow> bool" where
  "whole_lines t \<longleftrightarrow> t = [] \<or> last t = NL"

lemma splitlines_from_append:
  "t \<noteq> [] \<Longrightarrow> last t = NL \<Longrightarrow> splitlines_from cur (t @ u) = splitlines_from cur t @ splitlines_from [] u"
proof (induction cur t rule: splitlines_from.induct)
  case (1 cur)
  then show ?case by simp
next
  case (2 cur c s)
  show ?case
  proof (cases "s = []")
    case True
    with 2 show ?thesis by (simp add: line_break_def)
  next
    case False
    show ?thesis
    proof (cases "c = CHR 0x0D \<and> hd s = NL")
      case True
      with False obtain s' where s: "s = NL # s'" by (cases s) auto
      show ?thesis
      proof (cases "s' = []")
        case True
        with \<open>c = CHR 0x0D \<and> hd s = NL\<close> s show ?thesis by simp
      next
        case False
        with 2 True s show ?thesis by simp
      qed
    next
      case crlf: False
      with 2 False show ?thesis by (cases "line_break c") (auto simp: False)
    qed
  qed
qed

lemma splitlines_from_line:
  "\<forall>c \<in> set l. \<not> line_break c \<Longrightarrow> splitlines_from cur (l @ [NL]) = [cur @ l]"
  by (induction l arbitrary: cur) (auto simp: line_break_def)

lemma py_splitlines_append_line:
  assumes "whole_lines t" "ascii_text l"
  shows "py_splitlines (t @ l @ [NL]) = py_splitlines t @ [l]"
proof -
  have l: "splitlines_from [] (l @ [NL]) = [l]"
    using splitlines_from_line [of l "[]"] ascii_text_no_break [OF assms(2)] by simp
  show ?thesis
  proof (cases "t = []")
    case True
    then show ?thesis using l by (simp add: py_splitlines_def)
  next
    case False
    then show ?thesis using l assms(1) splitlines_from_append [of t "[]" "l @ [NL]"]
      by (simp add: py_splitlines_def whole_lines_def)
  qed
qed

end
