(* ===== verification/Tool_Names.thy ===== *)
theory Tool_Names
  imports Py_Prelude
begin

text \<open>The registry of tool names and their legacy aliases (\<open>tools/names.py\<close>).\<close>

definition READ :: string where "READ = ''read''"
definition WRITE :: string where "WRITE = ''write''"
definition EDIT :: string where "EDIT = ''edit''"
definition BASH :: string where "BASH = ''bash''"
definition PROCESS :: string where "PROCESS = ''process''"
definition SEARCH_FILES :: string where "SEARCH_FILES = ''search_files''"
definition SUBAGENT :: string where "SUBAGENT = ''subagent''"
definition MEMORY :: string where "MEMORY = ''memory''"
definition LOAD_SKILL :: string where "LOAD_SKILL = ''load_skill''"
definition WEB_RESEARCH :: string where "WEB_RESEARCH = ''web_research''"
definition ARTIFACT :: string where "ARTIFACT = ''artifact''"
definition ROUTINE :: string where "ROUTINE = ''routine''"
definition CLARIFY :: string where "CLARIFY = ''clarify''"
definition PRELOAD_MEMORY :: string where "PRELOAD_MEMORY = ''preload_memory''"

lemmas tool_name_defs = READ_def WRITE_def EDIT_def BASH_def PROCESS_def SEARCH_FILES_def SUBAGENT_def
  MEMORY_def LOAD_SKILL_def WEB_RESEARCH_def ARTIFACT_def ROUTINE_def CLARIFY_def PRELOAD_MEMORY_def

definition ALL_TOOLS :: "string list" where
  "ALL_TOOLS = [READ, WRITE, EDIT, BASH, PROCESS, SEARCH_FILES, SUBAGENT, MEMORY, LOAD_SKILL,
     WEB_RESEARCH, ARTIFACT, ROUTINE, CLARIFY, PRELOAD_MEMORY]"

definition TOOL_NAME_ALIASES :: "(string \<times> string) list" where
  "TOOL_NAME_ALIASES =
     [(''read_file'', READ), (''view_file'', READ), (''write_file'', WRITE), (''patch'', EDIT),
      (''terminal'', BASH), (''process'', PROCESS), (''search_files'', SEARCH_FILES),
      (''delegate'', SUBAGENT), (''agent'', SUBAGENT), (''add_memory'', MEMORY),
      (''recall_past_sessions'', MEMORY), (''session_search'', MEMORY), (''load_skill'', LOAD_SKILL),
      (''reload'', LOAD_SKILL), (''web_research'', WEB_RESEARCH), (''artifact'', ARTIFACT),
      (''routine'', ROUTINE), (''clarify'', CLARIFY), (''preload_memory'', PRELOAD_MEMORY)]"

definition apply_tool_aliases :: "string \<Rightarrow> string" where
  "apply_tool_aliases name = dict_get_default TOOL_NAME_ALIASES name name"

text \<open>Every alias resolves to a registered tool, and a registered name is its own alias.\<close>

lemma alias_targets_registered: "map_of TOOL_NAME_ALIASES n = Some t \<Longrightarrow> t \<in> set ALL_TOOLS"
  by (drule map_of_SomeD) (auto simp: TOOL_NAME_ALIASES_def ALL_TOOLS_def)

lemma registered_alias_id: "t \<in> set ALL_TOOLS \<Longrightarrow> apply_tool_aliases t = t"
proof -
  have "list_all (\<lambda>t. apply_tool_aliases t = t) ALL_TOOLS" by code_simp
  then show "t \<in> set ALL_TOOLS \<Longrightarrow> apply_tool_aliases t = t" by (auto simp: list_all_iff)
qed

lemma apply_tool_aliases_idem [simp]: "apply_tool_aliases (apply_tool_aliases n) = apply_tool_aliases n"
proof (cases "map_of TOOL_NAME_ALIASES n")
  case None
  then show ?thesis by (simp add: apply_tool_aliases_def dict_get_default_def)
next
  case (Some t)
  then have "apply_tool_aliases n = t" by (simp add: apply_tool_aliases_def dict_get_default_def)
  then show ?thesis using registered_alias_id alias_targets_registered [OF Some] by simp
qed

end
