(* ===== verification/Overlay.thy ===== *)
theory Overlay
  imports Json_Roundtrip Tool_Names
begin

text \<open>
  What the tenant overlays share: the JSONL reader (\<open>guardrails/_jsonl.py\<close>), the static
  regular-expression guard (\<open>guardrails/_regex_safety.py\<close>) and the access to an overlay
  file through the environment's backend (\<open>guardrails/_overlay.py\<close>).

  An environment is what these modules read of it: its working directory, whether its files
  are on the host, and its cache identity. The files themselves, host and sandboxed, are a
  separate record, since the tools change them between calls.
\<close>

section \<open>_jsonl.py\<close>

fun jsonl_objects :: "string list \<Rightarrow> pydict list" where
  "jsonl_objects [] = []"
| "jsonl_objects (line # lines) =
     (let stripped = py_strip line in
      if stripped = [] \<or> startswith stripped ''#'' then jsonl_objects lines
      else case json_loads stripped of
             None \<Rightarrow> jsonl_objects lines
           | Some obj \<Rightarrow> (case obj of PyDict d \<Rightarrow> d # jsonl_objects lines | _ \<Rightarrow> jsonl_objects lines))"

definition iter_jsonl_objects :: "string \<Rightarrow> pydict list" where
  "iter_jsonl_objects text = jsonl_objects (py_splitlines text)"

lemma jsonl_objects_append: "jsonl_objects (xs @ ys) = jsonl_objects xs @ jsonl_objects ys"
  by (induction xs) (auto simp: Let_def split: option.splits pyval.splits)

text \<open>A dictionary written with \<open>json.dumps\<close> and a newline after whole lines is read back as
  the last object.\<close>

lemma strip_json_object:
  assumes "spaced_opts opt" "json_exact (PyDict d)"
  shows "py_strip (json_dumps opt (PyDict d)) = json_dumps opt (PyDict d)"
proof -
  have "hd (json_dumps opt (PyDict d)) = CHR ''{''" "last (json_dumps opt (PyDict d)) = CHR ''}''"
    unfolding json_dumps_dict [OF assms(1)] by simp_all
  moreover have "\<not> py_isspace CHR ''{''" "\<not> py_isspace CHR ''}''" by (simp_all add: py_isspace_def)
  ultimately show ?thesis unfolding py_strip_fixed_iff by simp
qed

lemma iter_jsonl_objects_append_line:
  assumes "whole_lines text" "json_exact (PyDict d)"
  shows "iter_jsonl_objects (text @ json_dumps json_default_opts (PyDict d) @ [NL])
         = iter_jsonl_objects text @ [d]"
proof -
  let ?l = "json_dumps json_default_opts (PyDict d)"
  have l: "py_splitlines (text @ ?l @ [NL]) = py_splitlines text @ [?l]"
    using assms by (intro py_splitlines_append_line ascii_text_dumps) simp_all
  have "startswith ?l ''{''" unfolding json_dumps_dict [OF spaced_default(1)] by (simp add: startswith_def)
  then have "?l \<noteq> []" "\<not> startswith ?l ''#''" by (auto simp: startswith_Cons)
  then have "jsonl_objects [?l] = [d]"
    using json_roundtrip [OF _ assms(2), of json_default_opts] assms(2)
    by (simp add: strip_json_object Let_def del: json_dumps.simps)
  then show ?thesis by (simp add: iter_jsonl_objects_def l jsonl_objects_append del: jsonl_objects.simps json_dumps.simps)
qed

section \<open>_regex_safety.py\<close>

definition REGEX_MAX_LEN :: nat where
  "REGEX_MAX_LEN = 1000"

text \<open>A quantified group whose body has a quantifier, opening at the start of the text.\<close>

definition nested_quantifier_at :: "string \<Rightarrow> bool" where
  "nested_quantifier_at s =
     (case s of
        [] \<Rightarrow> False
      | c # r \<Rightarrow>
          c = CHR ''('' \<and> list_ex (\<lambda>x. x \<in> set ''+*'') (takeWhile (\<lambda>x. x \<noteq> CHR '')'') r) \<and>
          (case dropWhile (\<lambda>x. x \<noteq> CHR '')'') r of
             [] \<Rightarrow> False
           | _ # t \<Rightarrow> (case dropWhile py_isspace t of [] \<Rightarrow> False | q # _ \<Rightarrow> q \<in> set ''+*{'')))"

fun nested_quantifier :: "string \<Rightarrow> bool" where
  "nested_quantifier [] \<longleftrightarrow> False"
| "nested_quantifier (c # s) \<longleftrightarrow> nested_quantifier_at (c # s) \<or> nested_quantifier s"

definition safe_regex :: "string \<Rightarrow> bool" where
  "safe_regex pattern \<longleftrightarrow> length pattern \<le> REGEX_MAX_LEN \<and> \<not> nested_quantifier pattern"

section \<open>_overlay.py\<close>

record overlay_env =
  working_dir :: "string option"
  on_host_fs :: bool
  cache_identity :: "string option"

datatype read_result = RText string | RNotFound | RFailed

record overlay_fs =
  host_files :: "string \<Rightarrow> read_result"
  host_mtime :: "string \<Rightarrow> rat option"
  env_files :: "string \<Rightarrow> string \<Rightarrow> read_result"

definition overlay_cache_key :: "overlay_env \<Rightarrow> string" where
  "overlay_cache_key env =
     (case cache_identity env of
        Some k \<Rightarrow> k
      | None \<Rightarrow> ''workdir:'' @ (case working_dir env of Some w \<Rightarrow> w | None \<Rightarrow> ''None''))"

definition env_read_file :: "overlay_fs \<Rightarrow> overlay_env \<Rightarrow> string \<Rightarrow> read_result" where
  "env_read_file fs env path = env_files fs (overlay_cache_key env) path"

definition read_overlay_text :: "overlay_fs \<Rightarrow> overlay_env \<Rightarrow> string \<Rightarrow> string" where
  "read_overlay_text fs env path =
     (case env_read_file fs env path of RText t \<Rightarrow> t | RNotFound \<Rightarrow> [] | RFailed \<Rightarrow> [])"

section \<open>Cached loading\<close>

text \<open>The module-level cache of a host overlay: path, modification time, parsed rules.\<close>

record 'r local_cache =
  cache_path :: "string option"
  cache_mtime :: "rat option"
  cache_rules :: "'r list option"

definition cache_hit :: "'r local_cache \<Rightarrow> string \<Rightarrow> rat option \<Rightarrow> bool" where
  "cache_hit c path mtime \<longleftrightarrow> cache_path c = Some path \<and> cache_mtime c = mtime \<and>
     cache_rules c \<noteq> None \<and> mtime \<noteq> None"

text \<open>
  The contract of a loader with a cache: as long as the cache is coherent with the files, a
  load answers what parsing the file now would answer, and leaves a coherent cache. A client
  may therefore load as often as it likes.
\<close>

fun load_times :: "('fs \<Rightarrow> 'st \<Rightarrow> 'e + ('r list \<times> 'st)) \<Rightarrow> 'fs \<Rightarrow> nat \<Rightarrow> 'st \<Rightarrow> 'e + ('r list \<times> 'st)" where
  "load_times load fs 0 st = load fs st"
| "load_times load fs (Suc n) st = py_bind (load fs st) (\<lambda>(rs, st'). load_times load fs n st')"

locale overlay_loader =
  fixes load :: "'fs \<Rightarrow> 'st \<Rightarrow> 'e + ('r list \<times> 'st)"
    and expected :: "'fs \<Rightarrow> 'e + 'r list"
    and coherent :: "'fs \<Rightarrow> 'st \<Rightarrow> bool"
  assumes load_Inr: "coherent fs st \<Longrightarrow> expected fs = Inr rs \<Longrightarrow>
      \<exists>st'. load fs st = Inr (rs, st') \<and> coherent fs st'"
    and load_Inl: "coherent fs st \<Longrightarrow> expected fs = Inl e \<Longrightarrow> load fs st = Inl e"
begin

lemma load_value:
  assumes "coherent fs st"
  shows "map_sum id fst (load fs st) = expected fs"
proof (cases "expected fs")
  case (Inl e)
  then show ?thesis using load_Inl [OF assms] by simp
next
  case (Inr rs)
  then obtain st' where "load fs st = Inr (rs, st')"
    using load_Inr [OF assms] by blast
  with Inr show ?thesis by simp
qed

lemma load_times_value: "coherent fs st \<Longrightarrow> map_sum id fst (load_times load fs n st) = expected fs"
proof (induction n arbitrary: st)
  case 0
  then show ?case unfolding load_times.simps by (rule load_value)
next
  case (Suc n)
  show ?case
  proof (cases "expected fs")
    case (Inl e)
    then show ?thesis using load_Inl [OF Suc.prems] by simp
  next
    case (Inr rs)
    then obtain st' where "load fs st = Inr (rs, st')" "coherent fs st'"
      using load_Inr [OF Suc.prems] by blast
    then show ?thesis using Suc.IH by simp
  qed
qed

end

end
