(* ===== verification/Py_Regex.thy ===== *)
theory Py_Regex
  imports Py_Prelude
begin

text \<open>
  The part of the standard library's \<open>re\<close> the sources use for their own fixed expressions:
  syntax trees, and a matcher that lists every way to match at a position in the order a
  backtracking engine tries them, so that its first element is the match Python reports.
  Repetition is greedy, and a round of a repetition must consume something. A position knows
  the character before it (for word boundaries and the starts of lines), the text after it, and the text of the
  capturing group matched last (the expressions that are used with \<open>findall\<close> have one group).
\<close>

section \<open>Syntax\<close>

datatype regex =
    Eps
  | Cls "char \<Rightarrow> bool"
  | Seq regex regex
  | Alt regex regex
  | Star regex
  | WordB
  | LineStart
  | NotAhead regex
  | Cap regex

definition lit :: "string \<Rightarrow> regex" where
  "lit s = foldr (\<lambda>c r. Seq (Cls (\<lambda>x. x = c)) r) s Eps"

definition seqs :: "regex list \<Rightarrow> regex" where
  "seqs rs = foldr Seq rs Eps"

fun alts :: "regex list \<Rightarrow> regex" where
  "alts [] = Cls (\<lambda>_. False)"
| "alts [r] = r"
| "alts (r # rs) = Alt r (alts rs)"

definition opt :: "regex \<Rightarrow> regex" where
  "opt r = Alt r Eps"

definition plus :: "regex \<Rightarrow> regex" where
  "plus r = Seq r (Star r)"

definition times :: "nat \<Rightarrow> regex \<Rightarrow> regex" where
  "times n r = seqs (replicate n r)"

definition at_least :: "nat \<Rightarrow> regex \<Rightarrow> regex" where
  "at_least n r = Seq (times n r) (Star r)"

section \<open>Character classes\<close>

definition in_range :: "char \<Rightarrow> char \<Rightarrow> char \<Rightarrow> bool" where
  "in_range lo hi c \<longleftrightarrow> (of_char lo :: int) \<le> of_char c \<and> (of_char c :: int) \<le> of_char hi"

definition lower_az :: "char \<Rightarrow> bool" where
  "lower_az c \<longleftrightarrow> in_range CHR ''a'' CHR ''z'' c"

definition upper_az :: "char \<Rightarrow> bool" where
  "upper_az c \<longleftrightarrow> in_range CHR ''A'' CHR ''Z'' c"

definition digit_09 :: "char \<Rightarrow> bool" where
  "digit_09 c \<longleftrightarrow> in_range CHR ''0'' CHR ''9'' c"

text \<open>A word character on the Latin-1 range: ASCII letters, digits and underscore, and the
  characters above that \<open>str.isalnum\<close> accepts.\<close>

definition word_char :: "char \<Rightarrow> bool" where
  "word_char c \<longleftrightarrow> lower_az c \<or> upper_az c \<or> digit_09 c \<or> c = CHR ''_'' \<or>
     (let n = of_char c :: int in
      n \<in> set [170, 178, 179, 181, 185, 186, 188, 189, 190] \<or> (192 \<le> n \<and> n \<noteq> 215 \<and> n \<noteq> 247))"

definition none_of :: "string \<Rightarrow> char \<Rightarrow> bool" where
  "none_of s c \<longleftrightarrow> c \<notin> set s \<and> \<not> py_isspace c"

section \<open>Matching\<close>

record rpos =
  rprev :: "char option"
  rrest :: string
  rcap :: "string option"

definition word_boundary :: "rpos \<Rightarrow> bool" where
  "word_boundary p \<longleftrightarrow>
     (case rprev p of None \<Rightarrow> False | Some c \<Rightarrow> word_char c) \<noteq>
     (case rrest p of [] \<Rightarrow> False | c # _ \<Rightarrow> word_char c)"

fun star_iter :: "nat \<Rightarrow> (rpos \<Rightarrow> rpos list) \<Rightarrow> rpos \<Rightarrow> rpos list" where
  "star_iter 0 m p = [p]"
| "star_iter (Suc n) m p =
     concat (map (\<lambda>q. if length (rrest q) < length (rrest p) then star_iter n m q else []) (m p)) @ [p]"

primrec re_match :: "regex \<Rightarrow> rpos \<Rightarrow> rpos list" where
  "re_match Eps p = [p]"
| "re_match (Cls P) p =
     (case rrest p of
        [] \<Rightarrow> []
      | c # s \<Rightarrow> if P c then [p\<lparr>rprev := Some c, rrest := s\<rparr>] else [])"
| "re_match (Seq a b) p = concat (map (re_match b) (re_match a p))"
| "re_match (Alt a b) p = re_match a p @ re_match b p"
| "re_match (Star a) p = star_iter (length (rrest p)) (re_match a) p"
| "re_match WordB p = (if word_boundary p then [p] else [])"
| "re_match LineStart p = (if rprev p = None \<or> rprev p = Some NL then [p] else [])"
| "re_match (NotAhead a) p = (if re_match a p = [] then [p] else [])"
| "re_match (Cap a) p =
     map (\<lambda>q. q\<lparr>rcap := Some (take (length (rrest p) - length (rrest q)) (rrest p))\<rparr>) (re_match a p)"

fun search_from :: "regex \<Rightarrow> char option \<Rightarrow> string \<Rightarrow> bool" where
  "search_from r prev [] \<longleftrightarrow> re_match r \<lparr>rprev = prev, rrest = [], rcap = None\<rparr> \<noteq> []"
| "search_from r prev (c # s) \<longleftrightarrow>
     re_match r \<lparr>rprev = prev, rrest = c # s, rcap = None\<rparr> \<noteq> [] \<or> search_from r (Some c) s"

text \<open>\<open>re.search\<close> and the text of its match.\<close>

fun search_text :: "regex \<Rightarrow> char option \<Rightarrow> string \<Rightarrow> string option" where
  "search_text r prev [] =
     (case re_match r \<lparr>rprev = prev, rrest = [], rcap = None\<rparr> of [] \<Rightarrow> None | _ # _ \<Rightarrow> Some [])"
| "search_text r prev (c # s) =
     (case re_match r \<lparr>rprev = prev, rrest = c # s, rcap = None\<rparr> of
        q # _ \<Rightarrow> Some (take (length (c # s) - length (rrest q)) (c # s))
      | [] \<Rightarrow> search_text r (Some c) s)"

definition re_search :: "regex \<Rightarrow> string \<Rightarrow> string option" where
  "re_search r s = search_text r None s"

text \<open>\<open>\Z\<close>: the end of the text.\<close>

definition text_end :: regex where
  "text_end = NotAhead (Cls (\<lambda>_. True))"

definition re_found :: "regex \<Rightarrow> string \<Rightarrow> bool" where
  "re_found r s \<longleftrightarrow> search_from r None s"

text \<open>\<open>findall\<close> for an expression with one group that never matches the empty string.\<close>

function findall_from :: "regex \<Rightarrow> char option \<Rightarrow> string \<Rightarrow> string list" where
  "findall_from r prev [] = []"
| "findall_from r prev (c # s) =
     (case re_match r \<lparr>rprev = prev, rrest = c # s, rcap = None\<rparr> of
        [] \<Rightarrow> findall_from r (Some c) s
      | q # _ \<Rightarrow>
          let hit = (case rcap q of Some t \<Rightarrow> t | None \<Rightarrow> [])
          in if length (rrest q) < length (c # s) then hit # findall_from r (rprev q) (rrest q)
             else hit # findall_from r (Some c) s)"
  by pat_completeness auto
termination
  by (relation "measure (\<lambda>(r, prev, s). length s)") auto

definition re_findall :: "regex \<Rightarrow> string \<Rightarrow> string list" where
  "re_findall r s = findall_from r None s"

text \<open>\<open>re.IGNORECASE\<close> on ASCII letters.\<close>

definition ascii_upper_char :: "char \<Rightarrow> char" where
  "ascii_upper_char c = (if lower_az c then char_of ((of_char c :: int) - 32) else c)"

primrec ignore_case :: "regex \<Rightarrow> regex" where
  "ignore_case Eps = Eps"
| "ignore_case (Cls P) = Cls (\<lambda>c. P c \<or> P (ascii_upper_char c) \<or> (upper_az c \<and> P (py_lower_char c)))"
| "ignore_case (Seq a b) = Seq (ignore_case a) (ignore_case b)"
| "ignore_case (Alt a b) = Alt (ignore_case a) (ignore_case b)"
| "ignore_case (Star a) = Star (ignore_case a)"
| "ignore_case WordB = WordB"
| "ignore_case LineStart = LineStart"
| "ignore_case (NotAhead a) = NotAhead (ignore_case a)"
| "ignore_case (Cap a) = Cap (ignore_case a)"

section \<open>Lemmas\<close>

lemma search_from_append:
  "re_match r \<lparr>rprev = (case rev u of [] \<Rightarrow> prev | c # _ \<Rightarrow> Some c), rrest = s, rcap = None\<rparr> \<noteq> [] \<Longrightarrow>
   search_from r prev (u @ s)"
proof (induction u arbitrary: prev)
  case Nil
  then show ?case by (cases s) auto
next
  case (Cons a u)
  have "(case rev (a # u) of [] \<Rightarrow> prev | c # _ \<Rightarrow> Some c) = (case rev u of [] \<Rightarrow> Some a | c # _ \<Rightarrow> Some c)"
    by (cases "rev u") auto
  with Cons show ?case by simp
qed

end
