(* ===== verification/Ip_Address.thy ===== *)
theory Ip_Address
  imports Py_Json
begin

text \<open>
  What the sources use of the standard library's \<open>ipaddress\<close>: parsing an IPv4 or IPv6 literal,
  the IPv4-mapped form, and the canonical text of an address.
\<close>

text \<open>Addresses are integers, so that they are evaluated in binary.\<close>

datatype ip_addr = IPv4 int | IPv6 int "string option"

fun int_of_digits :: "int \<Rightarrow> string \<Rightarrow> int" where
  "int_of_digits acc [] = acc"
| "int_of_digits acc (c # s) = int_of_digits (10 * acc + (of_char c - 48)) s"

section \<open>IPv4\<close>

definition parse_octet :: "string \<Rightarrow> int option" where
  "parse_octet s =
     (if s \<noteq> [] \<and> list_all ascii_digit s \<and> length s \<le> 3 \<and> \<not> (s \<noteq> ''0'' \<and> hd s = CHR ''0'')
         \<and> int_of_digits 0 s \<le> 255
      then Some (int_of_digits 0 s) else None)"

definition parse_ipv4 :: "string \<Rightarrow> int option" where
  "parse_ipv4 s =
     (case map parse_octet (py_split_on CHR ''.'' s) of
        [Some a, Some b, Some c, Some d] \<Rightarrow> Some (((a * 256 + b) * 256 + c) * 256 + d)
      | _ \<Rightarrow> None)"

definition ipv4_str :: "int \<Rightarrow> string" where
  "ipv4_str n = py_join ''.'' (map string_of_int
     [n div 16777216 mod 256, n div 65536 mod 256, n div 256 mod 256, n mod 256])"

section \<open>IPv6\<close>

definition hex_digit_value :: "char \<Rightarrow> int option" where
  "hex_digit_value c =
     (let n = of_char c :: int in
      if 48 \<le> n \<and> n \<le> 57 then Some (n - 48)
      else if 97 \<le> n \<and> n \<le> 102 then Some (n - 87)
      else if 65 \<le> n \<and> n \<le> 70 then Some (n - 55)
      else None)"

fun hex_number :: "int \<Rightarrow> string \<Rightarrow> int option" where
  "hex_number acc [] = Some acc"
| "hex_number acc (c # s) =
     (case hex_digit_value c of None \<Rightarrow> None | Some d \<Rightarrow> hex_number (16 * acc + d) s)"

definition parse_hextet :: "string \<Rightarrow> int option" where
  "parse_hextet s = (if s = [] \<or> 4 < length s then None else hex_number 0 s)"

text \<open>The parts between colons, with a dotted suffix replaced by two hextets.\<close>

definition hextet_str :: "int \<Rightarrow> string" where
  "hextet_str n =
     (let ds = map (\<lambda>d. hex_digit (nat d)) [n div 4096 mod 16, n div 256 mod 16, n div 16 mod 16, n mod 16];
          r = dropWhile (\<lambda>c. c = CHR ''0'') ds
      in if r = [] then ''0'' else r)"

definition ipv6_parts :: "string \<Rightarrow> string list option" where
  "ipv6_parts s =
     (let parts = py_split_on CHR '':'' s in
      if length parts < 3 then None
      else if CHR ''.'' \<in> set (last parts) then
        (case parse_ipv4 (last parts) of
           None \<Rightarrow> None
         | Some n \<Rightarrow> Some (butlast parts @ [hextet_str (n div 65536), hextet_str (n mod 65536)]))
      else Some parts)"

definition opt_all :: "'a option list \<Rightarrow> 'a list option" where
  "opt_all xs = (if list_ex (\<lambda>x. x = None) xs then None else Some (map the xs))"

definition hextets_value :: "int list \<Rightarrow> int" where
  "hextets_value hs = foldl (\<lambda>acc h. acc * 65536 + h) 0 hs"

text \<open>The number of leading and trailing groups around the elided run at index \<open>i\<close>.\<close>

definition skip_counts :: "string list \<Rightarrow> nat \<Rightarrow> (nat \<times> nat) option" where
  "skip_counts parts i =
     (let hi = (if hd parts = [] then i - 1 else i);
          lo0 = length parts - i - 1;
          lo = (if last parts = [] then lo0 - 1 else lo0)
      in if (hd parts = [] \<and> 0 < hi) \<or> (last parts = [] \<and> 0 < lo) then None
         else if 8 < hi + lo + 1 then None
         else Some (hi, lo))"

definition parse_ipv6_int :: "string \<Rightarrow> int option" where
  "parse_ipv6_int s =
     (case ipv6_parts s of
        None \<Rightarrow> None
      | Some parts \<Rightarrow>
          if 9 < length parts then None
          else
            (case filter (\<lambda>i. parts ! i = []) [1 ..< length parts - 1] of
               [] \<Rightarrow>
                 if length parts \<noteq> 8 then None
                 else map_option hextets_value (opt_all (map parse_hextet parts))
             | [i] \<Rightarrow>
                 (case skip_counts parts i of
                    None \<Rightarrow> None
                  | Some (hi, lo) \<Rightarrow>
                      (case opt_all (map parse_hextet (take hi parts)) of
                         None \<Rightarrow> None
                       | Some hs \<Rightarrow>
                           (case opt_all (map parse_hextet (drop (length parts - lo) parts)) of
                              None \<Rightarrow> None
                            | Some ls \<Rightarrow> Some (hextets_value (hs @ replicate (8 - (hi + lo)) 0 @ ls)))))
             | _ \<Rightarrow> None))"

definition parse_ipv6 :: "string \<Rightarrow> ip_addr option" where
  "parse_ipv6 s =
     (case py_split_on CHR ''%'' s of
        [a] \<Rightarrow> map_option (\<lambda>n. IPv6 n None) (parse_ipv6_int a)
      | [a, scope] \<Rightarrow> if scope = [] then None else map_option (\<lambda>n. IPv6 n (Some scope)) (parse_ipv6_int a)
      | _ \<Rightarrow> None)"

definition ip_address :: "string \<Rightarrow> ip_addr option" where
  "ip_address s = (case parse_ipv4 s of Some n \<Rightarrow> Some (IPv4 n) | None \<Rightarrow> parse_ipv6 s)"

definition ipv4_mapped :: "ip_addr \<Rightarrow> int option" where
  "ipv4_mapped a = (case a of
       IPv4 n \<Rightarrow> None
     | IPv6 n scope \<Rightarrow> if n div 4294967296 = 65535 then Some (n mod 4294967296) else None)"

section \<open>Canonical text\<close>

definition hextets :: "int \<Rightarrow> string list" where
  "hextets n = map (\<lambda>i. hextet_str (n div 65536 ^ (7 - i) mod 65536)) [0 ..< 8]"

definition zero_run :: "string list \<Rightarrow> nat \<Rightarrow> nat" where
  "zero_run hs i = length (takeWhile (\<lambda>h. h = ''0'') (drop i hs))"

text \<open>The first longest run of zero groups, if it has at least two.\<close>

definition best_run :: "string list \<Rightarrow> (nat \<times> nat) option" where
  "best_run hs =
     (let m = foldr max (map (zero_run hs) [0 ..< length hs]) 0
      in if m < 2 then None
         else map_option (\<lambda>i. (i, m)) (List.find (\<lambda>i. zero_run hs i = m) [0 ..< length hs]))"

definition ipv6_str :: "int \<Rightarrow> string" where
  "ipv6_str n =
     (let hs = hextets n in
      case best_run hs of
        None \<Rightarrow> py_join '':'' hs
      | Some (i, m) \<Rightarrow> py_join '':'' (take i hs) @ ''::'' @ py_join '':'' (drop (i + m) hs))"

definition ip_str :: "ip_addr \<Rightarrow> string" where
  "ip_str a = (case a of
       IPv4 n \<Rightarrow> ipv4_str n
     | IPv6 n scope \<Rightarrow> ipv6_str n @ (case scope of None \<Rightarrow> [] | Some sc \<Rightarrow> ''%'' @ sc))"

end
