(* ===== verification/Exfil_Config.thy ===== *)
theory Exfil_Config
  imports Overlay Py_Regex Ip_Address
begin

text \<open>
  Configuration of the exfiltration guard (\<open>guardrails/exfil_config.py\<close>): the fixed expressions
  as syntax trees, the overlay, the caches, the host allowlist, the secret and credential
  scans and the recognition of the metadata server in all its spellings. Compiling a tenant's
  own expression (with \<open>re.IGNORECASE\<close>) is the argument \<open>re_compile\<close>; \<open>None\<close> is \<open>re.error\<close>.
\<close>

section \<open>Constants\<close>

definition EXFIL_OVERLAY_FILENAME :: string where
  "EXFIL_OVERLAY_FILENAME = ''.lha/exfil.jsonl''"

definition DEFAULT_ALLOWED_HOSTS :: "string list" where
  "DEFAULT_ALLOWED_HOSTS =
     [''localhost'', ''127.0.0.1'', ''::1'', ''github.com'', ''githubusercontent.com'', ''google.com'',
      ''googleapis.com'', ''gstatic.com'', ''googleusercontent.com'', ''gcr.io'', ''pkg.dev'', ''pypi.org'',
      ''pythonhosted.org'', ''npmjs.org'']"

definition words :: "string list \<Rightarrow> regex" where
  "words ws = alts (map lit ws)"

definition alnum :: "char \<Rightarrow> bool" where
  "alnum c \<longleftrightarrow> lower_az c \<or> upper_az c \<or> digit_09 c"

definition cls_space :: regex where
  "cls_space = Cls py_isspace"

definition DEFAULT_SECRET_PATTERNS :: "(string \<times> regex) list" where
  "DEFAULT_SECRET_PATTERNS =
     [(''private key block'', seqs [lit ''-----BEGIN'', Star (Cls (\<lambda>c. c = CHR '' '' \<or> upper_az c)), lit ''PRIVATE KEY-----'']),
      (''AWS access key id'', seqs [WordB, words [''AKIA'', ''ASIA''], times 16 (Cls (\<lambda>c. digit_09 c \<or> upper_az c)), WordB]),
      (''Google API key'', seqs [WordB, lit ''AIza'', times 35 (Cls (\<lambda>c. alnum c \<or> c \<in> set ''_-'')), WordB]),
      (''GitHub token'', seqs [WordB, lit ''gh'', Cls (\<lambda>c. c \<in> set ''pousr''), lit ''_'', at_least 36 (Cls alnum), WordB]),
      (''Slack token'', seqs [WordB, lit ''xox'', Cls (\<lambda>c. c \<in> set ''baprs''), lit ''-'',
                              at_least 10 (Cls (\<lambda>c. alnum c \<or> c = CHR ''-'')), WordB]),
      (''OpenAI-style key'', seqs [WordB, lit ''sk-'', at_least 20 (Cls alnum), WordB]),
      (''service-account private_key'', seqs [lit ([DQUOTE] @ ''private_key'' @ [DQUOTE]), Star cls_space, lit '':'',
                              Star cls_space, lit ([DQUOTE] @ ''-----BEGIN'')])]"

definition HTTP_TOOLS_RE :: regex where
  "HTTP_TOOLS_RE = seqs [WordB, words [''curl'', ''wget''], WordB]"

definition TRANSFER_TOOLS_RE :: regex where
  "TRANSFER_TOOLS_RE = seqs [WordB, words [''scp'', ''sftp'', ''ftp'', ''rsync'', ''ssh'', ''nc'', ''ncat'',
     ''netcat'', ''telnet'', ''socat''], WordB]"

definition UPLOAD_RE :: regex where
  "UPLOAD_RE = alts
     [seqs [lit ''--data'', WordB], seqs [lit ''--data-'', plus (Cls lower_az), WordB],
      seqs [cls_space, lit ''-d'', WordB], seqs [cls_space, lit ''-F'', WordB], seqs [lit ''--form'', WordB],
      seqs [cls_space, lit ''-T'', WordB], seqs [lit ''--upload-file'', WordB]]"

definition ENV_VAR_RE :: regex where
  "ENV_VAR_RE = seqs [lit ''$'', opt (lit ''{''),
     Cap (Seq (Cls (\<lambda>c. lower_az c \<or> upper_az c \<or> c = CHR ''_'')) (Star (Cls (\<lambda>c. alnum c \<or> c = CHR ''_''))))]"

definition SECRET_ENV_WORDS :: "string list" where
  "SECRET_ENV_WORDS = [''KEY'', ''KEYS'', ''TOKEN'', ''SECRET'', ''SECRETS'', ''PASSWORD'', ''PASSWD'',
     ''CREDENTIAL'', ''CREDENTIALS'', ''APIKEY'']"

definition not_quote_space :: "char \<Rightarrow> bool" where
  "not_quote_space c \<longleftrightarrow> c \<noteq> DQUOTE \<and> c \<noteq> SQUOTE \<and> \<not> py_isspace c"

definition DEFAULT_SENSITIVE_PATH :: regex where
  "DEFAULT_SENSITIVE_PATH = alts
     [Seq (lit ''.env'') (NotAhead (Cls (\<lambda>c. c = CHR ''.'' \<or> word_char c))),
      seqs [lit ''.env.'', words [''local'', ''production'', ''prod'', ''preprod'', ''dev'', ''development'',
              ''staging'', ''test'', ''testing'', ''secret'', ''secrets''], WordB],
      Seq (lit ''/.aws'') (Alt (lit ''/'') WordB), lit ''application_default_credentials'',
      lit ''/.config/gcloud/'', lit ''id_rsa'', lit ''id_ed25519'', lit ''id_ecdsa'', lit ''/.ssh/'',
      seqs [lit ''service'', opt (Cls (\<lambda>c. c \<in> set ''-_'')), lit ''account'', Star (Cls not_quote_space), lit ''.json''],
      lit ''credentials.json'', Seq (lit ''.pem'') WordB, Seq (lit ''.netrc'') WordB, Seq (lit ''.npmrc'') WordB,
      Seq (lit ''.pypirc'') WordB]"

definition host_char :: "char \<Rightarrow> bool" where
  "host_char c \<longleftrightarrow> c \<noteq> CHR ''/'' \<and> not_quote_space c"

definition HOST_RE :: regex where
  "HOST_RE = seqs [lit ''http'', opt (lit ''s''), lit ''://'', Cap (plus (Cls host_char))]"

definition SCP_HOST_RE :: regex where
  "SCP_HOST_RE = seqs [WordB, plus (Cls (\<lambda>c. word_char c \<or> c \<in> set ''.+-'')), lit ''@'',
     Cap (plus (Cls (\<lambda>c. word_char c \<or> c \<in> set ''.-''))), lit '':'']"

definition DEVTCP_RE :: regex where
  "DEVTCP_RE = Seq (lit ''/dev/tcp/'') (Cap (plus (Cls host_char)))"

definition SCHEME_HOST_RE :: regex where
  "SCHEME_HOST_RE = seqs [WordB, words [''ssh'', ''git'', ''ftp'', ''ftps''], lit ''://'',
     opt (Seq (plus (Cls (\<lambda>c. word_char c \<or> c \<in> set ''.+-''))) (lit ''@'')),
     Cap (plus (Cls (\<lambda>c. word_char c \<or> c \<in> set ''.-'')))]"

definition GIT_EGRESS_RE :: regex where
  "GIT_EGRESS_RE = seqs [WordB, lit ''git'', WordB, Star (Cls (\<lambda>c. c \<noteq> NL)), WordB,
     Alt (lit ''push'') (seqs [lit ''remote'', plus cls_space, words [''add'', ''set-url'']]), WordB]"

section \<open>The configuration and its overlay\<close>

record exfil_config =
  allowed_hosts :: "string list"
  secret_patterns :: "(string \<times> regex) list"
  sensitive_path_res :: "regex list"

definition compile_secret_patterns :: "(string \<Rightarrow> regex option) \<Rightarrow> string list \<Rightarrow> (string \<times> regex) list" where
  "compile_secret_patterns re_compile extra =
     DEFAULT_SECRET_PATTERNS @
     List.map_filter (\<lambda>pat. if \<not> safe_regex pat then None
       else map_option (\<lambda>r. (''tenant pattern '' @ py_repr_str pat, r)) (re_compile pat)) extra"

definition default_config :: exfil_config where
  "default_config = \<lparr>allowed_hosts = DEFAULT_ALLOWED_HOSTS,
     secret_patterns = compile_secret_patterns (\<lambda>_. None) [],
     sensitive_path_res = [ignore_case DEFAULT_SENSITIVE_PATH]\<rparr>"

text \<open>Iterating over a value: a string gives its characters, a dictionary its keys, a number or
  \<open>None\<close> raises.\<close>

definition py_iter :: "pyval \<Rightarrow> pyval list py" where
  "py_iter v = (case v of
       PyList xs \<Rightarrow> Inr xs
     | PyStr s \<Rightarrow> Inr (map (\<lambda>c. PyStr [c]) s)
     | PyDict d \<Rightarrow> Inr (map (\<lambda>kv. PyStr (fst kv)) d)
     | _ \<Rightarrow> Inl (TypeError ''object is not iterable''))"

definition overlay_strings :: "pydict \<Rightarrow> string \<Rightarrow> string list py" where
  "overlay_strings obj k =
     py_bind (py_iter (dict_get_default obj k (PyList []))) (\<lambda>vs. Inr (List.map_filter as_str vs))"

fun overlay_lists :: "pydict list \<Rightarrow> (string list \<times> string list \<times> string list) py" where
  "overlay_lists [] = Inr ([], [], [])"
| "overlay_lists (obj # objs) =
     py_bind (overlay_strings obj ''allow_hosts'') (\<lambda>hosts.
     py_bind (overlay_strings obj ''secret_patterns'') (\<lambda>secrets.
     py_bind (overlay_strings obj ''sensitive_paths'') (\<lambda>paths.
     py_bind (overlay_lists objs) (\<lambda>(hs, ss, ps).
     Inr (hosts @ hs, secrets @ ss, paths @ ps)))))"

definition parse_overlay :: "string \<Rightarrow> (string list \<times> string list \<times> string list) py" where
  "parse_overlay text = overlay_lists (iter_jsonl_objects text)"

definition build_overlay_config ::
    "(string \<Rightarrow> regex option) \<Rightarrow> string list \<Rightarrow> string list \<Rightarrow> string list \<Rightarrow> exfil_config" where
  "build_overlay_config re_compile hosts secrets paths =
     \<lparr>allowed_hosts = DEFAULT_ALLOWED_HOSTS @ hosts,
      secret_patterns = compile_secret_patterns re_compile secrets,
      sensitive_path_res = ignore_case DEFAULT_SENSITIVE_PATH #
        List.map_filter re_compile (filter safe_regex paths)\<rparr>"

definition config_of_text :: "(string \<Rightarrow> regex option) \<Rightarrow> string \<Rightarrow> exfil_config py" where
  "config_of_text re_compile text =
     py_bind (parse_overlay text) (\<lambda>(hs, ss, ps). Inr (build_overlay_config re_compile hs ss ps))"

record exfil_store =
  ex_path :: "string option"
  ex_mtime :: "rat option"
  ex_config :: "exfil_config option"
  ex_overlay_cache :: "(string \<times> exfil_config) list"

definition exfil_path :: "string \<Rightarrow> string" where
  "exfil_path wd = wd @ ''/'' @ EXFIL_OVERLAY_FILENAME"

definition exfil_host_text :: "overlay_fs \<Rightarrow> string \<Rightarrow> string" where
  "exfil_host_text fs path = (case host_files fs path of RText t \<Rightarrow> t | _ \<Rightarrow> [])"

definition load_exfil_config ::
    "(string \<Rightarrow> regex option) \<Rightarrow> string option \<Rightarrow> overlay_fs \<Rightarrow> exfil_store \<Rightarrow> (exfil_config \<times> exfil_store) py" where
  "load_exfil_config re_compile wdir fs st =
     (case wdir of
        None \<Rightarrow> Inr (default_config, st)
      | Some wd \<Rightarrow>
          let path = exfil_path wd; mtime = host_mtime fs path in
          if ex_path st = Some path \<and> ex_mtime st = mtime \<and> ex_config st \<noteq> None \<and> mtime \<noteq> None
          then Inr (the (ex_config st), st)
          else py_bind (config_of_text re_compile (exfil_host_text fs path)) (\<lambda>config.
               Inr (config, st\<lparr>ex_path := Some path, ex_mtime := mtime, ex_config := Some config\<rparr>)))"

definition load_exfil_config_for_env ::
    "(string \<Rightarrow> regex option) \<Rightarrow> overlay_env option \<Rightarrow> overlay_fs \<Rightarrow> exfil_store \<Rightarrow> (exfil_config \<times> exfil_store) py" where
  "load_exfil_config_for_env re_compile env fs st =
     (case env of
        None \<Rightarrow> Inr (default_config, st)
      | Some e \<Rightarrow>
          (case working_dir e of
             None \<Rightarrow> Inr (default_config, st)
           | Some wd \<Rightarrow>
               if on_host_fs e then load_exfil_config re_compile (Some wd) fs st
               else let key = overlay_cache_key e in
                 (case map_of (ex_overlay_cache st) key of
                    Some config \<Rightarrow> Inr (config, st)
                  | None \<Rightarrow>
                      py_bind (config_of_text re_compile (read_overlay_text fs e (exfil_path wd))) (\<lambda>config.
                      Inr (config, st\<lparr>ex_overlay_cache := dict_set (ex_overlay_cache st) key config\<rparr>)))))"

section \<open>Scans\<close>

definition scan_secrets :: "string \<Rightarrow> exfil_config \<Rightarrow> string option" where
  "scan_secrets text config =
     first_some (\<lambda>(label, r). if re_found r text then Some label else None) (secret_patterns config)"

definition has_secret_env :: "string \<Rightarrow> bool" where
  "has_secret_env command \<longleftrightarrow>
     list_ex (\<lambda>name. list_ex (\<lambda>seg. seg \<in> set SECRET_ENV_WORDS) (py_split_on CHR ''_'' (map ascii_upper_char name)))
       (re_findall ENV_VAR_RE command)"

definition references_secret :: "string \<Rightarrow> exfil_config \<Rightarrow> bool" where
  "references_secret command config \<longleftrightarrow>
     (if has_secret_env command then True else list_ex (\<lambda>r. re_found r command) (sensitive_path_res config))"

definition extract_hosts :: "string \<Rightarrow> string list" where
  "extract_hosts command =
     re_findall HOST_RE command @ re_findall SCP_HOST_RE command @ re_findall DEVTCP_RE command
     @ re_findall SCHEME_HOST_RE command"

definition after_last_at :: "string \<Rightarrow> string" where
  "after_last_at s = rev (takeWhile (\<lambda>c. c \<noteq> CHR ''@'') (rev s))"

definition before_colon :: "string \<Rightarrow> string" where
  "before_colon s = takeWhile (\<lambda>c. c \<noteq> CHR '':'') s"

definition rstrip_dots :: "string \<Rightarrow> string" where
  "rstrip_dots s = rstrip_chars (\<lambda>c. c = CHR ''.'') s"

definition normal_host :: "string \<Rightarrow> string" where
  "normal_host host = rstrip_dots (py_lower (py_strip (before_colon (after_last_at host))))"

definition host_allowed :: "string \<Rightarrow> exfil_config \<Rightarrow> bool" where
  "host_allowed host config =
     (let host = normal_host host in
      if host = [] then False
      else list_ex (\<lambda>pattern.
        let p = py_lower pattern in
        if startswith p ''*.'' then (let base = drop 2 p in host = base \<or> endswith host (''.'' @ base))
        else host = p \<or> endswith host (''.'' @ p)) (allowed_hosts config))"

section \<open>The metadata server\<close>

definition METADATA_HOSTS :: "string list" where
  "METADATA_HOSTS = [''metadata.google.internal'', ''metadata'', ''169.254.169.254'']"

text \<open>One numeric token: hexadecimal with a prefix, octal with a leading zero, or decimal.\<close>

definition decimal_token :: "string \<Rightarrow> int option" where
  "decimal_token tok =
     (let t = py_strip tok;
          (sg, body) = (case t of c # r \<Rightarrow> (if c = CHR ''-'' then (-1, r)
                                            else if c = CHR ''+'' then (1, r) else (1, t))
                        | [] \<Rightarrow> (1, t))
      in if body \<noteq> [] \<and> list_all ascii_digit body then Some (sg * int_of_digits 0 body) else None)"

fun octal_number :: "int \<Rightarrow> string \<Rightarrow> int option" where
  "octal_number acc [] = Some acc"
| "octal_number acc (c # s) =
     (if in_range CHR ''0'' CHR ''7'' c then octal_number (8 * acc + (of_char c - 48)) s else None)"

definition ipv4_token :: "string \<Rightarrow> int option" where
  "ipv4_token tok =
     (case tok of
        z # x # r \<Rightarrow>
          if z = CHR ''0'' \<and> (x = CHR ''x'' \<or> x = CHR ''X'') \<and> r \<noteq> [] \<and> hex_number 0 r \<noteq> None then hex_number 0 r
          else if z = CHR ''0'' \<and> octal_number 0 (x # r) \<noteq> None then octal_number 0 (x # r)
          else decimal_token tok
      | _ \<Rightarrow> decimal_token tok)"

text \<open>The parts of a one to four part address packed as \<open>inet_aton\<close> does: the last part fills
  the bytes the others leave.\<close>

definition pack_parts :: "int list \<Rightarrow> int option" where
  "pack_parts values =
     (let tail_bits = 8 * (4 - length values + 1) in
      if list_ex (\<lambda>v. \<not> (0 \<le> v \<and> v \<le> 255)) (butlast values) then None
      else if \<not> (0 \<le> last values \<and> last values < 2 ^ tail_bits) then None
      else Some (fst (foldl (\<lambda>(packed, shift) v. (or packed (push_bit (tail_bits + 8 * (shift - 1)) v), shift + 1))
             (last values, 1) (rev (butlast values)))))"

definition as_ipv4 :: "string \<Rightarrow> string option" where
  "as_ipv4 host =
     (case ip_address host of
        Some addr \<Rightarrow> Some (case ipv4_mapped addr of Some n \<Rightarrow> ipv4_str n | None \<Rightarrow> ip_str addr)
      | None \<Rightarrow>
          (let parts = py_split_on CHR ''.'' host in
           if \<not> (1 \<le> length parts \<and> length parts \<le> 4) then None
           else case opt_all (map ipv4_token parts) of
                  None \<Rightarrow> None
                | Some values \<Rightarrow> map_option ipv4_str (pack_parts values)))"

definition strip_brackets :: "string \<Rightarrow> string" where
  "strip_brackets s = rstrip_chars (\<lambda>c. c \<in> set ''[]'') (lstrip_chars (\<lambda>c. c \<in> set ''[]'') s)"

definition is_metadata_host :: "string \<Rightarrow> bool" where
  "is_metadata_host host =
     (let h = rstrip_dots (strip_brackets (py_lower (py_strip (after_last_at host))));
          h = (if CHR '']'' \<in> set h \<or> count_list h CHR '':'' \<le> 1 then strip_brackets (before_colon h) else h)
      in h \<in> set METADATA_HOSTS \<or> (case as_ipv4 h of None \<Rightarrow> False | Some a \<Rightarrow> a \<in> set METADATA_HOSTS))"

definition targets_metadata :: "string \<Rightarrow> bool" where
  "targets_metadata command \<longleftrightarrow>
     contains (py_lower command) ''169.254.169.254'' \<or> contains (py_lower command) ''metadata.google.internal''
     \<or> list_ex is_metadata_host (extract_hosts command)"

end
