(* ===== verification/Policy_Grants.thy ===== *)
theory Policy_Grants
  imports Py_Json Tool_Names
begin

text \<open>
  Per-session policy grants (\<open>guardrails/policy_grants.py\<close>): the exact and the loose match, and
  the operation that grants, lists and revokes. The tool context enters through its session
  state, which may be missing. The operation returns its response and the state it leaves.
\<close>

definition POLICY_GRANTS_STATE_KEY :: string where
  "POLICY_GRANTS_STATE_KEY = ''_policy_grants''"

definition require_state :: "pydict option \<Rightarrow> pydict py" where
  "require_state state = (case state of
       None \<Rightarrow> Inl (ValueError ''tool_context.state is required'') | Some s \<Rightarrow> Inr s)"

definition active_grants :: "pydict \<Rightarrow> pydict list" where
  "active_grants state =
     (case dict_get state POLICY_GRANTS_STATE_KEY of
        PyList gs \<Rightarrow> List.map_filter as_dict gs
      | _ \<Rightarrow> [])"

definition grant_signature :: "pydict \<Rightarrow> pydict option" where
  "grant_signature grant =
     (case dict_get grant ''signature'' of PyDict sg \<Rightarrow> if sg = [] then None else Some sg | _ \<Rightarrow> None)"

definition grant_matches :: "pydict \<Rightarrow> string \<Rightarrow> pyval \<Rightarrow> bool" where
  "grant_matches grant tool_name args =
     (if \<not> py_eq (dict_get grant ''tool_name'') (PyStr tool_name) then False
      else case grant_signature grant of
             None \<Rightarrow> False
           | Some sg \<Rightarrow>
               (case args of
                  PyDict d \<Rightarrow> list_all (\<lambda>(k, expected). py_eq (dict_get d k) expected) sg
                | _ \<Rightarrow> False))"

definition find_matching_grant :: "pydict \<Rightarrow> string \<Rightarrow> pyval \<Rightarrow> pydict option" where
  "find_matching_grant state tool_name args =
     List.find (\<lambda>g. grant_matches g tool_name args) (active_grants state)"

definition loose_value_matches :: "pyval \<Rightarrow> pyval \<Rightarrow> bool" where
  "loose_value_matches v expected \<longleftrightarrow> py_eq v expected \<or>
     (case (v, expected) of (PyStr s, PyStr t) \<Rightarrow> t \<noteq> [] \<and> contains s t | _ \<Rightarrow> False)"

definition grant_matches_loose :: "pydict \<Rightarrow> string \<Rightarrow> pyval \<Rightarrow> bool" where
  "grant_matches_loose grant tool_name args =
     (if \<not> py_eq (dict_get grant ''tool_name'') (PyStr tool_name) then False
      else case grant_signature grant of
             None \<Rightarrow> False
           | Some sg \<Rightarrow>
               (case args of
                  PyDict d \<Rightarrow> list_all (\<lambda>(k, expected). loose_value_matches (dict_get d k) expected) sg
                | _ \<Rightarrow> False))"

definition find_matching_grant_loose :: "pydict \<Rightarrow> string \<Rightarrow> pyval \<Rightarrow> pydict option" where
  "find_matching_grant_loose state tool_name args =
     List.find (\<lambda>g. grant_matches_loose g tool_name args) (active_grants state)"

section \<open>The operation\<close>

definition grant_refused :: "string \<Rightarrow> pydict" where
  "grant_refused why = [(''granted'', PyBool False), (''error'', PyStr why)]"

definition ARROW :: string where
  "ARROW = [CHR 0xE2, CHR 0x86, CHR 0x92]"

text \<open>The scan for an equal grant; an entry that is not a dictionary has no \<open>get\<close>.\<close>

fun find_duplicate :: "string \<Rightarrow> pydict \<Rightarrow> pyval list \<Rightarrow> pyval option py" where
  "find_duplicate tool_name sg [] = Inr None"
| "find_duplicate tool_name sg (e # es) =
     (case e of
        PyDict g \<Rightarrow>
          if py_eq (dict_get g ''tool_name'') (PyStr tool_name) \<and> py_eq (dict_get g ''signature'') (PyDict sg)
          then Inr (Some e) else find_duplicate tool_name sg es
      | _ \<Rightarrow> Inl (AttributeError ''get''))"

definition stored_grants :: "pydict \<Rightarrow> pyval list" where
  "stored_grants s = (case dict_get s POLICY_GRANTS_STATE_KEY of PyList gs \<Rightarrow> gs | _ \<Rightarrow> [])"

definition grant_op :: "string \<Rightarrow> pyval \<Rightarrow> pydict option \<Rightarrow> (pydict \<times> pydict option) py" where
  "grant_op tool_name signature state =
     (if tool_name = [] then Inr (grant_refused ''tool_name is required'', state)
      else case signature of
        PyDict sg \<Rightarrow>
          if sg = [] then
            Inr (grant_refused (''signature must be a non-empty dict of arg_name '' @ ARROW @ '' value''), state)
          else if list_ex (\<lambda>kv. as_str (snd kv) = None) sg then
            Inr (grant_refused ''signature keys and values must be strings'', state)
          else py_bind (require_state state) (\<lambda>s.
            let grants = stored_grants s;
                new_grant = PyDict [(''tool_name'', PyStr tool_name), (''signature'', PyDict sg)]
            in py_bind (find_duplicate tool_name sg grants) (\<lambda>dup.
               case dup of
                 Some e \<Rightarrow> Inr ([(''granted'', PyBool True), (''grant'', e), (''duplicate'', PyBool True)], state)
               | None \<Rightarrow> Inr ([(''granted'', PyBool True), (''grant'', new_grant)],
                            Some (dict_set s POLICY_GRANTS_STATE_KEY (PyList (grants @ [new_grant]))))))
      | _ \<Rightarrow> Inr (grant_refused (''signature must be a non-empty dict of arg_name '' @ ARROW @ '' value''), state))"

definition list_op :: "pydict option \<Rightarrow> (pydict \<times> pydict option) py" where
  "list_op state =
     py_bind (require_state state) (\<lambda>s.
       let grants = active_grants s
       in Inr ([(''count'', PyInt (int (length grants))), (''grants'', PyList (map PyDict grants))], state))"

definition revoke_op :: "int \<Rightarrow> pydict option \<Rightarrow> (pydict \<times> pydict option) py" where
  "revoke_op index state =
     py_bind (require_state state) (\<lambda>s.
       case dict_get s POLICY_GRANTS_STATE_KEY of
         PyList grants \<Rightarrow>
           if index < 0 \<or> int (length grants) \<le> index
           then Inr ([(''revoked'', PyBool False), (''error'', PyStr ''index out of range'')], state)
           else Inr ([(''revoked'', PyBool True), (''grant'', grants ! nat index)],
                     Some (dict_set s POLICY_GRANTS_STATE_KEY
                       (PyList (take (nat index) grants @ drop (Suc (nat index)) grants))))
       | _ \<Rightarrow> Inr ([(''revoked'', PyBool False), (''error'', PyStr ''index out of range'')], state))"

definition policy_grant ::
    "string \<Rightarrow> string option \<Rightarrow> pyval \<Rightarrow> int option \<Rightarrow> pydict option \<Rightarrow> (pydict \<times> pydict option) py" where
  "policy_grant action tool_name signature index state =
     (if action = ''grant'' then
        (case tool_name of
           None \<Rightarrow> Inr (grant_refused (''action='grant' requires 'tool_name'' @ [SQUOTE]), state)
         | Some tn \<Rightarrow>
             if signature = PyNone then Inr (grant_refused (''action='grant' requires 'signature'' @ [SQUOTE]), state)
             else grant_op tn signature state)
      else if action = ''list'' then list_op state
      else if action = ''revoke'' then
        (case index of
           None \<Rightarrow> Inr ([(''revoked'', PyBool False), (''error'', PyStr (''action='revoke' requires 'index'' @ [SQUOTE]))], state)
         | Some i \<Rightarrow> revoke_op i state)
      else Inr ([(''error'', PyStr (''Unknown action '' @ py_repr_str action @ ''. Use: grant, list, revoke.''))], state))"

section \<open>What a grant exempts\<close>

lemma active_grants_set:
  "active_grants (dict_set s POLICY_GRANTS_STATE_KEY (PyList gs)) = List.map_filter as_dict gs"
  by (simp add: active_grants_def)

lemma active_grants_stored: "active_grants s = List.map_filter as_dict (stored_grants s)"
  by (auto simp: active_grants_def stored_grants_def List.map_filter_def split: pyval.splits)

lemma find_grant_iff:
  "find_matching_grant s tn args \<noteq> None \<longleftrightarrow> (\<exists>g \<in> set (active_grants s). grant_matches g tn args)"
  by (auto simp: find_matching_grant_def find_None_iff)

lemma grant_matches_new:
  assumes "sg \<noteq> []"
  shows "grant_matches [(''tool_name'', PyStr tn), (''signature'', PyDict sg)] tn' args \<longleftrightarrow>
    tn' = tn \<and> (\<exists>d. args = PyDict d \<and> list_all (\<lambda>(k, v). py_eq (dict_get d k) v) sg)"
  using assms by (auto simp: grant_matches_def grant_signature_def split: pyval.splits)

lemma grant_op_new:
  assumes "tn \<noteq> []" "sg \<noteq> []" "list_all (\<lambda>kv. as_str (snd kv) \<noteq> None) sg"
    and "find_duplicate tn sg (stored_grants s) = Inr None"
  shows "grant_op tn (PyDict sg) (Some s) =
    (let g = PyDict [(''tool_name'', PyStr tn), (''signature'', PyDict sg)] in
     Inr ([(''granted'', PyBool True), (''grant'', g)],
          Some (dict_set s POLICY_GRANTS_STATE_KEY (PyList (stored_grants s @ [g])))))"
proof -
  have "\<not> list_ex (\<lambda>kv. as_str (snd kv) = None) sg" using assms(3) by (auto simp: list_ex_iff list_all_iff)
  then show ?thesis using assms by (simp add: grant_op_def require_state_def Let_def)
qed

section \<open>Properties\<close>

text \<open>A grant is exact: granting a new signature for a tool exempts, besides what was
  exempt before, precisely the calls of that tool whose arguments carry every entry of the
  signature verbatim; and revoking it at its position restores the grants as they were.\<close>

theorem policy_grant_is_exact_and_revocable:
  assumes "tn \<noteq> []" and "sg \<noteq> []" and "list_all (\<lambda>kv. as_str (snd kv) \<noteq> None) sg"
    and "find_duplicate tn sg (stored_grants s) = Inr None"
  shows "\<exists>r s' r' s''. policy_grant ''grant'' (Some tn) (PyDict sg) None (Some s) = Inr (r, Some s') \<and>
    (find_matching_grant s' tn' args \<noteq> None \<longleftrightarrow>
       find_matching_grant s tn' args \<noteq> None \<or>
       (tn' = tn \<and> (\<exists>d. args = PyDict d \<and> list_all (\<lambda>(k, v). py_eq (dict_get d k) v) sg))) \<and>
    policy_grant ''revoke'' None PyNone (Some (int (length (stored_grants s)))) (Some s') = Inr (r', Some s'') \<and>
    stored_grants s'' = stored_grants s"
proof -
  let ?g = "[(''tool_name'', PyStr tn), (''signature'', PyDict sg)]"
  let ?s' = "dict_set s POLICY_GRANTS_STATE_KEY (PyList (stored_grants s @ [PyDict ?g]))"
  have g: "policy_grant ''grant'' (Some tn) (PyDict sg) None (Some s) =
      Inr ([(''granted'', PyBool True), (''grant'', PyDict ?g)], Some ?s')"
    by (simp add: policy_grant_def grant_op_new [OF assms] Let_def)
  have a: "active_grants ?s' = active_grants s @ [?g]"
    unfolding active_grants_set active_grants_stored [of s] by (simp add: List.map_filter_def)
  have f: "find_matching_grant ?s' tn' args \<noteq> None \<longleftrightarrow>
       find_matching_grant s tn' args \<noteq> None \<or>
       (tn' = tn \<and> (\<exists>d. args = PyDict d \<and> list_all (\<lambda>(k, v). py_eq (dict_get d k) v) sg))"
    unfolding find_grant_iff a using grant_matches_new [OF assms(2), of tn tn' args] by auto
  let ?s'' = "dict_set ?s' POLICY_GRANTS_STATE_KEY (PyList (stored_grants s))"
  have r: "policy_grant ''revoke'' None PyNone (Some (int (length (stored_grants s)))) (Some ?s') =
      Inr ([(''revoked'', PyBool True), (''grant'', PyDict ?g)], Some ?s'')"
    by (simp add: policy_grant_def revoke_op_def require_state_def nth_append)
  have "stored_grants ?s'' = stored_grants s" by (simp add: stored_grants_def)
  with g f r show ?thesis by blast
qed

theorem policy_grant_is_exact_and_revocable_witness:
  "\<exists>r s' r' s''. policy_grant ''grant'' (Some ''bash'') (PyDict [(''command'', PyStr ''rm -rf build/'')]) None (Some []) =
      Inr (r, Some s') \<and>
    (find_matching_grant s' ''bash'' (PyDict [(''command'', PyStr ''rm -rf /'')]) \<noteq> None \<longleftrightarrow>
       find_matching_grant [] ''bash'' (PyDict [(''command'', PyStr ''rm -rf /'')]) \<noteq> None \<or>
       (''bash'' = ''bash'' \<and> (\<exists>d. PyDict [(''command'', PyStr ''rm -rf /'')] = PyDict d \<and>
          list_all (\<lambda>(k, v). py_eq (dict_get d k) v) [(''command'', PyStr ''rm -rf build/'')]))) \<and>
    policy_grant ''revoke'' None PyNone (Some (int (length (stored_grants [])))) (Some s') = Inr (r', Some s'') \<and>
    stored_grants s'' = stored_grants []"
  by (rule policy_grant_is_exact_and_revocable) (simp_all add: stored_grants_def)

end
