(* ===== verification/Command_Classify.thy ===== *)
theory Command_Classify
  imports Py_Prelude
begin

text \<open>
  Shell command parsing for the permission gate (\<open>guardrails/command_classify.py\<close>): the
  wrapper strip, the quote-aware split into segments, the significant tokens and the prefix an
  approval is scoped to, and the detection of redirections and command substitutions. The
  fixed regular expressions of the module are written as the recognisers they denote; the
  index loops are recursions over the rest of the command, carrying the quote state and (for
  the test on \<open>&\<close>) the previous character.
\<close>

section \<open>strip_wrapper\<close>

definition shell_names :: "string list" where
  "shell_names = [''bash'', ''sh'', ''zsh'']"

text \<open>One or more white-space characters, then the rest.\<close>

definition skip_spaces1 :: "string \<Rightarrow> string option" where
  "skip_spaces1 s = (case s of c # r \<Rightarrow> if py_isspace c then Some (dropWhile py_isspace r) else None
                     | [] \<Rightarrow> None)"

text \<open>The regular expression for \<open>bash -c '...'\<close> on a stripped command: the quote that opens
  the body is also its last character.\<close>

definition wrapper_body_after :: "string \<Rightarrow> string \<Rightarrow> string option" where
  "wrapper_body_after name s =
     (if \<not> startswith s name then None
      else Option.bind (skip_spaces1 (drop (length name) s)) (\<lambda>r.
        if \<not> startswith r ''-c'' then None
        else Option.bind (skip_spaces1 (drop 2 r)) (\<lambda>r.
          case r of
            q # body \<Rightarrow> if (q = SQUOTE \<or> q = DQUOTE) \<and> body \<noteq> [] \<and> last body = q
                        then Some (butlast body) else None
          | [] \<Rightarrow> None)))"

definition wrapper_body :: "string \<Rightarrow> string option" where
  "wrapper_body s =
     (case wrapper_body_after ''bash'' s of
        Some b \<Rightarrow> Some b
      | None \<Rightarrow> (case wrapper_body_after ''sh'' s of
                  Some b \<Rightarrow> Some b
                | None \<Rightarrow> wrapper_body_after ''zsh'' s))"

definition strip_wrapper :: "string \<Rightarrow> string" where
  "strip_wrapper command =
     (case wrapper_body (py_strip command) of Some b \<Rightarrow> py_strip b | None \<Rightarrow> py_strip command)"

section \<open>split_segments\<close>

definition flush :: "string \<Rightarrow> string list" where
  "flush buf = (let seg = py_strip buf in if seg = [] then [] else [seg])"

definition amp_adjacent :: "char option \<Rightarrow> bool" where
  "amp_adjacent c \<longleftrightarrow> (case c of None \<Rightarrow> False | Some x \<Rightarrow> x \<in> set ''<>&'')"

definition head_opt :: "string \<Rightarrow> char option" where
  "head_opt s = (case s of [] \<Rightarrow> None | c # _ \<Rightarrow> Some c)"

fun split_loop :: "bool \<Rightarrow> bool \<Rightarrow> char option \<Rightarrow> string \<Rightarrow> string \<Rightarrow> string list" where
  "split_loop in_single in_double prev buf [] = flush buf"
| "split_loop in_single in_double prev buf (ch # rest) =
     (if in_single then split_loop (ch \<noteq> SQUOTE) in_double (Some ch) (buf @ [ch]) rest
      else if in_double then
        (if ch = BSLASH \<and> rest \<noteq> []
         then (case rest of x # rest' \<Rightarrow> split_loop in_single in_double (Some x) (buf @ [ch, x]) rest'
               | [] \<Rightarrow> [])
         else split_loop in_single (ch \<noteq> DQUOTE) (Some ch) (buf @ [ch]) rest)
      else if ch = BSLASH \<and> rest \<noteq> []
        then (case rest of x # rest' \<Rightarrow> split_loop in_single in_double (Some x) (buf @ [ch, x]) rest'
              | [] \<Rightarrow> [])
      else if ch = SQUOTE then split_loop True in_double (Some ch) (buf @ [ch]) rest
      else if ch = DQUOTE then split_loop in_single True (Some ch) (buf @ [ch]) rest
      else if ch = CHR '';'' \<or> ch = NL
        then flush buf @ split_loop in_single in_double (Some ch) [] rest
      else if ch = CHR ''&'' then
        (case rest of
           x # rest' \<Rightarrow>
             if x = CHR ''&'' then flush buf @ split_loop in_single in_double (Some x) [] rest'
             else if \<not> amp_adjacent prev \<and> \<not> amp_adjacent (Some x)
               then flush buf @ split_loop in_single in_double (Some ch) [] rest
             else split_loop in_single in_double (Some ch) (buf @ [ch]) rest
         | [] \<Rightarrow> if \<not> amp_adjacent prev then flush buf else flush (buf @ [ch]))
      else if ch = CHR ''|'' then
        (case rest of
           x # rest' \<Rightarrow>
             if x = CHR ''|'' then flush buf @ split_loop in_single in_double (Some x) [] rest'
             else flush buf @ split_loop in_single in_double (Some ch) [] rest
         | [] \<Rightarrow> flush buf)
      else split_loop in_single in_double (Some ch) (buf @ [ch]) rest)"

definition split_segments :: "string \<Rightarrow> string list" where
  "split_segments command = split_loop False False None [] command"

section \<open>Tokens and prefixes\<close>

definition skip_leading :: "string list \<Rightarrow> string list" where
  "skip_leading tokens = dropWhile (\<lambda>t. contains t ''='' \<or> t \<in> set [''env'']) tokens"

fun positional_tokens :: "string list \<Rightarrow> string list" where
  "positional_tokens [] = []"
| "positional_tokens (t # ts) =
     (if startswith t ''-''
      then (if contains t ''='' then positional_tokens ts else [])
      else t # positional_tokens ts)"

definition significant_tokens :: "string \<Rightarrow> string list" where
  "significant_tokens segment = positional_tokens (skip_leading (py_split segment))"

definition bare_word :: "string \<Rightarrow> bool" where
  "bare_word w = (case w of [] \<Rightarrow> False
     | c # r \<Rightarrow> ascii_lower_alpha c \<and>
         list_all (\<lambda>x. ascii_lower_alpha x \<or> ascii_digit x \<or> x = CHR ''-'') r)"

definition command_prefix :: "string \<Rightarrow> string" where
  "command_prefix segment =
     (case significant_tokens segment of
        [] \<Rightarrow> py_strip segment
      | [binary] \<Rightarrow> binary
      | binary # nxt # _ \<Rightarrow>
          if bare_word binary \<and> bare_word nxt then binary @ '' '' @ nxt else binary)"

section \<open>Redirections\<close>

text \<open>\<open>re.sub(p, "", s)\<close> for a pattern that never matches the empty string, given as the
  function that returns what follows a match at the start.\<close>

function re_sub_empty :: "(string \<Rightarrow> string option) \<Rightarrow> string \<Rightarrow> string" where
  "re_sub_empty m [] = []"
| "re_sub_empty m (c # s) =
     (case m (c # s) of
        Some r \<Rightarrow> if length r < length (c # s) then re_sub_empty m r else c # re_sub_empty m s
      | None \<Rightarrow> c # re_sub_empty m s)"
  by pat_completeness auto
termination
  by (relation "measure (\<lambda>(m, s). length s)") auto

definition fd_dup_match :: "string \<Rightarrow> string option" where
  "fd_dup_match s =
     (case dropWhile ascii_digit s of
        c # a # r \<Rightarrow>
          if c \<in> set ''<>'' \<and> a = CHR ''&''
          then (case r of
                  d # r' \<Rightarrow> if ascii_digit d then Some (dropWhile ascii_digit r')
                            else if d = CHR ''-'' then Some r' else None
                | [] \<Rightarrow> None)
          else None
      | _ \<Rightarrow> None)"

text \<open>The part after the optional descriptor: one or two \<open>>\<close>, spaces, the sink, a boundary.\<close>

definition devnull_tail :: "string \<Rightarrow> string option" where
  "devnull_tail s =
     (case s of
        c # r \<Rightarrow>
          if c = CHR ''>''
          then (let r = (case r of d # r' \<Rightarrow> if d = CHR ''>'' then r' else r | [] \<Rightarrow> r);
                    r = dropWhile py_isspace r
                in if startswith r ''/dev/null''
                   then (let t = drop 9 r in
                         if t = [] \<or> py_isspace (hd t) then Some t else None)
                   else None)
          else None
      | [] \<Rightarrow> None)"

definition devnull_match :: "string \<Rightarrow> string option" where
  "devnull_match s =
     (case devnull_tail (dropWhile ascii_digit s) of
        Some t \<Rightarrow> Some t
      | None \<Rightarrow> (case s of c # r \<Rightarrow> if c = CHR ''&'' then devnull_tail r else None | [] \<Rightarrow> None))"

definition has_redirection :: "string \<Rightarrow> bool" where
  "has_redirection segment \<longleftrightarrow>
     list_ex (\<lambda>c. c \<in> set ''<>'') (re_sub_empty devnull_match (re_sub_empty fd_dup_match segment))"

section \<open>Command substitution\<close>

text \<open>The inner loop over an ANSI-C quoted run: what follows its closing quote, or \<open>None\<close> when
  the segment ends first.\<close>

fun skip_ansi_c :: "string \<Rightarrow> string option" where
  "skip_ansi_c [] = None"
| "skip_ansi_c (c # r) =
     (if c = SQUOTE then Some r
      else if c = BSLASH then (case r of [] \<Rightarrow> None | x # r' \<Rightarrow> skip_ansi_c r')
      else skip_ansi_c r)"

lemma skip_ansi_c_shorter: "skip_ansi_c s = Some r \<Longrightarrow> length r < length s"
proof (induction s rule: skip_ansi_c.induct)
  case (2 c s)
  then show ?case by (auto split: if_splits list.splits)
qed simp

function subst_loop :: "bool \<Rightarrow> bool \<Rightarrow> string \<Rightarrow> bool" where
  "subst_loop in_single in_double [] \<longleftrightarrow> in_single \<or> in_double"
| "subst_loop in_single in_double (ch # rest) \<longleftrightarrow>
     (if in_single then subst_loop (ch \<noteq> SQUOTE) in_double rest
      else if ch = BSLASH \<and> rest \<noteq> [] then subst_loop in_single in_double (tl rest)
      else if in_double then
        (if ch = BTICK \<or> (ch = CHR ''$'' \<and> head_opt rest = Some (CHR ''('')) then True
         else subst_loop in_single (ch \<noteq> DQUOTE) rest)
      else if ch = CHR ''$'' \<and> head_opt rest = Some SQUOTE then
        (case skip_ansi_c (tl rest) of None \<Rightarrow> True | Some r \<Rightarrow> subst_loop in_single in_double r)
      else if ch = SQUOTE then subst_loop True in_double rest
      else if ch = DQUOTE then subst_loop in_single True rest
      else if ch = BTICK \<or> (ch \<in> set ''$<>'' \<and> head_opt rest = Some (CHR ''('')) then True
      else subst_loop in_single in_double rest)"
  by pat_completeness auto
termination
proof (relation "measure (\<lambda>(a, b, s). length s)", goal_cases)
  case (5 in_single in_double ch rest r)
  then show ?case using skip_ansi_c_shorter [of "tl rest" r] by simp
qed auto

definition has_command_substitution :: "string \<Rightarrow> bool" where
  "has_command_substitution segment \<longleftrightarrow> subst_loop False False segment"

section \<open>What the split promises\<close>

text \<open>
  An independent reading of shell quoting, one character at a time: the state says whether
  the next character is quoted or escaped.
\<close>

datatype quoting = Plain | Sgl | Dbl | Esc | DblEsc

fun quote_step :: "quoting \<Rightarrow> char \<Rightarrow> quoting" where
  "quote_step Sgl c = (if c = SQUOTE then Plain else Sgl)"
| "quote_step Dbl c = (if c = DQUOTE then Plain else if c = BSLASH then DblEsc else Dbl)"
| "quote_step Esc c = Plain"
| "quote_step DblEsc c = Dbl"
| "quote_step Plain c =
     (if c = SQUOTE then Sgl else if c = DQUOTE then Dbl else if c = BSLASH then Esc else Plain)"

text \<open>
  A character that may stand inside a piece: quoted, or no operator. An unquoted \<open>&\<close> is none
  only directly beside a \<open><\<close>, \<open>>\<close> or \<open>&\<close> (a redirection), and never before a second \<open>&\<close>.
\<close>

definition no_operator :: "quoting \<Rightarrow> char option \<Rightarrow> char \<Rightarrow> string \<Rightarrow> bool" where
  "no_operator q prev c after \<longleftrightarrow>
     (q = Plain \<longrightarrow> c \<notin> set [CHR '';'', NL, CHR ''|''] \<and>
        (c = CHR ''&'' \<longrightarrow> head_opt after \<noteq> Some (CHR ''&'') \<and>
           (amp_adjacent prev \<or> amp_adjacent (head_opt after))))"

fun operator_free :: "quoting \<Rightarrow> char option \<Rightarrow> string \<Rightarrow> string \<Rightarrow> bool" where
  "operator_free q prev [] after \<longleftrightarrow> True"
| "operator_free q prev (c # p) after \<longleftrightarrow>
     no_operator q prev c (p @ after) \<and> operator_free (quote_step q c) (Some c) p after"

text \<open>A command cut into pieces, each with the separator after it, and a last piece.\<close>

definition separators :: "string list" where
  "separators = ['';'', [NL], ''&'', ''&&'', ''|'', ''||'']"

definition rejoin :: "(string \<times> string) list \<Rightarrow> string \<Rightarrow> string" where
  "rejoin ps final = concat (map (\<lambda>(p, sep). p @ sep) ps) @ final"

definition last_before :: "char option \<Rightarrow> string \<Rightarrow> char option" where
  "last_before prev p = (if p = [] then prev else Some (last p))"

text \<open>Every piece is free of operators, every separator stands outside quotes, and a single
  \<open>&\<close> separates only when it belongs to no redirection.\<close>

fun shell_cut :: "quoting \<Rightarrow> char option \<Rightarrow> (string \<times> string) list \<Rightarrow> string \<Rightarrow> bool" where
  "shell_cut q prev [] final \<longleftrightarrow> operator_free q prev final []"
| "shell_cut q prev ((p, sep) # ps) final \<longleftrightarrow>
     operator_free q prev p (sep @ rejoin ps final) \<and> foldl quote_step q p = Plain \<and>
     sep \<in> set separators \<and>
     (sep = ''&'' \<longrightarrow> \<not> amp_adjacent (last_before prev p) \<and>
        \<not> amp_adjacent (head_opt (rejoin ps final))) \<and>
     shell_cut Plain (Some (last sep)) ps final"

text \<open>The segments of a cut: its trimmed pieces, the empty ones left out.\<close>

fun segments_from :: "string \<Rightarrow> (string \<times> string) list \<Rightarrow> string \<Rightarrow> string list" where
  "segments_from buf [] final = flush (buf @ final)"
| "segments_from buf ((p, sep) # ps) final = flush (buf @ p) @ segments_from [] ps final"

definition trimmed_pieces :: "(string \<times> string) list \<Rightarrow> string \<Rightarrow> string list" where
  "trimmed_pieces ps final = filter (\<lambda>seg. seg \<noteq> []) (map py_strip (map fst ps @ [final]))"

lemma segments_from_trimmed: "segments_from [] ps final = trimmed_pieces ps final"
  by (induction "[] :: string" ps final rule: segments_from.induct)
     (simp_all add: trimmed_pieces_def flush_def Let_def)

lemma rejoin_simps [simp]: "rejoin [] final = final" "rejoin ((p, sep) # ps) final = p @ sep @ rejoin ps final"
  by (simp_all add: rejoin_def)

text \<open>One more character in front of the first piece.\<close>

lemma cut_push:
  assumes "shell_cut (quote_step q c) (Some c) ps final" and "no_operator q prev c (rejoin ps final)"
  shows "\<exists>ps' final'. rejoin ps' final' = c # rejoin ps final \<and> shell_cut q prev ps' final' \<and>
           segments_from buf ps' final' = segments_from (buf @ [c]) ps final"
proof (cases ps)
  case Nil
  with assms show ?thesis by (intro exI [of _ "[]"] exI [of _ "c # final"]) simp
next
  case (Cons x ps0)
  obtain p sep where x: "x = (p, sep)" by (cases x)
  have "last_before prev (c # p) = last_before (Some c) p" by (simp add: last_before_def)
  with assms show ?thesis
    by (intro exI [of _ "(c # p, sep) # ps0"] exI [of _ final]) (simp add: Cons x)
qed

text \<open>What the loop's result on the rest of a command comes from, read with the loop's flags.\<close>

definition cut_of :: "quoting \<Rightarrow> char option \<Rightarrow> string \<Rightarrow> string \<Rightarrow> string list \<Rightarrow> bool" where
  "cut_of q prev buf rest segs \<longleftrightarrow>
     (\<exists>ps final. rejoin ps final = rest \<and> shell_cut q prev ps final \<and> segs = segments_from buf ps final)"

lemma cut_of_end: "cut_of q prev buf [] (flush buf)"
  unfolding cut_of_def by (intro exI [of _ "[]"] exI [of _ "[]"]) simp

lemma cut_of_push:
  "cut_of (quote_step q c) (Some c) (buf @ [c]) rest segs \<Longrightarrow> no_operator q prev c rest \<Longrightarrow>
   cut_of q prev buf (c # rest) segs"
  unfolding cut_of_def using cut_push by metis

lemma cut_of_sep:
  assumes "cut_of Plain (Some (last sep)) [] rest segs" and "sep \<in> set separators"
    and "sep = ''&'' \<longrightarrow> \<not> amp_adjacent prev \<and> \<not> amp_adjacent (head_opt rest)"
  shows "cut_of Plain prev buf (sep @ rest) (flush buf @ segs)"
proof -
  from assms(1) obtain ps final where c: "rejoin ps final = rest"
    "shell_cut Plain (Some (last sep)) ps final" "segs = segments_from [] ps final"
    by (auto simp: cut_of_def)
  show ?thesis unfolding cut_of_def
    by (intro exI [of _ "([], sep) # ps"] exI [of _ final]) (use assms(2,3) c in \<open>simp add: last_before_def\<close>)
qed

definition flag_quoting :: "bool \<Rightarrow> bool \<Rightarrow> quoting" where
  "flag_quoting in_single in_double = (if in_single then Sgl else if in_double then Dbl else Plain)"

lemma cut_of_escape:
  assumes "cut_of q' (Some x) (buf @ [BSLASH, x]) rest segs" and "no_operator q prev BSLASH (x # rest)"
    and "quote_step q BSLASH \<noteq> Plain" and "quote_step (quote_step q BSLASH) x = q'"
  shows "cut_of q prev buf (BSLASH # x # rest) segs"
proof -
  have "cut_of (quote_step (quote_step q BSLASH) x) (Some x) ((buf @ [BSLASH]) @ [x]) rest segs"
    unfolding assms(4) using assms(1) by simp
  then have "cut_of (quote_step q BSLASH) (Some BSLASH) (buf @ [BSLASH]) (x # rest) segs"
    by (rule cut_of_push) (simp add: no_operator_def assms(3))
  then show ?thesis by (rule cut_of_push) (rule assms(2))
qed

lemma flush_Nil [simp]: "flush [] = []"
  by (simp add: flush_def)

lemma no_operator_quoted [simp]: "q \<noteq> Plain \<Longrightarrow> no_operator q prev c after"
  by (simp add: no_operator_def)

declare split_loop.simps(2) [simp del]

text \<open>One pass of the loop, given that the rest of the loop is right.\<close>

lemma split_loop_step_quoted:
  assumes IH1: "\<And>a b p u. \<not> (a \<and> b) \<Longrightarrow> cut_of (flag_quoting a b) p u rest (split_loop a b p u rest)"
    and IH2: "\<And>x r a b p u. rest = x # r \<Longrightarrow> \<not> (a \<and> b) \<Longrightarrow>
                cut_of (flag_quoting a b) p u r (split_loop a b p u r)"
    and quoted: "in_single \<noteq> in_double"
  shows "cut_of (flag_quoting in_single in_double) prev buf (ch # rest)
           (split_loop in_single in_double prev buf (ch # rest))"
proof -
  have P1: "\<And>p u. cut_of Plain p u rest (split_loop False False p u rest)"
    and S1: "\<And>p u. cut_of Sgl p u rest (split_loop True False p u rest)"
    and D1: "\<And>p u. cut_of Dbl p u rest (split_loop False True p u rest)"
    using IH1 [of False False] IH1 [of True False] IH1 [of False True] by (simp_all add: flag_quoting_def)
  have D2: "\<And>x r p u. rest = x # r \<Longrightarrow> cut_of Dbl p u r (split_loop False True p u r)"
    using IH2 [of _ _ False True] by (simp add: flag_quoting_def)
  show ?thesis
proof (cases in_single)
  case True
  have "cut_of (quote_step Sgl ch) (Some ch) (buf @ [ch]) rest
      (split_loop (ch \<noteq> SQUOTE) False (Some ch) (buf @ [ch]) rest)"
    by (cases "ch = SQUOTE") (simp_all add: P1 S1)
  then have "cut_of Sgl prev buf (ch # rest)
      (split_loop (ch \<noteq> SQUOTE) False (Some ch) (buf @ [ch]) rest)"
    by (rule cut_of_push) simp
  then show ?thesis using True quoted by (simp add: split_loop.simps(2) flag_quoting_def)
next
  case False
  with quoted have dbl: in_double by simp
  consider (esc) x r where "ch = BSLASH" "rest = x # r" | (last) "ch = BSLASH" "rest = []"
    | (other) "ch \<noteq> BSLASH" by (cases rest) auto
  then have "cut_of Dbl prev buf (ch # rest) (split_loop False True prev buf (ch # rest))"
  proof cases
    case esc
    have "cut_of Dbl prev buf (BSLASH # x # r) (split_loop False True (Some x) (buf @ [BSLASH, x]) r)"
      by (rule cut_of_escape [where q' = Dbl])
         (simp_all add: D2 [OF esc(2)])
    then show ?thesis using esc by (simp add: split_loop.simps(2))
  next
    case last
    have "cut_of Dbl prev buf [BSLASH] (flush (buf @ [BSLASH]))"
      by (intro cut_of_push cut_of_end) simp
    then show ?thesis using last by (simp add: split_loop.simps(2))
  next
    case other
    have "cut_of (quote_step Dbl ch) (Some ch) (buf @ [ch]) rest
        (split_loop False (ch \<noteq> DQUOTE) (Some ch) (buf @ [ch]) rest)"
      using other by (cases "ch = DQUOTE") (simp_all add: P1 D1)
    then have "cut_of Dbl prev buf (ch # rest) (split_loop False (ch \<noteq> DQUOTE) (Some ch) (buf @ [ch]) rest)"
      by (rule cut_of_push) simp
    then show ?thesis using other by (simp add: split_loop.simps(2))
  qed
  then show ?thesis using False dbl by (simp add: flag_quoting_def)
qed
qed

lemma cut_of_push_plain:
  "cut_of q (Some c) (buf @ [c]) rest segs \<Longrightarrow> quote_step Plain c = q \<Longrightarrow> no_operator Plain prev c rest \<Longrightarrow>
   cut_of Plain prev buf (c # rest) segs"
  by (auto intro: cut_of_push)

lemma split_loop_step_amp:
  assumes IH1: "\<And>p u. cut_of Plain p u rest (split_loop False False p u rest)"
    and IH2: "\<And>x r p u. rest = x # r \<Longrightarrow> cut_of Plain p u r (split_loop False False p u r)"
  shows "cut_of Plain prev buf (CHR ''&'' # rest) (split_loop False False prev buf (CHR ''&'' # rest))"
proof -
  have bare: "cut_of Plain prev buf (''&'' @ rest) (flush buf @ split_loop False False (Some (CHR ''&'')) [] rest)"
    if "\<not> amp_adjacent prev" "\<not> amp_adjacent (head_opt rest)"
    by (rule cut_of_sep) (use IH1 that in \<open>simp_all add: separators_def\<close>)
  have push: "cut_of Plain prev buf (CHR ''&'' # rest)
      (split_loop False False (Some (CHR ''&'')) (buf @ ''&'') rest)"
    if "amp_adjacent prev \<or> amp_adjacent (head_opt rest)" "head_opt rest \<noteq> Some (CHR ''&'')"
    by (rule cut_of_push_plain [OF IH1]) (use that in \<open>simp_all add: no_operator_def\<close>)
  show ?thesis
  proof (cases rest)
    case Nil
    show ?thesis
      by (cases "amp_adjacent prev")
         (use bare push Nil in \<open>simp_all add: split_loop.simps(2) head_opt_def amp_adjacent_def [of None]\<close>)
  next
    case (Cons x r)
    have two: "cut_of Plain prev buf (''&&'' @ r) (flush buf @ split_loop False False (Some (CHR ''&'')) [] r)"
      by (rule cut_of_sep) (use IH2 [OF Cons] in \<open>simp_all add: separators_def\<close>)
    note step = split_loop.simps(2) [of False False prev buf "CHR ''&''" "x # r"]
    show ?thesis
    proof (cases "x = CHR ''&''")
      case True
      then show ?thesis using two unfolding step Cons by simp
    next
      case False
      then show ?thesis using bare push unfolding step Cons by (auto simp: head_opt_def)
    qed
  qed
qed

lemma split_loop_step_plain:
  assumes IH1: "\<And>a b p u. \<not> (a \<and> b) \<Longrightarrow> cut_of (flag_quoting a b) p u rest (split_loop a b p u rest)"
    and IH2: "\<And>x r a b p u. rest = x # r \<Longrightarrow> \<not> (a \<and> b) \<Longrightarrow>
                cut_of (flag_quoting a b) p u r (split_loop a b p u r)"
  shows "cut_of Plain prev buf (ch # rest) (split_loop False False prev buf (ch # rest))"
proof -
  have P1: "\<And>p u. cut_of Plain p u rest (split_loop False False p u rest)"
    and S1: "\<And>p u. cut_of Sgl p u rest (split_loop True False p u rest)"
    and D1: "\<And>p u. cut_of Dbl p u rest (split_loop False True p u rest)"
    using IH1 [of False False] IH1 [of True False] IH1 [of False True] by (simp_all add: flag_quoting_def)
  have P2: "\<And>x r p u. rest = x # r \<Longrightarrow> cut_of Plain p u r (split_loop False False p u r)"
    using IH2 [of _ _ False False] by (simp add: flag_quoting_def)
  consider (esc) x r where "ch = BSLASH" "rest = x # r" | (last) "ch = BSLASH" "rest = []"
    | (sq) "ch = SQUOTE" | (dq) "ch = DQUOTE" | (sep) "ch = CHR '';'' \<or> ch = NL"
    | (amp) "ch = CHR ''&''" | (bar) "ch = CHR ''|''"
    | (other) "ch \<notin> set [SQUOTE, DQUOTE, BSLASH, CHR '';'', NL, CHR ''&'', CHR ''|'']"
    by (cases rest) auto
  then show ?thesis
  proof cases
    case esc
    have "cut_of Plain prev buf (BSLASH # x # r) (split_loop False False (Some x) (buf @ [BSLASH, x]) r)"
      by (rule cut_of_escape [OF P2 [OF esc(2)]]) (simp_all add: no_operator_def)
    then show ?thesis using esc by (simp add: split_loop.simps(2))
  next
    case last
    have "cut_of Plain prev buf [BSLASH] (flush (buf @ [BSLASH]))"
      by (intro cut_of_push cut_of_end) (simp add: no_operator_def)
    then show ?thesis using last by (simp add: split_loop.simps(2))
  next
    case sq
    have "cut_of Plain prev buf (SQUOTE # rest) (split_loop True False (Some SQUOTE) (buf @ [SQUOTE]) rest)"
      by (rule cut_of_push_plain [OF S1]) (simp_all add: no_operator_def)
    then show ?thesis using sq by (simp add: split_loop.simps(2))
  next
    case dq
    have "cut_of Plain prev buf (DQUOTE # rest) (split_loop False True (Some DQUOTE) (buf @ [DQUOTE]) rest)"
      by (rule cut_of_push_plain [OF D1]) (simp_all add: no_operator_def)
    then show ?thesis using dq by (simp add: split_loop.simps(2))
  next
    case sep
    have "cut_of Plain prev buf ([ch] @ rest) (flush buf @ split_loop False False (Some ch) [] rest)"
      by (rule cut_of_sep) (use P1 sep in \<open>auto simp: separators_def\<close>)
    then show ?thesis using sep by (auto simp: split_loop.simps(2))
  next
    case amp
    then show ?thesis using split_loop_step_amp [OF P1 P2] by simp
  next
    case bar
    have one: "cut_of Plain prev buf (''|'' @ rest) (flush buf @ split_loop False False (Some (CHR ''|'')) [] rest)"
      by (rule cut_of_sep) (use P1 in \<open>simp_all add: separators_def\<close>)
    have two: "cut_of Plain prev buf (''||'' @ r) (flush buf @ split_loop False False (Some (CHR ''|'')) [] r)"
      if "rest = x # r" for x r
      by (rule cut_of_sep) (use P2 [OF that] in \<open>simp_all add: separators_def\<close>)
    show ?thesis using one two bar by (cases rest) (auto simp: split_loop.simps(2))
  next
    case other
    have "cut_of Plain prev buf (ch # rest) (split_loop False False (Some ch) (buf @ [ch]) rest)"
      by (rule cut_of_push_plain [OF P1]) (use other in \<open>auto simp: no_operator_def\<close>)
    then show ?thesis using other by (simp add: split_loop.simps(2))
  qed
qed

lemma split_loop_cut:
  "\<not> (in_single \<and> in_double) \<Longrightarrow>
   cut_of (flag_quoting in_single in_double) prev buf rest (split_loop in_single in_double prev buf rest)"
proof (induction "length rest" arbitrary: in_single in_double prev buf rest rule: less_induct)
  case less
  show ?case
  proof (cases rest)
    case Nil
    then show ?thesis by (simp add: cut_of_end)
  next
    case (Cons ch r)
    have IH1: "\<And>a b p u. \<not> (a \<and> b) \<Longrightarrow> cut_of (flag_quoting a b) p u r (split_loop a b p u r)"
      by (rule less.hyps) (simp_all add: Cons)
    have IH2: "\<And>x t a b p u. r = x # t \<Longrightarrow> \<not> (a \<and> b) \<Longrightarrow>
        cut_of (flag_quoting a b) p u t (split_loop a b p u t)"
      by (rule less.hyps) (simp_all add: Cons)
    show ?thesis
    proof (cases "in_single \<or> in_double")
      case True
      with less.prems have "in_single \<noteq> in_double" by blast
      from split_loop_step_quoted [OF IH1 IH2 this] show ?thesis by (simp add: Cons)
    next
      case False
      with split_loop_step_plain [OF IH1 IH2] show ?thesis by (simp add: Cons flag_quoting_def)
    qed
  qed
qed

text \<open>Every segment is trimmed and not empty.\<close>

lemma trimmed_piece: "seg \<in> set (trimmed_pieces ps final) \<Longrightarrow> seg \<noteq> [] \<and> py_strip seg = seg"
  by (auto simp: trimmed_pieces_def split: if_splits)

lemma split_segments_trimmed:
  "seg \<in> set (split_segments command) \<Longrightarrow> seg \<noteq> [] \<and> py_strip seg = seg"
  using split_loop_cut [of False False None "[]" command]
  by (auto simp: split_segments_def cut_of_def flag_quoting_def segments_from_trimmed dest: trimmed_piece)

subsection \<open>Command substitution on unquoted text\<close>

definition quote_free :: "string \<Rightarrow> bool" where
  "quote_free s \<longleftrightarrow> list_all (\<lambda>c. c \<noteq> SQUOTE \<and> c \<noteq> DQUOTE \<and> c \<noteq> BSLASH) s"

definition expansion_marks :: "string list" where
  "expansion_marks = [[BTICK], ''$('', ''<('', ''>('']"

declare subst_loop.simps(2) [simp del]

lemma subst_loop_plain:
  "quote_free s \<Longrightarrow> subst_loop False False s \<longleftrightarrow> (\<exists>m \<in> set expansion_marks. contains s m)"
proof (induction s)
  case Nil
  then show ?case by (simp add: expansion_marks_def)
next
  case (Cons c s)
  have "head_opt s \<noteq> Some SQUOTE" using Cons.prems by (cases s) (auto simp: quote_free_def head_opt_def)
  moreover have "startswith (c # s) [x, CHR ''(''] \<longleftrightarrow> c = x \<and> head_opt s = Some (CHR ''('')" for x
    by (cases s) (auto simp: startswith_def head_opt_def)
  moreover have "startswith (c # s) [BTICK] \<longleftrightarrow> c = BTICK" by (auto simp: startswith_def)
  ultimately show ?case using Cons
    by (auto simp: subst_loop.simps(2) [of False False c s] quote_free_def expansion_marks_def)
qed

section \<open>Properties\<close>

text \<open>C3: A command is split exactly at its unquoted operators: it is its pieces with one of the
  separators \<open>;\<close>, newline, \<open>&\<close>, \<open>&&\<close>, \<open>|\<close>, \<open>||\<close> after each but the last, every separator
  stands outside the quotes, no piece has an unquoted operator left in it, and the segments
  are the trimmed non-empty pieces in order. A single \<open>&\<close> is an operator unless a \<open><\<close>, \<open>>\<close> or
  \<open>&\<close> stands directly beside it, whether that neighbour is itself quoted or not.\<close>

theorem split_segments_isolates_commands:
  "\<exists>ps final. command = rejoin ps final \<and> shell_cut Plain None ps final \<and>
     split_segments command = trimmed_pieces ps final"
  using split_loop_cut [of False False None "[]" command]
  by (auto simp: split_segments_def cut_of_def flag_quoting_def segments_from_trimmed)

text \<open>The exception matters: an escaped \<open>&\<close> hides the background operator after it, so the shell
  runs a second command the gate does not see.\<close>

lemma escaped_amp_hides_a_command:
  "split_segments ([CHR ''a'', BSLASH] @ ''&& rm x'') = [[CHR ''a'', BSLASH] @ ''&& rm x'']"
  by code_simp

text \<open>On a segment without quotes or backslashes the substitution test is exact: it answers
  true precisely when a backtick, \<open>$(\<close>, \<open><(\<close> or \<open>>(\<close> occurs in it.\<close>

theorem command_substitution_exact_on_plain_text:
  assumes "quote_free segment"
  shows "has_command_substitution segment \<longleftrightarrow> (\<exists>m \<in> set expansion_marks. contains segment m)"
  using subst_loop_plain [OF assms] by (simp add: has_command_substitution_def)

theorem command_substitution_exact_on_plain_text_witness:
  "quote_free ''echo $(id)'' \<and> has_command_substitution ''echo $(id)''"
proof -
  have q: "quote_free ''echo $(id)''" by (simp add: quote_free_def)
  have "\<exists>m \<in> set expansion_marks. contains ''echo $(id)'' m"
    by (simp add: expansion_marks_def startswith_def)
  with q command_substitution_exact_on_plain_text [OF q] show ?thesis by blast
qed

end
