(* ===== verification/Shell_Lex.thy ===== *)
theory Shell_Lex
  imports Py_Prelude
begin

text \<open>
  The lexer the command classifier calls: \<open>shlex\<close> of the standard library in POSIX mode
  with \<open>whitespace_split\<close>, as \<open>lex\<close> of \<open>guardrails/command_safety.py\<close> configures
  it (operator characters form tokens of their own, \<open>#\<close> starts a comment) and as
  \<open>shlex.split\<close> configures it (neither). The state is the one \<open>read_token\<close> keeps:
  between tokens, in a word, in a run of operator characters, in quotes, after a backslash.
  A character pushed back is read again from the state between tokens. A missing closing
  quote or a trailing backslash is the \<open>ValueError\<close> of the source, here \<open>None\<close>.
\<close>

datatype lex_state =
    LSpace
  | LWord
  | LPunct
  | LQuote char
  | LEscape
  | LQuoteEscape char

record lex_config =
  lex_punctuation :: string
  lex_commenters :: string

definition operator_config :: lex_config where
  "operator_config = \<lparr>lex_punctuation = ''();<>|&'', lex_commenters = ''#''\<rparr>"

definition split_config :: lex_config where
  "split_config = \<lparr>lex_punctuation = [], lex_commenters = []\<rparr>"

definition lex_space :: "char \<Rightarrow> bool" where
  "lex_space c \<longleftrightarrow> c \<in> set [CHR '' '', CHR 0x09, CHR 0x0D, NL]"

definition lex_quote :: "char \<Rightarrow> bool" where
  "lex_quote c \<longleftrightarrow> c \<in> set [SQUOTE, DQUOTE]"

text \<open>\<open>instream.readline()\<close>.\<close>

definition drop_line :: "string \<Rightarrow> string" where
  "drop_line s = tl (dropWhile (\<lambda>c. c \<noteq> NL) s)"

lemma length_drop_line: "length (drop_line s) \<le> length s"
  unfolding drop_line_def
  by (metis diff_le_self le_trans length_dropWhile_le length_tl)

definition emit :: "string \<Rightarrow> bool \<Rightarrow> string list" where
  "emit tok quoted = (if tok \<noteq> [] \<or> quoted then [tok] else [])"

function lex_loop :: "lex_config \<Rightarrow> lex_state \<Rightarrow> bool \<Rightarrow> string \<Rightarrow> string \<Rightarrow> string list option" where
  "lex_loop cfg st quoted tok [] =
     (case st of
        LSpace \<Rightarrow> Some []
      | LWord \<Rightarrow> Some (emit tok quoted)
      | LPunct \<Rightarrow> Some (emit tok quoted)
      | _ \<Rightarrow> None)"
| "lex_loop cfg st quoted tok (c # s) =
     (case st of
        LSpace \<Rightarrow>
          if lex_space c then lex_loop cfg LSpace quoted tok s
          else if c \<in> set (lex_commenters cfg) then lex_loop cfg LSpace quoted tok (drop_line s)
          else if c = BSLASH then lex_loop cfg LEscape quoted tok s
          else if c \<in> set (lex_punctuation cfg) then lex_loop cfg LPunct quoted [c] s
          else if lex_quote c then lex_loop cfg (LQuote c) quoted tok s
          else lex_loop cfg LWord quoted [c] s
      | LQuote q \<Rightarrow>
          if c = q then lex_loop cfg LWord True tok s
          else if c = BSLASH \<and> q = DQUOTE then lex_loop cfg (LQuoteEscape q) True tok s
          else lex_loop cfg (LQuote q) True (tok @ [c]) s
      | LEscape \<Rightarrow> lex_loop cfg LWord quoted (tok @ [c]) s
      | LQuoteEscape q \<Rightarrow>
          lex_loop cfg (LQuote q) quoted (tok @ (if c \<noteq> BSLASH \<and> c \<noteq> q then [BSLASH, c] else [c])) s
      | LWord \<Rightarrow>
          if lex_space c then map_option (\<lambda>ts. emit tok quoted @ ts) (lex_loop cfg LSpace False [] s)
          else if c \<in> set (lex_commenters cfg)
            then map_option (\<lambda>ts. emit tok quoted @ ts) (lex_loop cfg LSpace False [] (drop_line s))
          else if lex_quote c then lex_loop cfg (LQuote c) quoted tok s
          else if c = BSLASH then lex_loop cfg LEscape quoted tok s
          else if c \<notin> set (lex_punctuation cfg) then lex_loop cfg LWord quoted (tok @ [c]) s
          else map_option (\<lambda>ts. emit tok quoted @ ts) (lex_loop cfg LSpace False [] (c # s))
      | LPunct \<Rightarrow>
          if lex_space c then map_option (\<lambda>ts. emit tok quoted @ ts) (lex_loop cfg LSpace False [] s)
          else if c \<in> set (lex_commenters cfg)
            then map_option (\<lambda>ts. emit tok quoted @ ts) (lex_loop cfg LSpace False [] (drop_line s))
          else if c \<in> set (lex_punctuation cfg) then lex_loop cfg LPunct quoted (tok @ [c]) s
          else map_option (\<lambda>ts. emit tok quoted @ ts) (lex_loop cfg LSpace False [] (c # s)))"
  by pat_completeness auto
termination
  by (relation "measure (\<lambda>(cfg, st, quoted, tok, s). 2 * length s + (if st = LSpace then 0 else 1))")
     (use length_drop_line in \<open>auto simp: le_imp_less_Suc le_SucI\<close>)

declare lex_loop.simps(2) [simp del]

definition lex :: "string \<Rightarrow> string list option" where
  "lex command = lex_loop operator_config LSpace False [] command"

definition shlex_split :: "string \<Rightarrow> string list option" where
  "shlex_split s = lex_loop split_config LSpace False [] s"

section \<open>The tokens are made of the command's characters\<close>

definition total_length :: "string list \<Rightarrow> nat" where
  "total_length ts = sum_list (map length ts)"

lemma total_length_simps [simp]:
  "total_length [] = 0" "total_length (t # ts) = length t + total_length ts"
  "total_length (ts @ us) = total_length ts + total_length us"
  by (simp_all add: total_length_def)

lemma total_length_emit: "total_length (emit tok quoted) = length tok"
  by (simp add: emit_def)

lemma total_length_member: "t \<in> set ts \<Longrightarrow> length t \<le> total_length ts"
  by (induction ts) auto

lemma total_length_two: "i < j \<Longrightarrow> j < length ts \<Longrightarrow> length (ts ! i) + length (ts ! j) \<le> total_length ts"
proof (induction ts arbitrary: i j)
  case (Cons t ts)
  show ?case
  proof (cases i)
    case 0
    with Cons.prems obtain j' where "j = Suc j'" "j' < length ts" by (cases j) auto
    with 0 show ?thesis using total_length_member [of "ts ! j'" ts] by simp
  next
    case (Suc i')
    with Cons.prems obtain j' where "j = Suc j'" by (cases j) auto
    with Suc Cons show ?thesis by fastforce
  qed
qed simp

definition pending :: "lex_state \<Rightarrow> nat" where
  "pending st = (case st of LQuoteEscape q \<Rightarrow> 1 | _ \<Rightarrow> 0)"

lemma lex_loop_length:
  "lex_loop cfg st quoted tok s = Some ts \<Longrightarrow>
   (st = LSpace \<longrightarrow> tok = []) \<Longrightarrow> total_length ts \<le> length tok + pending st + length s"
proof (induction cfg st quoted tok s arbitrary: ts rule: lex_loop.induct)
  case (1 cfg st quoted tok)
  then show ?case by (cases st) (auto simp: total_length_emit)
next
  case (2 cfg st quoted tok c s)
  note drop = length_drop_line [of s]
  note eq = "2.prems"(1) [unfolded lex_loop.simps(2) [of cfg st quoted tok c s]]
  show ?case
  proof (cases st)
    case LSpace
    with eq "2.prems"(2) "2.IH"(1-6) [OF LSpace] drop show ?thesis
      by (force simp: pending_def split: if_splits)
  next
    case LWord
    with eq "2.IH"(7-12) [OF LWord] drop show ?thesis
      by (force simp: pending_def total_length_emit split: if_splits)
  next
    case LPunct
    with eq "2.IH"(13-16) [OF LPunct] drop show ?thesis
      by (force simp: pending_def total_length_emit split: if_splits)
  next
    case (LQuote q)
    with eq "2.IH"(17-19) [OF LQuote] show ?thesis by (force simp: pending_def split: if_splits)
  next
    case LEscape
    with eq "2.IH"(20) [OF LEscape] show ?thesis by (force simp: pending_def)
  next
    case (LQuoteEscape q)
    with eq "2.IH"(21) [OF LQuoteEscape] show ?thesis by (force simp: pending_def split: if_splits)
  qed
qed

lemma lex_length: "lex command = Some ts \<Longrightarrow> total_length ts \<le> length command"
  using lex_loop_length [of operator_config LSpace False "[]" command ts]
  by (simp add: lex_def pending_def)

end
