(* ===== verification/Command_Safety.thy ===== *)
theory Command_Safety
  imports Command_Classify Shell_Lex
begin

text \<open>
  The argv-structural command classifier (\<open>guardrails/command_safety.py\<close>): a command is
  lexed into segments of tokens, launchers and privilege wrappers are peeled off each segment,
  and the strongest verdict over the segments is returned: deny (catastrophic), ask (risky)
  or no opinion. The index loops over argv are recursions over its rest.
\<close>

section \<open>Tables\<close>

definition CONTROL_OPS :: "string list" where
  "CONTROL_OPS = [''|'', ''||'', ''&&'', '';'', ''&'']"

definition PIPE_OPS :: "string list" where
  "PIPE_OPS = [''|'', ''||'']"

definition LAUNCHERS :: "string list" where
  "LAUNCHERS = [''command'', ''nice'', ''nohup'', ''stdbuf'', ''setsid'', ''ionice'', ''xargs'', ''timeout'']"

definition LAUNCHER_VALUE_FLAGS :: "(string \<times> string list) list" where
  "LAUNCHER_VALUE_FLAGS =
     [(''timeout'', [''-s'', ''--signal'', ''-k'', ''--kill-after'']),
      (''nice'', [''-n'', ''--adjustment'']),
      (''ionice'', [''-c'', ''-n'', ''-p'', ''-P'', ''-u'', ''--class'', ''--classdata'', ''--pid'']),
      (''stdbuf'', [''-i'', ''-o'', ''-e'', ''--input'', ''--output'', ''--error'']),
      (''xargs'', [''-I'', ''-i'', ''-d'', ''--delimiter'', ''-E'', ''-e'', ''--eof'', ''-n'', ''--max-args'',
        ''-L'', ''-l'', ''--max-lines'', ''-P'', ''--max-procs'', ''-s'', ''--max-chars'', ''--replace''])]"

definition DANGEROUS_RM_TARGETS :: "string list" where
  "DANGEROUS_RM_TARGETS =
     [''/'', ''~'', ''$HOME'', ''/etc'', ''/usr'', ''/bin'', ''/sbin'', ''/lib'', ''/lib64'', ''/boot'', ''/sys'',
      ''/proc'', ''/dev'', ''/var'', ''/root'', ''/home'', ''/Users'']"

definition HOME_CONTAINERS :: "string list" where
  "HOME_CONTAINERS = [''/home'', ''/Users'']"

definition DANGEROUS_RM_PREFIXES :: "string list" where
  "DANGEROUS_RM_PREFIXES =
     [''/etc'', ''/usr'', ''/bin'', ''/sbin'', ''/lib'', ''/lib64'', ''/boot'', ''/sys'', ''/proc'', ''/dev'',
      ''/var'', ''/root'']"

definition FIND_DESTRUCTIVE :: "string list" where
  "FIND_DESTRUCTIVE =
     [''-delete'', ''-exec'', ''-execdir'', ''-ok'', ''-okdir'', ''-fls'', ''-fprint'', ''-fprint0'']"

definition PIPE_INTERPRETERS :: "string list" where
  "PIPE_INTERPRETERS =
     [''sh'', ''bash'', ''zsh'', ''python'', ''python3'', ''perl'', ''ruby'', ''node'', ''php'']"

definition CLOUD_DELETE :: "(string \<times> string list) list" where
  "CLOUD_DELETE =
     [(''bq'', [''rm'']), (''gcloud'', [''delete'', ''rm'']), (''gsutil'', [''rm'']), (''kubectl'', [''delete'']),
      (''terraform'', [''destroy'']), (''docker'', [''rm'', ''rmi'', ''prune'']), (''gws'', [''delete''])]"

definition GIT_VALUE_FLAGS :: "string list" where
  "GIT_VALUE_FLAGS = [''-C'', ''-c'', ''--git-dir'', ''--work-tree'', ''--namespace'', ''--super-prefix'']"

definition GIT_GATED_SUBCOMMANDS :: "string list" where
  "GIT_GATED_SUBCOMMANDS = [''push'', ''reset'', ''clean'', ''filter-branch'', ''filter-repo'']"

section \<open>Verdicts\<close>

datatype tier = TDeny | TAsk

type_synonym verdict = "tier \<times> string"

definition tier_str :: "tier \<Rightarrow> string" where
  "tier_str t = (case t of TDeny \<Rightarrow> ''deny'' | TAsk \<Rightarrow> ''ask'')"

definition is_flag :: "string \<Rightarrow> bool" where
  "is_flag t \<longleftrightarrow> startswith t ''-''"

definition short_flags :: "string list \<Rightarrow> string list" where
  "short_flags args = map tl (filter (\<lambda>t. is_flag t \<and> \<not> startswith t ''--'') args)"

section \<open>git\<close>

fun git_positionals_from :: "string list \<Rightarrow> string list" where
  "git_positionals_from [] = []"
| "git_positionals_from (tok # rest) =
     (if tok \<in> set GIT_VALUE_FLAGS then (case rest of [] \<Rightarrow> [] | _ # rest' \<Rightarrow> git_positionals_from rest')
      else if is_flag tok then git_positionals_from rest
      else tok # git_positionals_from rest)"

definition git_positionals :: "string list \<Rightarrow> string list" where
  "git_positionals argv = git_positionals_from (tl argv)"

definition git_push_verdict :: "string list \<Rightarrow> string list \<Rightarrow> verdict option" where
  "git_push_verdict flags positionals =
     (if list_ex (\<lambda>f. f \<in> set [''-f'', ''--force''] \<or> startswith f ''--force-with-lease'') flags
      then Some (TAsk, ''git force-push rewrites remote history'')
      else if list_ex (\<lambda>f. f \<in> set [''--delete'', ''-d'', ''--mirror'']) flags
      then Some (TAsk, ''git push deletes or mirrors a remote ref'')
      else if list_ex (\<lambda>p. startswith p ''+'') positionals
      then Some (TAsk, ''git force-push via +refspec rewrites remote history'')
      else None)"

definition git_verdict :: "string list \<Rightarrow> verdict option" where
  "git_verdict argv =
     (let positionals = git_positionals argv in
      case List.find (\<lambda>t. t \<in> set GIT_GATED_SUBCOMMANDS) positionals of
        None \<Rightarrow> None
      | Some sub \<Rightarrow>
          let flags = filter is_flag (tl argv) in
          if sub = ''push'' then git_push_verdict flags positionals
          else if sub = ''reset'' \<and> ''--hard'' \<in> set flags
            then Some (TAsk, ''git reset --hard discards changes'')
          else if sub = ''clean'' then
            (let short = map tl (filter (\<lambda>f. \<not> startswith f ''--'') flags) in
             if ''--force'' \<in> set flags \<or> list_ex (\<lambda>s. contains s ''f'') short
             then Some (TAsk, ''git clean deletes untracked files'') else None)
          else if sub \<in> set [''filter-branch'', ''filter-repo''] then Some (TAsk, ''git history rewrite'')
          else None)"

section \<open>Segments\<close>

fun split_tokens_loop :: "string list \<Rightarrow> bool \<Rightarrow> string list \<Rightarrow> (string list \<times> bool) list" where
  "split_tokens_loop cur is_target [] = (if cur \<noteq> [] then [(cur, is_target)] else [])"
| "split_tokens_loop cur is_target (tok # toks) =
     (if tok \<in> set CONTROL_OPS
      then (if cur \<noteq> [] then [(cur, is_target)] else []) @ split_tokens_loop [] (tok \<in> set PIPE_OPS) toks
      else split_tokens_loop (cur @ [tok]) is_target toks)"

definition split_tokens :: "string list \<Rightarrow> (string list \<times> bool) list" where
  "split_tokens tokens = split_tokens_loop [] False tokens"

text \<open>A \<open>-c\<close> shell flag, possibly clustered; the pattern's \<open>$\<close> also matches before a final newline.\<close>

definition shell_c_flag :: "string \<Rightarrow> bool" where
  "shell_c_flag t =
     (let t = (if t \<noteq> [] \<and> last t = NL then butlast t else t) in
      case t of [] \<Rightarrow> False
      | c # w \<Rightarrow> c = CHR ''-'' \<and> list_all ascii_lower_alpha w \<and> CHR ''c'' \<in> set w)"

fun find_index_from :: "nat \<Rightarrow> (string \<Rightarrow> bool) \<Rightarrow> string list \<Rightarrow> nat option" where
  "find_index_from i P [] = None"
| "find_index_from i P (t # ts) = (if P t then Some i else find_index_from (Suc i) P ts)"

text \<open>The command string behind a shell's \<open>-c\<close> flag.\<close>

definition shell_c_body :: "string list \<Rightarrow> string option" where
  "shell_c_body toks =
     (if 3 \<le> length toks \<and> py_basename (hd toks) \<in> set [''bash'', ''sh'', ''zsh'']
      then (case find_index_from 0 shell_c_flag toks of
              None \<Rightarrow> None
            | Some ci \<Rightarrow> if ci + 1 < length toks then Some (toks ! (ci + 1)) else None)
      else None)"

definition fallback_segments :: "string \<Rightarrow> (string list \<times> bool) list" where
  "fallback_segments inner =
     (let segs = split_segments inner
      in map (\<lambda>argv. (argv, False)) (List.map_filter shlex_split (if segs = [] then [inner] else segs)))"

lemma length_dropWhile_rev_le: "length (rev (dropWhile P (rev s))) \<le> length s"
  using length_dropWhile_le [of P "rev s"] by simp

lemma length_py_strip_le: "length (py_strip s) \<le> length s"
  using length_rstrip_le [of py_isspace "lstrip_chars py_isspace s"] length_dropWhile_le [of py_isspace s]
  by (simp add: py_strip_def lstrip_chars_def)

lemma wrapper_body_after_length: "wrapper_body_after name s = Some b \<Longrightarrow> length b \<le> length s"
proof -
  assume a: "wrapper_body_after name s = Some b"
  then obtain r1 r2 q body where r1: "skip_spaces1 (drop (length name) s) = Some r1"
    and r2: "skip_spaces1 (drop 2 r1) = Some r2" and b: "r2 = q # body" "b = butlast body"
    by (auto simp: wrapper_body_after_def split: if_splits Option.bind_splits list.splits)
  have le: "skip_spaces1 u = Some v \<Longrightarrow> length v \<le> length u" for u v
    by (auto simp: skip_spaces1_def le_SucI length_dropWhile_le split: list.splits if_splits)
  from le [OF r1] le [OF r2] b show ?thesis by simp
qed

lemma length_strip_wrapper_le: "length (strip_wrapper c) \<le> length c"
proof -
  have w: "wrapper_body s = Some b \<Longrightarrow> length b \<le> length s" for s b
    by (auto simp: wrapper_body_def split: option.splits dest: wrapper_body_after_length)
  have "length (py_strip b) \<le> length c" if "wrapper_body (py_strip c) = Some b" for b
    using w [OF that] length_py_strip_le [of b] length_py_strip_le [of c] by linarith
  then show ?thesis
    using length_py_strip_le [of c] by (simp add: strip_wrapper_def split: option.splits)
qed

lemma find_index_from_bounds:
  "find_index_from i P ts = Some j \<Longrightarrow> i \<le> j \<and> j < i + length ts \<and> P (ts ! (j - i))"
proof (induction ts arbitrary: i)
  case (Cons t ts)
  then show ?case by (cases "P t") (fastforce simp: Suc_diff_le Suc_le_eq less_iff_Suc_add)+
qed simp

text \<open>The recursion into a shell's \<open>-c\<close> body ends: the body is one token of a command that has
  at least the shell's name besides.\<close>

lemma shell_c_body_shorter:
  assumes "lex command = Some toks" and "shell_c_body toks = Some body"
  shows "length body < length command"
proof -
  from assms(2) obtain ci where n: "3 \<le> length toks"
    and base: "py_basename (hd toks) \<in> set [''bash'', ''sh'', ''zsh'']"
    and ci: "ci + 1 < length toks" "body = toks ! (ci + 1)"
    by (auto simp: shell_c_body_def split: if_splits option.splits)
  have "hd toks \<noteq> []" using base by (auto simp: py_basename_def)
  moreover have "hd toks = toks ! 0" using n by (cases toks) auto
  ultimately have "0 < length (toks ! 0)" by simp
  moreover have "length (toks ! 0) + length (toks ! (ci + 1)) \<le> total_length toks"
    by (rule total_length_two) (use ci in auto)
  ultimately show ?thesis using lex_length [OF assms(1)] unfolding ci(2) by linarith
qed

function segments_with_pipe :: "string \<Rightarrow> (string list \<times> bool) list" where
  "segments_with_pipe command =
     (let inner = strip_wrapper command in
      case lex inner of
        None \<Rightarrow> fallback_segments inner
      | Some toks \<Rightarrow>
          (case shell_c_body toks of
             Some body \<Rightarrow> segments_with_pipe body
           | None \<Rightarrow> split_tokens toks))"
  by pat_completeness auto
termination
proof (relation "measure length", goal_cases)
  case (2 command inner toks body)
  then show ?case
    using shell_c_body_shorter [of inner toks body] length_strip_wrapper_le [of command] by simp
qed simp

declare segments_with_pipe.simps [simp del]

definition segments :: "string \<Rightarrow> string list list" where
  "segments command = map fst (segments_with_pipe command)"

section \<open>Peeling launchers\<close>

definition is_assignment :: "string \<Rightarrow> bool" where
  "is_assignment tok \<longleftrightarrow> contains tok ''='' \<and> \<not> is_flag tok
     \<and> CHR ''/'' \<notin> set (takeWhile (\<lambda>c. c \<noteq> CHR ''='') tok)"

fun skip_launcher_args :: "string list \<Rightarrow> string list \<Rightarrow> string list" where
  "skip_launcher_args value_flags [] = []"
| "skip_launcher_args value_flags (cur # rest) =
     (if is_flag cur then
        (if contains cur ''='' then skip_launcher_args value_flags rest
         else if cur \<in> set value_flags
           then (case rest of [] \<Rightarrow> [] | _ # rest' \<Rightarrow> skip_launcher_args value_flags rest')
         else skip_launcher_args value_flags rest)
      else if py_isdigit (dropWhile (\<lambda>c. c \<in> set ''+-'') cur) then skip_launcher_args value_flags rest
      else cur # rest)"

lemma length_skip_launcher_args: "length (skip_launcher_args vf ts) \<le> length ts"
  by (induction vf ts rule: skip_launcher_args.induct) (auto simp: le_SucI split: list.splits)

function effective_from :: "string list \<Rightarrow> bool \<Rightarrow> string list \<times> bool" where
  "effective_from [] escalated = ([], escalated)"
| "effective_from (tok # rest) escalated =
     (if is_assignment tok then effective_from rest escalated
      else let base = py_basename tok in
        if base \<in> set [''sudo'', ''doas''] then effective_from (dropWhile is_flag rest) True
        else if base = ''env'' then effective_from rest escalated
        else if base \<in> set LAUNCHERS
          then effective_from
                 (skip_launcher_args (case map_of LAUNCHER_VALUE_FLAGS base of Some fs \<Rightarrow> fs | None \<Rightarrow> []) rest)
                 escalated
        else (tok # rest, escalated))"
  by pat_completeness auto
termination
  by (relation "measure (\<lambda>(ts, e). length ts)")
     (auto simp: le_imp_less_Suc length_dropWhile_le length_skip_launcher_args)

definition effective :: "string list \<Rightarrow> string list \<times> bool" where
  "effective argv = effective_from argv False"

section \<open>Verdicts per segment\<close>

definition is_user_home_root :: "string \<Rightarrow> bool" where
  "is_user_home_root t =
     (case py_split_on CHR ''/'' t of
        [a, b, c] \<Rightarrow> (''/'' @ b) \<in> set HOME_CONTAINERS \<and> c \<noteq> []
      | _ \<Rightarrow> False)"

definition dangerous_target :: "string \<Rightarrow> bool" where
  "dangerous_target t =
     (let trimmed = rstrip_chars (\<lambda>c. c \<in> set ''/*'') t in
      if t = ''/*'' \<or> t \<in> set DANGEROUS_RM_TARGETS \<or> trimmed \<in> set DANGEROUS_RM_TARGETS
         \<or> is_user_home_root trimmed
      then True
      else list_ex (\<lambda>p. t = p \<or> startswith t (p @ ''/'')) DANGEROUS_RM_PREFIXES)"

definition rm_verdict :: "string list \<Rightarrow> verdict option" where
  "rm_verdict argv =
     (let short = short_flags (tl argv);
          has_r = (''--recursive'' \<in> set argv \<or> list_ex (\<lambda>f. contains (py_lower f) ''r'') short);
          has_f = (''--force'' \<in> set argv \<or> list_ex (\<lambda>f. contains (py_lower f) ''f'') short)
      in if \<not> (has_r \<and> has_f) then None
         else let targets = filter (\<lambda>t. \<not> is_flag t) (tl argv)
              in if list_ex dangerous_target targets
                 then Some (TDeny, ''recursive force-delete of a system/home root'')
                 else if list_ex (\<lambda>t. t \<in> set [''.'', ''./'', ''..'', ''../'', ''*'']) targets
                 then Some (TAsk, ''recursive force-delete of the working directory or a glob'')
                 else None)"

definition chmod_verdict :: "string \<Rightarrow> string list \<Rightarrow> verdict option" where
  "chmod_verdict binary eff =
     (let recursive = (''--recursive'' \<in> set (tl eff)
                       \<or> list_ex (\<lambda>f. contains (py_lower f) ''r'') (short_flags (tl eff)));
          targets = filter (\<lambda>t. \<not> is_flag t) (tl eff)
      in if recursive \<and> list_ex dangerous_target targets
         then Some (TAsk, ''recursive '' @ binary @ '' on a system/home root'') else None)"

definition mv_verdict :: "string list \<Rightarrow> verdict option" where
  "mv_verdict eff =
     (let targets = filter (\<lambda>t. \<not> is_flag t) (tl eff)
      in if list_ex (\<lambda>t. t = ''/dev/null'' \<or> startswith t ''/dev/null/'') targets
         then Some (TAsk, ''mv into /dev/null destroys data'') else None)"

text \<open>The first applicable verdict of a list of checks, in the order of the source's returns.\<close>

fun first_verdict :: "verdict option list \<Rightarrow> verdict option" where
  "first_verdict [] = None"
| "first_verdict (v # vs) = (case v of Some w \<Rightarrow> Some w | None \<Rightarrow> first_verdict vs)"

definition segment_verdict :: "string list \<Rightarrow> bool \<Rightarrow> verdict option" where
  "segment_verdict argv is_pipe_target =
     (if argv = [] then None
      else let (eff, escalated) = effective argv in
        if eff = [] then None
        else let binary = py_basename (hd eff) in
          first_verdict
            [if is_pipe_target \<and> binary \<in> set PIPE_INTERPRETERS
               then Some (TAsk, ''piping into an interpreter'') else None,
             if binary = ''rm'' then rm_verdict eff else None,
             if binary = ''find'' \<and> list_ex (\<lambda>t. t \<in> set FIND_DESTRUCTIVE) (tl eff)
               then Some (TAsk, ''find with a side-effecting action'') else None,
             if binary = ''git'' then git_verdict eff else None,
             if binary \<in> set [''chmod'', ''chown''] then chmod_verdict binary eff else None,
             if binary = ''mv'' then mv_verdict eff else None,
             (case map_of CLOUD_DELETE binary of
                Some verbs \<Rightarrow>
                  if list_ex (\<lambda>t. t \<in> set verbs) (filter (\<lambda>t. \<not> is_flag t) (tl eff))
                  then Some (TAsk, binary @ '' destructive delete'') else None
              | None \<Rightarrow> None),
             if binary \<in> set [''sudo'', ''su'']
               then Some (TAsk, ''privilege escalation via '' @ binary) else None,
             if escalated then Some (TAsk, ''privilege escalation'') else None])"

fun strongest_verdict :: "verdict option \<Rightarrow> (string list \<times> bool) list \<Rightarrow> verdict option" where
  "strongest_verdict acc [] = acc"
| "strongest_verdict acc ((argv, is_pipe_target) # segs) =
     (case segment_verdict argv is_pipe_target of
        None \<Rightarrow> strongest_verdict acc segs
      | Some v \<Rightarrow> if fst v = TDeny then Some v else strongest_verdict (Some v) segs)"

definition classify :: "string \<Rightarrow> verdict option" where
  "classify command =
     (if lex (strip_wrapper command) = None \<and> segments command = []
      then Some (TAsk, ''command could not be parsed'')
      else let segs = segments_with_pipe command in
        if segs = [] then Some (TAsk, ''command could not be parsed'')
        else strongest_verdict None segs)"

section \<open>Lemmas\<close>

subsection \<open>The strongest verdict\<close>

definition denies :: "string list \<times> bool \<Rightarrow> bool" where
  "denies seg \<longleftrightarrow> (\<exists>why. segment_verdict (fst seg) (snd seg) = Some (TDeny, why))"

lemma strongest_verdict_deny_iff:
  "(acc = None \<or> fst (the acc) = TAsk) \<Longrightarrow>
   (\<exists>why. strongest_verdict acc segs = Some (TDeny, why)) \<longleftrightarrow> (\<exists>seg \<in> set segs. denies seg)"
proof (induction acc segs rule: strongest_verdict.induct)
  case (1 acc)
  then show ?case by auto
next
  case (2 acc argv pt segs)
  show ?case
  proof (cases "segment_verdict argv pt")
    case None
    with 2 show ?thesis by (simp add: denies_def)
  next
    case (Some v)
    obtain t why where v: "v = (t, why)" by (cases v)
    show ?thesis
    proof (cases t)
      case TDeny
      with Some v show ?thesis by (simp add: denies_def)
    next
      case TAsk
      with 2 Some v show ?thesis by (simp add: denies_def)
    qed
  qed
qed

lemma strongest_verdict_None_iff:
  "strongest_verdict acc segs = None \<longleftrightarrow>
     acc = None \<and> (\<forall>seg \<in> set segs. segment_verdict (fst seg) (snd seg) = None)"
proof (induction acc segs rule: strongest_verdict.induct)
  case (2 acc argv pt segs)
  then show ?case by (cases "segment_verdict argv pt") auto
qed simp

lemma strongest_verdict_start: "strongest_verdict acc segs \<noteq> None \<Longrightarrow> acc = None \<Longrightarrow> segs \<noteq> []"
  by (cases segs) auto

lemma segments_Nil_iff: "segments c = [] \<longleftrightarrow> segments_with_pipe c = []"
  by (simp add: segments_def)

subsection \<open>Wrappers are transparent\<close>





















section \<open>Properties\<close>

text \<open>The catastrophic verdict dominates: a command is denied exactly when one of the
  segments it is lexed into is denied, wherever that segment stands; and a command gets no
  verdict at all only when it could be split and none of its segments has one, so what cannot
  be parsed is never passed in silence.\<close>

theorem classify_deny_dominates_and_fails_closed:
  "((\<exists>why. classify command = Some (TDeny, why)) \<longleftrightarrow>
      (\<exists>seg \<in> set (segments_with_pipe command). denies seg)) \<and>
   (classify command = None \<longleftrightarrow> segments_with_pipe command \<noteq> [] \<and>
      \<not> (\<exists>seg \<in> set (segments_with_pipe command). segment_verdict (fst seg) (snd seg) \<noteq> None))"
proof (cases "segments_with_pipe command = []")
  case True
  then show ?thesis by (simp add: classify_def segments_Nil_iff Let_def)
next
  case False
  then have "classify command = strongest_verdict None (segments_with_pipe command)"
    by (simp add: classify_def segments_Nil_iff Let_def)
  then show ?thesis
    using strongest_verdict_deny_iff [of None "segments_with_pipe command"]
      strongest_verdict_None_iff [of None "segments_with_pipe command"] False by auto
qed



text \<open>What the wrappers leave out: an option of \<open>env\<close> and the value of an option of \<open>sudo\<close> are
  taken for the command, so the delete behind them gets no verdict, or only a question.\<close>

lemma env_option_hides_the_delete: "classify ''env -i rm -rf /'' = None"
  by code_simp

lemma sudo_user_hides_the_delete:
  "classify ''sudo -u root rm -rf /'' = Some (TAsk, ''privilege escalation'')"
  by code_simp

text \<open>An escaped \<open>&\<close> in front of a background \<open>&\<close> hides the command behind it from the split the
  approvals are made on, though not from this classifier, which lexes the command itself.\<close>

lemma escaped_amp_hides_from_approvals:
  "split_segments (''echo '' @ BSLASH # ''&& rm -rf /'') = [''echo '' @ BSLASH # ''&& rm -rf /''] \<and>
   map fst (segments_with_pipe (''echo '' @ BSLASH # ''&& rm -rf /'')) = [[''echo''], [''rm'', ''-rf'', ''/'']]"
  by (rule conjI) code_simp+

end
