(* ===== verification/Policies.thy ===== *)
theory Policies
  imports Overlay Policy_Grants Command_Safety
begin

text \<open>
  The policy guard (\<open>guardrails/policies.py\<close>): the bundled seed
  (\<open>guardrails/default_policies.jsonl\<close>), the tenant overlay with its two caches, the evaluation
  of a rule and the guard. A rule is the dictionary of its JSON line. Searching a regular
  expression (with \<open>re.IGNORECASE\<close>) is the argument \<open>re_search\<close>; \<open>None\<close> is \<open>re.error\<close>.
\<close>

section \<open>fnmatch.fnmatchcase\<close>

text \<open>The body of a bracket: characters and ranges.\<close>

fun class_has :: "string \<Rightarrow> char \<Rightarrow> bool" where
  "class_has (x # y # z # r) c \<longleftrightarrow>
     (if y = CHR ''-'' then ((of_char x :: nat) \<le> of_char c \<and> (of_char c :: nat) \<le> of_char z) \<or> class_has r c
      else x = c \<or> class_has (y # z # r) c)"
| "class_has (x # r) c \<longleftrightarrow> x = c \<or> class_has r c"
| "class_has [] c \<longleftrightarrow> False"

text \<open>The end of a bracket: the first closing bracket that is not the first character after an
  optional exclamation mark.\<close>

definition bracket_body :: "string \<Rightarrow> (string \<times> string) option" where
  "bracket_body s =
     (let skip = (if startswith s ''!]'' then 2 else if startswith s '']'' \<or> startswith s ''!'' then 1 else 0);
          r = drop skip s; b = takeWhile (\<lambda>c. c \<noteq> CHR '']'') r; t = dropWhile (\<lambda>c. c \<noteq> CHR '']'') r
      in if t = [] then None else Some (take skip s @ b, tl t))"

definition bracket_has :: "string \<Rightarrow> char \<Rightarrow> bool" where
  "bracket_has b c \<longleftrightarrow> (if startswith b ''!'' then \<not> class_has (tl b) c else class_has b c)"

lemma bracket_body_shorter: "bracket_body s = Some (b, t) \<Longrightarrow> length t < length s"
proof -
  assume a: "bracket_body s = Some (b, t)"
  define skip where "skip = (if startswith s ''!]'' then 2 else if startswith s '']'' \<or> startswith s ''!'' then 1 else (0 :: nat))"
  define d where "d = dropWhile (\<lambda>c. c \<noteq> CHR '']'') (drop skip s)"
  have "d \<noteq> []" "t = tl d" using a by (auto simp: bracket_body_def Let_def skip_def d_def split: if_splits)
  moreover have "length d \<le> length s" unfolding d_def
    by (metis diff_le_self length_drop length_dropWhile_le order_trans)
  ultimately show ?thesis by (cases d) auto
qed

function fnmatchcase :: "string \<Rightarrow> string \<Rightarrow> bool" where
  "fnmatchcase s [] \<longleftrightarrow> s = []"
| "fnmatchcase s (p # ps) \<longleftrightarrow>
     (if p = CHR ''*'' then fnmatchcase s ps \<or> (case s of [] \<Rightarrow> False | _ # s' \<Rightarrow> fnmatchcase s' (p # ps))
      else if p = CHR ''?'' then s \<noteq> [] \<and> fnmatchcase (tl s) ps
      else if p = CHR ''['' then
        (case bracket_body ps of
           Some (b, ps') \<Rightarrow> s \<noteq> [] \<and> bracket_has b (hd s) \<and> fnmatchcase (tl s) ps'
         | None \<Rightarrow> s \<noteq> [] \<and> hd s = p \<and> fnmatchcase (tl s) ps)
      else s \<noteq> [] \<and> hd s = p \<and> fnmatchcase (tl s) ps)"
  by pat_completeness auto
termination
  by (relation "measures [\<lambda>(s, p). length p, \<lambda>(s, p). length s]")
     (auto dest: bracket_body_shorter)

section \<open>Reading the rules\<close>

definition DEFAULT_POLICIES_FILENAME :: string where
  "DEFAULT_POLICIES_FILENAME = ''.lha/policies.jsonl''"

definition PATH_ARG_NAMES :: "string list" where
  "PATH_ARG_NAMES = [''path'', ''file_path'', ''target_path'']"

definition keep_safe_patterns :: "pyval list \<Rightarrow> pyval list" where
  "keep_safe_patterns pats =
     filter (\<lambda>p. case p of PyStr s \<Rightarrow> s = [] \<or> safe_regex s | _ \<Rightarrow> True) pats"

definition filter_unsafe_regexes :: "pydict \<Rightarrow> pydict" where
  "filter_unsafe_regexes obj =
     (case dict_get obj ''destructive_commands_regex'' of
        PyDict rx \<Rightarrow>
          (let filtered = List.map_filter (\<lambda>(arg, pats).
                 case pats of
                   PyList ps \<Rightarrow> if keep_safe_patterns ps = [] then None
                                else Some (arg, PyList (keep_safe_patterns ps))
                 | _ \<Rightarrow> Some (arg, pats)) rx
           in if filtered \<noteq> [] then dict_set obj ''destructive_commands_regex'' (PyDict filtered)
              else dict_pop obj ''destructive_commands_regex'')
      | _ \<Rightarrow> obj)"

definition alias_canonical_tool_name :: "pydict \<Rightarrow> pydict" where
  "alias_canonical_tool_name obj =
     (case dict_get obj ''canonical_tool_name'' of
        PyStr c \<Rightarrow> if apply_tool_aliases c = c then obj
                   else dict_set obj ''canonical_tool_name'' (PyStr (apply_tool_aliases c))
      | _ \<Rightarrow> obj)"

definition policy_objects :: "pydict list \<Rightarrow> pydict list" where
  "policy_objects objs =
     map alias_canonical_tool_name (filter (\<lambda>o'. truthy (dict_get o' ''canonical_tool_name'')) objs)"

definition pol_parse_jsonl :: "string \<Rightarrow> pydict list" where
  "pol_parse_jsonl text = policy_objects (iter_jsonl_objects text)"

subsection \<open>The seed\<close>

text \<open>The regular expressions of the seed are written with a percent sign for a backslash and an
  at sign for a double quote.\<close>

definition rx :: "string \<Rightarrow> string" where
  "rx s = map (\<lambda>c. if c = CHR ''%'' then BSLASH else if c = CHR ''@'' then DQUOTE else c) s"

definition seed_substrings :: "string list" where
  "seed_substrings =
     [''dd if='', ''of=/dev/sd'', ''of=/dev/nvme'', ''of=/dev/hd'', ''mkfs.'', ''mkfs '', '':(){:|:&};:'',
      ''nc -l'', ''ncat -l'', ''socat '', ''> /dev/sd'', ''> /dev/nvme'', ''> /dev/hd'', ''/dev/tcp/'',
      ''/dev/udp/'', ''shred '', ''wipefs '', ''cat ~/.ssh/'', ''cat ~/.aws/'', ''cat ~/.config/gcloud/'',
      ''cat ~/.kube/'', ''cat /etc/shadow'', ''cat /etc/sudoers'']"

definition seed_regexes :: "string list" where
  "seed_regexes = map rx
     [''(>>?|%btee%b(?:%s+-%S+)*)%s*%S*%.lha/'',
      ''%bsed%b[^|;&]*-i[^|;&]*%.lha/'',
      ''%b(cp|mv)%b[^|;&]*%.lha/'',
      ''%b(rm|truncate|shred|unlink)%b[^|;&]*(?:^|[%s/'@=])%.lha(?:$|[/%s'@;&|><])'',
      ''%bchmod%b[^|;&]*(?:^|[%s/'@=])%.lha(?:$|[/%s'@;&|><])'']"

definition seed_path_rule :: "string \<Rightarrow> pydict" where
  "seed_path_rule tool =
     [(''canonical_tool_name'', PyStr tool),
      (''destructive_paths'', PyList (map PyStr [''/etc/sudoers'', ''/etc/shadow'', ''/etc/passwd''])),
      (''destructive_path_patterns'', PyList (map PyStr
        [''*/.ssh/*'', ''*/.aws/*'', ''*/.config/gcloud/*'', ''*/.kube/*'', ''.lha/*'', ''*/.lha/*'']))]"

definition default_policies :: "pydict list" where
  "default_policies =
     [[(''canonical_tool_name'', PyStr ''terminal''),
       (''destructive_commands'', PyDict [(''command'', PyList (map PyStr seed_substrings))]),
       (''destructive_commands_regex'', PyDict [(''command'', PyList (map PyStr seed_regexes))])],
      seed_path_rule ''write_file'', seed_path_rule ''patch'']"

text \<open>Reading the file beside the module, or \<open>None\<close> when it is missing; the package ships it.\<close>

definition read_seed_file :: "pydict list option \<Rightarrow> pydict list" where
  "read_seed_file file = (case file of None \<Rightarrow> [] | Some objs \<Rightarrow> policy_objects objs)"

definition read_default_seed :: "pydict list" where
  "read_default_seed = read_seed_file (Some default_policies)"

lemma read_default_seed_eq: "read_default_seed = policy_objects default_policies"
  by (simp add: read_default_seed_def read_seed_file_def)

subsection \<open>Loading\<close>

definition policies_path :: "string \<Rightarrow> string" where
  "policies_path wd = wd @ ''/'' @ DEFAULT_POLICIES_FILENAME"

definition read_user_overlay :: "overlay_fs \<Rightarrow> string \<Rightarrow> pydict list" where
  "read_user_overlay fs wd =
     (case host_files fs (policies_path wd) of
        RText text \<Rightarrow> map filter_unsafe_regexes (pol_parse_jsonl text)
      | RNotFound \<Rightarrow> []
      | RFailed \<Rightarrow> [])"

record pol_store =
  pol_cache :: "pydict local_cache"
  pol_overlay_cache :: "(string \<times> pydict list) list"

definition load_policies :: "string option \<Rightarrow> overlay_fs \<Rightarrow> pol_store \<Rightarrow> pydict list \<times> pol_store" where
  "load_policies wdir fs st =
     (let seed = read_default_seed in
      case wdir of
        None \<Rightarrow> (seed, st)
      | Some wd \<Rightarrow>
          let path = policies_path wd; mtime = host_mtime fs path in
          if cache_hit (pol_cache st) path mtime then (the (cache_rules (pol_cache st)), st)
          else let combined = seed @ read_user_overlay fs wd
               in (combined, st\<lparr>pol_cache :=
                    \<lparr>cache_path = Some path, cache_mtime = mtime, cache_rules = Some combined\<rparr>\<rparr>))"

definition load_policies_for_env ::
    "overlay_env option \<Rightarrow> overlay_fs \<Rightarrow> pol_store \<Rightarrow> pydict list \<times> pol_store" where
  "load_policies_for_env env fs st =
     (case env of
        None \<Rightarrow> (read_default_seed, st)
      | Some e \<Rightarrow>
          (case working_dir e of
             None \<Rightarrow> (read_default_seed, st)
           | Some wd \<Rightarrow>
               if on_host_fs e then load_policies (Some wd) fs st
               else let key = overlay_cache_key e in
                 (case map_of (pol_overlay_cache st) key of
                    Some rules \<Rightarrow> (rules, st)
                  | None \<Rightarrow>
                      let text = read_overlay_text fs e (policies_path wd);
                          combined = read_default_seed @ map filter_unsafe_regexes (pol_parse_jsonl text)
                      in (combined, st\<lparr>pol_overlay_cache := dict_set (pol_overlay_cache st) key combined\<rparr>))))"

section \<open>Evaluating a rule\<close>

text \<open>The substring tier: for each argument of the rule in turn, the first pattern found.\<close>

definition substring_hit :: "pydict \<Rightarrow> pydict \<Rightarrow> string option" where
  "substring_hit commands args =
     first_some (\<lambda>(arg, pats).
       case (pats, dict_get args arg) of
         (PyList ps, PyStr value) \<Rightarrow>
           first_some (\<lambda>p. case p of
               PyStr pat \<Rightarrow>
                 if pat \<noteq> [] \<and> contains (py_lower value) (py_lower pat)
                 then Some (''destructive substring '' @ py_repr_str pat @ '' matched on arg '' @ py_repr_str arg)
                 else None
             | _ \<Rightarrow> None) ps
       | _ \<Rightarrow> None) commands"

definition regex_hit :: "(string \<Rightarrow> string \<Rightarrow> bool option) \<Rightarrow> pydict \<Rightarrow> pydict \<Rightarrow> string option" where
  "regex_hit re_search commands args =
     first_some (\<lambda>(arg, pats).
       case (pats, dict_get args arg) of
         (PyList ps, PyStr value) \<Rightarrow>
           first_some (\<lambda>p. case p of
               PyStr pat \<Rightarrow>
                 if pat \<noteq> [] \<and> re_search pat value = Some True
                 then Some (''destructive regex '' @ py_repr_str pat @ '' matched on arg '' @ py_repr_str arg)
                 else None
             | _ \<Rightarrow> None) ps
       | _ \<Rightarrow> None) commands"

text \<open>The two path tiers share their loop: path-shaped arguments, then the patterns.\<close>

definition path_hit :: "(string \<Rightarrow> string \<Rightarrow> bool) \<Rightarrow> string \<Rightarrow> pyval list \<Rightarrow> pydict \<Rightarrow> string option" where
  "path_hit matches what pats args =
     (let ps = filter (\<lambda>p. p \<noteq> []) (List.map_filter as_str pats)
      in first_some (\<lambda>(arg, v).
           if arg \<notin> set PATH_ARG_NAMES then None
           else case v of
             PyStr value \<Rightarrow>
               first_some (\<lambda>p. if matches value p
                 then Some (''destructive path '' @ what @ '' '' @ py_repr_str p @ '' matched on arg '' @ py_repr_str arg)
                 else None) ps
           | _ \<Rightarrow> None) args)"

definition evaluate_rule ::
    "(string \<Rightarrow> string \<Rightarrow> bool option) \<Rightarrow> pydict \<Rightarrow> string \<Rightarrow> pyval \<Rightarrow> string option" where
  "evaluate_rule re_search rule tool_name args =
     (if \<not> py_eq (dict_get rule ''canonical_tool_name'') (PyStr tool_name) then None
      else if dict_get rule ''destructive'' = PyBool True
        then Some (''tool '' @ py_repr_str tool_name @ '' is marked destructive'')
      else first_some (\<lambda>r. r)
        [(case (dict_get rule ''destructive_commands'', args) of
            (PyDict c, PyDict a) \<Rightarrow> substring_hit c a | _ \<Rightarrow> None),
         (case (dict_get rule ''destructive_commands_regex'', args) of
            (PyDict c, PyDict a) \<Rightarrow> regex_hit re_search c a | _ \<Rightarrow> None),
         (case (dict_get rule ''destructive_paths'', args) of
            (PyList ps, PyDict a) \<Rightarrow> path_hit startswith ''prefix'' ps a | _ \<Rightarrow> None),
         (case (dict_get rule ''destructive_path_patterns'', args) of
            (PyList ps, PyDict a) \<Rightarrow> path_hit fnmatchcase ''pattern'' ps a | _ \<Rightarrow> None)])"

section \<open>The guard\<close>

definition policy_block :: "string \<Rightarrow> pydict \<Rightarrow> string \<Rightarrow> pydict" where
  "policy_block reason rule src =
     [(''error'', PyStr (''tool call blocked by '' @ src @ '': '' @ reason @ ''. If the user has ''
         @ ''explicitly approved this call, ask them to type ''
         @ [BTICK] @ ''/grant <command>'' @ [BTICK] @ '' to approve it for the rest of this ''
         @ ''session, then retry. Otherwise re-run with a narrower target ''
         @ ''or ask the user to add a rule to '' @ DEFAULT_POLICIES_FILENAME @ '' ''
         @ ''(you cannot write it yourself, see the '' @ [BTICK] @ ''policy'' @ [BTICK] @ '' skill).'')),
      (''confirmation_required'', PyBool True), (''matched_rule'', PyDict rule)]"

definition command_for :: "string \<Rightarrow> pyval \<Rightarrow> string option" where
  "command_for tool_name args = (case args of
       PyDict d \<Rightarrow>
         (case (if tool_name = BASH then as_str (dict_get d ''command'') else None) of
            Some c \<Rightarrow> Some c
          | None \<Rightarrow>
              (case (if tool_name = PROCESS \<and> dict_get d ''action'' = PyStr ''write''
                     then as_str (dict_get d ''data'') else None) of
                 Some c \<Rightarrow> Some c
               | None \<Rightarrow> if tool_name = PROCESS \<and> dict_get d ''action'' = PyStr ''spawn''
                         then as_str (dict_get d ''command'') else None))
     | _ \<Rightarrow> None)"

definition first_block ::
    "(string \<Rightarrow> string \<Rightarrow> bool option) \<Rightarrow> pydict list \<Rightarrow> string \<Rightarrow> pyval \<Rightarrow> pydict option" where
  "first_block re_search rules tool_name args =
     first_some (\<lambda>rule. map_option (\<lambda>reason. policy_block reason rule ''policy'')
       (evaluate_rule re_search rule tool_name args)) rules"

text \<open>The text a \<open>process\<close> call sends to a shell with the given action and argument.\<close>

definition process_payload :: "string \<Rightarrow> pyval \<Rightarrow> string \<Rightarrow> string \<Rightarrow> string option" where
  "process_payload tool_name args action arg = (case args of
       PyDict d \<Rightarrow> if tool_name = PROCESS \<and> dict_get d ''action'' = PyStr action
                   then as_str (dict_get d arg) else None
     | _ \<Rightarrow> None)"

definition synthetic_block ::
    "(string \<Rightarrow> string \<Rightarrow> bool option) \<Rightarrow> pydict list \<Rightarrow> string option \<Rightarrow> pydict option" where
  "synthetic_block re_search rules payload =
     (case payload of None \<Rightarrow> None
      | Some c \<Rightarrow> first_block re_search rules BASH (PyDict [(''command'', PyStr c)]))"

definition safety_block :: "bool \<Rightarrow> string option \<Rightarrow> pydict option" where
  "safety_block ask_is_deny command =
     (case command of
        None \<Rightarrow> None
      | Some c \<Rightarrow>
          (case classify c of
             None \<Rightarrow> None
           | Some (tier, why) \<Rightarrow>
               if tier = TDeny \<or> ask_is_deny
               then Some (policy_block why [(''command_safety'', PyStr (tier_str tier))] ''command_safety'')
               else None))"

text \<open>The four checks of a call that no grant exempts, in the order of the code.\<close>

definition policy_checks ::
    "(string \<Rightarrow> string \<Rightarrow> bool option) \<Rightarrow> pydict list \<Rightarrow> bool \<Rightarrow> string \<Rightarrow> pyval \<Rightarrow> pydict option" where
  "policy_checks re_search rules ask_is_deny tool_name args =
     first_some (\<lambda>r. r)
       [first_block re_search rules tool_name args,
        synthetic_block re_search rules (process_payload tool_name args ''write'' ''data''),
        synthetic_block re_search rules (process_payload tool_name args ''spawn'' ''command''),
        safety_block ask_is_deny (command_for tool_name args)]"

definition policies_guard ::
    "(string \<Rightarrow> string \<Rightarrow> bool option) \<Rightarrow> overlay_env option \<Rightarrow> overlay_fs \<Rightarrow> bool \<Rightarrow> string \<Rightarrow> pyval \<Rightarrow> pydict option \<Rightarrow>
     pol_store \<Rightarrow> pydict option \<times> pol_store" where
  "policies_guard re_search env fs ask_is_deny tool_name args state st =
     (if tool_name = [] then (None, st)
      else if (case state of None \<Rightarrow> False | Some s \<Rightarrow> find_matching_grant s tool_name args \<noteq> None) then (None, st)
      else
        let (rules, st') = load_policies_for_env env fs st in
        (policy_checks re_search rules ask_is_deny tool_name args, st'))"

section \<open>The seed is always in force\<close>

definition has_seed :: "pydict list \<Rightarrow> bool" where
  "has_seed rules \<longleftrightarrow> take (length read_default_seed) rules = read_default_seed"

definition pol_store_ok :: "pol_store \<Rightarrow> bool" where
  "pol_store_ok st \<longleftrightarrow>
     (case cache_rules (pol_cache st) of None \<Rightarrow> True | Some rs \<Rightarrow> has_seed rs) \<and>
     list_all (\<lambda>kv. has_seed (snd kv)) (pol_overlay_cache st)"

lemma has_seed_append [simp]: "has_seed (read_default_seed @ us)" "has_seed read_default_seed"
  by (simp_all add: has_seed_def)

lemma list_all_dict_set:
  "list_all (\<lambda>kv. P (snd kv)) d \<Longrightarrow> P v \<Longrightarrow> list_all (\<lambda>kv. P (snd kv)) (dict_set d k v)"
  by (induction d) auto

lemma list_all_map_of: "list_all (\<lambda>kv. P (snd kv)) d \<Longrightarrow> map_of d k = Some v \<Longrightarrow> P v"
  by (auto simp: list_all_iff dest!: map_of_SomeD)

lemma load_policies_seed:
  assumes "pol_store_ok st"
  shows "has_seed (fst (load_policies_for_env env fs st))"
    and "pol_store_ok (snd (load_policies_for_env env fs st))"
  using assms list_all_map_of [of has_seed "pol_overlay_cache st"]
  by (auto simp: load_policies_for_env_def load_policies_def Let_def cache_hit_def pol_store_ok_def
      list_all_dict_set split: option.splits)

lemma first_block_seed:
  assumes "has_seed rules" and "first_block re_search read_default_seed tn args \<noteq> None"
  shows "first_block re_search rules tn args \<noteq> None"
proof -
  have "rules = read_default_seed @ drop (length read_default_seed) rules"
    using assms(1) unfolding has_seed_def by (metis append_take_drop_id)
  then obtain us where "rules = read_default_seed @ us" by blast
  then show ?thesis using assms(2) by (auto simp: first_block_def)
qed

definition granted :: "pydict option \<Rightarrow> string \<Rightarrow> pyval \<Rightarrow> bool" where
  "granted state tn args \<longleftrightarrow> (case state of None \<Rightarrow> False | Some s \<Rightarrow> find_matching_grant s tn args \<noteq> None)"

text \<open>A call without a grant is blocked when one of the four checks blocks it.\<close>

lemma policies_guard_blocked_iff:
  assumes "tn \<noteq> []" and "\<not> granted state tn args" and "load_policies_for_env env fs st = (rules, st')"
  shows "fst (policies_guard re_search env fs aid tn args state st) \<noteq> None \<longleftrightarrow>
     first_block re_search rules tn args \<noteq> None
     \<or> synthetic_block re_search rules (process_payload tn args ''write'' ''data'') \<noteq> None
     \<or> synthetic_block re_search rules (process_payload tn args ''spawn'' ''command'') \<noteq> None
     \<or> safety_block aid (command_for tn args) \<noteq> None"
  using assms by (simp add: policies_guard_def policy_checks_def granted_def [symmetric] Let_def split: option.split)

lemma policies_guard_granted:
  "granted state tn args \<Longrightarrow> fst (policies_guard re_search env fs aid tn args state st) = None"
  by (simp add: policies_guard_def granted_def)

lemma policies_guard_store_ok:
  "pol_store_ok st \<Longrightarrow> pol_store_ok (snd (policies_guard re_search env fs aid tn args state st))"
  using load_policies_seed(2) [of st env fs]
  by (auto simp: policies_guard_def Let_def split: prod.splits)

lemma policies_floor:
  assumes "pol_store_ok st" and "tn \<noteq> []" and "\<not> granted state tn args"
    and "first_block re_search read_default_seed tn args \<noteq> None \<or>
         (\<exists>c why. command_for tn args = Some c \<and> classify c = Some (TDeny, why))"
  shows "fst (policies_guard re_search env fs ask_is_deny tn args state st) \<noteq> None \<and>
         pol_store_ok (snd (policies_guard re_search env fs ask_is_deny tn args state st))"
proof -
  obtain rules st' where l: "load_policies_for_env env fs st = (rules, st')" by fastforce
  then have "has_seed rules" using load_policies_seed(1) [OF assms(1), of env fs] by simp
  then have "first_block re_search rules tn args \<noteq> None \<or> safety_block ask_is_deny (command_for tn args) \<noteq> None"
    using assms(4) first_block_seed by (auto simp: safety_block_def)
  then show ?thesis
    using policies_guard_blocked_iff [OF assms(2,3) l] policies_guard_store_ok [OF assms(1)] by blast
qed

section \<open>Globs\<close>

definition plain_glob_char :: "char \<Rightarrow> bool" where
  "plain_glob_char c \<longleftrightarrow> c \<notin> set ''*?[''"

declare fnmatchcase.simps(2) [simp del]

lemma fnmatch_star_all: "fnmatchcase s ''*''"
  by (induction s) (simp_all add: fnmatchcase.simps(2))

lemma fnmatch_star_skip: "fnmatchcase s ps \<Longrightarrow> fnmatchcase (u @ s) (CHR ''*'' # ps)"
proof (induction u)
  case Nil
  then show ?case by (simp add: fnmatchcase.simps(2) [of s])
next
  case (Cons c u)
  then show ?case by (simp add: fnmatchcase.simps(2) [of "c # u @ s"])
qed

lemma fnmatch_literal:
  "list_all plain_glob_char w \<Longrightarrow> fnmatchcase s ps \<Longrightarrow> fnmatchcase (w @ s) (w @ ps)"
proof (induction w)
  case (Cons c w)
  then show ?case by (simp add: fnmatchcase.simps(2) [of "c # w @ s" c "w @ ps"] plain_glob_char_def)
qed simp

lemma lha_pattern:
  "fnmatchcase (''.lha/'' @ v) ''.lha/*''" "fnmatchcase (u @ ''/.lha/'' @ v) ''*/.lha/*''"
proof -
  have plain: "list_all plain_glob_char ''.lha/''" "list_all plain_glob_char ''/.lha/''" by (simp_all add: plain_glob_char_def)
  show "fnmatchcase (''.lha/'' @ v) ''.lha/*''"
    using fnmatch_literal [OF plain(1) fnmatch_star_all, of v] by simp
  show "fnmatchcase (u @ ''/.lha/'' @ v) ''*/.lha/*''"
    using fnmatch_star_skip [OF fnmatch_literal [OF plain(2) fnmatch_star_all, of v], of u] by simp
qed

lemma seed_write_rule:
  assumes "tn = WRITE \<or> tn = EDIT"
  shows "\<exists>rule \<in> set read_default_seed. dict_get rule ''canonical_tool_name'' = PyStr tn \<and>
    dict_get rule ''destructive_path_patterns'' = PyList (map PyStr
        [''*/.ssh/*'', ''*/.aws/*'', ''*/.config/gcloud/*'', ''*/.kube/*'', ''.lha/*'', ''*/.lha/*''])"
proof -
  have a: "apply_tool_aliases ''write_file'' = WRITE" "apply_tool_aliases ''patch'' = EDIT"
    "WRITE \<noteq> ''write_file''" "EDIT \<noteq> ''patch''"
    by (simp_all add: apply_tool_aliases_def TOOL_NAME_ALIASES_def dict_get_default_def tool_name_defs)
  have "alias_canonical_tool_name (seed_path_rule ''write_file'') \<in> set read_default_seed"
    "alias_canonical_tool_name (seed_path_rule ''patch'') \<in> set read_default_seed"
    by (simp_all add: read_default_seed_eq policy_objects_def default_policies_def seed_path_rule_def)
  moreover have "dict_get (alias_canonical_tool_name (seed_path_rule n)) ''canonical_tool_name'' = PyStr (apply_tool_aliases n)"
    "dict_get (alias_canonical_tool_name (seed_path_rule n)) ''destructive_path_patterns'' = PyList (map PyStr
        [''*/.ssh/*'', ''*/.aws/*'', ''*/.config/gcloud/*'', ''*/.kube/*'', ''.lha/*'', ''*/.lha/*''])" for n
    by (simp_all add: alias_canonical_tool_name_def seed_path_rule_def)
  ultimately show ?thesis using assms a by metis
qed

lemma path_hit_lha:
  assumes "(k, PyStr path) \<in> set args" "k \<in> set PATH_ARG_NAMES"
    and "startswith path ''.lha/'' \<or> contains path ''/.lha/''"
    and "{''.lha/*'', ''*/.lha/*''} \<subseteq> set ps"
  shows "path_hit fnmatchcase what (map PyStr ps) args \<noteq> None"
proof -
  have m: "List.map_filter as_str (map PyStr ps) = ps"
    by (induction ps) (auto simp: List.map_filter_def)
  have "\<exists>p \<in> set (filter (\<lambda>p. p \<noteq> []) ps). fnmatchcase path p"
  proof (cases "startswith path ''.lha/''")
    case True
    then obtain v where "path = ''.lha/'' @ v" by (auto simp: startswith_iff)
    then show ?thesis using lha_pattern(1) assms(4) by fastforce
  next
    case False
    then obtain u v where "path = u @ ''/.lha/'' @ v" using assms(3) by (auto simp: contains_iff)
    then show ?thesis using lha_pattern(2) assms(4) by fastforce
  qed
  then obtain p where p: "p \<in> set (filter (\<lambda>p. p \<noteq> []) ps)" "fnmatchcase path p" by blast
  show ?thesis
  proof
    assume "path_hit fnmatchcase what (map PyStr ps) args = None"
    from this [unfolded path_hit_def Let_def m first_some_None_iff, rule_format, OF assms(1)] assms(2) p
    show False by (auto split: if_splits)
  qed
qed

section \<open>Cached loading\<close>

definition pol_expected :: "overlay_env \<Rightarrow> string \<Rightarrow> overlay_fs \<Rightarrow> py_exn + pydict list" where
  "pol_expected e wd fs =
     (if on_host_fs e then Inr (read_default_seed @ read_user_overlay fs wd)
      else Inr (read_default_seed @ map filter_unsafe_regexes (pol_parse_jsonl (read_overlay_text fs e (policies_path wd)))))"

definition pol_coherent :: "overlay_env \<Rightarrow> string \<Rightarrow> overlay_fs \<Rightarrow> pol_store \<Rightarrow> bool" where
  "pol_coherent e wd fs st \<longleftrightarrow>
     (if on_host_fs e
      then cache_hit (pol_cache st) (policies_path wd) (host_mtime fs (policies_path wd)) \<longrightarrow>
           pol_expected e wd fs = Inr (the (cache_rules (pol_cache st)))
      else (case map_of (pol_overlay_cache st) (overlay_cache_key e) of
              None \<Rightarrow> True | Some rs \<Rightarrow> pol_expected e wd fs = Inr rs))"

definition pol_load :: "overlay_env \<Rightarrow> overlay_fs \<Rightarrow> pol_store \<Rightarrow> py_exn + (pydict list \<times> pol_store)" where
  "pol_load e fs st = Inr (load_policies_for_env (Some e) fs st)"

lemma pol_load_coherent:
  assumes "working_dir e = Some wd" "pol_coherent e wd fs st"
  shows "pol_expected e wd fs = Inr rs \<Longrightarrow> \<exists>st'. pol_load e fs st = Inr (rs, st') \<and> pol_coherent e wd fs st'"
  using assms
  by (auto simp: pol_load_def load_policies_for_env_def load_policies_def Let_def pol_coherent_def
      pol_expected_def cache_hit_def split: if_splits option.splits)

text \<open>The environments with a given working directory.\<close>

definition at_dir :: "string \<Rightarrow> overlay_env \<Rightarrow> overlay_env" where
  "at_dir wd e = e\<lparr>working_dir := Some wd\<rparr>"

interpretation policy_rules: overlay_loader "pol_load (at_dir wd e)" "pol_expected (at_dir wd e) wd"
  "pol_coherent (at_dir wd e) wd" for e wd
proof
  fix fs st rs assume "pol_coherent (at_dir wd e) wd fs st" "pol_expected (at_dir wd e) wd fs = Inr rs"
  then show "\<exists>st'. pol_load (at_dir wd e) fs st = Inr (rs, st') \<and> pol_coherent (at_dir wd e) wd fs st'"
    by (intro pol_load_coherent) (simp_all add: at_dir_def)
next
  fix fs st ex assume "pol_expected (at_dir wd e) wd fs = Inl ex"
  then show "pol_load (at_dir wd e) fs st = Inl ex" by (simp add: pol_expected_def split: if_splits)
qed

section \<open>Shell entry points\<close>

lemma process_args:
  "process_payload PROCESS (PyDict [(''action'', PyStr ''write''), (''data'', PyStr c)]) ''write'' ''data'' = Some c"
  "process_payload PROCESS (PyDict [(''action'', PyStr ''spawn''), (''command'', PyStr c)]) ''spawn'' ''command'' = Some c"
  "command_for PROCESS (PyDict [(''action'', PyStr ''write''), (''data'', PyStr c)]) = Some c"
  "command_for PROCESS (PyDict [(''action'', PyStr ''spawn''), (''command'', PyStr c)]) = Some c"
  "command_for BASH (PyDict [(''command'', PyStr c)]) = Some c"
  "process_payload BASH args act arg = None"
  by (simp_all add: process_payload_def command_for_def tool_name_defs split: pyval.split)

text \<open>No files and empty caches, for the concrete runs below.\<close>

definition fresh_pol_store :: pol_store where
  "fresh_pol_store =
     \<lparr>pol_cache = \<lparr>cache_path = None, cache_mtime = None, cache_rules = None\<rparr>, pol_overlay_cache = []\<rparr>"

definition empty_fs :: overlay_fs where
  "empty_fs = \<lparr>host_files = (\<lambda>_. RNotFound), host_mtime = (\<lambda>_. None), env_files = (\<lambda>_ _. RNotFound)\<rparr>"

lemma fresh_pol_store_ok: "pol_store_ok fresh_pol_store"
  by (simp add: pol_store_ok_def fresh_pol_store_def)

section \<open>Properties\<close>

text \<open>C7: No tenant can lift the floor: as long as the caches were filled by this module, a call
  that a bundled rule blocks, or a shell command that the classifier denies, is blocked under
  every overlay file on every backend unless the user granted exactly that call; and the
  guard keeps the caches in that state.\<close>

theorem policy_floor_holds_under_every_overlay:
  assumes "pol_store_ok st" and "tn \<noteq> []" and "\<not> granted state tn args"
    and "first_block re_search read_default_seed tn args \<noteq> None \<or>
         (\<exists>c why. command_for tn args = Some c \<and> classify c = Some (TDeny, why))"
  shows "fst (policies_guard re_search env fs ask_is_deny tn args state st) \<noteq> None \<and>
         pol_store_ok (snd (policies_guard re_search env fs ask_is_deny tn args state st))"
  by (rule policies_floor [OF assms])

theorem policy_floor_holds_under_every_overlay_witness:
  "fst (policies_guard (\<lambda>_ _. None) None empty_fs False BASH
      (PyDict [(''command'', PyStr ''sudo rm -rf /'')]) (Some []) fresh_pol_store) \<noteq> None"
proof -
  have c: "classify ''sudo rm -rf /'' = Some (TDeny, ''recursive force-delete of a system/home root'')" by code_simp
  have "first_block (\<lambda>_ _. None) read_default_seed BASH (PyDict [(''command'', PyStr ''sudo rm -rf /'')]) \<noteq> None \<or>
      (\<exists>x why. command_for BASH (PyDict [(''command'', PyStr ''sudo rm -rf /'')]) = Some x \<and> classify x = Some (TDeny, why))"
    unfolding process_args using c by blast
  from policy_floor_holds_under_every_overlay [OF fresh_pol_store_ok _ _ this, of "Some []" None empty_fs False]
  show ?thesis by (simp add: granted_def find_matching_grant_def active_grants_def BASH_def)
qed

text \<open>The agent cannot edit its own guardrails: without an exact grant, a \<open>write\<close> or \<open>edit\<close>
  call with any path-shaped argument inside a \<open>.lha\<close> directory is blocked, whatever the
  overlay says.\<close>

theorem guardrail_files_are_write_protected:
  assumes "pol_store_ok st" and "tn = WRITE \<or> tn = EDIT"
    and "\<not> granted state tn (PyDict args)"
    and "(k, PyStr path) \<in> set args" and "k \<in> set PATH_ARG_NAMES"
    and "startswith path ''.lha/'' \<or> contains path ''/.lha/''"
  shows "fst (policies_guard re_search env fs ask_is_deny tn (PyDict args) state st) \<noteq> None"
proof -
  obtain rules st' where l: "load_policies_for_env env fs st = (rules, st')" by fastforce
  then have seed: "has_seed rules" using load_policies_seed(1) [OF assms(1), of env fs] by simp
  obtain rule where r: "rule \<in> set read_default_seed" "dict_get rule ''canonical_tool_name'' = PyStr tn"
    "dict_get rule ''destructive_path_patterns'' = PyList (map PyStr
        [''*/.ssh/*'', ''*/.aws/*'', ''*/.config/gcloud/*'', ''*/.kube/*'', ''.lha/*'', ''*/.lha/*''])"
    using seed_write_rule [OF assms(2)] by blast
  have "path_hit fnmatchcase ''pattern'' (map PyStr
        [''*/.ssh/*'', ''*/.aws/*'', ''*/.config/gcloud/*'', ''*/.kube/*'', ''.lha/*'', ''*/.lha/*'']) args \<noteq> None"
    by (rule path_hit_lha [OF assms(4-6)]) simp
  then have "evaluate_rule re_search rule tn (PyDict args) \<noteq> None"
    unfolding evaluate_rule_def r(2,3) by (simp del: first_some.simps not_None_eq)
  then have "first_block re_search read_default_seed tn (PyDict args) \<noteq> None"
    using r(1) by (auto simp: first_block_def)
  moreover have "tn \<noteq> []" using assms(2) by (auto simp: tool_name_defs)
  ultimately show ?thesis
    using policies_guard_blocked_iff [OF _ assms(3) l] first_block_seed [OF seed] by blast
qed

theorem guardrail_files_are_write_protected_witness:
  "fst (policies_guard (\<lambda>_ _. None) None empty_fs False WRITE
      (PyDict [(''path'', PyStr ''/workspace/.lha/permissions.jsonl''), (''content'', PyStr [])]) None fresh_pol_store) \<noteq> None"
  by (rule guardrail_files_are_write_protected [OF fresh_pol_store_ok, where k = "''path''"
        and path = "''/workspace/.lha/permissions.jsonl''"])
     (simp_all add: granted_def PATH_ARG_NAMES_def startswith_def)

text \<open>\<open>process\<close> is no way around \<open>bash\<close>: whatever command the guard blocks as a \<open>bash\<close> call
  it also blocks when sent to a running shell or spawned in the background, in the same
  state and under the same overlay, grants for the \<open>process\<close> tool aside.\<close>

theorem process_is_no_bypass_of_bash:
  assumes "fst (policies_guard re_search env fs ask_is_deny BASH (PyDict [(''command'', PyStr c)]) state st) \<noteq> None"
    and "args = PyDict [(''action'', PyStr ''write''), (''data'', PyStr c)] \<or>
         args = PyDict [(''action'', PyStr ''spawn''), (''command'', PyStr c)]"
    and "\<not> granted state PROCESS args"
  shows "fst (policies_guard re_search env fs ask_is_deny PROCESS args state st) \<noteq> None"
proof -
  obtain rules st' where l: "load_policies_for_env env fs st = (rules, st')" by fastforce
  have ne: "BASH \<noteq> []" "PROCESS \<noteq> []" by (simp_all add: tool_name_defs)
  have ng: "\<not> granted state BASH (PyDict [(''command'', PyStr c)])"
    using assms(1) policies_guard_granted [of state BASH _ re_search env fs ask_is_deny st] by auto
  have "first_block re_search rules BASH (PyDict [(''command'', PyStr c)]) \<noteq> None \<or> safety_block ask_is_deny (Some c) \<noteq> None"
    using assms(1) policies_guard_blocked_iff [OF ne(1) ng l] by (simp add: process_args synthetic_block_def)
  then show ?thesis
    using assms(2) policies_guard_blocked_iff [OF ne(2) assms(3) l, of re_search ask_is_deny]
    by (auto simp: process_args synthetic_block_def)
qed

theorem process_is_no_bypass_of_bash_witness:
  "fst (policies_guard (\<lambda>_ _. None) None empty_fs False PROCESS
      (PyDict [(''action'', PyStr ''spawn''), (''command'', PyStr ''sudo rm -rf /'')]) None fresh_pol_store) \<noteq> None"
proof (rule process_is_no_bypass_of_bash)
  have c: "classify ''sudo rm -rf /'' = Some (TDeny, ''recursive force-delete of a system/home root'')" by code_simp
  have "\<not> granted None BASH (PyDict [(''command'', PyStr ''sudo rm -rf /'')])" by (simp add: granted_def)
  moreover have "load_policies_for_env None empty_fs fresh_pol_store = (read_default_seed, fresh_pol_store)"
    by (simp add: load_policies_for_env_def)
  moreover have "BASH \<noteq> []" by (simp add: BASH_def)
  ultimately show "fst (policies_guard (\<lambda>_ _. None) None empty_fs False BASH
      (PyDict [(''command'', PyStr ''sudo rm -rf /'')]) None fresh_pol_store) \<noteq> None"
    using policies_guard_blocked_iff by (simp add: process_args safety_block_def c)
qed (simp_all add: granted_def)

text \<open>The policy caches are transparent: starting from caches that agree with the files,
  any number of loads answers the bundled rules followed by the rules the overlay file holds
  now, on either backend.\<close>

theorem policy_cache_is_transparent:
  assumes "pol_coherent (at_dir wd e) wd fs st"
  shows "map_sum id fst (load_times (pol_load (at_dir wd e)) fs n st) = pol_expected (at_dir wd e) wd fs"
  by (rule policy_rules.load_times_value [OF assms])

theorem policy_cache_is_transparent_witness:
  "map_sum id fst (load_times (pol_load (at_dir ''/w'' \<lparr>working_dir = None, on_host_fs = False, cache_identity = Some ''a''\<rparr>))
     empty_fs 2 fresh_pol_store) =
   pol_expected (at_dir ''/w'' \<lparr>working_dir = None, on_host_fs = False, cache_identity = Some ''a''\<rparr>) ''/w'' empty_fs"
  by (rule policy_cache_is_transparent) (simp add: pol_coherent_def at_dir_def fresh_pol_store_def)

end
