(* ===== verification/Permission_Rules.thy ===== *)
theory Permission_Rules
  imports Overlay Command_Classify
begin

text \<open>
  Permission rules (\<open>guardrails/permission_rules.py\<close>): parsing, matching, the
  deny-wins/last-match resolution, the three layers (defaults, tenant overlay, session
  grants) with their caches, and the writers.

  Searching a tenant's own regular expression is the argument \<open>re_search\<close> of the matching
  functions: \<open>None\<close> is \<open>re.error\<close>. Everything proved holds for every such function.
\<close>

section \<open>Rules\<close>

datatype decision = Allow | Deny | AskUser

record permission_rule =
  tool_names :: "string list"
  command_prefixes :: "string list"
  command_regex :: "string option"
  args_pattern :: "string option"
  rule_decision :: decision
  deny_message :: "string option"
  subagent :: "string option"
  source :: "string option"

definition as_tuple :: "pyval \<Rightarrow> string list" where
  "as_tuple value = (case value of
       PyStr s \<Rightarrow> [s]
     | PyList vs \<Rightarrow> List.map_filter as_str vs
     | _ \<Rightarrow> [])"

definition as_aliased_tuple :: "pyval \<Rightarrow> string list" where
  "as_aliased_tuple value = map apply_tool_aliases (as_tuple value)"

text \<open>\<open>decision not in _VALID_DECISIONS\<close>: a list or a dict is unhashable and raises.\<close>

definition parse_decision :: "pyval \<Rightarrow> decision option py" where
  "parse_decision v = (case v of
       PyStr s \<Rightarrow> Inr (if s = ''allow'' then Some Allow else if s = ''deny'' then Some Deny
                     else if s = ''ask_user'' then Some AskUser else None)
     | PyList _ \<Rightarrow> Inl (TypeError ''unhashable type'')
     | PyDict _ \<Rightarrow> Inl (TypeError ''unhashable type'')
     | _ \<Rightarrow> Inr None)"

definition unsafe_pattern :: "bool \<Rightarrow> string option \<Rightarrow> bool" where
  "unsafe_pattern trusted p = (case p of None \<Rightarrow> False | Some s \<Rightarrow> \<not> trusted \<and> \<not> safe_regex s)"

definition parse_rule :: "bool \<Rightarrow> pyval \<Rightarrow> permission_rule option py" where
  "parse_rule trusted obj = (case obj of
       PyDict d \<Rightarrow>
         py_bind (parse_decision (dict_get d ''decision'')) (\<lambda>dec.
           case dec of
             None \<Rightarrow> Inr None
           | Some dec \<Rightarrow>
               let tn = as_aliased_tuple (dict_get d ''toolName'');
                   rx = as_str (dict_get d ''commandRegex'');
                   ap = as_str (dict_get d ''argsPattern'')
               in Inr (if tn = [] then None
                       else if unsafe_pattern trusted rx then None
                       else if unsafe_pattern trusted ap then None
                       else Some \<lparr>tool_names = tn,
                                  command_prefixes = as_tuple (dict_get d ''commandPrefix''),
                                  command_regex = rx, args_pattern = ap, rule_decision = dec,
                                  deny_message = as_str (dict_get d ''denyMessage''),
                                  subagent = as_str (dict_get d ''subagent''),
                                  source = as_str (dict_get d ''source'')\<rparr>))
     | _ \<Rightarrow> Inr None)"

section \<open>Matching\<close>

definition tool_matches :: "permission_rule \<Rightarrow> string \<Rightarrow> bool" where
  "tool_matches rule tool_name \<longleftrightarrow> ''*'' \<in> set (tool_names rule) \<or> tool_name \<in> set (tool_names rule)"

definition prefix_matches :: "string \<Rightarrow> string \<Rightarrow> bool" where
  "prefix_matches command pre =
     (if command = pre \<or> startswith command (pre @ '' '') then True
      else let prefix_tokens = py_split pre in
        if prefix_tokens = [] \<or> list_ex (\<lambda>t. startswith t ''-'') prefix_tokens then False
        else take (length prefix_tokens) (significant_tokens command) = prefix_tokens)"

definition sorted_opts :: json_opts where
  "sorted_opts = json_default_opts\<lparr>sort_keys := True\<rparr>"

definition rule_matches ::
    "(string \<Rightarrow> string \<Rightarrow> bool option) \<Rightarrow> permission_rule \<Rightarrow> string \<Rightarrow> pyval \<Rightarrow> string option \<Rightarrow> string option \<Rightarrow> bool" where
  "rule_matches re_search rule tool_name args command agent_name =
     (if \<not> tool_matches rule tool_name then False
      else if subagent rule \<noteq> None \<and> subagent rule \<noteq> agent_name then False
      else if command_prefixes rule \<noteq> [] \<and>
              (case command of None \<Rightarrow> True
               | Some c \<Rightarrow> \<not> list_ex (prefix_matches c) (command_prefixes rule)) then False
      else if (case command_regex rule of None \<Rightarrow> False
               | Some rx \<Rightarrow> (case command of None \<Rightarrow> True | Some c \<Rightarrow> re_search rx c \<noteq> Some True)) then False
      else if (case args_pattern rule of None \<Rightarrow> False
               | Some ap \<Rightarrow>
                   let blob = (case args of PyDict d \<Rightarrow> json_dumps sorted_opts args | _ \<Rightarrow> [])
                   in re_search ap blob \<noteq> Some True) then False
      else True)"

definition resolve_decision ::
    "(string \<Rightarrow> string \<Rightarrow> bool option) \<Rightarrow> permission_rule list \<Rightarrow> string \<Rightarrow> pyval \<Rightarrow> string option \<Rightarrow> string option \<Rightarrow>
     decision \<times> permission_rule option" where
  "resolve_decision re_search rules tool_name args command agent_name =
     (let matches = filter (\<lambda>r. rule_matches re_search r tool_name args command agent_name) rules
      in case List.find (\<lambda>r. rule_decision r = Deny) (rev matches) of
           Some deny \<Rightarrow> (Deny, Some deny)
         | None \<Rightarrow> if matches \<noteq> [] then (rule_decision (last matches), Some (last matches))
                   else (AskUser, None))"

section \<open>Loading and saving the overlay\<close>

definition PERMISSION_OVERLAY_FILENAME :: string where
  "PERMISSION_OVERLAY_FILENAME = ''.lha/permissions.jsonl''"

definition permission_path :: "string \<Rightarrow> string" where
  "permission_path wd = wd @ ''/'' @ PERMISSION_OVERLAY_FILENAME"

fun parse_rule_list :: "pydict list \<Rightarrow> permission_rule list py" where
  "parse_rule_list [] = Inr []"
| "parse_rule_list (obj # objs) =
     py_bind (parse_rule False (PyDict obj)) (\<lambda>r.
     py_bind (parse_rule_list objs) (\<lambda>rs.
     Inr (case r of Some rule \<Rightarrow> rule # rs | None \<Rightarrow> rs)))"

definition perm_parse_jsonl :: "string \<Rightarrow> permission_rule list py" where
  "perm_parse_jsonl text = parse_rule_list (iter_jsonl_objects text)"

record perm_store =
  perm_cache :: "permission_rule local_cache"
  perm_overlay_cache :: "(string \<times> permission_rule list) list"

definition host_text :: "overlay_fs \<Rightarrow> string \<Rightarrow> string" where
  "host_text fs path = (case host_files fs path of RText t \<Rightarrow> t | _ \<Rightarrow> [])"

definition load_local_rules ::
    "string \<Rightarrow> overlay_fs \<Rightarrow> perm_store \<Rightarrow> (permission_rule list \<times> perm_store) py" where
  "load_local_rules wd fs st =
     (let path = permission_path wd; mtime = host_mtime fs path in
      if cache_hit (perm_cache st) path mtime
      then Inr (the (cache_rules (perm_cache st)), st)
      else py_bind (perm_parse_jsonl (host_text fs path)) (\<lambda>rules.
           Inr (rules, st\<lparr>perm_cache :=
             \<lparr>cache_path = Some path, cache_mtime = mtime, cache_rules = Some rules\<rparr>\<rparr>)))"

definition load_interface_rules ::
    "overlay_env \<Rightarrow> string \<Rightarrow> overlay_fs \<Rightarrow> perm_store \<Rightarrow> (permission_rule list \<times> perm_store) py" where
  "load_interface_rules env wd fs st =
     (let key = overlay_cache_key env in
      case map_of (perm_overlay_cache st) key of
        Some rules \<Rightarrow> Inr (rules, st)
      | None \<Rightarrow>
          py_bind (perm_parse_jsonl (read_overlay_text fs env (permission_path wd))) (\<lambda>rules.
          Inr (rules, st\<lparr>perm_overlay_cache := dict_set (perm_overlay_cache st) key rules\<rparr>)))"

definition load_persisted_rules ::
    "overlay_env option \<Rightarrow> overlay_fs \<Rightarrow> perm_store \<Rightarrow> (permission_rule list \<times> perm_store) py" where
  "load_persisted_rules env fs st =
     (case env of
        None \<Rightarrow> Inr ([], st)
      | Some e \<Rightarrow>
          (case working_dir e of
             None \<Rightarrow> Inr ([], st)
           | Some wd \<Rightarrow> if on_host_fs e then load_local_rules wd fs st
                        else load_interface_rules e wd fs st))"

text \<open>Appending a rule. The modification time of a host file after the write is an argument;
  the host write itself is taken to succeed.\<close>

definition append_persisted_rule ::
    "overlay_env \<Rightarrow> pydict \<Rightarrow> rat \<Rightarrow> overlay_fs \<Rightarrow> perm_store \<Rightarrow> (overlay_fs \<times> perm_store) py" where
  "append_persisted_rule env rule now fs st =
     (case working_dir env of
        None \<Rightarrow> Inr (fs, st)
      | Some wd \<Rightarrow>
          let path = permission_path wd; line = json_dumps json_default_opts (PyDict rule) @ [NL] in
          if on_host_fs env
          then Inr (fs\<lparr>host_files := (host_files fs)(path := RText (host_text fs path @ line)),
                       host_mtime := (host_mtime fs)(path := Some now)\<rparr>,
                    st\<lparr>perm_cache := (perm_cache st)\<lparr>cache_mtime := None\<rparr>\<rparr>)
          else let key = overlay_cache_key env in
            (case env_read_file fs env path of
               RFailed \<Rightarrow> Inl (OSError ''read failed'')
             | r \<Rightarrow>
                 let current = (case r of RText t \<Rightarrow> t | _ \<Rightarrow> [])
                 in Inr (fs\<lparr>env_files := (env_files fs)(key := (env_files fs key)(path := RText (current @ line)))\<rparr>,
                         st\<lparr>perm_overlay_cache := dict_pop (perm_overlay_cache st) key\<rparr>)))"

section \<open>Layers\<close>

definition SANDBOX_WRITE_TOOLS :: "string list" where
  "SANDBOX_WRITE_TOOLS = [WRITE, EDIT, ARTIFACT]"

definition BENIGN_SIDE_EFFECT_TOOLS :: "string list" where
  "BENIGN_SIDE_EFFECT_TOOLS = [MEMORY]"

definition DEFAULT_RULE_DICTS :: "pydict list" where
  "DEFAULT_RULE_DICTS =
     [[(''toolName'', PyStr ''*''), (''decision'', PyStr ''ask_user'')]]
     @ map (\<lambda>t. [(''toolName'', PyStr t), (''decision'', PyStr ''allow'')]) SANDBOX_WRITE_TOOLS
     @ map (\<lambda>t. [(''toolName'', PyStr t), (''decision'', PyStr ''allow'')]) BENIGN_SIDE_EFFECT_TOOLS
     @ [[(''toolName'', PyStr BASH), (''decision'', PyStr ''allow'')],
        [(''toolName'', PyStr PROCESS), (''decision'', PyStr ''allow'')]]"

definition DEFAULT_RULES :: "permission_rule list" where
  "DEFAULT_RULES = List.map_filter
     (\<lambda>d. case parse_rule True (PyDict d) of Inr (Some r) \<Rightarrow> Some r | _ \<Rightarrow> None) DEFAULT_RULE_DICTS"

definition TOOLS_REQUIRING_NARROWING :: "string list" where
  "TOOLS_REQUIRING_NARROWING = [BASH, PROCESS]"

definition is_blanket_allow :: "permission_rule \<Rightarrow> bool" where
  "is_blanket_allow rule \<longleftrightarrow> rule_decision rule = Allow
     \<and> list_ex (\<lambda>t. t \<in> set TOOLS_REQUIRING_NARROWING) (tool_names rule)
     \<and> command_prefixes rule = [] \<and> command_regex rule = None \<and> args_pattern rule = None"

definition stamp :: "permission_rule list \<Rightarrow> string \<Rightarrow> permission_rule list" where
  "stamp rules src = map (\<lambda>r. r\<lparr>source := Some src\<rparr>) (filter (\<lambda>r. \<not> is_blanket_allow r) rules)"

fun parse_grants :: "pyval list \<Rightarrow> permission_rule list py" where
  "parse_grants [] = Inr []"
| "parse_grants (g # gs) =
     py_bind (parse_rule False g) (\<lambda>r.
     py_bind (parse_grants gs) (\<lambda>rs.
     Inr (case r of Some rule \<Rightarrow> rule # rs | None \<Rightarrow> rs)))"

definition effective_rules ::
    "overlay_env option \<Rightarrow> pyval list \<Rightarrow> overlay_fs \<Rightarrow> perm_store \<Rightarrow> (permission_rule list \<times> perm_store) py" where
  "effective_rules env session_grants fs st =
     py_bind (load_persisted_rules env fs st) (\<lambda>(persisted, st').
     py_bind (parse_grants session_grants) (\<lambda>grants.
     Inr (map (\<lambda>r. r\<lparr>source := Some ''default''\<rparr>) DEFAULT_RULES
            @ stamp persisted ''overlay'' @ stamp grants ''grant'', st')))"

section \<open>Session state\<close>

definition PERMISSION_GRANTS_STATE_KEY :: string where
  "PERMISSION_GRANTS_STATE_KEY = ''permission_grants''"

definition APPROVAL_MODE_STATE_KEY :: string where
  "APPROVAL_MODE_STATE_KEY = ''approval_mode''"

definition read_session_grants :: "pydict option \<Rightarrow> pyval list" where
  "read_session_grants state =
     (case state of
        None \<Rightarrow> []
      | Some s \<Rightarrow> (case dict_get s PERMISSION_GRANTS_STATE_KEY of PyList gs \<Rightarrow> gs | _ \<Rightarrow> []))"

definition write_session_grants :: "pydict option \<Rightarrow> pyval list \<Rightarrow> bool \<times> pydict option" where
  "write_session_grants state grants =
     (case state of
        None \<Rightarrow> (False, None)
      | Some s \<Rightarrow> (True, Some (dict_set s PERMISSION_GRANTS_STATE_KEY (PyList grants))))"

definition read_approval_mode :: "pydict option \<Rightarrow> string py" where
  "read_approval_mode state =
     (case state of
        None \<Rightarrow> Inr ''default''
      | Some s \<Rightarrow>
          (case dict_get s APPROVAL_MODE_STATE_KEY of
             PyStr m \<Rightarrow> Inr (if m = ''default'' \<or> m = ''yolo'' then m else ''default'')
           | PyList _ \<Rightarrow> Inl (TypeError ''unhashable type'')
           | PyDict _ \<Rightarrow> Inl (TypeError ''unhashable type'')
           | _ \<Rightarrow> Inr ''default''))"

section \<open>Resolution\<close>

lemma resolve_Nil: "resolve_decision re_search [] tn args cmd ag = (AskUser, None)"
  by (simp add: resolve_decision_def)

lemma find_rev_None: "List.find P (rev xs) = None \<longleftrightarrow> \<not> (\<exists>x \<in> set xs. P x)"
  by (auto simp: find_None_iff)

lemma resolve_deny_iff:
  "fst (resolve_decision re_search rules tn args cmd ag) = Deny \<longleftrightarrow>
   (\<exists>r \<in> set rules. rule_matches re_search r tn args cmd ag \<and> rule_decision r = Deny)"
proof -
  define ms where "ms = filter (\<lambda>r. rule_matches re_search r tn args cmd ag) rules"
  have ex: "(\<exists>r \<in> set rules. rule_matches re_search r tn args cmd ag \<and> rule_decision r = Deny) \<longleftrightarrow>
      (\<exists>r \<in> set ms. rule_decision r = Deny)" by (auto simp: ms_def)
  show ?thesis
  proof (cases "List.find (\<lambda>r. rule_decision r = Deny) (rev ms)")
    case None
    then have "\<not> (\<exists>r \<in> set ms. rule_decision r = Deny)" unfolding find_rev_None .
    then show ?thesis using None ex
      by (cases "ms = []") (auto simp: resolve_decision_def Let_def ms_def [symmetric])
  next
    case (Some r)
    then have "\<exists>r \<in> set ms. rule_decision r = Deny"
      using find_rev_None [of "\<lambda>r. rule_decision r = Deny" ms] by simp
    then show ?thesis using Some ex by (simp add: resolve_decision_def Let_def ms_def [symmetric])
  qed
qed

text \<open>Adding a rule of higher precedence: it decides when it matches, unless a deny already
  stands and the rule is not one itself.\<close>

lemma resolve_snoc:
  "resolve_decision re_search (rules @ [r]) tn args cmd ag =
     (if \<not> rule_matches re_search r tn args cmd ag then resolve_decision re_search rules tn args cmd ag
      else if rule_decision r = Deny then (Deny, Some r)
      else if fst (resolve_decision re_search rules tn args cmd ag) = Deny
        then resolve_decision re_search rules tn args cmd ag
      else (rule_decision r, Some r))"
proof -
  have "(\<exists>r \<in> set rules. rule_matches re_search r tn args cmd ag \<and> rule_decision r = Deny) \<longleftrightarrow>
      List.find (\<lambda>r. rule_decision r = Deny)
        (rev (filter (\<lambda>r. rule_matches re_search r tn args cmd ag) rules)) \<noteq> None"
    unfolding find_rev_None by auto
  then show ?thesis
    using resolve_deny_iff [of re_search rules tn args cmd ag]
    by (auto simp: resolve_decision_def Let_def split: option.splits)
qed

section \<open>Prefixes\<close>

lemma positional_tokens_sub:
  "t \<in> set (positional_tokens ts) \<Longrightarrow> t \<in> set ts \<and> \<not> startswith t ''-''"
  by (induction ts) (auto split: if_splits)

lemma significant_token:
  "t \<in> set (significant_tokens seg) \<Longrightarrow> token t \<and> \<not> startswith t ''-''"
  unfolding significant_tokens_def skip_leading_def
  using positional_tokens_sub [of t] set_dropWhileD [of t _ "py_split seg"] py_split_token [of t seg] by blast

text \<open>The prefix proposed for a segment matches that segment.\<close>

lemma prefix_matches_command_prefix:
  assumes "py_strip seg = seg"
  shows "prefix_matches seg (command_prefix seg)"
proof (cases "significant_tokens seg")
  case Nil
  then show ?thesis using assms by (simp add: command_prefix_def prefix_matches_def)
next
  case (Cons b ts)
  have b: "token b" "\<not> startswith b ''-''" using significant_token [of b seg] Cons by simp_all
  show ?thesis
  proof (cases "\<exists>n us. ts = n # us \<and> bare_word b \<and> bare_word n")
    case True
    then obtain n us where ts: "ts = n # us" "bare_word b" "bare_word n" by blast
    have n: "token n" "\<not> startswith n ''-''" using significant_token [of n seg] Cons ts by simp_all
    have "py_split (b @ '' '' @ n) = [b, n]" using py_split_join [of "[b, n]"] b n by simp
    then show ?thesis using Cons ts b n by (simp add: command_prefix_def prefix_matches_def)
  next
    case False
    then have "command_prefix seg = b" using Cons
      by (cases ts) (auto simp: command_prefix_def)
    then show ?thesis using Cons b py_split_single [OF b(1)] by (simp add: prefix_matches_def)
  qed
qed

section \<open>Loading\<close>

lemma parse_rule_list_append:
  "parse_rule_list (xs @ ys) = py_bind (parse_rule_list xs) (\<lambda>rs. py_bind (parse_rule_list ys) (\<lambda>ss. Inr (rs @ ss)))"
proof (induction xs)
  case Nil
  then show ?case by (cases "parse_rule_list ys") simp_all
next
  case (Cons x xs)
  then show ?case
    by (cases "parse_rule False (PyDict x)"; cases "parse_rule_list xs"; cases "parse_rule_list ys")
       (auto split: option.splits)
qed

definition host_coherent :: "string \<Rightarrow> overlay_fs \<Rightarrow> perm_store \<Rightarrow> bool" where
  "host_coherent wd fs st \<longleftrightarrow>
     (cache_hit (perm_cache st) (permission_path wd) (host_mtime fs (permission_path wd)) \<longrightarrow>
      perm_parse_jsonl (host_text fs (permission_path wd)) = Inr (the (cache_rules (perm_cache st))))"

definition sandbox_coherent :: "overlay_env \<Rightarrow> string \<Rightarrow> overlay_fs \<Rightarrow> perm_store \<Rightarrow> bool" where
  "sandbox_coherent env wd fs st \<longleftrightarrow>
     (\<forall>rs. map_of (perm_overlay_cache st) (overlay_cache_key env) = Some rs \<longrightarrow>
      perm_parse_jsonl (read_overlay_text fs env (permission_path wd)) = Inr rs)"

interpretation host_rules: overlay_loader "load_local_rules wd"
  "\<lambda>fs. perm_parse_jsonl (host_text fs (permission_path wd))" "host_coherent wd" for wd
  by unfold_locales (auto simp: load_local_rules_def host_coherent_def cache_hit_def Let_def)

interpretation sandbox_rules: overlay_loader "load_interface_rules env wd"
  "\<lambda>fs. perm_parse_jsonl (read_overlay_text fs env (permission_path wd))" "sandbox_coherent env wd" for env wd
  by unfold_locales (auto simp: load_interface_rules_def sandbox_coherent_def Let_def split: option.splits)

text \<open>Loading twice from the same files gives the same rules, whatever the caches held.\<close>

lemma load_local_again:
  "load_local_rules wd fs st = Inr (rs, st') \<Longrightarrow> \<exists>st''. load_local_rules wd fs st' = Inr (rs, st'')"
  by (cases "perm_parse_jsonl (host_text fs (permission_path wd))")
     (auto simp: load_local_rules_def Let_def cache_hit_def split: if_splits)

lemma load_interface_again:
  "load_interface_rules env wd fs st = Inr (rs, st') \<Longrightarrow>
   \<exists>st''. load_interface_rules env wd fs st' = Inr (rs, st'')"
  by (cases "perm_parse_jsonl (read_overlay_text fs env (permission_path wd))")
     (auto simp: load_interface_rules_def Let_def split: option.splits)

lemma load_persisted_again:
  "load_persisted_rules env fs st = Inr (rs, st') \<Longrightarrow> \<exists>st''. load_persisted_rules env fs st' = Inr (rs, st'')"
  using load_local_again load_interface_again
  by (auto simp: load_persisted_rules_def split: option.splits if_splits)

lemma parse_grants_append:
  "parse_grants (xs @ ys) = py_bind (parse_grants xs) (\<lambda>rs. py_bind (parse_grants ys) (\<lambda>ss. Inr (rs @ ss)))"
proof (induction xs)
  case Nil
  then show ?case by (cases "parse_grants ys") simp_all
next
  case (Cons x xs)
  then show ?case
    by (cases "parse_rule False x"; cases "parse_grants xs"; cases "parse_grants ys")
       (auto split: option.splits)
qed

lemma stamp_append: "stamp (xs @ ys) src = stamp xs src @ stamp ys src"
  by (simp add: stamp_def)

text \<open>One more grant is one more rule of the highest precedence.\<close>

lemma effective_rules_grant:
  assumes "effective_rules env gs fs st = Inr (rules, st')"
    and "parse_rule False g = Inr (Some r)" and "\<not> is_blanket_allow r"
  shows "\<exists>st''. effective_rules env (gs @ [g]) fs st' = Inr (rules @ [r\<lparr>source := Some ''grant''\<rparr>], st'')"
proof -
  obtain ps grants where l: "load_persisted_rules env fs st = Inr (ps, st')" and p: "parse_grants gs = Inr grants"
    and r: "rules = map (\<lambda>r. r\<lparr>source := Some ''default''\<rparr>) DEFAULT_RULES @ stamp ps ''overlay'' @ stamp grants ''grant''"
    using assms(1) by (auto simp: effective_rules_def py_bind_Inr_iff)
  obtain st'' where "load_persisted_rules env fs st' = Inr (ps, st'')" using load_persisted_again [OF l] by blast
  then show ?thesis using p r assms(2,3)
    by (simp add: effective_rules_def parse_grants_append stamp_append) (simp add: stamp_def)
qed

lemma effective_rules_again:
  assumes "effective_rules env gs fs st = Inr (rules, st')"
  shows "\<exists>st''. effective_rules env gs fs st' = Inr (rules, st'')"
proof -
  obtain ps grants where "load_persisted_rules env fs st = Inr (ps, st')" "parse_grants gs = Inr grants"
    "rules = map (\<lambda>r. r\<lparr>source := Some ''default''\<rparr>) DEFAULT_RULES @ stamp ps ''overlay'' @ stamp grants ''grant''"
    using assms by (auto simp: effective_rules_def py_bind_Inr_iff)
  then show ?thesis using load_persisted_again by (fastforce simp: effective_rules_def)
qed

section \<open>Appending\<close>

definition overlay_text :: "overlay_env \<Rightarrow> string \<Rightarrow> overlay_fs \<Rightarrow> string" where
  "overlay_text env wd fs =
     (if on_host_fs env then host_text fs (permission_path wd)
      else read_overlay_text fs env (permission_path wd))"

lemma append_persisted_text:
  assumes "working_dir env = Some wd" and "append_persisted_rule env rule now fs st = Inr (fs', st')"
  shows "overlay_text env wd fs' =
           overlay_text env wd fs @ json_dumps json_default_opts (PyDict rule) @ [NL]"
    and "on_host_fs env \<Longrightarrow> host_coherent wd fs' st'"
    and "\<not> on_host_fs env \<Longrightarrow> sandbox_coherent env wd fs' st'"
  using assms
  by (auto simp: append_persisted_rule_def Let_def overlay_text_def host_text_def host_coherent_def
      cache_hit_def read_overlay_text_def env_read_file_def sandbox_coherent_def
      split: if_splits read_result.splits simp del: json_dumps.simps)

lemma perm_parse_append:
  assumes "whole_lines text" "json_exact (PyDict rule)" "perm_parse_jsonl text = Inr rs"
    and "parse_rule False (PyDict rule) = Inr (Some r)"
  shows "perm_parse_jsonl (text @ json_dumps json_default_opts (PyDict rule) @ [NL]) = Inr (rs @ [r])"
  using assms(3,4) iter_jsonl_objects_append_line [OF assms(1,2)]
  by (simp add: perm_parse_jsonl_def parse_rule_list_append del: json_dumps.simps)

lemma load_persisted_by_backend:
  assumes "working_dir env = Some wd"
  shows "load_persisted_rules (Some env) =
           (if on_host_fs env then load_local_rules wd else load_interface_rules env wd)"
  using assms by (auto simp: load_persisted_rules_def fun_eq_iff)

text \<open>A tenant's cache entry and files are untouched by another tenant's calls.\<close>

lemma load_interface_other:
  assumes "overlay_cache_key e1 \<noteq> overlay_cache_key e2"
    and "load_interface_rules e1 wd1 fs st = Inr (rs, st')"
  shows "map_of (perm_overlay_cache st') (overlay_cache_key e2) = map_of (perm_overlay_cache st) (overlay_cache_key e2)"
  using assms by (auto simp: load_interface_rules_def Let_def py_bind_Inr_iff split: option.splits)

lemma load_interface_value:
  "map_sum id fst (load_interface_rules env wd fs st) =
     (case map_of (perm_overlay_cache st) (overlay_cache_key env) of
        Some rs \<Rightarrow> Inr rs
      | None \<Rightarrow> perm_parse_jsonl (read_overlay_text fs env (permission_path wd)))"
  by (cases "perm_parse_jsonl (read_overlay_text fs env (permission_path wd))")
     (auto simp: load_interface_rules_def Let_def split: option.splits)

lemma append_other:
  assumes "overlay_cache_key e1 \<noteq> overlay_cache_key e2" "\<not> on_host_fs e1"
    and "append_persisted_rule e1 rule now fs st = Inr (fs', st')"
  shows "map_of (perm_overlay_cache st') (overlay_cache_key e2) = map_of (perm_overlay_cache st) (overlay_cache_key e2)"
    and "read_overlay_text fs' e2 path = read_overlay_text fs e2 path"
  using assms
  by (auto simp: append_persisted_rule_def Let_def read_overlay_text_def env_read_file_def
      split: option.splits read_result.splits simp del: json_dumps.simps)

lemma load_after_append:
  assumes "working_dir env = Some wd" and "whole_lines (overlay_text env wd fs)"
    and "json_exact (PyDict rule)"
    and "perm_parse_jsonl (overlay_text env wd fs) = Inr rs"
    and "parse_rule False (PyDict rule) = Inr (Some r)"
    and "append_persisted_rule env rule now fs st = Inr (fs', st')"
  shows "map_sum id fst (load_times (load_persisted_rules (Some env)) fs' n st') = Inr (rs @ [r])"
proof -
  note app = append_persisted_text [OF assms(1,6)]
  have "perm_parse_jsonl (overlay_text env wd fs') = Inr (rs @ [r])"
    unfolding app(1) by (rule perm_parse_append [OF assms(2-5)])
  then show ?thesis
    unfolding load_persisted_by_backend [OF assms(1)] overlay_text_def
    using host_rules.load_times_value [OF app(2)] sandbox_rules.load_times_value [OF app(3)]
    by (cases "on_host_fs env") simp_all
qed

text \<open>No files and empty caches, for the concrete runs below.\<close>

definition no_files :: overlay_fs where
  "no_files = \<lparr>host_files = (\<lambda>_. RNotFound), host_mtime = (\<lambda>_. None), env_files = (\<lambda>_ _. RNotFound)\<rparr>"

definition fresh_perm_store :: perm_store where
  "fresh_perm_store =
     \<lparr>perm_cache = \<lparr>cache_path = None, cache_mtime = None, cache_rules = None\<rparr>, perm_overlay_cache = []\<rparr>"

definition sandbox_env :: "string \<Rightarrow> overlay_env" where
  "sandbox_env name = \<lparr>working_dir = Some ''/workspace'', on_host_fs = False, cache_identity = Some name\<rparr>"

section \<open>Properties\<close>

text \<open>Deny wins, otherwise the last match wins: the decision is a denial exactly when some
  matching rule denies; without rules it is \<open>ask_user\<close>; and a rule added at the end (the
  highest precedence) decides whenever it matches, except that it cannot lift a denial.\<close>

theorem resolve_decision_deny_wins_then_last_match:
  "(fst (resolve_decision re_search rules tn args cmd ag) = Deny \<longleftrightarrow>
      (\<exists>r \<in> set rules. rule_matches re_search r tn args cmd ag \<and> rule_decision r = Deny)) \<and>
   resolve_decision re_search [] tn args cmd ag = (AskUser, None) \<and>
   resolve_decision re_search (rules @ [r]) tn args cmd ag =
     (if \<not> rule_matches re_search r tn args cmd ag then resolve_decision re_search rules tn args cmd ag
      else if rule_decision r = Deny then (Deny, Some r)
      else if fst (resolve_decision re_search rules tn args cmd ag) = Deny
        then resolve_decision re_search rules tn args cmd ag
      else (rule_decision r, Some r))"
  using resolve_deny_iff resolve_Nil resolve_snoc by blast

text \<open>A tenant's allow rule for a shell tool is always narrowed: among the rules in force,
  one that names \<open>bash\<close> or \<open>process\<close> and allows, and that comes from the overlay file or a
  session grant, has a command prefix, a command pattern or an argument pattern.\<close>

theorem tenant_shell_allow_is_narrowed:
  assumes "effective_rules env grants fs st = Inr (rules, st')"
    and "r \<in> set rules" and "source r \<noteq> Some ''default''" and "rule_decision r = Allow"
    and "BASH \<in> set (tool_names r) \<or> PROCESS \<in> set (tool_names r)"
  shows "source r \<in> {Some ''overlay'', Some ''grant''} \<and>
    (command_prefixes r \<noteq> [] \<or> command_regex r \<noteq> None \<or> args_pattern r \<noteq> None)"
proof -
  obtain ps gs where
    "rules = map (\<lambda>r. r\<lparr>source := Some ''default''\<rparr>) DEFAULT_RULES @ stamp ps ''overlay'' @ stamp gs ''grant''"
    using assms(1) by (auto simp: effective_rules_def py_bind_Inr_iff)
  with assms(2,3) obtain r0 src where r0: "\<not> is_blanket_allow r0" "r = r0\<lparr>source := Some src\<rparr>"
    and src: "src = ''overlay'' \<or> src = ''grant''"
    by (auto simp: stamp_def)
  with assms(4,5) show ?thesis
    by (auto simp: is_blanket_allow_def TOOLS_REQUIRING_NARROWING_def list_ex_iff)
qed

theorem tenant_shell_allow_is_narrowed_witness:
  "\<exists>rules st' r. effective_rules None [PyDict [(''toolName'', PyStr ''terminal''),
        (''decision'', PyStr ''allow''), (''commandPrefix'', PyStr ''git push'')]] no_files fresh_perm_store
      = Inr (rules, st') \<and> r \<in> set rules \<and> source r = Some ''grant'' \<and> BASH \<in> set (tool_names r) \<and>
      (command_prefixes r \<noteq> [] \<or> command_regex r \<noteq> None \<or> args_pattern r \<noteq> None)"
proof -
  let ?g = "PyDict [(''toolName'', PyStr ''terminal''), (''decision'', PyStr ''allow''),
    (''commandPrefix'', PyStr ''git push'')]"
  let ?r = "\<lparr>tool_names = [''bash''], command_prefixes = [''git push''], command_regex = None,
    args_pattern = None, rule_decision = Allow, deny_message = None, subagent = None, source = None\<rparr>"
  let ?r' = "?r\<lparr>source := Some ''grant''\<rparr>"
  have "parse_rule False ?g = Inr (Some ?r)" by code_simp
  moreover have "\<not> is_blanket_allow ?r" by code_simp
  ultimately obtain rules where e: "effective_rules None [?g] no_files fresh_perm_store = Inr (rules, fresh_perm_store)"
    and m: "?r' \<in> set rules"
    by (simp add: effective_rules_def load_persisted_rules_def stamp_def)
  have "source ?r' \<noteq> Some ''default''" "rule_decision ?r' = Allow" "BASH \<in> set (tool_names ?r') \<or> PROCESS \<in> set (tool_names ?r')"
    by (simp_all add: BASH_def)
  from tenant_shell_allow_is_narrowed [OF e m this] e m show ?thesis by (fastforce simp: BASH_def)
qed

text \<open>C5: An approved rule sticks: after a rule the parser accepts has been appended to an overlay
  file that is empty or ends in a line feed, on either backend and whatever the caches held
  before, every later load answers the rules the file had, followed by the new one.\<close>

theorem appended_rule_is_loaded:
  assumes "working_dir env = Some wd" and "whole_lines (overlay_text env wd fs)"
    and "json_exact (PyDict rule)"
    and "perm_parse_jsonl (overlay_text env wd fs) = Inr rs"
    and "parse_rule False (PyDict rule) = Inr (Some r)"
    and "append_persisted_rule env rule now fs st = Inr (fs', st')"
  shows "map_sum id fst (load_times (load_persisted_rules (Some env)) fs' n st') = Inr (rs @ [r])"
  by (rule load_after_append [OF assms])

theorem appended_rule_is_loaded_witness:
  "\<exists>fs' st'. append_persisted_rule (sandbox_env ''a'') [(''toolName'', PyStr ''bash''), (''decision'', PyStr ''deny'')]
      5 no_files fresh_perm_store = Inr (fs', st') \<and>
    map_sum id fst (load_times (load_persisted_rules (Some (sandbox_env ''a''))) fs' 3 st') =
      Inr [\<lparr>tool_names = [''bash''], command_prefixes = [], command_regex = None, args_pattern = None,
            rule_decision = Deny, deny_message = None, subagent = None, source = None\<rparr>]"
proof -
  let ?e = "sandbox_env ''a''" and ?rule = "[(''toolName'', PyStr ''bash''), (''decision'', PyStr ''deny'')]"
  let ?r = "\<lparr>tool_names = [''bash''], command_prefixes = [], command_regex = None, args_pattern = None,
            rule_decision = Deny, deny_message = None, subagent = None, source = None\<rparr>"
  obtain fs' st' where a: "append_persisted_rule ?e ?rule 5 no_files fresh_perm_store = Inr (fs', st')"
    by (simp add: append_persisted_rule_def sandbox_env_def no_files_def env_read_file_def Let_def)
  have t: "overlay_text ?e ''/workspace'' no_files = []"
    by (simp add: overlay_text_def sandbox_env_def read_overlay_text_def env_read_file_def no_files_def)
  have w: "working_dir ?e = Some ''/workspace''" by (simp add: sandbox_env_def)
  have wl: "whole_lines (overlay_text ?e ''/workspace'' no_files)" by (simp add: t whole_lines_def)
  have j: "json_exact (PyDict ?rule)" by simp
  have p: "perm_parse_jsonl (overlay_text ?e ''/workspace'' no_files) = Inr []" unfolding t by code_simp
  have r: "parse_rule False (PyDict ?rule) = Inr (Some ?r)" by code_simp
  from appended_rule_is_loaded [OF w wl j p r a, of 3] a show ?thesis by auto
qed

text \<open>The line feed matters: appended to a file whose last line has none, the rule is glued to that
  line, which then is no JSON, so both rules are lost: here a denial of \<open>bash\<close> is in force before
  a rule for another tool is approved, and no rule at all afterwards.\<close>

definition unterminated_file :: overlay_fs where
  "unterminated_file = no_files\<lparr>env_files := (\<lambda>_ _. RText
     (json_dumps json_default_opts (PyDict [(''toolName'', PyStr ''bash''), (''decision'', PyStr ''deny'')])))\<rparr>"

lemma append_after_unterminated_line:
  "\<exists>fs' st'. append_persisted_rule (sandbox_env ''a'') [(''toolName'', PyStr ''edit''), (''decision'', PyStr ''allow'')]
      5 unterminated_file fresh_perm_store = Inr (fs', st') \<and>
    map_sum id (map rule_decision \<circ> fst)
      (load_persisted_rules (Some (sandbox_env ''a'')) unterminated_file fresh_perm_store) = Inr [Deny] \<and>
    map_sum id fst (load_persisted_rules (Some (sandbox_env ''a'')) fs' st') = Inr []"
proof -
  let ?e = "sandbox_env ''a''" and ?rule = "[(''toolName'', PyStr ''edit''), (''decision'', PyStr ''allow'')]"
  have w: "working_dir ?e = Some ''/workspace''" and h: "\<not> on_host_fs ?e" by (simp_all add: sandbox_env_def)
  have t: "overlay_text ?e ''/workspace'' unterminated_file = json_dumps json_default_opts
      (PyDict [(''toolName'', PyStr ''bash''), (''decision'', PyStr ''deny'')])"
    by (simp add: overlay_text_def sandbox_env_def read_overlay_text_def env_read_file_def
        unterminated_file_def no_files_def)
  obtain fs' st' where a: "append_persisted_rule ?e ?rule 5 unterminated_file fresh_perm_store = Inr (fs', st')"
    by (simp add: append_persisted_rule_def sandbox_env_def unterminated_file_def no_files_def
        env_read_file_def Let_def)
  note app = append_persisted_text [OF w a]
  have glued: "perm_parse_jsonl (json_dumps json_default_opts
        (PyDict [(''toolName'', PyStr ''bash''), (''decision'', PyStr ''deny'')]) @
      json_dumps json_default_opts (PyDict ?rule) @ [NL]) = Inr []" by code_simp
  have "map_sum id fst (load_times (load_persisted_rules (Some ?e)) fs' 0 st') = Inr []"
    using sandbox_rules.load_times_value [OF app(3) [OF h], of 0] glued app(1) t h
    by (simp add: load_persisted_by_backend [OF w] overlay_text_def)
  moreover have "map_sum id (map rule_decision \<circ> fst)
      (load_persisted_rules (Some ?e) unterminated_file fresh_perm_store) = Inr [Deny]" by code_simp
  ultimately show ?thesis using a by auto
qed

text \<open>Sandboxed tenants do not see each other's rules: with different cache identities,
  neither a load nor an append by one changes what the other loads, even though both use the
  same working directory.\<close>

theorem sandbox_tenants_are_isolated:
  assumes "overlay_cache_key e1 \<noteq> overlay_cache_key e2" and "\<not> on_host_fs e1" and "\<not> on_host_fs e2"
    and "load_persisted_rules (Some e1) fs st = Inr (rs, st1)"
    and "append_persisted_rule e1 rule now fs st1 = Inr (fs2, st2)"
  shows "map_sum id fst (load_persisted_rules (Some e2) fs st1) = map_sum id fst (load_persisted_rules (Some e2) fs st) \<and>
    map_sum id fst (load_persisted_rules (Some e2) fs2 st2) = map_sum id fst (load_persisted_rules (Some e2) fs st)"
proof (cases "working_dir e2")
  case None
  then show ?thesis by (simp add: load_persisted_rules_def)
next
  case (Some wd2)
  have c1: "map_of (perm_overlay_cache st1) (overlay_cache_key e2) = map_of (perm_overlay_cache st) (overlay_cache_key e2)"
    using assms(2,4) load_interface_other [OF assms(1)]
    by (auto simp: load_persisted_rules_def split: option.splits)
  note a = append_other [OF assms(1,2,5)]
  show ?thesis using Some assms(3) c1 a
    by (simp add: load_persisted_by_backend load_interface_value split: option.split)
qed

theorem sandbox_tenants_are_isolated_witness:
  "\<exists>fs2 st2. append_persisted_rule (sandbox_env ''a'') [(''toolName'', PyStr ''bash''), (''decision'', PyStr ''deny'')]
      5 no_files fresh_perm_store = Inr (fs2, st2) \<and>
    map_sum id fst (load_persisted_rules (Some (sandbox_env ''b'')) fs2 st2) =
    map_sum id fst (load_persisted_rules (Some (sandbox_env ''b'')) no_files fresh_perm_store)"
proof -
  let ?st = "fresh_perm_store\<lparr>perm_overlay_cache := [(''a'', [])]\<rparr>"
  let ?rule = "[(''toolName'', PyStr ''bash''), (''decision'', PyStr ''deny'')]"
  have k: "overlay_cache_key (sandbox_env ''a'') \<noteq> overlay_cache_key (sandbox_env ''b'')"
    by (simp add: overlay_cache_key_def sandbox_env_def)
  have h: "\<not> on_host_fs (sandbox_env n)" for n by (simp add: sandbox_env_def)
  have p: "perm_parse_jsonl [] = Inr []" by code_simp
  have l: "load_persisted_rules (Some (sandbox_env ''a'')) no_files fresh_perm_store = Inr ([], ?st)"
    by (simp add: load_persisted_rules_def sandbox_env_def load_interface_rules_def fresh_perm_store_def
        overlay_cache_key_def read_overlay_text_def env_read_file_def no_files_def p)
  obtain fs2 st2 where a: "append_persisted_rule (sandbox_env ''a'') ?rule 5 no_files ?st = Inr (fs2, st2)"
    and b: "append_persisted_rule (sandbox_env ''a'') ?rule 5 no_files fresh_perm_store = Inr (fs2, st2)"
    by (simp add: append_persisted_rule_def sandbox_env_def no_files_def env_read_file_def Let_def
        fresh_perm_store_def overlay_cache_key_def dict_pop_def)
  from sandbox_tenants_are_isolated [OF k h h l a] b show ?thesis by auto
qed

end
