(* ===== verification/Permission_Guard.thy ===== *)
theory Permission_Guard
  imports Permission_Rules Command_Safety
begin

text \<open>
  The permission gate (\<open>guardrails/permission_guard.py\<close>) with the confirmation helper it
  uses (\<open>tools/_hitl.py\<close>). The tool context holds what the gate reads and changes of it: the
  session state, the agent name, the answer of the user if there is one, the confirmation
  requests dispatched and the flag that keeps the pending response from being paraphrased.
  The context variable for headless runs is an argument.
\<close>

section \<open>Tool context and confirmation requests\<close>

record confirmation =
  confirmed :: bool
  conf_payload :: pyval

record tool_context =
  tc_state :: "pydict option"
  tc_agent_name :: "string option"
  tool_confirmation :: "confirmation option"
  tc_requests :: "(string \<times> pydict) list"
  skip_summarization :: bool

definition request_user_confirmation ::
    "tool_context \<Rightarrow> string \<Rightarrow> pydict \<Rightarrow> confirmation option \<times> tool_context" where
  "request_user_confirmation tc hint payload =
     (case tool_confirmation tc of
        Some c \<Rightarrow> (Some c, tc)
      | None \<Rightarrow> (None, tc\<lparr>tc_requests := tc_requests tc @ [(hint, payload)], skip_summarization := True\<rparr>))"

section \<open>Headless mode\<close>

text \<open>Setting the context variable returns a token for the old value; resetting restores it.\<close>

definition set_headless_mode :: "bool \<Rightarrow> bool \<Rightarrow> bool \<times> bool" where
  "set_headless_mode value current = (current, value)"

definition reset_headless_mode :: "bool \<Rightarrow> bool \<Rightarrow> bool" where
  "reset_headless_mode saved current = saved"

section \<open>Classification of tools\<close>

definition READ_ONLY_TOOLS :: "string list" where
  "READ_ONLY_TOOLS = [READ, SEARCH_FILES, PRELOAD_MEMORY, LOAD_SKILL, WEB_RESEARCH]"

definition SELF_CONFIRMING_TOOLS :: "string list" where
  "SELF_CONFIRMING_TOOLS = [CLARIFY]"

definition SUBAGENT_TOOLS :: "string list" where
  "SUBAGENT_TOOLS = [SUBAGENT]"

definition is_memory_search :: "string \<Rightarrow> pyval \<Rightarrow> bool" where
  "is_memory_search tool_name args \<longleftrightarrow> tool_name = MEMORY \<and>
     (case args of PyDict d \<Rightarrow> dict_get d ''action'' = PyStr ''search'' | _ \<Rightarrow> False)"

definition shell_command :: "string \<Rightarrow> pyval \<Rightarrow> string option" where
  "shell_command tool_name args = (case args of
       PyDict d \<Rightarrow>
         if tool_name = BASH then as_str (dict_get d ''command'')
         else if tool_name = PROCESS \<and> dict_get d ''action'' = PyStr ''write'' then as_str (dict_get d ''data'')
         else if tool_name = PROCESS \<and> dict_get d ''action'' = PyStr ''spawn'' then as_str (dict_get d ''command'')
         else None
     | _ \<Rightarrow> None)"

section \<open>The decision\<close>

text \<open>What the loop body makes of one segment.\<close>

definition segment_decision ::
    "(string \<Rightarrow> string \<Rightarrow> bool option) \<Rightarrow> permission_rule list \<Rightarrow> string \<Rightarrow> string option \<Rightarrow> string \<Rightarrow>
     decision \<times> permission_rule option" where
  "segment_decision re_search rules tool_name agent_name seg =
     (let (d, r) = resolve_decision re_search rules tool_name (PyDict [(''command'', PyStr seg)]) (Some seg) agent_name;
          (d, r) = (if d = Allow \<and> has_command_substitution seg then (AskUser, None) else (d, r));
          (d, r) = (if d = Allow \<and> (case r of None \<Rightarrow> True
                        | Some rule \<Rightarrow> source rule \<notin> {Some ''grant'', Some ''overlay''})
                    then (case classify seg of
                            Some (t, _) \<Rightarrow> if t = TAsk then (AskUser, None) else (d, r)
                          | None \<Rightarrow> (d, r))
                    else (d, r))
      in (d, r))"

fun shell_loop ::
    "(string \<Rightarrow> decision \<times> permission_rule option) \<Rightarrow> permission_rule option \<Rightarrow> string list \<Rightarrow> string list \<Rightarrow>
     permission_rule option \<times> string list" where
  "shell_loop decide deny_rule ask_prefixes [] = (deny_rule, ask_prefixes)"
| "shell_loop decide deny_rule ask_prefixes (seg # segs) =
     (let (d, r) = decide seg in
      if d = Deny then shell_loop decide r ask_prefixes segs
      else if d \<noteq> Allow then shell_loop decide deny_rule (ask_prefixes @ [command_prefix seg]) segs
      else shell_loop decide deny_rule ask_prefixes segs)"

definition shell_segments :: "string \<Rightarrow> string list" where
  "shell_segments command =
     (let segs = split_segments (strip_wrapper command) in if segs = [] then [py_strip command] else segs)"

definition shell_decision ::
    "(string \<Rightarrow> string \<Rightarrow> bool option) \<Rightarrow> permission_rule list \<Rightarrow> string \<Rightarrow> string \<Rightarrow> string option \<Rightarrow>
     decision \<times> permission_rule option \<times> string list" where
  "shell_decision re_search rules tool_name command agent_name =
     (let (deny_rule, ask_prefixes) =
        shell_loop (segment_decision re_search rules tool_name agent_name) None [] (shell_segments command)
      in if deny_rule \<noteq> None then (Deny, deny_rule, [])
         else if ask_prefixes \<noteq> [] then (AskUser, None, dedup ask_prefixes)
         else (Allow, None, []))"

definition resolve_permission_decision ::
    "(string \<Rightarrow> string \<Rightarrow> bool option) \<Rightarrow> overlay_env option \<Rightarrow> string \<Rightarrow> pyval \<Rightarrow> pydict option \<Rightarrow> string option \<Rightarrow>
     overlay_fs \<Rightarrow> perm_store \<Rightarrow>
     ((decision \<times> permission_rule option \<times> string list option \<times> string option) \<times> perm_store) py" where
  "resolve_permission_decision re_search env tool_name args state agent_name fs st =
     (let command = shell_command tool_name args in
      py_bind (effective_rules env (read_session_grants state) fs st) (\<lambda>(rules, st').
        case command of
          Some c \<Rightarrow>
            (let (d, deny_rule, ask_prefixes) = shell_decision re_search rules tool_name c agent_name
             in Inr ((d, deny_rule, if ask_prefixes = [] then None else Some ask_prefixes, command), st'))
        | None \<Rightarrow>
            (let (d, matched) = resolve_decision re_search rules tool_name args None agent_name
             in Inr ((d, if d = Deny then matched else None, None, command), st'))))"

section \<open>The answer of the user\<close>

definition index_of :: "string \<Rightarrow> string list \<Rightarrow> nat" where
  "index_of x xs = length (takeWhile (\<lambda>y. y \<noteq> x) xs)"

definition resolve_outcome :: "pyval \<Rightarrow> (string \<times> string) list \<Rightarrow> string py" where
  "resolve_outcome payload ordered_outcomes =
     (let keys = map fst ordered_outcomes; labels = map snd ordered_outcomes in
      case payload of
        PyDict d \<Rightarrow>
          (case (case dict_get d ''outcome'' of PyStr e \<Rightarrow> if e \<in> set keys then Some e else None | _ \<Rightarrow> None) of
             Some e \<Rightarrow> Inr e
           | None \<Rightarrow>
               (case (if truthy (dict_get d ''choice'') then dict_get d ''choice'' else dict_get d ''answer'') of
                  PyStr s \<Rightarrow>
                    (let c = py_strip s in
                     if c \<in> set labels then Inr (keys ! index_of c labels)
                     else if py_isdigit c then
                       py_bind (py_int (PyStr c)) (\<lambda>i.
                         if 0 \<le> i \<and> i < int (length keys) then Inr (keys ! nat i)
                         else Inr ''proceed_always'')
                     else Inr ''proceed_always'')
                | _ \<Rightarrow> Inr ''proceed_always''))
      | _ \<Rightarrow> Inr ''proceed_always'')"

section \<open>The guard\<close>

definition permission_outcomes :: "string \<Rightarrow> (string \<times> string) list" where
  "permission_outcomes label_target =
     [(''proceed_once'', ''Yes, once''),
      (''proceed_always'', ''Yes '' @ EMDASH @ '' allow '' @ label_target @ '' this session''),
      (''proceed_always_and_save'', ''Always allow '' @ label_target),
      (''cancel'', ''Decline'')]"

definition permission_denied_response :: "string \<Rightarrow> permission_rule option \<Rightarrow> pydict" where
  "permission_denied_response tool_name deny_rule =
     (let src = (case deny_rule of
                   Some r \<Rightarrow> (case source r of
                       Some s \<Rightarrow> if s = [] then [] else '' ['' @ s @ '']'' | None \<Rightarrow> [])
                 | None \<Rightarrow> []);
          default = ''tool call denied by permission rule'' @ src @ '': '' @ tool_name;
          msg = (case deny_rule of
                   Some r \<Rightarrow> (case deny_message r of Some m \<Rightarrow> if m = [] then default else m | None \<Rightarrow> default)
                 | None \<Rightarrow> default)
      in [(''error'', PyStr msg), (''permission_denied'', PyBool True)])"

definition headless_denied_response :: "string \<Rightarrow> pydict" where
  "headless_denied_response tool_name =
     [(''error'', PyStr (''This '' @ tool_name @ '' call needs approval, but no user is present ''
         @ ''(headless routine run). Auto-denied '' @ EMDASH @ '' design the task to avoid ''
         @ ''operations that require approval.'')),
      (''permission_denied'', PyBool True), (''headless_denied'', PyBool True)]"

definition permission_pending_response :: "string \<Rightarrow> pydict" where
  "permission_pending_response tool_name =
     [(''error'', PyStr (''This '' @ tool_name @ '' call requires user approval. Awaiting confirmation.'')),
      (''confirmation_required'', PyBool True)]"

definition permission_declined_response :: "string \<Rightarrow> pydict" where
  "permission_declined_response tool_name =
     [(''error'', PyStr (''User declined the '' @ tool_name @ '' call.'')), (''permission_denied'', PyBool True)]"

definition proposed_rule :: "string \<Rightarrow> string list option \<Rightarrow> pydict" where
  "proposed_rule tool_name proposed_prefix =
     [(''toolName'', PyStr tool_name), (''decision'', PyStr ''allow'')] @
     (case proposed_prefix of None \<Rightarrow> [] | Some ps \<Rightarrow> [(''commandPrefix'', PyList (map PyStr ps))])"

definition label_target :: "string \<Rightarrow> string list option \<Rightarrow> string" where
  "label_target tool_name proposed_prefix =
     (case proposed_prefix of None \<Rightarrow> tool_name
      | Some ps \<Rightarrow> py_join '', '' (map (\<lambda>p. [BTICK] @ p @ [BTICK]) ps))"

text \<open>Everything a gate call reads and leaves behind.\<close>

record gate_world =
  gw_context :: tool_context
  gw_fs :: overlay_fs
  gw_store :: perm_store

text \<open>What the guard does with an answered confirmation.\<close>

definition permission_answer ::
    "overlay_env option \<Rightarrow> rat \<Rightarrow> string \<Rightarrow> pydict \<Rightarrow> (string \<times> string) list \<Rightarrow> confirmation \<Rightarrow> gate_world \<Rightarrow>
     (pydict option \<times> gate_world) py" where
  "permission_answer env now tool_name rule ordered_outcomes c w =
     (if \<not> confirmed c then Inr (Some (permission_declined_response tool_name), w)
      else
        py_bind (resolve_outcome (conf_payload c) ordered_outcomes) (\<lambda>outcome.
        if outcome = ''cancel'' then Inr (Some (permission_declined_response tool_name), w)
        else if outcome = ''proceed_always'' then
          (let state = tc_state (gw_context w)
           in Inr (None, w\<lparr>gw_context := (gw_context w)\<lparr>tc_state :=
                snd (write_session_grants state (read_session_grants state @ [PyDict rule]))\<rparr>\<rparr>))
        else if outcome = ''proceed_always_and_save'' then
          (case env of
             None \<Rightarrow> Inr (None, w)
           | Some e \<Rightarrow>
               py_bind (append_persisted_rule e rule now (gw_fs w) (gw_store w)) (\<lambda>(fs', st'').
               Inr (None, w\<lparr>gw_fs := fs', gw_store := st''\<rparr>)))
        else Inr (None, w)))"

text \<open>The part of the guard for the decision \<open>ask_user\<close>.\<close>

definition permission_ask ::
    "bool \<Rightarrow> overlay_env option \<Rightarrow> rat \<Rightarrow> string \<Rightarrow> string list option \<Rightarrow> string option \<Rightarrow> gate_world \<Rightarrow>
     (pydict option \<times> gate_world) py" where
  "permission_ask headless env now tool_name proposed_prefix command w =
     py_bind (read_approval_mode (tc_state (gw_context w))) (\<lambda>mode.
     if mode = ''yolo'' \<and> \<not> headless then Inr (None, w)
     else if headless then
       (if command \<noteq> None then Inr (None, w)
        else Inr (Some (headless_denied_response tool_name), w))
     else
       let rule = proposed_rule tool_name proposed_prefix;
           summary = (case command of Some c \<Rightarrow> ''Run: '' @ c | None \<Rightarrow> ''Allow tool: '' @ tool_name);
           ordered_outcomes = permission_outcomes (label_target tool_name proposed_prefix);
           payload = [(''kind'', PyStr ''permission''), (''toolName'', PyStr tool_name),
                      (''summary'', PyStr summary), (''proposedRule'', PyDict rule),
                      (''question'', PyStr summary),
                      (''choices'', PyList (map (\<lambda>(_, lab). PyStr lab) ordered_outcomes))];
           (answer, tc') = request_user_confirmation (gw_context w) summary payload;
           w = w\<lparr>gw_context := tc'\<rparr>
       in case answer of
            None \<Rightarrow> Inr (Some (permission_pending_response tool_name), w)
          | Some c \<Rightarrow> permission_answer env now tool_name rule ordered_outcomes c w)"

definition permission_guard ::
    "(string \<Rightarrow> string \<Rightarrow> bool option) \<Rightarrow> bool \<Rightarrow> overlay_env option \<Rightarrow> rat \<Rightarrow> string \<Rightarrow> pyval \<Rightarrow> gate_world \<Rightarrow>
     (pydict option \<times> gate_world) py" where
  "permission_guard re_search headless env now tool_name args w =
     (let tc = gw_context w in
      if tool_name = [] \<or> tool_name \<in> set READ_ONLY_TOOLS \<or> is_memory_search tool_name args
         \<or> tool_name \<in> set SELF_CONFIRMING_TOOLS \<or> tool_name \<in> set SUBAGENT_TOOLS
      then Inr (None, w)
      else
        py_bind (resolve_permission_decision re_search env tool_name args (tc_state tc) (tc_agent_name tc) (gw_fs w) (gw_store w))
          (\<lambda>((d, deny_rule, proposed_prefix, command), st').
        let w = w\<lparr>gw_store := st'\<rparr> in
        case d of
          Allow \<Rightarrow> Inr (None, w)
        | Deny \<Rightarrow> Inr (Some (permission_denied_response tool_name deny_rule), w)
        | AskUser \<Rightarrow> permission_ask headless env now tool_name proposed_prefix command w))"

section \<open>Segments\<close>

lemma segment_decision_Deny_iff:
  "fst (segment_decision re_search rules tn ag seg) = Deny \<longleftrightarrow>
   fst (resolve_decision re_search rules tn (PyDict [(''command'', PyStr seg)]) (Some seg) ag) = Deny"
  by (auto simp: segment_decision_def Let_def split: prod.splits option.splits if_splits)

lemma resolve_Deny_rule:
  "fst (resolve_decision re_search rules tn args cmd ag) = Deny \<Longrightarrow>
   snd (resolve_decision re_search rules tn args cmd ag) \<noteq> None"
  by (auto simp: resolve_decision_def Let_def split: option.splits if_splits)

lemma segment_decision_Deny_rule:
  "fst (segment_decision re_search rules tn ag seg) = Deny \<Longrightarrow>
   snd (segment_decision re_search rules tn ag seg) \<noteq> None"
  using resolve_Deny_rule [of re_search rules tn "PyDict [(''command'', PyStr seg)]" "Some seg" ag]
  by (auto simp: segment_decision_def Let_def split: prod.splits option.splits if_splits)

definition user_approved :: "permission_rule option \<Rightarrow> bool" where
  "user_approved r \<longleftrightarrow> (\<exists>rule. r = Some rule \<and> source rule \<in> {Some ''grant'', Some ''overlay''})"

definition flagged_ask :: "string \<Rightarrow> bool" where
  "flagged_ask seg \<longleftrightarrow> (\<exists>why. classify seg = Some (TAsk, why))"

lemma segment_decision_Allow_iff:
  "fst (segment_decision re_search rules tn ag seg) = Allow \<longleftrightarrow>
     (let (d, r) = resolve_decision re_search rules tn (PyDict [(''command'', PyStr seg)]) (Some seg) ag
      in d = Allow \<and> \<not> has_command_substitution seg \<and> (user_approved r \<or> \<not> flagged_ask seg))"
  by (auto simp: segment_decision_def Let_def user_approved_def flagged_ask_def
      split: prod.splits option.splits if_splits)

lemma shell_loop_spec:
  "shell_loop decide dr ap segs =
     (case filter (\<lambda>s. fst (decide s) = Deny) segs of [] \<Rightarrow> dr | ds \<Rightarrow> snd (decide (last ds)),
      ap @ map command_prefix (filter (\<lambda>s. fst (decide s) = AskUser) segs))"
proof (induction segs arbitrary: dr ap)
  case (Cons s segs)
  obtain d r where d: "decide s = (d, r)" by (cases "decide s")
  show ?case using Cons d by (cases d) (auto split: list.split)
qed simp

lemma shell_decision_cases:
  fixes command
  defines "segs \<equiv> shell_segments command"
  shows "fst (shell_decision re_search rules tn command ag) = Deny \<longleftrightarrow>
           (\<exists>s \<in> set segs. fst (segment_decision re_search rules tn ag s) = Deny)"
    and "fst (shell_decision re_search rules tn command ag) = Allow \<longleftrightarrow>
           (\<forall>s \<in> set segs. fst (segment_decision re_search rules tn ag s) = Allow)"
    and "fst (shell_decision re_search rules tn command ag) \<noteq> Deny \<Longrightarrow>
         snd (snd (shell_decision re_search rules tn command ag)) =
           dedup (map command_prefix (filter (\<lambda>s. fst (segment_decision re_search rules tn ag s) = AskUser) segs))"
proof -
  let ?d = "segment_decision re_search rules tn ag"
  let ?dn = "filter (\<lambda>s. fst (?d s) = Deny) segs" and ?ak = "filter (\<lambda>s. fst (?d s) = AskUser) segs"
  have deny: "(case ?dn of [] \<Rightarrow> None | ds \<Rightarrow> snd (?d (last ds))) \<noteq> None \<longleftrightarrow> ?dn \<noteq> []"
  proof (cases "?dn = []")
    case False
    then have "last ?dn \<in> set ?dn" by (rule last_in_set)
    then have "fst (?d (last ?dn)) = Deny" by simp
    from segment_decision_Deny_rule [OF this] False show ?thesis by (auto split: list.splits)
  qed simp
  have eq: "shell_decision re_search rules tn command ag =
    (if ?dn \<noteq> [] then (Deny, snd (?d (last ?dn)), [])
     else if ?ak \<noteq> [] then (AskUser, None, dedup (map command_prefix ?ak)) else (Allow, None, []))"
    unfolding shell_decision_def shell_loop_spec Let_def segs_def [symmetric] prod.case deny
    by (auto split: list.splits)
  have dn: "?dn \<noteq> [] \<longleftrightarrow> (\<exists>s \<in> set segs. fst (?d s) = Deny)" by (auto simp: filter_empty_conv)
  have ak: "?dn = [] \<and> ?ak = [] \<longleftrightarrow> (\<forall>s \<in> set segs. fst (?d s) = Allow)"
    by (auto simp: filter_empty_conv) (metis decision.exhaust)
  show "fst (shell_decision re_search rules tn command ag) = Deny \<longleftrightarrow> (\<exists>s \<in> set segs. fst (?d s) = Deny)"
    unfolding eq dn [symmetric] by auto
  show "fst (shell_decision re_search rules tn command ag) = Allow \<longleftrightarrow> (\<forall>s \<in> set segs. fst (?d s) = Allow)"
    unfolding eq ak [symmetric] by auto
  show "fst (shell_decision re_search rules tn command ag) \<noteq> Deny \<Longrightarrow>
      snd (snd (shell_decision re_search rules tn command ag)) = dedup (map command_prefix ?ak)"
    unfolding eq by (auto simp: dedup_def split: if_splits)
qed

lemma shell_segments_strip: "seg \<in> set (shell_segments command) \<Longrightarrow> py_strip seg = seg"
  using split_segments_trimmed
  by (auto simp: shell_segments_def Let_def split: if_splits)

section \<open>Approvals\<close>

definition prefix_allow :: "string \<Rightarrow> string list \<Rightarrow> string option \<Rightarrow> permission_rule" where
  "prefix_allow tn ps src =
     \<lparr>tool_names = [tn], command_prefixes = ps, command_regex = None, args_pattern = None,
      rule_decision = Allow, deny_message = None, subagent = None, source = src\<rparr>"

lemma map_filter_as_str [simp]: "List.map_filter as_str (map PyStr ps) = ps"
  by (induction ps) (auto simp: List.map_filter_def)

lemma parse_proposed_rule:
  assumes "apply_tool_aliases tn = tn"
  shows "parse_rule False (PyDict (proposed_rule tn (Some ps))) = Inr (Some (prefix_allow tn ps None))"
  by (simp add: proposed_rule_def parse_rule_def parse_decision_def as_aliased_tuple_def as_tuple_def
      assms unsafe_pattern_def Let_def prefix_allow_def as_str_def)

lemma prefix_allow_not_blanket: "ps \<noteq> [] \<Longrightarrow> \<not> is_blanket_allow (prefix_allow tn ps src)"
  by (simp add: is_blanket_allow_def prefix_allow_def)

lemma prefix_allow_matches:
  "rule_matches re_search (prefix_allow tn ps src) tn args (Some seg) ag \<longleftrightarrow>
     ps = [] \<or> (\<exists>p \<in> set ps. prefix_matches seg p)"
  by (auto simp: rule_matches_def prefix_allow_def tool_matches_def list_ex_iff)

text \<open>An approval of the asked prefixes, added with the highest precedence, turns the decision
  into allow, provided no segment runs a command substitution.\<close>

lemma approval_allows:
  assumes ask: "fst (shell_decision re_search rules tn command ag) = AskUser"
    and ps: "ps = snd (snd (shell_decision re_search rules tn command ag))"
    and nosub: "\<forall>s \<in> set (shell_segments command). \<not> has_command_substitution s"
    and src: "src = ''grant'' \<or> src = ''overlay''"
  shows "fst (shell_decision re_search (rules @ [prefix_allow tn ps (Some src)]) tn command ag) = Allow"
  unfolding shell_decision_cases(2)
proof
  fix s assume s: "s \<in> set (shell_segments command)"
  let ?d = "segment_decision re_search rules tn ag" and ?g = "prefix_allow tn ps (Some src)"
  have not_deny: "fst (?d s) \<noteq> Deny"
    if "s \<in> set (shell_segments command)" for s
    using that shell_decision_cases(1) [of re_search rules tn command ag] ask by auto
  have "ps = dedup (map command_prefix (filter (\<lambda>s. fst (?d s) = AskUser) (shell_segments command)))"
    unfolding ps by (rule shell_decision_cases(3)) (simp add: ask)
  then have in_ps: "command_prefix s \<in> set ps" if "fst (?d s) = AskUser" using s that by simp
  obtain d r where dr: "resolve_decision re_search rules tn (PyDict [(''command'', PyStr s)]) (Some s) ag = (d, r)"
    by fastforce
  have nd: "d \<noteq> Deny" using not_deny [OF s] segment_decision_Deny_iff [of re_search rules tn ag s] dr by simp
  have old: "fst (?d s) = Allow" if "\<not> rule_matches re_search ?g tn (PyDict [(''command'', PyStr s)]) (Some s) ag"
  proof (rule ccontr)
    assume "fst (?d s) \<noteq> Allow"
    with not_deny [OF s] have "fst (?d s) = AskUser" by (cases "fst (?d s)") auto
    then have "command_prefix s \<in> set ps" by (rule in_ps)
    with that prefix_matches_command_prefix [OF shell_segments_strip [OF s]] show False
      by (auto simp: prefix_allow_matches)
  qed
  have ua: "user_approved (Some ?g)" using src by (auto simp: user_approved_def prefix_allow_def)
  show "fst (segment_decision re_search (rules @ [?g]) tn ag s) = Allow"
  proof (cases "rule_matches re_search ?g tn (PyDict [(''command'', PyStr s)]) (Some s) ag")
    case True
    then have "resolve_decision re_search (rules @ [?g]) tn (PyDict [(''command'', PyStr s)]) (Some s) ag = (Allow, Some ?g)"
      using dr nd by (simp add: resolve_snoc) (simp add: prefix_allow_def)
    then show ?thesis unfolding segment_decision_Allow_iff using nosub s ua by simp
  next
    case False
    then have "resolve_decision re_search (rules @ [?g]) tn (PyDict [(''command'', PyStr s)]) (Some s) ag = (d, r)"
      using dr by (simp add: resolve_snoc)
    moreover have "d = Allow \<and> \<not> has_command_substitution s \<and> (user_approved r \<or> \<not> flagged_ask s)"
      using old [OF False] dr unfolding segment_decision_Allow_iff by simp
    ultimately show ?thesis unfolding segment_decision_Allow_iff by simp
  qed
qed

lemma shell_command_tool:
  "shell_command tn args = Some c \<Longrightarrow> tn = BASH \<or> tn = PROCESS"
  by (auto simp: shell_command_def split: pyval.splits if_splits)

lemma gated_tool:
  assumes "tn = BASH \<or> tn = PROCESS"
  shows "\<not> (tn = [] \<or> tn \<in> set READ_ONLY_TOOLS \<or> is_memory_search tn args
         \<or> tn \<in> set SELF_CONFIRMING_TOOLS \<or> tn \<in> set SUBAGENT_TOOLS)"
    and "apply_tool_aliases tn = tn"
  using assms registered_alias_id [of tn]
  by (auto simp: READ_ONLY_TOOLS_def SELF_CONFIRMING_TOOLS_def SUBAGENT_TOOLS_def is_memory_search_def
      tool_name_defs ALL_TOOLS_def)

lemma resolve_outcome_explicit:
  assumes "dict_get d ''outcome'' = PyStr k"
    and "k \<in> set [''proceed_once'', ''proceed_always'', ''proceed_always_and_save'', ''cancel'']"
  shows "resolve_outcome (PyDict d) (permission_outcomes l) = Inr k"
  using assms by (auto simp: resolve_outcome_def permission_outcomes_def Let_def)

section \<open>The guard on a shell command\<close>

lemma resolve_permission_shell:
  assumes "shell_command tn args = Some c"
    and "effective_rules env (read_session_grants state) fs st = Inr (rules, st')"
  shows "resolve_permission_decision re_search env tn args state ag fs st =
     Inr ((fst (shell_decision re_search rules tn c ag), fst (snd (shell_decision re_search rules tn c ag)),
           (if snd (snd (shell_decision re_search rules tn c ag)) = [] then None
            else Some (snd (snd (shell_decision re_search rules tn c ag)))), Some c), st')"
  using assms by (simp add: resolve_permission_decision_def Let_def split: prod.split)

lemma ask_prefixes_not_Nil:
  "fst (shell_decision re_search rules tn c ag) = AskUser \<Longrightarrow> snd (snd (shell_decision re_search rules tn c ag)) \<noteq> []"
  by (auto simp: shell_decision_def Let_def split: prod.splits if_splits)

lemma permission_guard_allow:
  assumes "shell_command tn args = Some c"
    and "effective_rules env (read_session_grants (tc_state (gw_context w))) (gw_fs w) (gw_store w) = Inr (rules, st')"
    and "fst (shell_decision re_search rules tn c (tc_agent_name (gw_context w))) = Allow"
  shows "permission_guard re_search headless env now tn args w = Inr (None, w\<lparr>gw_store := st'\<rparr>)"
  unfolding permission_guard_def Let_def
  by (simp add: gated_tool(1) [OF shell_command_tool [OF assms(1)]] resolve_permission_shell [OF assms(1,2)]
      assms(3) del: gated_tool)

text \<open>What an answered confirmation leads to.\<close>

lemma permission_guard_answered:
  assumes "shell_command tn args = Some c"
    and "effective_rules env (read_session_grants (tc_state (gw_context w))) (gw_fs w) (gw_store w) = Inr (rules, st')"
    and "fst (shell_decision re_search rules tn c (tc_agent_name (gw_context w))) = AskUser"
    and "read_approval_mode (tc_state (gw_context w)) = Inr ''default''"
    and "tool_confirmation (gw_context w) = Some \<lparr>confirmed = True, conf_payload = PyDict d\<rparr>"
    and "dict_get d ''outcome'' = PyStr k"
    and "k \<in> {''proceed_always'', ''proceed_always_and_save''}"
  shows "permission_guard re_search False env now tn args w =
    (let rule = proposed_rule tn (Some (snd (snd (shell_decision re_search rules tn c (tc_agent_name (gw_context w))))));
         w = w\<lparr>gw_store := st'\<rparr>
     in if k = ''proceed_always''
        then Inr (None, w\<lparr>gw_context := (gw_context w)\<lparr>tc_state :=
               snd (write_session_grants (tc_state (gw_context w))
                 (read_session_grants (tc_state (gw_context w)) @ [PyDict rule]))\<rparr>\<rparr>)
        else case env of
               None \<Rightarrow> Inr (None, w)
             | Some e \<Rightarrow> py_bind (append_persisted_rule e rule now (gw_fs w) st') (\<lambda>(fs', st'').
                          Inr (None, w\<lparr>gw_fs := fs', gw_store := st''\<rparr>)))"
proof -
  have o: "resolve_outcome (PyDict d) (permission_outcomes l) = Inr k" for l
    using assms(6,7) by (intro resolve_outcome_explicit) auto
  show ?thesis
    unfolding permission_guard_def permission_ask_def permission_answer_def Let_def
    using assms(7)
    by (auto simp: gated_tool(1) [OF shell_command_tool [OF assms(1)]] resolve_permission_shell [OF assms(1,2)]
        assms(3-5) ask_prefixes_not_Nil [OF assms(3)] request_user_confirmation_def o split: option.split)
qed

section \<open>A concrete session\<close>

text \<open>A session with an empty state, asked about \<open>sudo ls\<close>, for the concrete runs below.\<close>

definition no_regex :: "string \<Rightarrow> string \<Rightarrow> bool option" where
  "no_regex pattern text = None"

definition session_context :: "confirmation option \<Rightarrow> tool_context" where
  "session_context conf = \<lparr>tc_state = Some [], tc_agent_name = None, tool_confirmation = conf,
     tc_requests = [], skip_summarization = False\<rparr>"

definition gate_start :: "confirmation option \<Rightarrow> gate_world" where
  "gate_start conf = \<lparr>gw_context = session_context conf, gw_fs = no_files, gw_store = fresh_perm_store\<rparr>"

definition answered :: "string \<Rightarrow> confirmation option" where
  "answered k = Some \<lparr>confirmed = True, conf_payload = PyDict [(''outcome'', PyStr k)]\<rparr>"

abbreviation sudo_args :: pyval where
  "sudo_args \<equiv> PyDict [(''command'', PyStr ''sudo ls'')]"

definition default_rules :: "permission_rule list" where
  "default_rules = map (\<lambda>r. r\<lparr>source := Some ''default''\<rparr>) DEFAULT_RULES"

lemma sudo_asks: "fst (shell_decision no_regex default_rules BASH ''sudo ls'' None) = AskUser"
  by code_simp

lemma sudo_plain: "\<forall>seg \<in> set (shell_segments ''sudo ls''). \<not> has_command_substitution seg"
proof -
  have "list_all (\<lambda>seg. \<not> has_command_substitution seg) (shell_segments ''sudo ls'')" by code_simp
  then show ?thesis by (simp add: list_all_iff)
qed

lemma default_effective: "effective_rules None [] fs st = Inr (default_rules, st)"
  by (simp add: effective_rules_def load_persisted_rules_def default_rules_def stamp_def)

lemma gate_start_simps [simp]:
  "tc_state (gw_context (gate_start conf)) = Some []" "tc_agent_name (gw_context (gate_start conf)) = None"
  "tool_confirmation (gw_context (gate_start conf)) = conf" "gw_fs (gate_start conf) = no_files"
  "gw_store (gate_start conf) = fresh_perm_store"
  "(gate_start conf)\<lparr>gw_store := fresh_perm_store\<rparr> = gate_start conf"
  by (simp_all add: gate_start_def session_context_def)

lemma empty_state_simps [simp]:
  "read_session_grants (Some []) = []" "read_approval_mode (Some []) = Inr ''default''"
  by (simp_all add: read_session_grants_def read_approval_mode_def)

lemma sudo_command [simp]: "shell_command BASH sudo_args = Some ''sudo ls''"
  by (simp add: shell_command_def)

section \<open>Properties\<close>

text \<open>The gate judges every segment of a shell command: the command is denied exactly when
  a deny rule matches one of its segments, and it is allowed exactly when no segment runs a
  command substitution, resolves to anything but allow, or is flagged by the classifier
  without an approval of the user (a grant or an overlay rule) covering it.\<close>

theorem shell_decision_judges_every_segment:
  "(fst (shell_decision re_search rules tn command ag) = Deny \<longleftrightarrow>
      (\<exists>s \<in> set (shell_segments command). \<exists>r \<in> set rules.
         rule_matches re_search r tn (PyDict [(''command'', PyStr s)]) (Some s) ag \<and> rule_decision r = Deny)) \<and>
   (fst (shell_decision re_search rules tn command ag) = Allow \<longleftrightarrow>
      \<not> (\<exists>s \<in> set (shell_segments command). \<exists>d r.
           resolve_decision re_search rules tn (PyDict [(''command'', PyStr s)]) (Some s) ag = (d, r) \<and>
           (has_command_substitution s \<or> d \<in> {Deny, AskUser} \<or> (flagged_ask s \<and> \<not> user_approved r))))"
proof
  show "fst (shell_decision re_search rules tn command ag) = Deny \<longleftrightarrow>
      (\<exists>s \<in> set (shell_segments command). \<exists>r \<in> set rules.
         rule_matches re_search r tn (PyDict [(''command'', PyStr s)]) (Some s) ag \<and> rule_decision r = Deny)"
    unfolding shell_decision_cases(1) segment_decision_Deny_iff resolve_deny_iff ..
  have "d = Allow \<longleftrightarrow> d \<notin> {Deny, AskUser}" for d by (cases d) auto
  then show "fst (shell_decision re_search rules tn command ag) = Allow \<longleftrightarrow>
      \<not> (\<exists>s \<in> set (shell_segments command). \<exists>d r.
           resolve_decision re_search rules tn (PyDict [(''command'', PyStr s)]) (Some s) ag = (d, r) \<and>
           (has_command_substitution s \<or> d \<in> {Deny, AskUser} \<or> (flagged_ask s \<and> \<not> user_approved r)))"
    unfolding shell_decision_cases(2) segment_decision_Allow_iff Let_def by fastforce
qed

text \<open>C6: A call passes the gate only with cause: a gated call that goes through was allowed by
  the rules, or needed approval and either the user confirmed it, the session runs in yolo
  mode, or it is a shell command of a headless run. In particular a denied call never goes
  through, whatever the mode and whatever the user answers.\<close>

theorem permission_guard_passes_only_with_cause:
  assumes "permission_guard re_search headless env now tn args w = Inr (None, w')"
    and "tn \<noteq> []" and "tn \<notin> set (READ_ONLY_TOOLS @ SELF_CONFIRMING_TOOLS @ SUBAGENT_TOOLS)"
    and "\<not> is_memory_search tn args"
    and "resolve_permission_decision re_search env tn args (tc_state (gw_context w))
           (tc_agent_name (gw_context w)) (gw_fs w) (gw_store w) = Inr ((d, dr, pp, cmd), st')"
  shows "d = Allow \<or> (d = AskUser \<and>
    (headless \<and> cmd \<noteq> None
     \<or> \<not> headless \<and> read_approval_mode (tc_state (gw_context w)) = Inr ''yolo''
     \<or> \<not> headless \<and> (\<exists>c. tool_confirmation (gw_context w) = Some c \<and> confirmed c)))"
  using assms
  by (cases d; cases "tool_confirmation (gw_context w)")
     (auto simp: permission_guard_def permission_ask_def permission_answer_def Let_def request_user_confirmation_def py_bind_Inr_iff
       split: if_splits option.splits prod.splits)

theorem permission_guard_passes_only_with_cause_witness:
  "permission_guard no_regex True None 0 BASH sudo_args (gate_start None) = Inr (None, gate_start None) \<and>
   (\<exists>dr pp cmd st'. resolve_permission_decision no_regex None BASH sudo_args (Some []) None no_files fresh_perm_store
      = Inr ((AskUser, dr, pp, cmd), st') \<and> cmd \<noteq> None)"
proof -
  have r: "resolve_permission_decision no_regex None BASH sudo_args (tc_state (gw_context (gate_start None)))
      (tc_agent_name (gw_context (gate_start None))) (gw_fs (gate_start None)) (gw_store (gate_start None)) =
    Inr ((AskUser, fst (snd (shell_decision no_regex default_rules BASH ''sudo ls'' None)),
      Some (snd (snd (shell_decision no_regex default_rules BASH ''sudo ls'' None))), Some ''sudo ls''), fresh_perm_store)"
    using resolve_permission_shell [OF sudo_command, of None "Some []" no_files fresh_perm_store default_rules
        fresh_perm_store no_regex None] sudo_asks ask_prefixes_not_Nil [OF sudo_asks]
    by (simp add: default_effective)
  have t: "BASH \<noteq> []" "BASH \<notin> set (READ_ONLY_TOOLS @ SELF_CONFIRMING_TOOLS @ SUBAGENT_TOOLS)"
    "\<not> is_memory_search BASH sudo_args"
    using gated_tool(1) [of BASH sudo_args] by simp_all
  have g: "permission_guard no_regex True None 0 BASH sudo_args (gate_start None) = Inr (None, gate_start None)"
    using t r by (simp add: permission_guard_def permission_ask_def Let_def)
  from permission_guard_passes_only_with_cause [OF g t r] g r show ?thesis by simp
qed

text \<open>An approval for the session sticks: once the user has answered \<open>proceed_always\<close> for a
  shell command none of whose segments runs a command substitution, the same call in the
  resulting session goes through again without a request, without any answer.\<close>

theorem session_approval_sticks:
  assumes "shell_command tn args = Some c"
    and "effective_rules env (read_session_grants (tc_state (gw_context w))) (gw_fs w) (gw_store w) = Inr (rules, st')"
    and "fst (shell_decision re_search rules tn c (tc_agent_name (gw_context w))) = AskUser"
    and "read_approval_mode (tc_state (gw_context w)) = Inr ''default''"
    and "tc_state (gw_context w) = Some s"
    and "tool_confirmation (gw_context w) = Some \<lparr>confirmed = True, conf_payload = PyDict d\<rparr>"
    and "dict_get d ''outcome'' = PyStr ''proceed_always''"
    and "\<forall>seg \<in> set (shell_segments c). \<not> has_command_substitution seg"
  shows "\<exists>w' st''. permission_guard re_search False env now tn args w = Inr (None, w') \<and>
    permission_guard re_search headless env now' tn args
      (w'\<lparr>gw_context := (gw_context w')\<lparr>tool_confirmation := None\<rparr>\<rparr>) =
    Inr (None, w'\<lparr>gw_context := (gw_context w')\<lparr>tool_confirmation := None\<rparr>, gw_store := st''\<rparr>)"
proof -
  let ?ag = "tc_agent_name (gw_context w)"
  let ?ps = "snd (snd (shell_decision re_search rules tn c ?ag))"
  let ?gs = "read_session_grants (tc_state (gw_context w))"
  define s' where "s' = dict_set s PERMISSION_GRANTS_STATE_KEY (PyList (?gs @ [PyDict (proposed_rule tn (Some ?ps))]))"
  define w' where "w' = w\<lparr>gw_store := st', gw_context := (gw_context w)\<lparr>tc_state := Some s'\<rparr>\<rparr>"
  have first: "permission_guard re_search False env now tn args w = Inr (None, w')"
    using permission_guard_answered [OF assms(1-4,6,7)]
    by (simp add: w'_def s'_def write_session_grants_def assms(5))
  have gs': "read_session_grants (Some s') = ?gs @ [PyDict (proposed_rule tn (Some ?ps))]"
    by (simp add: read_session_grants_def s'_def)
  have al: "apply_tool_aliases tn = tn" by (rule gated_tool(2) [OF shell_command_tool [OF assms(1)]])
  obtain st'' where eff: "effective_rules env (read_session_grants (Some s')) (gw_fs w) st' =
      Inr (rules @ [prefix_allow tn ?ps (Some ''grant'')], st'')"
    using effective_rules_grant [OF assms(2) parse_proposed_rule [OF al]
        prefix_allow_not_blanket [OF ask_prefixes_not_Nil [OF assms(3)]]]
    unfolding gs' by (auto simp: prefix_allow_def)
  have ok: "fst (shell_decision re_search (rules @ [prefix_allow tn ?ps (Some ''grant'')]) tn c ?ag) = Allow"
    by (rule approval_allows [OF assms(3) refl assms(8)]) simp
  let ?w2 = "w'\<lparr>gw_context := (gw_context w')\<lparr>tool_confirmation := None\<rparr>\<rparr>"
  have "permission_guard re_search headless env now' tn args ?w2 = Inr (None, ?w2\<lparr>gw_store := st''\<rparr>)"
    by (rule permission_guard_allow [OF assms(1), where rules = "rules @ [prefix_allow tn ?ps (Some ''grant'')]"])
       (simp_all add: w'_def eff ok)
  with first show ?thesis by auto
qed

theorem session_approval_sticks_witness:
  "\<exists>w' st''. permission_guard no_regex False None 0 BASH sudo_args (gate_start (answered ''proceed_always'')) =
      Inr (None, w') \<and>
    permission_guard no_regex False None 1 BASH sudo_args (w'\<lparr>gw_context := (gw_context w')\<lparr>tool_confirmation := None\<rparr>\<rparr>) =
    Inr (None, w'\<lparr>gw_context := (gw_context w')\<lparr>tool_confirmation := None\<rparr>, gw_store := st''\<rparr>)"
  by (rule session_approval_sticks [where s = "[]" and c = "''sudo ls''" and rules = default_rules
        and d = "[(''outcome'', PyStr ''proceed_always'')]"])
     (simp_all add: default_effective sudo_asks sudo_plain [simplified] answered_def)

text \<open>A saved approval outlives the session: once the user has answered
  \<open>proceed_always_and_save\<close> (overlay file of whole lines, cache in step with it), the same
  call in any other session of the same workspace and agent without grants of its own goes
  through without a request.\<close>

theorem saved_approval_survives_sessions:
  assumes "shell_command tn args = Some c"
    and "working_dir e = Some wd" and "whole_lines (overlay_text e wd (gw_fs w))"
    and "perm_parse_jsonl (overlay_text e wd (gw_fs w)) = Inr rs"
    and "load_persisted_rules (Some e) (gw_fs w) (gw_store w) = Inr (rs, st')"
    and "read_session_grants (tc_state (gw_context w)) = []"
    and "effective_rules (Some e) [] (gw_fs w) (gw_store w) = Inr (rules, st')"
    and "fst (shell_decision re_search rules tn c (tc_agent_name (gw_context w))) = AskUser"
    and "read_approval_mode (tc_state (gw_context w)) = Inr ''default''"
    and "tool_confirmation (gw_context w) = Some \<lparr>confirmed = True, conf_payload = PyDict d\<rparr>"
    and "dict_get d ''outcome'' = PyStr ''proceed_always_and_save''"
    and "\<forall>seg \<in> set (shell_segments c). \<not> has_command_substitution seg"
    and "permission_guard re_search False (Some e) now tn args w = Inr (None, w')"
    and "tc_agent_name tc = tc_agent_name (gw_context w)" and "read_session_grants (tc_state tc) = []"
  shows "\<exists>st''. permission_guard re_search headless (Some e) now' tn args (w'\<lparr>gw_context := tc\<rparr>) =
    Inr (None, w'\<lparr>gw_context := tc, gw_store := st''\<rparr>)"
proof -
  let ?ag = "tc_agent_name (gw_context w)"
  let ?ps = "snd (snd (shell_decision re_search rules tn c ?ag))"
  let ?rule = "proposed_rule tn (Some ?ps)"
  have eff0: "effective_rules (Some e) (read_session_grants (tc_state (gw_context w))) (gw_fs w) (gw_store w) = Inr (rules, st')"
    using assms(6,7) by simp
  obtain fs' st2 where app: "append_persisted_rule e ?rule now (gw_fs w) st' = Inr (fs', st2)"
    and w': "gw_fs w' = fs'" "gw_store w' = st2"
    using permission_guard_answered [OF assms(1) eff0 assms(8-11)] assms(13)
    by (auto simp: Let_def py_bind_Inr_iff)
  have al: "apply_tool_aliases tn = tn" by (rule gated_tool(2) [OF shell_command_tool [OF assms(1)]])
  note parsed = parse_proposed_rule [OF al, of ?ps]
  have exact: "json_exact (PyDict ?rule)" by (simp add: proposed_rule_def list_all_iff)
  have "map_sum id fst (load_times (load_persisted_rules (Some e)) fs' 0 st2) = Inr (rs @ [prefix_allow tn ?ps None])"
    by (rule load_after_append [OF assms(2,3) exact assms(4) parsed app])
  then obtain st3 where l: "load_persisted_rules (Some e) fs' st2 = Inr (rs @ [prefix_allow tn ?ps None], st3)"
    by (cases "load_persisted_rules (Some e) fs' st2") auto
  have rules: "rules = map (\<lambda>r. r\<lparr>source := Some ''default''\<rparr>) DEFAULT_RULES @ stamp rs ''overlay''"
    using assms(5,7) by (simp add: effective_rules_def stamp_def)
  have st: "stamp [prefix_allow tn ?ps None] ''overlay'' = [prefix_allow tn ?ps (Some ''overlay'')]"
    using prefix_allow_not_blanket [OF ask_prefixes_not_Nil [OF assms(8)]]
    by (simp add: stamp_def) (simp add: prefix_allow_def)
  have eff: "effective_rules (Some e) (read_session_grants (tc_state tc)) fs' st2 =
      Inr (rules @ [prefix_allow tn ?ps (Some ''overlay'')], st3)"
    using l st by (simp add: assms(15) effective_rules_def rules stamp_append stamp_def [of "[]"])
  have "fst (shell_decision re_search (rules @ [prefix_allow tn ?ps (Some ''overlay'')]) tn c ?ag) = Allow"
    by (rule approval_allows [OF assms(8) refl assms(12)]) simp
  with permission_guard_allow [OF assms(1), of "Some e" "w'\<lparr>gw_context := tc\<rparr>"
      "rules @ [prefix_allow tn ?ps (Some ''overlay'')]" st3] eff w' assms(14)
  show ?thesis by auto
qed

theorem saved_approval_survives_sessions_witness:
  "\<exists>w' st''. permission_guard no_regex False (Some (sandbox_env ''a'')) 0 BASH sudo_args
      (gate_start (answered ''proceed_always_and_save'')) = Inr (None, w') \<and>
    permission_guard no_regex False (Some (sandbox_env ''a'')) 1 BASH sudo_args (w'\<lparr>gw_context := session_context None\<rparr>) =
    Inr (None, w'\<lparr>gw_context := session_context None, gw_store := st''\<rparr>)"
proof -
  let ?e = "sandbox_env ''a''" and ?w = "gate_start (answered ''proceed_always_and_save'')"
  let ?st = "fresh_perm_store\<lparr>perm_overlay_cache := [(''a'', [])]\<rparr>"
  have wd: "working_dir ?e = Some ''/workspace''" by (simp add: sandbox_env_def)
  have t: "overlay_text ?e ''/workspace'' no_files = []"
    by (simp add: overlay_text_def sandbox_env_def read_overlay_text_def env_read_file_def no_files_def)
  have wl: "whole_lines (overlay_text ?e ''/workspace'' (gw_fs ?w))" by (simp add: t whole_lines_def)
  have p0: "perm_parse_jsonl [] = Inr []" by code_simp
  have p: "perm_parse_jsonl (overlay_text ?e ''/workspace'' (gw_fs ?w)) = Inr []" by (simp add: t p0)
  have l: "load_persisted_rules (Some ?e) (gw_fs ?w) (gw_store ?w) = Inr ([], ?st)"
    by (simp add: load_persisted_rules_def sandbox_env_def load_interface_rules_def fresh_perm_store_def
        overlay_cache_key_def read_overlay_text_def env_read_file_def no_files_def p0)
  have e: "effective_rules (Some ?e) [] (gw_fs ?w) (gw_store ?w) = Inr (default_rules, ?st)"
    using l by (simp add: effective_rules_def default_rules_def stamp_def)
  have g: "read_session_grants (tc_state (gw_context ?w)) = []" by simp
  have a: "fst (shell_decision no_regex default_rules BASH ''sudo ls'' (tc_agent_name (gw_context ?w))) = AskUser"
    by (simp add: sudo_asks)
  have m: "read_approval_mode (tc_state (gw_context ?w)) = Inr ''default''" by simp
  have c: "tool_confirmation (gw_context ?w) =
      Some \<lparr>confirmed = True, conf_payload = PyDict [(''outcome'', PyStr ''proceed_always_and_save'')]\<rparr>"
    by (simp add: answered_def)
  have d: "dict_get [(''outcome'', PyStr ''proceed_always_and_save'')] ''outcome'' = PyStr ''proceed_always_and_save''"
    by simp
  have e': "effective_rules (Some ?e) (read_session_grants (tc_state (gw_context ?w))) (gw_fs ?w) (gw_store ?w) =
      Inr (default_rules, ?st)" using e by simp
  have k: "''proceed_always_and_save'' \<in> {''proceed_always'', ''proceed_always_and_save''}" by simp
  obtain w' where w': "permission_guard no_regex False (Some ?e) 0 BASH sudo_args ?w = Inr (None, w')"
    using permission_guard_answered [OF sudo_command e' a m c d k, of 0]
    by (simp add: append_persisted_rule_def sandbox_env_def env_read_file_def no_files_def Let_def)
  have tc: "tc_agent_name (session_context None) = tc_agent_name (gw_context ?w)"
    "read_session_grants (tc_state (session_context None)) = []"
    by (simp_all add: session_context_def)
  from saved_approval_survives_sessions [OF sudo_command wd wl p l g e a m c d sudo_plain w' tc] w'
  show ?thesis by blast
qed

end
