(* ===== verification/Halt_Guards.thy ===== *)
theory Halt_Guards
  imports Halt_Delivery
begin

text \<open>
  The two guards that latch a halt (\<open>guardrails/no_progress.py\<close>,
  \<open>guardrails/repeated_failure.py\<close>), the plugin that wires them to ADK's hooks
  (\<open>guardrails/guardrails_plugin.py\<close>) and the reset at a user-turn boundary
  (\<open>guardrails/__init__.py\<close>).

  The wall clock is an argument (a float: its value and its text), and so is the digest of
  the canonical JSON of a call's arguments (SHA-256 in the source): nothing below depends on
  it beyond its being a function.
\<close>

section \<open>no_progress.py\<close>

definition NP_STREAK_KEY :: string where
  "NP_STREAK_KEY = ''__no_progress_streak__''"
definition NP_LAST_TEXT_KEY :: string where
  "NP_LAST_TEXT_KEY = ''__no_progress_last_text__''"

definition normalize_text :: "llm_response \<Rightarrow> string" where
  "normalize_text resp =
     (case resp_content resp of
        None \<Rightarrow> []
      | Some c \<Rightarrow>
          if parts c = [] then []
          else let texts = [t. Some t \<leftarrow> map part_text (parts c), t \<noteq> []]
               in if texts = [] then [] else py_join '' '' (py_split (py_join '' '' texts)))"

record no_progress_guard =
  window :: int

definition NoProgressGuard :: "int \<Rightarrow> no_progress_guard py" where
  "NoProgressGuard w =
     (if w < 2
      then Inl (ValueError (''window must be >= 2 (a window of 1 would halt on every response); got ''
                  @ string_of_int w))
      else Inr \<lparr>window = w\<rparr>)"

text \<open>\<open>streak += 1\<close> on the stored value, which this guard writes as an \<open>int\<close>.\<close>

definition int_plus_one :: "pyval \<Rightarrow> int py" where
  "int_plus_one v = (case v of PyInt i \<Rightarrow> Inr (i + 1) | PyBool b \<Rightarrow> Inr (if b then 2 else 1)
     | _ \<Rightarrow> Inl (TypeError ''unsupported operand type(s) for +=''))"

definition no_progress_message :: "int \<Rightarrow> string" where
  "no_progress_message streak =
     ''no progress detected: the model produced the same response '' @ string_of_int streak
     @ '' times in a row '' @ EMDASH @ '' halting to avoid a response loop.''"

definition np_after_model_callback :: "no_progress_guard \<Rightarrow> pydict \<Rightarrow> llm_response \<Rightarrow> pydict py" where
  "np_after_model_callback g state resp =
     (let normalized = normalize_text resp
      in if normalized = [] then Inr state
         else let previous = dict_get state NP_LAST_TEXT_KEY;
                  streak = dict_get_default state NP_STREAK_KEY (PyInt 0)
              in py_bind (if py_eq previous (PyStr normalized) then int_plus_one streak else Inr 1)
                   (\<lambda>streak.
                    let state = dict_set state NP_LAST_TEXT_KEY (PyStr normalized);
                        state = dict_set state NP_STREAK_KEY (PyInt streak)
                    in Inr (if streak \<ge> window g
                            then snd (latch_halt state (no_progress_message streak))
                            else state)))"

definition np_reset :: "pydict \<Rightarrow> pydict" where
  "np_reset state = dict_set (dict_set state NP_STREAK_KEY (PyInt 0)) NP_LAST_TEXT_KEY PyNone"

section \<open>repeated_failure.py\<close>

definition RF_STREAK_KEY :: string where
  "RF_STREAK_KEY = ''__repeated_failure_streak__''"
definition LAST_ERROR_STATE_KEY :: string where
  "LAST_ERROR_STATE_KEY = ''last_error''"

definition DECAY_SECONDS :: rat where
  "DECAY_SECONDS = 600"

type_synonym pyfloat = "rat \<times> string"

text \<open>A streak entry: the count and the time of the last failure.\<close>

type_synonym streaks = "(string \<times> (int \<times> pyfloat)) list"

definition nonzero_exit :: "pyval \<Rightarrow> bool" where
  "nonzero_exit code \<longleftrightarrow> code \<noteq> PyNone \<and> \<not> py_eq code (PyInt 0)"

definition error_text :: "pydict \<Rightarrow> string" where
  "error_text resp =
     (let error = dict_get resp ''error'' in
      if truthy error then py_str error
      else let stderr = dict_get resp ''stderr''; exit_code = dict_get resp ''exit_code''
           in if nonzero_exit exit_code
              then ''exit_code='' @ py_str exit_code
                   @ (if truthy stderr then '': '' @ py_str stderr else [])
              else py_repr (PyDict resp))"

definition canonical_opts :: json_opts where
  "canonical_opts = \<lparr>ensure_ascii = False, sort_keys = True, item_sep = '','', key_sep = '':''\<rparr>"

definition signature :: "(string \<Rightarrow> string) \<Rightarrow> string \<Rightarrow> pyval \<Rightarrow> string" where
  "signature sha256_hex tool_name args =
     (let canonical = json_dumps canonical_opts (if truthy args then args else PyDict [])
      in tool_name @ '':'' @ sha256_hex canonical)"

definition is_failure :: "pyval \<Rightarrow> bool" where
  "is_failure resp =
     (case resp of
        PyDict d \<Rightarrow>
          map_of d ''error'' \<noteq> None \<or> nonzero_exit (dict_get d ''exit_code'')
          \<or> dict_get d ''success'' = PyBool False
      | _ \<Rightarrow> False)"

record repeated_failure_guard =
  threshold :: int

definition RepeatedFailureGuard :: "int \<Rightarrow> repeated_failure_guard py" where
  "RepeatedFailureGuard t =
     (if t < 2
      then Inl (ValueError (''threshold must be >= 2 (threshold=1 would halt on the first failure); got ''
                  @ string_of_int t))
      else Inr \<lparr>threshold = t\<rparr>)"

fun load_streaks_items :: "pydict \<Rightarrow> streaks py" where
  "load_streaks_items [] = Inr []"
| "load_streaks_items ((sig, entry) # raw) =
     (case entry of
        PyDict e \<Rightarrow>
          if map_of e ''count'' \<noteq> None
          then py_bind (py_int (dict_get_default e ''count'' (PyInt 0))) (\<lambda>c.
               py_bind (py_float (dict_get_default e ''last_failure_at'' (PyFloat 0 ''0.0''))) (\<lambda>t.
               py_bind (load_streaks_items raw) (\<lambda>rest. Inr ((sig, (c, t)) # rest))))
          else load_streaks_items raw
      | _ \<Rightarrow> load_streaks_items raw)"

definition load_streaks :: "pyval \<Rightarrow> streaks py" where
  "load_streaks raw = (case raw of PyDict d \<Rightarrow> load_streaks_items d | _ \<Rightarrow> Inr [])"

definition prune_stale :: "streaks \<Rightarrow> rat \<Rightarrow> streaks" where
  "prune_stale st now =
     (let expired = [sig. (sig, entry) \<leftarrow> st, now - fst (snd entry) > DECAY_SECONDS]
      in fold (\<lambda>sig d. dict_pop d sig) expired st)"

text \<open>The streaks as the dictionary the state stores.\<close>

definition dump_streaks :: "streaks \<Rightarrow> pyval" where
  "dump_streaks st =
     PyDict (map (\<lambda>(sig, c, r, t). (sig, PyDict [(''count'', PyInt c), (''last_failure_at'', PyFloat r t)])) st)"

definition repeated_failure_message :: "string \<Rightarrow> int \<Rightarrow> string" where
  "repeated_failure_message tool_name count =
     tool_name @ '' failed '' @ string_of_int count @ '' times in a row with the same arguments ''
     @ EMDASH @ '' halting to avoid a tool loop.''"

definition resp_error_text :: "pyval \<Rightarrow> string" where
  "resp_error_text resp = (case resp of PyDict d \<Rightarrow> error_text d | _ \<Rightarrow> [])"

definition rf_after_tool_callback ::
    "(string \<Rightarrow> string) \<Rightarrow> repeated_failure_guard \<Rightarrow> pyfloat \<Rightarrow> string \<Rightarrow> pyval \<Rightarrow> pyval \<Rightarrow> pydict \<Rightarrow> pydict py" where
  "rf_after_tool_callback sha256_hex g now tool_name args resp state =
     (let sig = signature sha256_hex tool_name args in
      py_bind (load_streaks (dict_get state RF_STREAK_KEY)) (\<lambda>st.
      let st = prune_stale st (fst now) in
      if is_failure resp
      then let prior = (case map_of st sig of None \<Rightarrow> 0 | Some (c, t) \<Rightarrow> c);
               count = prior + 1;
               st = dict_set st sig (count, now);
               state = dict_set state RF_STREAK_KEY (dump_streaks st);
               state = dict_set state LAST_ERROR_STATE_KEY (PyStr (resp_error_text resp))
           in Inr (if count \<ge> threshold g
                   then snd (latch_halt state (repeated_failure_message tool_name count)) else state)
      else let state = (if map_of st sig \<noteq> None
                        then dict_set state RF_STREAK_KEY (dump_streaks (dict_pop st sig)) else state)
           in Inr (dict_set state LAST_ERROR_STATE_KEY PyNone)))"

definition rf_reset :: "pydict \<Rightarrow> pydict" where
  "rf_reset state = dict_set state RF_STREAK_KEY PyNone"

section \<open>guardrails_plugin.py and clear_halt_state\<close>

record guardrails_plugin =
  repeated_failure :: repeated_failure_guard
  no_progress :: no_progress_guard

definition GuardrailsPlugin :: "int \<Rightarrow> int \<Rightarrow> guardrails_plugin py" where
  "GuardrailsPlugin failure_threshold no_progress_window =
     py_bind (RepeatedFailureGuard failure_threshold) (\<lambda>rf.
     py_bind (NoProgressGuard no_progress_window) (\<lambda>np.
     Inr \<lparr>repeated_failure = rf, no_progress = np\<rparr>))"

definition gp_before_model_callback :: "guardrails_plugin \<Rightarrow> pydict \<Rightarrow> llm_request \<Rightarrow> model_outcome py" where
  "gp_before_model_callback g state req = Inr (halt_consumer_callback state req)"

definition gp_after_model_callback :: "guardrails_plugin \<Rightarrow> pydict \<Rightarrow> llm_response \<Rightarrow> pydict py" where
  "gp_after_model_callback g state resp = np_after_model_callback (no_progress g) state resp"

definition gp_after_tool_callback ::
    "(string \<Rightarrow> string) \<Rightarrow> guardrails_plugin \<Rightarrow> pyfloat \<Rightarrow> string \<Rightarrow> pyval \<Rightarrow> pyval \<Rightarrow> pydict \<Rightarrow> pydict py" where
  "gp_after_tool_callback sha256_hex g now tool_name tool_args result state =
     rf_after_tool_callback sha256_hex (repeated_failure g) now tool_name tool_args result state"

definition clear_halt_state :: "pydict \<Rightarrow> pydict" where
  "clear_halt_state state = np_reset (rf_reset (reset_halt_handoff (acknowledge_halt state)))"

section \<open>Lemmas: the no-progress guard\<close>

lemmas halt_key_defs = HALT_REASON_STATE_KEY_def HALT_HANDOFF_DELIVERED_STATE_KEY_def
  NP_STREAK_KEY_def NP_LAST_TEXT_KEY_def RF_STREAK_KEY_def LAST_ERROR_STATE_KEY_def

lemma np_keys_distinct [simp]:
  "NP_STREAK_KEY \<noteq> NP_LAST_TEXT_KEY" "NP_LAST_TEXT_KEY \<noteq> NP_STREAK_KEY"
  "NP_STREAK_KEY \<noteq> HALT_REASON_STATE_KEY" "HALT_REASON_STATE_KEY \<noteq> NP_STREAK_KEY"
  "NP_LAST_TEXT_KEY \<noteq> HALT_REASON_STATE_KEY" "HALT_REASON_STATE_KEY \<noteq> NP_LAST_TEXT_KEY"
  "RF_STREAK_KEY \<noteq> HALT_REASON_STATE_KEY" "HALT_REASON_STATE_KEY \<noteq> RF_STREAK_KEY"
  "RF_STREAK_KEY \<noteq> LAST_ERROR_STATE_KEY" "LAST_ERROR_STATE_KEY \<noteq> RF_STREAK_KEY"
  "LAST_ERROR_STATE_KEY \<noteq> HALT_REASON_STATE_KEY" "HALT_REASON_STATE_KEY \<noteq> LAST_ERROR_STATE_KEY"
  "NP_STREAK_KEY \<noteq> HALT_HANDOFF_DELIVERED_STATE_KEY" "NP_LAST_TEXT_KEY \<noteq> HALT_HANDOFF_DELIVERED_STATE_KEY"
  "RF_STREAK_KEY \<noteq> HALT_HANDOFF_DELIVERED_STATE_KEY"
  "RF_STREAK_KEY \<noteq> NP_STREAK_KEY" "NP_STREAK_KEY \<noteq> RF_STREAK_KEY"
  "RF_STREAK_KEY \<noteq> NP_LAST_TEXT_KEY" "NP_LAST_TEXT_KEY \<noteq> RF_STREAK_KEY"
  by (simp_all add: halt_key_defs)

text \<open>Specification: the length of the run of equal texts a history ends in.\<close>

definition trailing_run :: "string list \<Rightarrow> nat" where
  "trailing_run ts = (if ts = [] then 0 else length (takeWhile (\<lambda>x. x = last ts) (rev ts)))"

definition spoken :: "llm_response list \<Rightarrow> string list" where
  "spoken rs = filter (\<lambda>t. t \<noteq> []) (map normalize_text rs)"

fun np_run :: "no_progress_guard \<Rightarrow> pydict \<Rightarrow> llm_response list \<Rightarrow> pydict py" where
  "np_run g s [] = Inr s"
| "np_run g s (r # rs) = py_bind (np_after_model_callback g s r) (\<lambda>s'. np_run g s' rs)"

lemma trailing_run_snoc:
  "trailing_run (ts @ [t]) = (if ts \<noteq> [] \<and> last ts = t then Suc (trailing_run ts) else 1)"
  by (cases ts rule: rev_cases) (simp_all add: trailing_run_def)

lemma spoken_snoc:
  "spoken (rs @ [r]) = (if normalize_text r = [] then spoken rs else spoken rs @ [normalize_text r])"
  by (simp add: spoken_def)

lemma np_run_append: "np_run g s (rs @ [r]) = py_bind (np_run g s rs) (\<lambda>s'. np_after_model_callback g s' r)"
proof (induction rs arbitrary: s)
  case Nil
  then show ?case by (cases "np_after_model_callback g s r") simp_all
next
  case (Cons q rs)
  then show ?case by (cases "np_after_model_callback g s q") simp_all
qed

text \<open>The stored streak and last text against the history.\<close>

definition np_tracks :: "pydict \<Rightarrow> string list \<Rightarrow> bool" where
  "np_tracks s ts \<longleftrightarrow>
     dict_get_default s NP_STREAK_KEY (PyInt 0) = PyInt (int (trailing_run ts)) \<and>
     dict_get s NP_LAST_TEXT_KEY = (if ts = [] then PyNone else PyStr (last ts))"

lemma latch_halt_get_default: "k \<noteq> HALT_REASON_STATE_KEY \<Longrightarrow>
   dict_get_default (snd (latch_halt s r)) k v = dict_get_default s k v"
  by (simp add: latch_halt_def)

lemma np_step_tracks:
  assumes "np_tracks s ts" and "normalize_text r = t" and "t \<noteq> []"
  shows "\<exists>s'. np_after_model_callback g s r = Inr s' \<and> np_tracks s' (ts @ [t]) \<and>
     (guard_halted s' \<longleftrightarrow> guard_halted s \<or> window g \<le> int (trailing_run (ts @ [t])))"
proof -
  define n where "n = int (trailing_run (ts @ [t]))"
  define s1 where "s1 = dict_set (dict_set s NP_LAST_TEXT_KEY (PyStr t)) NP_STREAK_KEY (PyInt n)"
  define s2 where "s2 = (if window g \<le> n then snd (latch_halt s1 (no_progress_message n)) else s1)"
  have "(if py_eq (dict_get s NP_LAST_TEXT_KEY) (PyStr t)
         then int_plus_one (dict_get_default s NP_STREAK_KEY (PyInt 0)) else Inr 1) = Inr n"
    using assms(1) by (auto simp: np_tracks_def n_def trailing_run_snoc int_plus_one_def)
  then have step: "np_after_model_callback g s r = Inr s2"
    using assms(2,3) by (simp add: np_after_model_callback_def Let_def s2_def s1_def)
  have "np_tracks s2 (ts @ [t])"
    by (simp add: np_tracks_def s2_def s1_def n_def latch_halt_get_default latch_halt_frame)
  moreover have "guard_halted s2 \<longleftrightarrow> guard_halted s \<or> window g \<le> n"
    by (auto simp: s2_def s1_def guard_halted_def latch_halt_def no_progress_message_def)
  ultimately show ?thesis using step by (auto simp: n_def)
qed

text \<open>Some run of equal texts in the history reached the window.\<close>

fun run_reached :: "int \<Rightarrow> string list \<Rightarrow> string list \<Rightarrow> bool" where
  "run_reached w seen [] \<longleftrightarrow> False"
| "run_reached w seen (t # ts) \<longleftrightarrow>
     w \<le> int (trailing_run (seen @ [t])) \<or> run_reached w (seen @ [t]) ts"

lemma run_reached_snoc:
  "run_reached w seen (ts @ [t]) \<longleftrightarrow>
     run_reached w seen ts \<or> w \<le> int (trailing_run (seen @ ts @ [t]))"
  by (induction ts arbitrary: seen) auto

lemma np_run_tracks:
  assumes "np_tracks s []"
  shows "\<exists>s'. np_run g s rs = Inr s' \<and> np_tracks s' (spoken rs) \<and>
     (guard_halted s' \<longleftrightarrow> guard_halted s \<or> run_reached (window g) [] (spoken rs))"
proof (induction rs rule: rev_induct)
  case Nil
  then show ?case using assms by (simp add: spoken_def)
next
  case (snoc r rs)
  then obtain s1 where s1: "np_run g s rs = Inr s1" "np_tracks s1 (spoken rs)"
    "guard_halted s1 \<longleftrightarrow> guard_halted s \<or> run_reached (window g) [] (spoken rs)" by blast
  show ?case
  proof (cases "normalize_text r = []")
    case True
    then show ?thesis using s1
      by (simp add: np_run_append np_after_model_callback_def spoken_snoc)
  next
    case False
    from np_step_tracks [OF s1(2) refl False, of g] obtain s2 where
      "np_after_model_callback g s1 r = Inr s2" "np_tracks s2 (spoken rs @ [normalize_text r])"
      "guard_halted s2 \<longleftrightarrow> guard_halted s1 \<or> window g \<le> int (trailing_run (spoken rs @ [normalize_text r]))"
      by blast
    then show ?thesis using s1 False by (simp add: np_run_append spoken_snoc run_reached_snoc)
  qed
qed

lemma clear_halt_state_np: "np_tracks (clear_halt_state s) []"
  by (simp add: np_tracks_def clear_halt_state_def np_reset_def trailing_run_def)

lemma clear_halt_state_not_halted: "\<not> guard_halted (clear_halt_state s)"
  by (simp add: guard_halted_def clear_halt_state_def np_reset_def rf_reset_def reset_halt_handoff_def
      acknowledge_halt_def)

section \<open>Lemmas: the repeated-failure guard\<close>

text \<open>What the guard stores reads back unchanged.\<close>

lemma load_dump_items:
  "load_streaks_items (map (\<lambda>(sig, c, r, t).
      (sig, PyDict [(''count'', PyInt c), (''last_failure_at'', PyFloat r t)])) st) = Inr st"
  by (induction st) (auto simp: py_int_def py_float_def dict_get_default_def)

lemma load_dump [simp]: "load_streaks (dump_streaks st) = Inr st"
  by (simp add: load_streaks_def dump_streaks_def load_dump_items)

lemma map_of_fold_pop: "map_of (fold (\<lambda>k d. dict_pop d k) ks d) k = (if k \<in> set ks then None else map_of d k)"
  by (induction ks arbitrary: d) auto

lemma dict_wf_fold_pop: "dict_wf d \<Longrightarrow> dict_wf (fold (\<lambda>k d. dict_pop d k) ks d)"
  by (induction ks arbitrary: d) auto

text \<open>An entry that has not decayed at a given time.\<close>

definition live :: "rat \<Rightarrow> (int \<times> pyfloat) option \<Rightarrow> (int \<times> pyfloat) option" where
  "live now e = (case e of None \<Rightarrow> None | Some x \<Rightarrow> if now - fst (snd x) > DECAY_SECONDS then None else Some x)"

lemma live_later: "now \<le> now' \<Longrightarrow> live now e = live now f \<Longrightarrow> live now' e = live now' f"
  by (auto simp: live_def split: option.splits if_splits)

lemma live_None [simp]: "live now None = None"
  by (simp add: live_def)

lemma map_of_prune:
  assumes "dict_wf st"
  shows "map_of (prune_stale st now) k = live now (map_of st k)"
proof -
  have "k \<in> set [sig. (sig, entry) \<leftarrow> st, now - fst (snd entry) > DECAY_SECONDS] \<longleftrightarrow>
        (\<exists>e. (k, e) \<in> set st \<and> now - fst (snd e) > DECAY_SECONDS)"
    by force
  also have "\<dots> \<longleftrightarrow> (\<exists>e. map_of st k = Some e \<and> now - fst (snd e) > DECAY_SECONDS)"
    using assms by (simp add: dict_wf_def map_of_eq_Some_iff)
  finally show ?thesis
    by (auto simp: prune_stale_def Let_def map_of_fold_pop live_def split: option.splits)
qed

lemma dict_wf_prune: "dict_wf st \<Longrightarrow> dict_wf (prune_stale st now)"
  by (simp add: prune_stale_def Let_def dict_wf_fold_pop)

text \<open>Specification: for each call signature, how many times in a row it has failed, where a
  success or a gap of more than the decay time starts the count again.\<close>

record tool_event =
  ev_tool :: string
  ev_args :: pyval
  ev_resp :: pyval
  ev_now :: pyfloat

definition ev_sig :: "(string \<Rightarrow> string) \<Rightarrow> tool_event \<Rightarrow> string" where
  "ev_sig h ev = signature h (ev_tool ev) (ev_args ev)"

definition failures_after :: "(string \<rightharpoonup> int \<times> pyfloat) \<Rightarrow> string \<Rightarrow> rat \<Rightarrow> int" where
  "failures_after m sig now = (case live now (m sig) of None \<Rightarrow> 1 | Some (c, t) \<Rightarrow> c + 1)"

definition rf_spec :: "(string \<Rightarrow> string) \<Rightarrow> (string \<rightharpoonup> int \<times> pyfloat) \<Rightarrow> tool_event \<Rightarrow> (string \<rightharpoonup> int \<times> pyfloat)" where
  "rf_spec h m ev =
     (if is_failure (ev_resp ev)
      then m(ev_sig h ev \<mapsto> (failures_after m (ev_sig h ev) (fst (ev_now ev)), ev_now ev))
      else m(ev_sig h ev := None))"

definition rf_step :: "(string \<Rightarrow> string) \<Rightarrow> repeated_failure_guard \<Rightarrow> pydict \<Rightarrow> tool_event \<Rightarrow> pydict py" where
  "rf_step h g s ev = rf_after_tool_callback h g (ev_now ev) (ev_tool ev) (ev_args ev) (ev_resp ev) s"

fun rf_run :: "(string \<Rightarrow> string) \<Rightarrow> repeated_failure_guard \<Rightarrow> pydict \<Rightarrow> tool_event list \<Rightarrow> pydict py" where
  "rf_run h g s [] = Inr s"
| "rf_run h g s (ev # evs) = py_bind (rf_step h g s ev) (\<lambda>s'. rf_run h g s' evs)"

definition rf_tracks :: "pydict \<Rightarrow> (string \<rightharpoonup> int \<times> pyfloat) \<Rightarrow> rat \<Rightarrow> bool" where
  "rf_tracks s m now \<longleftrightarrow> (\<exists>st. load_streaks (dict_get s RF_STREAK_KEY) = Inr st \<and> dict_wf st \<and>
     (\<forall>k. live now (map_of st k) = live now (m k)))"

lemma rf_tracks_later: "rf_tracks s m now \<Longrightarrow> now \<le> now' \<Longrightarrow> rf_tracks s m now'"
  unfolding rf_tracks_def by (blast intro: live_later)

text \<open>The streak table after one callback, written once for both branches.\<close>

definition streaks_after :: "streaks \<Rightarrow> string \<Rightarrow> bool \<Rightarrow> pyfloat \<Rightarrow> streaks" where
  "streaks_after st sig failed now =
     (let pr = prune_stale st (fst now) in
      if failed then dict_set pr sig ((case map_of pr sig of None \<Rightarrow> 0 | Some (c, t) \<Rightarrow> c) + 1, now)
      else if map_of pr sig \<noteq> None then dict_pop pr sig else st)"

lemma streaks_after_spec:
  assumes wf: "dict_wf st" and tr: "\<And>k. live (fst (ev_now ev)) (map_of st k) = live (fst (ev_now ev)) (m k)"
    and sig: "sig = ev_sig h ev" and f: "failed \<longleftrightarrow> is_failure (ev_resp ev)"
  shows "dict_wf (streaks_after st sig failed (ev_now ev)) \<and>
    live (fst (ev_now ev)) (map_of (streaks_after st sig failed (ev_now ev)) k) =
    live (fst (ev_now ev)) (rf_spec h m ev k)"
proof -
  let ?now = "fst (ev_now ev)"
  note mp = map_of_prune [OF wf, of ?now]
  have idem: "live ?now (live ?now e) = live ?now e" for e
    by (simp add: live_def split: option.splits)
  have prior: "(case live ?now (m sig) of None \<Rightarrow> 0 | Some (c, t) \<Rightarrow> c) + 1 = failures_after m sig ?now"
    by (simp add: failures_after_def split: option.splits)
  have stays: "live ?now (m sig) = None \<Longrightarrow> live ?now (map_of st sig) = None" using tr by simp
  show ?thesis
    using wf tr f sig prior stays
    by (auto simp: streaks_after_def Let_def mp rf_spec_def idem dict_wf_prune
        split: option.splits)
qed

lemma rf_step_tracks:
  assumes "rf_tracks s m now" and "now \<le> fst (ev_now ev)"
  shows "\<exists>s'. rf_step h g s ev = Inr s' \<and> rf_tracks s' (rf_spec h m ev) (fst (ev_now ev)) \<and>
     (guard_halted s' \<longleftrightarrow> guard_halted s \<or>
        (is_failure (ev_resp ev) \<and> threshold g \<le> failures_after m (ev_sig h ev) (fst (ev_now ev))))"
proof -
  let ?now = "fst (ev_now ev)" and ?sig = "ev_sig h ev" and ?f = "is_failure (ev_resp ev)"
  from rf_tracks_later [OF assms] obtain st where
    ld: "load_streaks (dict_get s RF_STREAK_KEY) = Inr st" and wf: "dict_wf st"
    and tr: "\<And>k. live ?now (map_of st k) = live ?now (m k)" by (auto simp: rf_tracks_def)
  let ?st = "streaks_after st ?sig ?f (ev_now ev)"
  let ?count = "failures_after m ?sig ?now"
  have cnt: "(case map_of (prune_stale st ?now) ?sig of None \<Rightarrow> 0 | Some (c, t) \<Rightarrow> c) + 1 = ?count"
    by (simp add: map_of_prune [OF wf] tr failures_after_def split: option.splits)
  obtain s' where s': "rf_step h g s ev = Inr s'"
    and ls: "load_streaks (dict_get s' RF_STREAK_KEY) = Inr ?st"
    and hs: "guard_halted s' \<longleftrightarrow> guard_halted s \<or> (?f \<and> threshold g \<le> ?count)"
  proof (cases ?f)
    case True
    let ?s1 = "dict_set (dict_set s RF_STREAK_KEY (dump_streaks ?st)) LAST_ERROR_STATE_KEY
                 (PyStr (resp_error_text (ev_resp ev)))"
    let ?s2 = "if threshold g \<le> ?count
               then snd (latch_halt ?s1 (repeated_failure_message (ev_tool ev) ?count)) else ?s1"
    have "rf_step h g s ev = Inr ?s2"
      using ld True cnt
      by (simp add: rf_step_def rf_after_tool_callback_def Let_def ev_sig_def streaks_after_def)
    moreover have "dict_get ?s2 RF_STREAK_KEY = dump_streaks ?st" by (simp add: latch_halt_frame)
    moreover have "guard_halted ?s2 \<longleftrightarrow> guard_halted s \<or> threshold g \<le> ?count"
      by (auto simp: guard_halted_def latch_halt_def repeated_failure_message_def)
    ultimately show ?thesis using that True by simp
  next
    case False
    let ?s1 = "dict_set (if map_of (prune_stale st ?now) ?sig \<noteq> None
                 then dict_set s RF_STREAK_KEY (dump_streaks (dict_pop (prune_stale st ?now) ?sig)) else s)
                 LAST_ERROR_STATE_KEY PyNone"
    have "rf_step h g s ev = Inr ?s1"
      using ld False by (simp add: rf_step_def rf_after_tool_callback_def Let_def ev_sig_def)
    moreover have "load_streaks (dict_get ?s1 RF_STREAK_KEY) = Inr ?st"
      using ld False by (simp add: streaks_after_def Let_def)
    moreover have "guard_halted ?s1 \<longleftrightarrow> guard_halted s" by (simp add: guard_halted_def)
    ultimately show ?thesis using that False by simp
  qed
  have "rf_tracks s' (rf_spec h m ev) ?now"
    using ls streaks_after_spec [OF wf tr refl refl] by (auto simp: rf_tracks_def)
  with s' hs show ?thesis by blast
qed

text \<open>Whether some failure of the history reached the threshold.\<close>

fun rf_tripped :: "(string \<Rightarrow> string) \<Rightarrow> int \<Rightarrow> (string \<rightharpoonup> int \<times> pyfloat) \<Rightarrow> tool_event list \<Rightarrow> bool" where
  "rf_tripped h t m [] \<longleftrightarrow> False"
| "rf_tripped h t m (ev # evs) \<longleftrightarrow>
     (is_failure (ev_resp ev) \<and> t \<le> failures_after m (ev_sig h ev) (fst (ev_now ev)))
     \<or> rf_tripped h t (rf_spec h m ev) evs"

definition times_ok :: "rat \<Rightarrow> tool_event list \<Rightarrow> bool" where
  "times_ok now evs \<longleftrightarrow> sorted (now # map (\<lambda>ev. fst (ev_now ev)) evs)"

lemma rf_run_tracks:
  assumes "rf_tracks s m now" and "times_ok now evs"
  shows "\<exists>s'. rf_run h g s evs = Inr s' \<and>
     (guard_halted s' \<longleftrightarrow> guard_halted s \<or> rf_tripped h (threshold g) m evs)"
  using assms
proof (induction evs arbitrary: s m now)
  case Nil
  then show ?case by simp
next
  case (Cons ev evs)
  then have "now \<le> fst (ev_now ev)" and ok: "times_ok (fst (ev_now ev)) evs"
    by (auto simp: times_ok_def)
  from rf_step_tracks [OF Cons.prems(1) this(1), of h g] obtain s1 where
    s1: "rf_step h g s ev = Inr s1" "rf_tracks s1 (rf_spec h m ev) (fst (ev_now ev))"
    "guard_halted s1 \<longleftrightarrow> guard_halted s \<or>
        (is_failure (ev_resp ev) \<and> threshold g \<le> failures_after m (ev_sig h ev) (fst (ev_now ev)))"
    by blast
  from Cons.IH [OF s1(2) ok] s1(1,3) show ?case by auto
qed

lemma clear_halt_state_rf: "rf_tracks (clear_halt_state s) Map.empty now"
  by (simp add: rf_tracks_def clear_halt_state_def np_reset_def rf_reset_def load_streaks_def dict_wf_def)

section \<open>Properties\<close>

text \<open>From a fresh user turn the no-progress guard never raises, and it has latched a halt
  exactly when, among the non-empty normalised responses of the turn, some run of equal
  consecutive texts has reached the configured window.\<close>

theorem no_progress_halts_iff_run_reaches_window:
  "\<exists>s'. np_run g (clear_halt_state s) rs = Inr s' \<and>
     (guard_halted s' \<longleftrightarrow> run_reached (window g) [] (spoken rs))"
  using np_run_tracks [OF clear_halt_state_np, of g s rs] clear_halt_state_not_halted by blast

text \<open>C2: From a fresh user turn and with a clock that does not run backwards, the
  repeated-failure guard never raises, and it has latched a halt exactly when some call with
  one tool name and one set of arguments has failed as many times in a row as the threshold,
  where a success of that call or a gap of more than ten minutes restarts its count and calls
  with other arguments do not affect it.\<close>

theorem repeated_failure_halts_iff_threshold_reached:
  assumes "times_ok now evs"
  shows "\<exists>s'. rf_run sha256_hex g (clear_halt_state s) evs = Inr s' \<and>
     (guard_halted s' \<longleftrightarrow> rf_tripped sha256_hex (threshold g) Map.empty evs)"
  using rf_run_tracks [OF clear_halt_state_rf assms, of sha256_hex g s] clear_halt_state_not_halted
  by blast

definition demo_failures :: "tool_event list" where
  "demo_failures =
     [\<lparr>ev_tool = ''bash'', ev_args = PyDict [(''command'', PyStr ''make'')],
       ev_resp = PyDict [(''exit_code'', PyInt 2)], ev_now = (0, ''0.0'')\<rparr>,
      \<lparr>ev_tool = ''bash'', ev_args = PyDict [(''command'', PyStr ''make'')],
       ev_resp = PyDict [(''exit_code'', PyInt 2)], ev_now = (5, ''5.0'')\<rparr>]"

theorem repeated_failure_halts_iff_threshold_reached_witness:
  "times_ok 0 demo_failures \<and>
   (\<exists>s'. rf_run (\<lambda>_. ''d'') \<lparr>threshold = 2\<rparr> (clear_halt_state []) demo_failures = Inr s' \<and> guard_halted s')"
proof -
  have t: "times_ok 0 demo_failures" by (simp add: times_ok_def demo_failures_def)
  have "rf_tripped (\<lambda>_. ''d'') 2 Map.empty demo_failures"
    by (simp add: demo_failures_def is_failure_def nonzero_exit_def rf_spec_def failures_after_def
        live_def ev_sig_def signature_def DECAY_SECONDS_def)
  with t repeated_failure_halts_iff_threshold_reached
      [OF t, of "\<lambda>_. ''d''" "\<lparr>threshold = 2\<rparr>" "[]"]
  show ?thesis by auto
qed

text \<open>The reset at a user-turn boundary removes every trace of a halt: no reason is
  latched, the handoff may be delivered again, and neither guard can trip on its next event
  alone, so a halt needs the full window or threshold again.\<close>

theorem clear_halt_state_gives_fresh_turn:
  assumes "2 \<le> window (no_progress g)" and "2 \<le> threshold (repeated_failure g)"
    and "gp_after_model_callback g (clear_halt_state s) resp = Inr s1"
    and "gp_after_tool_callback h g now tool args result (clear_halt_state s) = Inr s2"
  shows "\<not> guard_halted (clear_halt_state s) \<and> \<not> guard_delivered (clear_halt_state s) \<and>
    gp_before_model_callback g (clear_halt_state s) req = Inr (None, req, clear_halt_state s) \<and>
    \<not> guard_halted s1 \<and> \<not> guard_halted s2"
proof -
  have nd: "\<not> guard_delivered (clear_halt_state s)"
    by (simp add: guard_delivered_def clear_halt_state_def np_reset_def rf_reset_def reset_halt_handoff_def
        acknowledge_halt_def halt_key_defs)
  have nr: "\<not> run_reached (window (no_progress g)) [] (spoken [resp])"
    using assms(1) by (simp add: spoken_def trailing_run_def)
  have "\<exists>s'. np_run (no_progress g) (clear_halt_state s) [resp] = Inr s' \<and> \<not> guard_halted s'"
    using np_run_tracks [OF clear_halt_state_np, of "no_progress g" s "[resp]"] nr
      clear_halt_state_not_halted by blast
  then have n1: "\<not> guard_halted s1" using assms(3) by (simp add: gp_after_model_callback_def)
  let ?ev = "\<lparr>ev_tool = tool, ev_args = args, ev_resp = result, ev_now = now\<rparr>"
  have "\<exists>s'. rf_step h (repeated_failure g) (clear_halt_state s) ?ev = Inr s' \<and> \<not> guard_halted s'"
    using rf_step_tracks [OF clear_halt_state_rf, of "fst now" ?ev h "repeated_failure g" s] assms(2)
      clear_halt_state_not_halted
    by (auto simp: failures_after_def)
  then have n2: "\<not> guard_halted s2"
    using assms(4) by (simp add: rf_step_def gp_after_tool_callback_def)
  have "gp_before_model_callback g (clear_halt_state s) req = Inr (None, req, clear_halt_state s)"
    unfolding gp_before_model_callback_def
    by (rule consumer.pass [OF TrueI clear_halt_state_not_halted])
  with nd n1 n2 clear_halt_state_not_halted show ?thesis by blast
qed

theorem clear_halt_state_gives_fresh_turn_witness:
  "\<exists>s1 s2. gp_after_model_callback \<lparr>repeated_failure = \<lparr>threshold = 3\<rparr>, no_progress = \<lparr>window = 5\<rparr>\<rparr>
       (clear_halt_state [(HALT_REASON_STATE_KEY, PyStr ''x'')]) \<lparr>resp_content = None\<rparr> = Inr s1 \<and>
     gp_after_tool_callback (\<lambda>_. []) \<lparr>repeated_failure = \<lparr>threshold = 3\<rparr>, no_progress = \<lparr>window = 5\<rparr>\<rparr>
       (0, ''0.0'') ''read'' PyNone PyNone (clear_halt_state [(HALT_REASON_STATE_KEY, PyStr ''x'')]) = Inr s2 \<and>
     \<not> guard_halted s1 \<and> \<not> guard_halted s2"
proof -
  let ?g = "\<lparr>repeated_failure = \<lparr>threshold = 3\<rparr>, no_progress = \<lparr>window = 5\<rparr>\<rparr>"
  let ?c = "clear_halt_state [(HALT_REASON_STATE_KEY, PyStr ''x'')]"
  have a: "gp_after_model_callback ?g ?c \<lparr>resp_content = None\<rparr> = Inr ?c"
    by (simp add: gp_after_model_callback_def np_after_model_callback_def normalize_text_def)
  obtain s2 where b: "gp_after_tool_callback (\<lambda>_. []) ?g (0, ''0.0'') ''read'' PyNone PyNone ?c = Inr s2"
    using rf_step_tracks [OF clear_halt_state_rf, of 0 "\<lparr>ev_tool = ''read'', ev_args = PyNone,
        ev_resp = PyNone, ev_now = (0, ''0.0'')\<rparr>" "\<lambda>_. []" "\<lparr>threshold = 3\<rparr>"]
    by (auto simp: rf_step_def gp_after_tool_callback_def)
  have "2 \<le> window (no_progress ?g)" "2 \<le> threshold (repeated_failure ?g)" by simp_all
  from a b clear_halt_state_gives_fresh_turn [OF this a b] show ?thesis by blast
qed

end
