(* ===== verification/Tool_Gate.thy ===== *)
theory Tool_Gate
  imports Exfil_Guard Policies Permission_Guard Halt_Guards
begin

text \<open>
  The chain of \<open>before_tool_callback\<close> guards the root agent runs (\<open>agent.py\<close>): exfiltration,
  policies, permission, top to bottom until one of them answers. The logging callback in front
  of them only stamps a display field and is left out. The contract every guard keeps is the
  locale \<open>before_tool_guard\<close>, interpreted on each guard and on the chain.
\<close>

section \<open>The contract of a guard\<close>

definition refusal :: "pydict \<Rightarrow> bool" where
  "refusal r \<longleftrightarrow> (\<exists>msg. dict_get r ''error'' = PyStr msg) \<and>
     (dict_get r ''confirmation_required'' = PyBool True \<or> dict_get r ''permission_denied'' = PyBool True)"

text \<open>A call that keeps coming back refused: the events the failure guard sees for it.\<close>

fun no_long_gap :: "tool_event list \<Rightarrow> bool" where
  "no_long_gap (e1 # e2 # es) \<longleftrightarrow> fst (ev_now e2) - fst (ev_now e1) \<le> DECAY_SECONDS \<and> no_long_gap (e2 # es)"
| "no_long_gap _ \<longleftrightarrow> True"

definition answered_event ::
    "(string \<Rightarrow> pyval \<Rightarrow> 'w \<Rightarrow> (pydict option \<times> 'w) py) \<Rightarrow> string \<Rightarrow> pyval \<Rightarrow> tool_event \<Rightarrow> bool" where
  "answered_event guard tn args ev \<longleftrightarrow> ev_tool ev = tn \<and> ev_args ev = args \<and>
     (\<exists>w r w'. guard tn args w = Inr (Some r, w') \<and> ev_resp ev = PyDict r)"

lemma identical_failures_trip:
  assumes "list_all (\<lambda>ev. is_failure (ev_resp ev) \<and> ev_sig h ev = sig) evs" and "no_long_gap evs"
    and "evs \<noteq> []" and "t < failures_after m sig (fst (ev_now (hd evs))) + int (length evs)"
  shows "rf_tripped h t m evs"
  using assms
proof (induction evs arbitrary: m)
  case (Cons ev evs)
  let ?n = "failures_after m sig (fst (ev_now ev))"
  have ev: "is_failure (ev_resp ev)" "ev_sig h ev = sig" using Cons.prems(1) by simp_all
  show ?case
  proof (cases "t \<le> ?n")
    case True
    then show ?thesis using ev by simp
  next
    case False
    then obtain e es where es: "evs = e # es" using Cons.prems(4) by (cases evs) auto
    have "failures_after (rf_spec h m ev) sig (fst (ev_now e)) = ?n + 1"
      using Cons.prems(2) ev es by (simp add: rf_spec_def failures_after_def [of "m(_ \<mapsto> _)"] live_def)
    moreover have "no_long_gap evs" using Cons.prems(2) es by simp
    ultimately have "rf_tripped h t (rf_spec h m ev) evs"
      using Cons.prems(1,4) es by (intro Cons.IH) simp_all
    then show ?thesis by simp
  qed
qed simp

lemma failing_call_halts:
  assumes "list_all (\<lambda>ev. is_failure (ev_resp ev) \<and> ev_sig sha256_hex ev = sig) evs"
    and "times_ok now evs" and "no_long_gap evs" and "1 \<le> threshold g" and "threshold g \<le> int (length evs)"
  shows "\<exists>s'. rf_run sha256_hex g (clear_halt_state s) evs = Inr s' \<and> guard_halted s'"
proof -
  have "evs \<noteq> []" using assms(4,5) by auto
  moreover have "failures_after Map.empty sig t = 1" for t by (simp add: failures_after_def)
  ultimately have "rf_tripped sha256_hex (threshold g) Map.empty evs"
    using assms(1,3,5) by (intro identical_failures_trip) auto
  then show ?thesis using rf_run_tracks [OF clear_halt_state_rf assms(2)] by blast
qed

text \<open>A guard whose answers carry an error: an answer short-circuits the call, and the failure guard
  counts it as a failure.\<close>

locale answering_guard =
  fixes guard :: "string \<Rightarrow> pyval \<Rightarrow> 'w \<Rightarrow> (pydict option \<times> 'w) py"
  assumes answer_has_error: "guard tn args w = Inr (Some r, w') \<Longrightarrow> \<exists>msg. dict_get r ''error'' = PyStr msg"
begin

lemma answer_is_failure: "guard tn args w = Inr (Some r, w') \<Longrightarrow> is_failure (PyDict r)"
proof -
  assume "guard tn args w = Inr (Some r, w')"
  then obtain msg where "dict_get r ''error'' = PyStr msg" using answer_has_error by blast
  then have "map_of r ''error'' \<noteq> None" by (auto simp: dict_get_def dict_get_default_def split: option.splits)
  then show ?thesis by (simp add: is_failure_def)
qed

lemma answered_event_fails:
  "answered_event guard tn args ev \<Longrightarrow> is_failure (ev_resp ev) \<and> ev_sig h ev = signature h tn args"
  by (auto simp: answered_event_def ev_sig_def dest!: answer_is_failure)

end

text \<open>The guards of the root agent promise more: they let a call without a tool name pass, and an answer
  asks for a confirmation or denies.\<close>

locale before_tool_guard =
  fixes guard :: "string \<Rightarrow> pyval \<Rightarrow> 'w \<Rightarrow> (pydict option \<times> 'w) py"
  assumes unnamed: "guard [] args w = Inr (None, w)"
    and answers: "guard tn args w = Inr (Some r, w') \<Longrightarrow> refusal r"
begin

lemma answer_names_tool: "guard tn args w = Inr (Some r, w') \<Longrightarrow> tn \<noteq> []"
  using unnamed [of args w] by auto

end

sublocale before_tool_guard \<subseteq> answering_guard guard
  by unfold_locales (use answers in \<open>auto simp: refusal_def\<close>)

section \<open>Sequencing guards\<close>

fun run_guards :: "(string \<Rightarrow> pyval \<Rightarrow> 'w \<Rightarrow> (pydict option \<times> 'w) py) list \<Rightarrow> string \<Rightarrow> pyval \<Rightarrow> 'w \<Rightarrow>
    (pydict option \<times> 'w) py" where
  "run_guards [] tn args w = Inr (None, w)"
| "run_guards (g # gs) tn args w =
     py_bind (g tn args w) (\<lambda>(r, w').
       case r of Some resp \<Rightarrow> Inr (Some resp, w') | None \<Rightarrow> run_guards gs tn args w')"

lemma run_guards_contract: "(\<And>g. g \<in> set gs \<Longrightarrow> before_tool_guard g) \<Longrightarrow> before_tool_guard (run_guards gs)"
proof (induction gs)
  case Nil
  show ?case by unfold_locales simp_all
next
  case (Cons g gs)
  have g: "before_tool_guard g" and gs: "before_tool_guard (run_guards gs)" using Cons by simp_all
  show ?case
  proof
    show "run_guards (g # gs) [] args w = Inr (None, w)" for args w
      using before_tool_guard.unnamed [OF g] before_tool_guard.unnamed [OF gs] by simp
  next
    fix tn args w r w' assume "run_guards (g # gs) tn args w = Inr (Some r, w')"
    then show "refusal r"
      using before_tool_guard.answers [OF g] before_tool_guard.answers [OF gs]
      by (auto simp: py_bind_Inr_iff split: option.splits)
  qed
qed

lemma run_guards_pass:
  "run_guards (g # gs) tn args w = Inr (None, w'') \<longleftrightarrow>
     (\<exists>w'. g tn args w = Inr (None, w') \<and> run_guards gs tn args w' = Inr (None, w''))"
  by (auto simp: py_bind_Inr_iff split: option.splits)

section \<open>The root agent's chain\<close>

record engines =
  eng_search :: "string \<Rightarrow> string \<Rightarrow> bool option"
  eng_search_ci :: "string \<Rightarrow> string \<Rightarrow> bool option"
  eng_compile :: "string \<Rightarrow> regex option"

record tool_world =
  tw_gate :: gate_world
  tw_exfil :: exfil_store
  tw_pol :: pol_store

abbreviation session_state :: "tool_world \<Rightarrow> pydict option" where
  "session_state w \<equiv> tc_state (gw_context (tw_gate w))"

definition exfil_step ::
    "engines \<Rightarrow> overlay_env option \<Rightarrow> string \<Rightarrow> pyval \<Rightarrow> tool_world \<Rightarrow> (pydict option \<times> tool_world) py" where
  "exfil_step eng env tn args w =
     py_bind (exfil_guard (eng_compile eng) env (gw_fs (tw_gate w)) tn args (session_state w) (tw_exfil w))
       (\<lambda>(r, st). Inr (r, w\<lparr>tw_exfil := st\<rparr>))"

definition policies_step ::
    "engines \<Rightarrow> overlay_env option \<Rightarrow> bool \<Rightarrow> string \<Rightarrow> pyval \<Rightarrow> tool_world \<Rightarrow> (pydict option \<times> tool_world) py" where
  "policies_step eng env ask_is_deny tn args w =
     (let (r, st) = policies_guard (eng_search_ci eng) env (gw_fs (tw_gate w)) ask_is_deny tn args (session_state w) (tw_pol w)
      in Inr (r, w\<lparr>tw_pol := st\<rparr>))"

definition permission_step ::
    "engines \<Rightarrow> overlay_env option \<Rightarrow> bool \<Rightarrow> rat \<Rightarrow> string \<Rightarrow> pyval \<Rightarrow> tool_world \<Rightarrow> (pydict option \<times> tool_world) py" where
  "permission_step eng env headless now tn args w =
     py_bind (permission_guard (eng_search eng) headless env now tn args (tw_gate w))
       (\<lambda>(r, gw). Inr (r, w\<lparr>tw_gate := gw\<rparr>))"

definition before_tool_chain ::
    "engines \<Rightarrow> overlay_env option \<Rightarrow> bool \<Rightarrow> rat \<Rightarrow> string \<Rightarrow> pyval \<Rightarrow> tool_world \<Rightarrow> (pydict option \<times> tool_world) py" where
  "before_tool_chain eng env headless now =
     run_guards [exfil_step eng env, policies_step eng env False, permission_step eng env headless now]"

section \<open>Every guard keeps the contract\<close>

lemma policy_block_refusal: "refusal (policy_block why rule src)"
  by (simp add: refusal_def policy_block_def)

lemma exfil_block_refusal: "refusal (exfil_block v)"
  by (simp add: refusal_def exfil_block_def Let_def)

lemma permission_refusals:
  "refusal (permission_denied_response tn dr)" "refusal (headless_denied_response tn)"
  "refusal (permission_pending_response tn)" "refusal (permission_declined_response tn)"
  by (simp_all add: refusal_def permission_denied_response_def headless_denied_response_def
      permission_pending_response_def permission_declined_response_def Let_def)

lemma first_block_refusal: "first_block re rules tn args = Some r \<Longrightarrow> refusal r"
  unfolding first_block_def by (drule first_some_Some) (auto simp: policy_block_refusal)

lemma policy_checks_refusal: "policy_checks re rules aid tn args = Some r \<Longrightarrow> refusal r"
proof -
  assume "policy_checks re rules aid tn args = Some r"
  from first_some_Some [OF this [unfolded policy_checks_def]] consider "first_block re rules tn args = Some r" | (syn) p where "synthetic_block re rules p = Some r"
    | (saf) "safety_block aid (command_for tn args) = Some r"
    by auto
  then show "refusal r"
  proof cases
    case syn
    then show ?thesis by (auto simp: synthetic_block_def first_block_refusal split: option.splits)
  next
    case saf
    then show ?thesis by (auto simp: safety_block_def policy_block_refusal split: option.splits if_splits)
  qed (rule first_block_refusal)
qed

lemma policies_guard_refusal: "policies_guard re env fs aid tn args state st = (Some r, st') \<Longrightarrow> refusal r"
  by (auto simp: policies_guard_def Let_def split: prod.splits if_splits dest: policy_checks_refusal)

lemma permission_answer_refusal:
  "permission_answer env now tn rule outcomes c w = Inr (Some r, w') \<Longrightarrow> refusal r"
  by (auto simp: permission_answer_def Let_def py_bind_Inr_iff permission_refusals split: if_splits option.splits)

lemma permission_ask_refusal:
  "permission_ask headless env now tn pp cmd w = Inr (Some r, w') \<Longrightarrow> refusal r"
  by (auto simp: permission_ask_def Let_def py_bind_Inr_iff permission_refusals dest: permission_answer_refusal
      split: if_splits option.splits prod.splits)

lemma permission_guard_refusal:
  "permission_guard re headless env now tn args w = Inr (Some r, w') \<Longrightarrow> refusal r"
  by (auto simp: permission_guard_def Let_def py_bind_Inr_iff permission_refusals dest: permission_ask_refusal
      split: if_splits decision.splits) (metis decision.exhaust)

interpretation exfil: before_tool_guard "exfil_step eng env" for eng env
proof
  show "exfil_step eng env [] args w = Inr (None, w)" for args w by (simp add: exfil_step_def exfil_guard_def)
  show "exfil_step eng env tn args w = Inr (Some r, w') \<Longrightarrow> refusal r" for tn args w r w'
    by (auto simp: exfil_step_def exfil_guard_def py_bind_Inr_iff exfil_block_refusal split: option.splits if_splits)
qed

interpretation policies: before_tool_guard "policies_step eng env aid" for eng env aid
proof
  show "policies_step eng env aid [] args w = Inr (None, w)" for args w by (simp add: policies_step_def policies_guard_def)
  show "policies_step eng env aid tn args w = Inr (Some r, w') \<Longrightarrow> refusal r" for tn args w r w'
    by (auto simp: policies_step_def Let_def split: prod.splits dest: policies_guard_refusal)
qed

interpretation permission: before_tool_guard "permission_step eng env headless now" for eng env headless now
proof
  show "permission_step eng env headless now [] args w = Inr (None, w)" for args w
    by (simp add: permission_step_def permission_guard_def)
  show "permission_step eng env headless now tn args w = Inr (Some r, w') \<Longrightarrow> refusal r" for tn args w r w'
    by (auto simp: permission_step_def py_bind_Inr_iff dest: permission_guard_refusal)
qed

interpretation chain: before_tool_guard "before_tool_chain eng env headless now" for eng env headless now
  unfolding before_tool_chain_def
  by (rule run_guards_contract)
     (auto intro: exfil.before_tool_guard_axioms policies.before_tool_guard_axioms permission.before_tool_guard_axioms)

section \<open>Passing the chain\<close>

lemma exfil_step_pass:
  "exfil_step eng env tn args w = Inr (None, w') \<longleftrightarrow>
   (\<exists>st. exfil_guard (eng_compile eng) env (gw_fs (tw_gate w)) tn args (session_state w) (tw_exfil w) = Inr (None, st) \<and>
         w' = w\<lparr>tw_exfil := st\<rparr>)"
  by (auto simp: exfil_step_def py_bind_Inr_iff)

lemma policies_step_pass:
  "policies_step eng env aid tn args w = Inr (None, w') \<longleftrightarrow>
   (\<exists>st. policies_guard (eng_search_ci eng) env (gw_fs (tw_gate w)) aid tn args (session_state w) (tw_pol w) = (None, st) \<and>
         w' = w\<lparr>tw_pol := st\<rparr>)"
  by (auto simp: policies_step_def split: prod.splits)

lemma permission_step_pass:
  "permission_step eng env headless now tn args w = Inr (None, w') \<longleftrightarrow>
   (\<exists>gw. permission_guard (eng_search eng) headless env now tn args (tw_gate w) = Inr (None, gw) \<and>
         w' = w\<lparr>tw_gate := gw\<rparr>)"
  by (auto simp: permission_step_def py_bind_Inr_iff)

text \<open>The first two guards leave what the third one reads, so all three judge the same call in the
  same session.\<close>

lemma before_tool_chain_pass:
  "before_tool_chain eng env headless now tn args w = Inr (None, w') \<longleftrightarrow>
   (\<exists>est pst gw.
      exfil_guard (eng_compile eng) env (gw_fs (tw_gate w)) tn args (session_state w) (tw_exfil w) = Inr (None, est) \<and>
      policies_guard (eng_search_ci eng) env (gw_fs (tw_gate w)) False tn args (session_state w) (tw_pol w) = (None, pst) \<and>
      permission_guard (eng_search eng) headless env now tn args (tw_gate w) = Inr (None, gw) \<and>
      w' = w\<lparr>tw_exfil := est, tw_pol := pst, tw_gate := gw\<rparr>)"
  unfolding before_tool_chain_def run_guards_pass exfil_step_pass policies_step_pass permission_step_pass
  by auto

definition tool_start :: "confirmation option \<Rightarrow> tool_world" where
  "tool_start conf = \<lparr>tw_gate = gate_start conf, tw_exfil = fresh_exfil_store, tw_pol = fresh_pol_store\<rparr>"

definition bash_args :: "string \<Rightarrow> pyval" where
  "bash_args c = PyDict [(''command'', PyStr c)]"

lemma empty_state_not_granted: "\<not> granted (Some []) tn args"
  by (simp add: granted_def find_matching_grant_def active_grants_def)

lemma default_exfil_step:
  assumes "evaluate_exfil BASH (bash_args c) default_config = None"
  shows "exfil_step eng None BASH (bash_args c) (tool_start conf) = Inr (None, tool_start conf)"
  using assms by (simp add: exfil_step_def exfil_guard_def load_exfil_config_for_env_def tool_start_def BASH_def)

lemma default_policies_step:
  assumes "first_block (eng_search_ci eng) read_default_seed BASH (bash_args c) = None"
  shows "policies_step eng None aid BASH (bash_args c) (tool_start conf) = Inr (safety_block aid (Some c), tool_start conf)"
proof -
  have l: "load_policies_for_env None fs fresh_pol_store = (read_default_seed, fresh_pol_store)" for fs
    by (simp add: load_policies_for_env_def)
  have "policy_checks (eng_search_ci eng) read_default_seed aid BASH (bash_args c) = safety_block aid (Some c)"
    using assms by (simp add: policy_checks_def bash_args_def process_args synthetic_block_def split: option.split)
  moreover have "tw_pol (tool_start conf) = fresh_pol_store" "session_state (tool_start conf) = Some []"
    "(tool_start conf)\<lparr>tw_pol := fresh_pol_store\<rparr> = tool_start conf" "BASH \<noteq> []"
    by (simp_all add: tool_start_def BASH_def)
  ultimately show ?thesis
    using empty_state_not_granted [of BASH "bash_args c"]
    by (simp add: policies_step_def policies_guard_def l granted_def)
qed

lemma default_permission_step:
  assumes "fst (shell_decision (eng_search eng) default_rules BASH c None) = Allow"
  shows "permission_step eng None headless now BASH (bash_args c) (tool_start conf) = Inr (None, tool_start conf)"
proof -
  have cmd: "shell_command BASH (bash_args c) = Some c" by (simp add: shell_command_def bash_args_def)
  have "permission_guard (eng_search eng) headless None now BASH (bash_args c) (gate_start conf) = Inr (None, gate_start conf)"
    using permission_guard_allow [OF cmd, of None "gate_start conf" default_rules fresh_perm_store "eng_search eng"] assms
    by (simp add: default_effective)
  then show ?thesis by (simp add: permission_step_def tool_start_def)
qed

lemma default_chain_passes:
  assumes "evaluate_exfil BASH (bash_args c) default_config = None"
    and "first_block (eng_search_ci eng) read_default_seed BASH (bash_args c) = None"
    and "safety_block False (Some c) = None"
    and "fst (shell_decision (eng_search eng) default_rules BASH c None) = Allow"
  shows "before_tool_chain eng None headless now BASH (bash_args c) (tool_start conf) = Inr (None, tool_start conf)"
  using default_exfil_step [OF assms(1)] default_policies_step [OF assms(2)] default_permission_step [OF assms(4)] assms(3)
  by (simp add: before_tool_chain_def)

lemma regex_hit_quiet:
  assumes "\<forall>p \<in> set seed_regexes. re p c \<noteq> Some True"
  shows "regex_hit re [(''command'', PyList (map PyStr seed_regexes))] [(''command'', PyStr c)] = None"
  unfolding regex_hit_def first_some_None_iff using assms by (auto simp del: first_some.simps)

lemma seed_tools:
  "apply_tool_aliases ''terminal'' = BASH" "apply_tool_aliases ''write_file'' = WRITE"
  "apply_tool_aliases ''patch'' = EDIT" "BASH \<noteq> WRITE" "BASH \<noteq> EDIT" "BASH \<noteq> ''terminal''"
  "WRITE \<noteq> ''write_file''" "EDIT \<noteq> ''patch''"
  by code_simp+

lemma first_block_quiet:
  assumes "\<forall>p \<in> set seed_regexes. re p c \<noteq> Some True"
    and "substring_hit [(''command'', PyList (map PyStr seed_substrings))] [(''command'', PyStr c)] = None"
  shows "first_block re read_default_seed BASH (bash_args c) = None"
  using assms(2) regex_hit_quiet [where re = re and c = c] assms(1)
  by (simp add: first_block_def read_default_seed_eq policy_objects_def default_policies_def seed_path_rule_def
      alias_canonical_tool_name_def evaluate_rule_def bash_args_def seed_tools seed_tools(4,5) [symmetric])

definition hidden_delete :: string where
  "hidden_delete = ''ls'' @ [NL] @ ''rm -rf /''"

lemma hidden_delete_facts:
  "evaluate_exfil BASH (bash_args hidden_delete) default_config = None"
  "substring_hit [(''command'', PyList (map PyStr seed_substrings))] [(''command'', PyStr hidden_delete)] = None"
  "safety_block False (Some hidden_delete) = None"
  "fst (shell_decision re default_rules BASH hidden_delete None) = Allow"
  by code_simp+

section \<open>Properties\<close>

text \<open>C9: A tool call runs only when all three guards let it pass in the session as it was before
  the call; and then, unless an exact grant names it, none of the rules in force for the
  environment, the tenant's with the bundled ones, blocks it, and it is no shell command that
  the classifier denies: neither an approval of the user, nor yolo mode, nor a headless run
  lifts that floor.\<close>

theorem tool_call_passes_every_guard:
  assumes "before_tool_chain eng env headless now tn args w = Inr (None, w')" and "tn \<noteq> []"
    and "pol_store_ok (tw_pol w)"
  shows "(\<exists>est. exfil_guard (eng_compile eng) env (gw_fs (tw_gate w)) tn args (session_state w) (tw_exfil w) = Inr (None, est)) \<and>
    (\<exists>pst. policies_guard (eng_search_ci eng) env (gw_fs (tw_gate w)) False tn args (session_state w) (tw_pol w) = (None, pst)) \<and>
    (\<exists>gw. permission_guard (eng_search eng) headless env now tn args (tw_gate w) = Inr (None, gw)) \<and>
    (granted (session_state w) tn args \<or>
       (first_block (eng_search_ci eng) (fst (load_policies_for_env env (gw_fs (tw_gate w)) (tw_pol w))) tn args = None \<and>
        first_block (eng_search_ci eng) read_default_seed tn args = None \<and>
        \<not> (\<exists>c why. command_for tn args = Some c \<and> classify c = Some (TDeny, why)))) \<and>
    pol_store_ok (tw_pol w')"
proof -
  obtain est pst gw where
    e: "exfil_guard (eng_compile eng) env (gw_fs (tw_gate w)) tn args (session_state w) (tw_exfil w) = Inr (None, est)" and
    p: "policies_guard (eng_search_ci eng) env (gw_fs (tw_gate w)) False tn args (session_state w) (tw_pol w) = (None, pst)" and
    g: "permission_guard (eng_search eng) headless env now tn args (tw_gate w) = Inr (None, gw)" and
    w': "w' = w\<lparr>tw_exfil := est, tw_pol := pst, tw_gate := gw\<rparr>"
    using assms(1) unfolding before_tool_chain_pass by blast
  have "first_block (eng_search_ci eng) (fst (load_policies_for_env env (gw_fs (tw_gate w)) (tw_pol w))) tn args = None \<and>
       first_block (eng_search_ci eng) read_default_seed tn args = None \<and>
        \<not> (\<exists>c why. command_for tn args = Some c \<and> classify c = Some (TDeny, why))"
    if ng: "\<not> granted (session_state w) tn args"
  proof -
    have none: "fst (policies_guard (eng_search_ci eng) env (gw_fs (tw_gate w)) False tn args (session_state w) (tw_pol w)) = None"
      using p by simp
    then have "first_block (eng_search_ci eng) (fst (load_policies_for_env env (gw_fs (tw_gate w)) (tw_pol w))) tn args = None"
      using policies_guard_blocked_iff [OF assms(2) ng surjective_pairing] by blast
    moreover have "first_block (eng_search_ci eng) read_default_seed tn args = None \<and>
        \<not> (\<exists>c why. command_for tn args = Some c \<and> classify c = Some (TDeny, why))"
      using policies_floor [OF assms(3,2) ng] none by blast
    ultimately show ?thesis by blast
  qed
  moreover have "pol_store_ok (tw_pol w')"
    using policies_guard_store_ok [OF assms(3)] p w' by (metis snd_conv tool_world.select_convs(3) tool_world.surjective tool_world.update_convs(1,3))
  ultimately show ?thesis using e p g by blast
qed

lemma ls_facts:
  "evaluate_exfil BASH (bash_args ''ls'') default_config = None"
  "substring_hit [(''command'', PyList (map PyStr seed_substrings))] [(''command'', PyStr ''ls'')] = None"
  "safety_block False (Some ''ls'') = None"
  "fst (shell_decision re default_rules BASH ''ls'' None) = Allow"
  by code_simp+

definition quiet_engines :: engines where
  "quiet_engines = \<lparr>eng_search = no_regex, eng_search_ci = no_regex, eng_compile = (\<lambda>_. None)\<rparr>"

lemma quiet_engines_quiet: "\<forall>p \<in> set seed_regexes. eng_search_ci quiet_engines p c \<noteq> Some True"
  by (simp add: quiet_engines_def no_regex_def)

theorem tool_call_passes_every_guard_witness:
  "before_tool_chain quiet_engines None False 0 BASH (bash_args ''ls'') (tool_start None) = Inr (None, tool_start None) \<and>
   (granted (Some []) BASH (bash_args ''ls'') \<or>
     first_block no_regex read_default_seed BASH (bash_args ''ls'') = None)"
proof -
  have p: "before_tool_chain quiet_engines None False 0 BASH (bash_args ''ls'') (tool_start None) = Inr (None, tool_start None)"
    using ls_facts first_block_quiet [OF quiet_engines_quiet ls_facts(2)] by (intro default_chain_passes)
  have "BASH \<noteq> []" "pol_store_ok (tw_pol (tool_start None))"
    by (simp_all add: BASH_def tool_start_def fresh_pol_store_ok)
  from tool_call_passes_every_guard [OF p this] p show ?thesis
    by (auto simp: tool_start_def quiet_engines_def)
qed

text \<open>C10: An agent cannot hammer at a refused call: when one call with the same arguments is refused
  by the chain at least as often as the failure guard's threshold, with no gap longer than the
  decay time, the guard has latched a halt, whatever else the guards and sessions hold.\<close>

theorem hammering_a_refused_call_halts:
  assumes "list_all (\<lambda>ev. answered_event (before_tool_chain eng env headless (fst (ev_now ev))) tn args ev) evs"
    and "times_ok now evs" and "no_long_gap evs"
    and "1 \<le> threshold g" and "threshold g \<le> int (length evs)"
  shows "\<exists>s'. rf_run sha256_hex g (clear_halt_state s) evs = Inr s' \<and> guard_halted s'"
  using assms(1) chain.answered_event_fails
  by (intro failing_call_halts [OF _ assms(2-5), where sig = "signature sha256_hex tn args"]) (auto simp: list_all_iff)

definition refused_delete :: "rat \<Rightarrow> tool_event" where
  "refused_delete t = \<lparr>ev_tool = BASH, ev_args = bash_args ''rm -rf /'',
     ev_resp = PyDict (policy_block ''recursive force-delete of a system/home root''
       [(''command_safety'', PyStr ''deny'')] ''command_safety''), ev_now = (t, [])\<rparr>"

lemma root_delete_facts:
  "evaluate_exfil BASH (bash_args ''rm -rf /'') default_config = None"
  "substring_hit [(''command'', PyList (map PyStr seed_substrings))] [(''command'', PyStr ''rm -rf /'')] = None"
  "classify ''rm -rf /'' = Some (TDeny, ''recursive force-delete of a system/home root'')"
  by code_simp+

theorem hammering_a_refused_call_halts_witness:
  "\<exists>s'. rf_run (\<lambda>_. ''d'') \<lparr>threshold = 2\<rparr> (clear_halt_state []) [refused_delete 0, refused_delete 7] = Inr s' \<and> guard_halted s'"
proof -
  have "first_block no_regex read_default_seed BASH (bash_args ''rm -rf /'') = None"
    by (rule first_block_quiet [OF _ root_delete_facts(2)]) (simp add: no_regex_def)
  then have "before_tool_chain quiet_engines None False t BASH (bash_args ''rm -rf /'') (tool_start None) =
      Inr (Some (policy_block ''recursive force-delete of a system/home root''
       [(''command_safety'', PyStr ''deny'')] ''command_safety''), tool_start None)" for t
    using default_exfil_step [OF root_delete_facts(1)] root_delete_facts(3)
      default_policies_step [of quiet_engines "''rm -rf /''" False]
    by (simp add: before_tool_chain_def quiet_engines_def safety_block_def tier_str_def)
  then have "answered_event (before_tool_chain quiet_engines None False u) BASH (bash_args ''rm -rf /'') (refused_delete t)" for t u
    unfolding answered_event_def refused_delete_def by auto
  then show ?thesis
    by (intro hammering_a_refused_call_halts [where eng = quiet_engines and env = None and headless = False
          and tn = BASH and args = "bash_args ''rm -rf /''" and now = 0])
       (simp_all add: times_ok_def DECAY_SECONDS_def, simp_all add: refused_delete_def)
qed

text \<open>C11: The classifier reads a line feed as blank space, so a command it would deny passes when it
  stands on a second line: in a fresh session under the default configuration the whole chain
  lets \<open>ls\<close> followed by a line with a forced recursive delete of the root run without a
  request, while the same two commands joined by a semicolon are denied.\<close>

theorem second_line_escapes_the_classifier:
  assumes "\<forall>p \<in> set seed_regexes. eng_search_ci eng p hidden_delete \<noteq> Some True"
  shows "before_tool_chain eng None headless now BASH (bash_args hidden_delete) (tool_start None) =
      Inr (None, tool_start None) \<and>
    (\<exists>why. classify ''ls; rm -rf /'' = Some (TDeny, why))"
proof
  show "before_tool_chain eng None headless now BASH (bash_args hidden_delete) (tool_start None) =
      Inr (None, tool_start None)"
    using hidden_delete_facts first_block_quiet [of "eng_search_ci eng" hidden_delete, OF assms hidden_delete_facts(2)]
    by (intro default_chain_passes)
  have "classify ''ls; rm -rf /'' = Some (TDeny, ''recursive force-delete of a system/home root'')" by code_simp
  then show "\<exists>why. classify ''ls; rm -rf /'' = Some (TDeny, why)" by blast
qed

theorem second_line_escapes_the_classifier_witness:
  "before_tool_chain quiet_engines None False 0 BASH (bash_args hidden_delete) (tool_start None) = Inr (None, tool_start None)"
  using second_line_escapes_the_classifier [OF quiet_engines_quiet] by blast

end
