(* ===== verification/Child_Guard.thy ===== *)
theory Child_Guard
  imports Tool_Gate
begin

text \<open>
  The guard of a delegated sub-agent (\<open>subagents/child_guard.py\<close>) with the profiles
  (\<open>subagents/profiles.py\<close>), the approval budget of a delegation
  (\<open>subagents/resurface_context.py\<close>) and the child's question to its parent
  (\<open>subagents/ask_parent.py\<close>). The budget, a context variable of the code, is a field of the
  world a call sees. The agent framework runs each tool call in its own copy of the context, as
  \<open>subagents/registry.py\<close> relies on, so what a call sets is gone when the call is over.
\<close>

section \<open>Profiles\<close>

record child_profile =
  prof_name :: string
  prof_description :: string
  allowed_tool_names :: "string list option"

definition PROFILES :: "(string \<times> child_profile) list" where
  "PROFILES = [(''explore'', \<lparr>prof_name = ''explore'',
     prof_description = ''Read-only researcher: file reads and search only, no writes, no shell, no network.'',
     allowed_tool_names = Some [READ, SEARCH_FILES]\<rparr>)]"

definition get_profile :: "string \<Rightarrow> child_profile py" where
  "get_profile name = (case map_of PROFILES name of None \<Rightarrow> Inl (KeyError name) | Some p \<Rightarrow> Inr p)"

definition render_profiles_block :: string where
  "render_profiles_block =
     py_join [NL] (''## Child profiles (pass profile=<name> to lock a child down)''
       # map (\<lambda>(_, p). ''- '' @ prof_name p @ '': '' @ prof_description p)
           (sort_items (map (\<lambda>(_, p). (prof_name p, p)) PROFILES)))"

section \<open>The approval budget\<close>

record child_world =
  cw_tool :: tool_world
  cw_budget :: "int option"

definition try_consume_bubble :: "child_world \<Rightarrow> bool \<times> child_world" where
  "try_consume_bubble w = (case cw_budget w of
       None \<Rightarrow> (False, w)
     | Some b \<Rightarrow> if b \<le> 0 then (False, w) else (True, w\<lparr>cw_budget := Some (b - 1)\<rparr>))"

text \<open>A drain runs its body with its own budget and restores the old one.\<close>

definition child_drain :: "int \<Rightarrow> (child_world \<Rightarrow> child_world) \<Rightarrow> child_world \<Rightarrow> child_world" where
  "child_drain b body w = (body (w\<lparr>cw_budget := Some b\<rparr>))\<lparr>cw_budget := cw_budget w\<rparr>"

abbreviation cw_context :: "child_world \<Rightarrow> tool_context" where
  "cw_context w \<equiv> gw_context (tw_gate (cw_tool w))"

definition cw_set_context :: "tool_context \<Rightarrow> child_world \<Rightarrow> child_world" where
  "cw_set_context tc w = w\<lparr>cw_tool := (cw_tool w)\<lparr>tw_gate := (tw_gate (cw_tool w))\<lparr>gw_context := tc\<rparr>\<rparr>\<rparr>"

section \<open>The guard\<close>

definition deny_msg :: "string \<Rightarrow> child_profile \<Rightarrow> string" where
  "deny_msg tool_name profile =
     (let allowed = sorted_strings (case allowed_tool_names profile of None \<Rightarrow> [] | Some ts \<Rightarrow> ts)
      in ''tool '' @ py_repr_str tool_name @ '' is not permitted under the '' @ py_repr_str (prof_name profile)
         @ '' profile (allowed: '' @ py_repr (PyList (map PyStr allowed)) @ '').'')"

definition normalize_grants :: "pyval \<Rightarrow> pyval list" where
  "normalize_grants parent_grants = (case parent_grants of
       PyList gs \<Rightarrow> filter (\<lambda>g. as_dict g \<noteq> None) gs | _ \<Rightarrow> [])"

definition write_grant :: "pydict option \<Rightarrow> string \<Rightarrow> string list option \<Rightarrow> pydict option" where
  "write_grant state tool_name proposed_prefix =
     (case state of
        None \<Rightarrow> None
      | Some s \<Rightarrow>
          snd (write_session_grants state (read_session_grants state @ [PyDict (proposed_rule tool_name proposed_prefix)])))"

definition approval_payload :: "string \<Rightarrow> string \<Rightarrow> string list option \<Rightarrow> pydict" where
  "approval_payload tool_name summary proposed_prefix =
     (let target = label_target tool_name proposed_prefix
      in [(''kind'', PyStr ''permission''), (''toolName'', PyStr tool_name), (''summary'', PyStr summary),
          (''question'', PyStr summary),
          (''choices'', PyList (map PyStr [''Yes, once'', ''Yes '' @ EMDASH @ '' allow '' @ target @ '' this session'',
             ''Always allow '' @ target, ''Decline'']))])"

definition resurface_exhausted_response :: "string \<Rightarrow> pydict" where
  "resurface_exhausted_response tool_name =
     [(''error'', PyStr (''This delegated task needs approval for '' @ tool_name @ '', but the single ''
         @ ''approval available per delegate run was already used. Split the work ''
         @ ''into separate delegate calls or pre-grant the operation.'')),
      (''permission_denied'', PyBool True), (''resurface_exhausted'', PyBool True)]"

text \<open>The decision \<open>ask_user\<close>: an answer that came back, else the one request of the budget.\<close>

definition resurface_ask :: "string \<Rightarrow> string list option \<Rightarrow> string option \<Rightarrow> child_world \<Rightarrow> pydict option \<times> child_world" where
  "resurface_ask tool_name proposed_prefix command w =
     (case tool_confirmation (cw_context w) of
        Some c \<Rightarrow>
          if confirmed c
          then (None, cw_set_context ((cw_context w)\<lparr>tc_state :=
                  write_grant (tc_state (cw_context w)) tool_name proposed_prefix\<rparr>) w)
          else (Some (permission_declined_response tool_name), w)
      | None \<Rightarrow>
          (let (ok, w') = try_consume_bubble w
           in if ok then
                (let summary = (case command of Some c \<Rightarrow> ''Run: '' @ c | None \<Rightarrow> ''Allow tool: '' @ tool_name);
                     tc' = snd (request_user_confirmation (cw_context w') summary
                                  (approval_payload tool_name summary proposed_prefix))
                 in (Some (permission_pending_response tool_name), cw_set_context tc' w'))
              else (Some (resurface_exhausted_response tool_name), w')))"

definition resurface_decision ::
    "engines \<Rightarrow> overlay_env option \<Rightarrow> string \<Rightarrow> pyval \<Rightarrow> child_world \<Rightarrow> (pydict option \<times> child_world) py" where
  "resurface_decision eng env tool_name args w =
     (let g = tw_gate (cw_tool w) in
      py_bind (resolve_permission_decision (eng_search eng) env tool_name args (tc_state (gw_context g))
                 (tc_agent_name (gw_context g)) (gw_fs g) (gw_store g))
        (\<lambda>((d, deny_rule, proposed_prefix, command), st').
          let w = w\<lparr>cw_tool := (cw_tool w)\<lparr>tw_gate := g\<lparr>gw_store := st'\<rparr>\<rparr>\<rparr> in
          case d of
            Allow \<Rightarrow> Inr (None, w)
          | Deny \<Rightarrow> Inr (Some (permission_denied_response tool_name deny_rule), w)
          | AskUser \<Rightarrow> Inr (resurface_ask tool_name proposed_prefix command w)))"

definition ASK_PARENT_TOOL_NAME :: string where
  "ASK_PARENT_TOOL_NAME = ''ask_parent''"

definition profile_denies :: "child_profile option \<Rightarrow> string \<Rightarrow> bool" where
  "profile_denies profile tool_name \<longleftrightarrow>
     (case profile of None \<Rightarrow> False
      | Some p \<Rightarrow> (case allowed_tool_names p of None \<Rightarrow> False | Some ts \<Rightarrow> tool_name \<notin> set ts))"

text \<open>The grants of the parent become the child's unless it has some already.\<close>

definition inherit_grants :: "pyval list \<Rightarrow> pydict option \<Rightarrow> pydict option" where
  "inherit_grants grants state = (case state of
       None \<Rightarrow> None
     | Some s \<Rightarrow> if grants \<noteq> [] \<and> \<not> truthy (dict_get s POLICY_GRANTS_STATE_KEY)
                 then Some (dict_set s POLICY_GRANTS_STATE_KEY (PyList grants)) else state)"

definition lift_tool ::
    "(tool_world \<Rightarrow> (pydict option \<times> tool_world) py) \<Rightarrow> child_world \<Rightarrow> (pydict option \<times> child_world) py" where
  "lift_tool step w = py_bind (step (cw_tool w)) (\<lambda>(r, tw). Inr (r, w\<lparr>cw_tool := tw\<rparr>))"

definition child_policy_guard ::
    "engines \<Rightarrow> overlay_env option \<Rightarrow> pyval \<Rightarrow> child_profile option \<Rightarrow> string \<Rightarrow> pyval \<Rightarrow> child_world \<Rightarrow>
      (pydict option \<times> child_world) py" where
  "child_policy_guard eng env parent_grants profile tool_name args w =
     (if tool_name = ASK_PARENT_TOOL_NAME then Inr (None, w)
      else if profile_denies profile tool_name
      then Inr (Some [(''error'', PyStr (deny_msg tool_name (the profile))), (''denied_by_profile'', PyBool True)], w)
      else
        (let w = cw_set_context ((cw_context w)\<lparr>tc_state :=
                   inherit_grants (normalize_grants parent_grants) (tc_state (cw_context w))\<rparr>) w
         in run_guards
              ([\<lambda>tn args. lift_tool (exfil_step eng env tn args)] @
               (if cw_budget w = None
                then [\<lambda>tn args. lift_tool (policies_step eng env True tn args)]
                else [\<lambda>tn args. lift_tool (policies_step eng env False tn args), resurface_decision eng env]))
              tool_name args w))"

section \<open>The question to the parent\<close>

definition NO_PARENT_NOTE :: string where
  "NO_PARENT_NOTE = ''No parent is available to answer (background/headless run, or the single ''
     @ ''escalation for this task was already used). Make the most reasonable ''
     @ ''interpretation and note the assumption in your summary.''"

definition extract_answer :: "pyval \<Rightarrow> string option" where
  "extract_answer payload = (case payload of
       PyDict d \<Rightarrow>
         (let ans = (if truthy (dict_get d ''answer'') then dict_get d ''answer'' else dict_get d ''choice'')
          in case ans of PyStr s \<Rightarrow> if py_strip s \<noteq> [] then Some (py_strip s) else None | _ \<Rightarrow> None)
     | PyStr s \<Rightarrow> if py_strip s \<noteq> [] then Some (py_strip s) else None
     | _ \<Rightarrow> None)"

definition str_or_none :: "string option \<Rightarrow> pyval" where
  "str_or_none s = (case s of None \<Rightarrow> PyNone | Some t \<Rightarrow> PyStr t)"

definition ask_parent :: "string \<Rightarrow> child_world \<Rightarrow> pydict \<times> child_world" where
  "ask_parent question0 w =
     (if py_strip question0 = []
      then ([(''success'', PyBool False), (''error'', PyStr ''Question text is required.'')], w)
      else
        (let question = py_strip question0
         in case tool_confirmation (cw_context w) of
              Some c \<Rightarrow>
                (if \<not> confirmed c then ([(''answer'', PyNone), (''note'', PyStr ''The parent declined to answer.'')], w)
                 else ([(''answer'', str_or_none (extract_answer (conf_payload c)))], w))
            | None \<Rightarrow>
                (let (ok, w') = (if cw_budget w = None then (False, w) else try_consume_bubble w)
                 in if \<not> ok then ([(''answer'', PyNone), (''note'', PyStr NO_PARENT_NOTE)], w')
                    else
                      (let tc' = snd (request_user_confirmation (cw_context w') question
                                   [(''kind'', PyStr ''ask_parent''), (''question'', PyStr question)])
                       in ([(''status'', PyStr ''awaiting_parent''),
                            (''summary'', PyStr (''Escalated to parent: '' @ question))], cw_set_context tc' w')))))"

section \<open>Answers carry an error\<close>

lemma run_guards_answering: "(\<And>g. g \<in> set gs \<Longrightarrow> answering_guard g) \<Longrightarrow> answering_guard (run_guards gs)"
proof (induction gs)
  case Nil
  show ?case by unfold_locales simp
next
  case (Cons g gs)
  have g: "answering_guard g" and gs: "answering_guard (run_guards gs)" using Cons by simp_all
  show ?case
    by unfold_locales
       (auto simp: py_bind_Inr_iff split: option.splits dest: answering_guard.answer_has_error [OF g]
          answering_guard.answer_has_error [OF gs])
qed

lemma lift_answering:
  assumes "answering_guard step"
  shows "answering_guard (\<lambda>tn args. lift_tool (step tn args))"
  by unfold_locales (auto simp: lift_tool_def py_bind_Inr_iff dest: answering_guard.answer_has_error [OF assms])

lemma refusal_error: "refusal r \<Longrightarrow> \<exists>msg. dict_get r ''error'' = PyStr msg"
  by (simp add: refusal_def)

lemma resurface_ask_error: "resurface_ask tn pp cmd w = (Some r, w') \<Longrightarrow> \<exists>msg. dict_get r ''error'' = PyStr msg"
  by (auto simp: resurface_ask_def Let_def permission_refusals refusal_error resurface_exhausted_response_def
      split: option.splits if_splits prod.splits)

lemma resurface_answering: "answering_guard (resurface_decision eng env)"
proof
  fix tn args w r w'
  assume a: "resurface_decision eng env tn args w = Inr (Some r, w')"
  let ?g = "tw_gate (cw_tool w)"
  obtain d dr pp cmd st' where "resolve_permission_decision (eng_search eng) env tn args (tc_state (gw_context ?g))
      (tc_agent_name (gw_context ?g)) (gw_fs ?g) (gw_store ?g) = Inr ((d, dr, pp, cmd), st')"
    using a by (auto simp: resurface_decision_def Let_def py_bind_Inr_iff)
  with a show "\<exists>msg. dict_get r ''error'' = PyStr msg"
    using permission_refusals(1) refusal_error
    by (cases d) (auto simp: resurface_decision_def Let_def dest: resurface_ask_error)
qed

interpretation child: answering_guard "child_policy_guard eng env parent_grants profile" for eng env parent_grants profile
proof
  fix tn args w r w'
  assume a: "child_policy_guard eng env parent_grants profile tn args w = Inr (Some r, w')"
  have "answering_guard (run_guards ([\<lambda>tn args. lift_tool (exfil_step eng env tn args)] @
      (if b then [\<lambda>tn args. lift_tool (policies_step eng env True tn args)]
       else [\<lambda>tn args. lift_tool (policies_step eng env False tn args), resurface_decision eng env])))" for b
    using lift_answering [OF exfil.answering_guard_axioms] lift_answering [OF policies.answering_guard_axioms] resurface_answering
    by (intro run_guards_answering) (auto split: if_splits)
  from answering_guard.answer_has_error [OF this] a show "\<exists>msg. dict_get r ''error'' = PyStr msg"
    unfolding child_policy_guard_def Let_def by (auto split: if_splits simp del: run_guards.simps)
qed

section \<open>What passes\<close>

definition inherited :: "pyval \<Rightarrow> child_world \<Rightarrow> child_world" where
  "inherited parent_grants w = cw_set_context ((cw_context w)\<lparr>tc_state :=
     inherit_grants (normalize_grants parent_grants) (tc_state (cw_context w))\<rparr>) w"

lemma cw_set_context_simps [simp]:
  "cw_context (cw_set_context tc w) = tc" "cw_budget (cw_set_context tc w) = cw_budget w"
  "tw_pol (cw_tool (cw_set_context tc w)) = tw_pol (cw_tool w)"
  "tw_exfil (cw_tool (cw_set_context tc w)) = tw_exfil (cw_tool w)"
  "gw_fs (tw_gate (cw_tool (cw_set_context tc w))) = gw_fs (tw_gate (cw_tool w))"
  by (simp_all add: cw_set_context_def)

lemma child_pass_cases:
  assumes "child_policy_guard eng env parent_grants profile tn args w = Inr (None, w')" and "tn \<noteq> ASK_PARENT_TOOL_NAME"
  obtains est where "\<not> profile_denies profile tn"
    "exfil_guard (eng_compile eng) env (gw_fs (tw_gate (cw_tool w))) tn args (session_state (cw_tool (inherited parent_grants w)))
       (tw_exfil (cw_tool w)) = Inr (None, est)"
    "fst (policies_guard (eng_search_ci eng) env (gw_fs (tw_gate (cw_tool w))) (cw_budget w = None) tn args
       (session_state (cw_tool (inherited parent_grants w))) (tw_pol (cw_tool w))) = None"
proof -
  let ?w = "inherited parent_grants w"
  have nd: "\<not> profile_denies profile tn" using assms by (auto simp: child_policy_guard_def split: if_splits)
  have b: "cw_budget ?w = cw_budget w" by (simp add: inherited_def)
  have "run_guards ([\<lambda>tn args. lift_tool (exfil_step eng env tn args)] @
      (if cw_budget w = None then [\<lambda>tn args. lift_tool (policies_step eng env True tn args)]
       else [\<lambda>tn args. lift_tool (policies_step eng env False tn args), resurface_decision eng env])) tn args ?w = Inr (None, w')"
    using assms nd by (simp add: child_policy_guard_def inherited_def [symmetric] Let_def b del: run_guards.simps)
  then obtain tw tw2 where e: "exfil_step eng env tn args (cw_tool ?w) = Inr (None, tw)"
    and p: "policies_step eng env (cw_budget w = None) tn args tw = Inr (None, tw2)"
    by (cases "cw_budget w = None") (auto simp: run_guards_pass lift_tool_def py_bind_Inr_iff simp del: run_guards.simps(2))
  from e obtain est where est: "exfil_guard (eng_compile eng) env (gw_fs (tw_gate (cw_tool ?w))) tn args (session_state (cw_tool ?w))
      (tw_exfil (cw_tool ?w)) = Inr (None, est)" and tw: "tw = (cw_tool ?w)\<lparr>tw_exfil := est\<rparr>"
    unfolding exfil_step_pass by blast
  from p obtain pst where "policies_guard (eng_search_ci eng) env (gw_fs (tw_gate tw)) (cw_budget w = None) tn args
      (session_state tw) (tw_pol tw) = (None, pst)" unfolding policies_step_pass by blast
  then have "fst (policies_guard (eng_search_ci eng) env (gw_fs (tw_gate (cw_tool w))) (cw_budget w = None) tn args
       (session_state (cw_tool ?w)) (tw_pol (cw_tool w))) = None"
    using tw by (simp add: inherited_def)
  with nd est that show ?thesis by (simp add: inherited_def)
qed

lemma policies_pass:
  assumes "pol_store_ok st" and "tn \<noteq> []" and "\<not> granted state tn args"
    and "fst (policies_guard re env fs aid tn args state st) = None"
  shows "first_block re read_default_seed tn args = None" and "safety_block aid (command_for tn args) = None"
proof -
  obtain rules st' where l: "load_policies_for_env env fs st = (rules, st')" by fastforce
  then have seed: "has_seed rules" using load_policies_seed(1) [OF assms(1), of env fs] by simp
  note iff = policies_guard_blocked_iff [OF assms(2,3) l, of re aid]
  show "first_block re read_default_seed tn args = None" using iff assms(4) first_block_seed [OF seed] by blast
  show "safety_block aid (command_for tn args) = None" using iff assms(4) by blast
qed

section \<open>The run of a child\<close>

text \<open>One step of a delegated run: a guarded call or a question, each with the confirmation that came
  back for it and in its own copy of the context, or a tool that changes the session state or the
  files. After a call the budget is again the one of the drain.\<close>

definition with_confirmation :: "confirmation option \<Rightarrow> child_world \<Rightarrow> child_world" where
  "with_confirmation conf w = cw_set_context ((cw_context w)\<lparr>tool_confirmation := conf\<rparr>) w"

definition leave_call :: "child_world \<Rightarrow> child_world \<Rightarrow> child_world" where
  "leave_call w w' = w'\<lparr>cw_budget := cw_budget w\<rparr>"

inductive child_step ::
    "engines \<Rightarrow> overlay_env option \<Rightarrow> pyval \<Rightarrow> child_profile option \<Rightarrow> child_world \<Rightarrow> child_world \<Rightarrow> bool"
  for eng env grants profile where
  call: "child_policy_guard eng env grants profile tn args (with_confirmation conf w) = Inr (r, w') \<Longrightarrow>
    child_step eng env grants profile w (leave_call w w')"
| ask: "ask_parent question (with_confirmation conf w) = (r, w') \<Longrightarrow> child_step eng env grants profile w (leave_call w w')"
| state: "child_step eng env grants profile w (cw_set_context ((cw_context w)\<lparr>tc_state := s\<rparr>) w)"
| files: "child_step eng env grants profile w
    (w\<lparr>cw_tool := (cw_tool w)\<lparr>tw_gate := (tw_gate (cw_tool w))\<lparr>gw_fs := fs\<rparr>\<rparr>\<rparr>)"

inductive_cases child_step_cases: "child_step eng env grants profile w w'"

text \<open>What one call may do to the budget it sees and the requests: nothing, or spend one for the other.\<close>

definition paid :: "child_world \<Rightarrow> child_world \<Rightarrow> bool" where
  "paid w w' \<longleftrightarrow>
     (cw_budget w' = cw_budget w \<and> tc_requests (cw_context w') = tc_requests (cw_context w)) \<or>
     (\<exists>b req. cw_budget w = Some b \<and> 0 < b \<and> cw_budget w' = Some (b - 1) \<and>
        tc_requests (cw_context w') = tc_requests (cw_context w) @ [req])"

lemma paid_refl [simp]: "paid w w"
  by (simp add: paid_def)

lemma paid_cong:
  "cw_budget u = cw_budget w \<Longrightarrow> tc_requests (cw_context u) = tc_requests (cw_context w) \<Longrightarrow> paid u w' \<longleftrightarrow> paid w w'"
  by (simp add: paid_def)

lemma resurface_ask_paid: "resurface_ask tn pp cmd w = (r, w') \<Longrightarrow> paid w w'"
  by (auto simp: resurface_ask_def Let_def try_consume_bubble_def request_user_confirmation_def paid_def
      split: option.splits if_splits prod.splits)

lemma ask_parent_paid: "ask_parent q w = (r, w') \<Longrightarrow> paid w w'"
  by (auto simp: ask_parent_def Let_def try_consume_bubble_def request_user_confirmation_def paid_def
      split: option.splits if_splits prod.splits)

lemma resurface_decision_paid:
  assumes "resurface_decision eng env tn args w = Inr (r, w')"
  shows "paid w w'"
proof -
  let ?g = "tw_gate (cw_tool w)"
  obtain d dr pp cmd st' where p: "resolve_permission_decision (eng_search eng) env tn args (tc_state (gw_context ?g))
      (tc_agent_name (gw_context ?g)) (gw_fs ?g) (gw_store ?g) = Inr ((d, dr, pp, cmd), st')"
    using assms by (auto simp: resurface_decision_def Let_def py_bind_Inr_iff)
  let ?w = "w\<lparr>cw_tool := (cw_tool w)\<lparr>tw_gate := ?g\<lparr>gw_store := st'\<rparr>\<rparr>\<rparr>"
  have "paid ?w w'" using assms p resurface_ask_paid [of tn pp cmd ?w r w']
    by (cases d) (auto simp: resurface_decision_def Let_def)
  then show ?thesis by (simp add: paid_def)
qed

text \<open>Guards that only read keep the budget and the context.\<close>

definition reads_only :: "(string \<Rightarrow> pyval \<Rightarrow> child_world \<Rightarrow> (pydict option \<times> child_world) py) \<Rightarrow> bool" where
  "reads_only g \<longleftrightarrow> (\<forall>tn args w r w'. g tn args w = Inr (r, w') \<longrightarrow>
     cw_budget w' = cw_budget w \<and> cw_context w' = cw_context w)"

lemma lift_reads_only:
  "(\<And>tn args tw r tw'. step tn args tw = Inr (r, tw') \<Longrightarrow> tw_gate tw' = tw_gate tw) \<Longrightarrow>
   reads_only (\<lambda>tn args. lift_tool (step tn args))"
  by (auto simp: reads_only_def lift_tool_def py_bind_Inr_iff)

definition pays :: "(string \<Rightarrow> pyval \<Rightarrow> child_world \<Rightarrow> (pydict option \<times> child_world) py) \<Rightarrow> bool" where
  "pays g \<longleftrightarrow> (\<forall>tn args w r w'. g tn args w = Inr (r, w') \<longrightarrow> paid w w')"

lemma run_guards_Cons_pays:
  assumes "reads_only g" and "pays (run_guards gs)"
  shows "pays (run_guards (g # gs))"
  unfolding pays_def
proof (intro allI impI)
  fix tn args w r w' assume "run_guards (g # gs) tn args w = Inr (r, w')"
  then obtain r1 w1 where g: "g tn args w = Inr (r1, w1)" and w': "w' = w1 \<or> run_guards gs tn args w1 = Inr (r, w')"
    by (auto simp: py_bind_Inr_iff split: option.splits)
  have k: "cw_budget w1 = cw_budget w" "cw_context w1 = cw_context w" using g assms(1) unfolding reads_only_def by blast+
  have "paid w1 w'" using w' assms(2) unfolding pays_def by auto
  then show "paid w w'" using k by (simp add: paid_def)
qed

lemma exfil_step_gate: "exfil_step eng env tn args tw = Inr (r, tw') \<Longrightarrow> tw_gate tw' = tw_gate tw"
  by (auto simp: exfil_step_def py_bind_Inr_iff)

lemma policies_step_gate: "policies_step eng env aid tn args tw = Inr (r, tw') \<Longrightarrow> tw_gate tw' = tw_gate tw"
  by (auto simp: policies_step_def split: prod.splits)

lemma child_policy_guard_paid:
  assumes "child_policy_guard eng env grants profile tn args w = Inr (r, w')"
  shows "paid w w'"
proof -
  let ?w = "inherited grants w"
  have same: "paid ?w w' \<longleftrightarrow> paid w w'" by (rule paid_cong) (simp_all add: inherited_def)
  have b: "cw_budget ?w = cw_budget w" by (simp add: inherited_def)
  let ?ex = "\<lambda>tn args. lift_tool (exfil_step eng env tn args)"
  let ?po = "\<lambda>aid tn args. lift_tool (policies_step eng env aid tn args)"
  have ro: "reads_only ?ex" "reads_only (?po aid)" for aid
    using exfil_step_gate policies_step_gate by (blast intro: lift_reads_only)+
  have "pays (run_guards [])" by (simp add: pays_def)
  moreover have "pays (run_guards [resurface_decision eng env])"
    using resurface_decision_paid by (fastforce simp: pays_def py_bind_Inr_iff split: option.splits)
  ultimately have all: "pays (run_guards ([?ex] @ (if cw_budget w = None then [?po True] else [?po False, resurface_decision eng env])))"
    using run_guards_Cons_pays [OF ro(2)] by (simp add: run_guards_Cons_pays [OF ro(1)] del: run_guards.simps)
  show ?thesis
  proof (cases "tn = ASK_PARENT_TOOL_NAME \<or> profile_denies profile tn")
    case True
    then show ?thesis using assms by (auto simp: child_policy_guard_def split: if_splits)
  next
    case False
    then have "run_guards ([\<lambda>tn args. lift_tool (exfil_step eng env tn args)] @
      (if cw_budget w = None then [\<lambda>tn args. lift_tool (policies_step eng env True tn args)]
       else [\<lambda>tn args. lift_tool (policies_step eng env False tn args), resurface_decision eng env])) tn args ?w = Inr (r, w')"
      using assms by (simp add: child_policy_guard_def inherited_def [symmetric] Let_def b del: run_guards.simps)
    then have "paid ?w w'" using all unfolding pays_def by blast
    then show ?thesis using same by simp
  qed
qed

text \<open>The requests made, and the budget as a number, where a headless run has none.\<close>

definition requests_made :: "child_world \<Rightarrow> int" where
  "requests_made w = int (length (tc_requests (cw_context w)))"

definition requests_left :: "child_world \<Rightarrow> int" where
  "requests_left w = (case cw_budget w of None \<Rightarrow> 0 | Some b \<Rightarrow> max b 0)"

text \<open>A step keeps the budget and makes no request, or one where the budget is positive.\<close>

definition asks_once :: "child_world \<Rightarrow> child_world \<Rightarrow> bool" where
  "asks_once w w' \<longleftrightarrow> cw_budget w' = cw_budget w \<and>
     (\<exists>reqs. tc_requests (cw_context w') = tc_requests (cw_context w) @ reqs \<and>
        length reqs \<le> (if 0 < requests_left w then 1 else 0))"

lemma paid_asks_once: "paid (with_confirmation conf w) w' \<Longrightarrow> asks_once w (leave_call w w')"
  by (auto simp: paid_def asks_once_def leave_call_def with_confirmation_def requests_left_def)

lemma child_step_asks_once: "child_step eng env grants profile w w' \<Longrightarrow> asks_once w w'"
proof (induction rule: child_step.induct)
  case (call tn args conf w r w')
  then show ?case by (intro paid_asks_once child_policy_guard_paid)
next
  case (ask question conf w r w')
  then show ?case by (intro paid_asks_once ask_parent_paid)
qed (simp_all add: asks_once_def)

lemma child_run_asks:
  "(child_step eng env grants profile ^^ n) w w' \<Longrightarrow> cw_budget w' = cw_budget w \<and>
     requests_made w \<le> requests_made w' \<and>
     requests_made w' \<le> requests_made w + (if 0 < requests_left w then int n else 0)"
proof (induction n arbitrary: w')
  case (Suc n)
  then obtain u where u: "(child_step eng env grants profile ^^ n) w u" and s: "child_step eng env grants profile u w'"
    by auto
  from Suc.IH [OF u] child_step_asks_once [OF s] show ?case
    by (auto simp: asks_once_def requests_made_def requests_left_def split: if_splits)
qed simp

text \<open>A question to the parent asks whenever the budget of the drain is positive.\<close>

lemma question_asks:
  assumes "0 < requests_left w"
  shows "\<exists>w'. child_step eng env grants profile w w' \<and> requests_made w' = requests_made w + 1 \<and> requests_left w' = requests_left w"
proof -
  obtain b where b: "cw_budget w = Some b" "0 < b" using assms by (auto simp: requests_left_def split: option.splits)
  obtain r w1 where a: "ask_parent ''which branch?'' (with_confirmation None w) = (r, w1)" by fastforce
  have "py_strip ''which branch?'' = ''which branch?''" by code_simp
  then have "length (tc_requests (cw_context w1)) = Suc (length (tc_requests (cw_context w)))"
    using a b by (auto simp: ask_parent_def with_confirmation_def try_consume_bubble_def request_user_confirmation_def Let_def)
  then have "requests_made (leave_call w w1) = requests_made w + 1" "requests_left (leave_call w w1) = requests_left w"
    by (simp_all add: requests_made_def requests_left_def leave_call_def)
  with child_step.ask [OF a] show ?thesis by blast
qed

lemma questions_ask:
  "0 < requests_left w \<Longrightarrow> \<exists>w'. (child_step eng env grants profile ^^ n) w w' \<and> requests_made w' = requests_made w + int n \<and>
     requests_left w' = requests_left w"
proof (induction n)
  case 0
  then show ?case by auto
next
  case (Suc n)
  then obtain u where u: "(child_step eng env grants profile ^^ n) w u" "requests_made u = requests_made w + int n"
    "requests_left u = requests_left w" by auto
  then have "0 < requests_left u" using Suc.prems by simp
  from question_asks [OF this, of eng env grants profile] obtain w' where
    w': "child_step eng env grants profile u w'" "requests_made w' = requests_made u + 1"
    "requests_left w' = requests_left u" by blast
  have "(child_step eng env grants profile ^^ Suc n) w w'" using u(1) w'(1) by (rule relpowp_Suc_I)
  with u w' show ?case by fastforce
qed

definition child_start :: "int option \<Rightarrow> child_world" where
  "child_start b = \<lparr>cw_tool = tool_start None, cw_budget = b\<rparr>"

section \<open>Properties\<close>

text \<open>C16: A delegated child is held at least as tightly as its parent: a call other than the question
  to the parent passes only when the profile allows its tool and the exfiltration guard lets
  it pass, and, unless a grant inherited from the parent names exactly this call, only when the
  bundled policy and the classifier do not deny it; in a run without a user the classifier
  must have no objection at all.\<close>

theorem child_call_needs_profile_and_policy:
  assumes "child_policy_guard eng env parent_grants profile tn args w = Inr (None, w')"
    and "tn \<noteq> ASK_PARENT_TOOL_NAME" and "tn \<noteq> []" and "pol_store_ok (tw_pol (cw_tool w))"
  shows "\<not> profile_denies profile tn \<and>
    (\<exists>est. exfil_guard (eng_compile eng) env (gw_fs (tw_gate (cw_tool w))) tn args
       (session_state (cw_tool (inherited parent_grants w))) (tw_exfil (cw_tool w)) = Inr (None, est)) \<and>
    (granted (session_state (cw_tool (inherited parent_grants w))) tn args \<or>
       (first_block (eng_search_ci eng) read_default_seed tn args = None \<and>
        \<not> (\<exists>c tier why. command_for tn args = Some c \<and> classify c = Some (tier, why) \<and>
             (tier = TDeny \<or> cw_budget w = None))))"
proof -
  let ?s = "session_state (cw_tool (inherited parent_grants w))"
  from child_pass_cases [OF assms(1,2)] obtain est where "\<not> profile_denies profile tn"
    "exfil_guard (eng_compile eng) env (gw_fs (tw_gate (cw_tool w))) tn args ?s (tw_exfil (cw_tool w)) = Inr (None, est)"
    and p: "fst (policies_guard (eng_search_ci eng) env (gw_fs (tw_gate (cw_tool w))) (cw_budget w = None) tn args ?s
       (tw_pol (cw_tool w))) = None" .
  moreover have "first_block (eng_search_ci eng) read_default_seed tn args = None \<and>
      \<not> (\<exists>c tier why. command_for tn args = Some c \<and> classify c = Some (tier, why) \<and> (tier = TDeny \<or> cw_budget w = None))"
    if "\<not> granted ?s tn args"
    using policies_pass [OF assms(4,3) that p] by (auto simp: safety_block_def split: option.splits if_splits)
  ultimately show ?thesis by blast
qed

lemma explore_profile: "map_of PROFILES ''explore'' \<noteq> None" "\<not> profile_denies (map_of PROFILES ''explore'') READ"
  by code_simp+

lemma read_passes:
  "child_policy_guard quiet_engines None PyNone (map_of PROFILES ''explore'') READ (PyDict [(''path'', PyStr ''a.py'')])
     (child_start None) = Inr (None, child_start None)"
proof -
  let ?a = "PyDict [(''path'', PyStr ''a.py'')]"
  have n: "READ \<noteq> []" "READ \<noteq> ASK_PARENT_TOOL_NAME" by (simp_all add: READ_def ASK_PARENT_TOOL_NAME_def)
  have i: "cw_set_context ((cw_context (child_start None))\<lparr>tc_state :=
      inherit_grants (normalize_grants PyNone) (tc_state (cw_context (child_start None)))\<rparr>) (child_start None) = child_start None"
    by (simp add: child_start_def tool_start_def gate_start_def session_context_def cw_set_context_def inherit_grants_def
        normalize_grants_def)
  have "evaluate_exfil READ ?a default_config = None" by code_simp
  then have e: "lift_tool (exfil_step quiet_engines None READ ?a) (child_start None) = Inr (None, child_start None)"
    using n by (simp add: lift_tool_def exfil_step_def exfil_guard_def load_exfil_config_for_env_def child_start_def tool_start_def)
  have "policy_checks no_regex read_default_seed True READ ?a = None" by code_simp
  then have p: "lift_tool (policies_step quiet_engines None True READ ?a) (child_start None) = Inr (None, child_start None)"
    using n empty_state_not_granted [of READ ?a]
    by (simp add: lift_tool_def policies_step_def policies_guard_def granted_def load_policies_for_env_def child_start_def
        tool_start_def quiet_engines_def)
  have "cw_budget (child_start None) = None" by (simp add: child_start_def)
  then show ?thesis using n explore_profile(2) e p by (simp add: child_policy_guard_def i)
qed

theorem child_call_needs_profile_and_policy_witness:
  "child_policy_guard quiet_engines None PyNone (map_of PROFILES ''explore'') READ (PyDict [(''path'', PyStr ''a.py'')])
     (child_start None) = Inr (None, child_start None) \<and>
   \<not> profile_denies (map_of PROFILES ''explore'') READ"
proof -
  have "READ \<noteq> ASK_PARENT_TOOL_NAME" "READ \<noteq> []" "pol_store_ok (tw_pol (cw_tool (child_start None)))"
    by (simp_all add: READ_def ASK_PARENT_TOOL_NAME_def child_start_def tool_start_def fresh_pol_store_ok)
  from child_call_needs_profile_and_policy [OF read_passes this] read_passes show ?thesis by blast
qed

text \<open>C17: The approval budget of a delegation holds for each call by itself: along every run of a
  child, whatever it calls or asks and whatever answers come back, a pass with no budget (the
  resumed pass, a headless run) makes no request, and one with a budget makes at most one request
  for each call. That bound is reached: since every call runs in its own copy of the context,
  nothing of the budget is used up from one call to the next, and a drain that should interrupt
  the user once makes a request for every call that asks, for instance the parallel calls of one
  answer of the model.\<close>

theorem child_budget_is_per_call:
  "((child_step eng env grants profile ^^ n) w w' \<longrightarrow>
      cw_budget w' = cw_budget w \<and> requests_made w \<le> requests_made w' \<and>
      requests_made w' \<le> requests_made w + (if 0 < requests_left w then int n else 0)) \<and>
   (0 < requests_left w \<longrightarrow>
      (\<exists>v. (child_step eng env grants profile ^^ n) w v \<and> requests_made v = requests_made w + int n))"
  using child_run_asks questions_ask by blast

theorem child_budget_is_per_call_witness:
  "\<exists>v. (child_step quiet_engines None PyNone None ^^ 3) (child_start (Some 1)) v \<and> requests_made v = 3"
proof -
  have "0 < requests_left (child_start (Some 1))" "requests_made (child_start (Some 1)) = 0"
    by (simp_all add: requests_left_def requests_made_def child_start_def tool_start_def gate_start_def session_context_def)
  with child_budget_is_per_call [where n = 3 and w = "child_start (Some 1)" and w' = "child_start (Some 1)"]
  show ?thesis by fastforce
qed

text \<open>The answer \<open>Decline\<close> picked from the choices of the request, delivered as a confirmation.\<close>

definition declined :: "confirmation option" where
  "declined = Some \<lparr>confirmed = True, conf_payload = PyDict [(''choice'', PyStr ''Decline'')]\<rparr>"

definition declined_child :: child_world where
  "declined_child = \<lparr>cw_tool = tool_start declined, cw_budget = Some 0\<rparr>"

lemma sudo_resolves:
  "\<exists>dr pp. resolve_permission_decision (eng_search quiet_engines) None BASH (bash_args ''sudo ls'') (Some []) None no_files
     fresh_perm_store = Inr ((AskUser, dr, Some pp, Some ''sudo ls''), fresh_perm_store)"
proof -
  have "shell_command BASH (bash_args ''sudo ls'') = Some ''sudo ls''" by (simp add: bash_args_def)
  moreover have "\<exists>dr pp. shell_decision no_regex default_rules BASH ''sudo ls'' None = (AskUser, dr, pp) \<and> pp \<noteq> []"
    using sudo_asks ask_prefixes_not_Nil [OF sudo_asks]
    by (cases "shell_decision no_regex default_rules BASH ''sudo ls'' None") auto
  ultimately show ?thesis by (auto simp: resolve_permission_decision_def quiet_engines_def default_effective)
qed

lemma decline_stripped: "py_strip ''Decline'' = ''Decline''"
  by code_simp

lemma sudo_facts:
  "evaluate_exfil BASH (bash_args ''sudo ls'') default_config = None"
  "substring_hit [(''command'', PyList (map PyStr seed_substrings))] [(''command'', PyStr ''sudo ls'')] = None"
  "safety_block False (Some ''sudo ls'') = None"
  by code_simp+

text \<open>The child's guard takes every confirmed answer for an approval of the whole session: when the
  user answers the child's request for \<open>sudo ls\<close> with the choice \<open>Decline\<close>, the call runs and a
  session grant is written, while the same answer makes the root agent's gate refuse the call.\<close>

theorem child_guard_takes_decline_for_approval:
  "(\<exists>w'. child_policy_guard quiet_engines None PyNone None BASH (bash_args ''sudo ls'')
       declined_child = Inr (None, w') \<and>
     read_session_grants (session_state (cw_tool w')) \<noteq> []) \<and>
   (\<exists>r w'. permission_guard (eng_search quiet_engines) False None 0 BASH (bash_args ''sudo ls'') (gate_start declined) = Inr (Some r, w') \<and>
     refusal r)"
proof (intro conjI)
  let ?a = "bash_args ''sudo ls''" and ?w = declined_child
  have w: "cw_tool ?w = tool_start declined" "cw_budget ?w = Some 0" "?w\<lparr>cw_tool := tool_start declined\<rparr> = ?w"
    by (simp_all add: declined_child_def)
  obtain dr pp where pp: "resolve_permission_decision (eng_search quiet_engines) None BASH ?a (Some []) None no_files
     fresh_perm_store = Inr ((AskUser, dr, Some pp, Some ''sudo ls''), fresh_perm_store)" using sudo_resolves by blast
  have i: "cw_set_context ((cw_context ?w)\<lparr>tc_state :=
      inherit_grants (normalize_grants PyNone) (tc_state (cw_context ?w))\<rparr>) ?w = ?w"
    by (simp add: declined_child_def tool_start_def gate_start_def session_context_def cw_set_context_def inherit_grants_def
        normalize_grants_def)
  have e: "lift_tool (exfil_step quiet_engines None BASH ?a) ?w = Inr (None, ?w)"
    by (simp add: lift_tool_def w default_exfil_step [OF sudo_facts(1)])
  have p: "lift_tool (policies_step quiet_engines None False BASH ?a) ?w = Inr (None, ?w)"
    using default_policies_step [OF first_block_quiet [OF quiet_engines_quiet sudo_facts(2)]] sudo_facts(3)
    by (simp add: lift_tool_def w)
  obtain w' where r: "resurface_decision quiet_engines None BASH ?a ?w = Inr (None, w')"
    and g: "read_session_grants (session_state (cw_tool w')) \<noteq> []"
    using pp by (auto simp: resurface_decision_def resurface_ask_def declined_child_def tool_start_def gate_start_def session_context_def declined_def
        write_grant_def write_session_grants_def read_session_grants_def cw_set_context_def)
  have "BASH \<noteq> ASK_PARENT_TOOL_NAME" by (simp add: BASH_def ASK_PARENT_TOOL_NAME_def)
  then have "child_policy_guard quiet_engines None PyNone None BASH ?a ?w = Inr (None, w')"
    using e p r by (simp add: child_policy_guard_def profile_denies_def i w(2))
  with g show "\<exists>w'. child_policy_guard quiet_engines None PyNone None BASH ?a ?w = Inr (None, w') \<and>
      read_session_grants (session_state (cw_tool w')) \<noteq> []" by blast
  have "resolve_outcome (PyDict [(''choice'', PyStr ''Decline'')]) (permission_outcomes (label_target BASH (Some pp))) = Inr ''cancel''"
    by (simp add: resolve_outcome_def permission_outcomes_def index_of_def decline_stripped Let_def)
  then have "permission_guard (eng_search quiet_engines) False None 0 BASH ?a (gate_start declined) =
      Inr (Some (permission_declined_response BASH), gate_start declined)"
    using pp by (simp add: permission_guard_def permission_ask_def permission_answer_def request_user_confirmation_def declined_def
        tool_name_defs READ_ONLY_TOOLS_def SELF_CONFIRMING_TOOLS_def SUBAGENT_TOOLS_def is_memory_search_def)
  then show "\<exists>r w'. permission_guard (eng_search quiet_engines) False None 0 BASH ?a (gate_start declined) = Inr (Some r, w') \<and> refusal r"
    using permission_refusals(4) by blast
qed

end
