(* ===== verification/Ui_Telemetry.thy ===== *)
theory Ui_Telemetry
  imports Py_Json
begin

text \<open>
  What the runtime writes into the session state for the panels of the chat (\<open>telemetry/ui.py\<close>). The
  argument \<open>state\<close> is \<open>None\<close> when there is no tool context; \<open>now\<close> is the clock in milliseconds. The
  ellipsis, a character beyond the model's range, stands as one character.
\<close>

section \<open>Keys and caps\<close>

definition TOOL_CALL_LOG_STATE_KEY :: string where "TOOL_CALL_LOG_STATE_KEY = ''tool_call_log''"
definition DELEGATE_HISTORY_STATE_KEY :: string where "DELEGATE_HISTORY_STATE_KEY = ''delegate_history''"
definition MEMORY_WRITES_STATE_KEY :: string where "MEMORY_WRITES_STATE_KEY = ''memory_writes''"
definition IN_FLIGHT_TOOL_CALL_STATE_KEY :: string where "IN_FLIGHT_TOOL_CALL_STATE_KEY = ''in_flight_tool_call''"

definition TOOL_LOG_CAP :: nat where "TOOL_LOG_CAP = 50"
definition DELEGATE_CAP :: nat where "DELEGATE_CAP = 25"
definition MEMORY_CAP :: nat where "MEMORY_CAP = 50"
definition ARG_PREVIEW_CHARS :: nat where "ARG_PREVIEW_CHARS = 120"
definition SUMMARY_PREVIEW_CHARS :: nat where "SUMMARY_PREVIEW_CHARS = 240"

definition ELLIPSIS :: char where "ELLIPSIS = CHR 0x85"

section \<open>Helpers\<close>

definition truncate_text :: "string \<Rightarrow> nat \<Rightarrow> string" where
  "truncate_text s limit = (if length s \<le> limit then s else take (limit - 1) s @ [ELLIPSIS])"

definition one_line :: "string \<Rightarrow> string" where
  "one_line = map (\<lambda>c. if c = NL then CHR '' '' else c)"

definition args_preview :: "pyval \<Rightarrow> string" where
  "args_preview args =
     (if \<not> truthy args then []
      else case args of
             PyDict d \<Rightarrow> py_join '', '' (map (\<lambda>(k, v). k @ ''='' @ truncate_text (one_line (py_str v)) 60) (take 3 d))
           | _ \<Rightarrow> truncate_text (py_str args) ARG_PREVIEW_CHARS)"

definition is_ok :: "pyval \<Rightarrow> bool" where
  "is_ok response =
     (case response of
        PyDict d \<Rightarrow>
          if truthy (dict_get d ''error'') then False
          else if (case dict_get d ''status'' of PyStr s \<Rightarrow> py_lower s \<in> set [''error'', ''failed'', ''halted''] | _ \<Rightarrow> False) then False
          else (case map_of d ''success'' of Some v \<Rightarrow> truthy v | None \<Rightarrow> True)
      | _ \<Rightarrow> True)"

text \<open>The entries a panel reads: anything but a list counts as empty.\<close>

definition panel_entries :: "pydict \<Rightarrow> string \<Rightarrow> pyval list" where
  "panel_entries state key = (case dict_get state key of PyList xs \<Rightarrow> xs | _ \<Rightarrow> [])"

definition keep_last :: "nat \<Rightarrow> 'a list \<Rightarrow> 'a list" where
  "keep_last n xs = (if length xs > n then drop (length xs - n) xs else xs)"

definition append_capped :: "string \<Rightarrow> pydict \<Rightarrow> nat \<Rightarrow> pydict \<Rightarrow> pydict" where
  "append_capped key entry cap state = dict_set state key (PyList (keep_last cap (panel_entries state key @ [PyDict entry])))"

section \<open>Tool calls\<close>

definition before_tool_log_callback :: "int \<Rightarrow> string \<Rightarrow> pyval \<Rightarrow> pydict option \<Rightarrow> pydict option" where
  "before_tool_log_callback now name args =
     map_option (\<lambda>state. dict_set state IN_FLIGHT_TOOL_CALL_STATE_KEY
       (PyDict [(''name'', PyStr name), (''args'', PyStr (args_preview args)), (''started_ms'', PyInt now)]))"

definition tool_call_log_callback :: "int \<Rightarrow> string \<Rightarrow> pyval \<Rightarrow> pyval \<Rightarrow> pydict option \<Rightarrow> pydict option" where
  "tool_call_log_callback now name args response =
     map_option (\<lambda>state. dict_set
       (append_capped TOOL_CALL_LOG_STATE_KEY
          [(''name'', PyStr name), (''args'', PyStr (args_preview args)), (''ok'', PyBool (is_ok response)), (''ts'', PyInt now)]
          TOOL_LOG_CAP state) IN_FLIGHT_TOOL_CALL_STATE_KEY PyNone)"

section \<open>Delegations\<close>

definition record_delegate_run :: "int \<Rightarrow> string \<Rightarrow> string \<Rightarrow> int \<Rightarrow> int \<Rightarrow> string \<Rightarrow> pydict option \<Rightarrow> pydict option" where
  "record_delegate_run now goal status iterations duration_ms summary =
     map_option (append_capped DELEGATE_HISTORY_STATE_KEY
       [(''goal'', PyStr (truncate_text (py_strip goal) ARG_PREVIEW_CHARS)), (''status'', PyStr status),
        (''iterations'', PyInt iterations), (''duration_ms'', PyInt duration_ms),
        (''summary'', PyStr (truncate_text (py_strip summary) SUMMARY_PREVIEW_CHARS)), (''ts'', PyInt now)] DELEGATE_CAP)"

definition spawn_row :: "int \<Rightarrow> string \<Rightarrow> string \<Rightarrow> pydict" where
  "spawn_row now task_id goal =
     [(''task_id'', PyStr task_id), (''goal'', PyStr (truncate_text (py_strip goal) ARG_PREVIEW_CHARS)),
      (''status'', PyStr ''running''), (''iterations'', PyInt 0), (''duration_ms'', PyInt 0), (''summary'', PyStr []),
      (''ts'', PyInt now)]"

definition record_subagent_spawn :: "int \<Rightarrow> string \<Rightarrow> string \<Rightarrow> pydict option \<Rightarrow> pydict option" where
  "record_subagent_spawn now task_id goal = map_option (append_capped DELEGATE_HISTORY_STATE_KEY (spawn_row now task_id goal) DELEGATE_CAP)"

text \<open>A row is changed in place, so what precedes a failing conversion of its time stamp stays.\<close>

definition update_row :: "int \<Rightarrow> string \<Rightarrow> string \<Rightarrow> pydict \<Rightarrow> pydict" where
  "update_row now status summary entry =
     (let entry = dict_set entry ''status'' (PyStr status);
          entry = (if summary \<noteq> [] then dict_set entry ''summary'' (PyStr (truncate_text (py_strip summary) SUMMARY_PREVIEW_CHARS)) else entry)
      in case py_int (dict_get_default entry ''ts'' (PyInt now)) of
           Inl _ \<Rightarrow> entry
         | Inr ts \<Rightarrow> dict_set entry ''duration_ms'' (PyInt (max 0 (now - ts))))"

definition row_of :: "string \<Rightarrow> pyval \<Rightarrow> bool" where
  "row_of task_id v = (case v of PyDict d \<Rightarrow> dict_get d ''task_id'' = PyStr task_id | _ \<Rightarrow> False)"

fun update_first :: "(pydict \<Rightarrow> pydict) \<Rightarrow> string \<Rightarrow> pyval list \<Rightarrow> pyval list" where
  "update_first f task_id [] = []"
| "update_first f task_id (v # vs) =
     (if row_of task_id v then (case v of PyDict d \<Rightarrow> PyDict (f d) | _ \<Rightarrow> v) # vs else v # update_first f task_id vs)"

definition update_subagent_status :: "int \<Rightarrow> string \<Rightarrow> string \<Rightarrow> string \<Rightarrow> pydict option \<Rightarrow> pydict option" where
  "update_subagent_status now task_id status summary =
     map_option (\<lambda>state.
       let existing = panel_entries state DELEGATE_HISTORY_STATE_KEY
       in if list_ex (row_of task_id) existing
          then dict_set state DELEGATE_HISTORY_STATE_KEY (PyList (update_first (update_row now status summary) task_id existing))
          else state)"

definition record_memory_write :: "int \<Rightarrow> string \<Rightarrow> string \<Rightarrow> pydict option \<Rightarrow> pydict option" where
  "record_memory_write now scope content =
     map_option (append_capped MEMORY_WRITES_STATE_KEY
       [(''scope'', PyStr scope), (''content'', PyStr (truncate_text (py_strip content) SUMMARY_PREVIEW_CHARS)), (''ts'', PyInt now)] MEMORY_CAP)"

section \<open>Lemmas\<close>

lemma length_truncate_text: "0 < limit \<Longrightarrow> length (truncate_text s limit) \<le> limit"
  by (auto simp: truncate_text_def)

lemma length_keep_last: "length (keep_last n xs) \<le> n"
  by (auto simp: keep_last_def)

lemma keep_last_snoc: "0 < n \<Longrightarrow> \<exists>ys. keep_last n (xs @ [x]) = ys @ [x]"
  by (auto simp: keep_last_def intro: exI [of _ xs])

lemma panel_dict_set [simp]:
  "panel_entries (dict_set state key (PyList xs)) key = xs"
  "k \<noteq> key \<Longrightarrow> panel_entries (dict_set state k v) key = panel_entries state key"
  by (simp_all add: panel_entries_def dict_get_def dict_get_default_def)

lemma panel_append_capped: "panel_entries (append_capped key entry cap state) key = keep_last cap (panel_entries state key @ [PyDict entry])"
  by (simp add: append_capped_def)

lemma length_update_first [simp]: "length (update_first f t vs) = length vs"
  by (induction vs) auto

text \<open>An update changes the first row of its task and no other.\<close>

lemma update_first_split:
  assumes "\<not> list_ex (row_of t) before" and "row_of t (PyDict d)"
  shows "update_first f t (before @ PyDict d # rest) = before @ PyDict (f d) # rest"
  using assms by (induction before) auto

lemma update_row_keeps_task: "dict_get (update_row now status summary d) ''task_id'' = dict_get d ''task_id''"
  by (auto simp: update_row_def Let_def dict_get_def dict_get_default_def split: sum.splits)

lemma update_row_status: "dict_get (update_row now status summary d) ''status'' = PyStr status"
  by (auto simp: update_row_def Let_def dict_get_def dict_get_default_def split: sum.splits)

text \<open>Spawning keeps at most \<open>DELEGATE_CAP\<close> rows and puts the new one last.\<close>

lemma spawn_row_is_last:
  assumes "record_subagent_spawn now t goal (Some state) = Some state'"
  shows "\<exists>before. panel_entries state' DELEGATE_HISTORY_STATE_KEY = before @ [PyDict (spawn_row now t goal)] \<and> length before < DELEGATE_CAP"
proof -
  have s: "panel_entries state' DELEGATE_HISTORY_STATE_KEY =
      keep_last DELEGATE_CAP (panel_entries state DELEGATE_HISTORY_STATE_KEY @ [PyDict (spawn_row now t goal)])"
    using assms by (auto simp: record_subagent_spawn_def panel_append_capped)
  obtain before where b: "keep_last DELEGATE_CAP (panel_entries state DELEGATE_HISTORY_STATE_KEY @ [PyDict (spawn_row now t goal)])
      = before @ [PyDict (spawn_row now t goal)]"
    using keep_last_snoc [of DELEGATE_CAP "panel_entries state DELEGATE_HISTORY_STATE_KEY" "PyDict (spawn_row now t goal)"]
    by (auto simp: DELEGATE_CAP_def)
  then show ?thesis using s length_keep_last [of DELEGATE_CAP "panel_entries state DELEGATE_HISTORY_STATE_KEY @ [PyDict (spawn_row now t goal)]"]
    by auto
qed

end
