(* ===== verification/Subagents.thy ===== *)
theory Subagents
  imports Delegation
begin

text \<open>
  Background children: the registry of their tasks (\<open>subagents/registry.py\<close>), the \<open>agent\<close> tool over it
  (\<open>subagents/spawn.py\<close>), the \<open>subagent\<close> tool that chooses between a blocking and a background child
  (\<open>subagents/subagent.py\<close>) and the transcript a child may be given (\<open>subagents/transcript.py\<close>). A task is
  what it runs and its outcome once it has one. What the event loop does while an operation waits is a
  list of \<open>loop_event\<close>s; \<open>elapsed\<close> is the rounded time since a start.
\<close>

section \<open>The registry\<close>

datatype outcome = Returned pyval | Failed string | WasCancelled

record handle =
  h_goal :: string
  h_work :: child_request
  h_outcome :: "outcome option"
  h_started_at :: rat
  h_parent_id :: "string option"
  h_cancelled_explicitly :: bool
  h_name :: "string option"
  h_consumed :: bool

type_synonym registry = "(string \<times> handle) list"

definition task_done :: "handle \<Rightarrow> bool" where
  "task_done h \<longleftrightarrow> h_outcome h \<noteq> None"

definition status_label :: "handle \<Rightarrow> string" where
  "status_label h =
     (if h_outcome h = Some WasCancelled \<or> h_cancelled_explicitly h then ''cancelled''
      else case h_outcome h of
             None \<Rightarrow> ''running'' | Some (Failed _) \<Rightarrow> ''failed'' | Some (Returned _) \<Rightarrow> ''completed'' | Some WasCancelled \<Rightarrow> ''cancelled'')"

definition register :: "string \<Rightarrow> rat \<Rightarrow> child_request \<Rightarrow> string \<Rightarrow> string option \<Rightarrow> string option \<Rightarrow> registry \<Rightarrow> string \<times> registry" where
  "register task_id now work goal parent_id name st =
     (task_id, dict_set st task_id \<lparr>h_goal = goal, h_work = work, h_outcome = None, h_started_at = now, h_parent_id = parent_id,
        h_cancelled_explicitly = False, h_name = name, h_consumed = False\<rparr>)"

definition with_name :: "string option \<Rightarrow> pydict" where
  "with_name name = (case name of Some (c # cs) \<Rightarrow> [(''name'', PyStr (c # cs))] | _ \<Rightarrow> [])"

definition get_status :: "(rat \<Rightarrow> pyval) \<Rightarrow> string \<Rightarrow> registry \<Rightarrow> pydict" where
  "get_status elapsed task_id st =
     (case map_of st task_id of
        None \<Rightarrow> [(''status'', PyStr ''unknown''), (''task_id'', PyStr task_id)]
      | Some h \<Rightarrow> [(''status'', PyStr (status_label h)), (''task_id'', PyStr task_id), (''goal'', PyStr (h_goal h)),
                   (''elapsed_s'', elapsed (h_started_at h))] @ with_name (h_name h))"

text \<open>Cancelling marks the handle and asks its task and those of its children to stop; a task that is
  over stays as it is.\<close>

definition mark_cancelled :: "handle \<Rightarrow> handle" where
  "mark_cancelled h = h\<lparr>h_cancelled_explicitly := True\<rparr>"

definition registry_cancel :: "string \<Rightarrow> registry \<Rightarrow> bool \<times> registry" where
  "registry_cancel task_id st =
     (if map_of st task_id = None then (False, st)
      else (True, map (\<lambda>(t, h). (t, if t = task_id \<or> h_parent_id h = Some task_id then mark_cancelled h else h)) st))"

definition final_result :: "string \<Rightarrow> handle \<Rightarrow> pydict" where
  "final_result task_id h =
     (let status = (\<lambda>s. [(''status'', PyStr s), (''task_id'', PyStr task_id)])
      in if h_cancelled_explicitly h then status ''cancelled''
         else case h_outcome h of
                Some (Failed e) \<Rightarrow> status ''failed'' @ [(''error'', PyStr e)]
              | Some (Returned v) \<Rightarrow> status ''completed'' @ [(''result'', v)]
              | _ \<Rightarrow> status ''cancelled'')"

text \<open>A wait takes a snapshot of the handles it looks at, lets the event loop run and goes on with the
  snapshot. It does not look again at what other waits have handed out meanwhile.\<close>

definition tracked :: "string list option \<Rightarrow> registry \<Rightarrow> string list" where
  "tracked task_ids st =
     (case task_ids of
        None \<Rightarrow> map fst (filter (\<lambda>(_, h). \<not> h_consumed h) st)
      | Some ts \<Rightarrow> filter (\<lambda>t. map_of st t \<noteq> None) ts)"

definition is_over :: "registry \<Rightarrow> string \<Rightarrow> bool" where
  "is_over st t = (case map_of st t of None \<Rightarrow> False | Some h \<Rightarrow> task_done h)"

definition consume :: "string \<Rightarrow> registry \<Rightarrow> registry" where
  "consume task_id = map (\<lambda>(t, h). (t, if t = task_id then h\<lparr>h_consumed := True\<rparr> else h))"

definition wait_resume :: "string list \<Rightarrow> registry \<Rightarrow> pydict \<times> registry" where
  "wait_resume ids st =
     (case find (is_over st) ids of
        None \<Rightarrow> ([(''status'', PyStr ''timeout''), (''still_running'', PyList (map PyStr ids))], st)
      | Some t \<Rightarrow>
          (let st' = consume t st; result = final_result t (the (map_of st' t))
           in ([(''task_id'', PyStr t), (''status'', dict_get result ''status''), (''result'', dict_get result ''result''),
                (''still_running'', PyList (map PyStr (filter (\<lambda>u. u \<noteq> t \<and> \<not> is_over st' u) ids)))], st')))"

text \<open>What else may happen while an operation waits: a task ends, or another call cancels, registers a
  child, or goes on with a wait of its own.\<close>

datatype loop_event =
    Finish string outcome
  | CancelCall string
  | SpawnCall string rat child_request string "string option" "string option"
  | OtherWait "string list"

definition finish_task :: "string \<Rightarrow> outcome \<Rightarrow> registry \<Rightarrow> registry" where
  "finish_task task_id out = map (\<lambda>(t, h). (t, if t = task_id \<and> \<not> task_done h then h\<lparr>h_outcome := Some out\<rparr> else h))"

fun loop_step :: "registry \<Rightarrow> loop_event \<Rightarrow> registry" where
  "loop_step st (Finish t out) = finish_task t out st"
| "loop_step st (CancelCall t) = snd (registry_cancel t st)"
| "loop_step st (SpawnCall t now work goal parent_id name) = snd (register t now work goal parent_id name st)"
| "loop_step st (OtherWait ids) = snd (wait_resume ids st)"

definition settle :: "loop_event list \<Rightarrow> registry \<Rightarrow> registry" where
  "settle evs st = foldl loop_step st evs"

text \<open>How the wait for one task ends: the task is over, the time is up, or the waiting call is cancelled.\<close>

datatype wait_end = Woken | TimeUp | Interrupted

definition get_result ::
    "(rat \<Rightarrow> pyval) \<Rightarrow> loop_event list \<Rightarrow> wait_end \<Rightarrow> string \<Rightarrow> bool \<Rightarrow> registry \<Rightarrow> pydict \<times> registry" where
  "get_result elapsed evs ending task_id wait st =
     (let status = (\<lambda>s. [(''status'', PyStr s), (''task_id'', PyStr task_id)])
      in case map_of st task_id of
           None \<Rightarrow> (status ''unknown'', st)
         | Some h \<Rightarrow>
             if task_done h then (final_result task_id h, st)
             else if \<not> wait then (status (status_label h), st)
             else (let st' = settle evs st; h' = the (map_of st' task_id)
                   in (case (ending, h_outcome h') of
                         (Interrupted, _) \<Rightarrow> status ''cancelled''
                       | (Woken, Some WasCancelled) \<Rightarrow> status ''cancelled''
                       | (Woken, Some (Failed e)) \<Rightarrow> status ''failed'' @ [(''error'', PyStr e)]
                       | (Woken, Some (Returned v)) \<Rightarrow> final_result task_id h'
                       | _ \<Rightarrow> status ''timeout'' @ [(''elapsed_s'', elapsed (h_started_at h))], st')))"

definition registry_wait :: "loop_event list \<Rightarrow> string list option \<Rightarrow> registry \<Rightarrow> pydict \<times> registry" where
  "registry_wait evs task_ids st =
     (let ids = tracked task_ids st
      in if ids = [] then ([(''status'', PyStr ''no_active_tasks'')], st) else wait_resume ids (settle evs st))"

definition list_active :: "(rat \<Rightarrow> pyval) \<Rightarrow> registry \<Rightarrow> pydict list" where
  "list_active elapsed st =
     map (\<lambda>(t, h). [(''task_id'', PyStr t), (''goal'', PyStr (h_goal h)), (''status'', PyStr (status_label h)),
                    (''elapsed_s'', elapsed (h_started_at h))] @ with_name (h_name h))
       (filter (\<lambda>(t, h). status_label h = ''running'') st)"

section \<open>The agent tool\<close>

definition SPAWN_TIMEOUT_S :: pyval where "SPAWN_TIMEOUT_S = PyFloat 300 ''300.0''"

definition TERMINAL :: "string list" where
  "TERMINAL = [''completed'', ''timeout'', ''failed'', ''cancelled'']"

definition PANEL_STATUS :: "(string \<times> string) list" where
  "PANEL_STATUS = [(''completed'', ''completed''), (''timeout'', ''timeout''), (''failed'', ''halted''), (''cancelled'', ''halted'')]"

definition result_summary :: "pydict \<Rightarrow> string" where
  "result_summary payload =
     (case dict_get payload ''result'' of
        PyDict inner \<Rightarrow> (case dict_get inner ''summary'' of PyStr s \<Rightarrow> s | _ \<Rightarrow> py_str (dict_get_default payload ''error'' (PyStr [])))
      | _ \<Rightarrow> py_str (dict_get_default payload ''error'' (PyStr [])))"

definition sync_row :: "int \<Rightarrow> string \<Rightarrow> pydict \<Rightarrow> pydict option \<Rightarrow> pydict option" where
  "sync_row now task_id payload state =
     (case dict_get payload ''status'' of
        PyStr s \<Rightarrow> if s \<in> set TERMINAL
                   then update_subagent_status now task_id (dict_get_default PANEL_STATUS s ''halted'') (result_summary payload) state
                   else state
      | _ \<Rightarrow> state)"

text \<open>A call of the tool: what the model passed and what the runtime contributes.\<close>

record agent_call =
  ac_action :: string
  ac_request :: child_request
  ac_goal :: "string option"
  ac_task_id :: "string option"
  ac_task_ids :: "string list option"
  ac_wait :: bool
  ac_timeout_s :: "pyval option"
  ac_fresh_id :: string
  ac_now :: rat
  ac_now_ms :: int
  ac_elapsed :: "rat \<Rightarrow> pyval"
  ac_events :: "loop_event list"
  ac_ending :: wait_end

definition missing :: "string \<Rightarrow> string \<Rightarrow> pydict" where
  "missing action arg = [(''success'', PyBool False), (''error'', PyStr (''action='' @ py_repr_str action @ '' requires '' @ py_repr_str arg))]"

definition agent_spawn :: "agent_call \<Rightarrow> string \<Rightarrow> pydict option \<Rightarrow> registry \<Rightarrow> pydict \<times> pydict option \<times> registry" where
  "agent_spawn a goal state st =
     (let work = (ac_request a)\<lparr>cq_goal := goal, cq_timeout_s := (case ac_timeout_s a of None \<Rightarrow> SPAWN_TIMEOUT_S | Some t \<Rightarrow> t)\<rparr>;
          (task_id, st') = register (ac_fresh_id a) (ac_now a) work goal None (cq_name work) st
      in ([(''success'', PyBool True), (''task_id'', PyStr task_id), (''status'', PyStr ''pending'')],
          record_subagent_spawn (ac_now_ms a) task_id goal state, st'))"

definition agent_wait :: "agent_call \<Rightarrow> pydict option \<Rightarrow> registry \<Rightarrow> pydict \<times> pydict option \<times> registry" where
  "agent_wait a state st =
     (let (payload, st') = registry_wait (ac_events a) (ac_task_ids a) st
      in (payload,
          (case dict_get payload ''task_id'' of
             PyStr t \<Rightarrow> sync_row (ac_now_ms a) t
               [(''status'', dict_get payload ''status''),
                (''result'', if truthy (dict_get payload ''result'') then dict_get payload ''result'' else PyDict [])] state
           | _ \<Rightarrow> state), st'))"

definition agent :: "agent_call \<Rightarrow> pydict option \<Rightarrow> registry \<Rightarrow> pydict \<times> pydict option \<times> registry" where
  "agent a state st =
     (let action = ac_action a in
      if action = ''spawn'' then
        (case ac_goal a of None \<Rightarrow> (missing action ''goal'', state, st) | Some goal \<Rightarrow> agent_spawn a goal state st)
      else if action = ''status'' then
        (case ac_task_id a of
           None \<Rightarrow> (missing action ''task_id'', state, st)
         | Some t \<Rightarrow> (let payload = get_status (ac_elapsed a) t st in (payload, sync_row (ac_now_ms a) t payload state, st)))
      else if action = ''result'' then
        (case ac_task_id a of
           None \<Rightarrow> (missing action ''task_id'', state, st)
         | Some t \<Rightarrow> (let (payload, st') = get_result (ac_elapsed a) (ac_events a) (ac_ending a) t (ac_wait a) st
                      in (payload, sync_row (ac_now_ms a) t payload state, st')))
      else if action = ''wait'' then agent_wait a state st
      else if action = ''cancel'' then
        (case ac_task_id a of
           None \<Rightarrow> (missing action ''task_id'', state, st)
         | Some t \<Rightarrow> (let (cancelled, st') = registry_cancel t st
                      in ([(''task_id'', PyStr t), (''cancelled'', PyBool cancelled)], state, st')))
      else if action = ''list'' then ([(''active'', PyList (map PyDict (list_active (ac_elapsed a) st)))], state, st)
      else ([(''success'', PyBool False), (''error'', PyStr (''Unknown action '' @ py_repr_str action
              @ ''. Use: spawn, status, result, wait, cancel, list.''))], state, st))"

section \<open>The transcript for a child\<close>

definition MAX_TRANSCRIPT_CHARS :: nat where "MAX_TRANSCRIPT_CHARS = 4000"

record chat_part =
  pt_text :: "string option"
  pt_call :: bool

record chat_event =
  ch_author :: "string option"
  ch_parts :: "chat_part list"

definition turn_text :: "chat_event \<Rightarrow> string" where
  "turn_text ev = py_strip (concat (List.map_filter (\<lambda>p. if pt_call p then None else pt_text p) (ch_parts ev)))"

definition render_turn :: "chat_event \<Rightarrow> string option" where
  "render_turn ev =
     (if turn_text ev = [] then None
      else Some ((if ch_author ev = Some ''user'' then ''User'' else ''Assistant'') @ '': '' @ turn_text ev))"

fun keep_turns :: "nat \<Rightarrow> string list \<Rightarrow> string list" where
  "keep_turns used [] = []"
| "keep_turns used (turn # turns) =
     (if used + length turn + 1 > MAX_TRANSCRIPT_CHARS then [] else turn # keep_turns (used + length turn + 1) turns)"

definition parent_transcript :: "chat_event list \<Rightarrow> string" where
  "parent_transcript events = py_join [NL] (rev (keep_turns 0 (rev (List.map_filter render_turn events))))"

section \<open>The subagent tool\<close>

definition SUPPORTED_ACTIONS :: "string list" where
  "SUPPORTED_ACTIONS = [''status'', ''result'', ''wait'', ''cancel'', ''list'']"

definition DELEGATE_TIMEOUT_S :: pyval where "DELEGATE_TIMEOUT_S = PyFloat 120 ''120.0''"

definition with_parent_transcript :: "string \<Rightarrow> bool \<Rightarrow> chat_event list \<Rightarrow> string" where
  "with_parent_transcript context include events =
     (let transcript = parent_transcript events;
          block = ''## Parent conversation so far'' @ [NL, NL] @ transcript
      in if \<not> include \<or> transcript = [] then context
         else if py_strip context \<noteq> [] then block @ [NL, NL] @ py_strip context else block)"

record subagent_call =
  sc_agent :: agent_call
  sc_action :: "string option"
  sc_background :: bool
  sc_include_transcript :: bool
  sc_parent_events :: "chat_event list"

record subagent_world =
  sw_context :: "delegate_context option"
  sw_calls :: "framework_call list"
  sw_registry :: registry

definition via_agent :: "agent_call \<Rightarrow> subagent_world \<Rightarrow> pydict \<times> subagent_world" where
  "via_agent a w =
     (let (payload, state, st) = agent a (map_option dc_state (sw_context w)) (sw_registry w)
      in (payload, w\<lparr>sw_context := map_option (\<lambda>c. c\<lparr>dc_state := the state\<rparr>) (sw_context w), sw_registry := st\<rparr>))"

definition subagent :: "delegate_env \<Rightarrow> subagent_call \<Rightarrow> subagent_world \<Rightarrow> pydict \<times> subagent_world" where
  "subagent de s w =
     (let a = sc_agent s
      in case sc_action s of
           Some action \<Rightarrow>
             if action \<notin> set SUPPORTED_ACTIONS
             then ([(''success'', PyBool False), (''error'', PyStr (''Unknown action '' @ py_repr_str action @ ''. Use one of ''
                     @ py_join '', '' SUPPORTED_ACTIONS @ '', or omit action ''
                     @ ''(optionally with background=True) to start a new task.''))], w)
             else via_agent (a\<lparr>ac_action := action, ac_goal := None\<rparr>) w
         | None \<Rightarrow>
             (case ac_goal a of
                None \<Rightarrow> ([(''success'', PyBool False), (''error'', PyStr ''goal is required to start a new subagent task.'')], w)
              | Some goal \<Rightarrow>
                  (let q = (ac_request a)\<lparr>cq_goal := goal,
                             cq_context := with_parent_transcript (cq_context (ac_request a)) (sc_include_transcript s) (sc_parent_events s)\<rparr>
                   in if sc_background s then via_agent (a\<lparr>ac_action := ''spawn'', ac_request := q\<rparr>) w
                      else (let (r, ctx, calls) = delegate de (ac_now_ms a)
                                  (q\<lparr>cq_timeout_s := (case ac_timeout_s a of None \<Rightarrow> DELEGATE_TIMEOUT_S | Some t \<Rightarrow> t)\<rparr>)
                                  (sw_context w) (sw_calls w)
                            in (r, w\<lparr>sw_context := ctx, sw_calls := calls\<rparr>)))))"

section \<open>Lemmas on the registry\<close>

lemma keys_finish [simp]: "map fst (finish_task t out st) = map fst st"
  by (induction st) (auto simp: finish_task_def)

lemma keys_cancel [simp]: "map fst (snd (registry_cancel t st)) = map fst st"
  by (auto simp: registry_cancel_def)

lemma keys_consume [simp]: "map fst (consume t st) = map fst st"
  by (induction st) (auto simp: consume_def)

lemma map_of_keyed_map: "map_of (map (\<lambda>(t, h). (t, f t h)) st) u = map_option (f u) (map_of st u)"
  by (induction st) auto

lemma map_of_finish: "map_of (finish_task t out st) u =
    map_option (\<lambda>h. if u = t \<and> \<not> task_done h then h\<lparr>h_outcome := Some out\<rparr> else h) (map_of st u)"
  unfolding finish_task_def by (rule map_of_keyed_map)

lemma map_of_cancel: "map_of (snd (registry_cancel t st)) u =
    map_option (\<lambda>h. if map_of st t \<noteq> None \<and> (u = t \<or> h_parent_id h = Some t) then mark_cancelled h else h) (map_of st u)"
proof (cases "map_of st t")
  case None
  then show ?thesis by (cases "map_of st u") (auto simp: registry_cancel_def)
next
  case (Some h)
  then show ?thesis by (simp add: registry_cancel_def map_of_keyed_map)
qed

lemma map_of_consume: "map_of (consume t st) u = map_option (\<lambda>h. if u = t then h\<lparr>h_consumed := True\<rparr> else h) (map_of st u)"
  unfolding consume_def by (rule map_of_keyed_map)

text \<open>Identifiers are random; a child is registered under one that is not in use.\<close>

fun fresh_event :: "registry \<Rightarrow> loop_event \<Rightarrow> bool" where
  "fresh_event st (SpawnCall t now work goal parent_id name) \<longleftrightarrow> map_of st t = None"
| "fresh_event st _ \<longleftrightarrow> True"

fun fresh_events :: "registry \<Rightarrow> loop_event list \<Rightarrow> bool" where
  "fresh_events st [] \<longleftrightarrow> True"
| "fresh_events st (e # evs) \<longleftrightarrow> fresh_event st e \<and> fresh_events (loop_step st e) evs"

text \<open>A wait that goes on either hands out a child of its snapshot that is over, or changes nothing.\<close>

definition handed :: "pydict \<Rightarrow> string list" where
  "handed p = (case dict_get p ''task_id'' of PyStr t \<Rightarrow> [t] | _ \<Rightarrow> [])"

lemma wait_resume_cases:
  assumes "wait_resume ids st = (p, st')"
  shows "(handed p = [] \<and> st' = st \<and> (\<forall>t \<in> set ids. \<not> is_over st t)) \<or>
    (\<exists>t. handed p = [t] \<and> t \<in> set ids \<and> is_over st t \<and> st' = consume t st)"
proof (cases "find (is_over st) ids")
  case None
  then have "\<forall>t \<in> set ids. \<not> is_over st t" by (auto simp: find_None_iff)
  moreover have "handed p = [] \<and> st' = st"
    using assms unfolding wait_resume_def None by (auto simp: handed_def dict_get_def dict_get_default_def)
  ultimately show ?thesis by blast
next
  case (Some t)
  then have "t \<in> set ids" "is_over st t" by (auto simp: find_Some_iff)
  moreover have "handed p = [t] \<and> st' = consume t st"
    using assms unfolding wait_resume_def Some by (auto simp: Let_def handed_def dict_get_def dict_get_default_def)
  ultimately show ?thesis by blast
qed

text \<open>What the event loop leaves alone: an outcome once it is there, a cancellation and a hand-out.\<close>

definition keeps :: "handle \<Rightarrow> handle \<Rightarrow> bool" where
  "keeps h h' \<longleftrightarrow> (h_consumed h \<longrightarrow> h_consumed h') \<and> (h_outcome h \<noteq> None \<longrightarrow> h_outcome h' = h_outcome h) \<and>
     (h_cancelled_explicitly h \<longrightarrow> h_cancelled_explicitly h')"

lemma loop_step_keeps:
  assumes "map_of st u = Some h" and "fresh_event st e"
  shows "\<exists>h'. map_of (loop_step st e) u = Some h' \<and> keeps h h'"
proof (cases e)
  case (OtherWait ids)
  obtain p st' where w: "wait_resume ids st = (p, st')" by (rule prod.exhaust)
  then show ?thesis using wait_resume_cases [OF w] assms OtherWait by (auto simp: map_of_consume keeps_def)
qed (use assms in \<open>auto simp: map_of_finish map_of_cancel keeps_def task_done_def mark_cancelled_def register_def\<close>)

lemma settle_keeps: "map_of st u = Some h \<Longrightarrow> fresh_events st evs \<Longrightarrow> \<exists>h'. map_of (settle evs st) u = Some h' \<and> keeps h h'"
proof (induction evs arbitrary: st h)
  case Nil
  then show ?case by (simp add: settle_def keeps_def)
next
  case (Cons e evs)
  obtain h1 where h1: "map_of (loop_step st e) u = Some h1" "keeps h h1" using loop_step_keeps [OF Cons.prems(1)] Cons.prems(2) by auto
  from Cons.IH [OF h1(1)] Cons.prems(2) obtain h2 where "map_of (settle evs (loop_step st e)) u = Some h2" "keeps h1 h2" by auto
  then show ?case using h1(2) by (auto simp: settle_def keeps_def)
qed

section \<open>A fleet of children\<close>

text \<open>The registry, the snapshots of the waits under way, and the children handed out so far. With \<open>orderly\<close>,
  a wait is for any child and starts only when no other is under way.\<close>

inductive fleet_step :: "bool \<Rightarrow> registry \<times> string list list \<times> string list \<Rightarrow> registry \<times> string list list \<times> string list \<Rightarrow> bool"
  for orderly where
  spawns: "map_of st t = None \<Longrightarrow> fleet_step orderly (st, waits, out) (snd (register t now work goal parent name st), waits, out)"
| finishes: "fleet_step orderly (st, waits, out) (finish_task t oc st, waits, out)"
| cancels: "fleet_step orderly (st, waits, out) (snd (registry_cancel t st), waits, out)"
| enters: "tracked task_ids st = ids \<Longrightarrow> ids \<noteq> [] \<Longrightarrow> orderly \<longrightarrow> task_ids = None \<and> waits = [] \<Longrightarrow>
    fleet_step orderly (st, waits, out) (st, ids # waits, out)"
| resumes: "ids \<in> set waits \<Longrightarrow> wait_resume ids st = (p, st') \<Longrightarrow>
    fleet_step orderly (st, waits, out) (st', remove1 ids waits, out @ handed p)"

inductive_cases fleet_stepE: "fleet_step orderly x y"

text \<open>Waiting again and again without a pause.\<close>

fun surface :: "nat \<Rightarrow> registry \<Rightarrow> string list \<times> registry" where
  "surface 0 st = ([], st)"
| "surface (Suc n) st =
     (let (p, st') = registry_wait [] None st; (ts, st'') = surface n st' in (handed p @ ts, st''))"

definition consumed :: "registry \<Rightarrow> string \<Rightarrow> bool" where
  "consumed st t \<longleftrightarrow> (\<exists>h. map_of st t = Some h \<and> h_consumed h)"

text \<open>What was handed out is what is marked; in an orderly run nothing was handed out twice, and the one
  wait under way looks at children that are not handed out.\<close>

definition fleet_ok :: "bool \<Rightarrow> registry \<times> string list list \<times> string list \<Rightarrow> bool" where
  "fleet_ok orderly x \<longleftrightarrow> (case x of (st, waits, out) \<Rightarrow> dict_wf st \<and> set out = Collect (consumed st) \<and>
     (\<forall>ids \<in> set waits. set ids \<subseteq> fst ` set st) \<and>
     (orderly \<longrightarrow> distinct out \<and> length waits \<le> 1 \<and> (\<forall>ids \<in> set waits. \<forall>t \<in> set ids. \<not> consumed st t)))"

lemma tracked_None: "dict_wf st \<Longrightarrow> t \<in> set (tracked None st) \<longleftrightarrow> (\<exists>h. map_of st t = Some h \<and> \<not> h_consumed h)"
  by (force simp: tracked_def dict_wf_def)

lemma distinct_tracked: "dict_wf st \<Longrightarrow> distinct (tracked None st)"
  by (induction st) (auto simp: tracked_def dict_wf_def)

lemma dict_wf_keys: "map fst st' = map fst st \<Longrightarrow> dict_wf st' \<longleftrightarrow> dict_wf st"
  by (simp add: dict_wf_def)

lemma tracked_keys: "set (tracked task_ids st) \<subseteq> fst ` set st"
  by (auto simp: tracked_def map_of_eq_None_iff split: option.splits)

lemma consumed_iff: "consumed st t \<longleftrightarrow> (case map_of st t of None \<Rightarrow> False | Some h \<Rightarrow> h_consumed h)"
  by (simp add: consumed_def split: option.split)

lemma consumed_finish: "consumed (finish_task t oc st) = consumed st"
  by (simp add: fun_eq_iff consumed_iff map_of_finish split: option.split)

lemma consumed_cancel: "consumed (snd (registry_cancel t st)) = consumed st"
  by (simp add: fun_eq_iff consumed_iff map_of_cancel mark_cancelled_def split: option.split)

lemma consumed_register: "map_of st t = None \<Longrightarrow> consumed (snd (register t now work goal parent name st)) = consumed st"
  by (simp add: fun_eq_iff consumed_iff register_def)

lemma consumed_consume: "map_of st t \<noteq> None \<Longrightarrow> consumed (consume t st) u \<longleftrightarrow> u = t \<or> consumed st u"
  by (cases "map_of st u"; cases "u = t") (auto simp: consumed_def map_of_consume)

lemma keys_eq: "map fst st' = map fst st \<Longrightarrow> fst ` set st' = fst ` set st"
  by (metis list.set_map)

lemma fleet_step_ok: "fleet_step orderly x y \<Longrightarrow> fleet_ok orderly x \<Longrightarrow> fleet_ok orderly y"
proof (induction rule: fleet_step.induct)
  case (spawns st t waits out now work goal parent name)
  let ?st = "snd (register t now work goal parent name st)"
  have "fst ` set st \<subseteq> fst ` set ?st" "dict_wf st \<Longrightarrow> dict_wf ?st"
    by (auto simp: register_def keys_dict_set [unfolded list.set_map] dict_wf_set)
  then show ?case using spawns(2) unfolding fleet_ok_def prod.case consumed_register [OF spawns(1)] by blast
next
  case (finishes st waits out t oc)
  then show ?case using dict_wf_keys [OF keys_finish] keys_eq [OF keys_finish] by (simp add: fleet_ok_def consumed_finish)
next
  case (cancels st waits out t)
  then show ?case using dict_wf_keys [OF keys_cancel] keys_eq [OF keys_cancel] by (simp add: fleet_ok_def consumed_cancel)
next
  case (enters task_ids st ids waits out)
  then show ?case using tracked_keys [of task_ids st] tracked_None [of st] by (auto simp: fleet_ok_def consumed_def)
next
  case (resumes ids waits st p st' out)
  note x = resumes.prems [unfolded fleet_ok_def prod.case]
  from wait_resume_cases [OF resumes(2)] show ?case
  proof (elim disjE exE conjE)
    assume "handed p = []" "st' = st"
    moreover have "set (remove1 ids waits) \<subseteq> set waits" "length (remove1 ids waits) \<le> length waits"
      by (auto simp: set_remove1_subset length_remove1)
    ultimately show ?thesis using x unfolding fleet_ok_def by (simp add: subset_eq) (meson le_trans)
  next
    fix t assume t: "handed p = [t]" "t \<in> set ids" "st' = consume t st"
    then have "map_of st t \<noteq> None" using x resumes(1) by (auto simp: map_of_eq_None_iff)
    note c = consumed_consume [OF this]
    have "dict_wf st'" "fst ` set st' = fst ` set st" using x t(3) dict_wf_keys [OF keys_consume] keys_eq [OF keys_consume] by auto
    moreover have "set (out @ [t]) = Collect (consumed st')" using x c by (auto simp: t(3))
    moreover have "distinct (out @ [t])" "remove1 ids waits = []" if orderly
      using that x t(2) resumes(1) by (auto simp: le_Suc_eq length_Suc_conv)
    moreover have "set (remove1 ids waits) \<subseteq> set waits" by (rule set_remove1_subset)
    ultimately show ?thesis using x t(1) by (auto simp: fleet_ok_def)
  qed
qed

lemma fleet_run_ok: "(fleet_step orderly)\<^sup>*\<^sup>* ([], [], []) x \<Longrightarrow> fleet_ok orderly x"
proof (induction rule: rtranclp_induct)
  case base
  show ?case by (simp add: fleet_ok_def dict_wf_def consumed_def)
next
  case (step y z)
  then show ?case using fleet_step_ok by blast
qed

text \<open>When every child is over, a wait hands out the first that is left.\<close>

lemma wait_first:
  assumes "dict_wf st" and "\<forall>(t, h) \<in> set st. task_done h" and "tracked None st = t # ts"
  shows "\<exists>p. registry_wait [] None st = (p, consume t st) \<and> handed p = [t] \<and>
    dict_wf (consume t st) \<and> (\<forall>(t, h) \<in> set (consume t st). task_done h) \<and> tracked None (consume t st) = ts"
proof -
  have "t \<in> set (tracked None st)" using assms(3) by simp
  then obtain h where h: "map_of st t = Some h" using tracked_None [OF assms(1)] by blast
  then have "task_done h" using assms(2) map_of_SomeD by fastforce
  then have over: "is_over st t" using h by (simp add: is_over_def)
  have "map fst (filter (\<lambda>(u, h). \<not> h_consumed h) (consume t st)) = filter (\<lambda>u. u \<noteq> t) (tracked None st)"
    using assms(1) unfolding tracked_def consume_def dict_wf_def by (induction st) auto
  also have "\<dots> = ts" using assms(3) distinct_tracked [OF assms(1)] by (auto intro: filter_True)
  finally have rest: "tracked None (consume t st) = ts" by (simp add: tracked_def)
  have "\<forall>(u, h) \<in> set (consume t st). task_done h" using assms(2) by (auto simp: consume_def task_done_def)
  moreover have "settle [] st = st" by (simp add: settle_def)
  ultimately show ?thesis using over rest assms(1,3) dict_wf_keys [OF keys_consume]
    by (auto simp: registry_wait_def wait_resume_def Let_def handed_def dict_get_def dict_get_default_def)
qed

lemma surface_all:
  assumes "dict_wf st" and "\<forall>(t, h) \<in> set st. task_done h"
  shows "\<exists>st'. surface (length (tracked None st)) st = (tracked None st, st') \<and> tracked None st' = []"
  using assms
proof (induction "tracked None st" arbitrary: st)
  case Nil
  then show ?case by (intro exI [of _ st]) simp
next
  case (Cons t ts)
  obtain p where p: "registry_wait [] None st = (p, consume t st)" "handed p = [t]"
    and rest: "dict_wf (consume t st)" "\<forall>(t, h) \<in> set (consume t st). task_done h" "tracked None (consume t st) = ts"
    using wait_first [OF Cons.prems Cons.hyps(2) [symmetric]] by blast
  obtain st' where "surface (length ts) (consume t st) = (ts, st')" "tracked None st' = []"
    using Cons.hyps(1) [OF rest(3) [symmetric] rest(1,2)] rest(3) by auto
  then show ?case using p Cons.hyps(2) [symmetric] by (intro exI [of _ st']) simp
qed

section \<open>Properties\<close>

text \<open>C27: No child is lost, and in an orderly run none is handed out twice. Along every run of spawns, endings,
  cancellations and waits, scoped or not and overlapping in any way, once every child is over
  each is either handed out or still to be handed out, never both, and waiting as often as children are
  left hands out precisely those, in the order of their start, after which a wait answers that no task is
  active. If moreover every wait was for any child and none began while another was under way, no child
  was handed out twice.\<close>

theorem every_child_is_surfaced_once:
  assumes "(fleet_step orderly)\<^sup>*\<^sup>* ([], [], []) (st, waits, out)" and "\<forall>(t, h) \<in> set st. task_done h"
  shows "set out \<union> set (tracked None st) = fst ` set st \<and> set out \<inter> set (tracked None st) = {} \<and>
    distinct (tracked None st) \<and> (orderly \<longrightarrow> distinct out) \<and>
    (\<exists>st'. surface (length (tracked None st)) st = (tracked None st, st') \<and>
       registry_wait evs None st' = ([(''status'', PyStr ''no_active_tasks'')], st'))"
proof -
  have ok: "dict_wf st" "orderly \<longrightarrow> distinct out" "set out = Collect (consumed st)"
    using fleet_run_ok [OF assms(1)] by (auto simp: fleet_ok_def)
  have keys: "t \<in> fst ` set st \<longleftrightarrow> (\<exists>h. map_of st t = Some h)" for t
    using ok(1) by (force simp: dict_wf_def)
  have "t \<in> set out \<union> set (tracked None st) \<longleftrightarrow> t \<in> fst ` set st" for t
    unfolding keys using ok(3) tracked_None [OF ok(1)] by (auto simp: consumed_def)
  then have "set out \<union> set (tracked None st) = fst ` set st" by blast
  moreover have "set out \<inter> set (tracked None st) = {}" using ok tracked_None [OF ok(1)] by (auto simp: consumed_def)
  moreover obtain st' where "surface (length (tracked None st)) st = (tracked None st, st')" "tracked None st' = []"
    using surface_all [OF ok(1) assms(2)] by blast
  ultimately show ?thesis using ok(2) distinct_tracked [OF ok(1)] by (auto simp: registry_wait_def)
qed

theorem every_child_is_surfaced_once_witness:
  "let st = finish_task ''a'' (Returned PyNone) (snd (register ''a'' 0 demo_request ''g'' None None []));
       st' = consume ''a'' st
   in (fleet_step True)\<^sup>*\<^sup>* ([], [], []) (st', [], [''a'']) \<and> {''a''} \<union> set (tracked None st') = fst ` set st' \<and>
      (\<exists>st''. surface 0 st' = ([], st''))"
proof -
  let ?reg = "snd (register ''a'' 0 demo_request ''g'' None None [])"
  let ?st = "finish_task ''a'' (Returned PyNone) ?reg"
  let ?st' = "consume ''a'' ?st"
  have "map_of ([] :: registry) ''a'' = None" by simp
  then have s1: "fleet_step True ([], [], []) (?reg, [], [])" by (rule fleet_step.spawns)
  have s2: "fleet_step True (?reg, [], []) (?st, [], [])" by (rule fleet_step.finishes)
  have "tracked None ?st = [''a'']" by (simp add: register_def finish_task_def tracked_def task_done_def)
  then have s3: "fleet_step True (?st, [], []) (?st, [[''a'']], [])" by (rule fleet_step.enters) simp_all
  obtain p where "wait_resume [''a''] ?st = (p, ?st')" "handed p = [''a'']"
    by (simp add: wait_resume_def handed_def is_over_def register_def finish_task_def task_done_def Let_def dict_get_def dict_get_default_def)
  then have "fleet_step True (?st, [[''a'']], []) (?st', [], [''a''])" using fleet_step.resumes [of "[''a'']" "[[''a'']]" ?st p ?st' True "[]"] by simp
  then have run: "(fleet_step True)\<^sup>*\<^sup>* ([], [], []) (?st', [], [''a''])"
    using s1 s2 s3 by (meson rtranclp.rtrancl_into_rtrancl rtranclp.rtrancl_refl)
  have over: "\<forall>(t, h) \<in> set ?st'. task_done h" by (simp add: register_def finish_task_def consume_def task_done_def)
  from every_child_is_surfaced_once [OF run over, of "[]"] run show ?thesis by (simp add: Let_def)
qed

text \<open>Without that order a child may be handed out twice: a wait scoped to a child hands it out however often
  it was handed out before, and two waits for any child that overlap hand out the same one.\<close>

lemma scoped_wait_hands_out_again:
  "map_of st t = Some h \<Longrightarrow> task_done h \<Longrightarrow> handed (fst (registry_wait [] (Some [t]) st)) = [t]"
  by (simp add: registry_wait_def tracked_def wait_resume_def settle_def is_over_def handed_def Let_def dict_get_def dict_get_default_def)

lemma overlapping_waits_hand_out_twice: "\<exists>st. (fleet_step False)\<^sup>*\<^sup>* ([], [], []) (st, [], [''a'', ''a''])"
proof -
  let ?reg = "snd (register ''a'' 0 demo_request ''g'' None None [])"
  let ?st = "finish_task ''a'' (Returned PyNone) ?reg"
  let ?st' = "consume ''a'' ?st"
  have "map_of ([] :: registry) ''a'' = None" by simp
  then have s1: "fleet_step False ([], [], []) (?reg, [], [])" by (rule fleet_step.spawns)
  have s2: "fleet_step False (?reg, [], []) (?st, [], [])" by (rule fleet_step.finishes)
  have t: "tracked None ?st = [''a'']" by (simp add: register_def finish_task_def tracked_def task_done_def)
  then have s3: "fleet_step False (?st, [], []) (?st, [[''a'']], [])" by (rule fleet_step.enters) simp_all
  have s4: "fleet_step False (?st, [[''a'']], []) (?st, [[''a''], [''a'']], [])" using t by (rule fleet_step.enters) simp_all
  obtain p where "wait_resume [''a''] ?st = (p, ?st')" "handed p = [''a'']"
    by (simp add: wait_resume_def handed_def is_over_def register_def finish_task_def task_done_def Let_def dict_get_def dict_get_default_def)
  then have s5: "fleet_step False (?st, [[''a''], [''a'']], []) (?st', [[''a'']], [''a''])"
    using fleet_step.resumes [of "[''a'']" "[[''a''], [''a'']]" ?st p ?st' False "[]"] by simp
  have "consume ''a'' ?st' = ?st'" by (simp add: consume_def register_def finish_task_def)
  then obtain p' where "wait_resume [''a''] ?st' = (p', ?st')" "handed p' = [''a'']"
    by (simp add: wait_resume_def handed_def is_over_def register_def finish_task_def task_done_def consume_def Let_def dict_get_def dict_get_default_def)
  then have "fleet_step False (?st', [[''a'']], [''a'']) (?st', [], [''a'', ''a''])"
    using fleet_step.resumes [of "[''a'']" "[[''a'']]" ?st' p' ?st' False "[''a'']"] by simp
  then show ?thesis using s1 s2 s3 s4 s5 by (meson rtranclp.rtrancl_into_rtrancl rtranclp.rtrancl_refl)
qed

text \<open>Cancelling a child that has already completed reports success and hides its result for good: before,
  the result is answered; afterwards every request for it, whatever the event loop does in
  between, answers that the child was cancelled.\<close>

theorem cancel_hides_a_finished_result:
  assumes "map_of st t = Some h" and "h_outcome h = Some (Returned v)" and "\<not> h_cancelled_explicitly h"
    and "fresh_events (snd (registry_cancel t st)) evs'"
  shows "fst (get_result elapsed evs ending t wait st) = [(''status'', PyStr ''completed''), (''task_id'', PyStr t), (''result'', v)] \<and>
    fst (registry_cancel t st) \<and>
    fst (get_result elapsed evs ending t wait (settle evs' (snd (registry_cancel t st)))) =
      [(''status'', PyStr ''cancelled''), (''task_id'', PyStr t)]"
proof -
  have "map_of (snd (registry_cancel t st)) t = Some (mark_cancelled h)" using assms(1) by (simp add: map_of_cancel)
  from settle_keeps [OF this assms(4)] obtain h' where h': "map_of (settle evs' (snd (registry_cancel t st))) t = Some h'"
    "h_outcome h' = Some (Returned v)" "h_cancelled_explicitly h'"
    using assms(2) by (auto simp: keeps_def mark_cancelled_def)
  then show ?thesis using assms
    by (auto simp: get_result_def final_result_def Let_def task_done_def registry_cancel_def)
qed

theorem cancel_hides_a_finished_result_witness:
  "let st = [(''a'', \<lparr>h_goal = ''g'', h_work = demo_request, h_outcome = Some (Returned (PyInt 1)), h_started_at = 0, h_parent_id = None,
        h_cancelled_explicitly = False, h_name = None, h_consumed = False\<rparr>)]
   in fst (get_result (\<lambda>_. PyNone) [] Woken ''a'' True (snd (registry_cancel ''a'' st))) = [(''status'', PyStr ''cancelled''), (''task_id'', PyStr ''a'')]"
proof -
  let ?h = "\<lparr>h_goal = ''g'', h_work = demo_request, h_outcome = Some (Returned (PyInt 1)), h_started_at = 0, h_parent_id = None,
        h_cancelled_explicitly = False, h_name = None, h_consumed = False\<rparr>"
  have h: "map_of [(''a'', ?h)] ''a'' = Some ?h" "h_outcome ?h = Some (Returned (PyInt 1))" "\<not> h_cancelled_explicitly ?h" by simp_all
  from cancel_hides_a_finished_result [OF h, of "[]" "\<lambda>_. PyNone" "[]" Woken True] show ?thesis by (simp add: settle_def)
qed

end
