(* ===== verification/Py_Text.thy ===== *)
theory Py_Text
  imports Py_Prelude "HOL-Library.Word"
begin

text \<open>
  Text as lines and as bytes. The lines of a text are \<open>s.split("\n")\<close>, and joining them gives the
  text back. The bytes are UTF-8: a character of the model is a code point below 256, so it
  takes one byte or two. The decoder replaces a byte that starts no such sequence, as
  \<open>errors="replace"\<close> does.
\<close>

unbundle bit_operations_syntax

section \<open>UTF-8\<close>

type_synonym byte = "8 word"

definition utf8_char :: "char \<Rightarrow> byte list" where
  "utf8_char c =
     (let n = of_char c :: int
      in if n < 128 then [word_of_int n] else [word_of_int (192 + n div 64), word_of_int (128 + n mod 64)])"

definition utf8_encode :: "string \<Rightarrow> byte list" where
  "utf8_encode s = concat (map utf8_char s)"

definition continuation :: "byte \<Rightarrow> bool" where
  "continuation b \<longleftrightarrow> b AND 0xC0 = 0x80"

definition REPLACEMENT :: string where
  "REPLACEMENT = [CHR 0xEF, CHR 0xBF, CHR 0xBD]"

fun utf8_decode :: "byte list \<Rightarrow> string" where
  "utf8_decode [] = []"
| "utf8_decode (b # bs) =
     (if b < 0x80 then char_of (uint b) # utf8_decode bs
      else if b = 0xC2 \<or> b = 0xC3
        then (case bs of
                d # ds \<Rightarrow> if continuation d then char_of (64 * (uint b - 192) + (uint d - 128)) # utf8_decode ds
                          else REPLACEMENT @ utf8_decode bs
              | [] \<Rightarrow> REPLACEMENT)
      else REPLACEMENT @ utf8_decode bs)"

section \<open>Lines\<close>

lemma isspace_NL [simp]: "py_isspace NL"
  by (simp add: py_isspace_def)

lemma py_split_on_not_Nil [simp]: "py_split_on d s \<noteq> []"
  by (induction s) (auto split: list.splits)

lemma py_join_Cons: "ls \<noteq> [] \<Longrightarrow> py_join d (l # ls) = l @ d @ py_join d ls"
  by (cases ls) auto

lemma py_join_char_Cons: "py_join d ((c # w) # ws) = c # py_join d (w # ws)"
  by (cases ws) auto

lemma join_split_on [simp]: "py_join [d] (py_split_on d s) = s"
proof (induction s)
  case (Cons c s)
  then show ?case
    by (cases "py_split_on d s") (auto simp: py_join_Cons py_join_char_Cons)
qed simp

lemma py_join_append: "xs \<noteq> [] \<Longrightarrow> ys \<noteq> [] \<Longrightarrow> py_join d (xs @ ys) = py_join d xs @ d @ py_join d ys"
  by (induction xs rule: induct_list012) (auto simp: py_join_Cons)

lemma take_join: "take (length (py_join d (take n ls))) (py_join d ls) = py_join d (take n ls)"
proof (cases "take n ls = [] \<or> drop n ls = []")
  case False
  then have "py_join d ls = py_join d (take n ls) @ d @ py_join d (drop n ls)"
    using py_join_append [of "take n ls" "drop n ls" d] by simp
  then show ?thesis by simp
qed auto

lemma split_on_no_sep: "l \<in> set (py_split_on d s) \<Longrightarrow> d \<notin> set l"
  by (induction s arbitrary: l) (auto split: if_splits list.splits)

lemma split_on_append_sep: "d \<notin> set l \<Longrightarrow> py_split_on d (l @ d # s) = l # py_split_on d s"
  by (induction l) auto

lemma split_on_single: "d \<notin> set l \<Longrightarrow> py_split_on d l = [l]"
  by (induction l) auto

lemma split_on_join: "ls \<noteq> [] \<Longrightarrow> (\<And>l. l \<in> set ls \<Longrightarrow> d \<notin> set l) \<Longrightarrow> py_split_on d (py_join [d] ls) = ls"
  by (induction ls rule: induct_list012) (auto simp: split_on_append_sep split_on_single)

section \<open>Facts about the encoding\<close>

lemma utf8_encode_simps [simp]:
  "utf8_encode [] = []" "utf8_encode (c # s) = utf8_char c @ utf8_encode s"
  "utf8_encode (s @ t) = utf8_encode s @ utf8_encode t"
  by (simp_all add: utf8_encode_def)

lemma continuation_table: "list_all (\<lambda>m. continuation (word_of_int (128 + m))) [0..63]"
  by code_simp

lemma lead_table: "list_all (\<lambda>m. \<not> continuation (word_of_int m)) ([0..127] @ [194, 195])"
  by code_simp

lemma of_char_range: "0 \<le> (of_char c :: int)" "(of_char c :: int) < 256"
  using of_char_of [of "of_char c :: int"] by (simp_all add: char_of_def of_char_def)

text \<open>A character is one byte that is no continuation byte, or two of which only the second is one.\<close>

lemma utf8_char_cases:
  obtains (one) n where "0 \<le> n" "n < 128" "of_char c = n" "utf8_char c = [word_of_int n]"
  | (two) q m where "q = 2 \<or> q = 3" "0 \<le> m" "m < 64" "of_char c = 64 * q + m"
      "utf8_char c = [word_of_int (192 + q), word_of_int (128 + m)]"
proof (cases "(of_char c :: int) < 128")
  case True
  then show ?thesis using one [of "of_char c"] of_char_range by (simp add: utf8_char_def Let_def)
next
  case False
  have "(of_char c :: int) div 64 = 2 \<or> (of_char c :: int) div 64 = 3"
    using False of_char_range [of c] by presburger
  then show ?thesis using two [of "of_char c div 64" "of_char c mod 64"] False
    by (simp add: utf8_char_def Let_def)
qed

lemma lead_not_continuation: "0 \<le> n \<Longrightarrow> n < 128 \<or> n = 194 \<or> n = 195 \<Longrightarrow> \<not> continuation (word_of_int n)"
  using lead_table by (auto simp: list_all_iff)

lemma tail_continuation: "0 \<le> m \<Longrightarrow> m < 64 \<Longrightarrow> continuation (128 + word_of_int m)"
  using continuation_table by (auto simp: list_all_iff)

lemma decode_char: "utf8_decode (utf8_char c @ bs) = c # utf8_decode bs"
proof (cases c rule: utf8_char_cases)
  case (one n)
  have "uint (word_of_int n :: byte) = n" using one by (simp add: uint_word_of_int)
  moreover have "(word_of_int n :: byte) < 0x80" using calculation one by (simp add: word_less_def)
  ultimately show ?thesis using one char_of_char [of c, where 'a = int] by simp
next
  case (two q m)
  have "uint (word_of_int (128 + m) :: byte) = 128 + m" using two by (simp add: uint_word_of_int del: of_int_add)
  then have d: "uint (128 + word_of_int m :: byte) = 128 + m" by simp
  show ?thesis
    using two(1) two(4,5) d tail_continuation [OF two(2,3)] char_of_char [of c, where 'a = int]
    by auto
qed

lemma utf8_roundtrip [simp]: "utf8_decode (utf8_encode s) = s"
  by (induction s) (simp_all add: decode_char)

lemma utf8_char_not_Nil [simp]: "utf8_char c \<noteq> []"
  by (simp add: utf8_char_def Let_def)

lemma utf8_char_inner: "0 < i \<Longrightarrow> i < length (utf8_char c) \<Longrightarrow> continuation (utf8_char c ! i)"
  by (cases c rule: utf8_char_cases) (auto simp: nth_Cons tail_continuation split: nat.splits)

definition boundary :: "byte list \<Rightarrow> nat \<Rightarrow> bool" where
  "boundary raw i \<longleftrightarrow> i = 0 \<or> i \<ge> length raw \<or> \<not> continuation (raw ! i)"

lemma cut_at_boundary:
  assumes "boundary (utf8_encode s) i"
  shows "\<exists>k. take i (utf8_encode s) = utf8_encode (take k s) \<and> drop i (utf8_encode s) = utf8_encode (drop k s)"
  using assms
proof (induction s arbitrary: i)
  case (Cons c s)
  let ?n = "length (utf8_char c)"
  consider "i = 0" | "0 < i" "i < ?n" | "?n \<le> i" by fastforce
  then show ?case
  proof cases
    case 1
    then show ?thesis by (intro exI [of _ 0]) simp
  next
    case 2
    then show ?thesis using Cons.prems utf8_char_inner [OF 2] by (simp add: boundary_def nth_append)
  next
    case 3
    have "boundary (utf8_encode s) (i - ?n)"
      using Cons.prems 3 by (auto simp: boundary_def nth_append)
    from Cons.IH [OF this] obtain k where
      "take (i - ?n) (utf8_encode s) = utf8_encode (take k s)" "drop (i - ?n) (utf8_encode s) = utf8_encode (drop k s)"
      by blast
    then show ?thesis using 3 by (intro exI [of _ "Suc k"]) simp
  qed
qed simp

end
