(* ===== verification/Workspace_Paths.thy ===== *)
theory Workspace_Paths
  imports Py_Text Py_Json
begin

text \<open>
  Path resolution of the file tools: the trust gate \<open>tools/_paths.py\<close> and the session's workspace
  window \<open>workspace_window.py\<close>. An absolute path is the list of its components. What the
  operating system knows of a path is the record \<open>host\<close>: \<open>os.path.realpath\<close>, which follows
  symbolic links, the exception \<open>Path.resolve\<close> raises for a path (a loop of links, a null
  character), and the kinds of file.
\<close>

section \<open>Paths\<close>

type_synonym path = "string list"

record host =
  realpath :: "path \<Rightarrow> path"
  resolve_error :: "path \<Rightarrow> py_exn option"
  host_is_dir :: "path \<Rightarrow> bool"
  host_is_file :: "path \<Rightarrow> bool"
  host_lexists :: "path \<Rightarrow> bool"
  host_home :: path

definition path_parts :: "string \<Rightarrow> path" where
  "path_parts s = filter (\<lambda>c. c \<noteq> [] \<and> c \<noteq> ''.'') (py_split_on CHR ''/'' s)"

definition is_absolute :: "string \<Rightarrow> bool" where
  "is_absolute s \<longleftrightarrow> startswith s ''/''"

definition path_str :: "path \<Rightarrow> string" where
  "path_str p = ''/'' @ py_join ''/'' p"

definition path_resolve :: "host \<Rightarrow> path \<Rightarrow> path py" where
  "path_resolve h p = (case resolve_error h p of Some e \<Rightarrow> Inl e | None \<Rightarrow> Inr (realpath h p))"

definition is_relative_to :: "path \<Rightarrow> path \<Rightarrow> bool" where
  "is_relative_to p rt \<longleftrightarrow> take (length rt) p = rt"

section \<open>The trust gate\<close>

definition escape_message :: "string \<Rightarrow> path \<Rightarrow> string" where
  "escape_message p rt = ''Path outside working_dir: '' @ p @ '' (env root: '' @ path_str rt @ '')''"

text \<open>The error message of a refusal is the left, the resolved path the right of the inner sum.\<close>

definition path_under_root :: "host \<Rightarrow> string \<Rightarrow> path \<Rightarrow> (string + path) py" where
  "path_under_root h p root0 =
     py_bind (path_resolve h root0) (\<lambda>rt.
     py_bind (path_resolve h (if is_absolute p then path_parts p else rt @ path_parts p)) (\<lambda>resolved.
       Inr (if is_relative_to resolved rt then Inr resolved else Inl (escape_message p rt))))"

section \<open>The workspace window\<close>

definition WORKSPACE_WINDOW_STATE_KEY :: string where
  "WORKSPACE_WINDOW_STATE_KEY = ''workspace_window''"

definition ROOT_SENTINELS :: "string list" where
  "ROOT_SENTINELS = [[], ''.'', ''/'']"

definition strip_slashes :: "string \<Rightarrow> string" where
  "strip_slashes s = rstrip_chars (\<lambda>c. c = CHR ''/'') (lstrip_chars (\<lambda>c. c = CHR ''/'') s)"

text \<open>Iterating over the stored value: a string counts as one entry, a dict yields its keys, and a
  value that is not iterable raises.\<close>

definition window_entries :: "pyval \<Rightarrow> pyval list py" where
  "window_entries raw = (case raw of
       PyNone \<Rightarrow> Inr []
     | PyStr s \<Rightarrow> Inr [PyStr s]
     | PyList vs \<Rightarrow> Inr vs
     | PyDict d \<Rightarrow> Inr (map (PyStr \<circ> fst) d)
     | _ \<Rightarrow> Inl (TypeError ''object is not iterable''))"

definition clean_entry :: "pyval \<Rightarrow> string option" where
  "clean_entry v = (case v of
       PyStr s \<Rightarrow> (let cleaned = strip_slashes (py_strip s)
                   in if cleaned \<noteq> [] \<and> cleaned \<noteq> ''.'' then Some cleaned else None)
     | _ \<Rightarrow> None)"

definition window_dirs :: "pydict option \<Rightarrow> string list py" where
  "window_dirs state =
     py_bind (window_entries (case state of None \<Rightarrow> PyNone | Some s \<Rightarrow> dict_get s WORKSPACE_WINDOW_STATE_KEY))
       (\<lambda>vs. Inr (List.map_filter clean_entry vs))"

definition resolve_in_window :: "host \<Rightarrow> string \<Rightarrow> path \<Rightarrow> string list \<Rightarrow> (string + path) py" where
  "resolve_in_window h p env_root window =
     (let anchor = (case window of [] \<Rightarrow> [] | w # ws \<Rightarrow> w)
      in if anchor = [] then
           (if p \<in> set ROOT_SENTINELS then path_under_root h ''.'' env_root else path_under_root h p env_root)
         else if ''..'' \<in> set (path_parts p) then Inr (Inl (escape_message p env_root))
         else if p \<in> set ROOT_SENTINELS then
           path_under_root h (if p = ''/'' then ''.'' else anchor) env_root
         else if startswith p ''/'' then
           py_bind (path_under_root h p env_root) (\<lambda>literal.
             case literal of
               Inr q \<Rightarrow> Inr (Inr q)
             | Inl _ \<Rightarrow>
                 (let stripped = lstrip_chars (\<lambda>c. c = CHR ''/'') p
                  in path_under_root h (if stripped = [] then ''.'' else stripped) env_root))
         else path_under_root h (anchor @ ''/'' @ p) env_root)"

definition render_window :: "string list \<Rightarrow> string option" where
  "render_window window =
     (if window = [] then None
      else Some (''Workspace focus: '' @ py_join '', '' (map (\<lambda>d. [BTICK] @ d @ ''/'' @ [BTICK]) window)
        @ ''. Relative paths and '' @ [BTICK] @ ''search_files'' @ [BTICK] @ '' default to this scope. ''
        @ ''To reach the whole workspace, prefix a path with '' @ [BTICK] @ ''/'' @ [BTICK] @ '' (e.g. '' @ [BTICK]
        @ ''/other-project/x.md'' @ [BTICK] @ '') or pass '' @ [BTICK] @ ''scope='' @ [DQUOTE] @ ''workspace''
        @ [DQUOTE, BTICK] @ ''. The user can clear the focus with '' @ [BTICK] @ ''/workspace /'' @ [BTICK] @ ''.''))"

definition maybe_seed_window :: "host \<Rightarrow> bool \<Rightarrow> path \<Rightarrow> path \<Rightarrow> pydict option \<Rightarrow> pydict option py" where
  "maybe_seed_window h check_host_fs resolved0 env_root state =
     (case state of
        None \<Rightarrow> Inr None
      | Some s \<Rightarrow>
          py_bind (window_dirs state) (\<lambda>ws.
            if ws \<noteq> [] then Inr state
            else
              py_bind (path_resolve h resolved0) (\<lambda>resolved.
              py_bind (path_resolve h env_root) (\<lambda>rt.
                if \<not> is_relative_to resolved rt then Inr state
                else
                  (case drop (length rt) resolved of
                     first # _ # _ \<Rightarrow>
                       if check_host_fs \<and> \<not> host_is_dir h (rt @ [first]) then Inr state
                       else Inr (Some (dict_set s WORKSPACE_WINDOW_STATE_KEY (PyList [PyStr first])))
                   | _ \<Rightarrow> Inr state)))))"

section \<open>Containment\<close>

text \<open>Whatever the window, a resolved path lies under the resolved root.\<close>

lemma path_under_root_inside:
  "path_under_root h p rt = Inr (Inr q) \<Longrightarrow> is_relative_to q (realpath h rt)"
  by (auto simp: path_under_root_def path_resolve_def py_bind_Inr_iff split: option.splits if_splits)

lemma path_under_root_resolved:
  "path_under_root h p rt = Inr (Inr q) \<Longrightarrow> \<exists>r. q = realpath h r"
  by (auto simp: path_under_root_def path_resolve_def py_bind_Inr_iff split: option.splits if_splits)

lemma resolve_in_window_gate:
  assumes "resolve_in_window h p rt window = Inr (Inr q)"
  shows "\<exists>p'. path_under_root h p' rt = Inr (Inr q)"
  using assms
  by (auto simp: resolve_in_window_def Let_def py_bind_Inr_iff split: if_splits sum.splits list.splits)
     (metis sum.exhaust)+

lemma resolve_in_window_inside:
  "resolve_in_window h p rt window = Inr (Inr q) \<Longrightarrow> is_relative_to q (realpath h rt)"
  using resolve_in_window_gate path_under_root_inside by blast

text \<open>The parts of a joined path.\<close>

lemma split_on_append: "py_split_on d (a @ d # b) = py_split_on d a @ py_split_on d b"
  by (induction a) (auto split: list.splits)

lemma path_parts_join: "path_parts (a @ ''/'' @ b) = path_parts a @ path_parts b"
  by (simp add: path_parts_def split_on_append)

text \<open>A host on which no path runs through a symbolic link.\<close>

definition plain_host :: "host \<Rightarrow> bool" where
  "plain_host h \<longleftrightarrow> (\<forall>q. ''..'' \<notin> set q \<longrightarrow> realpath h q = q) \<and> (\<forall>q. resolve_error h q = None)"

lemma path_under_root_plain:
  assumes "plain_host h" and "''..'' \<notin> set rt" and "''..'' \<notin> set (path_parts p)"
  shows "path_under_root h p rt =
    (if is_absolute p
     then Inr (if is_relative_to (path_parts p) rt then Inr (path_parts p) else Inl (escape_message p rt))
     else Inr (Inr (rt @ path_parts p)))"
  using assms by (simp add: path_under_root_def path_resolve_def plain_host_def is_relative_to_def)

lemma path_parts_simps [simp]:
  "path_parts [] = []" "path_parts ''.'' = []" "path_parts (CHR ''/'' # s) = path_parts s"
  by (simp_all add: path_parts_def)

lemma root_sentinels_parts: "p \<in> set ROOT_SENTINELS \<Longrightarrow> path_parts p = []"
  by (auto simp: ROOT_SENTINELS_def)

section \<open>Properties\<close>

text \<open>With a window set, a name is looked up in the window's first directory and a name behind a
  slash in the workspace root: where no symbolic link is involved and neither climbs with
  \<open>..\<close>, the first gives the root, the window and the name joined, the second the root and the
  name, or the absolute path itself when it already lies in the workspace. A path with a
  \<open>..\<close> component is refused.\<close>

theorem window_scopes_names:
  assumes "plain_host h" and "''..'' \<notin> set rt" and "anchor \<noteq> []" and "\<not> is_absolute anchor"
    and "''..'' \<notin> set (path_parts anchor)" and "\<not> is_absolute p" and "''..'' \<notin> set (path_parts p)"
  shows "resolve_in_window h p rt (anchor # ws) = Inr (Inr (rt @ path_parts anchor @ path_parts p)) \<and>
    resolve_in_window h (''/'' @ p) rt (anchor # ws) =
      Inr (Inr (if is_relative_to (path_parts p) rt then path_parts p else rt @ path_parts p)) \<and>
    resolve_in_window h (p @ ''/..'') rt (anchor # ws) = Inr (Inl (escape_message (p @ ''/..'') rt))"
proof (intro conjI)
  have dot: "''..'' \<notin> set (path_parts ''.'')" "\<not> is_absolute ''.''" by (simp_all add: is_absolute_def startswith_def)
  have abs: "\<not> is_absolute (anchor @ ''/'' @ p)" using assms(3,4) by (cases anchor) (auto simp: is_absolute_def startswith_def)
  have np: "\<not> startswith p ''/''" using assms(6) by (simp add: is_absolute_def)
  have slash: "p \<noteq> ''/''" using np by auto
  have "''..'' \<notin> set (path_parts (anchor @ ''/'' @ p))" using assms(5,7) unfolding path_parts_join by simp
  note joined = path_under_root_plain [OF assms(1,2) this]
  show "resolve_in_window h p rt (anchor # ws) = Inr (Inr (rt @ path_parts anchor @ path_parts p))"
    using assms(3,4,7) np abs slash joined root_sentinels_parts [of p] path_under_root_plain [OF assms(1,2,5)]
      path_parts_join [of anchor p]
    by (simp add: resolve_in_window_def)
  have lead: "lstrip_chars (\<lambda>c. c = CHR ''/'') (CHR ''/'' # p) = p"
    using np by (cases p) (auto simp: lstrip_chars_def startswith_def)
  show "resolve_in_window h (''/'' @ p) rt (anchor # ws) =
      Inr (Inr (if is_relative_to (path_parts p) rt then path_parts p else rt @ path_parts p))"
  proof (cases "''/'' @ p \<in> set ROOT_SENTINELS")
    case True
    then have "p = []" by (auto simp: ROOT_SENTINELS_def)
    then show ?thesis using True assms(3) dot path_under_root_plain [OF assms(1,2) dot(1)]
      by (simp add: resolve_in_window_def is_relative_to_def)
  next
    case False
    have "path_under_root h (''/'' @ p) rt =
        Inr (if is_relative_to (path_parts p) rt then Inr (path_parts p) else Inl (escape_message (''/'' @ p) rt))"
      using path_under_root_plain [OF assms(1,2), of "''/'' @ p"] assms(7) by (simp add: is_absolute_def startswith_def)
    moreover have "path_under_root h (if p = [] then ''.'' else p) rt = Inr (Inr (rt @ path_parts p))"
      using path_under_root_plain [OF assms(1,2), of "if p = [] then ''.'' else p"] assms(6,7) dot(2) by simp
    ultimately show ?thesis using False assms(3,7) lead
      by (simp add: resolve_in_window_def startswith_def Let_def)
  qed
  have "''..'' \<in> set (path_parts (p @ ''/'' @ ''..''))" unfolding path_parts_join by (simp add: path_parts_def)
  then show "resolve_in_window h (p @ ''/..'') rt (anchor # ws) = Inr (Inl (escape_message (p @ ''/..'') rt))"
    using assms(3) by (simp add: resolve_in_window_def)
qed

definition linkless :: host where
  "linkless = \<lparr>realpath = (\<lambda>p. p), resolve_error = (\<lambda>_. None), host_is_dir = (\<lambda>_. False),
     host_is_file = (\<lambda>_. True), host_lexists = (\<lambda>_. False), host_home = [''root'']\<rparr>"

theorem window_scopes_names_witness:
  "resolve_in_window linkless ''notes.md'' [''workspace''] [''projA''] = Inr (Inr [''workspace'', ''projA'', ''notes.md''])"
proof -
  have p: "path_parts ''projA'' = [''projA'']" "path_parts ''notes.md'' = [''notes.md'']" by code_simp+
  have "plain_host linkless" by (simp add: plain_host_def linkless_def)
  from window_scopes_names [OF this, of "[''workspace'']" "''projA''" "''notes.md''" "[]"]
  show ?thesis by (simp add: p is_absolute_def startswith_def)
qed

end
