(* ===== verification/Output_Overflow.thy ===== *)
theory Output_Overflow
  imports Workspace_Paths
begin

text \<open>
  Spilling oversized tool output (\<open>tools/_output_overflow.py\<close>): the pure trimmer
  \<open>make_preview\<close>, the spill to a file of the workspace, and \<open>emit_stream\<close>. Sizes are natural
  numbers; the byte budget, which the code lets become negative, is an \<open>int\<close>. The
  environment's write operation and the fresh file identifier are arguments.
\<close>

section \<open>The trimmer\<close>

definition TERMINAL_OUTPUT_LIMIT :: nat where
  "TERMINAL_OUTPUT_LIMIT = 50 * 1024"

definition TERMINAL_OUTPUT_MAX_LINES :: nat where
  "TERMINAL_OUTPUT_MAX_LINES = 800"

definition OVERFLOW_SUBDIR :: string where
  "OVERFLOW_SUBDIR = ''lha/tool-output''"

definition MARKER_TEMPLATE :: string where
  "MARKER_TEMPLATE = [NL] @ ''... [{bytes} bytes / {lines} lines omitted] ...'' @ [NL]"

definition MARKER :: "nat \<Rightarrow> nat \<Rightarrow> string" where
  "MARKER bytes lines = [NL] @ ''... ['' @ string_of_nat bytes @ '' bytes / '' @ string_of_nat lines
     @ '' lines omitted] ...'' @ [NL]"

function walk_forward :: "byte list \<Rightarrow> nat \<Rightarrow> nat" where
  "walk_forward raw start =
     (if start < length raw \<and> continuation (raw ! start) then walk_forward raw (start + 1) else start)"
  by pat_completeness auto
termination
  by (relation "measure (\<lambda>(raw, start). length raw - start)") auto

fun walk_back :: "byte list \<Rightarrow> nat \<Rightarrow> nat" where
  "walk_back raw end' =
     (if 0 < end' \<and> end' < length raw \<and> continuation (raw ! end') then walk_back raw (end' - 1) else end')"

declare walk_forward.simps [simp del] walk_back.simps [simp del]

definition utf8_safe_tail :: "byte list \<Rightarrow> nat \<Rightarrow> string" where
  "utf8_safe_tail raw max_bytes = utf8_decode (drop (walk_forward raw (length raw - max_bytes)) raw)"

definition utf8_safe_head :: "byte list \<Rightarrow> nat \<Rightarrow> string" where
  "utf8_safe_head raw max_bytes = utf8_decode (take (walk_back raw (min (length raw) max_bytes)) raw)"

text \<open>The loop both halves run over the lines: whole lines while they fit the budget and the cap;
  every line after the first also pays for its line feed.\<close>

fun take_lines :: "nat \<Rightarrow> nat \<Rightarrow> nat \<Rightarrow> nat \<Rightarrow> string list \<Rightarrow> string list" where
  "take_lines budget cap taken used [] = []"
| "take_lines budget cap taken used (line # ls) =
     (let size = length (utf8_encode line) + (if taken > 0 then 1 else 0)
      in if used + size > budget \<or> taken \<ge> cap then []
         else line # take_lines budget cap (taken + 1) (used + size) ls)"

definition make_preview :: "string \<Rightarrow> nat \<Rightarrow> nat \<Rightarrow> string \<times> bool" where
  "make_preview text max_bytes max_lines =
     (let raw = utf8_encode text;
          lines = py_split_on NL text
      in if length raw \<le> max_bytes \<and> length lines \<le> max_lines then (text, False)
         else
           (let budget = int max_bytes - int (length MARKER_TEMPLATE) - 32
            in if budget \<le> 0 then (utf8_safe_head raw max_bytes, True)
               else
                 (let head_budget = nat (budget div 2);
                      tail_budget = nat budget - head_budget;
                      head = take_lines head_budget (max_lines div 2) 0 0 lines;
                      tail = rev (take_lines tail_budget (max_lines div 2) 0 0 (rev lines));
                      head_text0 = py_join [NL] head;
                      tail_text0 = py_join [NL] tail;
                      (head_text, tail_text) =
                        (if head_text0 = [] \<and> tail_text0 = []
                         then (utf8_safe_head raw head_budget, utf8_safe_tail raw tail_budget)
                         else (head_text0, tail_text0));
                      kept_bytes = length (utf8_encode head_text) + length (utf8_encode tail_text);
                      kept_lines = length head + length tail
                  in (head_text @ MARKER (length raw - kept_bytes) (length lines - kept_lines) @ tail_text, True))))"

section \<open>The spill\<close>

record overflow_result =
  preview :: string
  pointer :: string
  ov_path :: string
  ov_truncated :: bool

definition count_newlines :: "string \<Rightarrow> nat" where
  "count_newlines s = length (filter (\<lambda>c. c = NL) s)"

definition overflow_pointer :: "string \<Rightarrow> string \<Rightarrow> string \<Rightarrow> string" where
  "overflow_pointer label path text =
     label @ '' saved to '' @ path @ '' ('' @ string_of_nat (count_newlines text + 1) @ '' lines / ''
     @ string_of_nat (length (utf8_encode text)) @ '' bytes). ''
     @ ''Use read with offset/limit to read it, grep it via bash, ''
     @ ''or delegate a subagent to process it (don'' @ [SQUOTE] @ ''t read the whole thing yourself).''"

definition overflow_dir :: "host \<Rightarrow> path \<Rightarrow> path py" where
  "overflow_dir h working_dir =
     py_bind (path_resolve h working_dir) (\<lambda>rt.
     py_bind (path_under_root h OVERFLOW_SUBDIR rt) (\<lambda>r.
       case r of Inl err \<Rightarrow> Inl (RuntimeError (''overflow dir escapes workspace root: '' @ err)) | Inr p \<Rightarrow> Inr p))"

text \<open>The environment's write is an argument: it answers or raises, and leaves a file system either way.\<close>

definition overflow_to_file ::
    "host \<Rightarrow> path \<Rightarrow> (path \<Rightarrow> string \<Rightarrow> 'fs \<Rightarrow> unit py \<times> 'fs) \<Rightarrow> string \<Rightarrow> string \<Rightarrow> nat \<Rightarrow> nat \<Rightarrow> string \<Rightarrow> string \<Rightarrow> 'fs \<Rightarrow>
      overflow_result py \<times> 'fs" where
  "overflow_to_file h working_dir write_file stream new_id max_bytes max_lines label text fs =
     (let (pre, truncated) = make_preview text max_bytes max_lines
      in case overflow_dir h working_dir of
           Inl e \<Rightarrow> (Inl e, fs)
         | Inr dir \<Rightarrow>
             (let path = dir @ [stream @ ''-'' @ new_id @ ''.txt'']
              in case write_file path text fs of
                   (Inl e, fs') \<Rightarrow> (Inl e, fs')
                 | (Inr _, fs') \<Rightarrow>
                     (Inr \<lparr>preview = pre, pointer = overflow_pointer label (path_str path) text, ov_path = path_str path,
                           ov_truncated = truncated\<rparr>, fs')))"

definition emit_stream ::
    "host \<Rightarrow> path \<Rightarrow> (path \<Rightarrow> string \<Rightarrow> 'fs \<Rightarrow> unit py \<times> 'fs) \<Rightarrow> string \<Rightarrow> string \<Rightarrow> string \<Rightarrow> 'fs \<Rightarrow>
      (string \<times> bool \<times> string option) py \<times> 'fs" where
  "emit_stream h working_dir write_file stream new_id text fs =
     (if \<not> snd (make_preview text TERMINAL_OUTPUT_LIMIT TERMINAL_OUTPUT_MAX_LINES) then (Inr (text, False, None), fs)
      else case overflow_to_file h working_dir write_file stream new_id TERMINAL_OUTPUT_LIMIT
                  TERMINAL_OUTPUT_MAX_LINES ''Full output'' text fs of
             (Inl e, fs') \<Rightarrow> (Inl e, fs')
           | (Inr r, fs') \<Rightarrow> (Inr (preview r @ [NL, NL] @ pointer r, True, Some (ov_path r)), fs'))"

section \<open>Byte cuts\<close>

lemma walk_forward_boundary: "boundary raw (walk_forward raw i)" "i \<le> walk_forward raw i"
proof (induction raw i rule: walk_forward.induct)
  case (1 raw i)
  {
    case 1
    then show ?case using "1.IH" walk_forward.simps [of raw i] by (auto simp: boundary_def)
  next
    case 2
    then show ?case using "1.IH" walk_forward.simps [of raw i] by force
  }
qed

lemma walk_back_boundary: "boundary raw (walk_back raw i)" "walk_back raw i \<le> i"
proof (induction raw i rule: walk_back.induct)
  case (1 raw i)
  {
    case 1
    then show ?case using "1.IH" walk_back.simps [of raw i] by (auto simp: boundary_def)
  next
    case 2
    then show ?case using "1.IH" walk_back.simps [of raw i] by force
  }
qed

section \<open>Whole lines\<close>

lemma take_lines_bound:
  "used \<le> budget \<Longrightarrow> hs = take_lines budget cap taken used ls \<Longrightarrow>
     used + sum_list (map (\<lambda>l. length (utf8_encode l) + 1) hs) \<le> budget + (if taken = 0 \<and> hs \<noteq> [] then 1 else 0)"
proof (induction ls arbitrary: taken used hs)
  case (Cons l ls)
  show ?case
  proof (cases "hs = []")
    case False
    let ?size = "length (utf8_encode l) + (if taken > 0 then 1 else 0)"
    let ?r = "take_lines budget cap (taken + 1) (used + ?size) ls"
    have fit: "used + ?size \<le> budget" and hs: "hs = l # ?r"
      using Cons.prems(2) False by (auto simp: Let_def split: if_splits)
    from Cons.IH [OF fit refl, of "taken + 1"] show ?thesis by (auto simp: hs)
  qed (use Cons.prems in simp)
qed simp

lemma utf8_NL: "utf8_encode [NL] = [10]"
  by code_simp

lemma join_bytes: "ls \<noteq> [] \<Longrightarrow>
    length (utf8_encode (py_join [NL] ls)) + 1 = sum_list (map (\<lambda>l. length (utf8_encode l) + 1) ls)"
proof (induction ls rule: induct_list012)
  case (3 l k ls)
  then show ?case using utf8_NL by simp
qed simp_all

lemma take_lines_bytes: "length (utf8_encode (py_join [NL] (take_lines budget cap 0 0 ls))) \<le> budget"
proof (cases "take_lines budget cap 0 0 ls = []")
  case False
  then show ?thesis using take_lines_bound [OF _ refl, of 0 budget cap 0 ls] join_bytes [OF False] by simp
qed simp

lemma sum_list_rev_bytes: "ls \<noteq> [] \<Longrightarrow>
    length (utf8_encode (py_join [NL] (rev ls))) = length (utf8_encode (py_join [NL] ls))"
  using join_bytes [of ls] join_bytes [of "rev ls"] by (simp add: rev_map [symmetric])

lemma rev_take_lines_bytes: "length (utf8_encode (py_join [NL] (rev (take_lines budget cap 0 0 ls)))) \<le> budget"
  using take_lines_bytes [of budget cap ls] sum_list_rev_bytes [of "take_lines budget cap 0 0 ls"]
  by (cases "take_lines budget cap 0 0 ls = []") simp_all

section \<open>The marker\<close>

lemma digits_bound: "n < 10 ^ Suc d \<Longrightarrow> length (string_of_nat n) \<le> Suc d"
proof (induction d arbitrary: n)
  case 0
  then show ?case by (subst string_of_nat.simps) simp
next
  case (Suc d)
  then show ?case by (subst string_of_nat.simps) auto
qed

definition one_byte :: "char \<Rightarrow> bool" where
  "one_byte c \<longleftrightarrow> (of_char c :: int) < 128"

lemma one_byte_length: "list_all one_byte s \<Longrightarrow> length (utf8_encode s) = length s"
  by (induction s) (auto simp: one_byte_def utf8_char_def)

lemma string_of_nat_one_byte: "list_all one_byte (string_of_nat n)"
proof (induction n rule: string_of_nat.induct)
  case (1 n)
  have "one_byte (digit_char d)" if "d < 10" for d
  proof -
    have "list_all (\<lambda>d. one_byte (digit_char d)) [0..<10]" by code_simp
    then show ?thesis using that by (simp add: list_all_iff)
  qed
  then show ?case using 1 by (subst string_of_nat.simps) simp
qed

lemma marker_bytes:
  assumes "bytes < 10 ^ 23" and "lines < 10 ^ 23"
  shows "length (utf8_encode (MARKER bytes lines)) \<le> length MARKER_TEMPLATE + 32"
proof -
  have d: "length (string_of_nat bytes) \<le> 23" "length (string_of_nat lines) \<le> 23"
    using digits_bound [of bytes 22] digits_bound [of lines 22] assms by simp_all
  have "list_all one_byte (''... ['' @ '' bytes / '' @ '' lines omitted] ...'' @ [NL])" by code_simp
  then have "list_all one_byte (MARKER bytes lines)"
    using string_of_nat_one_byte by (simp add: MARKER_def)
  then show ?thesis using d by (simp add: one_byte_length) (simp add: MARKER_def MARKER_TEMPLATE_def)
qed

section \<open>What the preview keeps\<close>

text \<open>The longest of a growing family of pieces of the text that fits a byte budget.\<close>

definition longest_fit :: "(nat \<Rightarrow> string) \<Rightarrow> nat \<Rightarrow> nat \<Rightarrow> nat \<Rightarrow> bool" where
  "longest_fit piece limit budget n \<longleftrightarrow>
     n \<le> limit \<and> length (utf8_encode (piece n)) \<le> budget \<and>
     (n < limit \<longrightarrow> budget < length (utf8_encode (piece (Suc n))))"

definition first_chars :: "string \<Rightarrow> nat \<Rightarrow> string" where
  "first_chars s n = take n s"

definition last_chars :: "string \<Rightarrow> nat \<Rightarrow> string" where
  "last_chars s n = drop (length s - n) s"

definition first_lines :: "string \<Rightarrow> nat \<Rightarrow> string" where
  "first_lines s n = py_join [NL] (take n (py_split_on NL s))"

definition last_lines :: "string \<Rightarrow> nat \<Rightarrow> string" where
  "last_lines s n = py_join [NL] (drop (length (py_split_on NL s) - n) (py_split_on NL s))"

text \<open>A head and a tail around the marker, which counts what is left out.\<close>

definition around_marker :: "string \<Rightarrow> string \<Rightarrow> string \<Rightarrow> nat \<Rightarrow> string" where
  "around_marker s h t kept_lines =
     h @ MARKER (length (utf8_encode s) - (length (utf8_encode h) + length (utf8_encode t)))
           (length (py_split_on NL s) - kept_lines) @ t"

text \<open>The preview of a text over a cap: as many whole lines of its start and of its end as fit, or,
  where no text is in them, as many characters.\<close>

definition cut_preview :: "string \<Rightarrow> nat \<Rightarrow> nat \<Rightarrow> nat \<Rightarrow> string \<Rightarrow> bool" where
  "cut_preview s head_budget tail_budget cap p \<longleftrightarrow>
     (\<exists>n m. longest_fit (first_lines s) (min cap (length (py_split_on NL s))) head_budget n \<and>
        longest_fit (last_lines s) (min cap (length (py_split_on NL s))) tail_budget m \<and>
        (if first_lines s n \<noteq> [] \<or> last_lines s m \<noteq> []
         then p = around_marker s (first_lines s n) (last_lines s m) (n + m)
         else \<exists>i j. longest_fit (first_chars s) (length s) head_budget i \<and>
                longest_fit (last_chars s) (length s) tail_budget j \<and>
                p = around_marker s (first_chars s i) (last_chars s j) (n + m)))"

lemma utf8_char_lead: "\<not> continuation (utf8_char c ! 0)"
proof (cases c rule: utf8_char_cases)
  case (one n)
  then show ?thesis using lead_not_continuation [of n] by simp
next
  case (two q m)
  then show ?thesis using lead_not_continuation [of "192 + q"] by auto
qed

lemma char_start:
  "length (utf8_encode s) \<le> length (utf8_encode (take k s)) \<or>
   \<not> continuation (utf8_encode s ! length (utf8_encode (take k s)))"
proof (cases "drop k s")
  case (Cons c r)
  have "utf8_encode s = utf8_encode (take k s) @ utf8_char c @ utf8_encode r"
    using utf8_encode_simps(3) [of "take k s" "drop k s", unfolded append_take_drop_id] by (simp add: Cons)
  then show ?thesis using utf8_char_lead [of c] by (simp add: nth_append)
qed simp

lemma encode_take_mono: "i < length s \<Longrightarrow> length (utf8_encode (take i s)) < length (utf8_encode (take (Suc i) s))"
  by (simp add: take_Suc_conv_app_nth)

lemma encode_split: "length (utf8_encode (take k s)) + length (utf8_encode (drop k s)) = length (utf8_encode s)"
  using utf8_encode_simps(3) [of "take k s" "drop k s"] by simp

lemma walk_back_greatest:
  "k = 0 \<or> length raw \<le> k \<or> \<not> continuation (raw ! k) \<Longrightarrow> k \<le> i \<Longrightarrow> k \<le> walk_back raw i"
proof (induction raw i rule: walk_back.induct)
  case (1 raw i)
  then show ?case using walk_back.simps [of raw i] by (cases "k = i") auto
qed

lemma walk_forward_least:
  "length raw \<le> k \<or> \<not> continuation (raw ! k) \<Longrightarrow> i \<le> k \<Longrightarrow> walk_forward raw i \<le> k"
proof (induction raw i rule: walk_forward.induct)
  case (1 raw i)
  then show ?case using walk_forward.simps [of raw i] by (cases "k = i") auto
qed

lemma safe_head_longest:
  "\<exists>i. utf8_safe_head (utf8_encode s) n = first_chars s i \<and> longest_fit (first_chars s) (length s) n i"
proof -
  let ?raw = "utf8_encode s"
  let ?e = "walk_back ?raw (min (length ?raw) n)"
  obtain k0 where k0: "take ?e ?raw = utf8_encode (take k0 s)"
    using cut_at_boundary [OF walk_back_boundary(1)] by blast
  define k where "k = min k0 (length s)"
  have k: "take ?e ?raw = utf8_encode (take k s)" using k0 by (simp add: k_def min_def)
  have e: "?e \<le> length ?raw" "?e \<le> n" using walk_back_boundary(2) [of ?raw "min (length ?raw) n"] by simp_all
  then have len: "length (utf8_encode (take k s)) = ?e" by (simp add: k [symmetric])
  have "n < length (utf8_encode (take (Suc k) s))" if lt: "k < length s"
  proof (rule ccontr)
    assume "\<not> ?thesis"
    moreover have "length (utf8_encode (take (Suc k) s)) \<le> length ?raw" using encode_split [of "Suc k" s] by simp
    ultimately have "length (utf8_encode (take (Suc k) s)) \<le> ?e"
      using char_start [of s "Suc k"] by (intro walk_back_greatest) auto
    then show False using encode_take_mono [OF lt] len by simp
  qed
  then have "longest_fit (first_chars s) (length s) n k"
    using e len by (simp add: longest_fit_def first_chars_def k_def)
  moreover have "utf8_safe_head ?raw n = first_chars s k" by (simp add: utf8_safe_head_def k first_chars_def)
  ultimately show ?thesis by blast
qed

lemma safe_tail_longest:
  "\<exists>j. utf8_safe_tail (utf8_encode s) n = last_chars s j \<and> longest_fit (last_chars s) (length s) n j"
proof -
  let ?raw = "utf8_encode s"
  let ?b = "walk_forward ?raw (length ?raw - n)"
  obtain k0 where k0: "drop ?b ?raw = utf8_encode (drop k0 s)"
    using cut_at_boundary [OF walk_forward_boundary(1)] by blast
  define k where "k = min k0 (length s)"
  have k: "drop ?b ?raw = utf8_encode (drop k s)" using k0 by (simp add: k_def min_def)
  have b: "length ?raw - n \<le> ?b" using walk_forward_boundary(2) by simp
  have "?b \<le> length ?raw" by (rule walk_forward_least) simp_all
  then have len: "length (utf8_encode (drop k s)) = length ?raw - ?b" by (simp add: k [symmetric])
  have "n < length (utf8_encode (drop (k - 1) s))" if lt: "0 < k"
  proof (rule ccontr)
    assume a: "\<not> ?thesis"
    have "?b \<le> length (utf8_encode (take (k - 1) s))"
      using char_start [of s "k - 1"] a encode_split [of "k - 1" s] by (intro walk_forward_least) auto
    moreover have "k \<le> length s" by (simp add: k_def)
    then have "k - 1 < length s" using lt by simp
    then have "length (utf8_encode (take (k - 1) s)) < length (utf8_encode (take k s))"
      using encode_take_mono [of "k - 1" s] lt by simp
    ultimately show False using len encode_split [of k s] \<open>?b \<le> length ?raw\<close> by linarith
  qed
  moreover have "k \<le> length s" by (simp add: k_def)
  moreover have "length s - Suc (length s - k) = k - 1" using \<open>k \<le> length s\<close> by simp
  ultimately have "longest_fit (last_chars s) (length s) n (length s - k)"
    using b len by (auto simp: longest_fit_def last_chars_def)
  moreover have "utf8_safe_tail ?raw n = last_chars s (length s - k)"
    using \<open>k \<le> length s\<close> by (simp add: utf8_safe_tail_def k last_chars_def)
  ultimately show ?thesis by blast
qed

text \<open>The loop takes as many lines as fit.\<close>

lemma take_lines_stop:
  assumes "n = length (take_lines budget cap taken used ls)"
  shows "take_lines budget cap taken used ls = take n ls \<and> n \<le> length ls \<and> (taken \<le> cap \<longrightarrow> taken + n \<le> cap) \<and>
    (n < length ls \<longrightarrow> taken + n < cap \<longrightarrow>
      budget + (if taken = 0 then 1 else 0) < used + sum_list (map (\<lambda>l. length (utf8_encode l) + 1) (take (Suc n) ls)))"
  using assms
proof (induction ls arbitrary: taken used n)
  case (Cons l ls)
  let ?size = "length (utf8_encode l) + (if taken > 0 then 1 else 0)"
  show ?case
  proof (cases "used + ?size > budget \<or> taken \<ge> cap")
    case True
    then have "take_lines budget cap taken used (l # ls) = []" by (simp add: Let_def)
    with Cons.prems True show ?thesis by auto
  next
    case False
    let ?r = "take_lines budget cap (taken + 1) (used + ?size) ls"
    have r: "take_lines budget cap taken used (l # ls) = l # ?r" using False by (simp add: Let_def)
    from Cons.IH [OF refl, of "taken + 1" "used + ?size"] False Cons.prems show ?thesis
      unfolding r by (auto simp: Let_def)
  qed
qed simp

lemma take_lines_longest:
  assumes "ls \<noteq> []" and "n = length (take_lines budget cap 0 0 ls)"
  shows "take_lines budget cap 0 0 ls = take n ls" and "n \<le> min cap (length ls)"
    and "n < min cap (length ls) \<Longrightarrow> budget < length (utf8_encode (py_join [NL] (take (Suc n) ls)))"
proof -
  note st = take_lines_stop [OF assms(2)]
  show "take_lines budget cap 0 0 ls = take n ls" "n \<le> min cap (length ls)" using st by simp_all
  assume "n < min cap (length ls)"
  then have "budget + 1 < sum_list (map (\<lambda>l. length (utf8_encode l) + 1) (take (Suc n) ls))" using st by simp
  then show "budget < length (utf8_encode (py_join [NL] (take (Suc n) ls)))"
    using join_bytes [of "take (Suc n) ls"] assms(1) by simp
qed

lemma first_lines_longest:
  assumes "n = length (take_lines budget cap 0 0 (py_split_on NL s))"
  shows "py_join [NL] (take_lines budget cap 0 0 (py_split_on NL s)) = first_lines s n \<and>
    longest_fit (first_lines s) (min cap (length (py_split_on NL s))) budget n"
proof -
  have ne: "py_split_on NL s \<noteq> []" by simp
  note tl = take_lines_longest [OF ne assms]
  show ?thesis
    using tl(2,3) take_lines_bytes [of budget cap "py_split_on NL s"]
    by (auto simp: longest_fit_def first_lines_def tl(1))
qed

lemma last_lines_longest:
  assumes "m = length (take_lines budget cap 0 0 (rev (py_split_on NL s)))"
  shows "py_join [NL] (rev (take_lines budget cap 0 0 (rev (py_split_on NL s)))) = last_lines s m \<and>
    longest_fit (last_lines s) (min cap (length (py_split_on NL s))) budget m"
proof -
  let ?ls = "py_split_on NL s"
  have ne: "rev ?ls \<noteq> []" by simp
  note tl = take_lines_longest [OF ne assms]
  have rt: "rev (take k (rev ?ls)) = drop (length ?ls - k) ?ls" for k by (simp add: take_rev)
  have "length (utf8_encode (last_lines s (Suc m))) = length (utf8_encode (py_join [NL] (take (Suc m) (rev ?ls))))"
    using sum_list_rev_bytes [of "take (Suc m) (rev ?ls)"] by (simp add: last_lines_def rt)
  then show ?thesis
    using tl(2,3) rev_take_lines_bytes [of budget cap ?ls, folded rt] rev_take_lines_bytes [of budget cap "rev ?ls"]
    by (auto simp: longest_fit_def last_lines_def tl(1) rt)
qed

section \<open>The preview\<close>

lemma lines_bound: "length (py_split_on NL s) \<le> length (utf8_encode s) + 1"
proof (induction s)
  case (Cons c s)
  have "1 \<le> length (utf8_char d)" for d by (simp add: Suc_leI)
  then show ?case using Cons add_mono [of 1 "length (utf8_char NL)"] by (cases "py_split_on NL s") auto
qed simp

lemma make_preview_cut:
  assumes "max_bytes < length (utf8_encode s) \<or> max_lines < length (py_split_on NL s)"
    and "length MARKER_TEMPLATE + 32 < max_bytes" and "budget = max_bytes - (length MARKER_TEMPLATE + 32)"
  shows "\<exists>p. make_preview s max_bytes max_lines = (p, True) \<and>
    cut_preview s (budget div 2) (budget - budget div 2) (max_lines div 2) p"
proof -
  let ?ls = "py_split_on NL s" and ?hb = "budget div 2" and ?cap = "max_lines div 2"
  let ?tb = "budget - ?hb"
  define n where "n = length (take_lines ?hb ?cap 0 0 ?ls)"
  define m where "m = length (take_lines ?tb ?cap 0 0 (rev ?ls))"
  note h = first_lines_longest [OF n_def] and t = last_lines_longest [OF m_def]
  have int_budget: "int max_bytes - int (length MARKER_TEMPLATE) - 32 = int budget" "0 < budget"
    using assms(2,3) by simp_all
  have halves: "nat (int budget div 2) = ?hb" by (simp add: nat_div_distrib)
  have over: "\<not> (length (utf8_encode s) \<le> max_bytes \<and> length ?ls \<le> max_lines)" using assms(1) by auto
  show ?thesis
  proof (cases "first_lines s n \<noteq> [] \<or> last_lines s m \<noteq> []")
    case True
    then have "make_preview s max_bytes max_lines =
        (around_marker s (first_lines s n) (last_lines s m) (n + m), True)"
      using over int_budget h t True
      by (auto simp: make_preview_def Let_def halves around_marker_def n_def [symmetric] m_def [symmetric])
    then show ?thesis using True h t unfolding cut_preview_def by auto
  next
    case False
    obtain i j where i: "utf8_safe_head (utf8_encode s) ?hb = first_chars s i"
        "longest_fit (first_chars s) (length s) ?hb i"
      and j: "utf8_safe_tail (utf8_encode s) ?tb = last_chars s j" "longest_fit (last_chars s) (length s) ?tb j"
      using safe_head_longest safe_tail_longest by blast
    have "make_preview s max_bytes max_lines =
        (around_marker s (first_chars s i) (last_chars s j) (n + m), True)"
      using over int_budget h t False i j
      by (simp add: make_preview_def Let_def halves around_marker_def n_def [symmetric] m_def [symmetric])
    then show ?thesis using False h t i j unfolding cut_preview_def by auto
  qed
qed

lemma around_marker_bytes:
  assumes "length (utf8_encode h) \<le> hb" and "length (utf8_encode t) \<le> tb" and "length (utf8_encode s) < 10 ^ 22"
  shows "length (utf8_encode (around_marker s h t k)) \<le> hb + tb + length MARKER_TEMPLATE + 32"
proof -
  have "length (utf8_encode (MARKER (length (utf8_encode s) - (length (utf8_encode h) + length (utf8_encode t)))
      (length (py_split_on NL s) - k))) \<le> length MARKER_TEMPLATE + 32"
  proof (rule marker_bytes)
    have "(10 :: nat) ^ 22 + 1 < 10 ^ 23" by simp
    then show "length (utf8_encode s) - (length (utf8_encode h) + length (utf8_encode t)) < 10 ^ 23"
      "length (py_split_on NL s) - k < 10 ^ 23"
      using assms(3) lines_bound [of s] by linarith+
  qed
  then show ?thesis using assms(1,2) by (simp add: around_marker_def)
qed

lemma cut_preview_bytes:
  assumes "cut_preview s hb tb cap p" and "length (utf8_encode s) < 10 ^ 22"
  shows "length (utf8_encode p) \<le> hb + tb + length MARKER_TEMPLATE + 32"
  using assms(1) around_marker_bytes [OF _ _ assms(2)]
  by (auto simp: cut_preview_def longest_fit_def split: if_splits)

section \<open>Properties\<close>

text \<open>C13: A preview never exceeds the byte cap: for every text of fewer than \<open>10\<^sup>2\<^sup>2\<close> bytes its
  UTF-8 form has at most as many bytes as the cap allows, the filled marker included. It is cut
  exactly when the text exceeds one of the caps and is the text itself otherwise. A cut preview
  is the longest run of first lines and the longest run of last lines that fit the two halves of
  the budget and half the line cap each, or, where those hold no text, the longest run of first
  and of last characters, around a marker with the number of bytes and lines left out; with a cap
  too small for the marker it is the longest run of first characters.\<close>

theorem preview_fits_the_cap:
  assumes "make_preview text max_bytes max_lines = (p, truncated)" and "length (utf8_encode text) < 10 ^ 22"
    and "budget = max_bytes - (length MARKER_TEMPLATE + 32)"
  shows "length (utf8_encode p) \<le> max_bytes \<and>
    (truncated \<longleftrightarrow> max_bytes < length (utf8_encode text) \<or> max_lines < length (py_split_on NL text)) \<and>
    (if \<not> truncated then p = text
     else if budget = 0 then \<exists>i. p = first_chars text i \<and> longest_fit (first_chars text) (length text) max_bytes i
     else cut_preview text (budget div 2) (budget - budget div 2) (max_lines div 2) p)"
proof (cases "max_bytes < length (utf8_encode text) \<or> max_lines < length (py_split_on NL text)")
  case False
  then show ?thesis using assms(1) by (simp add: make_preview_def)
next
  case over: True
  show ?thesis
  proof (cases "budget = 0")
    case True
    then have "make_preview text max_bytes max_lines = (utf8_safe_head (utf8_encode text) max_bytes, True)"
      using over assms(3) by (auto simp: make_preview_def Let_def)
    then show ?thesis
      using assms(1) over True safe_head_longest [of "text" max_bytes] by (auto simp: longest_fit_def)
  next
    case False
    then obtain q where q: "make_preview text max_bytes max_lines = (q, True)"
      "cut_preview text (budget div 2) (budget - budget div 2) (max_lines div 2) q"
      using make_preview_cut [OF over _ assms(3)] assms(3) by auto
    from cut_preview_bytes [OF q(2) assms(2)] have "length (utf8_encode q) \<le> max_bytes"
      using False assms(3) by linarith
    then show ?thesis using assms(1) q over False by simp
  qed
qed

theorem preview_fits_the_cap_witness:
  "length (utf8_encode (fst (make_preview (replicate 120 CHR 0xE9) 100 800))) \<le> 100"
proof -
  have "length (utf8_encode (replicate 120 CHR 0xE9)) < 10 ^ 22"
    by (simp add: utf8_encode_def sum_list_replicate length_concat utf8_char_def)
  from preview_fits_the_cap [OF surjective_pairing this refl] show ?thesis by blast
qed

end
