(* ===== verification/Replacers.thy ===== *)
theory Replacers
  imports Py_Text
begin

text \<open>
  The ladder of matchers behind the \<open>edit\<close> tool (\<open>tools/_replacers.py\<close>): five generators of
  candidate texts, tightest first, and \<open>find_replacement\<close>, which lets the first of them that
  finds anything decide. A generator is the list of what it yields. The offsets are natural
  numbers, since the code only forms non-negative ones.
\<close>

section \<open>String methods used here\<close>

text \<open>\<open>s.find(sub)\<close>, with \<open>None\<close> for the answer \<open>-1\<close>.\<close>

fun py_find :: "string \<Rightarrow> string \<Rightarrow> nat option" where
  "py_find [] p = (if p = [] then Some 0 else None)"
| "py_find (c # s) p = (if startswith (c # s) p then Some 0 else map_option Suc (py_find s p))"

text \<open>\<open>s.count(sub)\<close>: occurrences that do not overlap, from the left.\<close>

function count_from :: "string \<Rightarrow> string \<Rightarrow> nat" where
  "count_from [] p = 0"
| "count_from (c # s) p =
     (if p \<noteq> [] \<and> startswith (c # s) p then Suc (count_from (drop (length p) (c # s)) p)
      else count_from s p)"
  by pat_completeness auto
termination
  by (relation "measure (\<lambda>(s, p). length s)") (auto simp: neq_Nil_conv)

definition py_count :: "string \<Rightarrow> string \<Rightarrow> nat" where
  "py_count s p = (if p = [] then length s + 1 else count_from s p)"

definition py_lstrip :: "string \<Rightarrow> string" where
  "py_lstrip s = lstrip_chars py_isspace s"

text \<open>\<open>re.sub(r"\s+", " ", s)\<close>.\<close>

function collapse_spaces :: "string \<Rightarrow> string" where
  "collapse_spaces [] = []"
| "collapse_spaces (c # s) =
     (if py_isspace c then CHR '' '' # collapse_spaces (dropWhile py_isspace s) else c # collapse_spaces s)"
  by pat_completeness auto
termination
  by (relation "measure length") (auto simp: le_imp_less_Suc length_dropWhile_le)

text \<open>The slice of the text that lines \<open>i\<close> to \<open>i + n\<close> take, from the lengths of the lines.\<close>

definition span_start :: "string list \<Rightarrow> nat \<Rightarrow> nat" where
  "span_start lines i = sum_list (map (\<lambda>l. length l + 1) (take i lines))"

fun span_length :: "string list \<Rightarrow> nat" where
  "span_length [] = 0"
| "span_length [l] = length l"
| "span_length (l # ls) = length l + 1 + span_length ls"

definition line_slice :: "string \<Rightarrow> string list \<Rightarrow> nat \<Rightarrow> nat \<Rightarrow> string" where
  "line_slice content lines i n =
     take (span_length (take n (drop i lines))) (drop (span_start lines i) content)"

definition block_starts :: "'a list \<Rightarrow> 'b list \<Rightarrow> nat list" where
  "block_starts lines search = (if length lines < length search then [] else [0..<length lines - length search + 1])"

section \<open>The replacers\<close>

definition simple_replacer :: "string \<Rightarrow> string \<Rightarrow> string list" where
  "simple_replacer content find' = [find']"

definition pop_empty_last :: "string list \<Rightarrow> string list" where
  "pop_empty_last ls = (if ls \<noteq> [] \<and> last ls = [] then butlast ls else ls)"

definition line_trimmed_replacer :: "string \<Rightarrow> string \<Rightarrow> string list" where
  "line_trimmed_replacer content find' =
     (let original_lines = py_split_on NL content;
          search_lines = pop_empty_last (py_split_on NL find')
      in if search_lines = [] then []
         else [line_slice content original_lines i (length search_lines).
                 i \<leftarrow> block_starts original_lines search_lines,
                 map py_strip (take (length search_lines) (drop i original_lines)) = map py_strip search_lines])"

definition norm_space :: "string \<Rightarrow> string" where
  "norm_space text = py_strip (collapse_spaces text)"

text \<open>What the expression of the escaped words joined by \<open>\s+\<close> matches at the start of a text, and
  the first match in it: no word holds a space, so a run of spaces is matched as a whole.\<close>

fun match_words :: "string list \<Rightarrow> string \<Rightarrow> string option" where
  "match_words [] s = Some []"
| "match_words [w] s = (if startswith s w then Some w else None)"
| "match_words (w # v # ws) s =
     (if startswith s w
      then (let r = drop (length w) s; sp = takeWhile py_isspace r
            in if sp = [] then None
               else map_option (\<lambda>m. w @ sp @ m) (match_words (v # ws) (drop (length sp) r)))
      else None)"

fun search_words :: "string list \<Rightarrow> string \<Rightarrow> string option" where
  "search_words ws [] = match_words ws []"
| "search_words ws (c # s) =
     (case match_words ws (c # s) of Some m \<Rightarrow> Some m | None \<Rightarrow> search_words ws s)"

definition line_candidates :: "string \<Rightarrow> string \<Rightarrow> string list" where
  "line_candidates find' line =
     (if norm_space line = norm_space find' then [line]
      else if norm_space find' \<noteq> [] \<and> contains (norm_space line) (norm_space find') then
        (let words = py_split (py_strip find')
         in if words = [] then []
            else case search_words words line of Some m \<Rightarrow> [m] | None \<Rightarrow> [])
      else [])"

definition whitespace_normalized_replacer :: "string \<Rightarrow> string \<Rightarrow> string list" where
  "whitespace_normalized_replacer content find' =
     (let lines = py_split_on NL content;
          find_lines = py_split_on NL find'
      in concat (map (line_candidates find') lines)
         @ (if length find_lines > 1
            then [block. i \<leftarrow> block_starts lines find_lines,
                    block \<leftarrow> [py_join [NL] (take (length find_lines) (drop i lines))],
                    norm_space block = norm_space find']
            else []))"

definition remove_indent :: "string \<Rightarrow> string" where
  "remove_indent text =
     (let lines = py_split_on NL text;
          non_empty = filter (\<lambda>ln. py_strip ln \<noteq> []) lines
      in if non_empty = [] then text
         else (let min_indent = Min (set (map (\<lambda>ln. length ln - length (py_lstrip ln)) non_empty))
               in py_join [NL] (map (\<lambda>ln. if py_strip ln = [] then ln else drop min_indent ln) lines)))"

definition indentation_flexible_replacer :: "string \<Rightarrow> string \<Rightarrow> string list" where
  "indentation_flexible_replacer content find' =
     (let content_lines = py_split_on NL content;
          find_lines = py_split_on NL find'
      in [block. i \<leftarrow> block_starts content_lines find_lines,
            block \<leftarrow> [py_join [NL] (take (length find_lines) (drop i content_lines))],
            remove_indent block = remove_indent find'])"

definition block_end :: "string list \<Rightarrow> string \<Rightarrow> nat \<Rightarrow> nat option" where
  "block_end lines last' i = find (\<lambda>j. py_strip (lines ! j) = last') [i + 2..<length lines]"

definition block_anchor_replacer :: "string \<Rightarrow> string \<Rightarrow> string list" where
  "block_anchor_replacer content find' =
     (let original_lines = py_split_on NL content;
          search_lines = py_split_on NL find'
      in if length search_lines < 3 then []
         else (let search_lines = pop_empty_last search_lines
               in if length search_lines < 3 then []
                  else [line_slice content original_lines i (j + 1 - i).
                          i \<leftarrow> [0..<length original_lines],
                          py_strip (original_lines ! i) = py_strip (hd search_lines),
                          j \<leftarrow> (case block_end original_lines (py_strip (last search_lines)) i of
                                 Some j \<Rightarrow> [j] | None \<Rightarrow> [])]))"

definition REPLACERS :: "(string \<times> (string \<Rightarrow> string \<Rightarrow> string list)) list" where
  "REPLACERS = [(''simple_replacer'', simple_replacer), (''line_trimmed_replacer'', line_trimmed_replacer),
     (''whitespace_normalized_replacer'', whitespace_normalized_replacer),
     (''indentation_flexible_replacer'', indentation_flexible_replacer),
     (''block_anchor_replacer'', block_anchor_replacer)]"

definition STRATEGY_NAMES :: string where
  "STRATEGY_NAMES = py_join '', '' (map fst REPLACERS)"

section \<open>Resolving one anchor\<close>

record replacement =
  rep_search :: "string option"
  rep_count :: int
  rep_error :: "string option"

fun seen_candidates :: "string \<Rightarrow> string list \<Rightarrow> string list \<Rightarrow> string list" where
  "seen_candidates content seen [] = seen"
| "seen_candidates content seen (c # cs) =
     seen_candidates content (if contains content c \<and> c \<notin> set seen then seen @ [c] else seen) cs"

definition decide_seen :: "string \<Rightarrow> string \<Rightarrow> string list \<Rightarrow> replacement" where
  "decide_seen content name seen =
     (if length seen > 1 then
        \<lparr>rep_search = None, rep_count = 0,
         rep_error = Some (''oldText matched multiple distinct blocks via '' @ name @ ''; the anchor must be unique. Add ''
           @ ''surrounding context, or split the change into more specific anchors.'')\<rparr>
      else
        (let occurrences = py_count content (hd seen)
         in if occurrences > 1 then
              \<lparr>rep_search = None, rep_count = 0,
               rep_error = Some (''oldText matched '' @ string_of_nat occurrences @ '' times in the file; the ''
                 @ ''anchor must be unique. Add surrounding context, or split the change into more specific anchors.'')\<rparr>
            else \<lparr>rep_search = Some (hd seen), rep_count = 1, rep_error = None\<rparr>))"

fun find_with :: "(string \<times> (string \<Rightarrow> string \<Rightarrow> string list)) list \<Rightarrow> string \<Rightarrow> string \<Rightarrow> replacement" where
  "find_with [] content old_string =
     \<lparr>rep_search = None, rep_count = 0,
      rep_error = Some (''oldText not found. Tried, in order: '' @ STRATEGY_NAMES
        @ ''. It must match the file'' @ [SQUOTE] @ ''s text '' @ EMDASH @ '' check whitespace, indentation, and that the lines still exist.'')\<rparr>"
| "find_with ((name, replacer) # rs) content old_string =
     (let seen = seen_candidates content [] (replacer content old_string)
      in if seen = [] then find_with rs content old_string else decide_seen content name seen)"

definition find_replacement :: "string \<Rightarrow> string \<Rightarrow> replacement" where
  "find_replacement content old_string = find_with REPLACERS content old_string"

section \<open>Words\<close>

text \<open>The words of a text do not depend on which blanks separate them.\<close>

lemma py_split_space: "py_isspace c \<Longrightarrow> py_split (a @ c # b) = py_split a @ py_split b"
proof (induction a rule: py_split.induct)
  case (2 d s)
  show ?case
  proof (cases "py_isspace d")
    case True
    then show ?thesis using 2 by simp
  next
    case False
    show ?thesis
    proof (cases "\<forall>x \<in> set s. \<not> py_isspace x")
      case True
      then have t: "takeWhile (\<lambda>x. \<not> py_isspace x) (s @ c # b) = s" "dropWhile (\<lambda>x. \<not> py_isspace x) (s @ c # b) = c # b"
        "takeWhile (\<lambda>x. \<not> py_isspace x) s = s" "dropWhile (\<lambda>x. \<not> py_isspace x) s = []"
        using 2(3) by (simp_all add: takeWhile_append dropWhile_append)
      show ?thesis using False 2(3) by (simp add: t)
    next
      case some: False
      then have "takeWhile (\<lambda>x. \<not> py_isspace x) (s @ c # b) = takeWhile (\<lambda>x. \<not> py_isspace x) s"
        "dropWhile (\<lambda>x. \<not> py_isspace x) (s @ c # b) = dropWhile (\<lambda>x. \<not> py_isspace x) s @ c # b"
        by (auto simp: takeWhile_append dropWhile_append)
      then show ?thesis using False 2(2) [OF False 2(3)] by simp
    qed
  qed
qed simp

lemma py_split_spaces: "list_all py_isspace s \<Longrightarrow> py_split s = []"
  by (induction s) auto

lemma py_split_lstrip: "py_split (dropWhile py_isspace s) = py_split s"
  by (induction s) auto

lemma py_split_rstrip: "py_split (rstrip_chars py_isspace s) = py_split s"
proof (induction s rule: rev_induct)
  case (snoc c s)
  then show ?case using py_split_space [of c s "[]"] by (auto simp: rstrip_chars_def)
qed (simp add: rstrip_chars_def)

lemma py_split_strip [simp]: "py_split (py_strip s) = py_split s"
  by (simp add: py_strip_def py_split_rstrip lstrip_chars_def py_split_lstrip)

lemma takeWhile_collapse:
  "takeWhile (\<lambda>x. \<not> py_isspace x) (collapse_spaces s) = takeWhile (\<lambda>x. \<not> py_isspace x) s"
  "py_split (dropWhile (\<lambda>x. \<not> py_isspace x) (collapse_spaces s)) = py_split (collapse_spaces (dropWhile (\<lambda>x. \<not> py_isspace x) s))"
  by (induction s rule: collapse_spaces.induct) auto

lemma py_split_collapse [simp]: "py_split (collapse_spaces s) = py_split s"
proof (induction s rule: length_induct)
  case (1 s)
  show ?case
  proof (cases s)
    case (Cons c t)
    have d: "length (dropWhile P t) < length s" for P using Cons by (simp add: le_imp_less_Suc length_dropWhile_le)
    show ?thesis
    proof (cases "py_isspace c")
      case True
      then show ?thesis using Cons 1 d [of py_isspace] by (simp add: py_split_lstrip)
    next
      case False
      then show ?thesis using Cons 1 d [of "\<lambda>x. \<not> py_isspace x"] by (simp add: takeWhile_collapse)
    qed
  qed simp
qed

lemma norm_space_words: "norm_space s = norm_space t \<Longrightarrow> py_split s = py_split t"
  using py_split_strip [of "collapse_spaces s"] py_split_strip [of "collapse_spaces t"]
  by (simp add: norm_space_def)

lemma py_split_lines: "py_split (py_join [NL] ls) = concat (map py_split ls)"
  by (induction ls rule: induct_list012) (auto simp: py_split_space)

lemma strip_lines_words: "map py_strip ls = map py_strip ks \<Longrightarrow> concat (map py_split ls) = concat (map py_split ks)"
proof -
  assume a: "map py_strip ls = map py_strip ks"
  have "map py_split ls = map py_split (map py_strip ls)" for ls by simp
  with a show ?thesis by metis
qed

section \<open>Lines\<close>

lemma span_length_join: "span_length ls = length (py_join [NL] ls)"
  by (induction ls rule: span_length.induct) auto

lemma drop_span_start:
  "i < length ls \<Longrightarrow> drop (span_start ls i) (py_join [NL] ls) = py_join [NL] (drop i ls)"
proof (induction i arbitrary: ls)
  case (Suc i)
  then obtain l ks where ls: "ls = l # ks" and ks: "ks \<noteq> []" by (cases ls) fastforce+
  then show ?case using Suc by (simp add: span_start_def py_join_Cons)
qed (simp add: span_start_def)

lemma line_slice_block:
  assumes "i < length (py_split_on NL content)"
  shows "line_slice content (py_split_on NL content) i n = py_join [NL] (take n (drop i (py_split_on NL content)))"
proof -
  have "drop (span_start (py_split_on NL content) i) content = py_join [NL] (drop i (py_split_on NL content))"
    using drop_span_start [OF assms] by simp
  then show ?thesis by (simp add: line_slice_def span_length_join take_join)
qed

lemma block_contained: "i < length (py_split_on NL content) \<Longrightarrow> n \<noteq> 0 \<Longrightarrow>
    contains content (py_join [NL] (take n (drop i (py_split_on NL content))))"
proof -
  let ?ls = "py_split_on NL content"
  assume i: "i < length ?ls"
  have "content = take (span_start ?ls i) content @ py_join [NL] (drop i ?ls)"
    using drop_span_start [OF i] append_take_drop_id [of "span_start ?ls i" content] by simp
  moreover have "py_join [NL] (drop i ?ls) = py_join [NL] (take n (drop i ?ls))
      @ drop (length (py_join [NL] (take n (drop i ?ls)))) (py_join [NL] (drop i ?ls))"
    using take_join [of "[NL]" n "drop i ?ls"] append_take_drop_id by metis
  ultimately show ?thesis unfolding contains_iff by metis
qed

lemma split_words: "py_split s = concat (map py_split (py_split_on NL s))"
  using py_split_lines [of "py_split_on NL s"] by simp

lemma pop_empty_last_words: "concat (map py_split (pop_empty_last ls)) = concat (map py_split ls)"
  by (cases ls rule: rev_cases) (auto simp: pop_empty_last_def)

lemma block_starts_less: "i \<in> set (block_starts lines search) \<Longrightarrow> search \<noteq> [] \<Longrightarrow> i < length lines"
  by (cases search) (auto simp: block_starts_def split: if_splits)

lemma line_contained: "l \<in> set (py_split_on NL content) \<Longrightarrow> contains content l"
proof -
  assume "l \<in> set (py_split_on NL content)"
  then obtain i where "i < length (py_split_on NL content)" "py_split_on NL content ! i = l"
    by (auto simp: in_set_conv_nth)
  then show ?thesis using block_contained [of i content 1] by (simp add: take_Suc hd_drop_conv_nth)
qed

section \<open>What the replacers yield\<close>

lemma line_trimmed_yields:
  assumes "c \<in> set (line_trimmed_replacer content old)"
  shows "contains content c \<and> py_split c = py_split old"
proof -
  let ?ls = "py_split_on NL content" and ?ss = "pop_empty_last (py_split_on NL old)"
  obtain i where ss: "?ss \<noteq> []" and i: "i \<in> set (block_starts ?ls ?ss)"
    and m: "map py_strip (take (length ?ss) (drop i ?ls)) = map py_strip ?ss"
    and c: "c = line_slice content ?ls i (length ?ss)"
    using assms by (auto simp: line_trimmed_replacer_def Let_def split: if_splits)
  have l: "i < length ?ls" using block_starts_less [OF i ss] .
  have c': "c = py_join [NL] (take (length ?ss) (drop i ?ls))" using c line_slice_block [OF l] by simp
  have "py_split c = py_split old"
    using strip_lines_words [OF m] pop_empty_last_words split_words [of old] by (simp add: c' py_split_lines)
  then show ?thesis using block_contained [OF l, of "length ?ss"] ss c' by simp
qed

lemma block_yields:
  assumes "i \<in> set (block_starts (py_split_on NL content) (py_split_on NL old))"
  shows "contains content (py_join [NL] (take (length (py_split_on NL old)) (drop i (py_split_on NL content))))"
  by (rule block_contained [OF block_starts_less [OF assms]]) simp_all

lemma startswith_decomp: "startswith s w \<Longrightarrow> s = w @ drop (length w) s"
  unfolding startswith_def by (metis append_take_drop_id)

lemma three_parts: "s = w @ r \<Longrightarrow> r = sp @ r' \<Longrightarrow> r' = k @ r'' \<Longrightarrow> startswith s (w @ sp @ k)"
  by (simp add: startswith_def)

lemma match_words_sound:
  "match_words ws s = Some m \<Longrightarrow> list_all token ws \<Longrightarrow> startswith s m \<and> py_split m = ws"
proof (induction ws s arbitrary: m rule: match_words.induct)
  case (2 w s)
  then show ?case by (auto simp: py_split_single split: if_splits)
next
  case (3 w v ws s)
  let ?r = "drop (length w) s" and ?sp = "takeWhile py_isspace (drop (length w) s)"
  from 3(2) obtain k where w: "startswith s w" and sp: "?sp \<noteq> []"
    and k: "match_words (v # ws) (drop (length ?sp) ?r) = Some k" and m: "m = w @ ?sp @ k"
    by (auto simp: Let_def split: if_splits)
  have ih: "startswith (drop (length ?sp) ?r) k" "py_split k = v # ws"
    using 3(1) [OF w refl refl _ k] sp 3(3) by auto
  obtain c sp' where c: "?sp = c # sp'" using sp by (cases ?sp) auto
  then have cs: "py_isspace c" "list_all py_isspace sp'"
    using set_takeWhileD [of _ py_isspace ?r] by (auto simp: list_all_iff)
  have r: "?r = ?sp @ drop (length ?sp) ?r" by (metis append_take_drop_id takeWhile_eq_take)
  have "startswith s m"
    unfolding m by (rule three_parts [OF startswith_decomp [OF w] r startswith_decomp [OF ih(1)]])
  moreover have "py_split (sp' @ k) = py_split k" using cs(2) by (induction sp') auto
  then have "py_split m = [w] @ v # ws"
    using m c cs(1) py_split_space [of c w "sp' @ k"] py_split_single [of w] 3(3) ih(2) by simp
  ultimately show ?case by simp
qed simp

lemma search_words_sound:
  "search_words ws s = Some m \<Longrightarrow> list_all token ws \<Longrightarrow> contains s m \<and> py_split m = ws"
proof (induction ws s rule: search_words.induct)
  case (1 ws)
  then show ?case using match_words_sound [of ws "[]" m] by (auto simp: startswith_def)
next
  case (2 ws c s)
  then show ?case using match_words_sound [of ws "c # s" m] by (auto split: option.splits)
qed

lemma line_candidates_yield:
  assumes "c \<in> set (line_candidates old line)"
  shows "contains line c \<and> py_split c = py_split old"
proof -
  have "list_all token (py_split old)" using py_split_token by (auto simp: list_all_iff)
  then show ?thesis
    using assms norm_space_words [of line old] search_words_sound [of "py_split old" line c]
    by (auto simp: line_candidates_def Let_def split: if_splits option.splits)
qed

lemma contains_trans: "contains a b \<Longrightarrow> contains b c \<Longrightarrow> contains a c"
  unfolding contains_iff by (metis append.assoc)

lemma whitespace_normalized_yields:
  assumes "c \<in> set (whitespace_normalized_replacer content old)"
  shows "contains content c \<and> py_split c = py_split old"
proof -
  from assms consider l where "l \<in> set (py_split_on NL content)" "c \<in> set (line_candidates old l)"
    | i where "i \<in> set (block_starts (py_split_on NL content) (py_split_on NL old))"
      "c = py_join [NL] (take (length (py_split_on NL old)) (drop i (py_split_on NL content)))"
      "norm_space c = norm_space old"
    by (auto simp: whitespace_normalized_replacer_def Let_def split: if_splits)
  then show ?thesis
  proof cases
    case 1
    then show ?thesis using line_candidates_yield line_contained contains_trans by blast
  next
    case 2
    then show ?thesis using block_yields norm_space_words by blast
  qed
qed

lemma remove_indent_words: "py_split (remove_indent s) = py_split s"
proof -
  let ?ls = "py_split_on NL s"
  let ?ne = "filter (\<lambda>ln. py_strip ln \<noteq> []) ?ls"
  let ?m = "Min (set (map (\<lambda>ln. length ln - length (py_lstrip ln)) ?ne))"
  have dr: "py_split (drop n ln) = py_split ln" if "n \<le> length ln - length (py_lstrip ln)" for n ln
    using that
  proof (induction ln arbitrary: n)
    case (Cons c ln)
    then show ?case
      by (cases n; cases "py_isspace c") (auto simp: py_lstrip_def lstrip_chars_def)
  qed simp
  have "py_split (drop ?m ln) = py_split ln" if "ln \<in> set ?ls" "py_strip ln \<noteq> []" for ln
    by (rule dr, rule Min_le) (use that in auto)
  then have "map (py_split \<circ> (\<lambda>ln. if py_strip ln = [] then ln else drop ?m ln)) ?ls = map py_split ?ls"
    by (intro map_cong) auto
  then have "concat (map py_split (map (\<lambda>ln. if py_strip ln = [] then ln else drop ?m ln) ?ls)) = py_split s"
    unfolding map_map split_words [of s] by (rule arg_cong)
  then have "py_split (py_join [NL] (map (\<lambda>ln. if py_strip ln = [] then ln else drop ?m ln) ?ls)) = py_split s"
    unfolding py_split_lines .
  then show ?thesis unfolding remove_indent_def Let_def by (simp only: split: if_splits) blast
qed

lemma indentation_flexible_yields:
  assumes "c \<in> set (indentation_flexible_replacer content old)"
  shows "contains content c \<and> py_split c = py_split old"
proof -
  obtain i where "i \<in> set (block_starts (py_split_on NL content) (py_split_on NL old))"
    "c = py_join [NL] (take (length (py_split_on NL old)) (drop i (py_split_on NL content)))"
    and r: "remove_indent c = remove_indent old"
    using assms by (auto simp: indentation_flexible_replacer_def Let_def)
  then show ?thesis using block_yields remove_indent_words [of c] remove_indent_words [of old] by simp
qed

text \<open>A block found by its anchors: it starts and ends with the first and the last line looked for, up
  to surrounding blanks.\<close>

definition anchored :: "string \<Rightarrow> string \<Rightarrow> bool" where
  "anchored old s \<longleftrightarrow>
     (let os = pop_empty_last (py_split_on NL old); ss = py_split_on NL s
      in 3 \<le> length os \<and> 3 \<le> length ss \<and> py_strip (hd ss) = py_strip (hd os) \<and>
         py_strip (last ss) = py_strip (last os))"

lemma block_anchor_yields:
  assumes "c \<in> set (block_anchor_replacer content old)"
  shows "contains content c \<and> anchored old c"
proof -
  let ?ls = "py_split_on NL content" and ?os = "pop_empty_last (py_split_on NL old)"
  obtain i j where os: "3 \<le> length ?os" and i: "i < length ?ls" "py_strip (?ls ! i) = py_strip (hd ?os)"
    and j: "block_end ?ls (py_strip (last ?os)) i = Some j"
    and c: "c = line_slice content ?ls i (j + 1 - i)"
    using assms by (force simp: block_anchor_replacer_def Let_def split: if_splits option.splits)
  from j have ij: "i + 2 \<le> j" "j < length ?ls" "py_strip (?ls ! j) = py_strip (last ?os)"
    by (auto simp: block_end_def find_Some_iff nth_append)
  let ?b = "take (j + 1 - i) (drop i ?ls)"
  have c': "c = py_join [NL] ?b" using c line_slice_block [OF i(1)] by simp
  have len: "length ?b = j + 1 - i" using ij by simp
  then have ne: "?b \<noteq> []" using ij by auto
  have "py_split_on NL c = ?b"
    unfolding c' by (rule split_on_join [OF ne]) (meson in_set_dropD in_set_takeD split_on_no_sep)
  moreover have "hd ?b = ?ls ! i" using ij i by (simp add: hd_drop_conv_nth)
  moreover have "last ?b = ?ls ! j" using last_conv_nth [OF ne] len ij by simp
  ultimately have "anchored old c" using os i(2) ij len by (simp add: anchored_def Let_def)
  then show ?thesis using block_contained [OF i(1), of "j + 1 - i"] ij c' by simp
qed

section \<open>Resolving an anchor\<close>

lemma seen_candidates_set:
  "set (seen_candidates content seen cs) = set seen \<union> {c \<in> set cs. contains content c}"
  by (induction cs arbitrary: seen) auto

lemma count_pos: "contains s p \<Longrightarrow> 0 < py_count s p"
proof -
  have "contains s p \<Longrightarrow> p \<noteq> [] \<Longrightarrow> 0 < count_from s p"
    by (induction s p rule: count_from.induct) auto
  then show "contains s p \<Longrightarrow> 0 < py_count s p" by (auto simp: py_count_def)
qed

lemma decide_seen_search:
  "rep_search (decide_seen content name seen) = Some s \<longleftrightarrow> length seen \<le> 1 \<and> s = hd seen \<and> py_count content (hd seen) \<le> 1"
  by (auto simp: decide_seen_def Let_def)

lemma find_with_search:
  "rep_search (find_with rs content old) = Some s \<Longrightarrow>
     contains content s \<and> py_count content s = 1 \<and> (\<exists>(name, r) \<in> set rs. s \<in> set (r content old))"
proof (induction rs)
  case (Cons nr rs)
  obtain name r where nr: "nr = (name, r)" by fastforce
  let ?seen = "seen_candidates content [] (r content old)"
  show ?case
  proof (cases "?seen = []")
    case True
    then show ?thesis using Cons nr by auto
  next
    case False
    then have "s = hd ?seen" "py_count content s \<le> 1"
      using Cons.prems nr by (auto simp: decide_seen_search)
    moreover have "s \<in> set ?seen" using False calculation by simp
    ultimately show ?thesis using count_pos [of content s] nr by (auto simp: seen_candidates_set)
  qed
qed simp

lemma find_with_wf:
  "rep_error (find_with rs content old) = None \<longleftrightarrow> rep_search (find_with rs content old) \<noteq> None"
  "rep_count (find_with rs content old) = (if rep_search (find_with rs content old) = None then 0 else 1)"
  by (induction rs content old rule: find_with.induct) (simp_all add: decide_seen_def Let_def del: not_None_eq)

lemma find_replacement_exact:
  "contains content old \<Longrightarrow> find_replacement content old = decide_seen content ''simple_replacer'' [old]"
  by (simp add: find_replacement_def REPLACERS_def simple_replacer_def)

lemma replacers_yield:
  assumes "(name, r) \<in> set REPLACERS" and "s \<in> set (r content old)"
  shows "py_split s = py_split old \<or> anchored old s"
  using assms line_trimmed_yields whitespace_normalized_yields indentation_flexible_yields block_anchor_yields
  by (auto simp: REPLACERS_def simple_replacer_def)

section \<open>Properties\<close>

text \<open>C12: The text an edit is resolved to stands in the file verbatim and is counted there exactly
  once; it is the requested text itself when the file holds that text, and otherwise has the
  same words as the requested text, in the same order, or is a block that begins and ends with
  its first and last line. A resolution carries either a text or an error, never both.\<close>

theorem find_replacement_is_faithful:
  "(case rep_search (find_replacement content old) of
      None \<Rightarrow> rep_error (find_replacement content old) \<noteq> None \<and> rep_count (find_replacement content old) = 0
    | Some s \<Rightarrow> rep_error (find_replacement content old) = None \<and> rep_count (find_replacement content old) = 1 \<and>
        contains content s \<and> py_count content s = 1 \<and>
        (if contains content old then s = old else py_split s = py_split old \<or> anchored old s))"
proof (cases "rep_search (find_replacement content old)")
  case None
  then show ?thesis using find_with_wf [of REPLACERS content old] by (simp add: find_replacement_def)
next
  case (Some s)
  then have w: "contains content s" "py_count content s = 1" "\<exists>(name, r) \<in> set REPLACERS. s \<in> set (r content old)"
    using find_with_search [of REPLACERS content old s] by (simp_all add: find_replacement_def)
  have "contains content old \<Longrightarrow> s = old"
    using Some by (simp add: find_replacement_exact decide_seen_search)
  moreover have "py_split s = py_split old \<or> anchored old s" using w(3) replacers_yield by blast
  ultimately show ?thesis
    using Some w(1,2) find_with_wf [of REPLACERS content old] by (simp add: find_replacement_def)
qed

end
