(* ===== verification/File_Ops.thy ===== *)
theory File_Ops
  imports Output_Overflow Replacers Json_Roundtrip
begin

text \<open>
  The file tools (\<open>tools/file_ops.py\<close>): \<open>read_file\<close>, \<open>write\<close> and \<open>edit\<close> with their guards, the edit
  batch and the diagnostics attached to a written Python file. The environment behind the
  tools is the record \<open>services\<close>: what it raises on a read or a write, how it stores a text,
  and the result of running a command. A tool returns its answer or the exception it raises
  together with the state it leaves, so that a change made before an exception is visible.
\<close>

section \<open>The environment\<close>

record exec_result =
  exec_stdout :: string
  exec_stderr :: string
  exit_code :: int

record services =
  svc_host :: host
  svc_root :: path
  svc_on_host_fs :: bool
  svc_read_error :: "path \<Rightarrow> py_exn option"
  svc_write_error :: "path \<Rightarrow> string \<Rightarrow> (py_exn \<times> byte list option) option"
  svc_store :: "string \<Rightarrow> byte list"
  svc_execute :: "string \<Rightarrow> exec_result py"

record file_world =
  fw_files :: "path \<rightharpoonup> byte list"
  fw_state :: "pydict option"

definition svc_read :: "services \<Rightarrow> path \<Rightarrow> file_world \<Rightarrow> byte list py" where
  "svc_read svc p w = (case svc_read_error svc p of
       Some e \<Rightarrow> Inl e
     | None \<Rightarrow> (case fw_files w p of Some b \<Rightarrow> Inr b | None \<Rightarrow> Inl (FileNotFoundError (path_str p))))"

text \<open>A write that raises may have changed the file already: the host truncates it before it writes,
  and the answer of a sandbox that has stored the text may be lost. So the environment says with
  the exception what then stands in the file, if it was touched.\<close>

definition failed_write_left :: "path \<Rightarrow> byte list option \<Rightarrow> file_world \<Rightarrow> file_world" where
  "failed_write_left p left w =
     (case left of None \<Rightarrow> w | Some b \<Rightarrow> w\<lparr>fw_files := (fw_files w)(p \<mapsto> b)\<rparr>)"

definition svc_write :: "services \<Rightarrow> path \<Rightarrow> string \<Rightarrow> file_world \<Rightarrow> unit py \<times> file_world" where
  "svc_write svc p text w = (case svc_write_error svc p text of
       Some (e, left) \<Rightarrow> (Inl e, failed_write_left p left w)
     | None \<Rightarrow> (Inr (), w\<lparr>fw_files := (fw_files w)(p \<mapsto> svc_store svc text)\<rparr>))"

text \<open>The exceptions an \<open>except OSError\<close> clause catches, with their text.\<close>

definition os_error_text :: "py_exn \<Rightarrow> string option" where
  "os_error_text e = (case e of OSError m \<Rightarrow> Some m | FileNotFoundError m \<Rightarrow> Some m
     | IsADirectoryError m \<Rightarrow> Some m | _ \<Rightarrow> None)"

section \<open>Guards\<close>

definition file_error :: "string \<Rightarrow> pydict" where
  "file_error message = [(''success'', PyBool False), (''error'', PyStr message)]"

definition resolve_in_session_window :: "services \<Rightarrow> string \<Rightarrow> pydict option \<Rightarrow> (string + path) py" where
  "resolve_in_session_window svc p state =
     py_bind (path_resolve (svc_host svc) (svc_root svc)) (\<lambda>env_root.
     py_bind (window_dirs state) (\<lambda>window. resolve_in_window (svc_host svc) p env_root window))"

definition BINARY_EXTENSIONS :: "string list" where
  "BINARY_EXTENSIONS =
     [''.png'', ''.jpg'', ''.jpeg'', ''.gif'', ''.bmp'', ''.ico'', ''.webp'', ''.tiff'', ''.tif'', ''.mp4'', ''.mov'',
      ''.avi'', ''.mkv'', ''.webm'', ''.wmv'', ''.flv'', ''.m4v'', ''.mpeg'', ''.mpg'', ''.mp3'', ''.wav'', ''.ogg'',
      ''.flac'', ''.aac'', ''.m4a'', ''.wma'', ''.aiff'', ''.opus'', ''.zip'', ''.tar'', ''.gz'', ''.bz2'', ''.7z'',
      ''.rar'', ''.xz'', ''.z'', ''.tgz'', ''.iso'', ''.exe'', ''.dll'', ''.so'', ''.dylib'', ''.bin'', ''.o'', ''.a'',
      ''.obj'', ''.lib'', ''.app'', ''.msi'', ''.deb'', ''.rpm'', ''.doc'', ''.docx'', ''.xls'', ''.xlsx'', ''.ppt'',
      ''.pptx'', ''.odt'', ''.ods'', ''.odp'', ''.ttf'', ''.otf'', ''.woff'', ''.woff2'', ''.eot'', ''.pyc'', ''.pyo'',
      ''.class'', ''.jar'', ''.war'', ''.ear'', ''.node'', ''.wasm'', ''.rlib'', ''.sqlite'', ''.sqlite3'', ''.db'',
      ''.mdb'', ''.idx'', ''.psd'', ''.ai'', ''.eps'', ''.sketch'', ''.fig'', ''.xd'', ''.blend'', ''.3ds'', ''.max'',
      ''.swf'', ''.fla'', ''.lockb'', ''.dat'', ''.data'']"

text \<open>\<open>Path.suffix\<close>: from the last dot of the name, unless that is its first or its last character.\<close>

definition name_suffix :: "string \<Rightarrow> string" where
  "name_suffix name =
     (let after = takeWhile (\<lambda>c. c \<noteq> CHR ''.'') (rev name);
          i = length name - length after
      in if after \<noteq> [] \<and> 1 < i then drop (i - 1) name else [])"

definition has_binary_extension :: "path \<Rightarrow> bool" where
  "has_binary_extension p \<longleftrightarrow> p \<noteq> [] \<and> py_lower (name_suffix (last p)) \<in> set BINARY_EXTENSIONS"

definition denied_exact_paths :: "host \<Rightarrow> path \<Rightarrow> path list" where
  "denied_exact_paths h home = map (realpath h)
     ([home @ [''.ssh'', ''authorized_keys''], home @ [''.ssh'', ''id_rsa''], home @ [''.ssh'', ''id_ed25519''],
       home @ [''.ssh'', ''config'']]
      @ map (\<lambda>f. home @ [f]) [''.bashrc'', ''.zshrc'', ''.profile'', ''.bash_profile'', ''.zprofile'', ''.netrc'',
          ''.pgpass'', ''.npmrc'', ''.pypirc'']
      @ [[''etc'', ''sudoers''], [''etc'', ''passwd''], [''etc'', ''shadow'']])"

definition denied_prefixes :: "host \<Rightarrow> path \<Rightarrow> string list" where
  "denied_prefixes h home = map (\<lambda>p. path_str (realpath h p) @ ''/'')
     [home @ [''.ssh''], home @ [''.aws''], home @ [''.gnupg''], home @ [''.kube''], [''etc'', ''sudoers.d''],
      [''etc'', ''systemd''], home @ [''.docker''], home @ [''.azure''], home @ [''.config'', ''gh'']]"

definition is_write_denied :: "host \<Rightarrow> path \<Rightarrow> bool" where
  "is_write_denied h p =
     (let home = realpath h (host_home h);
          resolved = realpath h p
      in resolved \<in> set (denied_exact_paths h home)
         \<or> list_ex (startswith (path_str resolved)) (denied_prefixes h home))"

section \<open>Reading\<close>

definition MAX_LINE_LENGTH :: nat where
  "MAX_LINE_LENGTH = 2000"

definition LINE_TRUNC_SUFFIX :: string where
  "LINE_TRUNC_SUFFIX = ''... (line truncated)''"

definition clip_line :: "string \<Rightarrow> string" where
  "clip_line line = (if length line > MAX_LINE_LENGTH then take MAX_LINE_LENGTH line @ LINE_TRUNC_SUFFIX else line)"

fun number_lines :: "int \<Rightarrow> string list \<Rightarrow> string list" where
  "number_lines n [] = []"
| "number_lines n (l # ls) = (string_of_int n @ '': '' @ clip_line l) # number_lines (n + 1) ls"

definition format_numbered_lines :: "string list \<Rightarrow> int \<Rightarrow> int \<Rightarrow> string" where
  "format_numbered_lines window first_line_no total_lines =
     (let body = py_join [NL] (number_lines first_line_no window);
          last_line_no = first_line_no + int (length window) - 1;
          trailer = (if last_line_no \<ge> total_lines then ''End of file - total '' @ string_of_int total_lines @ '' lines''
             else ''Showing lines '' @ string_of_int first_line_no @ ''-'' @ string_of_int last_line_no @ '' of ''
               @ string_of_int total_lines @ ''. Use offset='' @ string_of_int (last_line_no + 1) @ '' to continue.'')
      in body @ [NL, NL] @ trailer)"

text \<open>The page of a text: its lines from \<open>offset\<close>, counted from one.\<close>

definition page_start :: "int \<Rightarrow> nat" where
  "page_start offset = nat (max (offset - 1) 0)"

definition page_lines :: "string \<Rightarrow> int \<Rightarrow> int \<Rightarrow> string list" where
  "page_lines text offset limit = take (nat (max limit 0)) (drop (page_start offset) (py_splitlines text))"

definition spill_page :: "services \<Rightarrow> string \<Rightarrow> string \<Rightarrow> file_world \<Rightarrow> pydict py \<times> file_world" where
  "spill_page svc new_id body w =
     (case overflow_to_file (svc_host svc) (svc_root svc) (svc_write svc) ''read'' new_id TERMINAL_OUTPUT_LIMIT
             TERMINAL_OUTPUT_MAX_LINES ''This page of output'' body w of
        (Inl e, w') \<Rightarrow> (Inl e, w')
      | (Inr r, w') \<Rightarrow>
          (Inr [(''success'', PyBool True), (''content'', PyStr (preview r @ [NL, NL] @ pointer r)),
                (''truncated'', PyBool True), (''overflow_path'', PyStr (ov_path r))], w'))"

definition read_error_message :: "string \<Rightarrow> py_exn \<Rightarrow> string option" where
  "read_error_message p e = (case e of
       FileNotFoundError _ \<Rightarrow> Some (''File not found: '' @ p)
     | IsADirectoryError _ \<Rightarrow> Some (''Path is a directory, not a file: '' @ p)
     | OSError m \<Rightarrow> Some (''Failed to read '' @ p @ '': '' @ m)
     | _ \<Rightarrow> None)"

definition read_page :: "services \<Rightarrow> string \<Rightarrow> int \<Rightarrow> int \<Rightarrow> string \<Rightarrow> file_world \<Rightarrow> pydict py \<times> file_world" where
  "read_page svc new_id offset limit text w =
     (let total_lines = length (py_splitlines text)
      in if text = [] \<or> page_start offset \<ge> total_lines
         then (Inr [(''success'', PyBool True), (''content'', PyStr [])], w)
         else
           (let body = format_numbered_lines (page_lines text offset limit) (int (page_start offset) + 1) (int total_lines)
            in if \<not> snd (make_preview body TERMINAL_OUTPUT_LIMIT TERMINAL_OUTPUT_MAX_LINES)
               then (Inr [(''success'', PyBool True), (''content'', PyStr body)], w)
               else spill_page svc new_id body w))"

definition read_file :: "services \<Rightarrow> string \<Rightarrow> string \<Rightarrow> int \<Rightarrow> int \<Rightarrow> file_world \<Rightarrow> pydict py \<times> file_world" where
  "read_file svc new_id p offset limit w =
     (case resolve_in_session_window svc p (fw_state w) of
        Inl e \<Rightarrow> (Inl e, w)
      | Inr (Inl err) \<Rightarrow> (Inr (file_error err), w)
      | Inr (Inr target) \<Rightarrow>
          (if is_write_denied (svc_host svc) target
           then (Inr (file_error (''Read denied: '' @ p @ '' is on the protected paths list.'')), w)
           else if has_binary_extension target
           then (Inr (file_error (''Cannot read binary file: '' @ p)), w)
           else if host_lexists (svc_host svc) target \<and> \<not> host_is_file (svc_host svc) target
           then (Inr (file_error ((if host_is_dir (svc_host svc) target then ''Path is a directory, not a file: ''
                                   else ''Not a regular file: '') @ p)), w)
           else (case svc_read svc target w of
                   Inl e \<Rightarrow> (case read_error_message p e of
                               Some m \<Rightarrow> (Inr (file_error m), w) | None \<Rightarrow> (Inl e, w))
                 | Inr raw \<Rightarrow> read_page svc new_id offset limit (utf8_decode raw) w)))"

section \<open>Diagnostics\<close>

definition MAX_DIAGNOSTICS :: nat where
  "MAX_DIAGNOSTICS = 20"

text \<open>\<open>shlex.quote\<close>.\<close>

definition shell_safe_char :: "char \<Rightarrow> bool" where
  "shell_safe_char c \<longleftrightarrow> ascii_digit c \<or> ascii_lower_alpha (py_lower_char c) \<and> (of_char c :: int) < 128
     \<or> c \<in> set ''_@%+=:,./-''"

definition shlex_quote :: "string \<Rightarrow> string" where
  "shlex_quote s =
     (if s = [] then [SQUOTE, SQUOTE]
      else if list_all shell_safe_char s then s
      else [SQUOTE] @ concat (map (\<lambda>c. if c = SQUOTE then [SQUOTE, DQUOTE, SQUOTE, DQUOTE, SQUOTE] else [c]) s) @ [SQUOTE])"

definition diagnostic_line :: "string \<Rightarrow> pydict \<Rightarrow> string py" where
  "diagnostic_line p item =
     (let location = dict_get item ''location'';
          code = dict_get item ''code'';
          prefix = (if truthy code then py_str code @ '' '' else []);
          line = (\<lambda>row. rstrip_chars py_isspace
            (p @ '':'' @ py_str row @ '': '' @ prefix @ py_str (dict_get_default item ''message'' (PyStr []))))
      in if \<not> truthy location then Inr (line (PyStr ''?''))
         else (case location of
                 PyDict d \<Rightarrow> Inr (line (dict_get_default d ''row'' (PyStr ''?'')))
               | _ \<Rightarrow> Inl (AttributeError ''get'')))"

fun diagnostic_lines :: "string \<Rightarrow> pyval list \<Rightarrow> string list py" where
  "diagnostic_lines p [] = Inr []"
| "diagnostic_lines p (item # items) =
     (case item of
        PyDict d \<Rightarrow> py_bind (diagnostic_line p d) (\<lambda>l. py_bind (diagnostic_lines p items) (\<lambda>ls. Inr (l # ls)))
      | _ \<Rightarrow> diagnostic_lines p items)"

definition post_edit_diagnostics :: "services \<Rightarrow> string \<Rightarrow> string option py" where
  "post_edit_diagnostics svc p =
     (case svc_execute svc (''ruff check --output-format=json --force-exclude '' @ shlex_quote p) of
        Inl _ \<Rightarrow> Inr None
      | Inr result \<Rightarrow>
          (let stdout = py_strip (exec_stdout result)
           in if stdout = [] then Inr None
              else case json_loads stdout of
                Some (PyList findings) \<Rightarrow>
                  (if findings = [] then Inr None
                   else py_bind (diagnostic_lines p (take MAX_DIAGNOSTICS findings)) (\<lambda>lines.
                     if lines = [] then Inr None
                     else Inr (Some (''ruff diagnostics (informational '' @ EMDASH @ '' the edit was applied):'' @ [NL]
                       @ py_join [NL] lines
                       @ (if length findings > length lines
                          then [NL] @ ''... and '' @ string_of_nat (length findings - length lines) @ '' more'' else [])))))
              | _ \<Rightarrow> Inr None))"

section \<open>Writing\<close>

text \<open>What \<open>write\<close> and \<open>edit\<close> do once the file is written: seed the window and attach diagnostics.\<close>

definition finish_write :: "services \<Rightarrow> path \<Rightarrow> pydict \<Rightarrow> file_world \<Rightarrow> pydict py \<times> file_world" where
  "finish_write svc target result w =
     (case py_bind (path_resolve (svc_host svc) (svc_root svc))
             (\<lambda>rt. maybe_seed_window (svc_host svc) (svc_on_host_fs svc) target rt (fw_state w)) of
        Inl e \<Rightarrow> (Inl e, w)
      | Inr state' \<Rightarrow>
          (let w' = w\<lparr>fw_state := state'\<rparr>
           in if endswith (path_str target) ''.py''
              then (case post_edit_diagnostics svc (path_str target) of
                      Inl e \<Rightarrow> (Inl e, w')
                    | Inr (Some d) \<Rightarrow> (Inr (dict_set result ''diagnostics'' (PyStr d)), w')
                    | Inr None \<Rightarrow> (Inr result, w'))
              else (Inr result, w')))"

definition write_then :: "services \<Rightarrow> string \<Rightarrow> path \<Rightarrow> string \<Rightarrow> pydict \<Rightarrow> file_world \<Rightarrow> pydict py \<times> file_world" where
  "write_then svc p target content result w =
     (case svc_write svc target content w of
        (Inl e, w') \<Rightarrow> (case os_error_text e of
                    Some m \<Rightarrow> (Inr (file_error (''Failed to write '' @ p @ '': '' @ m)), w')
                  | None \<Rightarrow> (Inl e, w'))
      | (Inr _, w') \<Rightarrow> finish_write svc target result w')"

definition write_file :: "services \<Rightarrow> string \<Rightarrow> string \<Rightarrow> file_world \<Rightarrow> pydict py \<times> file_world" where
  "write_file svc p content w =
     (case resolve_in_session_window svc p (fw_state w) of
        Inl e \<Rightarrow> (Inl e, w)
      | Inr (Inl err) \<Rightarrow> (Inr (file_error err), w)
      | Inr (Inr target) \<Rightarrow>
          (if is_write_denied (svc_host svc) target
           then (Inr (file_error (''Write denied: '' @ p @ '' is on the protected paths list.'')), w)
           else write_then svc p target content
                  [(''success'', PyBool True), (''path'', PyStr (path_str target))] w))"

section \<open>Editing\<close>

record resolved_edit =
  re_start :: nat
  re_end :: nat
  re_new_text :: string
  re_index :: nat

text \<open>A resolution without an error carries a text that stands in the file,
  so both projections below are defined, as the assertion of the code says.\<close>

definition edit_prefix :: "nat \<Rightarrow> string" where
  "edit_prefix i = ''edits['' @ string_of_nat i @ '']''"

definition resolve_edit :: "string \<Rightarrow> nat \<Rightarrow> pyval \<Rightarrow> string + resolved_edit" where
  "resolve_edit original i item = (case item of
       PyDict d \<Rightarrow>
         (case (dict_get d ''oldText'', dict_get d ''newText'') of
            (PyStr old_text, PyStr new_text) \<Rightarrow>
              (let r = find_replacement original old_text
               in case rep_error r of
                    Some e \<Rightarrow> Inl (edit_prefix i @ '': '' @ e)
                  | None \<Rightarrow>
                      (let s = the (rep_search r);
                           match_start = the (py_find original s)
                       in Inr \<lparr>re_start = match_start, re_end = match_start + length s, re_new_text = new_text,
                               re_index = i\<rparr>))
          | _ \<Rightarrow> Inl (edit_prefix i @ '' must have string oldText and newText''))
     | _ \<Rightarrow> Inl (edit_prefix i @ '' must be an object with oldText and newText''))"

fun resolve_each :: "string \<Rightarrow> nat \<Rightarrow> pyval list \<Rightarrow> string + resolved_edit list" where
  "resolve_each original i [] = Inr []"
| "resolve_each original i (item # items) =
     py_bind (resolve_edit original i item) (\<lambda>r.
     py_bind (resolve_each original (i + 1) items) (\<lambda>rs. Inr (r # rs)))"

fun first_overlap :: "resolved_edit list \<Rightarrow> (resolved_edit \<times> resolved_edit) option" where
  "first_overlap (a # b # rs) = (if re_start b < re_end a then Some (a, b) else first_overlap (b # rs))"
| "first_overlap _ = None"

definition resolve_edits :: "string \<Rightarrow> pyval list \<Rightarrow> string + resolved_edit list" where
  "resolve_edits original edits =
     py_bind (resolve_each original 0 edits) (\<lambda>rs.
       let resolved = sort_key re_start rs
       in case first_overlap resolved of
            Some (a, b) \<Rightarrow> Inl (edit_prefix (re_index a) @ '' and '' @ edit_prefix (re_index b)
              @ '' target overlapping or adjacent regions: merge them into one edit'')
          | None \<Rightarrow> Inr resolved)"

fun apply_from :: "string \<Rightarrow> nat \<Rightarrow> resolved_edit list \<Rightarrow> string" where
  "apply_from original cursor [] = drop cursor original"
| "apply_from original cursor (r # rs) =
     take (re_start r - cursor) (drop cursor original) @ re_new_text r @ apply_from original (re_end r) rs"

definition apply_resolved_edits :: "string \<Rightarrow> resolved_edit list \<Rightarrow> string" where
  "apply_resolved_edits original resolved = apply_from original 0 resolved"

definition edit :: "services \<Rightarrow> string \<Rightarrow> pyval list \<Rightarrow> file_world \<Rightarrow> pydict py \<times> file_world" where
  "edit svc p edits w =
     (case resolve_in_session_window svc p (fw_state w) of
        Inl e \<Rightarrow> (Inl e, w)
      | Inr (Inl err) \<Rightarrow> (Inr (file_error err), w)
      | Inr (Inr target) \<Rightarrow>
          (if is_write_denied (svc_host svc) target
           then (Inr (file_error (''Write denied: '' @ p @ '' is on the protected paths list.'')), w)
           else if edits = []
           then (Inr (file_error ''edits must be a non-empty list of {oldText, newText}.''), w)
           else (case svc_read svc target w of
                   Inl e \<Rightarrow> (case read_error_message p e of
                               Some m \<Rightarrow> (Inr (file_error m), w) | None \<Rightarrow> (Inl e, w))
                 | Inr raw \<Rightarrow>
                     (case resolve_edits (utf8_decode raw) edits of
                        Inl err \<Rightarrow> (Inr (file_error (err @ '' (file: '' @ p @ '')'')), w)
                      | Inr resolved \<Rightarrow>
                          write_then svc p target (apply_resolved_edits (utf8_decode raw) resolved)
                            [(''success'', PyBool True), (''path'', PyStr (path_str target)),
                             (''replacements'', PyInt (int (length resolved)))] w))))"

section \<open>Spans\<close>

lemma py_find_contains: "contains s p \<Longrightarrow> \<exists>n. py_find s p = Some n"
  by (induction s) auto

lemma py_find_Some: "py_find s p = Some n \<Longrightarrow> n + length p \<le> length s \<and> take (length p) (drop n s) = p"
proof (induction s arbitrary: n)
  case (Cons c s)
  then show ?case by (cases n) (auto simp: startswith_def split: if_splits dest: arg_cong [of _ _ length])
qed (auto split: if_splits)

lemma find_replacement_located:
  assumes "rep_error (find_replacement original old) = None"
  obtains s n where "rep_search (find_replacement original old) = Some s" "py_find original s = Some n"
    "n + length s \<le> length original" "take (length s) (drop n original) = s"
proof -
  obtain s where s: "rep_search (find_replacement original old) = Some s"
    using assms find_with_wf(1) [of REPLACERS original old] by (auto simp: find_replacement_def)
  then have "contains original s" using find_with_search [of REPLACERS original old s] by (simp add: find_replacement_def)
  then obtain n where n: "py_find original s = Some n" using py_find_contains by blast
  with py_find_Some [OF n] s that show ?thesis by blast
qed

text \<open>What a resolved edit stands for.\<close>

definition edit_item :: "string \<Rightarrow> pyval \<Rightarrow> resolved_edit \<Rightarrow> bool" where
  "edit_item original item r \<longleftrightarrow>
     (\<exists>d old. item = PyDict d \<and> dict_get d ''oldText'' = PyStr old \<and>
        dict_get d ''newText'' = PyStr (re_new_text r) \<and> re_start r \<le> re_end r \<and> re_end r \<le> length original \<and>
        rep_search (find_replacement original old) = Some (take (re_end r - re_start r) (drop (re_start r) original)))"

lemma resolve_edit_item:
  assumes "resolve_edit original i item = Inr r"
  shows "re_index r = i \<and> edit_item original item r"
proof -
  obtain d old new where d: "item = PyDict d" "dict_get d ''oldText'' = PyStr old" "dict_get d ''newText'' = PyStr new"
    and e: "rep_error (find_replacement original old) = None"
    and r: "r = (let s = the (rep_search (find_replacement original old)); n = the (py_find original s)
                 in \<lparr>re_start = n, re_end = n + length s, re_new_text = new, re_index = i\<rparr>)"
    using assms by (auto simp: resolve_edit_def Let_def split: pyval.splits option.splits)
  from find_replacement_located [OF e] obtain s n where "rep_search (find_replacement original old) = Some s"
    "py_find original s = Some n" "n + length s \<le> length original" "take (length s) (drop n original) = s" .
  with d r show ?thesis by (simp add: edit_item_def)
qed

lemma resolve_each_items:
  "resolve_each original i items = Inr rs \<Longrightarrow>
     length rs = length items \<and> (\<forall>k < length items. re_index (rs ! k) = i + k \<and> edit_item original (items ! k) (rs ! k))"
proof (induction items arbitrary: i rs)
  case (Cons item items)
  then obtain r rs' where r: "resolve_edit original i item = Inr r"
    and rs': "resolve_each original (i + 1) items = Inr rs'" and rs: "rs = r # rs'"
    by (auto simp: py_bind_Inr_iff)
  show ?case using resolve_edit_item [OF r] Cons.IH [OF rs'] rs
    by (auto simp: nth_Cons split: nat.splits)
qed simp

lemma resolve_edits_sound:
  assumes "resolve_edits original edits = Inr rs"
  shows "length rs = length edits" "sorted (map re_start rs)" "first_overlap rs = None"
    "\<And>r. r \<in> set rs \<Longrightarrow> re_index r < length edits \<and> edit_item original (edits ! re_index r) r"
proof -
  obtain rs0 where rs0: "resolve_each original 0 edits = Inr rs0" and rs: "rs = sort_key re_start rs0"
    and o': "first_overlap rs = None"
    using assms by (auto simp: resolve_edits_def Let_def py_bind_Inr_iff split: option.splits) (metis option.exhaust prod.exhaust)
  note items = resolve_each_items [OF rs0]
  show "re_index r < length edits \<and> edit_item original (edits ! re_index r) r" if "r \<in> set rs" for r
  proof -
    from that obtain k where "k < length rs0" "rs0 ! k = r" using rs by (auto simp: in_set_conv_nth)
    then show ?thesis using items by auto
  qed
  show "length rs = length edits" using items rs by simp
  show "sorted (map re_start rs)" using rs by simp
  show "first_overlap rs = None" by (rule o')
qed

text \<open>Spans in order, one after the other, between two bounds.\<close>

fun spans_between :: "nat \<Rightarrow> nat \<Rightarrow> resolved_edit list \<Rightarrow> bool" where
  "spans_between lo hi [] \<longleftrightarrow> lo \<le> hi"
| "spans_between lo hi (r # rs) \<longleftrightarrow> lo \<le> re_start r \<and> re_start r \<le> re_end r \<and> re_end r \<le> hi \<and> spans_between (re_end r) hi rs"

lemma spans_between_start:
  "sorted (map re_start rs) \<Longrightarrow> first_overlap rs = None \<Longrightarrow> (\<And>r. r \<in> set rs \<Longrightarrow> re_start r \<le> re_end r \<and> re_end r \<le> hi) \<Longrightarrow>
   (\<And>r. r \<in> set rs \<Longrightarrow> lo \<le> re_start r) \<Longrightarrow> lo \<le> hi \<Longrightarrow> spans_between lo hi rs"
proof (induction rs arbitrary: lo)
  case (Cons r rs)
  have "re_end r \<le> re_start q" if "q \<in> set rs" for q
  proof (cases rs)
    case (Cons b bs)
    then have "re_end r \<le> re_start b" using Cons.prems(2) \<open>first_overlap (r # rs) = None\<close> by (auto split: if_splits)
    moreover have "re_start b \<le> re_start q" using \<open>sorted (map re_start (r # rs))\<close> that Cons by auto
    ultimately show ?thesis by simp
  qed (use that in simp)
  moreover have "first_overlap rs = None" using Cons.prems(2) by (cases rs) (auto split: if_splits)
  ultimately have "spans_between (re_end r) hi rs" using Cons.prems by (intro Cons.IH) auto
  then show ?case using Cons.prems by auto
qed simp

definition splice_edit :: "resolved_edit \<Rightarrow> string \<Rightarrow> string" where
  "splice_edit r s = take (re_start r) s @ re_new_text r @ drop (re_end r) s"

lemma splice_right_of:
  "spans_between lo (length original) rs \<Longrightarrow> take lo (foldr splice_edit rs original) = take lo original"
proof (induction rs arbitrary: lo)
  case (Cons r rs)
  let ?t = "foldr splice_edit rs original"
  have "take (re_end r) ?t = take (re_end r) original" using Cons by auto
  then have "take (re_start r) ?t = take (re_start r) original"
    using Cons.prems by (metis min.absorb1 spans_between.simps(2) take_take)
  then have "splice_edit r ?t = take (re_start r) original @ re_new_text r @ drop (re_end r) ?t"
    by (simp add: splice_edit_def)
  then show ?case using Cons.prems by (simp add: min_def)
qed simp

lemma apply_from_splice:
  "spans_between lo (length original) rs \<Longrightarrow> apply_from original lo rs = drop lo (foldr splice_edit rs original)"
proof (induction rs arbitrary: lo)
  case (Cons r rs)
  let ?t = "foldr splice_edit rs original"
  have s: "spans_between (re_end r) (length original) rs" and le: "lo \<le> re_start r" "re_start r \<le> re_end r" "re_end r \<le> length original"
    using Cons.prems by auto
  have "take (re_start r) ?t = take (re_start r) original"
    using splice_right_of [OF s] le by (metis min.absorb1 take_take)
  then have "drop lo (splice_edit r ?t) = drop lo (take (re_start r) original) @ re_new_text r @ drop (re_end r) ?t"
    using le by (auto simp: splice_edit_def)
  then show ?case using Cons.IH [OF s] by (simp add: drop_take)
qed simp

lemma resolve_edits_spans:
  assumes "resolve_edits original edits = Inr rs"
  shows "spans_between 0 (length original) rs"
  using resolve_edits_sound [OF assms] by (intro spans_between_start) (auto simp: edit_item_def)

section \<open>Effects\<close>

lemma finish_write_files: "fw_files (snd (finish_write svc target result w)) = fw_files w"
  by (auto simp: finish_write_def Let_def split: sum.splits option.splits)

lemma finish_write_success:
  "finish_write svc target result w = (Inr r, w') \<Longrightarrow> dict_get r ''success'' = dict_get result ''success''"
  by (auto simp: finish_write_def Let_def split: sum.splits option.splits if_splits)

text \<open>An answer that is no success, over an unchanged world; a write that stored the text; and a
  write that failed, leaving the session and every other file as they were.\<close>

definition no_success :: "pydict py \<Rightarrow> bool" where
  "no_success r \<longleftrightarrow> (case r of Inl _ \<Rightarrow> True | Inr d \<Rightarrow> dict_get d ''success'' = PyBool False)"

definition unchanged_failure :: "pydict py \<times> file_world \<Rightarrow> file_world \<Rightarrow> bool" where
  "unchanged_failure out w \<longleftrightarrow>
     snd out = w \<and> no_success (fst out)"

definition failed_write :: "services \<Rightarrow> path \<Rightarrow> string \<Rightarrow> pydict py \<times> file_world \<Rightarrow> file_world \<Rightarrow> bool" where
  "failed_write svc target text out w \<longleftrightarrow>
     (\<exists>e left. svc_write_error svc target text = Some (e, left) \<and> snd out = failed_write_left target left w) \<and>
     no_success (fst out)"

definition stored_text :: "services \<Rightarrow> path \<Rightarrow> string \<Rightarrow> pydict py \<times> file_world \<Rightarrow> file_world \<Rightarrow> bool" where
  "stored_text svc target text out w \<longleftrightarrow>
     fw_files (snd out) = (fw_files w)(target \<mapsto> svc_store svc text) \<and>
     (case fst out of Inl _ \<Rightarrow> True | Inr r \<Rightarrow> dict_get r ''success'' = PyBool True)"

lemma write_then_outcome:
  assumes "dict_get result ''success'' = PyBool True"
  shows "failed_write svc target text (write_then svc p target text result w) w \<or>
     svc_write_error svc target text = None \<and> stored_text svc target text (write_then svc p target text result w) w"
proof (cases "svc_write_error svc target text")
  case (Some el)
  then show ?thesis
    by (cases el) (auto simp: write_then_def svc_write_def failed_write_def no_success_def file_error_def
        split: option.splits)
next
  case None
  define w1 where "w1 = w\<lparr>fw_files := (fw_files w)(target \<mapsto> svc_store svc text)\<rparr>"
  then have w1: "fw_files w1 = (fw_files w)(target \<mapsto> svc_store svc text)" by simp
  have out: "write_then svc p target text result w = finish_write svc target result w1"
    using None by (simp add: write_then_def svc_write_def w1_def)
  obtain r w2 where f: "finish_write svc target result w1 = (r, w2)" by fastforce
  then have "fw_files w2 = fw_files w1" using finish_write_files [of svc target result w1] by simp
  then show ?thesis using f w1 assms finish_write_success [of svc target result w1] out None
    by (cases r) (auto simp: stored_text_def)
qed

lemma target_inside:
  assumes "resolve_in_session_window svc p state = Inr (Inr target)"
  shows "is_relative_to target (realpath (svc_host svc) (realpath (svc_host svc) (svc_root svc)))"
  using assms resolve_in_window_inside
  by (auto simp: resolve_in_session_window_def path_resolve_def py_bind_Inr_iff split: option.splits)

section \<open>Properties\<close>

text \<open>C14: A batch of edits is applied as if its items were applied one by one from the end of the
  file to its start: when the batch resolves, the spans are in order, do not overlap and lie
  in the text, every item of the batch is resolved against the original text to the span of
  the text its anchor stands for, and writing all pieces in one pass gives what splicing them
  in singly gives.\<close>

theorem edit_batch_applies_like_single_edits:
  assumes "resolve_edits original edits = Inr rs"
  shows "apply_resolved_edits original rs = foldr splice_edit rs original \<and>
    spans_between 0 (length original) rs \<and> length rs = length edits \<and>
    list_all (\<lambda>r. re_index r < length edits \<and> edit_item original (edits ! re_index r) r) rs"
  using apply_from_splice [OF resolve_edits_spans [OF assms]] resolve_edits_spans [OF assms] resolve_edits_sound [OF assms]
  by (simp add: apply_resolved_edits_def list_all_iff)

definition one_edit :: "string \<Rightarrow> string \<Rightarrow> pyval" where
  "one_edit old new = PyDict [(''oldText'', PyStr old), (''newText'', PyStr new)]"

theorem edit_batch_applies_like_single_edits_witness:
  "\<exists>rs. resolve_edits ''x = 1; y = 2'' [one_edit ''y = 2'' ''y = 3'', one_edit ''x = 1'' ''xx = 1''] = Inr rs \<and>
     apply_resolved_edits ''x = 1; y = 2'' rs = ''xx = 1; y = 3'' \<and>
     foldr splice_edit rs ''x = 1; y = 2'' = ''xx = 1; y = 3''"
proof -
  let ?rs = "[\<lparr>re_start = 0, re_end = 5, re_new_text = ''xx = 1'', re_index = 1\<rparr>,
      \<lparr>re_start = 7, re_end = 12, re_new_text = ''y = 3'', re_index = 0\<rparr>]"
  have "resolve_edits ''x = 1; y = 2'' [one_edit ''y = 2'' ''y = 3'', one_edit ''x = 1'' ''xx = 1''] = Inr ?rs"
    by code_simp
  from edit_batch_applies_like_single_edits [OF this] this show ?thesis
    by (intro exI [of _ ?rs]) (simp add: apply_resolved_edits_def)
qed

text \<open>C15: An edit stays in the workspace and never applies part of a batch: either the tool leaves
  the files and the session as they were and does not report success, or the path it resolved
  lies under the workspace root, is not protected and held the text the whole batch resolved
  against, and the environment was asked to write that text with every item of the batch applied.
  If that write succeeds the file holds the new text; if it fails, no success is reported and the
  file holds what the failed write left. Every other file is untouched.\<close>

theorem edit_is_atomic_and_contained:
  "unchanged_failure (edit svc p edits w) w \<or>
   (\<exists>target raw rs.
      is_relative_to target (realpath (svc_host svc) (realpath (svc_host svc) (svc_root svc))) \<and>
      \<not> is_write_denied (svc_host svc) target \<and> fw_files w target = Some raw \<and>
      resolve_edits (utf8_decode raw) edits = Inr rs \<and> length rs = length edits \<and>
      (failed_write svc target (foldr splice_edit rs (utf8_decode raw)) (edit svc p edits w) w \<or>
       svc_write_error svc target (foldr splice_edit rs (utf8_decode raw)) = None \<and>
       stored_text svc target (foldr splice_edit rs (utf8_decode raw)) (edit svc p edits w) w))"
proof (cases "resolve_in_session_window svc p (fw_state w)")
  case (Inr res)
  show ?thesis
  proof (cases "\<exists>target raw rs. res = Inr target \<and> \<not> is_write_denied (svc_host svc) target \<and> edits \<noteq> [] \<and>
      svc_read svc target w = Inr raw \<and> resolve_edits (utf8_decode raw) edits = Inr rs")
    case True
    then obtain target raw rs where t: "res = Inr target" "\<not> is_write_denied (svc_host svc) target" "edits \<noteq> []"
      "svc_read svc target w = Inr raw" "resolve_edits (utf8_decode raw) edits = Inr rs" by blast
    let ?text = "foldr splice_edit rs (utf8_decode raw)"
    let ?ok = "[(''success'', PyBool True), (''path'', PyStr (path_str target)), (''replacements'', PyInt (int (length rs)))]"
    have e: "edit svc p edits w = write_then svc p target ?text ?ok w"
      using Inr t apply_from_splice [OF resolve_edits_spans [OF t(5)]]
      by (simp add: edit_def apply_resolved_edits_def)
    have "fw_files w target = Some raw" using t(4) by (auto simp: svc_read_def split: option.splits)
    moreover have "is_relative_to target (realpath (svc_host svc) (realpath (svc_host svc) (svc_root svc)))"
      using Inr t(1) target_inside by blast
    ultimately show ?thesis
      using write_then_outcome [of ?ok svc target ?text p w] t(2,5) resolve_edits_sound(1) [OF t(5)] unfolding e
      by (auto simp del: not_None_eq)
  next
    case False
    then have "unchanged_failure (edit svc p edits w) w"
      using Inr by (auto simp: edit_def unchanged_failure_def no_success_def file_error_def split: sum.splits option.splits)
    then show ?thesis by blast
  qed
qed (simp add: edit_def unchanged_failure_def no_success_def)

end
