(* ===== verification/Output_Pruning.thy ===== *)
theory Output_Pruning
  imports Py_Json Tool_Names
begin

text \<open>
  Pruning of old tool results (\<open>context/tool_output_pruning.py\<close>). The loop over the reversed events
  is a recursion that scans the newer events first; it collects the positions it will clear,
  and the events are rewritten only when the total is worth it. An event keeps only what the
  code reads of it: its parts, with their text, call and response.
\<close>

section \<open>Events\<close>

record tool_response =
  fr_name :: "string option"
  fr_response :: pyval

record part =
  part_text :: "string option"
  function_call :: bool
  function_response :: "tool_response option"

type_synonym event = "part list option"

record prune_result =
  pruned_count :: nat
  reclaimed_tokens :: int

record prune_config =
  protect_recent_turns :: int
  protect_token_budget :: int
  min_part_tokens :: int
  min_reclaim_tokens :: int

definition default_prune_config :: prune_config where
  "default_prune_config = \<lparr>protect_recent_turns = 3, protect_token_budget = 40000, min_part_tokens = 500,
     min_reclaim_tokens = 20000\<rparr>"

definition PRUNE_MARKER :: string where
  "PRUNE_MARKER = ''[output pruned to reclaim context '' @ EMDASH @ '' re-run the tool if needed]''"

definition PROTECTED_TOOL_SUBSTRINGS :: "string list" where
  "PROTECTED_TOOL_SUBSTRINGS = [''skill'', SUBAGENT, CLARIFY]"

definition event_parts :: "event \<Rightarrow> part list" where
  "event_parts e = (case e of None \<Rightarrow> [] | Some ps \<Rightarrow> ps)"

definition estimate_tokens :: "pyval \<Rightarrow> int" where
  "estimate_tokens v = int (length (py_str v)) div 4"

definition is_protected_tool :: "string option \<Rightarrow> bool" where
  "is_protected_tool name = (case name of
       None \<Rightarrow> False
     | Some n \<Rightarrow> n \<noteq> [] \<and> list_ex (contains (py_lower n)) PROTECTED_TOOL_SUBSTRINGS)"

definition is_user_turn :: "event \<Rightarrow> bool" where
  "is_user_turn e \<longleftrightarrow>
     list_ex (\<lambda>p. part_text p \<noteq> None \<and> part_text p \<noteq> Some []) (event_parts e) \<and>
     \<not> list_ex (\<lambda>p. function_response p \<noteq> None \<or> function_call p) (event_parts e)"

definition already_pruned :: "pyval \<Rightarrow> bool" where
  "already_pruned r = (case r of PyDict d \<Rightarrow> dict_get d ''pruned'' = PyStr PRUNE_MARKER | _ \<Rightarrow> False)"

definition overflow_paths :: "pyval \<Rightarrow> pydict" where
  "overflow_paths r = (case r of
       PyDict d \<Rightarrow> filter (\<lambda>(k, v). endswith k ''overflow_path'' \<and> as_str v \<noteq> None) d
     | _ \<Rightarrow> [])"

section \<open>The scan\<close>

text \<open>The parts of one event: the running total of protected tokens and the candidates found.\<close>

fun scan_parts :: "prune_config \<Rightarrow> int \<Rightarrow> nat \<Rightarrow> nat \<Rightarrow> int \<Rightarrow> part list \<Rightarrow> int \<times> (nat \<times> nat \<times> int) list" where
  "scan_parts cfg turns i idx protected [] = (protected, [])"
| "scan_parts cfg turns i idx protected (p # ps) =
     (case function_response p of
        None \<Rightarrow> scan_parts cfg turns i (idx + 1) protected ps
      | Some fr \<Rightarrow>
          (let tokens = estimate_tokens (fr_response fr)
           in if already_pruned (fr_response fr) then scan_parts cfg turns i (idx + 1) protected ps
              else if turns \<le> protect_recent_turns cfg \<or> protected < protect_token_budget cfg
                then scan_parts cfg turns i (idx + 1) (protected + tokens) ps
              else if is_protected_tool (fr_name fr) \<or> tokens < min_part_tokens cfg
                then scan_parts cfg turns i (idx + 1) protected ps
              else (let (protected', cs) = scan_parts cfg turns i (idx + 1) protected ps
                    in (protected', (i, idx, tokens) # cs))))"

fun scan_events :: "prune_config \<Rightarrow> nat \<Rightarrow> event list \<Rightarrow> int \<times> int \<times> (nat \<times> nat \<times> int) list" where
  "scan_events cfg i [] = (0, 0, [])"
| "scan_events cfg i (e # es) =
     (let (turns, protected, cs) = scan_events cfg (i + 1) es;
          turns' = turns + (if is_user_turn e then 1 else 0);
          (protected', cs') = scan_parts cfg turns' i 0 protected (event_parts e)
      in (turns', protected', cs @ cs'))"

definition candidates :: "prune_config \<Rightarrow> event list \<Rightarrow> (nat \<times> nat \<times> int) list" where
  "candidates cfg events = snd (snd (scan_events cfg 0 events))"

section \<open>The rewrite\<close>

definition clear_response :: "part \<Rightarrow> part" where
  "clear_response p = p\<lparr>function_response :=
     map_option (\<lambda>fr. fr\<lparr>fr_response := PyDict (fold (\<lambda>(k, v) d. dict_set d k v) (overflow_paths (fr_response fr))
       [(''pruned'', PyStr PRUNE_MARKER)])\<rparr>) (function_response p)\<rparr>"

definition clear_part :: "nat \<Rightarrow> nat \<Rightarrow> event list \<Rightarrow> event list" where
  "clear_part i idx events = events[i := map_option (\<lambda>ps. ps[idx := clear_response (ps ! idx)]) (events ! i)]"

definition prune_tool_outputs :: "prune_config \<Rightarrow> event list \<Rightarrow> prune_result \<times> event list" where
  "prune_tool_outputs cfg events =
     (let cs = candidates cfg events;
          reclaimable = sum_list (map (\<lambda>(_, _, t). t) cs)
      in if reclaimable < min_reclaim_tokens cfg then (\<lparr>pruned_count = 0, reclaimed_tokens = 0\<rparr>, events)
         else (\<lparr>pruned_count = length cs, reclaimed_tokens = reclaimable\<rparr>,
               fold (\<lambda>(i, idx, _). clear_part i idx) cs events))"

definition prune_tool_outputs_callback :: "string option \<Rightarrow> event list option \<Rightarrow> event list option" where
  "prune_tool_outputs_callback enabled events =
     (if enabled = Some ''0'' then events
      else map_option (\<lambda>es. if es = [] then es else snd (prune_tool_outputs default_prune_config es)) events)"

section \<open>What the scan collects\<close>

definition slot :: "event list \<Rightarrow> nat \<Rightarrow> nat \<Rightarrow> part" where
  "slot events i idx = event_parts (events ! i) ! idx"

definition slot_in_range :: "event list \<Rightarrow> nat \<Rightarrow> nat \<Rightarrow> bool" where
  "slot_in_range events i idx \<longleftrightarrow> i < length events \<and> idx < length (event_parts (events ! i))"

definition user_turns :: "event list \<Rightarrow> int" where
  "user_turns es = int (length (filter is_user_turn es))"

definition prunable :: "prune_config \<Rightarrow> int \<Rightarrow> part \<Rightarrow> bool" where
  "prunable cfg turns p = (case function_response p of
       None \<Rightarrow> False
     | Some fr \<Rightarrow> \<not> already_pruned (fr_response fr) \<and> protect_recent_turns cfg < turns \<and>
         \<not> is_protected_tool (fr_name fr) \<and> min_part_tokens cfg \<le> estimate_tokens (fr_response fr))"

lemma scan_parts_Cons:
  "\<exists>protected' pre. snd (scan_parts cfg turns i idx protected (p # ps)) =
       pre @ snd (scan_parts cfg turns i (idx + 1) protected' ps) \<and>
     (pre = [] \<or> prunable cfg turns p \<and> (\<exists>t. pre = [(i, idx, t)]))"
proof (cases "function_response p")
  case (Some fr)
  let ?t = "estimate_tokens (fr_response fr)"
  consider "already_pruned (fr_response fr)"
    | "\<not> already_pruned (fr_response fr)" "turns \<le> protect_recent_turns cfg \<or> protected < protect_token_budget cfg"
    | "\<not> already_pruned (fr_response fr)" "\<not> (turns \<le> protect_recent_turns cfg \<or> protected < protect_token_budget cfg)"
      "is_protected_tool (fr_name fr) \<or> ?t < min_part_tokens cfg"
    | "prunable cfg turns p" "\<not> (turns \<le> protect_recent_turns cfg \<or> protected < protect_token_budget cfg)"
    using Some by (simp add: prunable_def) (metis not_le)
  then show ?thesis
  proof cases
    case 4
    then have "snd (scan_parts cfg turns i idx protected (p # ps)) =
        [(i, idx, ?t)] @ snd (scan_parts cfg turns i (idx + 1) protected ps)"
      using Some by (auto simp: prunable_def Let_def split: prod.splits)
    then show ?thesis using 4 by blast
  qed (auto simp: Some Let_def intro: exI [of _ protected] exI [of _ "protected + ?t"])
qed auto

lemma scan_parts_sound:
  "(i', k, t) \<in> set (snd (scan_parts cfg turns i idx protected ps)) \<Longrightarrow>
     i' = i \<and> idx \<le> k \<and> k - idx < length ps \<and> prunable cfg turns (ps ! (k - idx))"
proof (induction ps arbitrary: idx protected)
  case (Cons p ps)
  obtain protected' pre where s: "snd (scan_parts cfg turns i idx protected (p # ps)) =
      pre @ snd (scan_parts cfg turns i (idx + 1) protected' ps)"
    and pre: "pre = [] \<or> prunable cfg turns p \<and> (\<exists>t. pre = [(i, idx, t)])"
    using scan_parts_Cons by blast
  show ?case
  proof (cases "(i', k, t) \<in> set pre")
    case False
    then have "(i', k, t) \<in> set (snd (scan_parts cfg turns i (idx + 1) protected' ps))" using Cons.prems s by simp
    from Cons.IH [OF this] show ?thesis by (auto simp: nth_Cons' Suc_diff_le)
  qed (use pre in auto)
qed simp

definition position :: "nat \<times> nat \<times> int \<Rightarrow> nat \<times> nat" where
  "position c = (fst c, fst (snd c))"

lemma position_simp [simp]: "position (i, k, t) = (i, k)"
  by (simp add: position_def)

lemma scan_parts_distinct: "distinct (map position (snd (scan_parts cfg turns i idx protected ps)))"
proof (induction ps arbitrary: idx protected)
  case (Cons p ps)
  obtain protected' pre where s: "snd (scan_parts cfg turns i idx protected (p # ps)) =
      pre @ snd (scan_parts cfg turns i (idx + 1) protected' ps)"
    and pre: "pre = [] \<or> prunable cfg turns p \<and> (\<exists>t. pre = [(i, idx, t)])"
    using scan_parts_Cons by blast
  have "(i, idx) \<notin> position ` set (snd (scan_parts cfg turns i (idx + 1) protected' ps))"
    using scan_parts_sound [of i idx _ cfg turns i "idx + 1" protected' ps] by (fastforce simp: position_def)
  with Cons.IH [of "idx + 1" protected'] show ?case using pre unfolding s by (elim disjE conjE exE) simp_all
qed simp

lemma scan_events_Cons:
  "scan_events cfg i (e # es) =
     (user_turns (e # es),
      fst (scan_parts cfg (user_turns (e # es)) i 0 (fst (snd (scan_events cfg (i + 1) es))) (event_parts e)),
      snd (snd (scan_events cfg (i + 1) es)) @
      snd (scan_parts cfg (user_turns (e # es)) i 0 (fst (snd (scan_events cfg (i + 1) es))) (event_parts e)))"
proof -
  have t: "fst (scan_events cfg i es) = user_turns es" for i
    by (induction es arbitrary: i) (simp_all add: user_turns_def Let_def split_beta)
  have "user_turns es + (if is_user_turn e then 1 else 0) = user_turns (e # es)" by (simp add: user_turns_def)
  then show ?thesis by (simp add: Let_def split_beta t)
qed

declare scan_events.simps(2) [simp del]

lemma scan_events_sound:
  "(i', k, t) \<in> set (snd (snd (scan_events cfg i es))) \<Longrightarrow>
     i \<le> i' \<and> i' - i < length es \<and> k < length (event_parts (es ! (i' - i))) \<and>
     prunable cfg (user_turns (drop (i' - i) es)) (event_parts (es ! (i' - i)) ! k)"
proof (induction es arbitrary: i)
  case (Cons e es)
  then consider "(i', k, t) \<in> set (snd (snd (scan_events cfg (i + 1) es)))"
    | protected where "(i', k, t) \<in> set (snd (scan_parts cfg (user_turns (e # es)) i 0 protected (event_parts e)))"
    by (auto simp: scan_events_Cons)
  then show ?case
  proof cases
    case 1
    note ih = Cons.IH [OF this]
    then obtain m where "i' = Suc (i + m)" by (metis Suc_eq_plus1 add_Suc le_Suc_ex)
    with ih show ?thesis by simp
  next
    case 2
    from scan_parts_sound [OF this] show ?thesis by simp
  qed
qed simp

lemma scan_events_distinct: "distinct (map position (snd (snd (scan_events cfg i es))))"
proof (induction es arbitrary: i)
  case (Cons e es)
  have "position ` set (snd (snd (scan_events cfg (i + 1) es))) \<inter>
      position ` set (snd (scan_parts cfg turns i 0 protected ps)) = {}" for turns protected ps
    using scan_events_sound [of _ _ _ cfg "i + 1" es] scan_parts_sound [of _ _ _ cfg turns i 0 protected ps]
    by (fastforce simp: position_def)
  then show ?case using Cons.IH [of "i + 1"] scan_parts_distinct by (simp add: scan_events_Cons)
qed simp

section \<open>What the rewrite changes\<close>

lemma clear_part_slot:
  assumes "slot_in_range events i idx" and "slot_in_range events j k"
  shows "slot_in_range (clear_part j k events) i idx"
    "slot (clear_part j k events) i idx = (if i = j \<and> idx = k then clear_response (slot events i idx) else slot events i idx)"
  using assms
  by (auto simp: slot_in_range_def slot_def clear_part_def event_parts_def nth_list_update split: option.splits)

lemma fold_clear_slot:
  assumes "distinct (map position cs)" and "\<And>c. c \<in> set cs \<Longrightarrow> slot_in_range events (fst c) (fst (snd c))" and "slot_in_range events i idx"
  shows "slot_in_range (fold (\<lambda>(i, idx, _). clear_part i idx) cs events) i idx \<and>
    slot (fold (\<lambda>(i, idx, _). clear_part i idx) cs events) i idx =
      (if (i, idx) \<in> position ` set cs then clear_response (slot events i idx) else slot events i idx)"
  using assms
proof (induction cs arbitrary: events)
  case (Cons c cs)
  obtain j k t where c: "c = (j, k, t)" by (cases c)
  have jk: "slot_in_range events j k" using Cons.prems(2) [of c] c by simp
  have r: "slot_in_range (clear_part j k events) (fst d) (fst (snd d))" if "d \<in> set cs" for d
    using clear_part_slot(1) [OF Cons.prems(2) jk] that by simp
  have i: "slot_in_range (clear_part j k events) i idx" using clear_part_slot(1) [OF Cons.prems(3) jk] .
  have d: "distinct (map position cs)" "(j, k) \<notin> position ` set cs"
    using Cons.prems(1) c by simp_all
  show ?case
    using Cons.IH [OF d(1) r i] clear_part_slot(2) [OF Cons.prems(3) jk] d(2) c by auto
qed simp

lemma fold_clear_length: "length (fold (\<lambda>(i, idx, _). clear_part i idx) cs events) = length events"
  by (induction cs arbitrary: events) (auto simp: clear_part_def)

lemma candidates_sound:
  assumes "(i, k, t) \<in> set (candidates cfg events)"
  shows "slot_in_range events i k \<and> prunable cfg (user_turns (drop i events)) (slot events i k)"
  using scan_events_sound [of i k t cfg 0 events] assms by (simp add: candidates_def slot_in_range_def slot_def)

section \<open>Properties\<close>

text \<open>Pruning spares what it must: it never drops or reorders anything, and a part of an event
  either stays as it is or is a tool response that was not pruned before, of a tool that is not
  protected, large enough, and older than the protected number of user turns; then the
  response is replaced by the marker and its overflow paths, and the pass reclaims at least
  the configured total.\<close>

theorem pruning_spares_recent_and_protected:
  assumes "prune_tool_outputs cfg events = (res, events')" and "slot_in_range events i idx"
  shows "length events' = length events \<and> slot_in_range events' i idx \<and>
    (slot events' i idx = slot events i idx \<or>
     slot events' i idx = clear_response (slot events i idx) \<and>
     prunable cfg (user_turns (drop i events)) (slot events i idx) \<and>
     min_reclaim_tokens cfg \<le> reclaimed_tokens res)"
proof (cases "sum_list (map (\<lambda>(_, _, t). t) (candidates cfg events)) < min_reclaim_tokens cfg")
  case True
  then show ?thesis using assms by (simp add: prune_tool_outputs_def)
next
  case False
  let ?cs = "candidates cfg events"
  have e: "events' = fold (\<lambda>(i, idx, _). clear_part i idx) ?cs events" "min_reclaim_tokens cfg \<le> reclaimed_tokens res"
    using assms(1) False by (auto simp: prune_tool_outputs_def Let_def)
  have d: "distinct (map position ?cs)" by (simp add: candidates_def scan_events_distinct)
  have r: "slot_in_range events (fst c) (fst (snd c))" if "c \<in> set ?cs" for c
    using candidates_sound that by (cases c) auto
  have "prunable cfg (user_turns (drop i events)) (slot events i idx)" if "(i, idx) \<in> position ` set ?cs"
    using that candidates_sound by auto
  then show ?thesis using fold_clear_slot [OF d r assms(2)] fold_clear_length [of ?cs events] e by auto
qed

definition demo_events :: "event list" where
  "demo_events =
     [Some [\<lparr>part_text = None, function_call = False, function_response = Some \<lparr>fr_name = Some ''read'',
        fr_response = PyDict [(''content'', PyStr ''a long page'')]\<rparr>\<rparr>],
      Some [\<lparr>part_text = Some ''go on'', function_call = False, function_response = None\<rparr>]]"

definition eager_config :: prune_config where
  "eager_config = \<lparr>protect_recent_turns = 0, protect_token_budget = 0, min_part_tokens = 1, min_reclaim_tokens = 1\<rparr>"

theorem pruning_spares_recent_and_protected_witness:
  "slot (snd (prune_tool_outputs eager_config demo_events)) 0 0 = clear_response (slot demo_events 0 0) \<and>
   prunable eager_config (user_turns demo_events) (slot demo_events 0 0)"
proof -
  have r: "slot_in_range demo_events 0 0" by code_simp
  have n: "slot (snd (prune_tool_outputs eager_config demo_events)) 0 0 \<noteq> slot demo_events 0 0" by code_simp
  from pruning_spares_recent_and_protected [OF surjective_pairing r, of eager_config] n show ?thesis by simp
qed

end
