(* ===== verification/Routine_Store.thy ===== *)
theory Routine_Store
  imports Json_Roundtrip "HOL-Library.Multiset"
begin

text \<open>
  The stores of scheduled routines: the one in memory (\<open>scheduler/routine_store.py\<close>) and the one in
  PostgreSQL (\<open>scheduler/routine_postgres_store.py\<close>) with its retries
  (\<open>infrastructure/db_resilience.py\<close>). An instant is an \<open>int\<close> of microseconds. The package that
  computes cron schedules is the record \<open>cron\<close>; \<open>cron_ok\<close> is what \<open>next_cron_fire\<close> documents of it.
  A table is the list of its rows; each SQL statement of the store is a function on tables. The order the
  database gives rows with equal times is the argument \<open>arrange\<close>, and \<open>locked\<close> says which rows another
  transaction holds. What both stores promise is the locale \<open>routine_store\<close>.
\<close>

section \<open>cron.py\<close>

text \<open>\<open>croniter_next\<close> is \<open>None\<close> where the package finds no date and raises a kind of \<open>ValueError\<close>.\<close>

record cron =
  croniter_valid :: "string \<Rightarrow> bool"
  croniter_next :: "string \<Rightarrow> int \<Rightarrow> int option"

definition is_valid_cron :: "cron \<Rightarrow> string \<Rightarrow> bool" where
  "is_valid_cron cr schedule \<longleftrightarrow> schedule \<noteq> [] \<and> croniter_valid cr schedule"

definition next_cron_fire :: "cron \<Rightarrow> string \<Rightarrow> int \<Rightarrow> int py" where
  "next_cron_fire cr schedule after =
     (if \<not> is_valid_cron cr schedule then Inl (ValueError (''invalid cron schedule: '' @ py_repr_str schedule))
      else case croniter_next cr schedule after of
             None \<Rightarrow> Inl (ValueError ''failed to find next date'')
           | Some t \<Rightarrow> Inr t)"

definition cron_ok :: "cron \<Rightarrow> bool" where
  "cron_ok cr \<longleftrightarrow> (\<forall>s t n. croniter_next cr s t = Some n \<longrightarrow> t < n)"

section \<open>Rows and the store in memory\<close>

record routine_row =
  rr_id :: string
  rr_user_id :: string
  rr_app_name :: string
  rr_schedule :: string
  rr_task :: string
  rr_secrets :: "pyval list"
  rr_delivery :: string
  rr_next_fire_at :: int
  rr_created_at :: int

type_synonym routine_memory = "(string \<times> routine_row) list"

definition row_key :: "string \<Rightarrow> routine_row \<Rightarrow> string" where
  "row_key uuid row = (if rr_id row = [] then uuid else rr_id row)"

definition mem_add :: "string \<Rightarrow> routine_row \<Rightarrow> routine_memory \<Rightarrow> string \<times> routine_memory" where
  "mem_add uuid row st =
     (let rid = row_key uuid row
      in (rid, case map_of st rid of
                 None \<Rightarrow> dict_set st rid (row\<lparr>rr_id := rid\<rparr>)
               | Some existing \<Rightarrow> if rr_user_id existing = rr_user_id row then dict_set st rid (row\<lparr>rr_id := rid\<rparr>) else st))"

fun mem_claim_loop :: "cron \<Rightarrow> int \<Rightarrow> (string \<times> routine_row) list \<Rightarrow> routine_memory \<Rightarrow> routine_row list \<times> routine_memory" where
  "mem_claim_loop cr cursor [] st = ([], st)"
| "mem_claim_loop cr cursor ((rid, row) # items) st =
     (if rr_next_fire_at row \<le> cursor
      then (let st' = (case next_cron_fire cr (rr_schedule row) cursor of
                         Inl _ \<Rightarrow> dict_pop st rid
                       | Inr nxt \<Rightarrow> dict_set st rid (row\<lparr>rr_next_fire_at := nxt\<rparr>));
                (claimed, st'') = mem_claim_loop cr cursor items st'
            in (row # claimed, st''))
      else mem_claim_loop cr cursor items st)"

definition mem_claim_due :: "cron \<Rightarrow> int \<Rightarrow> routine_memory \<Rightarrow> routine_row list \<times> routine_memory" where
  "mem_claim_due cr cursor st = mem_claim_loop cr cursor st st"

definition mem_list_for_user :: "string \<Rightarrow> routine_memory \<Rightarrow> routine_row list" where
  "mem_list_for_user user st = sort_key rr_next_fire_at (filter (\<lambda>r. rr_user_id r = user) (map snd st))"

definition mem_cancel :: "string \<Rightarrow> string \<Rightarrow> routine_memory \<Rightarrow> bool \<times> routine_memory" where
  "mem_cancel rid user st =
     (case map_of st rid of
        None \<Rightarrow> (False, st)
      | Some row \<Rightarrow> if rr_user_id row \<noteq> user then (False, st) else (True, dict_pop st rid))"

section \<open>The table and its statements\<close>

record db_row =
  db_id :: string
  db_user_id :: string
  db_app_name :: string
  db_schedule :: string
  db_task :: string
  db_secrets :: string
  db_delivery :: string
  db_next_fire_at :: int
  db_created_at :: int

type_synonym db_table = "db_row list"

text \<open>\<open>INSERT ... ON CONFLICT (id) DO UPDATE ... WHERE\<close>: the owner and the creation time stay.\<close>

definition upsert_row :: "db_row \<Rightarrow> db_row \<Rightarrow> db_row" where
  "upsert_row old new = old\<lparr>db_app_name := db_app_name new, db_schedule := db_schedule new, db_task := db_task new,
     db_secrets := db_secrets new, db_delivery := db_delivery new, db_next_fire_at := db_next_fire_at new\<rparr>"

fun INSERT_SQL :: "db_row \<Rightarrow> db_table \<Rightarrow> db_table" where
  "INSERT_SQL new [] = [new]"
| "INSERT_SQL new (r # t) =
     (if db_id r = db_id new then (if db_user_id r = db_user_id new then upsert_row r new else r) # t
      else r # INSERT_SQL new t)"

definition CLAIM_DUE_SQL :: "(db_table \<Rightarrow> db_table) \<Rightarrow> (string \<Rightarrow> bool) \<Rightarrow> int \<Rightarrow> db_table \<Rightarrow> db_row list" where
  "CLAIM_DUE_SQL arrange locked cursor t = arrange (filter (\<lambda>r. db_next_fire_at r \<le> cursor \<and> \<not> locked (db_id r)) t)"

definition SELECT_USER_SQL :: "(db_table \<Rightarrow> db_table) \<Rightarrow> string \<Rightarrow> db_table \<Rightarrow> db_row list" where
  "SELECT_USER_SQL arrange user t = arrange (filter (\<lambda>r. db_user_id r = user) t)"

definition DELETE_SQL :: "string \<Rightarrow> db_table \<Rightarrow> db_table" where
  "DELETE_SQL rid t = filter (\<lambda>r. db_id r \<noteq> rid) t"

definition UPDATE_FIRE_AT_SQL :: "int \<Rightarrow> string \<Rightarrow> db_table \<Rightarrow> db_table" where
  "UPDATE_FIRE_AT_SQL next_at rid t = map (\<lambda>r. if db_id r = rid then r\<lparr>db_next_fire_at := next_at\<rparr> else r) t"

text \<open>A delete answers with its status line, which counts the rows.\<close>

definition CANCEL_SQL :: "string \<Rightarrow> string \<Rightarrow> db_table \<Rightarrow> string \<times> db_table" where
  "CANCEL_SQL rid user t =
     (''DELETE '' @ string_of_nat (length (filter (\<lambda>r. db_id r = rid \<and> db_user_id r = user) t)),
      filter (\<lambda>r. \<not> (db_id r = rid \<and> db_user_id r = user)) t)"

section \<open>Retries\<close>

text \<open>What happens to one attempt of an operation: it goes through, the connection drops before the
  database commits it, the connection drops after the commit so that the answer is lost, or another error
  is raised.\<close>

datatype attempt = Completes | DropsBefore | DropsAfter | Fails py_exn

definition disconnected :: py_exn where
  "disconnected = OSError ''ConnectionResetError''"

text \<open>An operation that raises is rolled back. \<open>faults\<close> lists what happens to the attempts.\<close>

fun retry_on_disconnect :: "nat \<Rightarrow> attempt list \<Rightarrow> ('s \<Rightarrow> ('a \<times> 's) py) \<Rightarrow> 's \<Rightarrow> 'a py \<times> 's" where
  "retry_on_disconnect 0 faults op s = (Inl disconnected, s)"
| "retry_on_disconnect (Suc n) faults op s =
     (case (case faults of [] \<Rightarrow> Completes | f # _ \<Rightarrow> f) of
        Completes \<Rightarrow> (case op s of Inl e \<Rightarrow> (Inl e, s) | Inr (a, s') \<Rightarrow> (Inr a, s'))
      | Fails e \<Rightarrow> (Inl e, s)
      | DropsBefore \<Rightarrow> retry_on_disconnect n (tl faults) op s
      | DropsAfter \<Rightarrow> (case op s of Inl e \<Rightarrow> (Inl e, s) | Inr (a, s') \<Rightarrow> retry_on_disconnect n (tl faults) op s'))"

definition DEFAULT_ATTEMPTS :: nat where
  "DEFAULT_ATTEMPTS = 3"

section \<open>The store in PostgreSQL\<close>

text \<open>\<open>tuple(json.loads(text))\<close>: a string and an object are iterated, too.\<close>

definition secrets_tuple :: "string \<Rightarrow> pyval list py" where
  "secrets_tuple text =
     (case json_loads text of
        None \<Rightarrow> Inl (ValueError ''JSONDecodeError'')
      | Some (PyList vs) \<Rightarrow> Inr vs
      | Some (PyStr s) \<Rightarrow> Inr (map (\<lambda>c. PyStr [c]) s)
      | Some (PyDict d) \<Rightarrow> Inr (map (\<lambda>kv. PyStr (fst kv)) d)
      | Some _ \<Rightarrow> Inl (TypeError ''object is not iterable''))"

definition row_to_routine :: "db_row \<Rightarrow> routine_row py" where
  "row_to_routine row =
     py_bind (secrets_tuple (db_secrets row)) (\<lambda>secrets.
       Inr \<lparr>rr_id = db_id row, rr_user_id = db_user_id row, rr_app_name = db_app_name row,
            rr_schedule = db_schedule row, rr_task = db_task row, rr_secrets = secrets,
            rr_delivery = db_delivery row, rr_next_fire_at = db_next_fire_at row, rr_created_at = db_created_at row\<rparr>)"

definition routine_to_row :: "string \<Rightarrow> routine_row \<Rightarrow> db_row" where
  "routine_to_row rid row =
     \<lparr>db_id = rid, db_user_id = rr_user_id row, db_app_name = rr_app_name row, db_schedule = rr_schedule row,
      db_task = rr_task row, db_secrets = json_dumps json_default_opts (PyList (rr_secrets row)),
      db_delivery = rr_delivery row, db_next_fire_at = rr_next_fire_at row, db_created_at = rr_created_at row\<rparr>"

definition pg_add :: "attempt list \<Rightarrow> string \<Rightarrow> routine_row \<Rightarrow> db_table \<Rightarrow> string py \<times> db_table" where
  "pg_add faults uuid row t =
     (let rid = row_key uuid row
      in retry_on_disconnect DEFAULT_ATTEMPTS faults (\<lambda>t. Inr (rid, INSERT_SQL (routine_to_row rid row) t)) t)"

fun pg_claim_loop :: "cron \<Rightarrow> int \<Rightarrow> db_row list \<Rightarrow> db_table \<Rightarrow> (routine_row list \<times> db_table) py" where
  "pg_claim_loop cr cursor [] t = Inr ([], t)"
| "pg_claim_loop cr cursor (row # rows) t =
     (case next_cron_fire cr (db_schedule row) cursor of
        Inl _ \<Rightarrow> pg_claim_loop cr cursor rows (DELETE_SQL (db_id row) t)
      | Inr next_at \<Rightarrow>
          py_bind (row_to_routine row) (\<lambda>r.
          py_bind (pg_claim_loop cr cursor rows (UPDATE_FIRE_AT_SQL next_at (db_id row) t)) (\<lambda>(claimed, t').
            Inr (r # claimed, t'))))"

definition pg_claim_once ::
    "cron \<Rightarrow> (db_table \<Rightarrow> db_table) \<Rightarrow> (string \<Rightarrow> bool) \<Rightarrow> int \<Rightarrow> db_table \<Rightarrow> (routine_row list \<times> db_table) py" where
  "pg_claim_once cr arrange locked cursor t = pg_claim_loop cr cursor (CLAIM_DUE_SQL arrange locked cursor t) t"

definition pg_claim_due ::
    "cron \<Rightarrow> (db_table \<Rightarrow> db_table) \<Rightarrow> (string \<Rightarrow> bool) \<Rightarrow> attempt list \<Rightarrow> int \<Rightarrow> db_table \<Rightarrow> routine_row list py \<times> db_table" where
  "pg_claim_due cr arrange locked faults cursor t =
     retry_on_disconnect DEFAULT_ATTEMPTS faults (pg_claim_once cr arrange locked cursor) t"

fun rows_to_routines :: "db_row list \<Rightarrow> routine_row list py" where
  "rows_to_routines [] = Inr []"
| "rows_to_routines (r # rs) = py_bind (row_to_routine r) (\<lambda>x. py_bind (rows_to_routines rs) (\<lambda>xs. Inr (x # xs)))"

definition pg_list_for_user :: "(db_table \<Rightarrow> db_table) \<Rightarrow> attempt list \<Rightarrow> string \<Rightarrow> db_table \<Rightarrow> routine_row list py" where
  "pg_list_for_user arrange faults user t =
     py_bind (fst (retry_on_disconnect DEFAULT_ATTEMPTS faults (\<lambda>t. Inr (SELECT_USER_SQL arrange user t, t)) t)) rows_to_routines"

text \<open>The status line is upper case, so \<open>upper()\<close> leaves it as it is.\<close>

definition pg_cancel :: "attempt list \<Rightarrow> string \<Rightarrow> string \<Rightarrow> db_table \<Rightarrow> bool py \<times> db_table" where
  "pg_cancel faults rid user t =
     (let (status, t') = retry_on_disconnect DEFAULT_ATTEMPTS faults (\<lambda>t. Inr (CANCEL_SQL rid user t)) t
      in (py_bind status (\<lambda>s. Inr (startswith s ''DELETE '' \<and> \<not> endswith s '' 0'')), t'))"

section \<open>What a store promises\<close>

text \<open>The specification: a map from identifiers to routines. The creation time is forgotten; the stores
  differ in it when a routine is edited.\<close>

definition forget :: "routine_row \<Rightarrow> routine_row" where
  "forget r = r\<lparr>rr_created_at := 0\<rparr>"

datatype routine_op = AddRow string routine_row | ClaimDue int | CancelRow string string

fun storable :: "routine_op \<Rightarrow> bool" where
  "storable (AddRow uuid row) \<longleftrightarrow> list_all json_exact (rr_secrets row)"
| "storable _ \<longleftrightarrow> True"

definition spec_advance :: "cron \<Rightarrow> int \<Rightarrow> routine_row \<Rightarrow> routine_row option" where
  "spec_advance cr cursor r =
     (if rr_next_fire_at r \<le> cursor
      then (case next_cron_fire cr (rr_schedule r) cursor of Inl _ \<Rightarrow> None | Inr n \<Rightarrow> Some (r\<lparr>rr_next_fire_at := n\<rparr>))
      else Some r)"

definition owns :: "string \<Rightarrow> routine_row option \<Rightarrow> bool" where
  "owns user x \<longleftrightarrow> (case x of None \<Rightarrow> False | Some r \<Rightarrow> rr_user_id r = user)"

fun routine_spec :: "cron \<Rightarrow> routine_op \<Rightarrow> (string \<rightharpoonup> routine_row) \<Rightarrow> string \<rightharpoonup> routine_row" where
  "routine_spec cr (AddRow uuid row) m =
     (let rid = row_key uuid row
      in if m rid = None \<or> owns (rr_user_id row) (m rid) then m(rid \<mapsto> forget (row\<lparr>rr_id := rid\<rparr>)) else m)"
| "routine_spec cr (ClaimDue cursor) m = (\<lambda>rid. Option.bind (m rid) (spec_advance cr cursor))"
| "routine_spec cr (CancelRow rid user) m = (if owns user (m rid) then m(rid := None) else m)"

definition due :: "int \<Rightarrow> (string \<rightharpoonup> routine_row) \<Rightarrow> routine_row set" where
  "due cursor m = {r \<in> ran m. rr_next_fire_at r \<le> cursor}"

definition fires_again :: "cron \<Rightarrow> int \<Rightarrow> routine_row \<Rightarrow> bool" where
  "fires_again cr cursor r \<longleftrightarrow> (case next_cron_fire cr (rr_schedule r) cursor of Inl _ \<Rightarrow> False | Inr _ \<Rightarrow> True)"

datatype routine_answer = Added "string py" | Claimed "routine_row list py" | Cancelled "bool py"

fun run_routine_ops ::
    "(string \<Rightarrow> routine_row \<Rightarrow> 's \<Rightarrow> string py \<times> 's) \<Rightarrow> (int \<Rightarrow> 's \<Rightarrow> routine_row list py \<times> 's) \<Rightarrow>
     (string \<Rightarrow> string \<Rightarrow> 's \<Rightarrow> bool py \<times> 's) \<Rightarrow> routine_op list \<Rightarrow> 's \<Rightarrow> routine_answer list \<times> 's" where
  "run_routine_ops add claim cancel [] s = ([], s)"
| "run_routine_ops add claim cancel (x # ops) s =
     (let (a, s') = (case x of
            AddRow uuid row \<Rightarrow> (let (r, s') = add uuid row s in (Added r, s'))
          | ClaimDue cursor \<Rightarrow> (let (r, s') = claim cursor s in (Claimed r, s'))
          | CancelRow rid user \<Rightarrow> (let (r, s') = cancel rid user s in (Cancelled r, s')));
          (as, s'') = run_routine_ops add claim cancel ops s'
      in (a # as, s''))"

text \<open>What an operation answers: a claim gives each due routine once. With \<open>last_too\<close> it gives the ones without
  a next date, too.\<close>

fun answer_ok :: "bool \<Rightarrow> cron \<Rightarrow> (string \<rightharpoonup> routine_row) \<Rightarrow> routine_op \<Rightarrow> routine_answer \<Rightarrow> bool" where
  "answer_ok last_too cr m (AddRow uuid row) (Added r) \<longleftrightarrow> r = Inr (row_key uuid row)"
| "answer_ok last_too cr m (ClaimDue cursor) (Claimed r) \<longleftrightarrow> (\<exists>rows. r = Inr rows \<and> distinct (map rr_id rows) \<and>
     forget ` set rows = {x \<in> due cursor m. last_too \<or> fires_again cr cursor x})"
| "answer_ok last_too cr m (CancelRow rid user) (Cancelled r) \<longleftrightarrow> r = Inr (owns user (m rid))"
| "answer_ok last_too cr m _ _ \<longleftrightarrow> False"

fun answers_ok :: "bool \<Rightarrow> cron \<Rightarrow> (string \<rightharpoonup> routine_row) \<Rightarrow> routine_op list \<Rightarrow> routine_answer list \<Rightarrow> bool" where
  "answers_ok last_too cr m [] as \<longleftrightarrow> as = []"
| "answers_ok last_too cr m (x # ops) (a # as) \<longleftrightarrow> answer_ok last_too cr m x a \<and> answers_ok last_too cr (routine_spec cr x m) ops as"
| "answers_ok last_too cr m (x # ops) [] \<longleftrightarrow> False"

locale routine_store =
  fixes cr :: cron
    and last_too :: bool
    and ok :: "'s \<Rightarrow> bool"
    and view :: "'s \<Rightarrow> string \<rightharpoonup> routine_row"
    and add :: "string \<Rightarrow> routine_row \<Rightarrow> 's \<Rightarrow> string py \<times> 's"
    and claim :: "int \<Rightarrow> 's \<Rightarrow> routine_row list py \<times> 's"
    and cancel :: "string \<Rightarrow> string \<Rightarrow> 's \<Rightarrow> bool py \<times> 's"
  assumes keyed: "\<lbrakk>ok s; view s rid = Some row\<rbrakk> \<Longrightarrow> rr_id row = rid"
    and add_law: "\<lbrakk>ok s; list_all json_exact (rr_secrets row); add uuid row s = (r, s')\<rbrakk> \<Longrightarrow>
      ok s' \<and> view s' = routine_spec cr (AddRow uuid row) (view s) \<and> r = Inr (row_key uuid row)"
    and claim_law: "\<lbrakk>ok s; claim cursor s = (r', s')\<rbrakk> \<Longrightarrow>
      ok s' \<and> view s' = routine_spec cr (ClaimDue cursor) (view s) \<and> answer_ok last_too cr (view s) (ClaimDue cursor) (Claimed r')"
    and cancel_law: "\<lbrakk>ok s; cancel rid user s = (r'', s')\<rbrakk> \<Longrightarrow>
      ok s' \<and> view s' = routine_spec cr (CancelRow rid user) (view s) \<and> r'' = Inr (owns user (view s rid))"
begin

lemma run_refines:
  assumes "ok s" and "list_all storable ops" and "run_routine_ops add claim cancel ops s = (as, s')"
  shows "ok s' \<and> view s' = fold (routine_spec cr) ops (view s) \<and> answers_ok last_too cr (view s) ops as"
  using assms
proof (induction ops arbitrary: s as)
  case (Cons x ops)
  obtain a s1 as1 where step: "(case x of
            AddRow uuid row \<Rightarrow> (let (r, s') = add uuid row s in (Added r, s'))
          | ClaimDue cursor \<Rightarrow> (let (r, s') = claim cursor s in (Claimed r, s'))
          | CancelRow rid user \<Rightarrow> (let (r, s') = cancel rid user s in (Cancelled r, s'))) = (a, s1)"
    and rest: "run_routine_ops add claim cancel ops s1 = (as1, s')" and as: "as = a # as1"
    using Cons.prems(3) by (auto split: prod.splits)
  have "ok s1 \<and> view s1 = routine_spec cr x (view s) \<and> answer_ok last_too cr (view s) x a"
  proof (cases x)
    case (AddRow uuid row)
    then obtain r where r: "add uuid row s = (r, s1)" "a = Added r" using step by (cases "add uuid row s") simp
    have "list_all json_exact (rr_secrets row)" using Cons.prems(2) AddRow by simp
    from add_law [OF Cons.prems(1) this r(1)] show ?thesis using AddRow r(2) by simp
  next
    case (ClaimDue cursor)
    then obtain r where r: "claim cursor s = (r, s1)" "a = Claimed r" using step by (cases "claim cursor s") simp
    from claim_law [OF Cons.prems(1) r(1)] show ?thesis unfolding ClaimDue r(2) .
  next
    case (CancelRow rid user)
    then obtain r where r: "cancel rid user s = (r, s1)" "a = Cancelled r" using step by (cases "cancel rid user s") simp
    from cancel_law [OF Cons.prems(1) r(1)] show ?thesis using CancelRow r(2) by simp
  qed
  then show ?case using Cons.IH [OF _ _ rest] Cons.prems(2) as by simp
qed simp

end

section \<open>The store in memory keeps the promise\<close>

definition mem_ok :: "routine_memory \<Rightarrow> bool" where
  "mem_ok st \<longleftrightarrow> dict_wf st \<and> (\<forall>(rid, r) \<in> set st. rr_id r = rid)"

definition mem_view :: "routine_memory \<Rightarrow> string \<rightharpoonup> routine_row" where
  "mem_view st rid = map_option forget (map_of st rid)"

lemma forget_simps [simp]:
  "rr_id (forget r) = rr_id r" "rr_user_id (forget r) = rr_user_id r" "rr_schedule (forget r) = rr_schedule r"
  "rr_next_fire_at (forget r) = rr_next_fire_at r" "rr_secrets (forget r) = rr_secrets r" "rr_task (forget r) = rr_task r"
  "forget (r\<lparr>rr_next_fire_at := n\<rparr>) = (forget r)\<lparr>rr_next_fire_at := n\<rparr>" "forget (forget r) = forget r"
  by (simp_all add: forget_def)

lemma mem_ok_map_of: "dict_wf st \<Longrightarrow> mem_ok st \<longleftrightarrow> (\<forall>rid r. map_of st rid = Some r \<longrightarrow> rr_id r = rid)"
  by (auto simp: mem_ok_def dict_wf_def)

lemma mem_ok_keyed: "mem_ok st \<Longrightarrow> map_of st rid = Some r \<Longrightarrow> rr_id r = rid"
  by (auto simp: mem_ok_def dest: map_of_SomeD)

lemma mem_ok_wf: "mem_ok st \<Longrightarrow> dict_wf st"
  by (simp add: mem_ok_def)

lemma mem_ok_set: "mem_ok st \<Longrightarrow> rr_id r = rid \<Longrightarrow> mem_ok (dict_set st rid r)"
  using mem_ok_keyed by (fastforce simp: mem_ok_map_of dict_wf_set mem_ok_wf)

lemma mem_ok_pop: "mem_ok st \<Longrightarrow> mem_ok (dict_pop st rid)"
  using mem_ok_keyed by (fastforce simp: mem_ok_map_of dict_wf_pop mem_ok_wf)

lemma mem_claim_loop_spec:
  assumes "distinct (map fst items)" and "mem_ok st" and "\<forall>(rid, r) \<in> set items. map_of st rid = Some r"
    and "mem_claim_loop cr cursor items st = (rows, st')"
  shows "mem_ok st' \<and> map_of st' = (\<lambda>rid. if rid \<in> fst ` set items then Option.bind (map_of st rid) (spec_advance cr cursor)
            else map_of st rid) \<and> rows = filter (\<lambda>r. rr_next_fire_at r \<le> cursor) (map snd items)"
  using assms
proof (induction items arbitrary: st rows)
  case (Cons kv items)
  obtain rid row where kv: "kv = (rid, row)" by force
  have row: "map_of st rid = Some row" "rr_id row = rid" using Cons.prems(2,3) kv mem_ok_keyed by auto
  let ?st = "if rr_next_fire_at row \<le> cursor then (case next_cron_fire cr (rr_schedule row) cursor of
      Inl _ \<Rightarrow> dict_pop st rid | Inr nxt \<Rightarrow> dict_set st rid (row\<lparr>rr_next_fire_at := nxt\<rparr>)) else st"
  obtain rows1 where rest: "mem_claim_loop cr cursor items ?st = (rows1, st')"
    and rows: "rows = (if rr_next_fire_at row \<le> cursor then row # rows1 else rows1)"
    using Cons.prems(4) kv by (auto simp: Let_def split: prod.splits if_splits)
  have st: "map_of ?st = (map_of st)(rid := spec_advance cr cursor row)"
    using row(1) by (auto simp: spec_advance_def fun_eq_iff split: sum.splits)
  have ok: "mem_ok ?st" using Cons.prems(2) row(2) by (auto simp: mem_ok_set mem_ok_pop split: sum.splits)
  have other: "rid \<notin> fst ` set items" using Cons.prems(1) kv by simp
  have "map_of ?st rid' = Some r" if "(rid', r) \<in> set items" for rid' r
  proof -
    have "rid' \<noteq> rid" using other that by force
    then show ?thesis using Cons.prems(3) that by (auto simp: st)
  qed
  then have "\<forall>(rid', r) \<in> set items. map_of ?st rid' = Some r" by blast
  from Cons.IH [OF _ ok this rest] Cons.prems(1)
  have ih: "mem_ok st' \<and> map_of st' = (\<lambda>r. if r \<in> fst ` set items then Option.bind (map_of ?st r) (spec_advance cr cursor)
      else map_of ?st r) \<and> rows1 = filter (\<lambda>r. rr_next_fire_at r \<le> cursor) (map snd items)" by simp
  then show ?case using other row(1) rows unfolding st by (auto simp: kv fun_eq_iff)
qed simp

lemma spec_advance_forget: "spec_advance cr cursor (forget r) = map_option forget (spec_advance cr cursor r)"
  by (simp add: spec_advance_def split: sum.split)

lemma map_option_bind_advance:
  "map_option forget (Option.bind x (spec_advance cr cursor)) = Option.bind (map_option forget x) (spec_advance cr cursor)"
  by (cases x) (simp_all add: spec_advance_forget)

lemma ran_mem_view: "dict_wf st \<Longrightarrow> ran (mem_view st) = forget ` snd ` set st"
  by (force simp: ran_def mem_view_def dict_wf_def)

interpretation memory_routines: routine_store cr True mem_ok mem_view
  "\<lambda>uuid row st. apfst Inr (mem_add uuid row st)" "\<lambda>cursor st. apfst Inr (mem_claim_due cr cursor st)"
  "\<lambda>rid user st. apfst Inr (mem_cancel rid user st)" for cr
proof
  fix s rid row assume "mem_ok s" "mem_view s rid = Some row"
  then show "rr_id row = rid" using mem_ok_keyed by (auto simp: mem_view_def)
next
  fix s row uuid and r :: "string py" and s' assume ok: "mem_ok s" and a: "apfst Inr (mem_add uuid row s) = (r, s')"
  then show "mem_ok s' \<and> mem_view s' = routine_spec cr (AddRow uuid row) (mem_view s) \<and> r = Inr (row_key uuid row)"
    by (auto simp: mem_add_def Let_def mem_view_def owns_def fun_eq_iff mem_ok_set split: option.splits if_splits)
next
  fix s cursor and r' :: "routine_row list py" and s' assume ok: "mem_ok s" and a: "apfst Inr (mem_claim_due cr cursor s) = (r', s')"
  then obtain rows where loop: "mem_claim_loop cr cursor s s = (rows, s')" and r': "r' = Inr rows"
    by (cases "mem_claim_loop cr cursor s s") (auto simp: mem_claim_due_def)
  have d: "distinct (map fst s)" using mem_ok_wf [OF ok] by (simp add: dict_wf_def)
  have "\<forall>(rid, r) \<in> set s. map_of s rid = Some r" using d by auto
  from mem_claim_loop_spec [OF d ok this loop]
  have ok': "mem_ok s'" and m: "map_of s' = (\<lambda>rid. Option.bind (map_of s rid) (spec_advance cr cursor))"
    and rows: "rows = filter (\<lambda>r. rr_next_fire_at r \<le> cursor) (map snd s)"
    by (auto simp: fun_eq_iff map_of_eq_None_iff [symmetric])
  show "mem_ok s' \<and> mem_view s' = routine_spec cr (ClaimDue cursor) (mem_view s) \<and>
      answer_ok True cr (mem_view s) (ClaimDue cursor) (Claimed r')"
  proof (intro conjI)
    show "mem_view s' = routine_spec cr (ClaimDue cursor) (mem_view s)"
      by (rule ext) (simp add: mem_view_def m map_option_bind_advance)
    have "map rr_id (map snd s) = map fst s" using ok by (auto simp: mem_ok_def)
    then have "distinct (map rr_id (map snd s))" using d by (simp only:)
    then have "distinct (map rr_id rows)" unfolding rows by (rule distinct_map_filter)
    then show "answer_ok True cr (mem_view s) (ClaimDue cursor) (Claimed r')"
      by (auto simp: r' rows due_def ran_mem_view [OF mem_ok_wf [OF ok]])
  qed (rule ok')
next
  fix s rid user and r'' :: "bool py" and s' assume ok: "mem_ok s" and a: "apfst Inr (mem_cancel rid user s) = (r'', s')"
  then show "mem_ok s' \<and> mem_view s' = routine_spec cr (CancelRow rid user) (mem_view s) \<and> r'' = Inr (owns user (mem_view s rid))"
    by (auto simp: mem_cancel_def mem_view_def owns_def fun_eq_iff mem_ok_pop split: option.splits if_splits)
qed

section \<open>The store in PostgreSQL keeps the promise\<close>

definition by_id :: "db_table \<Rightarrow> string \<rightharpoonup> db_row" where
  "by_id t = map_of (map (\<lambda>r. (db_id r, r)) t)"

definition routine_of :: "db_row \<Rightarrow> routine_row" where
  "routine_of r = (case row_to_routine r of Inr x \<Rightarrow> x | Inl _ \<Rightarrow> undefined)"

definition pg_ok :: "db_table \<Rightarrow> bool" where
  "pg_ok t \<longleftrightarrow> distinct (map db_id t) \<and> (\<forall>r \<in> set t. row_to_routine r = Inr (routine_of r))"

definition pg_view :: "db_table \<Rightarrow> string \<rightharpoonup> routine_row" where
  "pg_view t rid = map_option (\<lambda>r. forget (routine_of r)) (by_id t rid)"

text \<open>What the database promises of an ordered selection: the selected rows, ordered by time.\<close>

definition arrange_ok :: "(db_table \<Rightarrow> db_table) \<Rightarrow> bool" where
  "arrange_ok arrange \<longleftrightarrow> (\<forall>rs. mset (arrange rs) = mset rs \<and> sorted (map db_next_fire_at (arrange rs)))"

lemma by_id_Cons: "by_id (r # t) = (by_id t)(db_id r \<mapsto> r)"
  by (simp add: by_id_def)

lemma by_id_Nil [simp]: "by_id [] = Map.empty"
  by (simp add: by_id_def)

lemma by_id_mem: "distinct (map db_id t) \<Longrightarrow> by_id t rid = Some r \<longleftrightarrow> r \<in> set t \<and> db_id r = rid"
  by (auto simp: by_id_def comp_def)

lemma by_id_None: "by_id t rid = None \<longleftrightarrow> rid \<notin> db_id ` set t"
  by (force simp: by_id_def map_of_eq_None_iff)

lemma by_id_key: "by_id t rid = Some r \<Longrightarrow> r \<in> set t \<and> db_id r = rid"
  by (auto simp: by_id_def dest!: map_of_SomeD)

lemma by_id_INSERT: "by_id (INSERT_SQL new t) = (by_id t)(db_id new := Some (case by_id t (db_id new) of
    None \<Rightarrow> new | Some old \<Rightarrow> if db_user_id old = db_user_id new then upsert_row old new else old))"
proof (induction t)
  case (Cons r t)
  then show ?case by (auto simp: by_id_Cons fun_eq_iff upsert_row_def)
qed (simp add: by_id_Cons)

lemma ids_INSERT: "set (map db_id (INSERT_SQL new t)) = insert (db_id new) (set (map db_id t))"
  by (induction t) (auto simp: upsert_row_def)

lemma distinct_INSERT: "distinct (map db_id t) \<Longrightarrow> distinct (map db_id (INSERT_SQL new t))"
proof (induction t)
  case (Cons r t)
  then show ?case using ids_INSERT [of new t] by (auto simp: upsert_row_def)
qed simp

lemma by_id_DELETE: "by_id (DELETE_SQL rid t) = (by_id t)(rid := None)"
  by (induction t) (auto simp: DELETE_SQL_def by_id_Cons fun_eq_iff)

lemma by_id_UPDATE: "by_id (UPDATE_FIRE_AT_SQL n rid t) =
    (by_id t)(rid := map_option (\<lambda>r. r\<lparr>db_next_fire_at := n\<rparr>) (by_id t rid))"
  by (induction t) (auto simp: UPDATE_FIRE_AT_SQL_def by_id_Cons fun_eq_iff)

lemma pg_ok_by_id: "distinct (map db_id t) \<Longrightarrow> pg_ok t \<longleftrightarrow> (\<forall>rid r. by_id t rid = Some r \<longrightarrow> row_to_routine r = Inr (routine_of r))"
  by (auto simp: pg_ok_def by_id_mem)

lemma pg_ok_distinct: "pg_ok t \<Longrightarrow> distinct (map db_id t)"
  by (simp add: pg_ok_def)

lemma pg_ok_reads: "pg_ok t \<Longrightarrow> by_id t rid = Some r \<Longrightarrow> row_to_routine r = Inr (routine_of r)"
  using by_id_key by (auto simp: pg_ok_def)

lemma pg_ok_DELETE: "pg_ok t \<Longrightarrow> pg_ok (DELETE_SQL rid t)"
  by (auto simp: pg_ok_def DELETE_SQL_def intro: distinct_map_filter)

lemma routine_of_fields:
  assumes "row_to_routine r = Inr (routine_of r)"
  shows "rr_id (routine_of r) = db_id r" "rr_user_id (routine_of r) = db_user_id r" 
    "rr_schedule (routine_of r) = db_schedule r" "rr_next_fire_at (routine_of r) = db_next_fire_at r"
  using assms by (auto simp: row_to_routine_def routine_of_def py_bind_def split: sum.splits)

lemma reads_update:
  assumes "row_to_routine r = Inr (routine_of r)"
  shows "row_to_routine (r\<lparr>db_next_fire_at := n\<rparr>) = Inr (routine_of (r\<lparr>db_next_fire_at := n\<rparr>))"
    "routine_of (r\<lparr>db_next_fire_at := n\<rparr>) = (routine_of r)\<lparr>rr_next_fire_at := n\<rparr>"
  using assms by (auto simp: row_to_routine_def routine_of_def py_bind_def split: sum.splits)

lemma pg_ok_UPDATE: "pg_ok t \<Longrightarrow> pg_ok (UPDATE_FIRE_AT_SQL n rid t)"
proof -
  assume ok: "pg_ok t"
  have "map db_id (UPDATE_FIRE_AT_SQL n rid t) = map db_id t" by (simp add: UPDATE_FIRE_AT_SQL_def)
  then have "distinct (map db_id (UPDATE_FIRE_AT_SQL n rid t))" using ok by (simp only: pg_ok_def)
  moreover have "row_to_routine r = Inr (routine_of r)" if "r \<in> set (UPDATE_FIRE_AT_SQL n rid t)" for r
    using that ok reads_update(1) by (auto simp: pg_ok_def UPDATE_FIRE_AT_SQL_def)
  ultimately show ?thesis by (simp add: pg_ok_def)
qed

text \<open>The loop of a claim: every selected row moves on or goes, all others stay.\<close>

definition db_advance :: "cron \<Rightarrow> int \<Rightarrow> db_row \<Rightarrow> db_row option" where
  "db_advance cr cursor r = (case next_cron_fire cr (db_schedule r) cursor of
     Inl _ \<Rightarrow> None | Inr n \<Rightarrow> Some (r\<lparr>db_next_fire_at := n\<rparr>))"

lemma pg_claim_loop_spec:
  assumes "distinct (map db_id rows)" and "pg_ok t" and "\<forall>r \<in> set rows. by_id t (db_id r) = Some r"
  shows "\<exists>t'. pg_claim_loop cr cursor rows t = Inr (map routine_of (filter (\<lambda>r. db_advance cr cursor r \<noteq> None) rows), t') \<and>
    pg_ok t' \<and> by_id t' = (\<lambda>rid. if rid \<in> db_id ` set rows then Option.bind (by_id t rid) (db_advance cr cursor) else by_id t rid)"
  using assms
proof (induction rows arbitrary: t)
  case (Cons row rows)
  let ?t = "case next_cron_fire cr (db_schedule row) cursor of
     Inl _ \<Rightarrow> DELETE_SQL (db_id row) t | Inr n \<Rightarrow> UPDATE_FIRE_AT_SQL n (db_id row) t"
  have row: "by_id t (db_id row) = Some row" using Cons.prems(3) by simp
  have t: "by_id ?t = (by_id t)(db_id row := db_advance cr cursor row)"
    using row by (simp add: db_advance_def by_id_DELETE by_id_UPDATE split: sum.split)
  have ok: "pg_ok ?t" using Cons.prems(2) by (simp add: pg_ok_DELETE pg_ok_UPDATE split: sum.split)
  have other: "db_id row \<notin> db_id ` set rows" using Cons.prems(1) by simp
  have "by_id ?t (db_id r) = Some r" if "r \<in> set rows" for r
  proof -
    have "db_id r \<noteq> db_id row" using other that by (auto simp: image_iff)
    then show ?thesis using Cons.prems(3) that by (simp add: t)
  qed
  then obtain t' where ih: "pg_claim_loop cr cursor rows ?t = Inr (map routine_of (filter (\<lambda>r. db_advance cr cursor r \<noteq> None) rows), t')"
      "pg_ok t'" "by_id t' = (\<lambda>rid. if rid \<in> db_id ` set rows then Option.bind (by_id ?t rid) (db_advance cr cursor) else by_id ?t rid)"
    using Cons.IH [OF _ ok] Cons.prems(1) by fastforce
  have "by_id t' = (\<lambda>rid. if rid \<in> db_id ` set (row # rows) then Option.bind (by_id t rid) (db_advance cr cursor) else by_id t rid)"
    using other row unfolding ih(3) t by (auto simp: fun_eq_iff)
  moreover have "pg_claim_loop cr cursor (row # rows) t =
      Inr (map routine_of (filter (\<lambda>r. db_advance cr cursor r \<noteq> None) (row # rows)), t')"
    using ih(1) pg_ok_reads [OF Cons.prems(2) row] by (auto simp: db_advance_def split: sum.splits)
  ultimately show ?case using ih(2) by blast
qed simp

lemma pg_claim_once_spec:
  assumes "pg_ok t" and "arrange_ok arrange"
  shows "\<exists>rows t'. pg_claim_once cr arrange locked cursor t = Inr (map routine_of rows, t') \<and> pg_ok t' \<and>
    distinct (map db_id rows) \<and>
    set rows = {r \<in> set t. db_next_fire_at r \<le> cursor \<and> \<not> locked (db_id r) \<and> db_advance cr cursor r \<noteq> None} \<and>
    by_id t' = (\<lambda>rid. Option.bind (by_id t rid) (\<lambda>r. if db_next_fire_at r \<le> cursor \<and> \<not> locked rid then db_advance cr cursor r else Some r))"
proof -
  let ?sel = "filter (\<lambda>r. db_next_fire_at r \<le> cursor \<and> \<not> locked (db_id r)) t"
  let ?rows = "arrange ?sel"
  have m: "mset ?rows = mset ?sel" using assms(2) by (simp add: arrange_ok_def)
  have d: "distinct (map db_id t)" by (rule pg_ok_distinct [OF assms(1)])
  have s: "set ?rows = set ?sel" using mset_eq_setD [OF m] by simp
  have "distinct (map db_id ?sel)" by (rule distinct_map_filter [OF d])
  then have dr: "distinct (map db_id ?rows)" using mset_eq_imp_distinct_iff [of "map db_id ?rows" "map db_id ?sel"] m by simp
  have "\<forall>r \<in> set ?rows. by_id t (db_id r) = Some r" using s by (simp add: by_id_mem [OF d])
  from pg_claim_loop_spec [OF dr assms(1) this]
  obtain t' where c: "pg_claim_loop cr cursor ?rows t = Inr (map routine_of (filter (\<lambda>r. db_advance cr cursor r \<noteq> None) ?rows), t')"
    and ok: "pg_ok t'" and b: "by_id t' = (\<lambda>rid. if rid \<in> db_id ` set ?rows then Option.bind (by_id t rid) (db_advance cr cursor) else by_id t rid)"
    by blast
  have "by_id t' rid = Option.bind (by_id t rid) (\<lambda>r. if db_next_fire_at r \<le> cursor \<and> \<not> locked rid then db_advance cr cursor r else Some r)" for rid
  proof (cases "by_id t rid")
    case (Some r)
    then have "r \<in> set t" "db_id r = rid" by (auto dest: by_id_key)
    moreover have "rid \<in> db_id ` set ?rows \<longleftrightarrow> db_next_fire_at r \<le> cursor \<and> \<not> locked rid"
      using calculation d by (auto simp: s dest: inj_onD [OF conjunct2 [OF distinct_map [THEN iffD1]]])
    ultimately show ?thesis using Some by (simp add: b)
  qed (simp add: b)
  then have "by_id t' = (\<lambda>rid. Option.bind (by_id t rid)
      (\<lambda>r. if db_next_fire_at r \<le> cursor \<and> \<not> locked rid then db_advance cr cursor r else Some r))" ..
  moreover let ?out = "filter (\<lambda>r. db_advance cr cursor r \<noteq> None) ?rows"
  have "pg_claim_once cr arrange locked cursor t = Inr (map routine_of ?out, t')"
    using c by (simp only: pg_claim_once_def CLAIM_DUE_SQL_def)
  moreover have "distinct (map db_id ?out)" by (rule distinct_map_filter [OF dr])
  moreover have "set ?out = {r \<in> set t. db_next_fire_at r \<le> cursor \<and> \<not> locked (db_id r) \<and> db_advance cr cursor r \<noteq> None}"
    using s by auto
  ultimately show ?thesis using ok by blast
qed

lemma secrets_roundtrip:
  assumes "list_all json_exact vs"
  shows "secrets_tuple (json_dumps json_default_opts (PyList vs)) = Inr vs"
proof -
  have "json_loads (json_dumps json_default_opts (PyList vs)) = Some (PyList vs)"
    by (rule json_roundtrip) (simp_all add: assms spaced_opts_def json_default_opts_def)
  then show ?thesis by (simp add: secrets_tuple_def del: json_dumps.simps)
qed

lemma row_roundtrip:
  "list_all json_exact (rr_secrets row) \<Longrightarrow> row_to_routine (routine_to_row rid row) = Inr (row\<lparr>rr_id := rid\<rparr>)"
  by (simp add: row_to_routine_def routine_to_row_def secrets_roundtrip del: json_dumps.simps)

lemma upsert_roundtrip:
  "\<lbrakk>list_all json_exact (rr_secrets row); db_id old = rid; db_user_id old = rr_user_id row\<rbrakk> \<Longrightarrow>
   row_to_routine (upsert_row old (routine_to_row rid row)) = Inr (row\<lparr>rr_id := rid, rr_created_at := db_created_at old\<rparr>)"
  by (simp add: row_to_routine_def routine_to_row_def upsert_row_def secrets_roundtrip del: json_dumps.simps)

lemma routine_of_Inr: "row_to_routine r = Inr x \<Longrightarrow> routine_of r = x"
  by (simp add: routine_of_def)

lemma retry_completes [simp]:
  "retry_on_disconnect DEFAULT_ATTEMPTS [] op s = (case op s of Inl e \<Rightarrow> (Inl e, s) | Inr (a, s') \<Rightarrow> (Inr a, s'))"
  by (simp add: DEFAULT_ATTEMPTS_def numeral_3_eq_3)

lemma pg_add_spec:
  fixes uuid :: string
  assumes "pg_ok t" and "list_all json_exact (rr_secrets row)"
  defines "t' \<equiv> INSERT_SQL (routine_to_row (row_key uuid row) row) t"
  shows "pg_ok t'" "pg_view t' = routine_spec cr (AddRow uuid row) (pg_view t)"
proof -
  let ?rid = "row_key uuid row"
  let ?new = "routine_to_row ?rid row"
  let ?x = "case by_id t ?rid of None \<Rightarrow> ?new | Some old \<Rightarrow> if db_user_id old = db_user_id ?new then upsert_row old ?new else old"
  have fields: "db_id ?new = ?rid" "db_user_id ?new = rr_user_id row" by (simp_all add: routine_to_row_def)
  have t': "by_id t' = (by_id t)(?rid \<mapsto> ?x)" by (simp add: t'_def by_id_INSERT fields)
  have d: "distinct (map db_id t')" unfolding t'_def by (rule distinct_INSERT [OF pg_ok_distinct [OF assms(1)]])
  have owner: "db_user_id old = rr_user_id (routine_of old)" if "by_id t ?rid = Some old" for old
    using routine_of_fields(2) [OF pg_ok_reads [OF assms(1) that]] by simp
  have "row_to_routine ?x = Inr (routine_of ?x) \<and>
    forget (routine_of ?x) = (case by_id t ?rid of None \<Rightarrow> forget (row\<lparr>rr_id := ?rid\<rparr>) | Some old \<Rightarrow>
      if rr_user_id (routine_of old) = rr_user_id row then forget (row\<lparr>rr_id := ?rid\<rparr>) else forget (routine_of old))"
  proof (cases "by_id t ?rid")
    case None
    then show ?thesis using row_roundtrip [OF assms(2), of ?rid] by (simp add: routine_of_Inr)
  next
    case (Some old)
    have "db_id old = ?rid" using by_id_key [OF Some] by simp
    note up = upsert_roundtrip [OF assms(2) this]
    show ?thesis
    proof (cases "db_user_id old = rr_user_id row")
      case True
      then show ?thesis using Some up owner [OF Some] by (simp add: fields routine_of_Inr forget_def)
    next
      case False
      then show ?thesis using Some owner [OF Some] pg_ok_reads [OF assms(1) Some] by (simp add: fields)
    qed
  qed
  then have x: "row_to_routine ?x = Inr (routine_of ?x)" and
    v: "forget (routine_of ?x) = (case by_id t ?rid of None \<Rightarrow> forget (row\<lparr>rr_id := ?rid\<rparr>) | Some old \<Rightarrow>
      if rr_user_id (routine_of old) = rr_user_id row then forget (row\<lparr>rr_id := ?rid\<rparr>) else forget (routine_of old))"
    by blast+
  show "pg_ok t'" using x pg_ok_reads [OF assms(1)] by (auto simp: pg_ok_by_id [OF d] t')
  show "pg_view t' = routine_spec cr (AddRow uuid row) (pg_view t)"
    using v by (auto simp: pg_view_def t' owns_def Let_def fun_eq_iff split: option.splits)
qed

lemma advance_agrees:
  assumes "row_to_routine r = Inr (routine_of r)"
  shows "map_option (\<lambda>r. forget (routine_of r)) (if db_next_fire_at r \<le> cursor then db_advance cr cursor r else Some r) =
      spec_advance cr cursor (forget (routine_of r))"
    "(\<exists>y. db_advance cr cursor r = Some y) \<longleftrightarrow> fires_again cr cursor (forget (routine_of r))"
  using reads_update(2) [OF assms]
  by (simp_all add: spec_advance_def db_advance_def fires_again_def routine_of_fields [OF assms] split: sum.split)

lemma ran_pg_view: "pg_ok t \<Longrightarrow> ran (pg_view t) = (\<lambda>r. forget (routine_of r)) ` set t"
  by (force simp: ran_def pg_view_def by_id_mem [OF pg_ok_distinct])

lemma pg_claim_spec:
  assumes "pg_ok t" and "arrange_ok arrange" and "pg_claim_due cr arrange (\<lambda>_. False) [] cursor t = (r, t')"
  shows "pg_ok t' \<and> pg_view t' = routine_spec cr (ClaimDue cursor) (pg_view t) \<and>
    answer_ok False cr (pg_view t) (ClaimDue cursor) (Claimed r)"
proof -
  obtain rows t1 where once: "pg_claim_once cr arrange (\<lambda>_. False) cursor t = Inr (map routine_of rows, t1)" and ok: "pg_ok t1"
    and d: "distinct (map db_id rows)"
    and rows: "set rows = {r \<in> set t. db_next_fire_at r \<le> cursor \<and> \<not> False \<and> db_advance cr cursor r \<noteq> None}"
    and b: "by_id t1 = (\<lambda>rid. Option.bind (by_id t rid)
      (\<lambda>r. if db_next_fire_at r \<le> cursor \<and> \<not> False then db_advance cr cursor r else Some r))"
    using pg_claim_once_spec [OF assms(1,2), of cr "\<lambda>_. False" cursor] by blast
  have r: "r = Inr (map routine_of rows)" "t' = t1" using assms(3) once by (simp_all add: pg_claim_due_def)
  have reads: "row_to_routine x = Inr (routine_of x)" if "x \<in> set t" for x using assms(1) that by (simp add: pg_ok_def)
  have "pg_view t1 rid = routine_spec cr (ClaimDue cursor) (pg_view t) rid" for rid
  proof (cases "by_id t rid")
    case (Some x)
    then show ?thesis using advance_agrees(1) [OF pg_ok_reads [OF assms(1) Some]] by (simp add: pg_view_def b)
  qed (simp add: pg_view_def b)
  then have v: "pg_view t1 = routine_spec cr (ClaimDue cursor) (pg_view t)" ..
  have "map rr_id (map routine_of rows) = map db_id rows" using rows reads routine_of_fields(1) by simp
  then have "distinct (map rr_id (map routine_of rows))" using d by (simp only:)
  moreover have "{x \<in> due cursor (pg_view t). fires_again cr cursor x} = forget ` set (map routine_of rows)"
    using reads by (auto simp: rows due_def ran_pg_view [OF assms(1)] routine_of_fields advance_agrees(2) [symmetric]
        intro!: image_eqI)
  ultimately show ?thesis using ok v r by (auto simp del: routine_spec.simps)
qed

definition holds_row :: "string \<Rightarrow> db_row option \<Rightarrow> bool" where
  "holds_row user x \<longleftrightarrow> (case x of None \<Rightarrow> False | Some r \<Rightarrow> db_user_id r = user)"

lemma cancel_by_id:
  assumes "distinct (map db_id t)"
  shows "by_id (snd (CANCEL_SQL rid user t)) = (if holds_row user (by_id t rid) then (by_id t)(rid := None) else by_id t)"
    "length (filter (\<lambda>r. db_id r = rid \<and> db_user_id r = user) t) = (if holds_row user (by_id t rid) then 1 else 0)"
  using assms
proof (induction t)
  case (Cons r t)
  {
    case 1
    have "by_id t (db_id r) = None" using 1 by (simp add: by_id_None)
    then show ?case using 1 Cons.IH(1)
      by (auto simp: CANCEL_SQL_def by_id_Cons holds_row_def fun_eq_iff split: option.splits if_splits)
  next
    case 2
    have "by_id t (db_id r) = None" using 2 by (simp add: by_id_None)
    then show ?case using 2 Cons.IH(2) by (auto simp: by_id_Cons holds_row_def split: option.splits if_splits)
  }
qed (simp_all add: holds_row_def CANCEL_SQL_def)

lemma pg_cancel_spec:
  assumes "pg_ok t" and "pg_cancel [] rid user t = (r, t')"
  shows "pg_ok t' \<and> pg_view t' = routine_spec cr (CancelRow rid user) (pg_view t) \<and> r = Inr (owns user (pg_view t rid))"
proof -
  note cancel = cancel_by_id [OF pg_ok_distinct [OF assms(1)], of rid user]
  have t': "t' = snd (CANCEL_SQL rid user t)" using assms(2) by (simp add: pg_cancel_def CANCEL_SQL_def)
  have own: "owns user (pg_view t rid) \<longleftrightarrow> holds_row user (by_id t rid)"
    using pg_ok_reads [OF assms(1)] routine_of_fields(2)
    by (auto simp: owns_def holds_row_def pg_view_def split: option.split)
  have "pg_ok t'" using assms(1) by (auto simp: t' CANCEL_SQL_def pg_ok_def intro: distinct_map_filter)
  moreover have "pg_view t' = routine_spec cr (CancelRow rid user) (pg_view t)"
    using own by (auto simp: pg_view_def t' cancel(1) fun_eq_iff)
  moreover have "string_of_nat 0 = ''0''" "string_of_nat 1 = ''1''" by code_simp+
  then have "r = Inr (owns user (pg_view t rid))"
    using assms(2) own cancel(2) by (auto simp: pg_cancel_def CANCEL_SQL_def startswith_def endswith_def split: if_splits)
  ultimately show ?thesis by blast
qed

lemma pg_routine_store:
  "arrange_ok arrange \<Longrightarrow> routine_store cr False pg_ok pg_view (pg_add []) (pg_claim_due cr arrange (\<lambda>_. False) []) (pg_cancel [])"
proof
  fix s rid row assume "pg_ok s" "pg_view s rid = Some row"
  then show "rr_id row = rid" using pg_ok_reads routine_of_fields(1) by_id_key by (auto simp: pg_view_def)
next
  fix s row uuid and r :: "string py" and s'
  assume ok: "pg_ok s" and x: "list_all json_exact (rr_secrets row)" and a: "pg_add [] uuid row s = (r, s')"
  then show "pg_ok s' \<and> pg_view s' = routine_spec cr (AddRow uuid row) (pg_view s) \<and> r = Inr (row_key uuid row)"
    using pg_add_spec [OF ok x] by (auto simp: pg_add_def Let_def simp del: routine_spec.simps)
next
  fix s cursor and r :: "routine_row list py" and s'
  assume "arrange_ok arrange" "pg_ok s" "pg_claim_due cr arrange (\<lambda>_. False) [] cursor s = (r, s')"
  then show "pg_ok s' \<and> pg_view s' = routine_spec cr (ClaimDue cursor) (pg_view s) \<and> answer_ok False cr (pg_view s) (ClaimDue cursor) (Claimed r)"
    using pg_claim_spec by blast
next
  fix s rid user and r :: "bool py" and s'
  assume "pg_ok s" "pg_cancel [] rid user s = (r, s')"
  then show "pg_ok s' \<and> pg_view s' = routine_spec cr (CancelRow rid user) (pg_view s) \<and> r = Inr (owns user (pg_view s rid))"
    using pg_cancel_spec by blast
qed

lemma arrange_ok_sort: "arrange_ok (sort_key db_next_fire_at)"
  by (simp add: arrange_ok_def)

interpretation postgres_routines: routine_store cr False pg_ok pg_view "pg_add []"
  "pg_claim_due cr (sort_key db_next_fire_at) (\<lambda>_. False) []" "pg_cancel []" for cr
  by (rule pg_routine_store [OF arrange_ok_sort])

section \<open>What follows for every store\<close>

text \<open>Operations that leave a routine to its owner and the scheduler: additions under other names or by
  other users, cancellations by other users, and claims.\<close>

fun spares :: "string \<Rightarrow> string \<Rightarrow> routine_op \<Rightarrow> bool" where
  "spares rid user (AddRow uuid row) \<longleftrightarrow> row_key uuid row \<noteq> rid \<or> rr_user_id row \<noteq> user"
| "spares rid user (CancelRow rid' user') \<longleftrightarrow> rid' \<noteq> rid \<or> user' \<noteq> user"
| "spares rid user (ClaimDue cursor) \<longleftrightarrow> True"

lemma next_cron_fire_later: "cron_ok cr \<Longrightarrow> next_cron_fire cr s t = Inr n \<Longrightarrow> t < n"
  by (auto simp: next_cron_fire_def cron_ok_def split: if_splits option.splits)

lemma advance_later:
  assumes "cron_ok cr" and "spec_advance cr cursor r = Some r'"
  shows "\<exists>n. rr_next_fire_at r \<le> n \<and> r' = r\<lparr>rr_next_fire_at := n\<rparr> \<and> cursor < n"
proof (cases "rr_next_fire_at r \<le> cursor")
  case True
  then obtain n where "next_cron_fire cr (rr_schedule r) cursor = Inr n" "r' = r\<lparr>rr_next_fire_at := n\<rparr>"
    using assms(2) by (auto simp: spec_advance_def split: sum.splits)
  then show ?thesis using True next_cron_fire_later [OF assms(1), of "rr_schedule r" cursor n] by (intro exI [of _ n]) simp
next
  case False
  then have "r' = r\<lparr>rr_next_fire_at := rr_next_fire_at r\<rparr>" using assms(2) by (simp add: spec_advance_def)
  then show ?thesis using False by (intro exI [of _ "rr_next_fire_at r"]) simp
qed

definition later :: "routine_row \<Rightarrow> routine_row \<Rightarrow> bool" where
  "later r r' \<longleftrightarrow> (\<exists>n. rr_next_fire_at r \<le> n \<and> r' = r\<lparr>rr_next_fire_at := n\<rparr>)"

lemma later_refl [simp]: "later r r"
  by (auto simp: later_def intro: exI [of _ "rr_next_fire_at r"])

lemma later_trans: "later r r' \<Longrightarrow> later r' r'' \<Longrightarrow> later r r''"
proof -
  assume "later r r'" and "later r' r''"
  then obtain n k where "rr_next_fire_at r \<le> n" "r' = r\<lparr>rr_next_fire_at := n\<rparr>" "n \<le> k" "r'' = r\<lparr>rr_next_fire_at := k\<rparr>"
    by (auto simp: later_def)
  then show ?thesis unfolding later_def by (intro exI [of _ k]) simp
qed

lemma later_user: "later r r' \<Longrightarrow> rr_user_id r' = rr_user_id r"
  by (auto simp: later_def)

lemma spare_step:
  assumes "cron_ok cr" and "m rid = Some r" and "spares rid (rr_user_id r) x" and "routine_spec cr x m rid = Some r'"
  shows "later r r'"
proof (cases x)
  case (ClaimDue cursor)
  then show ?thesis using advance_later [OF assms(1), of cursor r r'] assms(2,4) by (auto simp: later_def)
qed (use assms(2-4) in \<open>auto simp: owns_def Let_def split: if_splits\<close>)

text \<open>The routine can only go when a claim finds no further date for it.\<close>

lemma spare_drop:
  assumes "m rid = Some r" and "spares rid (rr_user_id r) x" and "routine_spec cr x m rid = None"
  shows "\<exists>cursor. x = ClaimDue cursor \<and> rr_next_fire_at r \<le> cursor \<and> \<not> fires_again cr cursor r"
proof (cases x)
  case (ClaimDue cursor)
  then show ?thesis using assms(1,3) by (auto simp: spec_advance_def fires_again_def split: if_splits sum.splits)
qed (use assms in \<open>auto simp: owns_def Let_def split: if_splits\<close>)

definition always_fires :: "cron \<Rightarrow> routine_row \<Rightarrow> bool" where
  "always_fires cr r \<longleftrightarrow> (\<forall>cursor. fires_again cr cursor r)"

lemma always_fires_later: "later r r' \<Longrightarrow> always_fires cr r' \<longleftrightarrow> always_fires cr r"
  by (auto simp: later_def always_fires_def fires_again_def)

lemma spare_run:
  assumes "cron_ok cr" and "m rid = Some r" and "always_fires cr r" and "list_all (spares rid (rr_user_id r)) ops"
  shows "\<exists>r'. fold (routine_spec cr) ops m rid = Some r' \<and> later r r'"
  using assms(2-4)
proof (induction ops arbitrary: m r)
  case (Cons x ops)
  obtain r1 where r1: "routine_spec cr x m rid = Some r1"
    using spare_drop [of m rid r x cr] Cons.prems by (cases "routine_spec cr x m rid") (auto simp: always_fires_def)
  have l: "later r r1" using spare_step [OF assms(1) _ _ r1] Cons.prems by simp
  from Cons.IH [of "routine_spec cr x m" r1] obtain r' where "fold (routine_spec cr) ops (routine_spec cr x m) rid = Some r'" "later r1 r'"
    using r1 Cons.prems l by (auto simp: always_fires_later later_user)
  then show ?case using l later_trans by auto
qed simp

text \<open>After a claim nothing is due at its instant; without a new addition of the routine it stays so.\<close>

fun readds :: "string \<Rightarrow> routine_op \<Rightarrow> bool" where
  "readds rid (AddRow uuid row) \<longleftrightarrow> row_key uuid row = rid"
| "readds rid _ \<longleftrightarrow> False"

definition beyond :: "int \<Rightarrow> routine_row option \<Rightarrow> bool" where
  "beyond n x \<longleftrightarrow> (case x of None \<Rightarrow> True | Some r \<Rightarrow> n \<le> rr_next_fire_at r)"

lemma beyond_step: "cron_ok cr \<Longrightarrow> beyond n (m rid) \<Longrightarrow> \<not> readds rid x \<Longrightarrow> beyond n (routine_spec cr x m rid)"
proof (cases x)
  case (ClaimDue cursor)
  assume "cron_ok cr" "beyond n (m rid)"
  then show ?thesis using ClaimDue advance_later [of cr cursor]
    by (auto simp: beyond_def split: option.splits Option.bind_splits) force
qed (auto simp: beyond_def owns_def Let_def split: option.splits if_splits)

lemma beyond_run: "cron_ok cr \<Longrightarrow> beyond n (m rid) \<Longrightarrow> list_all (\<lambda>x. \<not> readds rid x) ops \<Longrightarrow>
    beyond n (fold (routine_spec cr) ops m rid)"
proof (induction ops arbitrary: m)
  case (Cons x ops)
  then show ?case using beyond_step [of cr n m rid x] by simp
qed simp

lemma claim_beyond:
  assumes "cron_ok cr" and "m rid = Some r" and "rr_next_fire_at r \<le> cursor"
  shows "case next_cron_fire cr (rr_schedule r) cursor of Inl _ \<Rightarrow> routine_spec cr (ClaimDue cursor) m rid = None
    | Inr n \<Rightarrow> cursor < n \<and> beyond n (routine_spec cr (ClaimDue cursor) m rid)"
  using assms next_cron_fire_later [OF assms(1)]
  by (auto simp: spec_advance_def beyond_def split: sum.splits)

context routine_store
begin

lemma owner_keeps:
  assumes "cron_ok cr" and "ok s" and "list_all storable ops" and "run_routine_ops add claim cancel ops s = (as, s')"
    and "view s rid = Some r" and "always_fires cr r" and "list_all (spares rid (rr_user_id r)) ops"
  shows "\<exists>r'. view s' rid = Some r' \<and> later r r'"
  using run_refines [OF assms(2-4)] spare_run [of cr "view s" rid r ops, OF assms(1,5-7)] by simp

lemma claimed_row:
  assumes "ok s" and "claim cursor s = (Inr rows, s')" and "r \<in> set rows"
  shows "view s (rr_id r) = Some (forget r) \<and> rr_next_fire_at r \<le> cursor"
proof -
  have "forget r \<in> due cursor (view s)" using claim_law [OF assms(1,2)] assms(3) by auto
  then obtain rid where "view s rid = Some (forget r)" "rr_next_fire_at r \<le> cursor" by (auto simp: due_def ran_def)
  then show ?thesis using keyed [OF assms(1)] by fastforce
qed

lemma fires_once:
  assumes "cron_ok cr" and "ok s" and "claim c s = (Inr rows, s1)" and "r \<in> set rows"
    and "list_all storable ops" and "run_routine_ops add claim cancel ops s1 = (as, s2)"
    and "list_all (\<lambda>x. \<not> readds (rr_id r) x) ops"
    and "claim c' s2 = (Inr rows', s3)" and "r' \<in> set rows'" and "rr_id r' = rr_id r"
  shows "\<exists>n. next_cron_fire cr (rr_schedule r) c = Inr n \<and> c < n \<and> n \<le> c'"
proof -
  have r: "view s (rr_id r) = Some (forget r)" "rr_next_fire_at (forget r) \<le> c" using claimed_row [OF assms(2-4)] by simp_all
  have ok1: "ok s1" and v1: "view s1 = routine_spec cr (ClaimDue c) (view s)" using claim_law [OF assms(2,3)] by blast+
  have ok2: "ok s2" and v2: "view s2 = fold (routine_spec cr) ops (view s1)" using run_refines [OF ok1 assms(5,6)] by blast+
  have r': "view s2 (rr_id r) = Some (forget r')" "rr_next_fire_at r' \<le> c'" using claimed_row [OF ok2 assms(8,9)] assms(10) by simp_all
  note cl = claim_beyond [of cr "view s" "rr_id r" "forget r" c, OF assms(1) r]
  show ?thesis
  proof (cases "next_cron_fire cr (rr_schedule r) c")
    case (Inl e)
    then have "view s1 (rr_id r) = None" using cl v1 by simp
    then have "beyond (c' + 1) (view s1 (rr_id r))" by (simp add: beyond_def)
    from beyond_run [of cr _ "view s1", OF assms(1) this assms(7)] show ?thesis using r' by (simp add: v2 [symmetric] beyond_def)
  next
    case (Inr n)
    then have n: "c < n" "beyond n (view s1 (rr_id r))" using cl v1 by simp_all
    from beyond_run [of cr _ "view s1", OF assms(1) n(2) assms(7)] show ?thesis using r' n(1) Inr by (simp add: v2 [symmetric] beyond_def)
  qed
qed

end

section \<open>Listing\<close>

definition routines_of :: "string \<Rightarrow> (string \<rightharpoonup> routine_row) \<Rightarrow> routine_row set" where
  "routines_of user m = {r \<in> ran m. rr_user_id r = user}"

lemma mem_list_spec:
  assumes "mem_ok st"
  shows "forget ` set (mem_list_for_user user st) = routines_of user (mem_view st)"
    "sorted (map rr_next_fire_at (mem_list_for_user user st))"
  by (auto simp: mem_list_for_user_def routines_of_def ran_mem_view [OF mem_ok_wf [OF assms]])

lemma rows_to_routines_map: "\<forall>r \<in> set rs. row_to_routine r = Inr (routine_of r) \<Longrightarrow> rows_to_routines rs = Inr (map routine_of rs)"
  by (induction rs) simp_all

lemma pg_list_spec:
  assumes "pg_ok t" and "arrange_ok arrange"
  shows "\<exists>rows. pg_list_for_user arrange [] user t = Inr rows \<and> forget ` set rows = routines_of user (pg_view t) \<and>
    sorted (map rr_next_fire_at rows)"
proof -
  let ?sel = "arrange (filter (\<lambda>r. db_user_id r = user) t)"
  have m: "mset ?sel = mset (filter (\<lambda>r. db_user_id r = user) t)" and sorted: "sorted (map db_next_fire_at ?sel)"
    using assms(2) by (simp_all add: arrange_ok_def)
  have set: "set ?sel = {r \<in> set t. db_user_id r = user}" using mset_eq_setD [OF m] by simp
  have reads: "row_to_routine r = Inr (routine_of r)" if "r \<in> set t" for r using assms(1) that by (simp add: pg_ok_def)
  have "pg_list_for_user arrange [] user t = Inr (map routine_of ?sel)"
    using set reads by (simp add: pg_list_for_user_def SELECT_USER_SQL_def rows_to_routines_map)
  moreover have "map rr_next_fire_at (map routine_of ?sel) = map db_next_fire_at ?sel"
    using set reads routine_of_fields(4) by simp
  moreover have "forget ` set (map routine_of ?sel) = routines_of user (pg_view t)"
    using reads routine_of_fields(2) by (auto simp: set routines_of_def ran_pg_view [OF assms(1)])
  ultimately show ?thesis using sorted by (intro exI [of _ "map routine_of ?sel"]) (simp only:)
qed

section \<open>Operations that are retried\<close>

text \<open>An operation that changes nothing when it is repeated may be retried.\<close>

lemma retry_fixpoint:
  assumes "op s = Inr (b, s)" and "retry_on_disconnect n faults op s = (r, s')"
  shows "s' = s \<and> (r = Inr b \<or> (\<exists>e. r = Inl e))"
  using assms(2)
proof (induction n arbitrary: faults)
  case (Suc n)
  then show ?case using assms(1) by (cases "case faults of [] \<Rightarrow> Completes | f # _ \<Rightarrow> f") auto
qed auto

lemma retry_once:
  assumes "op s = Inr (a, s1)" and "op s1 = Inr (b, s1)" and "retry_on_disconnect n faults op s = (r, s')"
  shows "(r = Inr a \<and> s' = s1) \<or> (r = Inr b \<and> s' = s1) \<or> ((\<exists>e. r = Inl e) \<and> (s' = s \<or> s' = s1))"
  using assms(3)
proof (induction n arbitrary: faults)
  case (Suc n)
  note fix1 = retry_fixpoint [of op s1, OF assms(2), of n "tl faults" r s']
  show ?case using Suc assms(1) fix1 by (cases "case faults of [] \<Rightarrow> Completes | f # _ \<Rightarrow> f") auto
qed auto

lemma INSERT_idem: "INSERT_SQL new (INSERT_SQL new t) = INSERT_SQL new t"
  by (induction t) (auto simp: upsert_row_def)

lemma arrange_Nil: "arrange_ok arrange \<Longrightarrow> arrange [] = []"
  by (auto simp: arrange_ok_def dest: spec [of _ "[]"])

lemma pg_claim_again:
  assumes "pg_ok t" and "arrange_ok arrange" and "cron_ok cr" and "pg_claim_once cr arrange locked cursor t = Inr (rows, t')"
  shows "pg_claim_once cr arrange locked cursor t' = Inr ([], t')"
proof -
  have ok: "pg_ok t'" and b: "by_id t' = (\<lambda>rid. Option.bind (by_id t rid)
      (\<lambda>r. if db_next_fire_at r \<le> cursor \<and> \<not> locked rid then db_advance cr cursor r else Some r))"
    using pg_claim_once_spec [OF assms(1,2), of cr locked cursor] assms(4) by auto
  have "\<not> (db_next_fire_at r \<le> cursor \<and> \<not> locked (db_id r))" if "r \<in> set t'" for r
  proof -
    have "by_id t' (db_id r) = Some r" using that by_id_mem [OF pg_ok_distinct [OF ok]] by simp
    then obtain x where "(if db_next_fire_at x \<le> cursor \<and> \<not> locked (db_id r) then db_advance cr cursor x else Some x) = Some r"
      unfolding b by (cases "by_id t (db_id r)") auto
    then show ?thesis using next_cron_fire_later [OF assms(3)]
      by (auto simp: db_advance_def split: if_splits sum.splits) force
  qed
  then have "CLAIM_DUE_SQL arrange locked cursor t' = []"
    by (simp add: CLAIM_DUE_SQL_def arrange_Nil [OF assms(2)] cong: filter_cong)
  then show ?thesis by (simp add: pg_claim_once_def)
qed

section \<open>Properties\<close>

fun answers_agree :: "cron \<Rightarrow> routine_op list \<Rightarrow> routine_answer list \<Rightarrow> routine_answer list \<Rightarrow> bool" where
  "answers_agree cr (ClaimDue c # ops) (Claimed (Inr xs) # as) (Claimed (Inr ys) # bs) \<longleftrightarrow>
     distinct (map rr_id xs) \<and> distinct (map rr_id ys) \<and>
     forget ` set ys = {x \<in> forget ` set xs. fires_again cr c x} \<and> answers_agree cr ops as bs"
| "answers_agree cr (_ # ops) (a # as) (b # bs) \<longleftrightarrow> a = b \<and> answers_agree cr ops as bs"
| "answers_agree cr [] as bs \<longleftrightarrow> as = [] \<and> bs = []"
| "answers_agree cr _ _ _ \<longleftrightarrow> False"

lemma answers_ok_agree: "answers_ok True cr m ops as \<Longrightarrow> answers_ok False cr m ops bs \<Longrightarrow> answers_agree cr ops as bs"
proof (induction True cr m ops as arbitrary: bs rule: answers_ok.induct)
  case (2 cr m x ops a as)
  obtain b bs' where bs: "bs = b # bs'" using 2(3) by (cases bs) simp_all
  have ih: "answers_agree cr ops as bs'" using 2 bs by simp
  show ?case
  proof (cases x)
    case (ClaimDue c)
    then obtain xs ys where "a = Claimed (Inr xs)" "b = Claimed (Inr ys)"
      "answer_ok True cr m (ClaimDue c) (Claimed (Inr xs))" "answer_ok False cr m (ClaimDue c) (Claimed (Inr ys))"
      using 2(2,3) bs by (cases a; cases b) auto
    then show ?thesis using ih ClaimDue bs by auto
  next
    case (AddRow u row)
    then show ?thesis using 2(2,3) ih bs by (cases a; cases b) auto
  next
    case (CancelRow rid user)
    then show ?thesis using 2(2,3) ih bs by (cases a; cases b) auto
  qed
qed auto

text \<open>A routine every hour, for the concrete runs below: its next date is the next multiple of 3600.\<close>

definition hourly :: cron where
  "hourly = \<lparr>croniter_valid = (\<lambda>s. True), croniter_next = (\<lambda>s t. Some ((t div 3600 + 1) * 3600))\<rparr>"

definition demo_routine :: "string \<Rightarrow> string \<Rightarrow> int \<Rightarrow> routine_row" where
  "demo_routine rid user first_at = \<lparr>rr_id = rid, rr_user_id = user, rr_app_name = ''app'', rr_schedule = ''0 * * * *'', rr_task = ''t'',
     rr_secrets = [PyStr ''KEY''], rr_delivery = ''report_back'', rr_next_fire_at = first_at, rr_created_at = 0\<rparr>"

lemma hourly_ok: "cron_ok hourly"
proof -
  have "t < (t div 3600 + 1) * 3600" for t :: int by presburger
  then show ?thesis by (auto simp: cron_ok_def hourly_def)
qed

lemma hourly_fires: "rr_schedule r \<noteq> [] \<Longrightarrow> always_fires hourly r"
  by (simp add: always_fires_def fires_again_def next_cron_fire_def is_valid_cron_def hourly_def)

abbreviation in_order :: "db_table \<Rightarrow> db_table" where
  "in_order \<equiv> sort_key db_next_fire_at"

definition demo_table :: "int \<Rightarrow> db_table" where
  "demo_table first_at = [routine_to_row ''r'' (demo_routine ''r'' ''ann'' first_at)]"

lemma demo_routine_of: "row_to_routine (routine_to_row ''r'' (demo_routine ''r'' ''ann'' n)) = Inr (demo_routine ''r'' ''ann'' n)"
  using row_roundtrip [of "demo_routine ''r'' ''ann'' n" "''r''"] by (simp add: demo_routine_def)

lemma demo_table_ok: "pg_ok (demo_table n)" "pg_view (demo_table n) ''r'' = Some (demo_routine ''r'' ''ann'' n)"
proof -
  have of_row: "routine_of (routine_to_row ''r'' (demo_routine ''r'' ''ann'' n)) = demo_routine ''r'' ''ann'' n"
    by (rule routine_of_Inr [OF demo_routine_of])
  show "pg_ok (demo_table n)" by (simp add: pg_ok_def demo_table_def of_row demo_routine_of)
  have "by_id (demo_table n) ''r'' = Some (routine_to_row ''r'' (demo_routine ''r'' ''ann'' n))"
    by (simp add: demo_table_def by_id_Cons) (simp add: routine_to_row_def)
  then show "pg_view (demo_table n) ''r'' = Some (demo_routine ''r'' ''ann'' n)"
    by (simp add: pg_view_def of_row) (simp add: forget_def demo_routine_def)
qed

lemma demo_claims:
  "pg_claim_due hourly in_order (\<lambda>_. False) [] 10 (demo_table 0) = (Inr [demo_routine ''r'' ''ann'' 0], demo_table 3600)"
  "pg_claim_due hourly in_order (\<lambda>_. False) [] 4000 (demo_table 3600) = (Inr [demo_routine ''r'' ''ann'' 3600], demo_table 7200)"
  "pg_claim_due hourly in_order (\<lambda>_. False) [DropsAfter] 10 (demo_table 0) = (Inr [], demo_table 3600)"
  by code_simp+

text \<open>C20: The two routine stores differ in two respects only: run on the same additions, claims and
  cancellations from empty, the store in memory and the one in PostgreSQL, in whatever order the
  database returns rows of equal time, hold the same routines, compared without their creation time (an edit
  overwrites it in memory and keeps it in the table), give the same answers to additions and cancellations, and
  at each claim PostgreSQL gives out, each once, exactly those routines the memory gives out that have a
  next date after the claim.\<close>

theorem routine_stores_agree:
  assumes "arrange_ok arrange" and "list_all storable ops"
    and "run_routine_ops (\<lambda>uuid row st. apfst Inr (mem_add uuid row st)) (\<lambda>c st. apfst Inr (mem_claim_due cr c st))
      (\<lambda>rid user st. apfst Inr (mem_cancel rid user st)) ops [] = (as, st)"
    and "run_routine_ops (pg_add []) (pg_claim_due cr arrange (\<lambda>_. False) []) (pg_cancel []) ops [] = (bs, t)"
  shows "mem_view st = pg_view t \<and> answers_agree cr ops as bs"
proof -
  have "mem_ok []" "pg_ok []" by (simp_all add: mem_ok_def dict_wf_def pg_ok_def)
  moreover have "mem_view [] = Map.empty" "pg_view [] = Map.empty" by (simp_all add: mem_view_def pg_view_def fun_eq_iff)
  ultimately show ?thesis
    using memory_routines.run_refines [OF _ assms(2,3)] answers_ok_agree
      routine_store.run_refines [OF pg_routine_store [OF assms(1)] _ assms(2,4)] by metis
qed

theorem routine_stores_agree_witness:
  "\<exists>as st bs t. run_routine_ops (\<lambda>uuid row st. apfst Inr (mem_add uuid row st)) (\<lambda>c st. apfst Inr (mem_claim_due hourly c st))
      (\<lambda>rid user st. apfst Inr (mem_cancel rid user st)) [AddRow [] (demo_routine ''r'' ''ann'' 0), ClaimDue 10] [] = (as, st) \<and>
    run_routine_ops (pg_add []) (pg_claim_due hourly in_order (\<lambda>_. False) []) (pg_cancel [])
      [AddRow [] (demo_routine ''r'' ''ann'' 0), ClaimDue 10] [] = (bs, t) \<and>
    mem_view st = pg_view t \<and> answers_agree hourly [AddRow [] (demo_routine ''r'' ''ann'' 0), ClaimDue 10] as bs"
proof -
  let ?ops = "[AddRow [] (demo_routine ''r'' ''ann'' 0), ClaimDue 10]"
  obtain as st where m: "run_routine_ops (\<lambda>uuid row st. apfst Inr (mem_add uuid row st))
      (\<lambda>c st. apfst Inr (mem_claim_due hourly c st)) (\<lambda>rid user st. apfst Inr (mem_cancel rid user st)) ?ops [] = (as, st)"
    by (rule prod.exhaust)
  obtain bs t where p: "run_routine_ops (pg_add []) (pg_claim_due hourly in_order (\<lambda>_. False) []) (pg_cancel []) ?ops [] = (bs, t)"
    by (rule prod.exhaust)
  have "list_all storable ?ops" by (simp add: demo_routine_def)
  from routine_stores_agree [OF arrange_ok_sort this m p] m p show ?thesis by blast
qed

text \<open>C21: A routine belongs to its owner, in either store: whatever other users add or cancel, under any
  identifier, and however often the scheduler claims, a routine whose schedule always has a next date stays
  with its owner, task, secrets and schedule, and its next date only moves forward.\<close>

theorem routine_belongs_to_owner:
  assumes "cron_ok cr" and "list_all storable ops" and "always_fires cr r" and "list_all (spares rid (rr_user_id r)) ops"
  shows "(mem_ok st \<and> mem_view st rid = Some r \<and>
      run_routine_ops (\<lambda>uuid row st. apfst Inr (mem_add uuid row st)) (\<lambda>c st. apfst Inr (mem_claim_due cr c st))
        (\<lambda>rid user st. apfst Inr (mem_cancel rid user st)) ops st = (as, st') \<longrightarrow>
      (\<exists>n. rr_next_fire_at r \<le> n \<and> mem_view st' rid = Some (r\<lparr>rr_next_fire_at := n\<rparr>))) \<and>
    (arrange_ok arrange \<and> pg_ok t \<and> pg_view t rid = Some r \<and>
      run_routine_ops (pg_add []) (pg_claim_due cr arrange (\<lambda>_. False) []) (pg_cancel []) ops t = (bs, t') \<longrightarrow>
      (\<exists>n. rr_next_fire_at r \<le> n \<and> pg_view t' rid = Some (r\<lparr>rr_next_fire_at := n\<rparr>)))"
proof (intro conjI impI; elim conjE)
  assume "mem_ok st" "mem_view st rid = Some r" "run_routine_ops (\<lambda>uuid row st. apfst Inr (mem_add uuid row st))
      (\<lambda>c st. apfst Inr (mem_claim_due cr c st)) (\<lambda>rid user st. apfst Inr (mem_cancel rid user st)) ops st = (as, st')"
  from memory_routines.owner_keeps [OF assms(1) this(1) assms(2) this(3,2) assms(3,4)]
  show "\<exists>n. rr_next_fire_at r \<le> n \<and> mem_view st' rid = Some (r\<lparr>rr_next_fire_at := n\<rparr>)" by (auto simp: later_def)
next
  assume "arrange_ok arrange" "pg_ok t" "pg_view t rid = Some r"
    "run_routine_ops (pg_add []) (pg_claim_due cr arrange (\<lambda>_. False) []) (pg_cancel []) ops t = (bs, t')"
  from routine_store.owner_keeps [OF pg_routine_store [OF this(1)] assms(1) this(2) assms(2) this(4,3) assms(3,4)]
  show "\<exists>n. rr_next_fire_at r \<le> n \<and> pg_view t' rid = Some (r\<lparr>rr_next_fire_at := n\<rparr>)" by (auto simp: later_def)
qed

theorem routine_belongs_to_owner_witness:
  "\<exists>as st' m bs t' n. run_routine_ops (\<lambda>uuid row st. apfst Inr (mem_add uuid row st)) (\<lambda>c st. apfst Inr (mem_claim_due hourly c st))
      (\<lambda>rid user st. apfst Inr (mem_cancel rid user st))
      [AddRow [] (demo_routine ''r'' ''bob'' 5), CancelRow ''r'' ''bob'', ClaimDue 10] [(''r'', demo_routine ''r'' ''ann'' 0)] = (as, st') \<and>
     0 \<le> m \<and> mem_view st' ''r'' = Some ((demo_routine ''r'' ''ann'' 0)\<lparr>rr_next_fire_at := m\<rparr>) \<and>
    run_routine_ops (pg_add []) (pg_claim_due hourly in_order (\<lambda>_. False) []) (pg_cancel [])
      [AddRow [] (demo_routine ''r'' ''bob'' 5), CancelRow ''r'' ''bob'', ClaimDue 10] (demo_table 0) = (bs, t') \<and>
     0 \<le> n \<and> pg_view t' ''r'' = Some ((demo_routine ''r'' ''ann'' 0)\<lparr>rr_next_fire_at := n\<rparr>)"
proof -
  let ?ops = "[AddRow [] (demo_routine ''r'' ''bob'' 5), CancelRow ''r'' ''bob'', ClaimDue 10]"
  let ?r = "demo_routine ''r'' ''ann'' 0"
  obtain as st' where m: "run_routine_ops (\<lambda>uuid row st. apfst Inr (mem_add uuid row st)) (\<lambda>c st. apfst Inr (mem_claim_due hourly c st))
      (\<lambda>rid user st. apfst Inr (mem_cancel rid user st)) ?ops [(''r'', ?r)] = (as, st')"
    by (rule prod.exhaust)
  obtain bs t' where p: "run_routine_ops (pg_add []) (pg_claim_due hourly in_order (\<lambda>_. False) []) (pg_cancel []) ?ops (demo_table 0) = (bs, t')"
    by (rule prod.exhaust)
  have "list_all storable ?ops" "always_fires hourly ?r" "list_all (spares ''r'' (rr_user_id ?r)) ?ops"
    by (simp_all add: demo_routine_def hourly_fires)
  note owner = routine_belongs_to_owner [OF hourly_ok this, where ?t = "demo_table 0" and ?st = "[(''r'', ?r)]"]
  have "mem_ok [(''r'', ?r)]" "mem_view [(''r'', ?r)] ''r'' = Some ?r"
    by (simp_all add: mem_ok_def dict_wf_def mem_view_def forget_def demo_routine_def)
  then have "\<exists>n. 0 \<le> n \<and> mem_view st' ''r'' = Some (?r\<lparr>rr_next_fire_at := n\<rparr>)"
    using conjunct1 [OF owner] m by (simp add: demo_routine_def) 
  moreover have "\<exists>n. 0 \<le> n \<and> pg_view t' ''r'' = Some (?r\<lparr>rr_next_fire_at := n\<rparr>)"
    using conjunct2 [OF owner] p demo_table_ok [of 0] arrange_ok_sort by (simp add: demo_routine_def)
  ultimately show ?thesis using m p by blast
qed

text \<open>C22: A routine fires at most once for each date: if a claim at \<open>c\<close> gives a routine to a tick and, after
  any other operations that do not add it anew, a claim at \<open>c'\<close> gives it out again, its schedule has a
  date after \<open>c\<close> that has passed by \<open>c'\<close>.\<close>

theorem routine_fires_once_per_date:
  assumes "cron_ok cr" and "arrange_ok arrange" and "pg_ok t"
    and "pg_claim_due cr arrange (\<lambda>_. False) [] c t = (Inr rows, t1)" and "r \<in> set rows"
    and "list_all storable ops"
    and "run_routine_ops (pg_add []) (pg_claim_due cr arrange (\<lambda>_. False) []) (pg_cancel []) ops t1 = (as, t2)"
    and "list_all (\<lambda>x. \<not> readds (rr_id r) x) ops"
    and "pg_claim_due cr arrange (\<lambda>_. False) [] c' t2 = (Inr rows', t3)" and "r' \<in> set rows'" and "rr_id r' = rr_id r"
  shows "\<exists>n. next_cron_fire cr (rr_schedule r) c = Inr n \<and> c < n \<and> n \<le> c'"
  by (rule routine_store.fires_once [OF pg_routine_store [OF assms(2)] assms(1,3-11)])

theorem routine_fires_once_per_date_witness:
  "\<exists>n. next_cron_fire hourly (rr_schedule (demo_routine ''r'' ''ann'' 0)) 10 = Inr n \<and> 10 < n \<and> n \<le> 4000"
proof -
  have "run_routine_ops (pg_add []) (pg_claim_due hourly in_order (\<lambda>_. False) []) (pg_cancel []) [] (demo_table 3600) = ([], demo_table 3600)"
    by simp
  from routine_fires_once_per_date [OF hourly_ok arrange_ok_sort demo_table_ok(1) demo_claims(1) _ _ this _ demo_claims(2)]
  show ?thesis by (simp add: demo_routine_def)
qed

text \<open>A retried claim happens at most once: whatever connection drops, failures and locks of other
  transactions befall a claim, the table ends up unchanged or with the claim applied exactly once, and a
  claim that gives out a routine has moved each routine it gives out past its instant.\<close>

theorem retried_claim_applies_once:
  assumes "cron_ok cr" and "arrange_ok arrange" and "pg_ok t"
    and "pg_claim_due cr arrange locked faults cursor t = (r, t')"
  shows "\<exists>rows t1. pg_claim_once cr arrange locked cursor t = Inr (rows, t1) \<and> (t' = t \<or> t' = t1) \<and>
    (\<forall>out. r = Inr out \<longrightarrow> t' = t1 \<and> (out = rows \<or> out = [])) \<and>
    list_all (\<lambda>x. \<not> locked (rr_id x) \<and> rr_next_fire_at x \<le> cursor) rows"
proof -
  obtain rows t1 where once: "pg_claim_once cr arrange locked cursor t = Inr (map routine_of rows, t1)"
    and rows: "set rows \<subseteq> {r \<in> set t. db_next_fire_at r \<le> cursor \<and> \<not> locked (db_id r)}"
    using pg_claim_once_spec [OF assms(3,2), of cr locked cursor] by blast
  have "list_all (\<lambda>x. \<not> locked (rr_id x) \<and> rr_next_fire_at x \<le> cursor) (map routine_of rows)"
    using rows assms(3) routine_of_fields by (force simp: list_all_iff pg_ok_def)
  moreover have "(r = Inr (map routine_of rows) \<and> t' = t1) \<or> (r = Inr [] \<and> t' = t1) \<or> ((\<exists>e. r = Inl e) \<and> (t' = t \<or> t' = t1))"
    by (rule retry_once [OF once pg_claim_again [OF assms(3,2,1) once] assms(4) [unfolded pg_claim_due_def]])
  ultimately show ?thesis using once by (intro exI [of _ "map routine_of rows"] exI [of _ t1]) auto
qed

theorem retried_claim_applies_once_witness:
  "\<exists>rows. pg_claim_due hourly in_order (\<lambda>_. False) [DropsAfter] 10 (demo_table 0) = (Inr [], demo_table 3600) \<and>
     pg_claim_once hourly in_order (\<lambda>_. False) 10 (demo_table 0) = Inr (rows, demo_table 3600)"
  using retried_claim_applies_once [OF hourly_ok arrange_ok_sort demo_table_ok(1) demo_claims(3)] demo_claims(3) by auto

end
