(* ===== verification/Secrets.thy ===== *)
theory Secrets
  imports Json_Roundtrip Py_Text
begin

text \<open>
  Secrets of a user: the parser of \<open>KEY=VALUE\<close> blobs (\<open>secrets/dotenv.py\<close>) and the two secret stores
  (\<open>secrets/store.py\<close>). The client of the remote secret service is the record \<open>secret_client\<close>;
  \<open>client_ok\<close> is what its documentation promises. What both stores promise their users is the
  locale \<open>secret_store\<close>.
\<close>

section \<open>dotenv.py\<close>

record skipped =
  sk_lineno :: nat
  sk_reason :: string

record parsed_dotenv =
  entries :: "(string \<times> string) list"
  skipped_lines :: "skipped list"

definition key_start :: "char \<Rightarrow> bool" where
  "key_start c \<longleftrightarrow> c \<in> set ''abcdefghijklmnopqrstuvwxyzABCDEFGHIJKLMNOPQRSTUVWXYZ_''"

definition valid_key :: "string \<Rightarrow> bool" where
  "valid_key k \<longleftrightarrow> (case k of [] \<Rightarrow> False | c # cs \<Rightarrow> key_start c \<and> list_all (\<lambda>d. key_start d \<or> ascii_digit d) cs)"

text \<open>What precedes the first occurrence of a blank and a hash sign.\<close>

fun before_comment :: "string \<Rightarrow> string" where
  "before_comment [] = []"
| "before_comment (c # s) = (if startswith (c # s) '' #'' then [] else c # before_comment s)"

definition unquote :: "string \<Rightarrow> string" where
  "unquote value =
     (let stripped = py_strip value
      in if length stripped \<ge> 2 \<and> hd stripped = last stripped \<and> hd stripped \<in> {SQUOTE, DQUOTE}
         then butlast (tl stripped)
         else py_strip (before_comment value))"

definition strip_export :: "string \<Rightarrow> string" where
  "strip_export line = (if startswith line ''export '' then lstrip_chars py_isspace (drop 7 line) else line)"

fun parse_lines :: "nat \<Rightarrow> string list \<Rightarrow> parsed_dotenv \<Rightarrow> parsed_dotenv" where
  "parse_lines n [] acc = acc"
| "parse_lines n (raw # ls) acc =
     (let line0 = py_strip raw
      in if line0 = [] \<or> startswith line0 ''#'' then parse_lines (n + 1) ls acc
         else
           (let line = strip_export line0
            in if CHR ''='' \<notin> set line
               then parse_lines (n + 1) ls (acc\<lparr>skipped_lines := skipped_lines acc
                      @ [\<lparr>sk_lineno = n, sk_reason = ''no '='' @ [SQUOTE]\<rparr>]\<rparr>)
               else
                 (let key = py_strip (takeWhile (\<lambda>c. c \<noteq> CHR ''='') line);
                      value = tl (dropWhile (\<lambda>c. c \<noteq> CHR ''='') line)
                  in if \<not> valid_key key
                     then parse_lines (n + 1) ls (acc\<lparr>skipped_lines := skipped_lines acc
                            @ [\<lparr>sk_lineno = n, sk_reason = ''invalid key name''\<rparr>]\<rparr>)
                     else parse_lines (n + 1) ls (acc\<lparr>entries := dict_set (entries acc) key (unquote value)\<rparr>))))"

definition parse_dotenv :: "string \<Rightarrow> parsed_dotenv" where
  "parse_dotenv text = parse_lines 1 (py_splitlines text) \<lparr>entries = [], skipped_lines = []\<rparr>"

section \<open>Reading back a written file\<close>

text \<open>The lines of a file: an assignment with a quoted or an unquoted value, the latter possibly with a
  comment behind it, a comment, a blank line, a line that is no assignment, and an assignment to a
  name that is none.\<close>

datatype env_row = EnvEntry bool string char string | EnvPlain bool string string "string option"
  | EnvNote string string | EnvBlank string | EnvJunk string | EnvBadKey bool string string

definition export_word :: "bool \<Rightarrow> string" where
  "export_word ex = (if ex then ''export '' else [])"

fun env_line :: "env_row \<Rightarrow> string" where
  "env_line (EnvEntry ex k q v) = export_word ex @ k @ ''='' @ [q] @ v @ [q]"
| "env_line (EnvPlain ex k v remark) = export_word ex @ k @ ''='' @ v @ (case remark of None \<Rightarrow> [] | Some c \<Rightarrow> '' #'' @ c)"
| "env_line (EnvNote pad s) = pad @ CHR ''#'' # s"
| "env_line (EnvBlank pad) = pad"
| "env_line (EnvJunk s) = s"
| "env_line (EnvBadKey ex k v) = export_word ex @ k @ ''='' @ v"

definition single_line :: "string \<Rightarrow> bool" where
  "single_line s \<longleftrightarrow> list_all (\<lambda>c. \<not> line_break c) s"

fun env_row_ok :: "env_row \<Rightarrow> bool" where
  "env_row_ok (EnvEntry ex k q v) \<longleftrightarrow> valid_key k \<and> q \<in> {SQUOTE, DQUOTE} \<and> single_line v"
| "env_row_ok (EnvPlain ex k v remark) \<longleftrightarrow> valid_key k \<and> single_line v \<and> py_strip v = v \<and> \<not> contains v '' #'' \<and>
     \<not> startswith v [SQUOTE] \<and> \<not> startswith v [DQUOTE] \<and> (case remark of None \<Rightarrow> True | Some c \<Rightarrow> single_line c)"
| "env_row_ok (EnvNote pad s) \<longleftrightarrow> list_all py_isspace pad \<and> single_line pad \<and> single_line s"
| "env_row_ok (EnvBlank pad) \<longleftrightarrow> list_all py_isspace pad \<and> single_line pad"
| "env_row_ok (EnvJunk s) \<longleftrightarrow> single_line s \<and> py_strip s \<noteq> [] \<and> \<not> startswith (py_strip s) ''#'' \<and> CHR ''='' \<notin> set s"
| "env_row_ok (EnvBadKey ex k v) \<longleftrightarrow> single_line k \<and> single_line v \<and> CHR ''='' \<notin> set k \<and> py_strip k = k \<and> \<not> valid_key k \<and>
     (ex \<or> \<not> startswith k ''#'' \<and> \<not> startswith k ''export '')"

fun env_entry :: "env_row \<Rightarrow> (string \<times> string) list \<Rightarrow> (string \<times> string) list" where
  "env_entry (EnvEntry ex k q v) d = dict_set d k v"
| "env_entry (EnvPlain ex k v remark) d = dict_set d k v"
| "env_entry _ d = d"

fun env_skips :: "nat \<Rightarrow> env_row list \<Rightarrow> skipped list" where
  "env_skips n [] = []"
| "env_skips n (EnvJunk s # rows) = \<lparr>sk_lineno = n, sk_reason = ''no '='' @ [SQUOTE]\<rparr> # env_skips (n + 1) rows"
| "env_skips n (EnvBadKey ex k v # rows) = \<lparr>sk_lineno = n, sk_reason = ''invalid key name''\<rparr> # env_skips (n + 1) rows"
| "env_skips n (_ # rows) = env_skips (n + 1) rows"

lemma key_char: 
  assumes "key_start c \<or> ascii_digit c"
  shows "\<not> py_isspace c" "\<not> line_break c" "c \<noteq> CHR ''=''" "c \<noteq> CHR ''#''"
  using assms by (auto simp: key_start_def ascii_digit_def py_isspace_def line_break_def)

lemma valid_key_chars: "valid_key k \<Longrightarrow> c \<in> set k \<Longrightarrow> key_start c \<or> ascii_digit c"
  by (auto simp: valid_key_def list_all_iff split: list.splits)

lemma valid_key_not_Nil: "valid_key k \<Longrightarrow> k \<noteq> []"
  by (auto simp: valid_key_def)

lemma py_strip_key: "valid_key k \<Longrightarrow> py_strip k = k"
  using key_char(1) valid_key_chars valid_key_not_Nil by (simp add: py_strip_fixed_iff)

lemma splitlines_whole: "list_all (\<lambda>l. list_all (\<lambda>c. \<not> line_break c) l) ls \<Longrightarrow>
    py_splitlines (concat (map (\<lambda>l. l @ [NL]) ls)) = ls"
proof (induction ls)
  case Nil
  then show ?case by (simp add: py_splitlines_def)
next
  case (Cons l ls)
  have "splitlines_from [] (l @ [NL]) = [l]"
    using Cons.prems splitlines_from_line [of l "[]"] by (simp add: list_all_iff)
  then show ?case
    using Cons splitlines_from_append [of "l @ [NL]" "[]" "concat (map (\<lambda>l. l @ [NL]) ls)"]
    by (simp add: py_splitlines_def)
qed

lemma valid_key_one_line: "valid_key k \<Longrightarrow> single_line k"
  using key_char(2) valid_key_chars by (auto simp: single_line_def list_all_iff)

lemma one_line_simps [simp]:
  "single_line []" "single_line (s @ t) \<longleftrightarrow> single_line s \<and> single_line t" "single_line (c # s) \<longleftrightarrow> \<not> line_break c \<and> single_line s"
  by (simp_all add: single_line_def)

lemma no_break_chars [simp]: "\<not> line_break CHR ''=''" "\<not> line_break CHR ''#''" "\<not> line_break CHR '' ''"
    "\<not> line_break SQUOTE" "\<not> line_break DQUOTE" "single_line (export_word ex)"
  by (simp_all add: line_break_def export_word_def)

lemma env_line_no_break: "env_row_ok r \<Longrightarrow> single_line (env_line r)"
  using valid_key_one_line by (cases r) (auto split: option.splits)

lemma py_strip_pad: "list_all py_isspace pad \<Longrightarrow> py_strip (pad @ s) = py_strip s"
  by (induction pad) (simp_all add: py_strip_def lstrip_chars_def)

text \<open>The rest of a line after a character that is no blank keeps all but its trailing blanks.\<close>

definition py_rstrip :: "string \<Rightarrow> string" where
  "py_rstrip s = rstrip_chars py_isspace s"

lemma py_strip_after:
  assumes "\<not> py_isspace d" and "a = [] \<or> \<not> py_isspace (hd a)"
  shows "py_strip (a @ d # s) = a @ d # py_rstrip s"
proof -
  have l: "dropWhile py_isspace (a @ d # s) = a @ d # s" using assms by (cases a) auto
  have "dropWhile py_isspace (rev s @ d # rev a) = dropWhile py_isspace (rev s) @ d # rev a"
    if "\<not> py_isspace d" for s using that by (induction s rule: rev_induct) auto
  from this [OF assms(1), of s] l show ?thesis
    by (simp add: py_strip_def py_rstrip_def lstrip_chars_def rstrip_chars_def)
qed

lemma py_rstrip_fixed: "py_strip v = v \<Longrightarrow> py_rstrip v = v"
  unfolding py_strip_fixed_iff by (cases v rule: rev_cases) (auto simp: py_rstrip_def rstrip_chars_def)

lemma startswith_before:
  "d \<notin> set p \<Longrightarrow> startswith (k @ d # s) p \<longleftrightarrow> startswith k p"
proof (induction k arbitrary: p)
  case Nil
  then show ?case by (cases p) (auto simp: startswith_def)
next
  case (Cons c k)
  then show ?case by (cases p) (auto simp: startswith_def)
qed

lemma strip_export_line:
  assumes "k = [] \<or> \<not> py_isspace (hd k)" and "ex \<or> \<not> startswith k ''export ''"
  shows "strip_export (export_word ex @ k @ CHR ''='' # t) = k @ CHR ''='' # t"
proof (cases ex)
  case True
  have "startswith (''export '' @ k @ CHR ''='' # t) ''export ''" by (rule startswith_append)
  moreover have "dropWhile py_isspace (k @ CHR ''='' # t) = k @ CHR ''='' # t"
    using assms(1) by (cases k) (auto simp: py_isspace_def)
  ultimately show ?thesis using True by (simp add: strip_export_def export_word_def lstrip_chars_def)
next
  case False
  with assms(2) have "\<not> startswith (k @ CHR ''='' # t) ''export ''"
    by (subst startswith_before) simp_all
  then show ?thesis using False by (simp add: strip_export_def export_word_def)
qed

text \<open>What the loop makes of a line with an equals sign.\<close>

lemma parse_assignment:
  assumes k: "CHR ''='' \<notin> set k" "py_strip k = k" and ex: "ex \<or> \<not> startswith k ''#'' \<and> \<not> startswith k ''export ''"
  shows "parse_lines n ((export_word ex @ k @ CHR ''='' # t) # ls) acc =
    (if valid_key k then parse_lines (n + 1) ls (acc\<lparr>entries := dict_set (entries acc) k (unquote (py_rstrip t))\<rparr>)
     else parse_lines (n + 1) ls (acc\<lparr>skipped_lines := skipped_lines acc @ [\<lparr>sk_lineno = n, sk_reason = ''invalid key name''\<rparr>]\<rparr>))"
proof -
  let ?l = "export_word ex @ k @ CHR ''='' # py_rstrip t"
  have hk: "k = [] \<or> \<not> py_isspace (hd k)" using k(2) by (auto simp: py_strip_fixed_iff)
  have strip: "py_strip (export_word ex @ k @ CHR ''='' # t) = ?l"
    using py_strip_after [of "CHR ''=''" "export_word ex @ k" t] hk
    by (cases ex) (auto simp: export_word_def py_isspace_def)
  have "\<not> startswith ?l ''#''"
  proof (cases ex)
    case False
    then show ?thesis using ex startswith_before [of "CHR ''=''" "''#''" k] by (simp add: export_word_def)
  qed (simp add: export_word_def startswith_Cons)
  moreover have "strip_export ?l = k @ CHR ''='' # py_rstrip t" using hk ex by (intro strip_export_line) auto
  moreover have "takeWhile (\<lambda>c. c \<noteq> CHR ''='') (k @ CHR ''='' # u) = k" for u using k(1) by (induction k) auto
  moreover have "dropWhile (\<lambda>c. c \<noteq> CHR ''='') (k @ CHR ''='' # u) = CHR ''='' # u" for u using k(1) by (induction k) auto
  ultimately show ?thesis by (simp add: strip Let_def k(2))
qed

lemma valid_key_plain:
  assumes "valid_key k"
  shows "CHR ''='' \<notin> set k" "py_strip k = k" "\<not> startswith k ''#''" "\<not> startswith k ''export ''"
proof -
  show "py_strip k = k" by (rule py_strip_key [OF assms])
  have c: "c \<noteq> CHR ''=''" "c \<noteq> CHR ''#''" "\<not> py_isspace c" if "c \<in> set k" for c
    using key_char [OF valid_key_chars [OF assms that]] by simp_all
  show "CHR ''='' \<notin> set k" using c(1) by blast
  show "\<not> startswith k ''#''" using c(2) [of "CHR ''#''"] by (auto simp: startswith_Cons)
  have "py_isspace (CHR '' '')" by (simp add: py_isspace_def)
  moreover have "CHR '' '' \<in> set (''export '' @ r)" for r by simp
  ultimately show "\<not> startswith k ''export ''" using c(3) unfolding startswith_iff by blast
qed

lemma parse_valid:
  assumes "valid_key k"
  shows "parse_lines n ((export_word ex @ k @ CHR ''='' # t) # ls) acc =
    parse_lines (n + 1) ls (acc\<lparr>entries := dict_set (entries acc) k (unquote (py_rstrip t))\<rparr>)"
  using parse_assignment [OF valid_key_plain(1,2) [OF assms], of ex] valid_key_plain(3,4) [OF assms] assms
  by (simp del: parse_lines.simps)

lemma unquote_quoted: "q \<in> {SQUOTE, DQUOTE} \<Longrightarrow> unquote (q # v @ [q]) = v"
proof -
  assume q: "q \<in> {SQUOTE, DQUOTE}"
  then have "\<not> py_isspace q" by (auto simp: py_isspace_def)
  then have "py_strip (q # v @ [q]) = q # v @ [q]" by (simp add: py_strip_fixed_iff)
  then show ?thesis using q by (simp add: unquote_def Let_def)
qed

lemma unquote_rstrip_quoted: "q \<in> {SQUOTE, DQUOTE} \<Longrightarrow> unquote (py_rstrip (q # v @ [q])) = v"
proof -
  assume q: "q \<in> {SQUOTE, DQUOTE}"
  then have "\<not> py_isspace q" by (auto simp: py_isspace_def)
  then have "py_strip (q # v @ [q]) = q # v @ [q]" by (simp add: py_strip_fixed_iff)
  with unquote_quoted [OF q] show ?thesis by (simp add: py_rstrip_fixed)
qed

lemma before_comment_none: "\<not> contains v '' #'' \<Longrightarrow> before_comment v = v"
  by (induction v) auto

lemma before_comment_note: "\<not> contains v '' #'' \<Longrightarrow> before_comment (v @ '' #'' @ c) = v"
proof (induction v)
  case Nil
  then show ?case by (simp add: startswith_def)
next
  case (Cons x v)
  then have "\<not> startswith ((x # v) @ '' #'' @ c) '' #''"
    by (cases v) (auto simp: startswith_def)
  with Cons show ?case by simp
qed

lemma unquote_plain:
  assumes "\<not> startswith w [SQUOTE]" "\<not> startswith w [DQUOTE]" "w = [] \<or> \<not> py_isspace (hd w)"
  shows "unquote (py_rstrip w) = py_strip (before_comment (py_rstrip w))"
proof (cases w)
  case Nil
  then show ?thesis by (simp add: py_rstrip_def rstrip_chars_def unquote_def)
next
  case (Cons c t)
  then have c: "\<not> py_isspace c" "c \<noteq> SQUOTE" "c \<noteq> DQUOTE" using assms by (auto simp: startswith_Cons)
  have w: "py_rstrip w = c # py_rstrip t"
    using py_strip_after [OF c(1), of "[]" t] py_strip_after [OF c(1), of "[]" "py_rstrip t"] c(1)
    by (simp add: Cons py_strip_def lstrip_chars_def py_rstrip_def)
  obtain u where "py_strip (c # py_rstrip t) = c # u" using py_strip_after [OF c(1), of "[]"] by auto
  then show ?thesis using c by (simp add: w unquote_def Let_def)
qed

lemma unquote_value:
  assumes "py_strip v = v" "\<not> contains v '' #''" "\<not> startswith v [SQUOTE]" "\<not> startswith v [DQUOTE]"
  shows "unquote (py_rstrip (v @ (case remark of None \<Rightarrow> [] | Some c \<Rightarrow> '' #'' @ c))) = v"
proof (cases remark)
  case None
  have "v = [] \<or> \<not> py_isspace (hd v)" using assms(1) by (auto simp: py_strip_fixed_iff)
  from unquote_plain [OF assms(3,4) this] None assms(1,2) show ?thesis
    by (simp add: py_rstrip_fixed before_comment_none)
next
  case (Some c)
  have h: "\<not> py_isspace (CHR ''#'')" by (simp add: py_isspace_def)
  have r: "py_rstrip (u @ '' #'' @ c) = u @ '' #'' @ py_rstrip c" for u
  proof -
    have "dropWhile py_isspace (rev c @ CHR ''#'' # x) = dropWhile py_isspace (rev c) @ CHR ''#'' # x" for x
      using h by (induction c rule: rev_induct) auto
    then show ?thesis by (simp add: py_rstrip_def rstrip_chars_def)
  qed
  show ?thesis
  proof (cases "v = []")
    case True
    have "py_strip ('' #'' @ py_rstrip c) = CHR ''#'' # py_rstrip (py_rstrip c)"
      using py_strip_pad [of "'' ''"] py_strip_after [OF h, of "[]"] by (simp add: py_isspace_def)
    then show ?thesis using Some True r [of "[]"] before_comment_note [of "[]" "py_rstrip c"]
      by (simp add: unquote_def Let_def)
  next
    case False
    let ?w = "v @ '' #'' @ c"
    have "\<not> py_isspace (hd ?w)" using assms(1) False by (auto simp: py_strip_fixed_iff)
    moreover have "\<not> startswith ?w [SQUOTE]" "\<not> startswith ?w [DQUOTE]"
      using assms(3,4) False by (cases v; auto simp: startswith_Cons)+
    ultimately have "unquote (py_rstrip ?w) = py_strip (before_comment (py_rstrip ?w))"
      by (intro unquote_plain) auto
    then show ?thesis using Some r before_comment_note [OF assms(2)] assms(1) by simp
  qed
qed

lemma parse_row:
  assumes "env_row_ok r"
  shows "parse_lines n (env_line r # ls) acc = parse_lines (n + 1) ls
    (acc\<lparr>entries := env_entry r (entries acc), skipped_lines := skipped_lines acc @ env_skips n [r]\<rparr>)"
proof (cases r)
  case (EnvEntry ex k q v)
  then show ?thesis using assms parse_valid [of k n ex "q # v @ [q]" ls acc] unquote_rstrip_quoted [of q v]
    by (simp del: parse_lines.simps)
next
  case (EnvPlain ex k v remark)
  then show ?thesis
    using assms parse_valid [of k n ex "v @ (case remark of None \<Rightarrow> [] | Some c \<Rightarrow> '' #'' @ c)" ls acc]
      unquote_value [of v remark]
    by (simp del: parse_lines.simps)
next
  case (EnvNote pad s)
  have "\<not> py_isspace (CHR ''#'')" by (simp add: py_isspace_def)
  from py_strip_after [OF this, of "[]" s] have "py_strip (env_line r) = CHR ''#'' # py_rstrip s"
    using EnvNote assms py_strip_pad by simp
  then show ?thesis using EnvNote by (simp add: startswith_Cons Let_def)
next
  case (EnvBlank pad)
  then have "py_strip (env_line r) = []" using assms py_strip_pad [of pad "[]"] by simp
  then show ?thesis using EnvBlank by (simp add: Let_def)
next
  case (EnvJunk s)
  have dw: "set (dropWhile P u) \<subseteq> set u" for P and u :: string by (auto dest: set_dropWhileD)
  have "set (strip_export u) \<subseteq> set u" for u
    using dw set_drop_subset [of 7 u] by (auto simp: strip_export_def lstrip_chars_def dest: set_dropWhileD in_set_dropD)
  moreover have "set (py_strip u) \<subseteq> set u" for u
    by (auto simp: py_strip_def lstrip_chars_def rstrip_chars_def dest!: set_dropWhileD)
  ultimately have "set (strip_export (py_strip s)) \<subseteq> set s" by (rule subset_trans)
  then have "CHR ''='' \<notin> set (strip_export (py_strip s))" using assms EnvJunk by auto
  then show ?thesis using assms EnvJunk by (simp add: Let_def)
next
  case (EnvBadKey ex k v)
  then show ?thesis using assms parse_assignment [of k ex n v ls acc] by (simp del: parse_lines.simps)
qed

lemma env_skips_Cons: "env_skips n [r] @ env_skips (n + 1) rows = env_skips n (r # rows)"
  by (cases r) simp_all

lemma parse_rows:
  "list_all env_row_ok rows \<Longrightarrow> parse_lines n (map env_line rows) acc =
     acc\<lparr>entries := fold env_entry rows (entries acc), skipped_lines := skipped_lines acc @ env_skips n rows\<rparr>"
proof (induction rows arbitrary: n acc)
  case (Cons r rows)
  then show ?case using env_skips_Cons [of n r rows] by (simp add: parse_row del: parse_lines.simps)
qed simp

section \<open>The remote store\<close>

definition MAX_BLOB_BYTES :: nat where
  "MAX_BLOB_BYTES = 64 * 1024"

text \<open>Reading the latest version gives \<open>None\<close> when there is none; creating a secret gives \<open>None\<close> when it
  exists; every other error of the service is an exception.\<close>

record 'r secret_client =
  access_secret_version :: "string \<Rightarrow> 'r \<Rightarrow> byte list option py"
  create_secret :: "string \<Rightarrow> string \<Rightarrow> 'r \<Rightarrow> 'r option py"
  add_secret_version :: "string \<Rightarrow> byte list \<Rightarrow> 'r \<Rightarrow> 'r py"

record manager_config =
  project_id :: string
  ttl_s :: rat
  sha256 :: "string \<Rightarrow> string"

record 'r manager_store =
  ms_remote :: 'r
  ms_cache :: "(string \<times> rat \<times> pydict) list"

definition secret_id :: "manager_config \<Rightarrow> string \<Rightarrow> string" where
  "secret_id cfg user = ''lha-secret-'' @ take 32 (sha256 cfg user)"

definition secret_name :: "manager_config \<Rightarrow> string \<Rightarrow> string" where
  "secret_name cfg user = ''projects/'' @ project_id cfg @ ''/secrets/'' @ secret_id cfg user"

definition version_name :: "manager_config \<Rightarrow> string \<Rightarrow> string \<Rightarrow> string" where
  "version_name cfg user version = secret_name cfg user @ ''/versions/'' @ version"

text \<open>Reading a document from bytes, which must be UTF-8 of characters below 256; the other encodings that
  \<open>json.loads\<close> guesses from zero bytes or a byte order mark are left out (the store itself writes ASCII).\<close>

definition json_loads_bytes :: "byte list \<Rightarrow> pyval option" where
  "json_loads_bytes data = (if utf8_encode (utf8_decode data) = data then json_loads (utf8_decode data) else None)"

definition fetch_blob :: "'r secret_client \<Rightarrow> manager_config \<Rightarrow> string \<Rightarrow> 'r \<Rightarrow> pydict py" where
  "fetch_blob cl cfg user r =
     py_bind (access_secret_version cl (version_name cfg user ''latest'') r) (\<lambda>resp.
       Inr (case resp of
              None \<Rightarrow> []
            | Some data \<Rightarrow> (case json_loads_bytes data of Some (PyDict d) \<Rightarrow> d | _ \<Rightarrow> [])))"

definition cached_blob ::
    "'r secret_client \<Rightarrow> manager_config \<Rightarrow> rat \<Rightarrow> string \<Rightarrow> 'r manager_store \<Rightarrow> (pydict \<times> 'r manager_store) py" where
  "cached_blob cl cfg now user st =
     (let miss = py_bind (fetch_blob cl cfg user (ms_remote st)) (\<lambda>blob.
                   Inr (blob, st\<lparr>ms_cache := dict_set (ms_cache st) user (now + ttl_s cfg, blob)\<rparr>))
      in case map_of (ms_cache st) user of
           Some (expiry, blob) \<Rightarrow> if expiry > now then Inr (blob, st) else miss
         | None \<Rightarrow> miss)"

definition manager_invalidate :: "string \<Rightarrow> 'r manager_store \<Rightarrow> 'r manager_store" where
  "manager_invalidate user st = st\<lparr>ms_cache := dict_pop (ms_cache st) user\<rparr>"

definition secret_values :: "pydict \<Rightarrow> pydict" where
  "secret_values blob =
     [(name, dict_get e ''value''). (name, entry) \<leftarrow> blob, e \<leftarrow> (case entry of PyDict e \<Rightarrow> [e] | _ \<Rightarrow> []), map_of e ''value'' \<noteq> None]"

definition manager_get_all ::
    "'r secret_client \<Rightarrow> manager_config \<Rightarrow> rat \<Rightarrow> string \<Rightarrow> 'r manager_store \<Rightarrow> (pydict \<times> 'r manager_store) py" where
  "manager_get_all cl cfg now user st =
     py_bind (cached_blob cl cfg now user st) (\<lambda>(blob, st'). Inr (secret_values blob, st'))"

text \<open>An entry that is not an object has no \<open>get\<close>.\<close>

fun name_rows :: "pydict \<Rightarrow> pydict list py" where
  "name_rows [] = Inr []"
| "name_rows ((name, entry) # es) =
     (case entry of
        PyDict e \<Rightarrow> py_bind (name_rows es) (\<lambda>rs.
          Inr ([(''name'', PyStr name), (''created_at'', dict_get e ''created_at'')] # rs))
      | _ \<Rightarrow> Inl (AttributeError ''get''))"

definition manager_list_names ::
    "'r secret_client \<Rightarrow> manager_config \<Rightarrow> rat \<Rightarrow> string \<Rightarrow> 'r manager_store \<Rightarrow> (pydict list \<times> 'r manager_store) py" where
  "manager_list_names cl cfg now user st =
     py_bind (cached_blob cl cfg now user st) (\<lambda>(blob, st').
     py_bind (name_rows (sort_items blob)) (\<lambda>rows. Inr (rows, st')))"

definition ensure_secret :: "'r secret_client \<Rightarrow> manager_config \<Rightarrow> string \<Rightarrow> 'r \<Rightarrow> 'r py" where
  "ensure_secret cl cfg user r =
     py_bind (create_secret cl (''projects/'' @ project_id cfg) (secret_id cfg user) r) (\<lambda>created.
       Inr (case created of Some r' \<Rightarrow> r' | None \<Rightarrow> r))"

definition blob_bytes :: "pydict \<Rightarrow> byte list" where
  "blob_bytes blob = utf8_encode (json_dumps json_default_opts (PyDict blob))"

definition too_large_message :: "nat \<Rightarrow> string" where
  "too_large_message n = ''secrets blob is '' @ string_of_nat n @ '' bytes, over the '' @ string_of_nat MAX_BLOB_BYTES @ ''-byte limit''"

definition write_blob ::
    "'r secret_client \<Rightarrow> manager_config \<Rightarrow> string \<Rightarrow> pydict \<Rightarrow> 'r manager_store \<Rightarrow> 'r manager_store py" where
  "write_blob cl cfg user blob st =
     (let data = blob_bytes blob
      in if length data > MAX_BLOB_BYTES then Inl (ValueError (too_large_message (length data)))
         else py_bind (ensure_secret cl cfg user (ms_remote st)) (\<lambda>r.
              py_bind (add_secret_version cl (secret_name cfg user) data r) (\<lambda>r'.
                Inr (manager_invalidate user (st\<lparr>ms_remote := r'\<rparr>)))))"

definition secret_entry :: "string \<Rightarrow> int \<Rightarrow> pyval" where
  "secret_entry value now_ms = PyDict [(''value'', PyStr value), (''created_at'', PyInt now_ms)]"

definition set_entries :: "int \<Rightarrow> (string \<times> string) list \<Rightarrow> pydict \<Rightarrow> pydict" where
  "set_entries now_ms mapping blob = fold (\<lambda>(name, value) b. dict_set b name (secret_entry value now_ms)) mapping blob"

definition manager_set_secret ::
    "'r secret_client \<Rightarrow> manager_config \<Rightarrow> int \<Rightarrow> string \<Rightarrow> string \<Rightarrow> string \<Rightarrow> 'r manager_store \<Rightarrow> 'r manager_store py" where
  "manager_set_secret cl cfg now_ms user name value st =
     py_bind (fetch_blob cl cfg user (ms_remote st)) (\<lambda>blob.
       write_blob cl cfg user (dict_set blob name (secret_entry value now_ms)) st)"

definition manager_set_many ::
    "'r secret_client \<Rightarrow> manager_config \<Rightarrow> int \<Rightarrow> string \<Rightarrow> (string \<times> string) list \<Rightarrow> 'r manager_store \<Rightarrow> 'r manager_store py" where
  "manager_set_many cl cfg now_ms user mapping st =
     (if mapping = [] then Inr st
      else py_bind (fetch_blob cl cfg user (ms_remote st)) (\<lambda>blob.
             write_blob cl cfg user (set_entries now_ms mapping blob) st))"

definition manager_delete_secret ::
    "'r secret_client \<Rightarrow> manager_config \<Rightarrow> string \<Rightarrow> string \<Rightarrow> 'r manager_store \<Rightarrow> (bool \<times> 'r manager_store) py" where
  "manager_delete_secret cl cfg user name st =
     py_bind (fetch_blob cl cfg user (ms_remote st)) (\<lambda>blob.
       if map_of blob name = None then Inr (False, st)
       else py_bind (write_blob cl cfg user (dict_pop blob name) st) (\<lambda>st'. Inr (True, st')))"

section \<open>The store in memory\<close>

type_synonym memory_store = "(string \<times> pydict) list"

definition user_blob :: "string \<Rightarrow> memory_store \<Rightarrow> pydict \<times> memory_store" where
  "user_blob user st = (case map_of st user of Some b \<Rightarrow> (b, st) | None \<Rightarrow> ([], dict_set st user []))"

definition memory_get_all :: "string \<Rightarrow> memory_store \<Rightarrow> pydict \<times> memory_store" where
  "memory_get_all user st = (let (blob, st') = user_blob user st in (secret_values blob, st'))"

definition memory_list_names :: "string \<Rightarrow> memory_store \<Rightarrow> pydict list py \<times> memory_store" where
  "memory_list_names user st = (let (blob, st') = user_blob user st in (name_rows (sort_items blob), st'))"

definition guard_size :: "pydict \<Rightarrow> unit py" where
  "guard_size blob = (if length (blob_bytes blob) > MAX_BLOB_BYTES
     then Inl (ValueError (''secrets blob is over '' @ string_of_nat MAX_BLOB_BYTES @ '' bytes'')) else Inr ())"

definition memory_set_secret :: "int \<Rightarrow> string \<Rightarrow> string \<Rightarrow> string \<Rightarrow> memory_store \<Rightarrow> memory_store py" where
  "memory_set_secret now_ms user name value st =
     (let (blob, st') = user_blob user st;
          blob' = dict_set blob name (secret_entry value now_ms)
      in py_bind (guard_size blob') (\<lambda>_. Inr (dict_set st' user blob')))"

definition memory_set_many :: "int \<Rightarrow> string \<Rightarrow> (string \<times> string) list \<Rightarrow> memory_store \<Rightarrow> memory_store py" where
  "memory_set_many now_ms user mapping st =
     (if mapping = [] then Inr st
      else let (blob, st') = user_blob user st;
               blob' = set_entries now_ms mapping blob
           in py_bind (guard_size blob') (\<lambda>_. Inr (dict_set st' user blob')))"

definition memory_delete_secret :: "string \<Rightarrow> string \<Rightarrow> memory_store \<Rightarrow> bool \<times> memory_store" where
  "memory_delete_secret user name st =
     (let (blob, st') = user_blob user st
      in if map_of blob name = None then (False, st') else (True, dict_set st' user (dict_pop blob name)))"

section \<open>What a store promises\<close>

datatype secret_op = SetSecret string string string | DeleteSecret string string

fun op_user :: "secret_op \<Rightarrow> string" where
  "op_user (SetSecret u n v) = u"
| "op_user (DeleteSecret u n) = u"

text \<open>The specification: a map from names to values for each user.\<close>

fun spec_step :: "secret_op \<Rightarrow> (string \<Rightarrow> string \<rightharpoonup> pyval) \<Rightarrow> string \<Rightarrow> string \<rightharpoonup> pyval" where
  "spec_step (SetSecret u n v) m = m(u := (m u)(n \<mapsto> PyStr v))"
| "spec_step (DeleteSecret u n) m = m(u := (m u)(n := None))"

fun run_ops ::
    "(string \<Rightarrow> string \<Rightarrow> string \<Rightarrow> 's \<Rightarrow> 's py) \<Rightarrow> (string \<Rightarrow> string \<Rightarrow> 's \<Rightarrow> (bool \<times> 's) py) \<Rightarrow> secret_op list \<Rightarrow> 's \<Rightarrow> 's py" where
  "run_ops set_op delete_op [] s = Inr s"
| "run_ops set_op delete_op (SetSecret u n v # ops) s = py_bind (set_op u n v s) (run_ops set_op delete_op ops)"
| "run_ops set_op delete_op (DeleteSecret u n # ops) s = py_bind (delete_op u n s) (\<lambda>(_, s'). run_ops set_op delete_op ops s')"

locale secret_store =
  fixes users :: "string set"
    and ok :: "'s \<Rightarrow> bool"
    and view :: "'s \<Rightarrow> string \<Rightarrow> string \<rightharpoonup> pyval"
    and set_op :: "string \<Rightarrow> string \<Rightarrow> string \<Rightarrow> 's \<Rightarrow> 's py"
    and delete_op :: "string \<Rightarrow> string \<Rightarrow> 's \<Rightarrow> (bool \<times> 's) py"
  assumes set_law: "\<lbrakk>ok s; u \<in> users; set_op u n v s = Inr s'\<rbrakk> \<Longrightarrow>
      ok s' \<and> (\<forall>w \<in> users. view s' w = spec_step (SetSecret u n v) (view s) w)"
    and delete_law: "\<lbrakk>ok s; u \<in> users; delete_op u n s = Inr (b, s')\<rbrakk> \<Longrightarrow>
      ok s' \<and> (\<forall>w \<in> users. view s' w = spec_step (DeleteSecret u n) (view s) w)"
begin

lemma spec_step_cong: "op_user x \<in> users \<Longrightarrow> (\<And>w. w \<in> users \<Longrightarrow> m w = m' w) \<Longrightarrow> w \<in> users \<Longrightarrow> spec_step x m w = spec_step x m' w"
  by (cases x) auto

lemma spec_run_cong:
  "(\<And>x. x \<in> set ops \<Longrightarrow> op_user x \<in> users) \<Longrightarrow> (\<And>w. w \<in> users \<Longrightarrow> m w = m' w) \<Longrightarrow> w \<in> users \<Longrightarrow>
   fold spec_step ops m w = fold spec_step ops m' w"
proof (induction ops arbitrary: m m')
  case (Cons x ops)
  then have "spec_step x m w = spec_step x m' w" if "w \<in> users" for w using spec_step_cong [of x m m' w] that by simp
  then show ?case using Cons.IH [of "spec_step x m" "spec_step x m'"] Cons.prems(1,3) by simp
qed simp

text \<open>Every run of a store refines the run of the specification.\<close>

lemma run_refines:
  "\<lbrakk>ok s; \<And>x. x \<in> set ops \<Longrightarrow> op_user x \<in> users; run_ops set_op delete_op ops s = Inr s'; w \<in> users\<rbrakk> \<Longrightarrow>
   ok s' \<and> view s' w = fold spec_step ops (view s) w"
proof (induction ops arbitrary: s)
  case (Cons x ops)
  obtain s1 where s1: "ok s1" "\<forall>w \<in> users. view s1 w = spec_step x (view s) w" "run_ops set_op delete_op ops s1 = Inr s'"
  proof (cases x)
    case (SetSecret u n v)
    then obtain s1 where "set_op u n v s = Inr s1" "run_ops set_op delete_op ops s1 = Inr s'"
      using Cons.prems(3) by (auto simp: py_bind_Inr_iff)
    then show ?thesis using that [of s1] set_law [OF Cons.prems(1), of u n v s1] Cons.prems(2) [of x] SetSecret by simp
  next
    case (DeleteSecret u n)
    then obtain b s1 where "delete_op u n s = Inr (b, s1)" "run_ops set_op delete_op ops s1 = Inr s'"
      using Cons.prems(3) by (auto simp: py_bind_Inr_iff)
    then show ?thesis using that [of s1] delete_law [OF Cons.prems(1), of u n b s1] Cons.prems(2) [of x] DeleteSecret by simp
  qed
  have "ok s' \<and> view s' w = fold spec_step ops (view s1) w" using Cons.IH [OF s1(1) _ s1(3)] Cons.prems by simp
  moreover have "fold spec_step ops (view s1) w = fold spec_step ops (spec_step x (view s)) w"
    using s1(2) Cons.prems by (intro spec_run_cong) auto
  ultimately show ?case by simp
qed simp

end

section \<open>The store in memory keeps the promise\<close>

definition entry_value :: "pyval \<Rightarrow> pyval option" where
  "entry_value entry = (case entry of PyDict e \<Rightarrow> map_of e ''value'' | _ \<Rightarrow> None)"

lemma map_of_secret_values:
  "dict_wf blob \<Longrightarrow> map_of (secret_values blob) n = Option.bind (map_of blob n) entry_value"
proof (induction blob)
  case (Cons kv blob)
  obtain k v where kv: "kv = (k, v)" by fastforce
  have wf: "dict_wf blob" "k \<notin> fst ` set blob" using Cons.prems kv by (auto simp: dict_wf_def)
  then have "map_of blob k = None" by (simp add: map_of_eq_None_iff)
  then show ?case using Cons.IH wf(1) kv
    by (auto simp: secret_values_def entry_value_def dict_get_def dict_get_default_def split: pyval.splits option.splits)
qed (simp add: secret_values_def)

lemma entry_value_secret [simp]: "entry_value (secret_entry v t) = Some (PyStr v)"
  by (simp add: entry_value_def secret_entry_def)

definition blob_view :: "pydict \<Rightarrow> string \<rightharpoonup> pyval" where
  "blob_view blob n = Option.bind (map_of blob n) entry_value"

lemma blob_view_simps [simp]:
  "blob_view (dict_set blob n (secret_entry v t)) = (blob_view blob)(n \<mapsto> PyStr v)"
  "blob_view (dict_pop blob n) = (blob_view blob)(n := None)"
  by (auto simp: blob_view_def fun_eq_iff)

lemma blob_view_absent: "map_of blob n = None \<Longrightarrow> (blob_view blob)(n := None) = blob_view blob"
  by (auto simp: blob_view_def fun_eq_iff)

definition memory_blob :: "memory_store \<Rightarrow> string \<Rightarrow> pydict" where
  "memory_blob st u = (case map_of st u of None \<Rightarrow> [] | Some b \<Rightarrow> b)"

definition memory_ok :: "memory_store \<Rightarrow> bool" where
  "memory_ok st \<longleftrightarrow> (\<forall>u. dict_wf (memory_blob st u))"

definition memory_view :: "memory_store \<Rightarrow> string \<Rightarrow> string \<rightharpoonup> pyval" where
  "memory_view st u = blob_view (memory_blob st u)"

lemma user_blob_spec: "user_blob u st = (b, st') \<Longrightarrow> b = memory_blob st u \<and> memory_blob st' = memory_blob st"
  by (auto simp: user_blob_def memory_blob_def fun_eq_iff split: option.splits if_splits)

lemma memory_blob_set [simp]: "memory_blob (dict_set st u b) = (memory_blob st)(u := b)"
  by (auto simp: memory_blob_def fun_eq_iff)

interpretation memory: secret_store UNIV memory_ok memory_view "memory_set_secret now_ms"
    "\<lambda>u n s. Inr (memory_delete_secret u n s)" for now_ms
proof
  fix s u n v s' assume ok: "memory_ok s" and s: "memory_set_secret now_ms u n v s = Inr s'"
  obtain b st' where b: "user_blob u s = (b, st')" by fastforce
  then have "s' = dict_set st' u (dict_set b n (secret_entry v now_ms))"
    using s by (auto simp: memory_set_secret_def Let_def py_bind_Inr_iff)
  then have m: "memory_blob s' = (memory_blob s)(u := dict_set (memory_blob s u) n (secret_entry v now_ms))"
    using user_blob_spec [OF b] by simp
  then have "memory_ok s'" using ok by (auto simp: memory_ok_def)
  moreover have "memory_view s' w = spec_step (SetSecret u n v) (memory_view s) w" for w
    by (simp add: memory_view_def m)
  ultimately show "memory_ok s' \<and> (\<forall>w \<in> UNIV. memory_view s' w = spec_step (SetSecret u n v) (memory_view s) w)" by blast
next
  fix s u n b s' assume ok: "memory_ok s" and s: "Inr (memory_delete_secret u n s) = (Inr (b, s') :: (bool \<times> memory_store) py)"
  obtain bl st' where bl: "user_blob u s = (bl, st')" by fastforce
  have v: "memory_blob s' = memory_blob s \<and> map_of (memory_blob s u) n = None \<or>
      memory_blob s' = (memory_blob s)(u := dict_pop (memory_blob s u) n)"
    using s user_blob_spec [OF bl] by (auto simp: memory_delete_secret_def bl Let_def split: if_splits)
  then have "memory_ok s'" using ok dict_wf_pop [of "memory_blob s u" n] by (auto simp: memory_ok_def)
  moreover have "memory_view s' w = spec_step (DeleteSecret u n) (memory_view s) w" for w
    using v by (auto simp: memory_view_def blob_view_absent)
  ultimately show "memory_ok s' \<and> (\<forall>w \<in> UNIV. memory_view s' w = spec_step (DeleteSecret u n) (memory_view s) w)" by blast
qed

section \<open>The remote store keeps the promise\<close>

text \<open>The documented behaviour of the service: an added version is the latest of its secret and of no
  other, and creating a secret adds no version.\<close>

definition client_ok :: "'r secret_client \<Rightarrow> bool" where
  "client_ok cl \<longleftrightarrow>
     (\<forall>name data r r'. add_secret_version cl name data r = Inr r' \<longrightarrow>
        access_secret_version cl (name @ ''/versions/latest'') r' = Inr (Some data) \<and>
        (\<forall>name'. name' \<noteq> name \<longrightarrow> access_secret_version cl (name' @ ''/versions/latest'') r' =
           access_secret_version cl (name' @ ''/versions/latest'') r)) \<and>
     (\<forall>parent sid r r' name. create_secret cl parent sid r = Inr (Some r') \<longrightarrow>
        access_secret_version cl name r' = access_secret_version cl name r)"

definition separate_users :: "manager_config \<Rightarrow> string set \<Rightarrow> bool" where
  "separate_users cfg users \<longleftrightarrow> (\<forall>u \<in> users. \<forall>w \<in> users. secret_id cfg u = secret_id cfg w \<longrightarrow> u = w)"

definition manager_view :: "'r secret_client \<Rightarrow> manager_config \<Rightarrow> 'r manager_store \<Rightarrow> string \<Rightarrow> string \<rightharpoonup> pyval" where
  "manager_view cl cfg st u = (case fetch_blob cl cfg u (ms_remote st) of Inl _ \<Rightarrow> Map.empty | Inr b \<Rightarrow> blob_view b)"

text \<open>What is stored reads back, and what is cached is what is stored.\<close>

definition manager_ok :: "'r secret_client \<Rightarrow> manager_config \<Rightarrow> string set \<Rightarrow> 'r manager_store \<Rightarrow> bool" where
  "manager_ok cl cfg users st \<longleftrightarrow> (\<forall>u \<in> users.
     (\<forall>b. fetch_blob cl cfg u (ms_remote st) = Inr b \<longrightarrow> json_exact (PyDict b)) \<and>
     (\<forall>e b. map_of (ms_cache st) u = Some (e, b) \<longrightarrow> fetch_blob cl cfg u (ms_remote st) = Inr b))"

lemma version_name_latest: "version_name cfg u ''latest'' = secret_name cfg u @ ''/versions/latest''"
  by (simp add: version_name_def)

lemma client_add:
  assumes "client_ok cl" and "add_secret_version cl name data r = Inr r'"
  shows "access_secret_version cl (name @ ''/versions/latest'') r' = Inr (Some data)"
    "name' \<noteq> name \<Longrightarrow> access_secret_version cl (name' @ ''/versions/latest'') r' =
       access_secret_version cl (name' @ ''/versions/latest'') r"
  using assms unfolding client_ok_def by blast+

lemma manager_ok_exact:
  "manager_ok cl cfg users st \<Longrightarrow> u \<in> users \<Longrightarrow> fetch_blob cl cfg u (ms_remote st) = Inr b \<Longrightarrow> json_exact (PyDict b)"
  unfolding manager_ok_def by blast

lemma write_blob_spec:
  assumes "client_ok cl" and "separate_users cfg users" and "u \<in> users" and "json_exact (PyDict blob)"
    and "write_blob cl cfg u blob st = Inr st'"
  shows "fetch_blob cl cfg u (ms_remote st') = Inr blob" "map_of (ms_cache st') = (map_of (ms_cache st))(u := None)"
    "\<And>w. w \<in> users \<Longrightarrow> w \<noteq> u \<Longrightarrow> fetch_blob cl cfg w (ms_remote st') = fetch_blob cl cfg w (ms_remote st)"
proof -
  obtain r1 r2 where e: "ensure_secret cl cfg u (ms_remote st) = Inr r1"
    and a: "add_secret_version cl (secret_name cfg u) (blob_bytes blob) r1 = Inr r2"
    and st': "st' = manager_invalidate u (st\<lparr>ms_remote := r2\<rparr>)"
    using assms(5) by (auto simp: write_blob_def Let_def py_bind_Inr_iff split: if_splits)
  have r: "ms_remote st' = r2" by (simp add: st' manager_invalidate_def)
  have "access_secret_version cl n r1 = access_secret_version cl n (ms_remote st)" for n
    using e assms(1) by (auto simp: ensure_secret_def client_ok_def py_bind_Inr_iff split: option.splits)
  note acc = this
  have "access_secret_version cl (version_name cfg u ''latest'') r2 = Inr (Some (blob_bytes blob))"
    unfolding version_name_latest by (rule client_add(1) [OF assms(1) a])
  moreover have "json_loads (json_dumps json_default_opts (PyDict blob)) = Some (PyDict blob)"
    by (rule json_roundtrip [OF _ assms(4)]) (simp add: spaced_opts_def json_default_opts_def)
  ultimately show "fetch_blob cl cfg u (ms_remote st') = Inr blob"
    by (simp add: fetch_blob_def r blob_bytes_def json_loads_bytes_def del: json_dumps.simps)
  show "map_of (ms_cache st') = (map_of (ms_cache st))(u := None)" by (simp add: st' manager_invalidate_def)
  show "fetch_blob cl cfg w (ms_remote st') = fetch_blob cl cfg w (ms_remote st)" if "w \<in> users" "w \<noteq> u" for w
  proof -
    have "secret_name cfg w \<noteq> secret_name cfg u"
      using that assms(2,3) by (auto simp: separate_users_def secret_name_def)
    then have "access_secret_version cl (version_name cfg w ''latest'') r2 =
        access_secret_version cl (version_name cfg w ''latest'') r1"
      unfolding version_name_latest by (rule client_add(2) [OF assms(1) a])
    then show ?thesis by (simp add: fetch_blob_def r acc)
  qed
qed

lemma write_blob_keeps:
  assumes "client_ok cl" and "separate_users cfg users" and "u \<in> users" and "json_exact (PyDict blob)"
    and "manager_ok cl cfg users st" and "write_blob cl cfg u blob st = Inr st'"
  shows "manager_ok cl cfg users st'"
    "\<And>w. w \<in> users \<Longrightarrow> manager_view cl cfg st' w = (if w = u then blob_view blob else manager_view cl cfg st w)"
  using write_blob_spec [OF assms(1-4,6)] assms(4,5)
  by (auto simp: manager_ok_def manager_view_def)

lemma exact_set: "json_exact (PyDict b) \<Longrightarrow> json_exact (PyDict (dict_set b n (secret_entry v t)))"
proof -
  have "json_exact (secret_entry v t)" by (simp add: secret_entry_def)
  moreover have "json_exact x \<Longrightarrow> list_all (\<lambda>kv. json_exact (snd kv)) b \<Longrightarrow> list_all (\<lambda>kv. json_exact (snd kv)) (dict_set b n x)" for x
    by (induction b) auto
  ultimately show "json_exact (PyDict b) \<Longrightarrow> json_exact (PyDict (dict_set b n (secret_entry v t)))"
    using dict_wf_set [of b n "secret_entry v t"] by (simp add: dict_wf_def)
qed

lemma exact_pop: "json_exact (PyDict b) \<Longrightarrow> json_exact (PyDict (dict_pop b n))"
  using dict_wf_pop [of b n] by (auto simp: dict_wf_def list_all_iff dict_pop_def)

lemma manager_secret_store:
  assumes "client_ok cl" and "separate_users cfg users"
  shows "secret_store users (manager_ok cl cfg users) (manager_view cl cfg) (manager_set_secret cl cfg now_ms)
    (manager_delete_secret cl cfg)"
proof
  fix s u n v s' assume ok: "manager_ok cl cfg users s" and u: "u \<in> users" and s: "manager_set_secret cl cfg now_ms u n v s = Inr s'"
  then obtain b where b: "fetch_blob cl cfg u (ms_remote s) = Inr b"
    and w: "write_blob cl cfg u (dict_set b n (secret_entry v now_ms)) s = Inr s'"
    by (auto simp: manager_set_secret_def py_bind_Inr_iff)
  have x: "json_exact (PyDict (dict_set b n (secret_entry v now_ms)))" by (rule exact_set [OF manager_ok_exact [OF ok u b]])
  note k = write_blob_keeps [OF assms u x ok w]
  show "manager_ok cl cfg users s' \<and> (\<forall>w \<in> users. manager_view cl cfg s' w = spec_step (SetSecret u n v) (manager_view cl cfg s) w)"
    using k b by (auto simp: manager_view_def)
next
  fix s u n d s' assume ok: "manager_ok cl cfg users s" and u: "u \<in> users" and s: "manager_delete_secret cl cfg u n s = Inr (d, s')"
  then obtain b where b: "fetch_blob cl cfg u (ms_remote s) = Inr b"
    by (auto simp: manager_delete_secret_def py_bind_Inr_iff)
  show "manager_ok cl cfg users s' \<and> (\<forall>w \<in> users. manager_view cl cfg s' w = spec_step (DeleteSecret u n) (manager_view cl cfg s) w)"
  proof (cases "map_of b n")
    case None
    then have "s' = s" using s b by (simp add: manager_delete_secret_def)
    then show ?thesis using ok b blob_view_absent [OF None] by (auto simp: manager_view_def)
  next
    case (Some e)
    then have w: "write_blob cl cfg u (dict_pop b n) s = Inr s'"
      using s b by (auto simp: manager_delete_secret_def py_bind_Inr_iff)
    have x: "json_exact (PyDict (dict_pop b n))" by (rule exact_pop [OF manager_ok_exact [OF ok u b]])
    show ?thesis using write_blob_keeps [OF assms u x ok w] b by (auto simp: manager_view_def)
  qed
qed

lemma manager_get_all_view:
  assumes "manager_ok cl cfg users st" and "u \<in> users" and "manager_get_all cl cfg now u st = Inr (vals, st')"
  shows "map_of vals = manager_view cl cfg st u"
proof -
  obtain b where b: "fetch_blob cl cfg u (ms_remote st) = Inr b" and vals: "vals = secret_values b"
    using assms by (auto simp: manager_get_all_def cached_blob_def Let_def py_bind_Inr_iff manager_ok_def split: option.splits if_splits)
  then have "dict_wf b" using assms(1,2) by (auto simp: manager_ok_def dict_wf_def)
  then show ?thesis using b vals by (auto simp: manager_view_def fun_eq_iff map_of_secret_values blob_view_def)
qed

section \<open>Properties\<close>

text \<open>C18: The remote secret store is a map for each user: for users whose identifiers do not collide,
  after any run of successful set and delete operations, through the cache and the JSON
  document in which all secrets of a user are stored, reading the secrets of one of them gives
  exactly what the same operations make of a plain map, and no operation of one user shows in
  the secrets of another.\<close>

theorem secret_manager_refines_user_maps:
  assumes "client_ok cl" and "separate_users cfg users" and "manager_ok cl cfg users st"
    and "list_all (\<lambda>x. op_user x \<in> users) ops"
    and "run_ops (manager_set_secret cl cfg now_ms) (manager_delete_secret cl cfg) ops st = Inr st'"
    and "u \<in> users" and "manager_get_all cl cfg now u st' = Inr (vals, st'')"
  shows "map_of vals = fold spec_step ops (manager_view cl cfg st) u"
proof -
  have ops: "x \<in> set ops \<Longrightarrow> op_user x \<in> users" for x using assms(4) by (simp add: list_all_iff)
  have "manager_ok cl cfg users st' \<and> manager_view cl cfg st' u = fold spec_step ops (manager_view cl cfg st) u"
    by (rule secret_store.run_refines [OF manager_secret_store [OF assms(1,2)] assms(3) ops assms(5,6)])
  then show ?thesis using manager_get_all_view [OF _ assms(6,7)] by simp
qed

definition map_client :: "(string \<rightharpoonup> byte list) secret_client" where
  "map_client = \<lparr>access_secret_version = (\<lambda>name r. Inr (r name)), create_secret = (\<lambda>_ _ r. Inr None),
     add_secret_version = (\<lambda>name data r. Inr (r(name @ ''/versions/latest'' \<mapsto> data)))\<rparr>"

definition demo_config :: manager_config where
  "demo_config = \<lparr>project_id = ''p'', ttl_s = 60, sha256 = (\<lambda>u. u)\<rparr>"

definition empty_manager :: "(string \<rightharpoonup> byte list) manager_store" where
  "empty_manager = \<lparr>ms_remote = Map.empty, ms_cache = []\<rparr>"

lemma map_client_ok: "client_ok map_client"
  by (simp add: client_ok_def map_client_def)

lemma empty_manager_ok: "manager_ok map_client demo_config users empty_manager"
  by (simp add: manager_ok_def fetch_blob_def map_client_def empty_manager_def)

theorem secret_manager_refines_user_maps_witness:
  "\<exists>st' vals st''. run_ops (manager_set_secret map_client demo_config 0) (manager_delete_secret map_client demo_config)
       [SetSecret ''ann'' ''KEY'' ''v''] empty_manager = Inr st' \<and>
     manager_get_all map_client demo_config 0 ''ann'' st' = Inr (vals, st'') \<and> map_of vals ''KEY'' = Some (PyStr ''v'')"
proof -
  let ?blob = "[(''KEY'', secret_entry ''v'' 0)]"
  have "length (blob_bytes ?blob) = 40" by code_simp
  then have fit: "\<not> length (blob_bytes ?blob) > MAX_BLOB_BYTES" by (simp add: MAX_BLOB_BYTES_def)
  obtain st' where run: "run_ops (manager_set_secret map_client demo_config 0) (manager_delete_secret map_client demo_config)
       [SetSecret ''ann'' ''KEY'' ''v''] empty_manager = Inr st'"
    using fit by (auto simp: manager_set_secret_def fetch_blob_def map_client_def empty_manager_def write_blob_def
        ensure_secret_def Let_def)
  have sep: "separate_users demo_config {''ann''}" by (simp add: separate_users_def)
  obtain b where "fetch_blob map_client demo_config ''ann'' (ms_remote st') = Inr b" by (simp add: fetch_blob_def map_client_def)
  then have "\<exists>p. manager_get_all map_client demo_config 0 ''ann'' st' = Inr p"
    by (simp add: manager_get_all_def cached_blob_def Let_def split: option.split)
  then obtain vals st'' where get: "manager_get_all map_client demo_config 0 ''ann'' st' = Inr (vals, st'')" by auto
  from secret_manager_refines_user_maps [OF map_client_ok sep empty_manager_ok _ run _ get]
  show ?thesis using run get by auto
qed

text \<open>C19: An environment file is read line by line: for a file of assignments with or without
  \<open>export\<close>, whose values are quoted or are trimmed texts that may have a comment behind them, of
  comments, blank lines, lines without an equals sign and assignments to something that is no name,
  in any order, the parser returns exactly the assigned values, a later assignment to a name
  replacing an earlier one, and reports exactly the lines without an equals sign and those with an
  invalid name, each with its number and its reason.\<close>

theorem dotenv_roundtrip:
  assumes "list_all env_row_ok rows"
  shows "parse_dotenv (concat (map (\<lambda>r. env_line r @ [NL]) rows)) =
    \<lparr>entries = fold env_entry rows [], skipped_lines = env_skips 1 rows\<rparr>"
proof -
  have "py_splitlines (concat (map (\<lambda>l. l @ [NL]) (map env_line rows))) = map env_line rows"
    by (rule splitlines_whole) (use assms env_line_no_break in \<open>auto simp: list_all_iff single_line_def\<close>)
  then have "py_splitlines (concat (map (\<lambda>r. env_line r @ [NL]) rows)) = map env_line rows"
    by (simp add: comp_def)
  then show ?thesis by (simp add: parse_dotenv_def parse_rows [OF assms])
qed

theorem dotenv_roundtrip_witness:
  "parse_dotenv (concat (map (\<lambda>r. env_line r @ [NL])
       [EnvNote '' '' ''keys'', EnvEntry True ''A'' SQUOTE '' a # b '', EnvBlank [], EnvJunk ''nothing here'',
        EnvBadKey False ''1X'' ''y'', EnvPlain False ''B'' ''x y'' (Some ''z''), EnvEntry False ''A'' DQUOTE ''c'']))
   = \<lparr>entries = [(''A'', ''c''), (''B'', ''x y'')],
      skipped_lines = [\<lparr>sk_lineno = 4, sk_reason = ''no '='' @ [SQUOTE]\<rparr>, \<lparr>sk_lineno = 5, sk_reason = ''invalid key name''\<rparr>]\<rparr>"
proof -
  let ?rows = "[EnvNote '' '' ''keys'', EnvEntry True ''A'' SQUOTE '' a # b '', EnvBlank [], EnvJunk ''nothing here'',
        EnvBadKey False ''1X'' ''y'', EnvPlain False ''B'' ''x y'' (Some ''z''), EnvEntry False ''A'' DQUOTE ''c'']"
  have "list_all env_row_ok ?rows" by code_simp
  from dotenv_roundtrip [OF this] show ?thesis by simp
qed

end
