(* ===== verification/Routines.thy ===== *)
theory Routines
  imports Routine_Store Secrets Permission_Guard
begin

text \<open>
  Scheduled routines: manifests (\<open>routines/manifest.py\<close>), the tool that creates, lists and cancels them
  (\<open>routines/tools.py\<close>), the isolation of a run (\<open>routines/isolation.py\<close>, \<open>routines/run_context.py\<close>), the
  secrets a run receives (\<open>secrets/inject.py\<close>), the dry run (\<open>routines/run_once.py\<close>) and the tick that fires
  what is due (\<open>scheduler/routine_tick_endpoint.py\<close>). The context variables are a record; setting one
  returns the old value as its token. The agent's turn, the YAML writer and the file system of the
  environment are arguments.
\<close>

section \<open>manifest.py\<close>

definition DEFAULT_DELIVERY :: string where
  "DEFAULT_DELIVERY = ''report_back''"

definition ROUTINE_OVERLAY_DIR :: string where
  "ROUTINE_OVERLAY_DIR = ''.lha/routines''"

record routine_manifest =
  rm_id :: string
  rm_name :: string
  rm_schedule :: string
  rm_task :: string
  rm_secrets :: "string list"
  rm_delivery :: string

definition nonempty_str :: "pyval \<Rightarrow> string option" where
  "nonempty_str v = (case v of PyStr s \<Rightarrow> if py_strip s \<noteq> [] then Some (py_strip s) else None | _ \<Rightarrow> None)"

definition str_tuple :: "pyval \<Rightarrow> string list" where
  "str_tuple v = (case v of
       PyStr s \<Rightarrow> if py_strip s \<noteq> [] then [py_strip s] else []
     | PyList vs \<Rightarrow> List.map_filter nonempty_str vs
     | _ \<Rightarrow> [])"

definition parse_manifest :: "pyval \<Rightarrow> string \<Rightarrow> routine_manifest option" where
  "parse_manifest obj routine_id =
     (case obj of
        PyDict d \<Rightarrow>
          (case (nonempty_str (dict_get d ''name''), nonempty_str (dict_get d ''schedule''), nonempty_str (dict_get d ''task'')) of
             (Some name, Some schedule, Some task) \<Rightarrow>
               if routine_id = [] then None
               else Some \<lparr>rm_id = routine_id, rm_name = name, rm_schedule = schedule, rm_task = task,
                          rm_secrets = str_tuple (dict_get d ''secrets''),
                          rm_delivery = (case nonempty_str (dict_get d ''delivery'') of Some s \<Rightarrow> s | None \<Rightarrow> DEFAULT_DELIVERY)\<rparr>
           | _ \<Rightarrow> None)
      | _ \<Rightarrow> None)"

text \<open>The environment: its working directory and its writes and deletes on the state of its files. An
  operation that raises may have changed the files.\<close>

record 'f routine_env =
  env_working_dir :: string
  env_write_file :: "string \<Rightarrow> string \<Rightarrow> 'f \<Rightarrow> unit py \<times> 'f"
  env_delete_file :: "string \<Rightarrow> 'f \<Rightarrow> unit py \<times> 'f"

definition manifest_path :: "'f routine_env \<Rightarrow> string \<Rightarrow> string" where
  "manifest_path env routine_id =
     (if startswith routine_id ''/'' then routine_id @ ''.yaml''
      else env_working_dir env @ ''/'' @ ROUTINE_OVERLAY_DIR @ ''/'' @ routine_id @ ''.yaml'')"

definition write_routine_via_env ::
    "(pyval \<Rightarrow> string) \<Rightarrow> 'f routine_env \<Rightarrow> pydict \<Rightarrow> string \<Rightarrow> 'f \<Rightarrow> routine_manifest py \<times> 'f" where
  "write_routine_via_env safe_dump env body routine_id fs =
     (case parse_manifest (PyDict body) routine_id of
        None \<Rightarrow> (Inl (ValueError (''invalid routine manifest for '' @ py_repr_str routine_id)), fs)
      | Some manifest \<Rightarrow>
          (let (r, fs') = env_write_file env (manifest_path env routine_id) (safe_dump (PyDict body)) fs
           in (py_bind r (\<lambda>_. Inr manifest), fs')))"

section \<open>tools.py\<close>

text \<open>\<open>_SLUG_RE.sub\<close>: each run of characters outside the class becomes one hyphen; the flag says
  whether a run is open.\<close>

definition slug_char :: "char \<Rightarrow> bool" where
  "slug_char c \<longleftrightarrow> ascii_lower_alpha c \<or> ascii_digit c"

fun hyphenate :: "bool \<Rightarrow> string \<Rightarrow> string" where
  "hyphenate run [] = []"
| "hyphenate run (c # s) =
     (if slug_char c then c # hyphenate False s
      else if run then hyphenate True s else CHR ''-'' # hyphenate True s)"

definition slug :: "string \<Rightarrow> string" where
  "slug name =
     (let s = rstrip_chars (\<lambda>c. c = CHR ''-'') (lstrip_chars (\<lambda>c. c = CHR ''-'') (hyphenate False (py_lower name)))
      in if s = [] then ''routine'' else s)"

text \<open>The invocation context, when there is one: user and application.\<close>

definition identity :: "(string \<times> string) option \<Rightarrow> (string \<times> string) option" where
  "identity invocation = (case invocation of None \<Rightarrow> None | Some (user, app) \<Rightarrow> if user = [] \<or> app = [] then None else Some (user, app))"

record ('s, 'f) routine_world =
  rw_context :: tool_context
  rw_store :: 's
  rw_files :: 'f

definition failure :: "string \<Rightarrow> pydict" where
  "failure msg = [(''success'', PyBool False), (''error'', PyStr msg)]"

definition routine_body :: "string \<Rightarrow> string \<Rightarrow> string \<Rightarrow> pyval list option \<Rightarrow> string option \<Rightarrow> pydict" where
  "routine_body name schedule task secrets delivery =
     [(''name'', PyStr name), (''schedule'', PyStr schedule), (''task'', PyStr task),
      (''secrets'', PyList (case secrets of None \<Rightarrow> [] | Some vs \<Rightarrow> vs)),
      (''delivery'', PyStr (case delivery of None \<Rightarrow> DEFAULT_DELIVERY | Some d \<Rightarrow> if d = [] then DEFAULT_DELIVERY else d))]"

definition create_hint :: "string \<Rightarrow> string \<Rightarrow> pyval \<Rightarrow> string" where
  "create_hint name schedule secrets =
     ''Schedule routine '' @ [SQUOTE] @ name @ [SQUOTE] @ '' ('' @ schedule @ '')? It runs unattended in an isolated sandbox with only these secrets: ''
     @ (if truthy secrets then py_repr secrets else ''none'') @ ''.''"

text \<open>After the user has confirmed: the manifest, then the row. \<open>add\<close> is the store's operation,
  \<open>isoformat\<close> prints an instant.\<close>

definition register_routine ::
    "cron \<Rightarrow> (pyval \<Rightarrow> string) \<Rightarrow> (int \<Rightarrow> string) \<Rightarrow> (routine_row \<Rightarrow> 's \<Rightarrow> string py \<times> 's) \<Rightarrow> 'f routine_env \<Rightarrow> int \<Rightarrow>
     string \<times> string \<Rightarrow> string \<Rightarrow> string \<Rightarrow> string \<Rightarrow> pydict \<Rightarrow> ('s, 'f) routine_world \<Rightarrow> pydict py \<times> ('s, 'f) routine_world" where
  "register_routine cr safe_dump isoformat add env now ident routine_id schedule task body w =
     (let (written, fs) = write_routine_via_env safe_dump env body routine_id (rw_files w);
          w = w\<lparr>rw_files := fs\<rparr>
      in case written of
           Inl e \<Rightarrow> (Inl e, w)
         | Inr _ \<Rightarrow>
             (case next_cron_fire cr schedule now of
                Inl e \<Rightarrow> (Inl e, w)
              | Inr next_at \<Rightarrow>
                  (let (r, st) = add \<lparr>rr_id = routine_id, rr_user_id = fst ident, rr_app_name = snd ident, rr_schedule = schedule,
                         rr_task = task, rr_secrets = (case dict_get body ''secrets'' of PyList vs \<Rightarrow> vs | _ \<Rightarrow> []),
                         rr_delivery = (case dict_get body ''delivery'' of PyStr s \<Rightarrow> s | _ \<Rightarrow> []),
                         rr_next_fire_at = next_at, rr_created_at = now\<rparr> (rw_store w)
                   in (py_bind r (\<lambda>_. Inr [(''success'', PyBool True), (''id'', PyStr routine_id),
                          (''next_fire_at'', PyStr (isoformat next_at))]), w\<lparr>rw_store := st\<rparr>))))"

definition routine_create ::
    "cron \<Rightarrow> (pyval \<Rightarrow> string) \<Rightarrow> (int \<Rightarrow> string) \<Rightarrow> (routine_row \<Rightarrow> 's \<Rightarrow> string py \<times> 's) \<Rightarrow> 'f routine_env \<Rightarrow> int \<Rightarrow>
     (string \<times> string) option \<Rightarrow> string \<Rightarrow> string \<Rightarrow> string \<Rightarrow> pyval list option \<Rightarrow> string option \<Rightarrow>
     ('s, 'f) routine_world \<Rightarrow> pydict py \<times> ('s, 'f) routine_world" where
  "routine_create cr safe_dump isoformat add env now invocation name schedule task secrets delivery w =
     (if name = [] \<or> schedule = [] \<or> task = [] then (Inr (failure ''create requires name, schedule, task''), w)
      else if \<not> is_valid_cron cr schedule
        then (Inr (failure (''invalid cron schedule '' @ py_repr_str schedule @ '' (e.g. '' @ py_repr_str ''0 8 * * *'' @ '')'')), w)
      else case identity invocation of
             None \<Rightarrow> (Inr (failure ''no active invocation context''), w)
           | Some ident \<Rightarrow>
               (let routine_id = slug name;
                    body = routine_body name schedule task secrets delivery;
                    (tc, context) = request_user_confirmation (rw_context w) (create_hint name schedule (dict_get body ''secrets''))
                       [(''kind'', PyStr ''routine''), (''manifest'', PyDict body), (''routine_id'', PyStr routine_id)];
                    w = w\<lparr>rw_context := context\<rparr>
                in case tc of
                     None \<Rightarrow> (Inr [(''success'', PyBool True), (''status'', PyStr ''awaiting_user_response''),
                                   (''routine_id'', PyStr routine_id)], w)
                   | Some c \<Rightarrow>
                       if \<not> confirmed c
                       then (Inr [(''success'', PyBool False), (''status'', PyStr ''declined''), (''error'', PyStr ''user declined'')], w)
                       else register_routine cr safe_dump isoformat add env now ident routine_id schedule task body w))"

definition routine_list ::
    "(int \<Rightarrow> string) \<Rightarrow> (string \<Rightarrow> 's \<Rightarrow> routine_row list py) \<Rightarrow> (string \<times> string) option \<Rightarrow> 's \<Rightarrow> pydict py" where
  "routine_list isoformat list_for_user invocation st =
     (case identity invocation of
        None \<Rightarrow> Inr (failure ''no active invocation context'')
      | Some (user, _) \<Rightarrow> py_bind (list_for_user user st) (\<lambda>rows.
          Inr [(''success'', PyBool True),
               (''routines'', PyList (map (\<lambda>r. PyDict [(''id'', PyStr (rr_id r)), (''schedule'', PyStr (rr_schedule r)),
                  (''next_fire_at'', PyStr (isoformat (rr_next_fire_at r)))]) rows))]))"

definition routine_cancel ::
    "(string \<Rightarrow> string \<Rightarrow> 's \<Rightarrow> bool py \<times> 's) \<Rightarrow> 'f routine_env \<Rightarrow> (string \<times> string) option \<Rightarrow> string \<Rightarrow>
     ('s, 'f) routine_world \<Rightarrow> pydict py \<times> ('s, 'f) routine_world" where
  "routine_cancel cancel env invocation rid w =
     (if rid = [] then (Inr (failure ''cancel requires id''), w)
      else case identity invocation of
             None \<Rightarrow> (Inr (failure ''no active invocation context''), w)
           | Some (user, _) \<Rightarrow>
               (let (ok, st) = cancel rid user (rw_store w);
                    w = w\<lparr>rw_store := st\<rparr>
                in case ok of
                     Inl e \<Rightarrow> (Inl e, w)
                   | Inr False \<Rightarrow> (Inr (failure ''no such routine''), w)
                   | Inr True \<Rightarrow>
                       (Inr [(''success'', PyBool True), (''id'', PyStr rid)],
                        w\<lparr>rw_files := snd (env_delete_file env (manifest_path env rid) (rw_files w))\<rparr>)))"

section \<open>Context variables and isolation\<close>

record run_ctx =
  ctx_routine_run :: "(string \<times> string) option"
  ctx_headless :: bool
  ctx_secret_scope :: "string list option"
  ctx_google_token :: "string option"
  ctx_user_id :: "string option"

definition HEADLESS_PREAMBLE :: "string \<Rightarrow> string" where
  "HEADLESS_PREAMBLE routine_id =
     ''You are running UNATTENDED as a scheduled routine ('' @ routine_id @ ''). No user is present, so do not ask questions. You have your OWN fresh isolated sandbox: shell commands (git clone, install, build, commit) run normally in it. ''
     @ ''Anything else that would need interactive approval can'' @ [SQUOTE] @ ''t be granted, and secret-exfiltration and known-destructive commands are still refused '' @ EMDASH
     @ '' design around those. Save files you want to keep with artifact(save); your final text response is what gets reported back after the run. Task follows.'' @ [NL, NL]"

definition set_routine_run :: "string \<times> string \<Rightarrow> run_ctx \<Rightarrow> (string \<times> string) option \<times> run_ctx" where
  "set_routine_run run ctx = (ctx_routine_run ctx, ctx\<lparr>ctx_routine_run := Some run\<rparr>)"

definition reset_routine_run :: "(string \<times> string) option \<Rightarrow> run_ctx \<Rightarrow> run_ctx" where
  "reset_routine_run saved ctx = ctx\<lparr>ctx_routine_run := saved\<rparr>"

definition set_routine_secret_scope :: "pyval list \<Rightarrow> run_ctx \<Rightarrow> string list option \<times> run_ctx" where
  "set_routine_secret_scope names ctx = (ctx_secret_scope ctx, ctx\<lparr>ctx_secret_scope := Some (List.map_filter as_str names)\<rparr>)"

definition reset_routine_secret_scope :: "string list option \<Rightarrow> run_ctx \<Rightarrow> run_ctx" where
  "reset_routine_secret_scope saved ctx = ctx\<lparr>ctx_secret_scope := saved\<rparr>"

definition set_delegated_google_token :: "string \<Rightarrow> run_ctx \<Rightarrow> string option \<times> run_ctx" where
  "set_delegated_google_token google ctx = (ctx_google_token ctx, ctx\<lparr>ctx_google_token := Some google\<rparr>)"

definition reset_delegated_google_token :: "string option \<Rightarrow> run_ctx \<Rightarrow> run_ctx" where
  "reset_delegated_google_token saved ctx = ctx\<lparr>ctx_google_token := saved\<rparr>"

text \<open>A \<open>with\<close> block is a body on the context and the rest of the world; it may raise, and the variables
  are reset either way.\<close>

type_synonym ('a, 'w) block = "run_ctx \<Rightarrow> 'w \<Rightarrow> 'a py \<times> run_ctx \<times> 'w"

definition routine_isolation :: "string \<Rightarrow> string \<Rightarrow> pyval list \<Rightarrow> ('a, 'w) block \<Rightarrow> ('a, 'w) block" where
  "routine_isolation routine_id owner secrets body ctx w =
     (let (run_token, ctx1) = set_routine_run (routine_id, owner) ctx;
          (headless_token, headless) = set_headless_mode True (ctx_headless ctx1);
          ctx2 = ctx1\<lparr>ctx_headless := headless\<rparr>;
          (scope_token, ctx3) = set_routine_secret_scope secrets ctx2;
          (r, ctx4, w') = body ctx3 w;
          ctx5 = reset_routine_secret_scope scope_token ctx4;
          ctx6 = ctx5\<lparr>ctx_headless := reset_headless_mode headless_token (ctx_headless ctx5)\<rparr>
      in (r, reset_routine_run run_token ctx6, w'))"

definition user_identity_scope :: "string \<Rightarrow> ('a, 'w) block \<Rightarrow> ('a, 'w) block" where
  "user_identity_scope user body ctx w =
     (let (r, ctx', w') = body (ctx\<lparr>ctx_user_id := Some user\<rparr>) w in (r, ctx'\<lparr>ctx_user_id := ctx_user_id ctx\<rparr>, w'))"

section \<open>inject.py\<close>

text \<open>\<open>env_owner\<close> is the owner attribute of the active environment, an error when there is none;
  \<open>get_all\<close> is the store's.\<close>

definition resolve_secret_env ::
    "(string \<Rightarrow> pydict py) \<Rightarrow> string option py \<Rightarrow> string list option \<Rightarrow> run_ctx \<Rightarrow> pydict" where
  "resolve_secret_env get_all env_owner allow ctx =
     (let from_env = (case env_owner of Inr (Some own) \<Rightarrow> own | _ \<Rightarrow> []);
          owner = (if from_env = [] then (case ctx_user_id ctx of Some u \<Rightarrow> u | None \<Rightarrow> []) else from_env)
      in if owner = [] then []
         else case get_all owner of
                Inl _ \<Rightarrow> []
              | Inr stored \<Rightarrow>
                  (let result = (case ctx_google_token ctx of
                                   Some g \<Rightarrow> if g = [] then stored else dict_set stored ''CLOUDSDK_AUTH_ACCESS_TOKEN'' (PyStr g)
                                 | None \<Rightarrow> stored)
                   in case allow of None \<Rightarrow> result | Some names \<Rightarrow> filter (\<lambda>(k, v). k \<in> set names) result))"

definition secret_env :: "(string \<Rightarrow> pydict py) \<Rightarrow> string option py \<Rightarrow> run_ctx \<Rightarrow> pydict" where
  "secret_env get_all env_owner ctx = resolve_secret_env get_all env_owner (ctx_secret_scope ctx) ctx"

definition scoped_secret_env :: "(string \<Rightarrow> pydict py) \<Rightarrow> string option py \<Rightarrow> pyval list \<Rightarrow> run_ctx \<Rightarrow> pydict" where
  "scoped_secret_env get_all env_owner declared ctx =
     resolve_secret_env get_all env_owner (Some (List.map_filter as_str declared)) ctx"

section \<open>run_once.py\<close>

text \<open>The events of the run carry the texts of their parts; the run ends, or is cut off by the
  timeout, or raises.\<close>

datatype drain_end = Drained | TimedOut | Raised string

definition event_text :: "string option list \<Rightarrow> string" where
  "event_text parts = concat (List.map_filter id parts)"

definition run_routine_once ::
    "(run_ctx \<Rightarrow> string \<Rightarrow> string \<Rightarrow> 'w \<Rightarrow> (string option list list \<times> drain_end) \<times> run_ctx \<times> 'w) \<Rightarrow> int \<Rightarrow>
     string \<Rightarrow> string \<Rightarrow> string \<Rightarrow> pyval list \<Rightarrow> run_ctx \<Rightarrow> 'w \<Rightarrow> pydict \<times> run_ctx \<times> 'w" where
  "run_routine_once drain duration_ms routine_id owner task secrets ctx w =
     (let (r, ctx', w') = routine_isolation routine_id owner secrets
            (\<lambda>c w. let (x, c', w') = drain c owner (HEADLESS_PREAMBLE routine_id @ task) w in (Inr x, c', w')) ctx w
      in (case r of
            Inl _ \<Rightarrow> []
          | Inr (events, ending) \<Rightarrow>
              [(''success'', PyBool (ending = Drained)),
               (''status'', PyStr (case ending of Drained \<Rightarrow> ''completed'' | TimedOut \<Rightarrow> ''timeout'' | Raised _ \<Rightarrow> ''error'')),
               (''output'', PyStr (case ending of Raised e \<Rightarrow> e | _ \<Rightarrow> concat (filter (\<lambda>t. t \<noteq> []) (map event_text events)))),
               (''iterations'', PyInt (int (length events))),
               (''duration_ms'', PyInt duration_ms)], ctx', w'))"

definition routine_test ::
    "(run_ctx \<Rightarrow> string \<Rightarrow> string \<Rightarrow> 'w \<Rightarrow> (string option list list \<times> drain_end) \<times> run_ctx \<times> 'w) \<Rightarrow> int \<Rightarrow>
     (string \<times> string) option \<Rightarrow> string \<Rightarrow> string \<Rightarrow> pyval list option \<Rightarrow> run_ctx \<Rightarrow> 'w \<Rightarrow> pydict \<times> run_ctx \<times> 'w" where
  "routine_test drain duration_ms invocation name task secrets ctx w =
     (if task = [] then (failure ''test requires task'', ctx, w)
      else case identity invocation of
             None \<Rightarrow> (failure ''no active invocation context'', ctx, w)
           | Some (user, _) \<Rightarrow>
               run_routine_once drain duration_ms (slug name) user task (case secrets of None \<Rightarrow> [] | Some vs \<Rightarrow> vs) ctx w)"

text \<open>The tool dispatches on its action; a missing argument reads as empty.\<close>

definition or_empty :: "string option \<Rightarrow> string" where
  "or_empty x = (case x of None \<Rightarrow> [] | Some s \<Rightarrow> s)"

definition routine ::
    "cron \<Rightarrow> (pyval \<Rightarrow> string) \<Rightarrow> (int \<Rightarrow> string) \<Rightarrow> (routine_row \<Rightarrow> 's \<Rightarrow> string py \<times> 's) \<Rightarrow> (string \<Rightarrow> 's \<Rightarrow> routine_row list py) \<Rightarrow>
     (string \<Rightarrow> string \<Rightarrow> 's \<Rightarrow> bool py \<times> 's) \<Rightarrow> 'f routine_env \<Rightarrow>
     (run_ctx \<Rightarrow> string \<Rightarrow> string \<Rightarrow> ('s, 'f) routine_world \<Rightarrow> (string option list list \<times> drain_end) \<times> run_ctx \<times> ('s, 'f) routine_world) \<Rightarrow>
     int \<Rightarrow> int \<Rightarrow> (string \<times> string) option \<Rightarrow> string \<Rightarrow> string option \<Rightarrow> string option \<Rightarrow> string option \<Rightarrow> pyval list option \<Rightarrow>
     string option \<Rightarrow> string option \<Rightarrow> run_ctx \<Rightarrow> ('s, 'f) routine_world \<Rightarrow> pydict py \<times> run_ctx \<times> ('s, 'f) routine_world" where
  "routine cr safe_dump isoformat add list_for_user cancel env drain duration_ms now invocation action name schedule task secrets delivery rid ctx w =
     (if action = ''test''
      then (let (r, ctx', w') = routine_test drain duration_ms invocation (or_empty name) (or_empty task) secrets ctx w
            in (Inr r, ctx', w'))
      else if action = ''create''
      then (let (r, w') = routine_create cr safe_dump isoformat add env now invocation (or_empty name) (or_empty schedule)
                            (or_empty task) secrets delivery w
            in (r, ctx, w'))
      else if action = ''list'' then (routine_list isoformat list_for_user invocation (rw_store w), ctx, w)
      else if action = ''cancel''
      then (let (r, w') = routine_cancel cancel env invocation (or_empty rid) w in (r, ctx, w'))
      else (Inr (failure (''unknown action '' @ py_repr_str action)), ctx, w))"

section \<open>routine_tick_endpoint.py\<close>

text \<open>A part is its text, or \<open>None\<close> when it is not a text part.\<close>

record a2a_task =
  task_status_parts :: "string option list option"
  task_history :: "(bool \<times> string option list) list"
  task_artifacts :: "string option list list"

datatype a2a_result = AMessage "string option list" | ATask a2a_task

definition text_from_parts :: "string option list \<Rightarrow> string" where
  "text_from_parts parts = py_join [NL] (filter (\<lambda>t. t \<noteq> []) (map py_strip (List.map_filter id parts)))"

text \<open>The first non-empty text, in the order the code looks.\<close>

definition final_text_from_result :: "a2a_result \<Rightarrow> string" where
  "final_text_from_result result =
     (case result of
        AMessage parts \<Rightarrow> text_from_parts parts
      | ATask t \<Rightarrow>
          (let texts = (case task_status_parts t of Some ps \<Rightarrow> [text_from_parts ps] | None \<Rightarrow> [])
                 @ map (\<lambda>(_, ps). text_from_parts ps) (filter fst (rev (task_history t)))
                 @ map text_from_parts (task_artifacts t)
           in case find (\<lambda>s. s \<noteq> []) texts of Some s \<Rightarrow> s | None \<Rightarrow> []))"

text \<open>Creating the session and the handler's turn may raise. \<open>serving\<close> is whether the application has a
  runner and a handler.\<close>

record 'w routine_host =
  serving :: bool
  runner_app_name :: "string option"
  create_session :: "string \<Rightarrow> string \<Rightarrow> pydict \<Rightarrow> 'w \<Rightarrow> string py \<times> 'w"
  on_message_send :: "string \<Rightarrow> string \<Rightarrow> (a2a_result, 'w) block"

definition scheduled_session_state :: "string \<Rightarrow> string \<Rightarrow> pydict" where
  "scheduled_session_state job_type title =
     [(''system:session_source'', PyStr ''scheduler''), (''system:scheduler_job'', PyStr job_type), (''lha_chat_title'', PyStr title)]"

definition run_routine_turn :: "'w routine_host \<Rightarrow> string \<Rightarrow> routine_row \<Rightarrow> (string, 'w) block" where
  "run_routine_turn host session_id row ctx w =
     (let (r, ctx', w') = on_message_send host session_id (HEADLESS_PREAMBLE (rr_id row) @ rr_task row) ctx w
      in (py_bind r (\<lambda>x. Inr (final_text_from_result x)), ctx', w'))"

definition fire_routine :: "'w routine_host \<Rightarrow> routine_row \<Rightarrow> run_ctx \<Rightarrow> 'w \<Rightarrow> bool \<times> run_ctx \<times> 'w" where
  "fire_routine host row ctx w =
     (if \<not> serving host then (False, ctx, w)
      else
        (let (r, ctx', w') = routine_isolation (rr_id row) (rr_user_id row) (rr_secrets row)
               (\<lambda>c w. case create_session host
                         (case runner_app_name host of Some a \<Rightarrow> if a = [] then rr_app_name row else a | None \<Rightarrow> rr_app_name row)
                         (rr_user_id row) (scheduled_session_state ''routine'' (''Routine: '' @ rr_id row)) w of
                        (Inl e, w1) \<Rightarrow> (Inl e, c, w1)
                      | (Inr session_id, w1) \<Rightarrow> user_identity_scope (rr_user_id row) (run_routine_turn host session_id row) c w1) ctx w
         in (case r of Inl _ \<Rightarrow> False | Inr _ \<Rightarrow> True, ctx', w')))"

fun fire_all :: "'w routine_host \<Rightarrow> routine_row list \<Rightarrow> nat \<Rightarrow> nat \<Rightarrow> run_ctx \<Rightarrow> 'w \<Rightarrow> (nat \<times> nat) \<times> run_ctx \<times> 'w" where
  "fire_all host [] fired failed ctx w = ((fired, failed), ctx, w)"
| "fire_all host (row # rows) fired failed ctx w =
     (let (ok, ctx', w') = fire_routine host row ctx w
      in fire_all host rows (fired + 1) (if ok then failed else failed + 1) ctx' w')"

definition routine_tick ::
    "(int \<Rightarrow> 's \<Rightarrow> routine_row list py \<times> 's) \<Rightarrow> 'w routine_host \<Rightarrow> int \<Rightarrow> run_ctx \<Rightarrow> 's \<Rightarrow> 'w \<Rightarrow> pydict py \<times> 's \<times> run_ctx \<times> 'w" where
  "routine_tick claim_due host now ctx st w =
     (let (claimed, st') = claim_due now st
      in case claimed of
           Inl e \<Rightarrow> (Inl e, st', ctx, w)
         | Inr rows \<Rightarrow>
             (let ((fired, failed), ctx', w') = fire_all host rows 0 0 ctx w
              in (Inr ([(''fired'', PyInt (int fired))] @ (if failed > 0 then [(''failed'', PyInt (int failed))] else [])), st', ctx', w')))"

section \<open>Lemmas\<close>

definition safe_name :: "string \<Rightarrow> bool" where
  "safe_name s \<longleftrightarrow> s \<noteq> [] \<and> list_all (\<lambda>c. slug_char c \<or> c = CHR ''-'') s \<and> hd s \<noteq> CHR ''-'' \<and> last s \<noteq> CHR ''-''"

lemma hyphenate_chars: "list_all (\<lambda>c. slug_char c \<or> c = CHR ''-'') (hyphenate run s)"
  by (induction run s rule: hyphenate.induct) auto

lemma set_strip: "set (rstrip_chars P (lstrip_chars P s)) \<subseteq> set s"
  by (auto simp: rstrip_chars_def lstrip_chars_def dest!: set_dropWhileD)

lemma strip_ends:
  assumes "rstrip_chars P (lstrip_chars P s) \<noteq> []"
  shows "\<not> P (hd (rstrip_chars P (lstrip_chars P s)))" "\<not> P (last (rstrip_chars P (lstrip_chars P s)))"
proof -
  let ?t = "dropWhile P s"
  have t: "?t \<noteq> []"
  proof
    assume "?t = []"
    then show False using assms by (simp add: rstrip_chars_def lstrip_chars_def del: dropWhile_eq_Nil_conv)
  qed
  then have h: "\<not> P (hd ?t)" by (rule hd_dropWhile)
  have r: "dropWhile P (rev ?t) \<noteq> []" using assms by (simp add: rstrip_chars_def lstrip_chars_def)
  then show "\<not> P (last (rstrip_chars P (lstrip_chars P s)))"
    using hd_dropWhile [OF r] by (simp add: rstrip_chars_def lstrip_chars_def last_rev)
  obtain c u where c: "?t = c # u" using t by (cases ?t) auto
  have "\<exists>v. dropWhile P (rev u @ [c]) = v @ [c]" using h c by (induction "rev u") (auto simp: dropWhile_append)
  then show "\<not> P (hd (rstrip_chars P (lstrip_chars P s)))"
    using h c by (auto simp: rstrip_chars_def lstrip_chars_def)
qed

lemma slug_safe: "safe_name (slug name)"
proof (cases "rstrip_chars (\<lambda>c. c = CHR ''-'') (lstrip_chars (\<lambda>c. c = CHR ''-'') (hyphenate False (py_lower name))) = []")
  case True
  then show ?thesis by (simp add: slug_def safe_name_def slug_char_def ascii_lower_alpha_def)
next
  case False
  then show ?thesis using strip_ends [OF False] set_strip hyphenate_chars [of False "py_lower name"]
    by (auto simp: slug_def Let_def safe_name_def list_all_iff subset_eq)
qed

lemma slug_not_Nil [simp]: "slug name \<noteq> []"
  using slug_safe [of name] by (simp add: safe_name_def)

text \<open>What the user is shown, and what carrying it out may do: store the manifest that was shown under the
  identifier that was shown, and, once it is stored, add the row the manifest describes.\<close>

definition routine_payload :: "string \<Rightarrow> pydict \<Rightarrow> pydict" where
  "routine_payload routine_id body =
     [(''kind'', PyStr ''routine''), (''manifest'', PyDict body), (''routine_id'', PyStr routine_id)]"

definition str_field :: "pydict \<Rightarrow> string \<Rightarrow> string" where
  "str_field d k = (case dict_get d k of PyStr s \<Rightarrow> s | _ \<Rightarrow> [])"

definition row_of_manifest :: "string \<times> string \<Rightarrow> string \<Rightarrow> pydict \<Rightarrow> int \<Rightarrow> int \<Rightarrow> routine_row" where
  "row_of_manifest ident routine_id body next_at now =
     \<lparr>rr_id = routine_id, rr_user_id = fst ident, rr_app_name = snd ident, rr_schedule = str_field body ''schedule'',
      rr_task = str_field body ''task'', rr_secrets = (case dict_get body ''secrets'' of PyList vs \<Rightarrow> vs | _ \<Rightarrow> []),
      rr_delivery = str_field body ''delivery'', rr_next_fire_at = next_at, rr_created_at = now\<rparr>"

definition carried_out ::
    "cron \<Rightarrow> (pyval \<Rightarrow> string) \<Rightarrow> (routine_row \<Rightarrow> 's \<Rightarrow> string py \<times> 's) \<Rightarrow> 'f routine_env \<Rightarrow> int \<Rightarrow> string \<times> string \<Rightarrow> pydict \<Rightarrow>
     ('s, 'f) routine_world \<Rightarrow> ('s, 'f) routine_world \<Rightarrow> bool" where
  "carried_out cr safe_dump add env now ident payload w w' \<longleftrightarrow>
     (\<exists>routine_id body written. payload = routine_payload routine_id body \<and> safe_name routine_id \<and>
        env_write_file env (manifest_path env routine_id) (safe_dump (PyDict body)) (rw_files w) = (written, rw_files w') \<and>
        (rw_store w' = rw_store w \<or>
         written = Inr () \<and> (\<exists>next_at. next_cron_fire cr (str_field body ''schedule'') now = Inr next_at \<and>
           rw_store w' = snd (add (row_of_manifest ident routine_id body next_at now) (rw_store w)))))"

lemma body_fields [simp]:
  "dict_get (routine_body name schedule task secrets delivery) ''secrets'' = PyList (case secrets of None \<Rightarrow> [] | Some vs \<Rightarrow> vs)"
  "dict_get (routine_body name schedule task secrets delivery) ''delivery'' =
     PyStr (case delivery of None \<Rightarrow> DEFAULT_DELIVERY | Some d \<Rightarrow> if d = [] then DEFAULT_DELIVERY else d)"
  "str_field (routine_body name schedule task secrets delivery) ''schedule'' = schedule"
  "str_field (routine_body name schedule task secrets delivery) ''task'' = task"
  by (simp_all add: routine_body_def str_field_def dict_get_def dict_get_default_def)

lemma register_carries_out:
  assumes "register_routine cr safe_dump isoformat add env now ident (slug name) schedule task
      (routine_body name schedule task secrets delivery) w = (r, w')"
  shows "(rw_store w' = rw_store w \<and> rw_files w' = rw_files w) \<or>
    carried_out cr safe_dump add env now ident (routine_payload (slug name) (routine_body name schedule task secrets delivery)) w w'"
proof (cases "parse_manifest (PyDict (routine_body name schedule task secrets delivery)) (slug name)")
  case None
  then show ?thesis using assms by (simp add: register_routine_def write_routine_via_env_def)
next
  case (Some m)
  let ?body = "routine_body name schedule task secrets delivery"
  obtain written fs where wr: "env_write_file env (manifest_path env (slug name)) (safe_dump (PyDict ?body)) (rw_files w) = (written, fs)"
    by (rule prod.exhaust)
  have "rw_files w' = fs \<and> (rw_store w' = rw_store w \<or> written = Inr () \<and> (\<exists>next_at. next_cron_fire cr schedule now = Inr next_at \<and>
      rw_store w' = snd (add (row_of_manifest ident (slug name) ?body next_at now) (rw_store w))))"
    using assms
    by (cases written; cases "next_cron_fire cr schedule now")
      (auto simp: register_routine_def write_routine_via_env_def Some wr row_of_manifest_def str_field_def [of _ "''delivery''"]
        Let_def split: prod.splits)
  then show ?thesis using wr slug_safe [of name] unfolding carried_out_def
    by (intro disjI2 exI [of _ "slug name"] exI [of _ ?body] exI [of _ written]) simp
qed

definition restore :: "run_ctx \<Rightarrow> run_ctx \<Rightarrow> run_ctx" where
  "restore ctx c = c\<lparr>ctx_routine_run := ctx_routine_run ctx, ctx_headless := ctx_headless ctx, ctx_secret_scope := ctx_secret_scope ctx\<rparr>"

definition isolated :: "string \<Rightarrow> string \<Rightarrow> pyval list \<Rightarrow> run_ctx \<Rightarrow> run_ctx" where
  "isolated routine_id owner secrets ctx = ctx\<lparr>ctx_routine_run := Some (routine_id, owner), ctx_headless := True,
     ctx_secret_scope := Some (List.map_filter as_str secrets)\<rparr>"

lemma routine_isolation_unfold:
  "routine_isolation rid owner secrets body ctx w =
     (let (r, c, w') = body (isolated rid owner secrets ctx) w in (r, restore ctx c, w'))"
  by (simp add: routine_isolation_def set_routine_run_def set_headless_mode_def set_routine_secret_scope_def
      reset_routine_secret_scope_def reset_headless_mode_def reset_routine_run_def isolated_def restore_def Let_def
      split: prod.split)

definition same_context :: "run_ctx \<Rightarrow> run_ctx \<Rightarrow> bool" where
  "same_context c c' \<longleftrightarrow> ctx_routine_run c = ctx_routine_run c' \<and> ctx_headless c = ctx_headless c' \<and>
     ctx_secret_scope c = ctx_secret_scope c'"

lemma fire_same_context: "fire_routine host row ctx w = (ok, ctx', w') \<Longrightarrow> same_context ctx ctx'"
  by (auto simp: fire_routine_def routine_isolation_unfold restore_def same_context_def split: if_splits prod.splits)

lemma fire_all_spec:
  "fire_all host rows fired failed ctx w = ((n, k), ctx', w') \<Longrightarrow>
     n = fired + length rows \<and> failed \<le> k \<and> k \<le> failed + length rows \<and> same_context ctx ctx'"
proof (induction rows arbitrary: fired failed ctx w)
  case (Cons row rows)
  obtain ok c1 w1 where f: "fire_routine host row ctx w = (ok, c1, w1)" by (cases "fire_routine host row ctx w") auto
  show ?case using Cons.IH [of "fired + 1" "if ok then failed else failed + 1" c1 w1] Cons.prems fire_same_context [OF f]
    by (auto simp: f same_context_def split: if_splits)
qed (auto simp: same_context_def)

text \<open>What a scoped environment holds: declared names only, with what the store has for the owner or the
  delegated token.\<close>

lemma resolve_scoped:
  "(k, v) \<in> set (resolve_secret_env get_all env_owner (Some names) ctx) \<Longrightarrow> k \<in> set names"
  by (auto simp: resolve_secret_env_def Let_def split: if_splits sum.splits option.splits)

lemma set_dict_set: "(k, v) \<in> set (dict_set d k' v') \<Longrightarrow> (k, v) \<in> set d \<or> (k = k' \<and> v = v')"
  by (induction d) (auto split: if_splits)

lemma resolve_stored:
  assumes "env_owner = Inl e \<or> env_owner = Inr None \<or> env_owner = Inr (Some user)" and "ctx_user_id ctx = Some user"
    and "(k, v) \<in> set (resolve_secret_env get_all env_owner allow ctx)"
  shows "\<exists>stored. get_all user = Inr stored \<and>
    ((k, v) \<in> set stored \<or> k = ''CLOUDSDK_AUTH_ACCESS_TOKEN'' \<and> (\<exists>g. ctx_google_token ctx = Some g \<and> v = PyStr g))"
proof -
  let ?result = "\<lambda>stored. case ctx_google_token ctx of
      Some g \<Rightarrow> if g = [] then stored else dict_set stored ''CLOUDSDK_AUTH_ACCESS_TOKEN'' (PyStr g) | None \<Rightarrow> stored"
  have "resolve_secret_env get_all env_owner allow ctx = (if user = [] then [] else case get_all user of Inl _ \<Rightarrow> []
      | Inr stored \<Rightarrow> (case allow of None \<Rightarrow> ?result stored | Some names \<Rightarrow> filter (\<lambda>(k, v). k \<in> set names) (?result stored)))"
    using assms(1) by (elim disjE; cases "get_all user") (simp_all add: resolve_secret_env_def Let_def assms(2))
  then obtain stored where stored: "get_all user = Inr stored" and kv: "(k, v) \<in> set (?result stored)"
    using assms(3) by (cases "get_all user"; cases allow) (auto split: if_splits)
  then show ?thesis using set_dict_set [of k v stored] by (cases "ctx_google_token ctx") (auto split: if_splits)
qed

lemma INSERT_foreign: "by_id t (db_id new) = Some old \<Longrightarrow> db_user_id old \<noteq> db_user_id new \<Longrightarrow> INSERT_SQL new t = t"
  by (induction t) (auto simp: by_id_Cons split: if_splits)

section \<open>Properties\<close>

definition demo_env :: "(string \<rightharpoonup> string) routine_env" where
  "demo_env = \<lparr>env_working_dir = ''/ws'', env_write_file = (\<lambda>p t fs. (Inr (), fs(p \<mapsto> t))), env_delete_file = (\<lambda>p fs. (Inr (), fs(p := None)))\<rparr>"

definition demo_world :: "db_table \<Rightarrow> (db_table, string \<rightharpoonup> string) routine_world" where
  "demo_world t = \<lparr>rw_context = \<lparr>tc_state = None, tc_agent_name = None, tool_confirmation = Some \<lparr>confirmed = True, conf_payload = PyNone\<rparr>,
     tc_requests = [], skip_summarization = False\<rparr>, rw_store = t, rw_files = Map.empty\<rparr>"

definition demo_host :: "unit routine_host" where
  "demo_host = \<lparr>serving = True, runner_app_name = Some ''app'', create_session = (\<lambda>_ _ _ w. (Inr ''s'', w)),
     on_message_send = (\<lambda>_ _ c w. (Inr (AMessage []), c, w))\<rparr>"

definition demo_ctx :: run_ctx where
  "demo_ctx = \<lparr>ctx_routine_run = None, ctx_headless = False, ctx_secret_scope = None, ctx_google_token = None, ctx_user_id = None\<rparr>"

text \<open>C23: A routine is registered only with the user's consent, and exactly as it was shown. The call that
  finds no answer yet asks and changes neither the store nor the files. A call with the same arguments that
  changes either has the user's confirmation, and then it carries out the very payload the asking
  call put before the user: it writes at most the shown manifest to the shown, safe identifier under the
  routine directory, and adds at most one row, owned by the caller, with the schedule, task, secrets and
  delivery of that manifest; no row is added when the manifest could not be written.\<close>

theorem routine_needs_consent:
  assumes "routine_create cr safe_dump isoformat add env before invocation name schedule task secrets delivery w0 = (r0, w0')"
    and "tool_confirmation (rw_context w0) = None"
    and "routine_create cr safe_dump isoformat add env now invocation name schedule task secrets delivery w = (r, w')"
  shows "rw_store w0' = rw_store w0 \<and> rw_files w0' = rw_files w0 \<and>
    ((rw_store w' = rw_store w \<and> rw_files w' = rw_files w) \<or>
     (\<exists>c ident payload. tool_confirmation (rw_context w) = Some c \<and> confirmed c \<and> identity invocation = Some ident \<and>
       is_valid_cron cr schedule \<and>
       tc_requests (rw_context w0') = tc_requests (rw_context w0) @ [(create_hint name schedule (PyList (case secrets of None \<Rightarrow> [] | Some vs \<Rightarrow> vs)), payload)] \<and>
       carried_out cr safe_dump add env now ident payload w w'))"
proof (cases "rw_store w' = rw_store w \<and> rw_files w' = rw_files w")
  case True
  then show ?thesis using assms(1,2)
    by (auto simp: routine_create_def request_user_confirmation_def Let_def split: if_splits option.splits)
next
  case False
  then have guards: "name \<noteq> []" "schedule \<noteq> []" "task \<noteq> []" "is_valid_cron cr schedule"
    using assms(3) by (auto simp: routine_create_def split: if_splits)
  obtain ident where ident: "identity invocation = Some ident"
    using False assms(3) by (auto simp: routine_create_def split: if_splits option.splits)
  obtain c where c: "tool_confirmation (rw_context w) = Some c" "confirmed c"
    using False assms(3) guards ident
    by (auto simp: routine_create_def request_user_confirmation_def Let_def split: if_splits option.splits)
  have "register_routine cr safe_dump isoformat add env now ident (slug name) schedule task
      (routine_body name schedule task secrets delivery) w = (r, w')"
    using assms(3) guards ident c
    by (auto simp: routine_create_def request_user_confirmation_def Let_def split: if_splits)
  from register_carries_out [OF this] False assms(1,2) guards ident c show ?thesis
    by (auto simp: routine_create_def request_user_confirmation_def Let_def routine_payload_def)
qed

theorem routine_needs_consent_witness:
  "\<exists>r0 w0' r w' payload.
    routine_create hourly (\<lambda>_. []) (\<lambda>_. []) (pg_add [] []) demo_env 5 (Some (''ann'', ''app'')) ''R''
      ''0 * * * *'' ''t'' None None ((demo_world [])\<lparr>rw_context := (rw_context (demo_world []))\<lparr>tool_confirmation := None\<rparr>\<rparr>) = (r0, w0') \<and>
    routine_create hourly (\<lambda>_. []) (\<lambda>_. []) (pg_add [] []) demo_env 10 (Some (''ann'', ''app'')) ''R''
      ''0 * * * *'' ''t'' None None (demo_world []) = (r, w') \<and> rw_store w' \<noteq> [] \<and>
    tc_requests (rw_context w0') = [(create_hint ''R'' ''0 * * * *'' (PyList []), payload)] \<and>
    carried_out hourly (\<lambda>_. []) (pg_add [] []) demo_env 10 (''ann'', ''app'') payload (demo_world []) w'"
proof -
  let ?w0 = "(demo_world [])\<lparr>rw_context := (rw_context (demo_world []))\<lparr>tool_confirmation := None\<rparr>\<rparr>"
  let ?call = "\<lambda>now w. routine_create hourly (\<lambda>_. []) (\<lambda>_. []) (pg_add [] []) demo_env now (Some (''ann'', ''app'')) ''R''
      ''0 * * * *'' ''t'' None None w"
  obtain r0 w0' where ask: "?call 5 ?w0 = (r0, w0')" by (rule prod.exhaust)
  obtain r w' where call: "?call 10 (demo_world []) = (r, w')" by (rule prod.exhaust)
  have "rw_store (snd (?call 10 (demo_world []))) \<noteq> []" by code_simp
  then have ne: "rw_store w' \<noteq> []" by (simp add: call)
  have id: "identity (Some (''ann'', ''app'')) = Some (''ann'', ''app'')" by (simp add: identity_def)
  have "tool_confirmation (rw_context ?w0) = None" by simp
  from routine_needs_consent [OF ask this call] ne call ask id show ?thesis by (auto simp: demo_world_def)
qed

text \<open>A name that is taken is reported as scheduled: when another user owns a routine whose identifier
  is the slug of the chosen name, a confirmed call answers with success and the identifier, and the
  table is as it was, so the routine never runs for the caller.\<close>

theorem taken_name_reports_success:
  assumes "pg_ok t" and "pg_view t (slug name) = Some r" and "rr_user_id r \<noteq> user"
    and "rw_store w = t" and "tool_confirmation (rw_context w) = Some c" and "confirmed c"
    and "identity invocation = Some (user, app)" and "py_strip name \<noteq> []" and "py_strip schedule \<noteq> []" and "py_strip task \<noteq> []"
    and "next_cron_fire cr schedule now = Inr next_at"
    and "env_write_file env (manifest_path env (slug name)) (safe_dump (PyDict (routine_body name schedule task secrets delivery))) (rw_files w) = (Inr (), fs)"
  shows "routine_create cr safe_dump isoformat (pg_add [] uuid) env now invocation name schedule task secrets delivery w =
    (Inr [(''success'', PyBool True), (''id'', PyStr (slug name)), (''next_fire_at'', PyStr (isoformat next_at))], w\<lparr>rw_files := fs\<rparr>)"
proof -
  let ?row = "row_of_manifest (user, app) (slug name) (routine_body name schedule task secrets delivery) next_at now"
  obtain old where old: "by_id t (slug name) = Some old" and r: "r = forget (routine_of old)"
    using assms(2) by (auto simp: pg_view_def)
  have "db_user_id old \<noteq> user" using assms(3) r routine_of_fields(2) [OF pg_ok_reads [OF assms(1) old]] by simp
  then have "INSERT_SQL (routine_to_row (slug name) ?row) t = t"
    by (intro INSERT_foreign [of _ _ old]) (simp_all add: routine_to_row_def row_of_manifest_def old)
  then have add: "pg_add [] uuid ?row t = (Inr (slug name), t)"
    by (simp add: pg_add_def Let_def row_key_def) (simp add: row_of_manifest_def)
  have "is_valid_cron cr schedule" using assms(11) by (simp add: next_cron_fire_def split: if_splits)
  moreover have "parse_manifest (PyDict (routine_body name schedule task secrets delivery)) (slug name) \<noteq> None"
    using assms(8-10) by (simp add: parse_manifest_def routine_body_def dict_get_def dict_get_default_def nonempty_str_def)
  then obtain m where "parse_manifest (PyDict (routine_body name schedule task secrets delivery)) (slug name) = Some m" by blast
  then have "register_routine cr safe_dump isoformat (pg_add [] uuid) env now (user, app) (slug name) schedule task
      (routine_body name schedule task secrets delivery) w =
    (Inr [(''success'', PyBool True), (''id'', PyStr (slug name)), (''next_fire_at'', PyStr (isoformat next_at))], w\<lparr>rw_files := fs\<rparr>)"
    using add assms(4,11,12) by (simp add: register_routine_def write_routine_via_env_def Let_def row_of_manifest_def str_field_def [of _ "''delivery''"])
  moreover have "name \<noteq> []" "schedule \<noteq> []" "task \<noteq> []" using assms(8-10) by auto
  ultimately show ?thesis using assms(5-7)
    by (simp add: routine_create_def request_user_confirmation_def Let_def)
qed

theorem taken_name_reports_success_witness:
  "routine_create hourly (\<lambda>_. []) (\<lambda>_. []) (pg_add [] []) demo_env 10 (Some (''bob'', ''app'')) ''R'' ''0 * * * *'' ''t'' None None
      (demo_world (demo_table 0)) =
    (Inr [(''success'', PyBool True), (''id'', PyStr (slug ''R'')), (''next_fire_at'', PyStr [])],
     (demo_world (demo_table 0))\<lparr>rw_files := [''/ws/.lha/routines/r.yaml'' \<mapsto> []]\<rparr>)"
proof -
  have s: "slug ''R'' = ''r''" by code_simp
  have v: "pg_view (demo_table 0) (slug ''R'') = Some (demo_routine ''r'' ''ann'' 0)" unfolding s by (rule demo_table_ok(2))
  have u: "rr_user_id (demo_routine ''r'' ''ann'' 0) \<noteq> ''bob''" by (simp add: demo_routine_def)
  have n: "next_cron_fire hourly ''0 * * * *'' 10 = Inr 3600" by code_simp
  have w: "rw_store (demo_world (demo_table 0)) = demo_table 0"
    "tool_confirmation (rw_context (demo_world (demo_table 0))) = Some \<lparr>confirmed = True, conf_payload = PyNone\<rparr>"
    by (simp_all add: demo_world_def)
  have strip: "py_strip ''R'' \<noteq> []" "py_strip ''0 * * * *'' \<noteq> []" "py_strip ''t'' \<noteq> []" by code_simp+
  have e: "env_write_file demo_env (manifest_path demo_env (slug ''R'')) ((\<lambda>_. []) (PyDict (routine_body ''R'' ''0 * * * *'' ''t'' None None)))
      (rw_files (demo_world (demo_table 0))) = (Inr (), [''/ws/.lha/routines/r.yaml'' \<mapsto> []])"
    by (simp add: s demo_env_def demo_world_def manifest_path_def ROUTINE_OVERLAY_DIR_def startswith_def)
  show ?thesis
    by (rule taken_name_reports_success [OF demo_table_ok(1) v u w _ _ strip n e]) (simp_all add: identity_def)
qed

text \<open>C24: A fired routine is confined: its turn runs headless, marked as the routine's own run, under the
  identity of its owner, and whatever store and environment it asks, the secrets it receives carry
  only names the routine declares, with the values its owner stored or the delegated token; when the turn ends, normally
  or by an exception, the run marker, the headless flag and the secret scope are as they were before.\<close>

theorem fired_routine_is_confined:
  assumes "serving host" and "create_session host app (rr_user_id row) (scheduled_session_state ''routine'' (''Routine: '' @ rr_id row)) w = (Inr sid, w1)"
    and "runner_app_name host = Some app" and "app \<noteq> []"
    and "c = (isolated (rr_id row) (rr_user_id row) (rr_secrets row) ctx)\<lparr>ctx_user_id := Some (rr_user_id row)\<rparr>"
    and "on_message_send host sid (HEADLESS_PREAMBLE (rr_id row) @ rr_task row) c w1 = (res, c', w2)"
  shows "fire_routine host row ctx w = (\<not> isl res, restore ctx (c'\<lparr>ctx_user_id := ctx_user_id ctx\<rparr>), w2) \<and>
    ctx_headless c \<and> ctx_routine_run c = Some (rr_id row, rr_user_id row) \<and>
    ((k, v) \<in> set (secret_env get_all env_owner c) \<longrightarrow> PyStr k \<in> set (rr_secrets row)) \<and>
    (env_owner = Inr (Some (rr_user_id row)) \<longrightarrow> (k, v) \<in> set (secret_env get_all env_owner c) \<longrightarrow>
      (\<exists>stored. get_all (rr_user_id row) = Inr stored \<and> ((k, v) \<in> set stored \<or>
        k = ''CLOUDSDK_AUTH_ACCESS_TOKEN'' \<and> (\<exists>g. ctx_google_token ctx = Some g \<and> v = PyStr g))))"
proof -
  have fire: "fire_routine host row ctx w = (\<not> isl res, restore ctx (c'\<lparr>ctx_user_id := ctx_user_id ctx\<rparr>), w2)"
    using assms by (cases res) (simp_all add: fire_routine_def routine_isolation_unfold user_identity_scope_def run_routine_turn_def isolated_def)
  have c: "ctx_headless c" "ctx_routine_run c = Some (rr_id row, rr_user_id row)" "ctx_user_id c = Some (rr_user_id row)"
    "ctx_secret_scope c = Some (List.map_filter as_str (rr_secrets row))" "ctx_google_token c = ctx_google_token ctx"
    by (simp_all add: assms(5) isolated_def)
  have "PyStr k \<in> set (rr_secrets row)" if "(k, v) \<in> set (secret_env get_all env_owner c)"
    using resolve_scoped [OF that [unfolded secret_env_def c(4)]]
    by (auto simp: List.map_filter_def as_str_def split: pyval.splits)
  then show ?thesis using fire c resolve_stored [OF _ c(3), of env_owner _ k v get_all] by (auto simp: secret_env_def)
qed

theorem fired_routine_is_confined_witness:
  "fire_routine demo_host (demo_routine ''r'' ''ann'' 0) demo_ctx () = (True, demo_ctx, ())"
proof -
  let ?row = "demo_routine ''r'' ''ann'' 0"
  let ?c = "(isolated (rr_id ?row) (rr_user_id ?row) (rr_secrets ?row) demo_ctx)\<lparr>ctx_user_id := Some (rr_user_id ?row)\<rparr>"
  have "on_message_send demo_host ''s'' (HEADLESS_PREAMBLE (rr_id ?row) @ rr_task ?row) ?c () = (Inr (AMessage []), ?c, ())"
    by (simp add: demo_host_def)
  from fired_routine_is_confined [OF _ _ _ _ refl this, of "''app''" "()"]
  show ?thesis by (simp add: demo_host_def demo_ctx_def restore_def isolated_def)
qed

text \<open>A tick attempts everything it claims: the failure of one routine does not keep the others from
  running, the answer counts every claimed routine and no more failures than attempts, and no
  routine leaves its headless mode or secret scope behind for the next one.\<close>

theorem tick_attempts_every_claim:
  assumes "claim_due now st = (Inr rows, st')" and "routine_tick claim_due host now ctx st w = (r, st1, ctx', w')"
  shows "\<exists>body failed. r = Inr body \<and> st1 = st' \<and> dict_get body ''fired'' = PyInt (int (length rows)) \<and>
    failed \<le> length rows \<and> dict_get body ''failed'' = (if failed = 0 then PyNone else PyInt (int failed)) \<and> same_context ctx ctx'"
proof -
  obtain n k c1 w1 where f: "fire_all host rows 0 0 ctx w = ((n, k), c1, w1)" by (cases "fire_all host rows 0 0 ctx w") auto
  show ?thesis using assms fire_all_spec [OF f] f
    by (intro exI [of _ "[(''fired'', PyInt (int n))] @ (if k > 0 then [(''failed'', PyInt (int k))] else [])"] exI [of _ k])
      (auto simp: routine_tick_def dict_get_def dict_get_default_def)
qed

theorem tick_attempts_every_claim_witness:
  "\<exists>body st1 ctx' w'. routine_tick (pg_claim_due hourly in_order (\<lambda>_. False) []) demo_host 10 demo_ctx (demo_table 0) () =
     (Inr body, st1, ctx', w') \<and> dict_get body ''fired'' = PyInt 1"
proof -
  obtain r st1 ctx' w' where t: "routine_tick (pg_claim_due hourly in_order (\<lambda>_. False) []) demo_host 10 demo_ctx (demo_table 0) () =
     (r, st1, ctx', w')" by (rule prod_cases4)
  from tick_attempts_every_claim [OF demo_claims(1) t] show ?thesis using t by auto
qed

end
