(* ===== verification/Sandbox_Lifecycle.thy ===== *)
theory Sandbox_Lifecycle
  imports Py_Json "HOL-Library.Char_ord" "HOL-Library.List_Lexorder" "HOL-Library.Product_Lexorder" "HOL-Library.Multiset"
begin

text \<open>
  Sandboxes in the cloud (\<open>sandbox/lifecycle.py\<close>): the names under which a user's sandboxes, a routine's
  sandboxes and snapshots are found, creating, restoring and deleting them, and what a discovery picks.
  The client library of the cloud service is the record \<open>vertex\<close> over an abstract state of the
  service; its objects carry the attributes the code reads. Strings are ordered by code point.
\<close>

section \<open>The client\<close>

text \<open>An error of the service with its status code, or an exception of the code itself.\<close>

datatype api_exn = ApiError "int option" | Raise py_exn

type_synonym 'a api = "api_exn + 'a"

type_synonym ('r, 'a) call = "'r \<Rightarrow> 'a api \<times> 'r"

definition ret :: "'a \<Rightarrow> ('r, 'a) call" where
  "ret x r = (Inr x, r)"

definition throw :: "api_exn \<Rightarrow> ('r, 'a) call" where
  "throw e r = (Inl e, r)"

definition seq :: "('r, 'a) call \<Rightarrow> ('a \<Rightarrow> ('r, 'b) call) \<Rightarrow> ('r, 'b) call" where
  "seq m f r = (case m r of (Inl e, r') \<Rightarrow> (Inl e, r') | (Inr x, r') \<Rightarrow> f x r')"

text \<open>\<open>sb_state\<close> is the name of the state, \<open>sb_connection\<close> host and routing token, empty where missing.\<close>

record sandbox_obj =
  sb_name :: "string option"
  sb_display_name :: "string option"
  sb_state :: "string option"
  sb_create_time :: string
  sb_connection :: "(string \<times> string) option"
  sb_template :: string

record snapshot_obj =
  sn_name :: "string option"
  sn_display_name :: "string option"
  sn_create_time :: string

record template_obj =
  tp_name :: string
  tp_display_name :: "string option"
  tp_image_uri :: "string option"
  tp_internet_access :: "bool option"

record operation =
  op_name :: string
  op_connection :: "(string \<times> string) option"

record 'r vertex =
  sandboxes_list :: "string \<Rightarrow> ('r, sandbox_obj list) call"
  sandboxes_get :: "string \<Rightarrow> ('r, sandbox_obj) call"
  sandboxes_create :: "string \<Rightarrow> pydict \<Rightarrow> ('r, operation option) call"
  sandboxes_delete :: "string \<Rightarrow> ('r, unit) call"
  snapshots_list :: "string \<Rightarrow> ('r, snapshot_obj list) call"
  snapshots_create :: "string \<Rightarrow> pydict \<Rightarrow> ('r, operation option) call"
  snapshots_delete :: "string \<Rightarrow> ('r, unit) call"
  templates_list :: "string \<Rightarrow> ('r, template_obj list) call"
  templates_get :: "string \<Rightarrow> ('r, template_obj) call"
  templates_create :: "string \<Rightarrow> string \<Rightarrow> pydict \<Rightarrow> ('r, operation option) call"
  generate_access_token :: "string \<Rightarrow> ('r, string) call"

section \<open>Durations and operations\<close>

definition ttl_mult :: "char \<Rightarrow> nat option" where
  "ttl_mult c = map_of [(CHR ''s'', 1), (CHR ''m'', 60), (CHR ''h'', 3600), (CHR ''d'', 86400)] (py_lower_char c)"

definition normalize_ttl :: "string \<Rightarrow> string py" where
  "normalize_ttl ttl =
     (let t = py_strip ttl;
          digits = rstrip_chars py_isspace (butlast t)
      in case (if t = [] then None else ttl_mult (last t)) of
           Some m \<Rightarrow> if digits \<noteq> [] \<and> list_all ascii_digit digits
                     then Inr (string_of_nat (nat_of_digits 0 digits * m) @ ''s'')
                     else Inl (ValueError (''Invalid TTL '' @ py_repr_str ttl @ '': expected <number><s|m|h|d> (e.g. '' @ py_repr_str ''14d'' @ '', '' @ py_repr_str ''900s'' @ '')''))
         | None \<Rightarrow> Inl (ValueError (''Invalid TTL '' @ py_repr_str ttl @ '': expected <number><s|m|h|d> (e.g. '' @ py_repr_str ''14d'' @ '', '' @ py_repr_str ''900s'' @ '')'')))"

record provisioned_sandbox =
  ps_name :: string
  ps_lb_host :: string
  ps_routing_token :: string

definition is_not_found :: "api_exn \<Rightarrow> bool" where
  "is_not_found e \<longleftrightarrow> e = ApiError (Some 404)"

definition operation_resource_name :: "operation option \<Rightarrow> string api" where
  "operation_resource_name operation =
     (case operation of
        None \<Rightarrow> Inl (Raise (RuntimeError ''Sandbox operation returned no response; cannot extract resource name''))
      | Some response \<Rightarrow>
          if op_name response = [] then Inl (Raise (RuntimeError (''Sandbox operation response missing '' @ py_repr_str ''name'' @ '' field'')))
          else Inr (op_name response))"

definition provisioned_from_operation :: "operation option \<Rightarrow> provisioned_sandbox api" where
  "provisioned_from_operation operation =
     (case operation of
        None \<Rightarrow> Inl (Raise (RuntimeError ''Sandbox operation returned no response; cannot extract resource name''))
      | Some response \<Rightarrow>
          if op_name response = [] then Inl (Raise (RuntimeError (''Sandbox operation response missing '' @ py_repr_str ''name'' @ '' field'')))
          else case op_connection response of
                 None \<Rightarrow> Inl (Raise (RuntimeError (''Sandbox operation response missing '' @ py_repr_str ''connection_info'' @ '' '' @ EMDASH
                           @ '' the LB host and routing token are mandatory for talking to the shim'')))
               | Some (lb_host, routing_token) \<Rightarrow>
                   if lb_host = [] \<or> routing_token = []
                   then Inl (Raise (RuntimeError ''Sandbox connection_info missing load_balancer_hostname or routing_token''))
                   else Inr \<lparr>ps_name = op_name response, ps_lb_host = lb_host, ps_routing_token = routing_token\<rparr>)"

definition of_api :: "'a api \<Rightarrow> ('r, 'a) call" where
  "of_api x r = (x, r)"

definition of_py :: "'a py \<Rightarrow> ('r, 'a) call" where
  "of_py x r = ((case x of Inl e \<Rightarrow> Inl (Raise e) | Inr a \<Rightarrow> Inr a), r)"

section \<open>Templates\<close>

definition template_display_name :: "bool \<Rightarrow> string" where
  "template_display_name internet_access = ''lha-default-'' @ (if internet_access then ''net'' else ''hermetic'')"

definition template_internet_access :: "template_obj \<Rightarrow> bool \<Rightarrow> bool" where
  "template_internet_access template dflt =
     (case tp_internet_access template of
        Some ia \<Rightarrow> ia
      | None \<Rightarrow>
          (let dn = (case tp_display_name template of Some d \<Rightarrow> d | None \<Rightarrow> [])
           in if endswith dn ''-net'' then True else if endswith dn ''-hermetic'' then False else dflt))"

text \<open>The search through the listed templates: a listed stub is completed by a \<open>get\<close>, and skipped when
  that fails.\<close>

fun find_template :: "'r vertex \<Rightarrow> string \<Rightarrow> string \<Rightarrow> template_obj list \<Rightarrow> ('r, string option) call" where
  "find_template cl display_name image_uri [] = ret None"
| "find_template cl display_name image_uri (template # ts) =
     (let decide = (\<lambda>name image. if name \<noteq> Some display_name \<or> image \<noteq> Some image_uri
                      then find_template cl display_name image_uri ts else ret (Some (tp_name template)))
      in if tp_display_name template = None \<or> tp_image_uri template = None
         then (if tp_name template = [] then find_template cl display_name image_uri ts
               else (\<lambda>r. case templates_get cl (tp_name template) r of
                            (Inl _, r') \<Rightarrow> find_template cl display_name image_uri ts r'
                          | (Inr hydrated, r') \<Rightarrow> decide (tp_display_name hydrated) (tp_image_uri hydrated) r'))
         else decide (tp_display_name template) (tp_image_uri template))"

definition template_config :: "string \<Rightarrow> bool \<Rightarrow> pydict" where
  "template_config image_uri internet_access =
     [(''custom_container_environment'', PyDict
         [(''custom_container_spec'', PyDict [(''image_uri'', PyStr image_uri)]),
          (''ports'', PyList [PyDict [(''port'', PyInt 8080), (''protocol'', PyStr ''TCP'')]])]),
      (''egress_control_config'', PyDict [(''internet_access'', PyBool internet_access)])]"

definition ensure_template :: "'r vertex \<Rightarrow> string \<Rightarrow> string \<Rightarrow> bool \<Rightarrow> ('r, string) call" where
  "ensure_template cl agent_instance image_uri internet_access =
     (let display_name = template_display_name internet_access
      in seq (templates_list cl agent_instance) (\<lambda>existing.
         seq (find_template cl display_name image_uri existing) (\<lambda>found.
           case found of
             Some name \<Rightarrow> ret name
           | None \<Rightarrow> seq (templates_create cl agent_instance display_name (template_config image_uri internet_access))
                        (\<lambda>operation. of_api (operation_resource_name operation)))))"

section \<open>Names\<close>

text \<open>\<open>_SAFE_USER_ID.sub\<close>: a run of characters outside the class becomes one underscore.\<close>

definition safe_char :: "char \<Rightarrow> bool" where
  "safe_char c \<longleftrightarrow> c \<in> set ''abcdefghijklmnopqrstuvwxyzABCDEFGHIJKLMNOPQRSTUVWXYZ0123456789_''"

fun underscore :: "bool \<Rightarrow> string \<Rightarrow> string" where
  "underscore run [] = []"
| "underscore run (c # s) =
     (if safe_char c then c # underscore False s
      else if run then underscore True s else CHR ''_'' # underscore True s)"

definition after_last :: "char \<Rightarrow> string \<Rightarrow> string" where
  "after_last c s = rev (takeWhile (\<lambda>d. d \<noteq> c) (rev s))"

definition or_untagged :: "string \<Rightarrow> string" where
  "or_untagged s = (if s = [] then ''untagged'' else s)"

definition runtime_image_version :: "string \<Rightarrow> string" where
  "runtime_image_version image_uri =
     (let ref = py_strip image_uri
      in if CHR ''@'' \<in> set ref then or_untagged (take 19 (underscore False (after_last CHR ''@'' ref)))
         else (let suffix = after_last CHR '':'' ref
               in if CHR '':'' \<in> set ref \<and> CHR ''/'' \<notin> set suffix then or_untagged (underscore False suffix)
                  else ''untagged''))"

definition USER_ID_MAX_LEN :: nat where
  "USER_ID_MAX_LEN = 32"

definition sanitize_user_id :: "string \<Rightarrow> string" where
  "sanitize_user_id user =
     (let s = take USER_ID_MAX_LEN (underscore False user) in if s = [] then ''anonymous'' else s)"

definition user_display_prefix :: "string \<Rightarrow> string" where
  "user_display_prefix user = ''lha-'' @ sanitize_user_id user @ ''-''"

definition sandbox_display_name :: "string \<Rightarrow> string \<Rightarrow> string" where
  "sandbox_display_name user image_uri = user_display_prefix user @ runtime_image_version image_uri"

definition SNAPSHOT_DISPLAY_SUFFIX :: string where
  "SNAPSHOT_DISPLAY_SUFFIX = ''-snap''"

definition sandbox_display_name_from_snapshot :: "string \<Rightarrow> string" where
  "sandbox_display_name_from_snapshot s =
     (if endswith s SNAPSHOT_DISPLAY_SUFFIX then take (length s - length SNAPSHOT_DISPLAY_SUFFIX) s else s)"

definition ROUTINE_DISPLAY_PREFIX :: string where
  "ROUTINE_DISPLAY_PREFIX = ''lhart-''"

definition routine_display_name :: "string \<Rightarrow> string \<Rightarrow> string" where
  "routine_display_name routine_id image_uri =
     ROUTINE_DISPLAY_PREFIX @ sanitize_user_id routine_id @ ''-'' @ runtime_image_version image_uri"

text \<open>\<open>version_lt\<close> compares two versions, \<open>None\<close> when one of them does not parse.\<close>

definition version_below_floor :: "(string \<Rightarrow> string \<Rightarrow> bool option) \<Rightarrow> string \<Rightarrow> string \<Rightarrow> bool" where
  "version_below_floor version_lt display_name lowest =
     (if lowest = [] then False
      else (let version = (if CHR ''-'' \<in> set display_name then after_last CHR ''-'' display_name else []);
                plain = map (\<lambda>c. if c = CHR ''_'' then CHR ''.'' else c) version;
                is_v = (\<lambda>c. c = CHR ''v'')
            in case version_lt (lstrip_chars is_v plain) (lstrip_chars is_v lowest) of Some b \<Rightarrow> b | None \<Rightarrow> False))"

section \<open>Discovery\<close>

definition sandbox_is_running :: "sandbox_obj \<Rightarrow> bool" where
  "sandbox_is_running sandbox = (case sb_state sandbox of None \<Rightarrow> True | Some name \<Rightarrow> contains name ''RUNNING'')"

definition sandbox_state_name :: "sandbox_obj \<Rightarrow> string" where
  "sandbox_state_name sandbox = (case sb_state sandbox of None \<Rightarrow> [] | Some name \<Rightarrow> name)"

text \<open>The resource name of an object, when it has one.\<close>

definition resource_name :: "string option \<Rightarrow> string list" where
  "resource_name name = (case name of None \<Rightarrow> [] | Some n \<Rightarrow> if n = [] then [] else [n])"

text \<open>A list sorted in reverse keeps the order of equal elements.\<close>

definition sort_reverse :: "('a \<Rightarrow> 'k::linorder) \<Rightarrow> 'a list \<Rightarrow> 'a list" where
  "sort_reverse f xs = rev (sort_key f (rev xs))"

definition newest_first :: "(string \<times> string \<times> 'a) list \<Rightarrow> (string \<times> string \<times> 'a) list" where
  "newest_first candidates = sort_reverse fst (sort_key (\<lambda>c. fst (snd c)) candidates)"

definition running_named :: "string \<Rightarrow> sandbox_obj list \<Rightarrow> string list" where
  "running_named want sandboxes =
     concat (map (\<lambda>s. if sb_display_name s \<noteq> Some want \<or> \<not> sandbox_is_running s then [] else resource_name (sb_name s)) sandboxes)"

definition smallest :: "string list \<Rightarrow> string option" where
  "smallest names = (case sort names of [] \<Rightarrow> None | n # _ \<Rightarrow> Some n)"

definition find_user_sandbox :: "'r vertex \<Rightarrow> string \<Rightarrow> string \<Rightarrow> string \<Rightarrow> ('r, string option) call" where
  "find_user_sandbox cl agent_instance user image_uri =
     seq (sandboxes_list cl agent_instance) (\<lambda>listed. ret (smallest (running_named (sandbox_display_name user image_uri) listed)))"

definition find_routine_sandbox :: "'r vertex \<Rightarrow> string \<Rightarrow> string \<Rightarrow> string \<Rightarrow> ('r, string option) call" where
  "find_routine_sandbox cl agent_instance routine_id image_uri =
     seq (sandboxes_list cl agent_instance) (\<lambda>listed. ret (smallest (running_named (routine_display_name routine_id image_uri) listed)))"

text \<open>Running sandboxes whose display name passes a test, as creation time, name and display name.\<close>

definition running_candidates :: "(string \<Rightarrow> bool) \<Rightarrow> sandbox_obj list \<Rightarrow> (string \<times> string \<times> string) list" where
  "running_candidates accept sandboxes =
     concat (map (\<lambda>s. case sb_display_name s of
                        None \<Rightarrow> []
                      | Some display \<Rightarrow> if display = [] \<or> \<not> accept display \<or> \<not> sandbox_is_running s then []
                                        else map (\<lambda>n. (sb_create_time s, n, display)) (resource_name (sb_name s))) sandboxes)"

definition prior_candidates :: "string \<Rightarrow> string \<Rightarrow> sandbox_obj list \<Rightarrow> (string \<times> string \<times> string) list" where
  "prior_candidates user image_uri =
     running_candidates (\<lambda>d. startswith d (user_display_prefix user) \<and> d \<noteq> sandbox_display_name user image_uri)"

definition latest_candidates :: "string \<Rightarrow> sandbox_obj list \<Rightarrow> (string \<times> string \<times> string) list" where
  "latest_candidates user = running_candidates (\<lambda>d. startswith d (user_display_prefix user))"

definition first_candidate :: "(string \<times> string \<times> string) list \<Rightarrow> (string \<times> string) option" where
  "first_candidate candidates = (case newest_first candidates of [] \<Rightarrow> None | (_, name, display) # _ \<Rightarrow> Some (name, display))"

definition find_prior_user_sandbox :: "'r vertex \<Rightarrow> string \<Rightarrow> string \<Rightarrow> string \<Rightarrow> ('r, string option) call" where
  "find_prior_user_sandbox cl agent_instance user current_image_uri =
     seq (sandboxes_list cl agent_instance) (\<lambda>listed.
       ret (map_option fst (first_candidate (prior_candidates user current_image_uri listed))))"

definition find_latest_user_sandbox :: "'r vertex \<Rightarrow> string \<Rightarrow> string \<Rightarrow> ('r, (string \<times> string) option) call" where
  "find_latest_user_sandbox cl agent_instance user =
     seq (sandboxes_list cl agent_instance) (\<lambda>listed. ret (first_candidate (latest_candidates user listed)))"

definition state_rank :: "string \<Rightarrow> nat" where
  "state_rank name =
     (if contains name ''RUNNING'' then 0
      else if contains name ''CREATING'' \<or> contains name ''PENDING'' then 1
      else if contains name ''ERROR'' then 2 else 3)"

definition state_candidates :: "string \<Rightarrow> sandbox_obj list \<Rightarrow> (string \<times> string) list" where
  "state_candidates want sandboxes =
     concat (map (\<lambda>s. if sb_display_name s \<noteq> Some want then []
                      else map (\<lambda>n. (sandbox_state_name s, n)) (resource_name (sb_name s))) sandboxes)"

definition get_user_sandbox_state :: "'r vertex \<Rightarrow> string \<Rightarrow> string \<Rightarrow> string \<Rightarrow> ('r, pydict option) call" where
  "get_user_sandbox_state cl agent_instance user image_uri =
     seq (sandboxes_list cl agent_instance) (\<lambda>listed.
       ret (case sort_key (\<lambda>(state, name). (state_rank state, name)) (state_candidates (sandbox_display_name user image_uri) listed) of
              [] \<Rightarrow> None
            | (state, name) # _ \<Rightarrow>
                (let answer = (\<lambda>status. Some [(''status'', PyStr status), (''sandbox_name'', PyStr name)])
                 in if contains state ''RUNNING'' then answer ''ready''
                    else if contains state ''CREATING'' \<or> contains state ''PENDING'' then answer ''provisioning''
                    else if contains state ''ERROR'' then answer ''error'' else None)))"

section \<open>Creating and deleting\<close>

definition mint_sandbox_token :: "'r vertex \<Rightarrow> string \<Rightarrow> ('r, string) call" where
  "mint_sandbox_token cl service_account = generate_access_token cl service_account"

definition fetch_routing_token :: "'r vertex \<Rightarrow> string \<Rightarrow> ('r, string) call" where
  "fetch_routing_token cl sandbox_name =
     seq (sandboxes_get cl sandbox_name) (\<lambda>sandbox.
       case sb_connection sandbox of
         None \<Rightarrow> throw (Raise (RuntimeError (''sandbox '' @ sandbox_name @ '' has no connection_info; cannot refresh routing token'')))
       | Some (_, routing_token) \<Rightarrow>
           if routing_token = [] then throw (Raise (RuntimeError (''sandbox '' @ sandbox_name @ '' connection_info missing routing_token'')))
           else ret routing_token)"

definition with_ttl :: "string option \<Rightarrow> pydict \<Rightarrow> ('r, pydict) call" where
  "with_ttl ttl config =
     (case ttl of
        Some t \<Rightarrow> if t = [] then ret config else seq (of_py (normalize_ttl t)) (\<lambda>d. ret (dict_set config ''ttl'' (PyStr d)))
      | None \<Rightarrow> ret config)"

definition provision_sandbox ::
    "'r vertex \<Rightarrow> string \<Rightarrow> string \<Rightarrow> string \<Rightarrow> string option \<Rightarrow> string option \<Rightarrow> ('r, provisioned_sandbox) call" where
  "provision_sandbox cl agent_instance owner template_name display_name ttl =
     (if template_name = [] then throw (Raise (ValueError ''provision_sandbox requires template_name''))
      else (let config = [(''owner'', PyStr owner), (''sandbox_environment_template'', PyStr template_name)]
              @ (case display_name of Some d \<Rightarrow> if d = [] then [] else [(''display_name'', PyStr d)] | None \<Rightarrow> [])
            in seq (with_ttl ttl config) (\<lambda>config.
               seq (sandboxes_create cl agent_instance config) (\<lambda>operation. of_api (provisioned_from_operation operation)))))"

text \<open>An error 404 of a delete is swallowed.\<close>

definition ignoring_not_found :: "('r, unit) call \<Rightarrow> ('r, unit) call" where
  "ignoring_not_found m r = (case m r of (Inl e, r') \<Rightarrow> (if is_not_found e then Inr () else Inl e, r') | (Inr x, r') \<Rightarrow> (Inr x, r'))"

definition delete_sandbox :: "'r vertex \<Rightarrow> string \<Rightarrow> ('r, unit) call" where
  "delete_sandbox cl sandbox_name = ignoring_not_found (sandboxes_delete cl sandbox_name)"

definition delete_snapshot :: "'r vertex \<Rightarrow> string \<Rightarrow> ('r, unit) call" where
  "delete_snapshot cl snapshot_name = ignoring_not_found (snapshots_delete cl snapshot_name)"

definition snapshot_user_sandbox :: "'r vertex \<Rightarrow> string \<Rightarrow> string \<Rightarrow> string option \<Rightarrow> ('r, string) call" where
  "snapshot_user_sandbox cl sandbox_name display_name ttl =
     seq (with_ttl ttl [(''display_name'', PyStr display_name), (''wait_for_completion'', PyBool True)]) (\<lambda>config.
     seq (snapshots_create cl sandbox_name config) (\<lambda>operation.
       case operation of
         Some response \<Rightarrow> if op_name response = []
           then throw (Raise (RuntimeError (''Snapshot operation response missing '' @ py_repr_str ''name'' @ '' field'')))
           else ret (op_name response)
       | None \<Rightarrow> throw (Raise (RuntimeError (''Snapshot operation response missing '' @ py_repr_str ''name'' @ '' field'')))))"

definition snapshot_candidates :: "string \<Rightarrow> snapshot_obj list \<Rightarrow> (string \<times> string \<times> string) list" where
  "snapshot_candidates user snaps =
     concat (map (\<lambda>s. case sn_display_name s of
                        None \<Rightarrow> []
                      | Some display \<Rightarrow> if display = [] \<or> \<not> startswith display (user_display_prefix user) then []
                                        else map (\<lambda>n. (sn_create_time s, n, display)) (resource_name (sn_name s))) snaps)"

definition user_snapshots :: "'r vertex \<Rightarrow> string \<Rightarrow> string \<Rightarrow> ('r, (string \<times> string \<times> string) list) call" where
  "user_snapshots cl agent_instance user =
     seq (snapshots_list cl agent_instance) (\<lambda>listed. ret (newest_first (snapshot_candidates user listed)))"

definition find_latest_user_snapshot :: "'r vertex \<Rightarrow> string \<Rightarrow> string \<Rightarrow> ('r, (string \<times> string) option) call" where
  "find_latest_user_snapshot cl agent_instance user =
     seq (user_snapshots cl agent_instance user) (\<lambda>snaps.
       ret (case snaps of [] \<Rightarrow> None | (_, name, display) # _ \<Rightarrow> Some (name, display)))"

fun delete_snapshots :: "'r vertex \<Rightarrow> string list \<Rightarrow> ('r, unit) call" where
  "delete_snapshots cl [] = ret ()"
| "delete_snapshots cl (n # ns) = seq (delete_snapshot cl n) (\<lambda>_. delete_snapshots cl ns)"

definition prune_user_snapshots :: "'r vertex \<Rightarrow> string \<Rightarrow> string \<Rightarrow> nat \<Rightarrow> ('r, string list) call" where
  "prune_user_snapshots cl agent_instance user keep =
     seq (user_snapshots cl agent_instance user) (\<lambda>candidates.
       (let stale = map (\<lambda>(_, name, _). name) (drop keep candidates)
        in seq (delete_snapshots cl stale) (\<lambda>_. ret stale)))"

definition restore_sandbox_from_snapshot ::
    "'r vertex \<Rightarrow> string \<Rightarrow> string \<Rightarrow> string \<Rightarrow> string \<Rightarrow> string option \<Rightarrow> ('r, provisioned_sandbox) call" where
  "restore_sandbox_from_snapshot cl agent_instance owner snapshot_name display_name ttl =
     seq (with_ttl ttl [(''owner'', PyStr owner), (''display_name'', PyStr display_name),
                        (''sandbox_environment_snapshot'', PyStr snapshot_name)]) (\<lambda>config.
     seq (sandboxes_create cl agent_instance config) (\<lambda>operation. of_api (provisioned_from_operation operation)))"

definition snapshot_and_prune_user :: "'r vertex \<Rightarrow> string \<Rightarrow> string \<Rightarrow> string \<Rightarrow> nat \<Rightarrow> ('r, pydict) call" where
  "snapshot_and_prune_user cl agent_instance user snapshot_ttl keep =
     seq (find_latest_user_sandbox cl agent_instance user) (\<lambda>latest.
       case latest of
         None \<Rightarrow> ret [(''status'', PyStr ''no_sandbox'')]
       | Some (sandbox_name, sandbox_display) \<Rightarrow>
           seq (snapshot_user_sandbox cl sandbox_name (sandbox_display @ SNAPSHOT_DISPLAY_SUFFIX) (Some snapshot_ttl)) (\<lambda>_.
           seq (prune_user_snapshots cl agent_instance user keep) (\<lambda>pruned.
             ret [(''status'', PyStr ''snapshotted''), (''pruned'', PyInt (int (length pruned)))])))"

section \<open>Lemmas on names\<close>

lemma seq_Inr_iff: "seq m f r = (Inr x, r') \<longleftrightarrow> (\<exists>y r1. m r = (Inr y, r1) \<and> f y r1 = (Inr x, r'))"
  by (auto simp: seq_def split: prod.splits sum.splits)

lemma third_name: "(\<lambda>(_, name, _). name) = (\<lambda>c :: string \<times> string \<times> string. fst (snd c))"
  by auto

lemma safe_char_facts [simp]: "safe_char CHR ''_''" "\<not> safe_char CHR ''-''"
  by (simp_all add: safe_char_def)

lemma underscore_safe: "list_all safe_char (underscore run s)"
  by (induction run s rule: underscore.induct) auto

lemma anonymous_safe: "list_all safe_char ''anonymous''"
  by (simp add: safe_char_def)

lemma sanitize_safe: "list_all safe_char (sanitize_user_id user)"
proof -
  have "list_all safe_char (take USER_ID_MAX_LEN (underscore False user))"
    using underscore_safe [of False user] by (meson in_set_takeD list_all_iff)
  then show ?thesis using anonymous_safe by (simp only: sanitize_user_id_def Let_def split: if_split) simp
qed

lemma safe_no_hyphen: "list_all safe_char s \<Longrightarrow> CHR ''-'' \<notin> set s"
  by (auto simp: list_all_iff)

lemma hyphen_unique:
  "CHR ''-'' \<notin> set u \<Longrightarrow> CHR ''-'' \<notin> set v \<Longrightarrow> u @ CHR ''-'' # x = v @ CHR ''-'' # y \<Longrightarrow> u = v"
  by (induction u arbitrary: v) (auto simp: Cons_eq_append_conv append_eq_Cons_conv)

text \<open>A prefix picks out one sanitized user.\<close>

lemma user_prefix_unambiguous:
  "startswith (user_display_prefix user @ t) (user_display_prefix other) \<longleftrightarrow> sanitize_user_id user = sanitize_user_id other"
proof
  assume "startswith (user_display_prefix user @ t) (user_display_prefix other)"
  then obtain y where "sanitize_user_id user @ CHR ''-'' # t = sanitize_user_id other @ CHR ''-'' # y"
    by (auto simp: startswith_iff user_display_prefix_def)
  then show "sanitize_user_id user = sanitize_user_id other"
    using hyphen_unique safe_no_hyphen sanitize_safe by blast
qed (simp add: user_display_prefix_def startswith_iff)

lemma routine_name_not_user: "\<not> startswith (routine_display_name rid image_uri) (user_display_prefix user)"
  by (simp add: routine_display_name_def ROUTINE_DISPLAY_PREFIX_def user_display_prefix_def startswith_iff)

lemma snapshot_name_roundtrip: "sandbox_display_name_from_snapshot (d @ SNAPSHOT_DISPLAY_SUFFIX) = d"
  by (simp add: sandbox_display_name_from_snapshot_def endswith_def)

section \<open>Lemmas on discovery\<close>

lemma set_newest_first [simp]: "set (newest_first cs) = set cs"
  by (simp add: newest_first_def sort_reverse_def)

lemma mset_newest_first [simp]: "mset (newest_first cs) = mset cs"
  by (simp add: newest_first_def sort_reverse_def)

lemma newest_first_sorted: "sorted (rev (map fst (newest_first cs)))"
  by (simp add: newest_first_def sort_reverse_def rev_map)

lemma newest_first_perm:
  assumes "mset cs = mset cs'" and "inj_on (\<lambda>c. fst (snd c)) (set cs)"
  shows "newest_first cs = newest_first cs'"
proof -
  have "sort_key (\<lambda>c. fst (snd c)) cs = sort_key (\<lambda>c. fst (snd c)) cs'"
    by (rule sort_key_inj_key_eq) (use assms in simp_all)
  then show ?thesis by (simp add: newest_first_def)
qed

lemma newest_first_hd:
  assumes "newest_first cs = c # rest" and "d \<in> set cs"
  shows "fst d \<le> fst c"
proof -
  have "d \<in> set (c # rest)" using assms set_newest_first [of cs] by simp
  moreover have "sorted (rev (map fst rest) @ [fst c])" using newest_first_sorted [of cs] assms(1) by simp
  ultimately show ?thesis by (auto simp: sorted_append)
qed

lemma mset_concat_map: "mset (concat (map f xs)) = (\<Sum>x \<in># mset xs. mset (f x))"
  by (induction xs) simp_all

lemma mset_running_candidates: "mset ss = mset ss' \<Longrightarrow> mset (running_candidates accept ss) = mset (running_candidates accept ss')"
  by (simp add: running_candidates_def mset_concat_map)

definition candidate_of :: "(string \<Rightarrow> bool) \<Rightarrow> sandbox_obj \<Rightarrow> string \<times> string \<times> string \<Rightarrow> bool" where
  "candidate_of accept s c \<longleftrightarrow> sb_name s = Some (fst (snd c)) \<and> fst (snd c) \<noteq> [] \<and> sb_display_name s = Some (snd (snd c)) \<and>
     snd (snd c) \<noteq> [] \<and> accept (snd (snd c)) \<and> sandbox_is_running s \<and> fst c = sb_create_time s"

lemma running_candidate_one: "c \<in> set (running_candidates accept [s]) \<longleftrightarrow> candidate_of accept s c"
  by (cases c; cases "sb_display_name s"; cases "sb_name s") (auto simp: running_candidates_def candidate_of_def resource_name_def)

lemma running_candidates_iff: "c \<in> set (running_candidates accept ss) \<longleftrightarrow> (\<exists>s \<in> set ss. candidate_of accept s c)"
proof (induction ss)
  case (Cons s ss)
  have "running_candidates accept (s # ss) = running_candidates accept [s] @ running_candidates accept ss"
    by (simp add: running_candidates_def)
  then show ?case using Cons running_candidate_one [of c accept s] by (metis Un_iff list.set_intros set_ConsD set_append)
qed (simp add: running_candidates_def)

lemma running_candidates_inj:
  assumes "inj_on sb_name (set ss)"
  shows "inj_on (\<lambda>c. fst (snd c)) (set (running_candidates accept ss))"
proof (rule inj_onI)
  fix c d assume "c \<in> set (running_candidates accept ss)" "d \<in> set (running_candidates accept ss)" and n: "fst (snd c) = fst (snd d)"
  then obtain s t where st: "s \<in> set ss" "candidate_of accept s c" "t \<in> set ss" "candidate_of accept t d"
    by (auto simp: running_candidates_iff)
  then have "s = t" using n inj_onD [OF assms] by (auto simp: candidate_of_def)
  then show "c = d" using st n by (cases c; cases d) (auto simp: candidate_of_def)
qed

text \<open>The snapshots of a user after some have gone.\<close>

lemma snapshot_candidates_filter:
  "snapshot_candidates user (filter (\<lambda>s. \<forall>n. sn_name s = Some n \<longrightarrow> n \<notin> N) snaps) =
     filter (\<lambda>c. fst (snd c) \<notin> N) (snapshot_candidates user snaps)"
  by (induction snaps) (auto simp: snapshot_candidates_def resource_name_def split: option.splits)

lemma snapshot_candidate_names:
  "c \<in> set (snapshot_candidates user snaps) \<Longrightarrow>
     \<exists>s \<in> set snaps. sn_name s = Some (fst (snd c)) \<and> (\<exists>d. sn_display_name s = Some d \<and> startswith d (user_display_prefix user))"
  by (force simp: snapshot_candidates_def resource_name_def split: option.splits if_splits)

lemma distinct_snapshot_names:
  assumes "distinct (map sn_name snaps)"
  shows "distinct (map (\<lambda>c. fst (snd c)) (snapshot_candidates user snaps))"
  using assms
proof (induction snaps)
  case (Cons s snaps)
  have "Some (fst (snd c)) \<in> sn_name ` set snaps" if "c \<in> set (snapshot_candidates user snaps)" for c
    using snapshot_candidate_names [OF that] by force
  then show ?case using Cons by (force simp: snapshot_candidates_def resource_name_def split: option.splits)
qed (simp add: snapshot_candidates_def)

text \<open>What the service promises of snapshots: listing changes nothing, a delete removes the named one or fails
  and changes nothing, and it is not found only if it is not there.\<close>

definition snapshot_service :: "'r vertex \<Rightarrow> ('r \<Rightarrow> snapshot_obj list) \<Rightarrow> bool" where
  "snapshot_service cl snaps \<longleftrightarrow> (\<forall>a r. snapshots_list cl a r = (Inr (snaps r), r)) \<and>
     (\<forall>n r. case snapshots_delete cl n r of
        (Inr _, r') \<Rightarrow> snaps r' = filter (\<lambda>s. sn_name s \<noteq> Some n) (snaps r)
      | (Inl e, r') \<Rightarrow> snaps r' = snaps r \<and> (is_not_found e \<longrightarrow> Some n \<notin> sn_name ` set (snaps r)))"

lemma delete_snapshot_spec:
  assumes "snapshot_service cl snaps" and "delete_snapshot cl n r = (Inr (), r')"
  shows "snaps r' = filter (\<lambda>s. sn_name s \<noteq> Some n) (snaps r)"
proof -
  obtain x r1 where d: "snapshots_delete cl n r = (x, r1)" by (rule prod.exhaust)
  have "case (x, r1) of (Inr _, r') \<Rightarrow> snaps r' = filter (\<lambda>s. sn_name s \<noteq> Some n) (snaps r)
      | (Inl e, r') \<Rightarrow> snaps r' = snaps r \<and> (is_not_found e \<longrightarrow> Some n \<notin> sn_name ` set (snaps r))"
    using assms(1) [unfolded snapshot_service_def, THEN conjunct2, THEN spec [of _ n], THEN spec [of _ r]] unfolding d .
  moreover have "Some n \<notin> sn_name ` set (snaps r) \<Longrightarrow> filter (\<lambda>s. sn_name s \<noteq> Some n) (snaps r) = snaps r"
    by (force simp: filter_id_conv)
  ultimately show ?thesis using assms(2) d
    by (cases x) (auto simp: delete_snapshot_def ignoring_not_found_def split: if_splits)
qed

lemma delete_snapshots_spec:
  assumes "snapshot_service cl snaps" and "delete_snapshots cl ns r = (Inr (), r')"
  shows "snaps r' = filter (\<lambda>s. \<forall>n. sn_name s = Some n \<longrightarrow> n \<notin> set ns) (snaps r)"
  using assms(2)
proof (induction ns arbitrary: r)
  case (Cons n ns)
  obtain r1 where "delete_snapshot cl n r = (Inr (), r1)" and rest: "delete_snapshots cl ns r1 = (Inr (), r')"
    using Cons.prems by (auto simp: seq_Inr_iff)
  then have "snaps r1 = filter (\<lambda>s. sn_name s \<noteq> Some n) (snaps r)" using delete_snapshot_spec [OF assms(1)] by blast
  then show ?case using Cons.IH [OF rest] by (auto intro: filter_cong)
qed (simp add: ret_def)

section \<open>Properties\<close>

text \<open>A service in memory, for concrete runs: its state is the sandboxes, the snapshots and the templates; a
  created sandbox gets the requested display name.\<close>

type_synonym cloud = "sandbox_obj list \<times> snapshot_obj list \<times> template_obj list"

definition as_name :: "pydict \<Rightarrow> string" where
  "as_name config = (case dict_get config ''display_name'' of PyStr s \<Rightarrow> s | _ \<Rightarrow> [])"

definition cloud_client :: "cloud vertex" where
  "cloud_client = \<lparr>
     sandboxes_list = (\<lambda>_ c. (Inr (fst c), c)),
     sandboxes_get = (\<lambda>n c. (case find (\<lambda>s. sb_name s = Some n) (fst c) of Some s \<Rightarrow> Inr s | None \<Rightarrow> Inl (ApiError (Some 404)), c)),
     sandboxes_create = (\<lambda>_ config (ss, rest).
       (let n = ''sandboxes/'' @ string_of_nat (length ss)
        in (Inr (Some \<lparr>op_name = n, op_connection = Some (''lb'', ''tok'')\<rparr>),
            (ss @ [\<lparr>sb_name = Some n, sb_display_name = Some (as_name config), sb_state = Some ''STATE_RUNNING'',
                    sb_create_time = string_of_nat (length ss), sb_connection = Some (''lb'', ''tok''), sb_template = []\<rparr>], rest)))),
     sandboxes_delete = (\<lambda>n (ss, rest). (Inr (), (filter (\<lambda>s. sb_name s \<noteq> Some n) ss, rest))),
     snapshots_list = (\<lambda>_ c. (Inr (fst (snd c)), c)),
     snapshots_create = (\<lambda>_ config (ss, sn, ts).
       (let n = ''snapshots/'' @ string_of_nat (length sn)
        in (Inr (Some \<lparr>op_name = n, op_connection = None\<rparr>),
            (ss, sn @ [\<lparr>sn_name = Some n, sn_display_name = Some (as_name config), sn_create_time = string_of_nat (length sn)\<rparr>], ts)))),
     snapshots_delete = (\<lambda>n (ss, sn, ts). (Inr (), (ss, filter (\<lambda>s. sn_name s \<noteq> Some n) sn, ts))),
     templates_list = (\<lambda>_ c. (Inr (snd (snd c)), c)),
     templates_get = (\<lambda>n c. (Inl (ApiError (Some 404)), c)),
     templates_create = (\<lambda>_ _ _ c. (Inr (Some \<lparr>op_name = ''templates/0'', op_connection = None\<rparr>), c)),
     generate_access_token = (\<lambda>_ c. (Inr ''jwt'', c))\<rparr>"

definition demo_sandbox :: "string \<Rightarrow> string \<Rightarrow> sandbox_obj" where
  "demo_sandbox name ct = \<lparr>sb_name = Some name, sb_display_name = Some ''lha-ann-v1'', sb_state = Some ''STATE_RUNNING'',
     sb_create_time = ct, sb_connection = Some (''lb'', ''tok''), sb_template = []\<rparr>"

definition demo_snapshot :: "string \<Rightarrow> string \<Rightarrow> snapshot_obj" where
  "demo_snapshot name ct = \<lparr>sn_name = Some name, sn_display_name = Some ''lha-ann-v1-snap'', sn_create_time = ct\<rparr>"

lemma cloud_snapshots: "snapshot_service cloud_client (\<lambda>c. fst (snd c))"
  by (auto simp: snapshot_service_def cloud_client_def)

text \<open>Every instance of the service finds the same sandbox: when two of them list the same sandboxes in any
  two orders, with unique resource names, the search for the latest sandbox of a user gives both the
  same answer, and an answer names a running sandbox of that user than which no running sandbox of the
  user is newer.\<close>

theorem latest_sandbox_is_agreed_on:
  assumes "sandboxes_list cl a r = (Inr listed, r1)" and "sandboxes_list cl a r' = (Inr listed', r2)"
    and "mset listed = mset listed'" and "inj_on sb_name (set listed)"
  shows "fst (find_latest_user_sandbox cl a user r) = fst (find_latest_user_sandbox cl a user r') \<and>
    (\<forall>name display. fst (find_latest_user_sandbox cl a user r) = Inr (Some (name, display)) \<longrightarrow>
      (\<exists>s \<in> set listed. sb_name s = Some name \<and> sb_display_name s = Some display \<and> sandbox_is_running s \<and>
         startswith display (user_display_prefix user) \<and>
         (\<forall>t \<in> set listed. \<forall>n d. sb_name t = Some n \<and> n \<noteq> [] \<and> sb_display_name t = Some d \<and> d \<noteq> [] \<and> sandbox_is_running t \<and>
            startswith d (user_display_prefix user) \<longrightarrow> sb_create_time t \<le> sb_create_time s)))"
proof -
  let ?acc = "\<lambda>d. startswith d (user_display_prefix user)"
  let ?cs = "running_candidates ?acc listed"
  have same: "newest_first ?cs = newest_first (running_candidates ?acc listed')"
    by (rule newest_first_perm [OF mset_running_candidates [OF assms(3)] running_candidates_inj [OF assms(4)]])
  have find: "fst (find_latest_user_sandbox cl a user r) = Inr (first_candidate ?cs)"
    "fst (find_latest_user_sandbox cl a user r') = Inr (first_candidate (running_candidates ?acc listed'))"
    using assms(1,2) by (simp_all add: find_latest_user_sandbox_def seq_def ret_def latest_candidates_def)
  have newest: "\<exists>s \<in> set listed. sb_name s = Some name \<and> sb_display_name s = Some display \<and> sandbox_is_running s \<and> ?acc display \<and>
      (\<forall>t \<in> set listed. \<forall>n d. sb_name t = Some n \<and> n \<noteq> [] \<and> sb_display_name t = Some d \<and> d \<noteq> [] \<and> sandbox_is_running t \<and> ?acc d
         \<longrightarrow> sb_create_time t \<le> sb_create_time s)" if first: "first_candidate ?cs = Some (name, display)" for name display
  proof -
    obtain ct rest where hd: "newest_first ?cs = (ct, name, display) # rest"
      using first by (cases "newest_first ?cs") (auto simp: first_candidate_def)
    have "(ct, name, display) \<in> set ?cs" using set_newest_first [of ?cs] unfolding hd by auto
    then obtain s where s: "s \<in> set listed" "candidate_of ?acc s (ct, name, display)" by (auto simp: running_candidates_iff)
    have "sb_create_time t \<le> ct" if "t \<in> set listed" "candidate_of ?acc t (sb_create_time t, n, d)" for t n d
    proof -
      have "(sb_create_time t, n, d) \<in> set ?cs" using that by (auto simp: running_candidates_iff)
      from newest_first_hd [OF hd this] show ?thesis by simp
    qed
    then show ?thesis using s by (intro bexI [of _ s]) (auto simp: candidate_of_def)
  qed
  show ?thesis using newest by (auto simp: find first_candidate_def same)
qed

theorem latest_sandbox_is_agreed_on_witness:
  "fst (find_latest_user_sandbox cloud_client [] ''ann'' ([demo_sandbox ''a'' ''1'', demo_sandbox ''b'' ''2''], [], [])) =
   fst (find_latest_user_sandbox cloud_client [] ''ann'' ([demo_sandbox ''b'' ''2'', demo_sandbox ''a'' ''1''], [], []))"
proof -
  let ?l = "[demo_sandbox ''a'' ''1'', demo_sandbox ''b'' ''2'']" and ?l' = "[demo_sandbox ''b'' ''2'', demo_sandbox ''a'' ''1'']"
  have l: "sandboxes_list cloud_client [] (?l, [], []) = (Inr ?l, (?l, [], []))"
    "sandboxes_list cloud_client [] (?l', [], []) = (Inr ?l', (?l', [], []))" by (simp_all add: cloud_client_def)
  have "mset ?l = mset ?l'" "inj_on sb_name (set ?l)" by (auto simp: demo_sandbox_def inj_on_def)
  from latest_sandbox_is_agreed_on [OF l this] show ?thesis by blast
qed

text \<open>Pruning spares the newest snapshots and everyone else's: after a prune that succeeds, the user has
  exactly the \<open>keep\<close> newest of the snapshots found before, the deleted names are those of the others,
  and a snapshot that does not carry the user's prefix is still there.\<close>

theorem prune_keeps_the_newest:
  assumes "snapshot_service cl snaps" and "distinct (map sn_name (snaps r))"
    and "prune_user_snapshots cl a user keep r = (Inr stale, r')"
  shows "set (snapshot_candidates user (snaps r')) = set (take keep (newest_first (snapshot_candidates user (snaps r)))) \<and>
    stale = map (\<lambda>c. fst (snd c)) (drop keep (newest_first (snapshot_candidates user (snaps r)))) \<and>
    {s \<in> set (snaps r). \<forall>d. sn_display_name s = Some d \<longrightarrow> \<not> startswith d (user_display_prefix user)} \<subseteq> set (snaps r')"
proof -
  let ?cs = "newest_first (snapshot_candidates user (snaps r))"
  let ?name = "\<lambda>c :: string \<times> string \<times> string. fst (snd c)"
  have list: "snapshots_list cl a r = (Inr (snaps r), r)" using assms(1) by (simp add: snapshot_service_def)
  have stale: "stale = map ?name (drop keep ?cs)" and del: "delete_snapshots cl stale r = (Inr (), r')"
    using assms(3) by (auto simp: prune_user_snapshots_def user_snapshots_def seq_Inr_iff ret_def list Let_def third_name)
  have r': "snaps r' = filter (\<lambda>s. \<forall>n. sn_name s = Some n \<longrightarrow> n \<notin> set stale) (snaps r)"
    by (rule delete_snapshots_spec [OF assms(1) del])
  have "distinct (map ?name ?cs)"
    using distinct_snapshot_names [OF assms(2)] mset_newest_first [of "snapshot_candidates user (snaps r)"]
      mset_eq_imp_distinct_iff [of "map ?name ?cs" "map ?name (snapshot_candidates user (snaps r))"] by simp
  then have split: "distinct (map ?name (take keep ?cs) @ map ?name (drop keep ?cs))" by (simp flip: map_append)
  have "set ?cs = set (take keep ?cs) \<union> set (drop keep ?cs)" by (metis append_take_drop_id set_append)
  moreover have "?name c \<notin> set stale" if "c \<in> set (take keep ?cs)" for c
    using split that unfolding stale distinct_append set_map by blast
  moreover have "?name c \<in> set stale" if "c \<in> set (drop keep ?cs)" for c using that by (simp add: stale)
  ultimately have "set (filter (\<lambda>c. ?name c \<notin> set stale) ?cs) = set (take keep ?cs)" by auto
  then have "set (snapshot_candidates user (snaps r')) = set (take keep ?cs)"
    by (simp add: r' snapshot_candidates_filter)
  moreover have "s \<in> set (snaps r')"
    if s: "s \<in> set (snaps r)" and foreign: "\<forall>d. sn_display_name s = Some d \<longrightarrow> \<not> startswith d (user_display_prefix user)" for s
  proof -
    have "n \<notin> set stale" if n: "sn_name s = Some n" for n
    proof
      assume "n \<in> set stale"
      then obtain c where "c \<in> set (snapshot_candidates user (snaps r))" "n = ?name c"
        by (auto simp: stale dest!: in_set_dropD)
      then obtain t where "t \<in> set (snaps r)" "sn_name t = Some n" "\<exists>d. sn_display_name t = Some d \<and> startswith d (user_display_prefix user)"
        using snapshot_candidate_names by blast
      moreover have "t = s" using calculation n s assms(2) inj_onD [of sn_name "set (snaps r)" t s] by (simp add: distinct_map)
      ultimately show False using foreign by blast
    qed
    then show ?thesis using s by (simp add: r')
  qed
  ultimately show ?thesis using stale by blast
qed

theorem prune_keeps_the_newest_witness:
  "\<exists>stale c'. prune_user_snapshots cloud_client [] ''ann'' 1 ([], [demo_snapshot ''a'' ''1'', demo_snapshot ''b'' ''2''], []) = (Inr stale, c') \<and>
     set (snapshot_candidates ''ann'' (fst (snd c'))) =
       set (take 1 (newest_first (snapshot_candidates ''ann'' [demo_snapshot ''a'' ''1'', demo_snapshot ''b'' ''2''])))"
proof -
  let ?c = "([], [demo_snapshot ''a'' ''1'', demo_snapshot ''b'' ''2''], []) :: cloud"
  have "isl (fst (prune_user_snapshots cloud_client [] ''ann'' 1 ?c)) = False" by code_simp
  then obtain stale c' where p: "prune_user_snapshots cloud_client [] ''ann'' 1 ?c = (Inr stale, c')"
    by (cases "prune_user_snapshots cloud_client [] ''ann'' 1 ?c"; cases "fst (prune_user_snapshots cloud_client [] ''ann'' 1 ?c)") auto
  have "distinct (map sn_name (fst (snd ?c)))" by (simp add: demo_snapshot_def)
  from prune_keeps_the_newest [OF cloud_snapshots this p] show ?thesis using p by auto
qed

end
