(* ===== verification/Environ.thy ===== *)
theory Environ
  imports Py_Prelude
begin

text \<open>Reading environment variables: \<open>os.environ.get\<close> and the helpers of \<open>infrastructure/env.py\<close>.\<close>

type_synonym environ = "string \<Rightarrow> string option"

definition env_raw :: "environ \<Rightarrow> string \<Rightarrow> string" where
  "env_raw environ name = (case environ name of None \<Rightarrow> [] | Some s \<Rightarrow> s)"

definition env_stripped :: "environ \<Rightarrow> string \<Rightarrow> string" where
  "env_stripped environ name = py_strip (env_raw environ name)"

definition env_flag :: "environ \<Rightarrow> string \<Rightarrow> bool \<Rightarrow> bool" where
  "env_flag environ name dflt =
     (case environ name of None \<Rightarrow> dflt | Some raw \<Rightarrow> py_lower (py_strip raw) \<in> set [''1'', ''true'', ''yes''])"

definition env_str :: "environ \<Rightarrow> string \<Rightarrow> string \<Rightarrow> string" where
  "env_str environ name dflt = (if env_stripped environ name = [] then dflt else env_stripped environ name)"

end
