(* ===== verification/Sandbox_Provider.thy ===== *)
theory Sandbox_Provider
  imports Sandbox_Lifecycle Environ
begin

text \<open>
  Which environment a session gets (\<open>sandbox/provider.py\<close>, chosen in \<open>conversation/session_start.py\<close>): the host's file system or a sandbox in the cloud, found again, restored from a
  snapshot or newly made. The state is the cloud's and the two caches of the process. Building the client may
  fail; the comparison of versions is an argument. The closures that later renew a sandbox's tokens are not
  part of an environment here.
\<close>

section \<open>Environments\<close>

record sandbox_env =
  se_sandbox_name :: string
  se_lb_host :: string
  se_routing_token :: string
  se_sandbox_token :: string
  se_owner :: string
  se_internet_access :: bool

datatype environment = LocalEnvironment string | SandboxEnvironment sandbox_env

record pending_migration =
  pm_source_env :: sandbox_env
  pm_source_name :: string

record upgrade_provision =
  up_status :: string
  up_version :: string
  up_new_env :: "environment option"
  up_pending :: "pending_migration option"
  up_reason :: string

record 'r provider_state =
  pv_cloud :: 'r
  pv_engine_cache :: "(string \<times> string) list"
  pv_template_cache :: "(string \<times> string) list"

record 'r engine_api =
  engines_list :: "('r, (string option \<times> string) option list) call"
  engines_create :: "string \<Rightarrow> ('r, string option) call"

definition on_cloud :: "('r, 'a) call \<Rightarrow> ('r provider_state, 'a) call" where
  "on_cloud m st = (let (x, r) = m (pv_cloud st) in (x, st\<lparr>pv_cloud := r\<rparr>))"

text \<open>\<open>try ... except Exception\<close>.\<close>

definition catch :: "('s, 'a) call \<Rightarrow> (api_exn \<Rightarrow> ('s, 'a) call) \<Rightarrow> ('s, 'a) call" where
  "catch m h s = (case m s of (Inl e, s') \<Rightarrow> h e s' | (Inr x, s') \<Rightarrow> (Inr x, s'))"

definition in_prod :: "environ \<Rightarrow> bool" where
  "in_prod environ \<longleftrightarrow> env_raw environ ''K_SERVICE'' \<noteq> []"

definition default_internet_access :: "environ \<Rightarrow> bool" where
  "default_internet_access environ = env_flag environ ''LHA_SANDBOX_INTERNET_ACCESS'' (\<not> in_prod environ)"

definition default_local_root :: "environ \<Rightarrow> string \<Rightarrow> string" where
  "default_local_root environ home =
     (if env_raw environ ''LHA_LOCAL_ROOT'' \<noteq> [] then env_raw environ ''LHA_LOCAL_ROOT'' else home @ ''/.lha'')"

definition snapshots_enabled :: "environ \<Rightarrow> bool" where
  "snapshots_enabled environ = env_flag environ ''LHA_SNAPSHOT_ENABLED'' False"

definition sandbox_ttl :: "environ \<Rightarrow> string" where
  "sandbox_ttl environ = env_str environ ''LHA_SANDBOX_TTL'' ''14d''"

definition engine_display_name :: "environ \<Rightarrow> string" where
  "engine_display_name environ = env_str environ ''LHA_SANDBOX_ENGINE_NAME'' ''lha-sandbox-host''"

definition listed_engine :: "string \<Rightarrow> (string option \<times> string) option list \<Rightarrow> string option" where
  "listed_engine display_name engines =
     first_some (\<lambda>e. case e of Some (d, name) \<Rightarrow> if d = Some display_name \<and> name \<noteq> [] then Some name else None | None \<Rightarrow> None) engines"

definition remember_engine :: "string \<Rightarrow> string \<Rightarrow> ('r provider_state, string) call" where
  "remember_engine display_name name st = (Inr name, st\<lparr>pv_engine_cache := dict_set (pv_engine_cache st) display_name name\<rparr>)"

definition resolve_sandbox_engine :: "environ \<Rightarrow> 'r engine_api \<Rightarrow> ('r provider_state, string) call" where
  "resolve_sandbox_engine environ engines =
     (if env_stripped environ ''AGENT_ENGINE_RESOURCE_NAME'' \<noteq> [] then ret (env_stripped environ ''AGENT_ENGINE_RESOURCE_NAME'')
      else (let display_name = engine_display_name environ
            in (\<lambda>st. case map_of (pv_engine_cache st) display_name of
                       Some (c # cs) \<Rightarrow> (Inr (c # cs), st)
                     | _ \<Rightarrow>
                         seq (on_cloud (engines_list engines)) (\<lambda>listed.
                           case listed_engine display_name listed of
                             Some name \<Rightarrow> remember_engine display_name name
                           | None \<Rightarrow>
                               seq (on_cloud (engines_create engines display_name)) (\<lambda>created.
                                 case created of
                                   Some (c # cs) \<Rightarrow> remember_engine display_name (c # cs)
                                 | _ \<Rightarrow> throw (Raise (RuntimeError ''agent_engines.create returned no api_resource.name; cannot resolve sandbox engine'')))) st)))"

definition cached_agent_instance :: "environ \<Rightarrow> 'r provider_state \<Rightarrow> string option" where
  "cached_agent_instance environ st =
     (if env_stripped environ ''AGENT_ENGINE_RESOURCE_NAME'' \<noteq> [] then Some (env_stripped environ ''AGENT_ENGINE_RESOURCE_NAME'')
      else map_of (pv_engine_cache st) (engine_display_name environ))"

section \<open>Finding a sandbox again\<close>

definition connection_info_from_sandbox :: "sandbox_obj \<Rightarrow> (string \<times> string) option" where
  "connection_info_from_sandbox sandbox =
     (case sb_connection sandbox of
        Some (lb_host, routing_token) \<Rightarrow> if lb_host = [] \<or> routing_token = [] then None else Some (lb_host, routing_token)
      | None \<Rightarrow> None)"

definition try_reattach :: "'r vertex \<Rightarrow> string \<Rightarrow> ('r, (string \<times> string \<times> string) option) call" where
  "try_reattach cl sandbox_name =
     catch (seq (sandboxes_get cl sandbox_name) (\<lambda>sandbox.
              ret (if \<not> sandbox_is_running sandbox then None
                   else map_option (\<lambda>(h, t). (h, t, sb_template sandbox)) (connection_info_from_sandbox sandbox))))
       (\<lambda>_. ret None)"

definition template_ref_internet_access :: "'r vertex \<Rightarrow> string \<Rightarrow> bool \<Rightarrow> ('r, bool) call" where
  "template_ref_internet_access cl template_ref dflt =
     (if template_ref = [] then ret dflt
      else catch (seq (templates_get cl template_ref) (\<lambda>t. ret (template_internet_access t dflt))) (\<lambda>_. ret dflt))"

definition sandbox_template :: "'r vertex \<Rightarrow> string \<Rightarrow> ('r, template_obj option) call" where
  "sandbox_template cl sandbox_name =
     catch (seq (sandboxes_get cl sandbox_name) (\<lambda>s.
              if sb_template s = [] then ret None else seq (templates_get cl (sb_template s)) (\<lambda>t. ret (Some t))))
       (\<lambda>_. ret None)"

definition sandbox_internet_access :: "'r vertex \<Rightarrow> string \<Rightarrow> bool \<Rightarrow> ('r, bool) call" where
  "sandbox_internet_access cl sandbox_name dflt =
     seq (sandbox_template cl sandbox_name) (\<lambda>t. ret (case t of None \<Rightarrow> dflt | Some t \<Rightarrow> template_internet_access t dflt))"

definition reattach_or_none :: "'r vertex \<Rightarrow> string option \<Rightarrow> string \<Rightarrow> string \<Rightarrow> ('r, sandbox_env option) call" where
  "reattach_or_none cl sandbox_name caller_sa user =
     (case sandbox_name of
        None \<Rightarrow> ret None
      | Some name \<Rightarrow>
          if name = [] then ret None
          else seq (try_reattach cl name) (\<lambda>reattach.
            case reattach of
              None \<Rightarrow> ret None
            | Some (lb_host, routing_token, template_ref) \<Rightarrow>
                seq (template_ref_internet_access cl template_ref True) (\<lambda>internet_access.
                seq (mint_sandbox_token cl caller_sa) (\<lambda>sandbox_token.
                  ret (Some \<lparr>se_sandbox_name = name, se_lb_host = lb_host, se_routing_token = routing_token,
                             se_sandbox_token = sandbox_token, se_owner = user, se_internet_access = internet_access\<rparr>)))))"

definition restore_from_snapshot_or_none ::
    "environ \<Rightarrow> 'r vertex \<Rightarrow> string \<Rightarrow> string \<Rightarrow> string \<Rightarrow> ('r, sandbox_env option) call" where
  "restore_from_snapshot_or_none environ cl agent_instance user caller_sa =
     (if \<not> snapshots_enabled environ then ret None
      else seq (find_latest_user_snapshot cl agent_instance user) (\<lambda>found.
        case found of
          None \<Rightarrow> ret None
        | Some (snapshot_name, snapshot_display) \<Rightarrow>
            seq (catch (seq (restore_sandbox_from_snapshot cl agent_instance user snapshot_name
                               (sandbox_display_name_from_snapshot snapshot_display) (Some (sandbox_ttl environ))) (\<lambda>p. ret (Some p)))
                   (\<lambda>_. ret None)) (\<lambda>provisioned.
              case provisioned of
                None \<Rightarrow> ret None
              | Some p \<Rightarrow>
                  seq (mint_sandbox_token cl caller_sa) (\<lambda>sandbox_token.
                    ret (Some \<lparr>se_sandbox_name = ps_name p, se_lb_host = ps_lb_host p, se_routing_token = ps_routing_token p,
                               se_sandbox_token = sandbox_token, se_owner = user,
                               se_internet_access = default_internet_access environ\<rparr>)))))"

section \<open>Making a new sandbox\<close>

definition cached_template :: "'r vertex \<Rightarrow> string \<Rightarrow> string \<Rightarrow> bool \<Rightarrow> ('r provider_state, string) call" where
  "cached_template cl agent_instance image_uri internet_access st =
     (let cache_key = agent_instance @ ''|'' @ image_uri @ ''|'' @ (if internet_access then ''net'' else ''hermetic'')
      in case map_of (pv_template_cache st) cache_key of
           Some name \<Rightarrow> (Inr name, st)
         | None \<Rightarrow> seq (on_cloud (ensure_template cl agent_instance image_uri internet_access))
                     (\<lambda>name st. (Inr name, st\<lparr>pv_template_cache := dict_set (pv_template_cache st) cache_key name\<rparr>)) st)"

definition provision_fresh_sandbox ::
    "environ \<Rightarrow> 'r vertex \<Rightarrow> string \<Rightarrow> string \<Rightarrow> string \<Rightarrow> string \<Rightarrow> bool \<Rightarrow> string option \<Rightarrow> string option \<Rightarrow>
     ('r provider_state, environment \<times> pending_migration option) call" where
  "provision_fresh_sandbox environ cl agent_instance user image_uri caller_sa internet_access prior_name display_name =
     seq (on_cloud (reattach_or_none cl prior_name caller_sa user)) (\<lambda>source_env.
     seq (cached_template cl agent_instance image_uri internet_access) (\<lambda>template_name.
     seq (on_cloud (provision_sandbox cl agent_instance user template_name
            (Some (case display_name of Some (c # cs) \<Rightarrow> c # cs | _ \<Rightarrow> sandbox_display_name user image_uri))
            (Some (sandbox_ttl environ)))) (\<lambda>p.
     seq (on_cloud (mint_sandbox_token cl caller_sa)) (\<lambda>sandbox_token.
       ret (SandboxEnvironment \<lparr>se_sandbox_name = ps_name p, se_lb_host = ps_lb_host p, se_routing_token = ps_routing_token p,
              se_sandbox_token = sandbox_token, se_owner = user, se_internet_access = internet_access\<rparr>,
            case (source_env, prior_name) of
              (Some e, Some n) \<Rightarrow> if n = [] then None else Some \<lparr>pm_source_env = e, pm_source_name = n\<rparr>
            | _ \<Rightarrow> None)))))"

section \<open>The provider on the host\<close>

text \<open>An absolute right-hand side of pathlib's slash drops the left.\<close>

definition path_div :: "string \<Rightarrow> string \<Rightarrow> string" where
  "path_div a b = (if startswith b ''/'' then b else a @ ''/'' @ b)"

definition local_build_environment :: "environ \<Rightarrow> string \<Rightarrow> string \<Rightarrow> environment \<times> pending_migration option" where
  "local_build_environment environ home user =
     (LocalEnvironment (path_div (path_div (default_local_root environ home) ''users'') user), None)"

definition local_build_routine_environment :: "environ \<Rightarrow> string \<Rightarrow> string \<Rightarrow> environment \<times> pending_migration option" where
  "local_build_routine_environment environ home routine_id =
     (LocalEnvironment (path_div (path_div (default_local_root environ home) ''routines'') routine_id), None)"

definition unavailable :: "string \<Rightarrow> upgrade_provision" where
  "unavailable reason = \<lparr>up_status = ''unavailable'', up_version = [], up_new_env = None, up_pending = None, up_reason = reason\<rparr>"

section \<open>The provider in the cloud\<close>

text \<open>\<open>client\<close> is the attempt to build the client.\<close>

definition will_provision :: "environ \<Rightarrow> bool" where
  "will_provision environ \<longleftrightarrow> env_stripped environ ''LHA_RUNTIME_IMAGE'' \<noteq> [] \<and> env_stripped environ ''LHA_SANDBOX_CALLER_SA'' \<noteq> []"

definition missing_settings :: "environ \<Rightarrow> string list" where
  "missing_settings environ = filter (\<lambda>v. env_stripped environ v = []) [''LHA_RUNTIME_IMAGE'', ''LHA_SANDBOX_CALLER_SA'']"

definition connect :: "environ \<Rightarrow> 'r vertex api \<Rightarrow> 'r engine_api \<Rightarrow> ('r provider_state, 'r vertex \<times> string) call" where
  "connect environ client engines =
     seq (of_api client) (\<lambda>cl. seq (resolve_sandbox_engine environ engines) (\<lambda>agent_instance. ret (cl, agent_instance)))"

text \<open>The text of the cause is left out of the message.\<close>

definition fall_back :: "environ \<Rightarrow> string \<Rightarrow> string \<Rightarrow> string \<Rightarrow> ('s, environment \<times> pending_migration option) call" where
  "fall_back environ home user msg =
     (if in_prod environ then throw (Raise (RuntimeError msg)) else ret (local_build_environment environ home user))"

definition build_with ::
    "environ \<Rightarrow> (string \<Rightarrow> string \<Rightarrow> bool option) \<Rightarrow> 'r vertex \<Rightarrow> string \<Rightarrow> string \<Rightarrow>
     ('r provider_state, environment \<times> pending_migration option) call" where
  "build_with environ version_lt cl agent_instance user =
     (let image_uri = env_stripped environ ''LHA_RUNTIME_IMAGE'';
          caller_sa = env_stripped environ ''LHA_SANDBOX_CALLER_SA'';
          floor_version = env_stripped environ ''LHA_RUNTIME_MIN_VERSION'';
          fresh = provision_fresh_sandbox environ cl agent_instance user image_uri caller_sa (default_internet_access environ);
          restore_or_fresh = seq (on_cloud (restore_from_snapshot_or_none environ cl agent_instance user caller_sa)) (\<lambda>restored.
            case restored of Some e \<Rightarrow> ret (SandboxEnvironment e, None) | None \<Rightarrow> fresh None None)
      in seq (on_cloud (find_latest_user_sandbox cl agent_instance user)) (\<lambda>latest.
         case latest of
           None \<Rightarrow> restore_or_fresh
         | Some (latest_name, latest_display) \<Rightarrow>
             if floor_version \<noteq> [] \<and> version_below_floor version_lt latest_display floor_version
             then fresh (Some latest_name) None
             else seq (on_cloud (reattach_or_none cl (Some latest_name) caller_sa user)) (\<lambda>env.
                    case env of Some e \<Rightarrow> ret (SandboxEnvironment e, None) | None \<Rightarrow> restore_or_fresh)))"

definition build_environment ::
    "environ \<Rightarrow> string \<Rightarrow> (string \<Rightarrow> string \<Rightarrow> bool option) \<Rightarrow> 'r vertex api \<Rightarrow> 'r engine_api \<Rightarrow> string \<Rightarrow>
     ('r provider_state, environment \<times> pending_migration option) call" where
  "build_environment environ home version_lt client engines user =
     (if missing_settings environ \<noteq> []
      then fall_back environ home user (''LHA_ENVIRONMENT_BACKEND=sandbox requires '' @ py_join '', '' (missing_settings environ))
      else seq (catch (seq (connect environ client engines) (\<lambda>c. ret (Some c))) (\<lambda>_. ret None)) (\<lambda>connected.
             case connected of
               None \<Rightarrow> fall_back environ home user ''sandbox engine resolution failed''
             | Some (cl, agent_instance) \<Rightarrow> build_with environ version_lt cl agent_instance user))"

definition build_routine_environment ::
    "environ \<Rightarrow> 'r vertex api \<Rightarrow> 'r engine_api \<Rightarrow> string \<Rightarrow> string \<Rightarrow> ('r provider_state, environment \<times> pending_migration option) call" where
  "build_routine_environment environ client engines routine_id owner =
     (let image_uri = env_stripped environ ''LHA_RUNTIME_IMAGE'';
          caller_sa = env_stripped environ ''LHA_SANDBOX_CALLER_SA''
      in if image_uri = [] \<or> caller_sa = []
         then throw (Raise (RuntimeError ''routine sandbox needs LHA_RUNTIME_IMAGE and LHA_SANDBOX_CALLER_SA''))
         else seq (connect environ client engines) (\<lambda>(cl, agent_instance).
              seq (on_cloud (find_routine_sandbox cl agent_instance routine_id image_uri)) (\<lambda>existing.
              seq (on_cloud (reattach_or_none cl existing caller_sa owner)) (\<lambda>env.
                case env of
                  Some e \<Rightarrow> ret (SandboxEnvironment e, None)
                | None \<Rightarrow> provision_fresh_sandbox environ cl agent_instance owner image_uri caller_sa
                            (default_internet_access environ) None (Some (routine_display_name routine_id image_uri))))))"

definition provision_upgrade ::
    "environ \<Rightarrow> 'r vertex api \<Rightarrow> 'r engine_api \<Rightarrow> string \<Rightarrow> ('r provider_state, upgrade_provision) call" where
  "provision_upgrade environ client engines user =
     (if \<not> will_provision environ then ret (unavailable ''sandbox backend not enabled'')
      else (let image_uri = env_stripped environ ''LHA_RUNTIME_IMAGE'';
                caller_sa = env_stripped environ ''LHA_SANDBOX_CALLER_SA'';
                answer = (\<lambda>status env pending. \<lparr>up_status = status, up_version = runtime_image_version image_uri,
                            up_new_env = env, up_pending = pending, up_reason = []\<rparr>)
            in seq (catch (seq (connect environ client engines) (\<lambda>c. ret (Some c))) (\<lambda>_. ret None)) (\<lambda>connected.
               case connected of
                 None \<Rightarrow> ret (unavailable ''engine resolution failed'')
               | Some (cl, agent_instance) \<Rightarrow>
                   seq (on_cloud (find_user_sandbox cl agent_instance user image_uri)) (\<lambda>current.
                     if current \<noteq> None then ret (answer ''already_current'' None None)
                     else seq (on_cloud (find_prior_user_sandbox cl agent_instance user image_uri)) (\<lambda>prior.
                       case prior of
                         None \<Rightarrow> ret (answer ''no_sandbox'' None None)
                       | Some prior_name \<Rightarrow>
                           seq (on_cloud (sandbox_internet_access cl prior_name (default_internet_access environ))) (\<lambda>internet_access.
                           seq (provision_fresh_sandbox environ cl agent_instance user image_uri caller_sa internet_access
                                  (Some prior_name) None) (\<lambda>(new_env, pending).
                             ret (answer ''provisioned'' (Some new_env) pending))))))))"

text \<open>\<open>isdigit\<close> accepts superscript digits, \<open>int\<close> does not.\<close>

definition snapshot_keep :: "environ \<Rightarrow> nat py" where
  "snapshot_keep environ =
     (let raw = env_stripped environ ''LHA_SNAPSHOT_KEEP''
      in if \<not> py_isdigit raw then Inr 2
         else if list_all ascii_digit raw then Inr (nat_of_digits 0 raw)
         else Inl (ValueError ''invalid literal for int()''))"

definition snapshot_and_prune :: "environ \<Rightarrow> 'r vertex api \<Rightarrow> 'r engine_api \<Rightarrow> string \<Rightarrow> ('r provider_state, pydict) call" where
  "snapshot_and_prune environ client engines user =
     (if \<not> will_provision environ then ret [(''status'', PyStr ''unavailable'')]
      else seq (connect environ client engines) (\<lambda>(cl, agent_instance).
           seq (of_py (snapshot_keep environ)) (\<lambda>keep.
             on_cloud (snapshot_and_prune_user cl agent_instance user (env_str environ ''LHA_SNAPSHOT_TTL'' ''30d'') keep))))"

definition provisioning_status :: "environ \<Rightarrow> 'r vertex api \<Rightarrow> string \<Rightarrow> ('r provider_state, pydict option) call" where
  "provisioning_status environ client user st =
     (if \<not> will_provision environ then (Inr None, st)
      else case cached_agent_instance environ st of
             Some (c # cs) \<Rightarrow>
               catch (seq (of_api client) (\<lambda>cl.
                 on_cloud (get_user_sandbox_state cl (c # cs) user (env_stripped environ ''LHA_RUNTIME_IMAGE'')))) (\<lambda>_. ret None) st
           | _ \<Rightarrow> (Inr None, st))"

section \<open>Lemmas\<close>

lemmas call_simps = seq_def ret_def throw_def catch_def on_cloud_def of_api_def of_py_def Let_def

lemma reattach_owner: "reattach_or_none cl name caller user r = (Inr (Some e), r') \<Longrightarrow> se_owner e = user \<and> name = Some (se_sandbox_name e)"
  by (auto simp: reattach_or_none_def seq_Inr_iff ret_def split: option.splits if_splits)

lemma on_cloud_Inr: "on_cloud m st = (Inr x, st') \<longleftrightarrow> (\<exists>r. m (pv_cloud st) = (Inr x, r) \<and> st' = st\<lparr>pv_cloud := r\<rparr>)"
  by (auto simp: on_cloud_def split: prod.splits)

lemma restore_owner: "restore_from_snapshot_or_none environ cl a user caller r = (Inr (Some e), r') \<Longrightarrow> se_owner e = user"
  by (auto simp: restore_from_snapshot_or_none_def seq_Inr_iff ret_def split: option.splits if_splits)

definition sandboxed :: "string \<Rightarrow> environment \<Rightarrow> bool" where
  "sandboxed user env \<longleftrightarrow> (\<exists>e. env = SandboxEnvironment e \<and> se_owner e = user)"

lemma fresh_sandboxed: "provision_fresh_sandbox environ cl a user image_uri caller ia prior display st = (Inr (env, p), st') \<Longrightarrow> sandboxed user env"
  by (auto simp: provision_fresh_sandbox_def seq_Inr_iff ret_def sandboxed_def)

text \<open>What is tried when no sandbox is found again.\<close>

definition restore_or_fresh :: "environ \<Rightarrow> 'r vertex \<Rightarrow> string \<Rightarrow> string \<Rightarrow> ('r provider_state, environment \<times> pending_migration option) call" where
  "restore_or_fresh environ cl agent_instance user =
     seq (on_cloud (restore_from_snapshot_or_none environ cl agent_instance user (env_stripped environ ''LHA_SANDBOX_CALLER_SA''))) (\<lambda>restored.
       case restored of
         Some e \<Rightarrow> ret (SandboxEnvironment e, None)
       | None \<Rightarrow> provision_fresh_sandbox environ cl agent_instance user (env_stripped environ ''LHA_RUNTIME_IMAGE'')
                   (env_stripped environ ''LHA_SANDBOX_CALLER_SA'') (default_internet_access environ) None None)"

lemma restore_or_fresh_sandboxed:
  assumes "restore_or_fresh environ cl a user st = (Inr (env, p), st')"
  shows "sandboxed user env"
proof -
  obtain restored st1 where r: "on_cloud (restore_from_snapshot_or_none environ cl a user (env_stripped environ ''LHA_SANDBOX_CALLER_SA'')) st = (Inr restored, st1)"
    and rest: "(case restored of Some e \<Rightarrow> ret (SandboxEnvironment e, None)
       | None \<Rightarrow> provision_fresh_sandbox environ cl a user (env_stripped environ ''LHA_RUNTIME_IMAGE'')
                   (env_stripped environ ''LHA_SANDBOX_CALLER_SA'') (default_internet_access environ) None None) st1 = (Inr (env, p), st')"
    using assms by (auto simp: restore_or_fresh_def seq_Inr_iff)
  show ?thesis
  proof (cases restored)
    case None
    then show ?thesis using rest fresh_sandboxed by simp
  next
    case (Some e)
    then show ?thesis using r rest restore_owner by (auto simp: on_cloud_Inr ret_def sandboxed_def)
  qed
qed

lemma build_with_sandboxed:
  assumes "build_with environ version_lt cl a user st = (Inr (env, p), st')"
  shows "sandboxed user env"
proof -
  obtain latest st1 where rest: "(case latest of None \<Rightarrow> restore_or_fresh environ cl a user
      | Some (n, d) \<Rightarrow>
         if env_stripped environ ''LHA_RUNTIME_MIN_VERSION'' \<noteq> [] \<and> version_below_floor version_lt d (env_stripped environ ''LHA_RUNTIME_MIN_VERSION'')
         then provision_fresh_sandbox environ cl a user (env_stripped environ ''LHA_RUNTIME_IMAGE'') (env_stripped environ ''LHA_SANDBOX_CALLER_SA'')
                (default_internet_access environ) (Some n) None
         else seq (on_cloud (reattach_or_none cl (Some n) (env_stripped environ ''LHA_SANDBOX_CALLER_SA'') user)) (\<lambda>env.
                case env of Some e \<Rightarrow> ret (SandboxEnvironment e, None) | None \<Rightarrow> restore_or_fresh environ cl a user)) st1 = (Inr (env, p), st')"
    using assms unfolding build_with_def Let_def seq_Inr_iff [of "on_cloud (find_latest_user_sandbox cl a user)"]
    unfolding restore_or_fresh_def by blast
  show ?thesis
  proof (cases latest)
    case None
    then show ?thesis using rest restore_or_fresh_sandboxed by simp
  next
    case (Some x)
    obtain n d where x: "x = (n, d)" by (rule prod.exhaust)
    show ?thesis
    proof (cases "env_stripped environ ''LHA_RUNTIME_MIN_VERSION'' \<noteq> [] \<and> version_below_floor version_lt d (env_stripped environ ''LHA_RUNTIME_MIN_VERSION'')")
      case True
      then show ?thesis using rest Some x fresh_sandboxed by simp
    next
      case False
      then obtain e st2 where e: "on_cloud (reattach_or_none cl (Some n) (env_stripped environ ''LHA_SANDBOX_CALLER_SA'') user) st1 = (Inr e, st2)"
        and last: "(case e of Some e \<Rightarrow> ret (SandboxEnvironment e, None) | None \<Rightarrow> restore_or_fresh environ cl a user) st2 = (Inr (env, p), st')"
        using rest Some x by (auto simp: seq_Inr_iff)
      show ?thesis
      proof (cases e)
        case None
        then show ?thesis using last restore_or_fresh_sandboxed by simp
      next
        case (Some y)
        then obtain r where "reattach_or_none cl (Some n) (env_stripped environ ''LHA_SANDBOX_CALLER_SA'') user (pv_cloud st1) = (Inr (Some y), r)"
          using e by (auto simp: on_cloud_Inr)
        from reattach_owner [OF this] show ?thesis using last Some by (auto simp: ret_def sandboxed_def)
      qed
    qed
  qed
qed

lemma not_raised: "isl (fst x) = False \<Longrightarrow> \<exists>v s. x = (Inr v, s)"
  by (cases x; cases "fst x") auto

section \<open>Which sandbox is found\<close>

lemma same_prefix: "sanitize_user_id a = sanitize_user_id b \<Longrightarrow> user_display_prefix a = user_display_prefix b"
  by (simp add: user_display_prefix_def)

lemma same_latest: "sanitize_user_id a = sanitize_user_id b \<Longrightarrow> find_latest_user_sandbox cl i a = find_latest_user_sandbox cl i b"
  by (simp only: find_latest_user_sandbox_def latest_candidates_def same_prefix [of a b])

lemma reattach_for_other:
  "reattach_or_none cl name caller a r = (Inr (Some e), r') \<Longrightarrow> reattach_or_none cl name caller b r = (Inr (Some (e\<lparr>se_owner := b\<rparr>)), r')"
  unfolding reattach_or_none_def seq_def ret_def
  by (auto split: option.splits if_splits prod.splits sum.splits)

text \<open>A display name the provider gives a sandbox.\<close>

definition provider_name :: "string \<Rightarrow> bool" where
  "provider_name d \<longleftrightarrow> (\<exists>user image_uri. d = sandbox_display_name user image_uri) \<or>
     (\<exists>routine_id image_uri. d = routine_display_name routine_id image_uri)"

section \<open>session_start.py\<close>

text \<open>The two overrides are what \<open>environment_provider\<close> and \<open>sandbox_provider\<close> return.\<close>

record 's sandbox_provider =
  sp_build_environment :: "string \<Rightarrow> ('s, environment \<times> pending_migration option) call"
  sp_build_routine_environment :: "string \<Rightarrow> string \<Rightarrow> ('s, environment \<times> pending_migration option) call"

definition local_provider :: "environ \<Rightarrow> string \<Rightarrow> 's sandbox_provider" where
  "local_provider environ home =
     \<lparr>sp_build_environment = (\<lambda>user. ret (local_build_environment environ home user)),
      sp_build_routine_environment = (\<lambda>routine_id owner. ret (local_build_routine_environment environ home routine_id))\<rparr>"

definition vertex_provider ::
    "environ \<Rightarrow> string \<Rightarrow> (string \<Rightarrow> string \<Rightarrow> bool option) \<Rightarrow> 'r vertex api \<Rightarrow> 'r engine_api \<Rightarrow> 'r provider_state sandbox_provider" where
  "vertex_provider environ home version_lt client engines =
     \<lparr>sp_build_environment = build_environment environ home version_lt client engines,
      sp_build_routine_environment = build_routine_environment environ client engines\<rparr>"

definition resolve_backend :: "environ \<Rightarrow> string" where
  "resolve_backend environ = py_lower (py_strip (env_str environ ''LHA_ENVIRONMENT_BACKEND'' ''sandbox''))"

definition resolve_provider ::
    "environ \<Rightarrow> string \<Rightarrow> (string \<Rightarrow> string \<Rightarrow> bool option) \<Rightarrow> 'r vertex api \<Rightarrow> 'r engine_api \<Rightarrow>
     'r provider_state sandbox_provider option \<Rightarrow> 'r provider_state sandbox_provider" where
  "resolve_provider environ home version_lt client engines override =
     (case override of
        Some p \<Rightarrow> p
      | None \<Rightarrow> if resolve_backend environ = ''sandbox'' then vertex_provider environ home version_lt client engines
                else local_provider environ home)"

definition build_session_environment ::
    "(string \<Rightarrow> environment) option \<Rightarrow> environ \<Rightarrow> string \<Rightarrow> (string \<Rightarrow> string \<Rightarrow> bool option) \<Rightarrow> 'r vertex api \<Rightarrow> 'r engine_api \<Rightarrow>
     'r provider_state sandbox_provider option \<Rightarrow> string \<Rightarrow> ('r provider_state, environment \<times> pending_migration option) call" where
  "build_session_environment factory environ home version_lt client engines override user =
     (case factory of
        Some f \<Rightarrow> ret (f user, None)
      | None \<Rightarrow> sp_build_environment (resolve_provider environ home version_lt client engines override) user)"

definition build_session_routine_environment ::
    "environ \<Rightarrow> string \<Rightarrow> (string \<Rightarrow> string \<Rightarrow> bool option) \<Rightarrow> 'r vertex api \<Rightarrow> 'r engine_api \<Rightarrow>
     'r provider_state sandbox_provider option \<Rightarrow> string \<Rightarrow> string \<Rightarrow> ('r provider_state, environment \<times> pending_migration option) call" where
  "build_session_routine_environment environ home version_lt client engines override routine_id owner =
     sp_build_routine_environment (resolve_provider environ home version_lt client engines override) routine_id owner"

section \<open>A small cloud\<close>

definition demo_environ :: environ where
  "demo_environ = map_of [(''K_SERVICE'', ''horizon''), (''LHA_RUNTIME_IMAGE'', ''r:v1''), (''LHA_SANDBOX_CALLER_SA'', ''sa''),
     (''AGENT_ENGINE_RESOURCE_NAME'', ''e1'')]"

definition demo_engines :: "cloud engine_api" where
  "demo_engines = \<lparr>engines_list = ret [], engines_create = (\<lambda>_. ret None)\<rparr>"

definition demo_provider :: "cloud provider_state" where
  "demo_provider = \<lparr>pv_cloud =
     ([(demo_sandbox ''s1'' ''1'')\<lparr>sb_display_name := Some (sandbox_display_name ''a.b'' ''r:v1'')\<rparr>,
       (demo_sandbox ''s2'' ''2'')\<lparr>sb_display_name := Some (routine_display_name ''r'' ''r:v1'')\<rparr>], [], []),
     pv_engine_cache = [], pv_template_cache = []\<rparr>"

section \<open>Properties\<close>

text \<open>C25: The host is used only where it is meant to be. With the sandbox backend, which is the default, and
  no override installed: in production a session either gets a sandbox labelled with the user or fails,
  whatever is missing or failing; outside production it gets one, or the local directory of the user; and a
  routine gets a sandbox labelled with its owner, or fails, everywhere. Any other backend gives sessions and
  routines the host, in production, too.\<close>

theorem production_never_uses_the_host:
  "(resolve_backend environ = ''sandbox'' \<and>
      build_session_environment None environ home version_lt client engines None user st = (Inr (env, p), st') \<longrightarrow>
      sandboxed user env \<or> (\<not> in_prod environ \<and> (env, p) = local_build_environment environ home user)) \<and>
   (resolve_backend environ = ''sandbox'' \<and>
      build_session_routine_environment environ home version_lt client engines None rid owner st = (Inr (env2, p2), st2) \<longrightarrow>
      sandboxed owner env2) \<and>
   (resolve_backend environ \<noteq> ''sandbox'' \<longrightarrow>
      build_session_environment None environ home version_lt client engines None user st = (Inr (local_build_environment environ home user), st) \<and>
      build_session_routine_environment environ home version_lt client engines None rid owner st =
        (Inr (local_build_routine_environment environ home rid), st))"
proof (intro conjI impI; (elim conjE)?)
  assume "resolve_backend environ = ''sandbox''"
    and b: "build_session_environment None environ home version_lt client engines None user st = (Inr (env, p), st')"
  then have "build_environment environ home version_lt client engines user st = (Inr (env, p), st')"
    by (simp add: build_session_environment_def resolve_provider_def vertex_provider_def)
  then show "sandboxed user env \<or> (\<not> in_prod environ \<and> (env, p) = local_build_environment environ home user)"
    using build_with_sandboxed
    by (fastforce simp: build_environment_def fall_back_def throw_def ret_def seq_Inr_iff split: if_splits option.splits)
next
  assume "resolve_backend environ = ''sandbox''"
    and b: "build_session_routine_environment environ home version_lt client engines None rid owner st = (Inr (env2, p2), st2)"
  then have "build_routine_environment environ client engines rid owner st = (Inr (env2, p2), st2)"
    by (simp add: build_session_routine_environment_def resolve_provider_def vertex_provider_def)
  then show "sandboxed owner env2"
    by (fastforce simp: build_routine_environment_def Let_def throw_def seq_Inr_iff on_cloud_Inr ret_def sandboxed_def
        split: if_splits option.splits dest: reattach_owner dest: fresh_sandboxed [unfolded sandboxed_def])
qed (simp_all add: build_session_environment_def build_session_routine_environment_def resolve_provider_def
    local_provider_def ret_def)

theorem production_never_uses_the_host_witness:
  "\<exists>env p st env2 p2 st2.
     build_session_environment None demo_environ [] (\<lambda>_ _. None) (Inr cloud_client) demo_engines None ''a.b'' demo_provider = (Inr (env, p), st) \<and>
     build_session_routine_environment demo_environ [] (\<lambda>_ _. None) (Inr cloud_client) demo_engines None ''r'' ''ann'' demo_provider =
       (Inr (env2, p2), st2) \<and>
     sandboxed ''a.b'' env \<and> sandboxed ''ann'' env2"
proof -
  let ?b = "build_session_environment None demo_environ [] (\<lambda>_ _. None) (Inr cloud_client) demo_engines None ''a.b'' demo_provider"
    and ?r = "build_session_routine_environment demo_environ [] (\<lambda>_ _. None) (Inr cloud_client) demo_engines None ''r'' ''ann'' demo_provider"
  have prod: "in_prod demo_environ" "resolve_backend demo_environ = ''sandbox''" by code_simp+
  have "isl (fst ?b) = False" "isl (fst ?r) = False" by code_simp+
  then obtain env p st env2 p2 st2 where r: "?b = (Inr (env, p), st)" "?r = (Inr (env2, p2), st2)"
    using not_raised [of ?b] not_raised [of ?r] by auto
  note host = production_never_uses_the_host [of demo_environ "[]" "\<lambda>_ _. None" "Inr cloud_client" demo_engines "''a.b''" demo_provider
      env p st "''r''" "''ann''" env2 p2 st2]
  show ?thesis using host r prod by blast
qed

text \<open>Sandboxes of users whose sanitized names differ are kept apart: as long as the listed sandboxes carry names the
  provider gives, the search for a user's latest sandbox answers only with one named for a user of
  the same sanitized name, never with a routine's.\<close>

theorem latest_sandbox_is_the_users_own:
  assumes "sandboxes_list cl i r = (Inr listed, r1)"
    and "list_all (\<lambda>s. case sb_display_name s of None \<Rightarrow> True | Some d \<Rightarrow> provider_name d) listed"
    and "find_latest_user_sandbox cl i user r = (Inr (Some (name, display)), r2)"
  shows "\<exists>owner image_uri. display = sandbox_display_name owner image_uri \<and> sanitize_user_id owner = sanitize_user_id user"
proof -
  let ?acc = "\<lambda>d. startswith d (user_display_prefix user)"
  have first: "first_candidate (running_candidates ?acc listed) = Some (name, display)"
    using assms(1,3) by (auto simp: find_latest_user_sandbox_def latest_candidates_def call_simps)
  obtain ct rest where "newest_first (running_candidates ?acc listed) = (ct, name, display) # rest"
    using first by (cases "newest_first (running_candidates ?acc listed)") (auto simp: first_candidate_def)
  then have "(ct, name, display) \<in> set (running_candidates ?acc listed)"
    using set_newest_first [of "running_candidates ?acc listed"] by (metis list.set_intros(1))
  then obtain s where s: "s \<in> set listed" "candidate_of ?acc s (ct, name, display)" by (auto simp: running_candidates_iff)
  then have "provider_name display" "startswith display (user_display_prefix user)"
    using assms(2) by (auto simp: list_all_iff candidate_of_def)
  then show ?thesis using routine_name_not_user user_prefix_unambiguous
    by (auto simp: provider_name_def sandbox_display_name_def)
qed

theorem latest_sandbox_is_the_users_own_witness:
  "\<exists>name display owner image_uri. fst (find_latest_user_sandbox cloud_client ''e1'' ''a_b'' (pv_cloud demo_provider)) = Inr (Some (name, display)) \<and>
     display = sandbox_display_name owner image_uri \<and> sanitize_user_id owner = sanitize_user_id ''a_b''"
proof -
  let ?f = "find_latest_user_sandbox cloud_client ''e1'' ''a_b'' (pv_cloud demo_provider)"
  have l: "sandboxes_list cloud_client ''e1'' (pv_cloud demo_provider) = (Inr (fst (pv_cloud demo_provider)), pv_cloud demo_provider)"
    by (simp add: cloud_client_def)
  have n: "list_all (\<lambda>s. case sb_display_name s of None \<Rightarrow> True | Some d \<Rightarrow> provider_name d) (fst (pv_cloud demo_provider))"
    by (auto simp: demo_provider_def provider_name_def)
  have "(case fst ?f of Inr (Some _) \<Rightarrow> True | _ \<Rightarrow> False)" by code_simp
  then obtain name display r2 where f: "?f = (Inr (Some (name, display)), r2)"
    by (cases ?f) (auto split: sum.splits option.splits)
  from latest_sandbox_is_the_users_own [OF l n f] show ?thesis using f by auto
qed

text \<open>Names that sanitize alike share a sandbox: when two users' identifiers differ only in characters
  outside the safe class or beyond the thirty-second character, the environment built for
  the second is the running sandbox of the first under the second one's label; and an environment built for a routine
  identifier is the running sandbox of that identifier whoever owns the run.\<close>

theorem colliding_names_share_a_sandbox:
  assumes "sanitize_user_id a = sanitize_user_id b" and "missing_settings environ = []"
    and "connect environ (Inr cl) engines st = (Inr (cl, i), st1)"
    and "find_latest_user_sandbox cl i a (pv_cloud st1) = (Inr (Some (name, display)), r1)"
    and "env_stripped environ ''LHA_RUNTIME_MIN_VERSION'' = []"
    and "reattach_or_none cl (Some name) (env_stripped environ ''LHA_SANDBOX_CALLER_SA'') a r1 = (Inr (Some e), r2)"
    and "find_routine_sandbox cl i rid (env_stripped environ ''LHA_RUNTIME_IMAGE'') (pv_cloud st1) = (Inr (Some n2), q1)"
    and "reattach_or_none cl (Some n2) (env_stripped environ ''LHA_SANDBOX_CALLER_SA'') a q1 = (Inr (Some e2), q2)"
  shows "build_environment environ home version_lt (Inr cl) engines a st = (Inr (SandboxEnvironment e, None), st1\<lparr>pv_cloud := r2\<rparr>) \<and>
    build_environment environ home version_lt (Inr cl) engines b st = (Inr (SandboxEnvironment (e\<lparr>se_owner := b\<rparr>), None), st1\<lparr>pv_cloud := r2\<rparr>) \<and>
    build_routine_environment environ (Inr cl) engines rid b st = (Inr (SandboxEnvironment (e2\<lparr>se_owner := b\<rparr>), None), st1\<lparr>pv_cloud := q2\<rparr>)"
proof -
  have build: "build_environment environ home version_lt (Inr cl) engines u st = (Inr (SandboxEnvironment f, None), st1\<lparr>pv_cloud := r2\<rparr>)"
    if "find_latest_user_sandbox cl i u (pv_cloud st1) = (Inr (Some (name, display)), r1)"
      and "reattach_or_none cl (Some name) (env_stripped environ ''LHA_SANDBOX_CALLER_SA'') u r1 = (Inr (Some f), r2)" for u f
    using that assms(2,3,5) by (simp add: build_environment_def build_with_def call_simps)
  have "find_latest_user_sandbox cl i b (pv_cloud st1) = (Inr (Some (name, display)), r1)"
    using assms(4) same_latest [OF assms(1)] by metis
  from build [OF this reattach_for_other [OF assms(6)]] build [OF assms(4,6)]
  show ?thesis using assms(2,3,7) reattach_for_other [OF assms(8), of b]
    by (simp add: build_routine_environment_def missing_settings_def call_simps split: if_splits)
qed

theorem colliding_names_share_a_sandbox_witness:
  "\<exists>e st1. build_environment demo_environ [] (\<lambda>_ _. None) (Inr cloud_client) demo_engines ''a.b'' demo_provider =
       (Inr (SandboxEnvironment e, None), st1) \<and>
     build_environment demo_environ [] (\<lambda>_ _. None) (Inr cloud_client) demo_engines ''a_b'' demo_provider =
       (Inr (SandboxEnvironment (e\<lparr>se_owner := ''a_b''\<rparr>), None), st1)"
proof -
  let ?c = "pv_cloud demo_provider"
  have a: "sanitize_user_id ''a.b'' = sanitize_user_id ''a_b''" by code_simp
  have m: "missing_settings demo_environ = []" by code_simp
  have c: "connect demo_environ (Inr cloud_client) demo_engines demo_provider = (Inr (cloud_client, ''e1''), demo_provider)"
  proof -
    have "env_stripped demo_environ ''AGENT_ENGINE_RESOURCE_NAME'' = ''e1''" by code_simp
    then show ?thesis by (simp add: connect_def call_simps resolve_sandbox_engine_def)
  qed
  have f: "find_latest_user_sandbox cloud_client ''e1'' ''a.b'' ?c = (Inr (Some (''s1'', ''lha-a_b-v1'')), ?c)" by code_simp
  have v: "env_stripped demo_environ ''LHA_RUNTIME_MIN_VERSION'' = []" by code_simp
  have r: "find_routine_sandbox cloud_client ''e1'' ''r'' (env_stripped demo_environ ''LHA_RUNTIME_IMAGE'') ?c = (Inr (Some ''s2''), ?c)"
    by code_simp
  let ?e = "\<lambda>n. \<lparr>se_sandbox_name = n, se_lb_host = ''lb'', se_routing_token = ''tok'', se_sandbox_token = ''jwt'',
    se_owner = ''a.b'', se_internet_access = True\<rparr>"
  have e: "reattach_or_none cloud_client (Some ''s1'') (env_stripped demo_environ ''LHA_SANDBOX_CALLER_SA'') ''a.b'' ?c = (Inr (Some (?e ''s1'')), ?c)"
    by code_simp
  have e2: "reattach_or_none cloud_client (Some ''s2'') (env_stripped demo_environ ''LHA_SANDBOX_CALLER_SA'') ''a.b'' ?c = (Inr (Some (?e ''s2'')), ?c)"
    by code_simp
  from colliding_names_share_a_sandbox [OF a m c f v e r e2, of "[]" "\<lambda>_ _. None"] show ?thesis by blast
qed

end
