(* ===== verification/Http.thy ===== *)
theory Http
  imports Py_Prelude
begin

text \<open>What a request handler raises: an error with a status for the client, or any other exception, which
  the server answers with a bare 500.\<close>

datatype http_exn = HTTPException int string | Uncaught

type_synonym 'a http = "http_exn + 'a"

end
