(* ===== verification/Identity.thy ===== *)
theory Identity
  imports Py_Json Environ Http
begin

text \<open>
  Who a request is from: verifying a forwarded access token (\<open>auth/oauth_verify.py\<close>), the three modes
  and the middleware (\<open>auth/identity.py\<close>), and the token of the scheduler (\<open>scheduler/auth.py\<close>). The
  token library, the token information service and SHA-256 are arguments: \<open>verify_token\<close> gives the
  claims of a token for an audience, or nothing when it raises. Header names are lower case.
\<close>

section \<open>oauth\_verify.py\<close>

definition CACHE_MAX_TTL :: rat where "CACHE_MAX_TTL = 300"
definition CACHE_MAX_ENTRIES :: int where "CACHE_MAX_ENTRIES = 4096"

type_synonym oauth_cache = "(string \<times> string \<times> rat) list"

definition claim_truthy :: "pyval \<Rightarrow> bool" where
  "claim_truthy v = (case v of PyBool b \<Rightarrow> b | PyStr s \<Rightarrow> py_lower s = ''true'' | _ \<Rightarrow> False)"

text \<open>\<open>float(x)\<close>, with the reading of a string as an argument.\<close>

definition float_of :: "(string \<Rightarrow> rat option) \<Rightarrow> pyval \<Rightarrow> rat option" where
  "float_of float_str v = (case v of PyStr s \<Rightarrow> float_str s | _ \<Rightarrow> (case py_float v of Inl _ \<Rightarrow> None | Inr (r, _) \<Rightarrow> Some r))"

text \<open>What the service must have said of a token: its email and its expiry.\<close>

definition checked_info :: "(string \<Rightarrow> rat option) \<Rightarrow> string \<Rightarrow> rat \<Rightarrow> pyval option \<Rightarrow> string + string \<times> rat" where
  "checked_info float_str expected_aud current info =
     (case info of
        None \<Rightarrow> Inl ''tokeninfo request failed''
      | Some (PyDict d) \<Rightarrow>
          if dict_get d ''aud'' \<noteq> PyStr expected_aud then Inl ''token audience mismatch''
          else (case dict_get d ''email'' of
                  PyStr (c # cs) \<Rightarrow>
                    if \<not> claim_truthy (dict_get d ''email_verified'') then Inl ''email not verified''
                    else (case float_of float_str (dict_get d ''exp'') of
                            None \<Rightarrow> Inl ''token missing/invalid exp''
                          | Some expiry \<Rightarrow> if expiry \<le> current then Inl ''token expired'' else Inr (c # cs, expiry))
                | _ \<Rightarrow> Inl ''token missing email'')
      | Some _ \<Rightarrow> Inl ''tokeninfo returned non-dict'')"

definition make_room :: "rat \<Rightarrow> oauth_cache \<Rightarrow> oauth_cache" where
  "make_room current cache =
     (if int (length cache) \<ge> CACHE_MAX_ENTRIES
      then let live = filter (\<lambda>(_, _, e). \<not> e \<le> current) cache in if int (length live) \<ge> CACHE_MAX_ENTRIES then [] else live
      else cache)"

definition ask_tokeninfo ::
    "(string \<Rightarrow> rat option) \<Rightarrow> (string \<Rightarrow> string) \<Rightarrow> (string \<Rightarrow> pyval option) \<Rightarrow> rat \<Rightarrow> string \<Rightarrow> string \<Rightarrow> oauth_cache \<Rightarrow> (string + string) \<times> oauth_cache" where
  "ask_tokeninfo float_str sha256 http_get current tok expected_aud cache =
     (case checked_info float_str expected_aud current (http_get tok) of
        Inl e \<Rightarrow> (Inl e, cache)
      | Inr (email, expiry) \<Rightarrow>
          (Inr email, dict_set (make_room current cache) (sha256 tok) (email, min expiry (current + CACHE_MAX_TTL))))"

definition verify_google_access_token ::
    "(string \<Rightarrow> rat option) \<Rightarrow> (string \<Rightarrow> string) \<Rightarrow> (string \<Rightarrow> pyval option) \<Rightarrow> rat \<Rightarrow> string \<Rightarrow> string \<Rightarrow> oauth_cache \<Rightarrow> (string + string) \<times> oauth_cache" where
  "verify_google_access_token float_str sha256 http_get current tok expected_aud cache =
     (if tok = [] then (Inl ''empty token'', cache)
      else case map_of cache (sha256 tok) of
             Some (email, expiry) \<Rightarrow>
               if expiry > current then (Inr email, cache)
               else ask_tokeninfo float_str sha256 http_get current tok expected_aud cache
           | None \<Rightarrow> ask_tokeninfo float_str sha256 http_get current tok expected_aud cache)"

section \<open>identity.py\<close>

datatype auth_mode = DEV | IAP | TRUSTED_HEADER

definition get_auth_mode :: "environ \<Rightarrow> string + auth_mode" where
  "get_auth_mode environ =
     (let raw = py_lower (py_strip (case environ ''LHA_AUTH_MODE'' of None \<Rightarrow> ''dev'' | Some s \<Rightarrow> s));
          mode = map_of [(''dev'', DEV), (''iap'', IAP), (''trusted_header'', TRUSTED_HEADER)] raw
      in case mode of
           None \<Rightarrow> Inl (''LHA_AUTH_MODE='' @ py_repr_str raw @ '' is not one of ''
                      @ py_repr (PyList [PyStr ''dev'', PyStr ''iap'', PyStr ''trusted_header'']))
         | Some m \<Rightarrow>
             if m = DEV \<and> env_raw environ ''K_SERVICE'' \<noteq> []
             then Inl (''LHA_AUTH_MODE=dev refused: K_SERVICE is set (running on Cloud Run). ''
                    @ ''Set LHA_AUTH_MODE=iap or trusted_header for deployed environments.'')
             else Inr m)"

definition dev_user_id :: "environ \<Rightarrow> string" where
  "dev_user_id environ =
     (let s = py_strip (env_str environ ''LHA_DEV_USER_ID'' ''dev@local'') in if s = [] then ''dev@local'' else s)"

record http_request =
  rq_method :: string
  rq_path :: string
  rq_headers :: "string \<Rightarrow> string option"
  rq_user_id :: "string option"

record identity_world =
  iw_cache :: oauth_cache
  iw_user_id :: "string option"
  iw_google_token :: "string option"

text \<open>The services behind the verification, with the variables, the digest and the clock.\<close>

record verifier =
  vf_environ :: environ
  vf_verify_token :: "string \<Rightarrow> string \<Rightarrow> pyval option"
  vf_tokeninfo :: "string \<Rightarrow> pyval option"
  vf_sha256 :: "string \<Rightarrow> string"
  vf_float :: "string \<Rightarrow> rat option"
  vf_now :: rat

definition header :: "http_request \<Rightarrow> string \<Rightarrow> string" where
  "header rq name = (case rq_headers rq name of None \<Rightarrow> [] | Some s \<Rightarrow> s)"

definition iap_audience :: "environ \<Rightarrow> string http" where
  "iap_audience environ =
     (if env_stripped environ ''LHA_IAP_AUDIENCE'' = [] then Inl (HTTPException 500 ''LHA_IAP_AUDIENCE is not configured'')
      else Inr (env_stripped environ ''LHA_IAP_AUDIENCE''))"

definition verify_iap_jwt :: "verifier \<Rightarrow> string \<Rightarrow> pydict http" where
  "verify_iap_jwt vf jwt =
     py_bind (iap_audience (vf_environ vf)) (\<lambda>audience.
       case vf_verify_token vf jwt audience of
         None \<Rightarrow> Inl (HTTPException 401 ''invalid IAP JWT'')
       | Some (PyDict claims) \<Rightarrow> Inr claims
       | Some _ \<Rightarrow> Inl (HTTPException 401 ''IAP JWT decoded to non-dict claims''))"

definition extract_bearer :: "http_request \<Rightarrow> string" where
  "extract_bearer rq =
     (let raw = header rq ''authorization'' in if py_lower (take 7 raw) = ''bearer '' then py_strip (drop 7 raw) else [])"

definition resolve_oauth_bearer :: "verifier \<Rightarrow> string \<Rightarrow> identity_world \<Rightarrow> string http \<times> identity_world" where
  "resolve_oauth_bearer vf tok w =
     (let client_id = env_stripped (vf_environ vf) ''LHA_GCP_OAUTH_CLIENT_ID''
      in if client_id = [] then (Inl (HTTPException 500 ''LHA_GCP_OAUTH_CLIENT_ID is not configured''), w)
         else let (r, cache) = verify_google_access_token (vf_float vf) (vf_sha256 vf) (vf_tokeninfo vf) (vf_now vf) tok client_id (iw_cache w)
              in case r of
                   Inl _ \<Rightarrow> (Inl (HTTPException 401 ''invalid OAuth bearer''), w\<lparr>iw_cache := cache\<rparr>)
                 | Inr email \<Rightarrow> (Inr email, w\<lparr>iw_cache := cache, iw_google_token := Some tok\<rparr>))"

definition IAP_JWT_HEADER :: string where "IAP_JWT_HEADER = ''X-Goog-IAP-JWT-Assertion''"

definition iap_user :: "verifier \<Rightarrow> http_request \<Rightarrow> identity_world \<Rightarrow> string http \<times> identity_world" where
  "iap_user vf rq w =
     (let native = py_strip (header rq ''x-goog-iap-jwt-assertion'');
          jwt = (if native \<noteq> [] then native else py_strip (header rq ''x-lha-iap-assertion''))
      in if jwt \<noteq> []
         then (py_bind (verify_iap_jwt vf jwt) (\<lambda>claims.
                 case dict_get claims ''email'' of
                   PyStr (c # cs) \<Rightarrow> Inr (c # cs)
                 | _ \<Rightarrow> Inl (HTTPException 401 ''IAP JWT missing email claim'')), w)
         else if extract_bearer rq = [] then (Inl (HTTPException 401 (''missing '' @ IAP_JWT_HEADER @ '' or OAuth bearer'')), w)
         else resolve_oauth_bearer vf (extract_bearer rq) w)"

definition fresh_user_id :: "verifier \<Rightarrow> http_request \<Rightarrow> identity_world \<Rightarrow> string http \<times> identity_world" where
  "fresh_user_id vf rq w =
     (case get_auth_mode (vf_environ vf) of
        Inl msg \<Rightarrow> (Inl (HTTPException 500 msg), w)
      | Inr DEV \<Rightarrow> (Inr (dev_user_id (vf_environ vf)), w)
      | Inr TRUSTED_HEADER \<Rightarrow>
          (if py_strip (header rq ''x-lha-user-id'') = [] then Inl (HTTPException 401 ''missing X-LHA-User-Id'')
           else Inr (py_strip (header rq ''x-lha-user-id'')), w)
      | Inr IAP \<Rightarrow> iap_user vf rq w)"

definition resolve_user_id :: "verifier \<Rightarrow> http_request \<Rightarrow> identity_world \<Rightarrow> string http \<times> http_request \<times> identity_world" where
  "resolve_user_id vf rq w =
     (case rq_user_id rq of
        Some (c # cs) \<Rightarrow> (Inr (c # cs), rq, w)
      | _ \<Rightarrow>
          (let (r, w') = fresh_user_id vf rq w
           in case r of
                Inl e \<Rightarrow> (Inl e, rq, w')
              | Inr user \<Rightarrow> (Inr user, rq\<lparr>rq_user_id := Some user\<rparr>, w'\<lparr>iw_user_id := Some user\<rparr>)))"

definition UNAUTHENTICATED_PATHS :: "string list" where
  "UNAUTHENTICATED_PATHS = [''/'', ''/healthz'', ''/ready'', ''/.well-known/agent-card.json'']"

definition UNAUTHENTICATED_PREFIXES :: "string list" where
  "UNAUTHENTICATED_PREFIXES = [''/_gcp_iap/'', ''/openapi'', ''/docs'', ''/redoc'', ''/scheduler/'']"

definition is_public_path :: "string \<Rightarrow> bool" where
  "is_public_path p \<longleftrightarrow> p \<in> set UNAUTHENTICATED_PATHS \<or> list_ex (startswith p) UNAUTHENTICATED_PREFIXES"

text \<open>What the middleware does with a request: hand it on, or answer with a status and a detail.\<close>

datatype dispatched = CallNext http_request | JsonResponse int string | ServerError

definition dispatch :: "verifier \<Rightarrow> http_request \<Rightarrow> identity_world \<Rightarrow> dispatched \<times> identity_world" where
  "dispatch vf rq w =
     (if rq_method rq = ''OPTIONS'' \<or> is_public_path (rq_path rq) then (CallNext rq, w)
      else case resolve_user_id vf rq w of
             (Inl (HTTPException code detail), _, w') \<Rightarrow> (JsonResponse code detail, w')
           | (Inl Uncaught, _, w') \<Rightarrow> (ServerError, w')
           | (Inr _, rq', w') \<Rightarrow> (CallNext rq', w'))"

section \<open>scheduler/auth.py\<close>

text \<open>\<open>authorization.split(None, 1)\<close>: the first word and what follows the blank space after it.\<close>

definition scheduler_bearer :: "string option \<Rightarrow> string option" where
  "scheduler_bearer authorization =
     (let s = lstrip_chars py_isspace (case authorization of None \<Rightarrow> [] | Some a \<Rightarrow> a);
          word = takeWhile (\<lambda>c. \<not> py_isspace c) s;
          rest = lstrip_chars py_isspace (dropWhile (\<lambda>c. \<not> py_isspace c) s)
      in if rest = [] \<or> py_lower word \<noteq> ''bearer'' then None
         else if py_strip rest = [] then None else Some (py_strip rest))"

definition allowlist :: "environ \<Rightarrow> string list" where
  "allowlist environ =
     map (\<lambda>s. py_lower (py_strip s)) (filter (\<lambda>s. py_strip s \<noteq> []) (py_split_on CHR '','' (env_stripped environ ''LHA_SCHEDULER_SA'')))"

definition verify_cloud_scheduler_token :: "environ \<Rightarrow> (string \<Rightarrow> string \<Rightarrow> pydict option) \<Rightarrow> string option \<Rightarrow> unit http" where
  "verify_cloud_scheduler_token environ verify authorization =
     (if env_flag environ ''LHA_SCHEDULER_AUTH_DISABLED'' False then Inr ()
      else let audience = env_stripped environ ''LHA_SCHEDULER_AUDIENCE''
           in if audience = [] then Inl (HTTPException 500 ''scheduler audience not configured'')
              else case scheduler_bearer authorization of
                     None \<Rightarrow> Inl (HTTPException 401 ''missing or invalid bearer token'')
                   | Some tok \<Rightarrow>
                       (case verify tok audience of
                          None \<Rightarrow> Inl (HTTPException 401 ''token verification failed'')
                        | Some claims \<Rightarrow>
                            if allowlist environ = [] then Inr ()
                            else (case dict_get claims ''email'' of
                                    PyStr e \<Rightarrow> if py_lower e \<noteq> [] \<and> py_lower e \<in> set (allowlist environ) then Inr ()
                                               else Inl (HTTPException 403 ''caller not on scheduler allowlist'')
                                  | _ \<Rightarrow> Inl (HTTPException 403 ''caller not on scheduler allowlist''))))"

section \<open>Lemmas\<close>

lemma length_make_room: "int (length cache) \<le> CACHE_MAX_ENTRIES \<Longrightarrow> int (length (make_room current cache)) < CACHE_MAX_ENTRIES"
  by (auto simp: make_room_def Let_def CACHE_MAX_ENTRIES_def)

lemma length_dict_set: "length (dict_set d k v) \<le> Suc (length d)"
  by (induction d) auto

lemma dict_set_subset: "set (dict_set d k v) \<subseteq> insert (k, v) (set d)"
  by (induction d) auto

lemma make_room_subset: "set (make_room current cache) \<subseteq> set cache"
  by (auto simp: make_room_def Let_def)

lemma verified_claims:
  assumes "verify_iap_jwt vf t = Inr claims"
  shows "env_stripped (vf_environ vf) ''LHA_IAP_AUDIENCE'' \<noteq> [] \<and>
    vf_verify_token vf t (env_stripped (vf_environ vf) ''LHA_IAP_AUDIENCE'') = Some (PyDict claims)"
proof -
  obtain aud where aud: "iap_audience (vf_environ vf) = Inr aud"
    and v: "(case vf_verify_token vf t aud of None \<Rightarrow> Inl (HTTPException 401 ''invalid IAP JWT'')
       | Some (PyDict claims) \<Rightarrow> Inr claims | Some _ \<Rightarrow> Inl (HTTPException 401 ''IAP JWT decoded to non-dict claims'')) = Inr claims"
    using assms unfolding verify_iap_jwt_def py_bind_Inr_iff by blast
  have "aud = env_stripped (vf_environ vf) ''LHA_IAP_AUDIENCE''" "aud \<noteq> []"
    using aud by (auto simp: iap_audience_def split: if_splits)
  moreover obtain x where x: "vf_verify_token vf t aud = Some x" using v by (cases "vf_verify_token vf t aud") auto
  moreover have "x = PyDict claims" using v x by (cases x) auto
  ultimately show ?thesis by simp
qed

section \<open>Histories of verifications\<close>

text \<open>A verification: the expected audience, what the service would answer, the time and the token.\<close>

record verification =
  ve_aud :: string
  ve_get :: "string \<Rightarrow> pyval option"
  ve_now :: rat
  ve_token :: string

definition verify_step :: "(string \<Rightarrow> rat option) \<Rightarrow> (string \<Rightarrow> string) \<Rightarrow> oauth_cache \<Rightarrow> verification \<Rightarrow> (string + string) \<times> oauth_cache" where
  "verify_step float_str sha256 cache v = verify_google_access_token float_str sha256 (ve_get v) (ve_now v) (ve_token v) (ve_aud v) cache"

definition cache_after :: "(string \<Rightarrow> rat option) \<Rightarrow> (string \<Rightarrow> string) \<Rightarrow> verification list \<Rightarrow> oauth_cache" where
  "cache_after float_str sha256 vs = foldl (\<lambda>cache v. snd (verify_step float_str sha256 cache v)) [] vs"

text \<open>A verification in which the service itself confirmed the token for the audience it expected.\<close>

definition confirms :: "(string \<Rightarrow> rat option) \<Rightarrow> verification \<Rightarrow> string \<Rightarrow> rat \<Rightarrow> bool" where
  "confirms float_str v email expiry \<longleftrightarrow> checked_info float_str (ve_aud v) (ve_now v) (ve_get v (ve_token v)) = Inr (email, expiry)"

definition backed :: "(string \<Rightarrow> rat option) \<Rightarrow> (string \<Rightarrow> string) \<Rightarrow> verification list \<Rightarrow> oauth_cache \<Rightarrow> bool" where
  "backed float_str sha256 vs cache \<longleftrightarrow>
     (\<forall>(k, email, e) \<in> set cache. \<exists>v \<in> set vs. \<exists>expiry. sha256 (ve_token v) = k \<and> confirms float_str v email expiry \<and>
        e \<le> expiry \<and> e \<le> ve_now v + CACHE_MAX_TTL)"

lemma backed_mono: "backed fl sha vs cache \<Longrightarrow> set vs \<subseteq> set ws \<Longrightarrow> set c \<subseteq> set cache \<Longrightarrow> backed fl sha ws c"
  unfolding backed_def by fast

lemma backed_insert:
  assumes "backed fl sha ws c" and "v \<in> set ws" and "confirms fl v email expiry"
    and "e \<le> expiry" and "e \<le> ve_now v + CACHE_MAX_TTL" and "set d \<subseteq> insert (sha (ve_token v), email, e) (set c)"
  shows "backed fl sha ws d"
  unfolding backed_def
proof (intro ballI, clarify)
  fix k em x
  assume "(k, em, x) \<in> set d"
  then consider "(k, em, x) = (sha (ve_token v), email, e)" | "(k, em, x) \<in> set c" using assms(6) by blast
  then show "\<exists>v \<in> set ws. \<exists>expiry. sha (ve_token v) = k \<and> confirms fl v em expiry \<and> x \<le> expiry \<and> x \<le> ve_now v + CACHE_MAX_TTL"
  proof cases
    case 1
    then show ?thesis using assms(2-5) by (intro bexI [of _ v] exI [of _ expiry]) simp_all
  next
    case 2
    then show ?thesis using assms(1) unfolding backed_def by fast
  qed
qed

lemma verify_step_cases:
  "snd (verify_step fl sha cache v) = cache \<or>
   (\<exists>email expiry. confirms fl v email expiry \<and> snd (verify_step fl sha cache v) =
      dict_set (make_room (ve_now v) cache) (sha (ve_token v)) (email, min expiry (ve_now v + CACHE_MAX_TTL)))"
  by (auto simp: verify_step_def verify_google_access_token_def ask_tokeninfo_def confirms_def split: option.splits sum.splits)

lemma verify_step_backed:
  assumes "backed fl sha vs cache"
  shows "backed fl sha (vs @ [v]) (snd (verify_step fl sha cache v))"
proof -
  have old: "backed fl sha (vs @ [v]) (make_room (ve_now v) cache)" "backed fl sha (vs @ [v]) cache"
    by (rule backed_mono [OF assms]; simp add: make_room_subset subset_insertI)+
  have "backed fl sha (vs @ [v]) (dict_set (make_room (ve_now v) cache) (sha (ve_token v)) (email, min expiry (ve_now v + CACHE_MAX_TTL)))"
    if "confirms fl v email expiry" for email expiry
    by (rule backed_insert [OF old(1) _ that _ _ dict_set_subset]) simp_all
  then show ?thesis using verify_step_cases [of fl sha cache v] old(2) by auto
qed

lemma verify_step_length:
  assumes "int (length cache) \<le> CACHE_MAX_ENTRIES"
  shows "int (length (snd (verify_step fl sha cache v))) \<le> CACHE_MAX_ENTRIES"
proof -
  have "int (length (dict_set (make_room (ve_now v) cache) k x)) \<le> CACHE_MAX_ENTRIES" for k and x :: "string \<times> rat"
    using length_make_room [OF assms, of "ve_now v"] length_dict_set [of "make_room (ve_now v) cache" k x] by linarith
  then show ?thesis using verify_step_cases [of fl sha cache v] assms by auto
qed

lemma cache_after_ok: "backed fl sha vs (cache_after fl sha vs) \<and> int (length (cache_after fl sha vs)) \<le> CACHE_MAX_ENTRIES"
proof (induction vs rule: rev_induct)
  case Nil
  show ?case by (simp add: cache_after_def backed_def CACHE_MAX_ENTRIES_def)
next
  case (snoc v vs)
  have "cache_after fl sha (vs @ [v]) = snd (verify_step fl sha (cache_after fl sha vs) v)" by (simp add: cache_after_def)
  then show ?case using snoc verify_step_backed verify_step_length by metis
qed

section \<open>Properties\<close>

text \<open>Whom the middleware lets through: a request that is not public reaches its handler only with an identity
  of the configured mode, which is never the development identity on Cloud Run.\<close>

theorem request_identity_is_verified:
  assumes "dispatch vf rq w = (CallNext rq', w')" and "rq_method rq \<noteq> ''OPTIONS''" and "\<not> is_public_path (rq_path rq)" and "rq_user_id rq = None"
  shows "\<exists>user. rq' = rq\<lparr>rq_user_id := Some user\<rparr> \<and> iw_user_id w' = Some user \<and>
    (get_auth_mode (vf_environ vf) = Inr DEV \<and> env_raw (vf_environ vf) ''K_SERVICE'' = [] \<and> user = dev_user_id (vf_environ vf) \<or>
     get_auth_mode (vf_environ vf) = Inr TRUSTED_HEADER \<and> user = py_strip (header rq ''x-lha-user-id'') \<and> user \<noteq> [] \<or>
     get_auth_mode (vf_environ vf) = Inr IAP \<and> user \<noteq> [] \<and> env_stripped (vf_environ vf) ''LHA_IAP_AUDIENCE'' \<noteq> [] \<and>
       (\<exists>jwt claims. vf_verify_token vf jwt (env_stripped (vf_environ vf) ''LHA_IAP_AUDIENCE'') = Some (PyDict claims) \<and> dict_get claims ''email'' = PyStr user) \<or>
     get_auth_mode (vf_environ vf) = Inr IAP \<and> env_stripped (vf_environ vf) ''LHA_GCP_OAUTH_CLIENT_ID'' \<noteq> [] \<and>
       fst (verify_google_access_token (vf_float vf) (vf_sha256 vf) (vf_tokeninfo vf) (vf_now vf) (extract_bearer rq)
              (env_stripped (vf_environ vf) ''LHA_GCP_OAUTH_CLIENT_ID'') (iw_cache w)) = Inr user)"
proof -
  obtain user w1 where f: "fresh_user_id vf rq w = (Inr user, w1)" and r: "rq' = rq\<lparr>rq_user_id := Some user\<rparr>" "w' = w1\<lparr>iw_user_id := Some user\<rparr>"
    using assms by (auto simp: dispatch_def resolve_user_id_def split: prod.splits sum.splits http_exn.splits)
  have dev: "env_raw (vf_environ vf) ''K_SERVICE'' = []" if "get_auth_mode (vf_environ vf) = Inr DEV"
    using that by (auto simp: get_auth_mode_def Let_def split: option.splits if_splits)
  have bearer: "env_stripped (vf_environ vf) ''LHA_GCP_OAUTH_CLIENT_ID'' \<noteq> [] \<and>
       fst (verify_google_access_token (vf_float vf) (vf_sha256 vf) (vf_tokeninfo vf) (vf_now vf) tok
              (env_stripped (vf_environ vf) ''LHA_GCP_OAUTH_CLIENT_ID'') (iw_cache w)) = Inr user"
    if "resolve_oauth_bearer vf tok w = (Inr user, w1)" for tok
    using that by (auto simp: resolve_oauth_bearer_def Let_def split: if_splits prod.splits sum.splits)
  have jwt: "env_stripped (vf_environ vf) ''LHA_IAP_AUDIENCE'' \<noteq> [] \<and>
      vf_verify_token vf t (env_stripped (vf_environ vf) ''LHA_IAP_AUDIENCE'') = Some (PyDict claims)"
    if "verify_iap_jwt vf t = Inr claims" for t claims
    by (rule verified_claims [OF that])
  show ?thesis
  proof (cases "get_auth_mode (vf_environ vf)")
    case (Inl e)
    then show ?thesis using f by (simp add: fresh_user_id_def)
  next
    case (Inr m)
    show ?thesis
    proof (cases m)
      case DEV
      then show ?thesis using Inr f r dev by (auto simp: fresh_user_id_def)
    next
      case TRUSTED_HEADER
      then show ?thesis using Inr f r by (auto simp: fresh_user_id_def split: if_splits)
    next
      case IAP
      then have "iap_user vf rq w = (Inr user, w1)" using Inr f by (simp add: fresh_user_id_def)
      then show ?thesis using IAP Inr r bearer jwt
        by (fastforce simp: iap_user_def Let_def py_bind_Inr_iff split: if_splits pyval.splits list.splits)
    qed
  qed
qed

text \<open>C28: An accepted access token was confirmed and has not expired: after any sequence of verifications, each
  with an audience of its own, in which the service may answer anything at any time, a token is accepted
  for an email only if in this or an earlier verification the service itself confirmed that token, for the
  audience that verification expected, with this verified email, and both the expiry it named and five
  minutes from then are still to come; so when all verifications expect the one configured client, it
  was confirmed for that client. The tokens seen must have different hashes. The cache never holds more
  than its bound.\<close>

theorem accepted_token_was_confirmed:
  assumes "inj_on sha256 (ve_token ` set (vs @ [v]))"
    and "fst (verify_step float_str sha256 (cache_after float_str sha256 vs) v) = Inr email"
  shows "(\<exists>u \<in> set (vs @ [v]). \<exists>expiry. ve_token u = ve_token v \<and> confirms float_str u email expiry \<and>
      ve_now v < expiry \<and> ve_now v < ve_now u + CACHE_MAX_TTL \<and>
      (list_all (\<lambda>u. ve_aud u = client_id) (vs @ [v]) \<longrightarrow>
        checked_info float_str client_id (ve_now u) (ve_get u (ve_token v)) = Inr (email, expiry))) \<and>
    int (length (cache_after float_str sha256 vs)) \<le> CACHE_MAX_ENTRIES"
proof -
  let ?cache = "cache_after float_str sha256 vs"
  note ok = cache_after_ok [of float_str sha256 vs]
  have fresh: "\<exists>expiry. confirms float_str v email expiry \<and> ve_now v < expiry"
    if "fst (ask_tokeninfo float_str sha256 (ve_get v) (ve_now v) (ve_token v) (ve_aud v) ?cache) = Inr email"
    using that by (auto simp: ask_tokeninfo_def confirms_def checked_info_def split: sum.splits option.splits pyval.splits if_splits list.splits)
  have "\<exists>u \<in> set (vs @ [v]). \<exists>expiry. ve_token u = ve_token v \<and> confirms float_str u email expiry \<and>
      ve_now v < expiry \<and> ve_now v < ve_now u + CACHE_MAX_TTL"
  proof -
    consider (hit) e where "map_of ?cache (sha256 (ve_token v)) = Some (email, e)" "e > ve_now v"
      | (asked) "fst (ask_tokeninfo float_str sha256 (ve_get v) (ve_now v) (ve_token v) (ve_aud v) ?cache) = Inr email"
      using assms(2) by (auto simp: verify_step_def verify_google_access_token_def split: if_splits option.splits prod.splits)
    then show ?thesis
    proof cases
      case hit
      then obtain u expiry where u: "u \<in> set vs" "sha256 (ve_token u) = sha256 (ve_token v)" "confirms float_str u email expiry"
        "e \<le> expiry" "e \<le> ve_now u + CACHE_MAX_TTL"
        using ok map_of_SomeD [OF hit(1)] unfolding backed_def by fastforce
      have "ve_token u = ve_token v" by (rule inj_onD [OF assms(1) u(2)]) (use u(1) in auto)
      then show ?thesis using hit(2) u by fastforce
    next
      case asked
      then show ?thesis using fresh by (fastforce simp: CACHE_MAX_TTL_def)
    qed
  qed
  then obtain u expiry where u: "u \<in> set (vs @ [v])" "ve_token u = ve_token v" "confirms float_str u email expiry"
    "ve_now v < expiry" "ve_now v < ve_now u + CACHE_MAX_TTL" by blast
  then have "checked_info float_str client_id (ve_now u) (ve_get u (ve_token v)) = Inr (email, expiry)"
    if "list_all (\<lambda>u. ve_aud u = client_id) (vs @ [v])"
    using that by (auto simp: confirms_def list_all_iff)
  then show ?thesis using u ok by blast
qed

definition demo_verification :: "string \<Rightarrow> rat \<Rightarrow> bool \<Rightarrow> verification" where
  "demo_verification aud t up = \<lparr>ve_aud = aud, ve_get = (\<lambda>_. if up then Some (PyDict [(''aud'', PyStr ''us''), (''email'', PyStr ''a@b''),
     (''email_verified'', PyBool True), (''exp'', PyInt 1000)]) else None), ve_now = t, ve_token = ''tok''\<rparr>"

text \<open>The second verification is answered from the cache while the service is down.\<close>

theorem accepted_token_was_confirmed_witness:
  "\<exists>expiry. confirms (\<lambda>_. None) (demo_verification ''us'' 0 True) ''a@b'' expiry \<and> (9::rat) < expiry"
proof -
  let ?vs = "[demo_verification ''us'' 0 True]" and ?v = "demo_verification ''us'' 9 False"
  have inj: "inj_on (\<lambda>t. ''h'') (ve_token ` set (?vs @ [?v]))" by (simp add: demo_verification_def)
  have acc: "fst (verify_step (\<lambda>_. None) (\<lambda>t. ''h'') (cache_after (\<lambda>_. None) (\<lambda>t. ''h'') ?vs) ?v) = Inr ''a@b''" by code_simp
  have down: "\<not> confirms (\<lambda>_. None) ?v ''a@b'' e" for e by (simp add: confirms_def demo_verification_def checked_info_def)
  from accepted_token_was_confirmed [OF inj acc] obtain u expiry
    where u: "u \<in> set (?vs @ [?v])" "confirms (\<lambda>_. None) u ''a@b'' expiry" "ve_now ?v < expiry" by blast
  then have "u = demo_verification ''us'' 0 True" using down by auto
  then show ?thesis using u(2,3) by (auto simp: demo_verification_def)
qed

text \<open>The cache is keyed by the token alone: a token confirmed for one audience is accepted for another, for which
  the service would refuse it, as long as its entry lives.\<close>

lemma cached_token_passes_for_any_audience:
  "fst (verify_step (\<lambda>_. None) (\<lambda>t. ''h'') (cache_after (\<lambda>_. None) (\<lambda>t. ''h'') [demo_verification ''us'' 0 True])
     (demo_verification ''them'' 9 True)) = Inr ''a@b'' \<and>
   fst (verify_step (\<lambda>_. None) (\<lambda>t. ''h'') [] (demo_verification ''them'' 9 True)) = Inl ''token audience mismatch''"
  by (rule conjI; code_simp)

end
