(* ===== verification/Uploads.thy ===== *)
theory Uploads
  imports File_Ops Http
begin

text \<open>
  The workspace routes of the chat's sidebar (\<open>api/uploads.py\<close>): uploading, creating folders, listing,
  downloading, overwriting and deleting files of a user's environment. The environment is the
  record \<open>workspace_env\<close> over a state of its own; a route answers with a result or an HTTP error
  and the state it leaves. The type a file name suggests is the argument \<open>guess_type\<close>, since the
  standard library reads it from the system's tables. Bounds are integers.
\<close>

section \<open>Errors and the environment\<close>

datatype env_exn =
    ENotFound string | EIsADirectory string | ENotADirectory string | EPermission string | EOSError string | EOther string

fun env_exn_text :: "env_exn \<Rightarrow> string" where
  "env_exn_text (ENotFound m) = m"
| "env_exn_text (EIsADirectory m) = m"
| "env_exn_text (ENotADirectory m) = m"
| "env_exn_text (EPermission m) = m"
| "env_exn_text (EOSError m) = m"
| "env_exn_text (EOther m) = m"

fun is_os_error :: "env_exn \<Rightarrow> bool" where
  "is_os_error (EOther _) = False"
| "is_os_error _ = True"

record 'w workspace_env =
  we_host :: host
  we_working_dir :: path
  we_on_host_fs :: bool
  we_read :: "path \<Rightarrow> 'w \<Rightarrow> env_exn + byte list"
  we_write :: "path \<Rightarrow> byte list \<Rightarrow> 'w \<Rightarrow> env_exn + 'w"
  we_list :: "path \<Rightarrow> int \<Rightarrow> 'w \<Rightarrow> env_exn + (pydict list \<times> bool)"
  we_delete :: "path \<Rightarrow> bool \<Rightarrow> 'w \<Rightarrow> env_exn + 'w"
  we_make_dir :: "path \<Rightarrow> 'w \<Rightarrow> env_exn + 'w"
  we_zip :: "path \<Rightarrow> 'w \<Rightarrow> env_exn + byte list"

section \<open>Names and paths\<close>

definition MAX_UPLOAD_BYTES :: int where "MAX_UPLOAD_BYTES = 50 * 1024 * 1024"
definition MAX_EDIT_BYTES :: int where "MAX_EDIT_BYTES = 2 * 1024 * 1024"
definition MAX_FILENAME_LEN :: nat where "MAX_FILENAME_LEN = 255"
definition MAX_TREE_ENTRIES :: int where "MAX_TREE_ENTRIES = 500"
definition WORKSPACE_ROOT :: string where "WORKSPACE_ROOT = ''/workspace''"
definition UPLOADS_SUBDIR :: string where "UPLOADS_SUBDIR = ''uploads''"

definition LISTING_EXCLUDE_NAMES :: "string list" where
  "LISTING_EXCLUDE_NAMES = [''__pycache__'', ''.git'', ''.hg'', ''.svn'', ''.DS_Store'', ''Thumbs.db'', ''node_modules'', ''.venv'', ''venv'',
     ''.tox'', ''.mypy_cache'', ''.pytest_cache'', ''.ruff_cache'', ''.ty_cache'', ''.ipynb_checkpoints'', ''.idea'', ''.vscode'', ''.next'', ''.turbo'']"

definition LISTING_EXCLUDE_SUFFIXES :: "string list" where
  "LISTING_EXCLUDE_SUFFIXES = [''.pyc'', ''.pyo'']"

definition is_listing_junk :: "string \<Rightarrow> bool" where
  "is_listing_junk name \<longleftrightarrow> name \<in> set LISTING_EXCLUDE_NAMES \<or> list_ex (endswith name) LISTING_EXCLUDE_SUFFIXES"

definition control_char :: "char \<Rightarrow> bool" where
  "control_char c \<longleftrightarrow> (of_char c :: nat) < 32"

definition bad_request :: "string \<Rightarrow> 'a http" where
  "bad_request detail = Inl (HTTPException 400 detail)"

fun check_parts :: "string list \<Rightarrow> unit http" where
  "check_parts [] = Inr ()"
| "check_parts (part # parts) =
     (if part \<in> set [[], ''.'', ''..''] then bad_request (''relpath segment invalid: '' @ py_repr_str part)
      else if CHR ''/'' \<in> set part \<or> BSLASH \<in> set part then bad_request ''relpath segment must not contain separators''
      else if length part > MAX_FILENAME_LEN
      then bad_request (''relpath segment longer than '' @ string_of_nat MAX_FILENAME_LEN @ '' characters'')
      else check_parts parts)"

definition forward_slashes :: "string \<Rightarrow> string" where
  "forward_slashes = map (\<lambda>c. if c = BSLASH then CHR ''/'' else c)"

definition sanitize_relpath :: "string \<Rightarrow> path http" where
  "sanitize_relpath raw =
     (if raw = [] then bad_request ''relpath is empty''
      else if CHR 0x00 \<in> set raw then bad_request ''relpath must not contain null bytes''
      else if list_ex control_char raw then bad_request ''relpath must not contain control characters''
      else if startswith (forward_slashes raw) ''/'' then bad_request ''relpath must be relative''
      else let normalised = strip_slashes (forward_slashes raw)
           in if normalised = [] then bad_request ''relpath is empty''
              else let parts = py_split_on CHR ''/'' normalised
                   in py_bind (check_parts parts) (\<lambda>_. Inr parts))"

definition sanitize_filename :: "string \<Rightarrow> string http" where
  "sanitize_filename raw =
     (if raw = [] then bad_request ''filename is empty''
      else if CHR ''/'' \<in> set raw \<or> BSLASH \<in> set raw then bad_request ''filename must not contain path separators''
      else if CHR 0x00 \<in> set raw then bad_request ''filename must not contain null bytes''
      else if list_ex control_char raw then bad_request ''filename must not contain control characters''
      else if raw \<in> set [''.'', ''..''] then bad_request (''filename must not be '' @ py_repr_str ''.'' @ '' or '' @ py_repr_str ''..'')
      else if startswith raw ''.'' then bad_request (''filename must not start with '' @ py_repr_str ''.'')
      else if length raw > MAX_FILENAME_LEN
      then bad_request (''filename longer than '' @ string_of_nat MAX_FILENAME_LEN @ '' characters'')
      else Inr raw)"

definition resolved :: "'w workspace_env \<Rightarrow> path \<Rightarrow> path http" where
  "resolved env p = (case path_resolve (we_host env) p of Inl _ \<Rightarrow> Inl Uncaught | Inr q \<Rightarrow> Inr q)"

definition workspace_rel :: "string \<Rightarrow> string http" where
  "workspace_rel requested =
     (if startswith requested WORKSPACE_ROOT
      then Inr (lstrip_chars (\<lambda>c. c = CHR ''/'') (drop (length WORKSPACE_ROOT) requested))
      else if startswith requested ''/'' then bad_request (''path must be under '' @ WORKSPACE_ROOT)
      else Inr requested)"

definition resolve_workspace_path :: "'w workspace_env \<Rightarrow> string \<Rightarrow> path http" where
  "resolve_workspace_path env requested =
     (if requested = [] then Inr (we_working_dir env)
      else py_bind (workspace_rel requested) (\<lambda>rel.
           py_bind (if rel = [] then Inr (we_working_dir env) else resolved env (we_working_dir env @ path_parts rel)) (\<lambda>target.
           py_bind (resolved env (we_working_dir env)) (\<lambda>rt.
             if is_relative_to target rt then Inr target else bad_request (''path escapes '' @ WORKSPACE_ROOT)))))"

definition path_name :: "path \<Rightarrow> string" where
  "path_name p = (if p = [] then [] else last p)"

definition to_workspace_path :: "'w workspace_env \<Rightarrow> path \<Rightarrow> string http" where
  "to_workspace_path env target =
     py_bind (resolved env (we_working_dir env)) (\<lambda>rt.
     py_bind (resolved env target) (\<lambda>real.
       Inr (if \<not> is_relative_to real rt then path_str target
            else let rel = drop (length rt) real
                 in if rel = [] then WORKSPACE_ROOT else WORKSPACE_ROOT @ ''/'' @ py_join ''/'' rel)))"

section \<open>Responses\<close>

definition unreserved :: "char \<Rightarrow> bool" where
  "unreserved c \<longleftrightarrow> ascii_digit c \<or> ascii_lower_alpha c \<or> ascii_lower_alpha (py_lower_char c) \<or> c \<in> set ''_.-~''"

definition upper_hex :: "nat \<Rightarrow> char" where
  "upper_hex n = (if n < 10 then digit_char n else char_of (n + 55))"

definition quote_byte :: "byte \<Rightarrow> string" where
  "quote_byte b = (let n = unat b; c = char_of n
     in if n < 128 \<and> unreserved c then [c] else [CHR 0x25, upper_hex (n div 16), upper_hex (n mod 16)])"

definition url_quote :: "string \<Rightarrow> string" where
  "url_quote s = concat (map quote_byte (utf8_encode s))"

definition ascii_fallback :: "string \<Rightarrow> string" where
  "ascii_fallback = map (\<lambda>c. if (of_char c :: nat) \<ge> 128 then CHR ''?'' else if c = DQUOTE then CHR ''_'' else c)"

definition disposition :: "bool \<Rightarrow> string \<Rightarrow> string" where
  "disposition inline name =
     (if inline then ''inline'' else ''attachment'') @ ''; filename='' @ [DQUOTE] @ ascii_fallback name @ [DQUOTE]
     @ ''; filename*=UTF-8'' @ [SQUOTE, SQUOTE] @ url_quote name"

definition INLINE_MIME_PREFIXES :: "string list" where "INLINE_MIME_PREFIXES = [''text/'', ''image/'']"
definition INLINE_MIME_EXACT :: "string list" where "INLINE_MIME_EXACT = [''application/pdf'', ''application/json'']"

definition resolve_inline_mime :: "(string \<Rightarrow> string option) \<Rightarrow> string \<Rightarrow> string option" where
  "resolve_inline_mime guess_type filename =
     (case guess_type filename of
        Some (c # cs) \<Rightarrow>
          if c # cs \<in> set INLINE_MIME_EXACT \<or> list_ex (startswith (c # cs)) INLINE_MIME_PREFIXES then Some (c # cs) else None
      | _ \<Rightarrow> None)"

record http_response =
  hr_content :: "byte list"
  hr_media_type :: string
  hr_headers :: "(string \<times> string) list"

definition list_visible :: "'w workspace_env \<Rightarrow> path \<Rightarrow> int \<Rightarrow> 'w \<Rightarrow> env_exn + (pydict list \<times> bool)" where
  "list_visible env target limit w =
     py_bind (we_list env target limit w) (\<lambda>(entries, truncated).
       Inr (filter (\<lambda>e. \<not> is_listing_junk (case dict_get_default e ''name'' (PyStr []) of PyStr s \<Rightarrow> s | _ \<Rightarrow> [])) entries, truncated))"

definition serve_dir_zip :: "'w workspace_env \<Rightarrow> path \<Rightarrow> 'w \<Rightarrow> http_response http" where
  "serve_dir_zip env target w =
     (case we_zip env target w of
        Inl (ENotFound _) \<Rightarrow> Inl (HTTPException 404 (path_str target @ '' not found''))
      | Inl (EPermission m) \<Rightarrow> Inl (HTTPException 403 m)
      | Inl _ \<Rightarrow> Inl Uncaught
      | Inr data \<Rightarrow>
          Inr \<lparr>hr_content = data, hr_media_type = ''application/zip'',
               hr_headers = [(''Content-Disposition'',
                 disposition False ((if path_name target = [] then ''workspace'' else path_name target) @ ''.zip''))]\<rparr>)"

section \<open>The routes\<close>

text \<open>What the client sends with a file: its name and its content.\<close>

definition upload_parts :: "string option \<Rightarrow> string option \<Rightarrow> path http" where
  "upload_parts filename relpath =
     (case relpath of
        Some (c # cs) \<Rightarrow> sanitize_relpath (c # cs)
      | _ \<Rightarrow> py_bind (sanitize_filename (case filename of None \<Rightarrow> [] | Some f \<Rightarrow> f)) (\<lambda>n. Inr [n]))"

definition upload_target :: "'w workspace_env \<Rightarrow> path \<Rightarrow> path" where
  "upload_target env parts = we_working_dir env @ [UPLOADS_SUBDIR] @ parts"

definition upload_file :: "'w workspace_env \<Rightarrow> string option \<Rightarrow> byte list \<Rightarrow> string option \<Rightarrow> 'w \<Rightarrow> pydict http \<times> 'w" where
  "upload_file env filename content relpath w =
     (case upload_parts filename relpath of
        Inl e \<Rightarrow> (Inl e, w)
      | Inr parts \<Rightarrow>
          (let data = take (nat (MAX_UPLOAD_BYTES + 1)) content
           in if int (length data) > MAX_UPLOAD_BYTES
              then (Inl (HTTPException 413 (''file exceeds '' @ string_of_int MAX_UPLOAD_BYTES @ '' bytes'')), w)
              else let target = upload_target env parts;
                       replaced = (case we_read env target w of Inr _ \<Rightarrow> True | Inl _ \<Rightarrow> False)
                   in case we_write env target data w of
                        Inl _ \<Rightarrow> (Inl Uncaught, w)
                      | Inr w' \<Rightarrow>
                          (py_bind (to_workspace_path env target) (\<lambda>p.
                             Inr [(''path'', PyStr p), (''size'', PyInt (int (length data))), (''replaced'', PyBool replaced)]), w')))"

definition workspace_new_folder :: "'w workspace_env \<Rightarrow> string \<Rightarrow> 'w \<Rightarrow> pydict http \<times> 'w" where
  "workspace_new_folder env body_name w =
     (let name = py_strip body_name
      in if name = [] \<or> name \<in> set [''.'', ''..''] \<or> CHR ''/'' \<in> set name \<or> BSLASH \<in> set name
         then (bad_request ''invalid folder name'', w)
         else case resolve_workspace_path env name of
                Inl e \<Rightarrow> (Inl e, w)
              | Inr target \<Rightarrow>
                  (case we_make_dir env target w of
                     Inl e \<Rightarrow> (Inl (if is_os_error e then HTTPException 500 (''folder create failed: '' @ env_exn_text e) else Uncaught), w)
                   | Inr w' \<Rightarrow> (py_bind (to_workspace_path env target) (\<lambda>p. Inr [(''path'', PyStr p)]), w')))"

definition workspace_tree :: "'w workspace_env \<Rightarrow> string \<Rightarrow> 'w \<Rightarrow> pydict http" where
  "workspace_tree env p w =
     py_bind (resolve_workspace_path env p) (\<lambda>target.
       case list_visible env target MAX_TREE_ENTRIES w of
         Inl e \<Rightarrow> Inl (case e of
             ENotFound _ \<Rightarrow> HTTPException 404 (p @ '' not found'')
           | ENotADirectory _ \<Rightarrow> HTTPException 400 (p @ '' is not a directory'')
           | EPermission m \<Rightarrow> HTTPException 403 m
           | EOther _ \<Rightarrow> Uncaught
           | _ \<Rightarrow> HTTPException 500 (''workspace listing failed: '' @ env_exn_text e))
       | Inr (entries, truncated) \<Rightarrow>
           py_bind (to_workspace_path env target) (\<lambda>label.
             Inr [(''path'', PyStr label), (''entries'', PyList (map PyDict entries)), (''truncated'', PyBool truncated)]))"

definition file_response :: "(string \<Rightarrow> string option) \<Rightarrow> bool \<Rightarrow> string \<Rightarrow> byte list \<Rightarrow> http_response" where
  "file_response guess_type inline name data =
     (case (if inline then resolve_inline_mime guess_type name else None) of
        Some mime \<Rightarrow>
          \<lparr>hr_content = data, hr_media_type = mime,
           hr_headers = [(''Content-Disposition'', disposition True name), (''Content-Security-Policy'', ''sandbox''),
             (''X-Content-Type-Options'', ''nosniff'')]\<rparr>
      | None \<Rightarrow>
          \<lparr>hr_content = data, hr_media_type = ''application/octet-stream'',
           hr_headers = [(''Content-Disposition'', disposition False name)]\<rparr>)"

definition workspace_download :: "(string \<Rightarrow> string option) \<Rightarrow> 'w workspace_env \<Rightarrow> string \<Rightarrow> bool \<Rightarrow> 'w \<Rightarrow> http_response http" where
  "workspace_download guess_type env p inline w =
     py_bind (resolve_workspace_path env p) (\<lambda>target.
       if we_on_host_fs env \<and> host_is_dir (we_host env) target then serve_dir_zip env target w
       else case we_read env target w of
              Inl (ENotFound _) \<Rightarrow> Inl (HTTPException 404 (p @ '' not found''))
            | Inl (EIsADirectory _) \<Rightarrow> serve_dir_zip env target w
            | Inl (EPermission m) \<Rightarrow> Inl (HTTPException 403 m)
            | Inl _ \<Rightarrow> Inl Uncaught
            | Inr data \<Rightarrow>
                if int (length data) > MAX_UPLOAD_BYTES
                then Inl (HTTPException 413 (''file exceeds '' @ string_of_int MAX_UPLOAD_BYTES @ '' bytes''))
                else Inr (file_response guess_type inline (path_name target) data))"

definition workspace_write :: "'w workspace_env \<Rightarrow> string \<Rightarrow> string \<Rightarrow> 'w \<Rightarrow> pydict http \<times> 'w" where
  "workspace_write env content p w =
     (let data = utf8_encode content
      in if int (length data) > MAX_EDIT_BYTES
         then (Inl (HTTPException 413 (''content exceeds '' @ string_of_int MAX_EDIT_BYTES @ '' bytes'')), w)
         else case resolve_workspace_path env p of
                Inl e \<Rightarrow> (Inl e, w)
              | Inr target \<Rightarrow>
                  if is_write_denied (we_host env) target then (Inl (HTTPException 403 (p @ '' is on the protected paths list'')), w)
                  else if has_binary_extension target then (Inl (HTTPException 415 (p @ '' is not a text file'')), w)
                  else (case we_read env target w of
                          Inl (ENotFound _) \<Rightarrow> (Inl (HTTPException 404 (p @ '' not found'')), w)
                        | Inl (EIsADirectory _) \<Rightarrow> (Inl (HTTPException 400 (p @ '' is a directory'')), w)
                        | Inl (EOther _) \<Rightarrow> (Inl Uncaught, w)
                        | Inl e \<Rightarrow> (Inl (HTTPException 500 (''failed to read '' @ p @ '': '' @ env_exn_text e)), w)
                        | Inr _ \<Rightarrow>
                            (case we_write env target data w of
                               Inl e \<Rightarrow> (Inl (if is_os_error e then HTTPException 500 (''write failed: '' @ env_exn_text e) else Uncaught), w)
                             | Inr w' \<Rightarrow>
                                 (py_bind (to_workspace_path env target) (\<lambda>label.
                                    Inr [(''path'', PyStr label), (''size'', PyInt (int (length data)))]), w'))))"

definition workspace_delete :: "'w workspace_env \<Rightarrow> string \<Rightarrow> bool \<Rightarrow> 'w \<Rightarrow> int http \<times> 'w" where
  "workspace_delete env p recursive w =
     (case py_bind (resolve_workspace_path env p) (\<lambda>target.
             py_bind (resolved env (we_working_dir env)) (\<lambda>rt.
             py_bind (resolved env target) (\<lambda>real. Inr (target, real = rt)))) of
        Inl e \<Rightarrow> (Inl e, w)
      | Inr (target, is_root) \<Rightarrow>
          if is_root then (bad_request (''refusing to delete workspace root '' @ p), w)
          else if we_on_host_fs env \<and> \<not> recursive \<and> host_is_dir (we_host env) target
          then (bad_request (p @ '' is a directory; pass recursive=true''), w)
          else (case we_delete env target recursive w of
                  Inl e \<Rightarrow> (Inl (case e of
                      ENotFound _ \<Rightarrow> HTTPException 404 (p @ '' not found'')
                    | EIsADirectory _ \<Rightarrow> HTTPException 400 (p @ '' is a directory; pass recursive=true'')
                    | EPermission m \<Rightarrow> HTTPException 403 m
                    | EOther _ \<Rightarrow> Uncaught
                    | _ \<Rightarrow> HTTPException 500 (''workspace delete failed: '' @ env_exn_text e)), w)
                | Inr w' \<Rightarrow> (Inr 204, w')))"

section \<open>Lemmas\<close>

definition segment :: "string \<Rightarrow> bool" where
  "segment s \<longleftrightarrow> s \<notin> {[], ''.'', ''..''} \<and> CHR ''/'' \<notin> set s \<and> length s \<le> MAX_FILENAME_LEN"

lemma check_parts_ok: "check_parts parts = Inr u \<longleftrightarrow> list_all (\<lambda>s. segment s \<and> BSLASH \<notin> set s) parts"
  by (induction parts) (auto simp: segment_def bad_request_def)

lemma sanitize_relpath_ok:
  assumes "sanitize_relpath raw = Inr parts"
  shows "list_all (\<lambda>s. segment s \<and> BSLASH \<notin> set s) parts \<and> parts \<noteq> [] \<and> parts = py_split_on CHR ''/'' (strip_slashes (forward_slashes raw))"
proof -
  have "parts = py_split_on CHR ''/'' (strip_slashes (forward_slashes raw)) \<and> check_parts parts = Inr ()"
    using assms by (auto simp: sanitize_relpath_def bad_request_def Let_def py_bind_Inr_iff split: if_splits)
  moreover have "py_split_on c s \<noteq> []" for c s by (induction s) (auto split: list.splits)
  ultimately show ?thesis using check_parts_ok by metis
qed

lemma sanitize_filename_ok: "sanitize_filename raw = Inr n \<Longrightarrow> n = raw \<and> segment raw"
  by (auto simp: sanitize_filename_def bad_request_def segment_def split: if_splits)

lemma upload_parts_ok: "upload_parts filename relpath = Inr parts \<Longrightarrow> parts \<noteq> [] \<and> list_all segment parts"
  by (auto simp: upload_parts_def py_bind_Inr_iff list_all_iff dest!: sanitize_filename_ok sanitize_relpath_ok split: option.splits list.splits)

lemma resolve_workspace_path_inside:
  assumes "resolve_workspace_path env requested = Inr target"
  shows "target = we_working_dir env \<or> (\<exists>rt. resolved env (we_working_dir env) = Inr rt \<and> is_relative_to target rt)"
  using assms by (auto simp: resolve_workspace_path_def bad_request_def py_bind_Inr_iff split: if_splits)

definition inside :: "'w workspace_env \<Rightarrow> path \<Rightarrow> bool" where
  "inside env t \<longleftrightarrow> t = we_working_dir env \<or> (\<exists>rt. resolved env (we_working_dir env) = Inr rt \<and> is_relative_to t rt)"

lemmas inside_resolved = resolve_workspace_path_inside [folded inside_def]

lemma upload_effect:
  "snd (upload_file env filename content relpath w) = w \<or>
   (\<exists>parts. parts \<noteq> [] \<and> list_all segment parts \<and> int (length content) \<le> MAX_UPLOAD_BYTES \<and>
      we_write env (we_working_dir env @ [UPLOADS_SUBDIR] @ parts) content w = Inr (snd (upload_file env filename content relpath w)))"
proof (cases "upload_parts filename relpath")
  case (Inl e)
  then show ?thesis by (simp add: upload_file_def)
next
  case (Inr parts)
  let ?data = "take (nat (MAX_UPLOAD_BYTES + 1)) content"
  have cut: "int (length ?data) \<le> MAX_UPLOAD_BYTES \<Longrightarrow> ?data = content \<and> int (length content) \<le> MAX_UPLOAD_BYTES"
    by (auto simp: MAX_UPLOAD_BYTES_def min_def split: if_splits)
  show ?thesis using Inr cut upload_parts_ok [OF Inr]
    by (auto simp: upload_file_def Let_def upload_target_def split: sum.splits)
qed

lemma new_folder_effect:
  "snd (workspace_new_folder env name w) = w \<or>
   (\<exists>t. inside env t \<and> we_make_dir env t w = Inr (snd (workspace_new_folder env name w)))"
  by (auto simp: workspace_new_folder_def Let_def split: sum.splits dest!: inside_resolved)

lemma write_effect:
  "snd (workspace_write env content p w) = w \<or>
   (\<exists>t old. inside env t \<and> \<not> is_write_denied (we_host env) t \<and> \<not> has_binary_extension t \<and> we_read env t w = Inr old \<and>
      int (length (utf8_encode content)) \<le> MAX_EDIT_BYTES \<and>
      we_write env t (utf8_encode content) w = Inr (snd (workspace_write env content p w)))"
  by (auto simp: workspace_write_def Let_def split: sum.splits env_exn.splits dest!: inside_resolved)

lemma delete_effect:
  "snd (workspace_delete env p recursive w) = w \<or>
   (\<exists>t rt real. inside env t \<and> resolved env (we_working_dir env) = Inr rt \<and> resolved env t = Inr real \<and> real \<noteq> rt \<and>
      we_delete env t recursive w = Inr (snd (workspace_delete env p recursive w)))"
  by (auto simp: workspace_delete_def py_bind_Inr_iff split: sum.splits dest!: inside_resolved)

definition component :: "string \<Rightarrow> bool" where
  "component s \<longleftrightarrow> s \<noteq> [] \<and> s \<noteq> ''.'' \<and> CHR ''/'' \<notin> set s"

lemma path_parts_joined: "ps \<noteq> [] \<Longrightarrow> list_all component ps \<Longrightarrow> path_parts (py_join ''/'' ps) = ps"
  by (simp add: path_parts_def split_on_join list_all_iff component_def filter_id_conv)

section \<open>Properties\<close>

text \<open>C29: Every route that changes the workspace stays inside it: an upload writes at most one file, below the
  uploads folder under a path of plain segments, of at most the permitted size; a new
  folder, an overwrite and a deletion touch one path below the resolved root of the workspace;
  an overwrite only replaces an existing file that is neither protected nor binary, and a deletion
  never takes the root. In every other case the workspace is as before.\<close>

theorem workspace_routes_stay_inside:
  "(snd (upload_file env filename content relpath w) = w \<or>
    (\<exists>parts. parts \<noteq> [] \<and> list_all segment parts \<and> int (length content) \<le> MAX_UPLOAD_BYTES \<and>
       we_write env (we_working_dir env @ [UPLOADS_SUBDIR] @ parts) content w = Inr (snd (upload_file env filename content relpath w)))) \<and>
   (snd (workspace_new_folder env name w) = w \<or>
    (\<exists>t. inside env t \<and> we_make_dir env t w = Inr (snd (workspace_new_folder env name w)))) \<and>
   (snd (workspace_write env body p w) = w \<or>
    (\<exists>t old. inside env t \<and> \<not> is_write_denied (we_host env) t \<and> \<not> has_binary_extension t \<and> we_read env t w = Inr old \<and>
       int (length (utf8_encode body)) \<le> MAX_EDIT_BYTES \<and>
       we_write env t (utf8_encode body) w = Inr (snd (workspace_write env body p w)))) \<and>
   (snd (workspace_delete env p recursive w) = w \<or>
    (\<exists>t rt real. inside env t \<and> resolved env (we_working_dir env) = Inr rt \<and> resolved env t = Inr real \<and> real \<noteq> rt \<and>
       we_delete env t recursive w = Inr (snd (workspace_delete env p recursive w))))"
  by (intro conjI upload_effect new_folder_effect write_effect delete_effect)

text \<open>What a route answers can be asked for again: for a path inside a workspace whose names the operating
  system resolves to themselves, the label shown to the user resolves back to that path.\<close>

theorem workspace_label_roundtrip:
  assumes "resolved env (we_working_dir env) = Inr (we_working_dir env)" and "resolved env t = Inr t"
    and "is_relative_to t (we_working_dir env)" and "list_all component (drop (length (we_working_dir env)) t)"
  shows "\<exists>label. to_workspace_path env t = Inr label \<and> resolve_workspace_path env label = Inr t"
proof -
  let ?wd = "we_working_dir env" and ?rel = "drop (length (we_working_dir env)) t"
  have t: "t = ?wd @ ?rel" using assms(3) by (metis append_take_drop_id is_relative_to_def)
  have self: "is_relative_to ?wd ?wd" by (simp add: is_relative_to_def)
  show ?thesis
  proof (cases "?rel = []")
    case True
    then have "t = ?wd" using t by simp
    then show ?thesis using assms(1,2) self
      by (simp add: to_workspace_path_def resolve_workspace_path_def workspace_rel_def WORKSPACE_ROOT_def startswith_def lstrip_chars_def)
  next
    case False
    let ?label = "WORKSPACE_ROOT @ ''/'' @ py_join ''/'' ?rel"
    obtain c cs rest where rel: "?rel = (c # cs) # rest" and c: "c \<noteq> CHR ''/''"
      using False assms(4) by (cases ?rel; cases "hd ?rel") (auto simp: component_def)
    have strip: "lstrip_chars (\<lambda>c. c = CHR ''/'') (''/'' @ py_join ''/'' ?rel) = py_join ''/'' ?rel"
      unfolding rel using c by (cases rest) (auto simp: lstrip_chars_def)
    have ne: "py_join ''/'' ?rel \<noteq> []" unfolding rel by (cases rest) auto
    have wr: "workspace_rel ?label = Inr (py_join ''/'' ?rel)"
      using strip by (simp add: workspace_rel_def WORKSPACE_ROOT_def startswith_def)
    have "path_parts (py_join ''/'' ?rel) = ?rel" using False assms(4) by (rule path_parts_joined)
    then have "resolve_workspace_path env ?label = Inr t"
      using wr ne assms(1,2,3) t [symmetric] by (simp add: resolve_workspace_path_def WORKSPACE_ROOT_def)
    moreover have "to_workspace_path env t = Inr ?label" using False assms(1-3) by (simp add: to_workspace_path_def Let_def)
    ultimately show ?thesis by blast
  qed
qed

text \<open>An environment of one folder without symbolic links.\<close>

definition demo_workspace :: "unit workspace_env" where
  "demo_workspace = \<lparr>we_host = \<lparr>realpath = id, resolve_error = (\<lambda>_. None), host_is_dir = (\<lambda>_. False), host_is_file = (\<lambda>_. True),
       host_lexists = (\<lambda>_. True), host_home = [''root'']\<rparr>,
     we_working_dir = [''ws''], we_on_host_fs = True, we_read = (\<lambda>_ _. Inr []), we_write = (\<lambda>_ _ _. Inr ()), we_list = (\<lambda>_ _ _. Inr ([], False)),
     we_delete = (\<lambda>_ _ _. Inr ()), we_make_dir = (\<lambda>_ _. Inr ()), we_zip = (\<lambda>_ _. Inr [])\<rparr>"

theorem workspace_label_roundtrip_witness:
  "\<exists>label. to_workspace_path demo_workspace [''ws'', ''a'', ''b.txt''] = Inr label \<and>
     resolve_workspace_path demo_workspace label = Inr [''ws'', ''a'', ''b.txt'']"
proof (rule workspace_label_roundtrip)
  show "resolved demo_workspace (we_working_dir demo_workspace) = Inr (we_working_dir demo_workspace)"
    "resolved demo_workspace [''ws'', ''a'', ''b.txt''] = Inr [''ws'', ''a'', ''b.txt'']"
    by (simp_all add: resolved_def path_resolve_def demo_workspace_def)
  show "is_relative_to [''ws'', ''a'', ''b.txt''] (we_working_dir demo_workspace)"
    "list_all component (drop (length (we_working_dir demo_workspace)) [''ws'', ''a'', ''b.txt''])"
    by (simp_all add: is_relative_to_def demo_workspace_def component_def)
qed

text \<open>A path that only begins like the root is taken for one inside it.\<close>

lemma lookalike_root_is_accepted:
  assumes "s \<noteq> []" and "\<not> startswith s ''/''"
  shows "resolve_workspace_path env (WORKSPACE_ROOT @ s) = resolve_workspace_path env s"
proof -
  have "lstrip_chars (\<lambda>c. c = CHR ''/'') s = s" using assms by (cases s) (auto simp: lstrip_chars_def startswith_def)
  moreover have "\<not> startswith s WORKSPACE_ROOT" using assms(2) by (cases s) (auto simp: startswith_def WORKSPACE_ROOT_def)
  ultimately show ?thesis using assms
    by (simp add: resolve_workspace_path_def workspace_rel_def startswith_def WORKSPACE_ROOT_def)
qed

end
