(* ===== verification/Base64.thy ===== *)
theory Base64
  imports Py_Text
begin

text \<open>
  Base64 as Python's \<open>base64\<close> module has it: the encoder of \<open>b64encode\<close>, and the tolerant decoder of
  \<open>b64decode\<close>, which skips characters outside the alphabet, stops at a complete padding and
  refuses an incomplete group. The messages are those of \<open>binascii.Error\<close>. Decoding
  gives back what was encoded.
\<close>

section \<open>The alphabet\<close>

definition BASE64_ALPHABET :: string where
  "BASE64_ALPHABET = ''ABCDEFGHIJKLMNOPQRSTUVWXYZabcdefghijklmnopqrstuvwxyz0123456789+/''"

definition b64_char :: "int \<Rightarrow> char" where
  "b64_char n = BASE64_ALPHABET ! nat n"

fun digit_index :: "char \<Rightarrow> int \<Rightarrow> string \<Rightarrow> int option" where
  "digit_index c i [] = None"
| "digit_index c i (d # ds) = (if c = d then Some i else digit_index c (i + 1) ds)"

definition b64_value :: "char \<Rightarrow> int option" where
  "b64_value c = digit_index c 0 BASE64_ALPHABET"

section \<open>Encoding and decoding\<close>

fun b64encode :: "byte list \<Rightarrow> string" where
  "b64encode [] = []"
| "b64encode [a] = [b64_char (uint a div 4), b64_char (uint a mod 4 * 16), CHR ''='', CHR ''='']"
| "b64encode [a, b] =
     [b64_char (uint a div 4), b64_char (uint a mod 4 * 16 + uint b div 16), b64_char (uint b mod 16 * 4), CHR ''='']"
| "b64encode (a # b # c # bs) =
     b64_char (uint a div 4) # b64_char (uint a mod 4 * 16 + uint b div 16)
       # b64_char (uint b mod 16 * 4 + uint c div 64) # b64_char (uint c mod 64) # b64encode bs"

definition to_byte :: "int \<Rightarrow> byte" where
  "to_byte n = word_of_int n"

text \<open>The decoder's state is the position in the group of four, the bits left over from the last
  character, and the padding characters seen in this group.\<close>

fun a2b :: "int \<Rightarrow> int \<Rightarrow> int \<Rightarrow> string \<Rightarrow> string + byte list" where
  "a2b quad_pos leftchar pads [] =
     (if quad_pos = 0 then Inr []
      else if quad_pos = 1
      then Inl ''Invalid base64-encoded string: number of data characters cannot be 1 more than a multiple of 4''
      else Inl ''Incorrect padding'')"
| "a2b quad_pos leftchar pads (c # s) =
     (if c = CHR ''='' then
        (if quad_pos \<ge> 2 \<and> quad_pos + pads + 1 \<ge> 4 then Inr []
         else a2b quad_pos leftchar (if quad_pos \<ge> 2 then pads + 1 else pads) s)
      else case b64_value c of
          None \<Rightarrow> a2b quad_pos leftchar pads s
        | Some v \<Rightarrow>
            (if quad_pos = 0 then a2b 1 v 0 s
             else if quad_pos = 1
             then map_sum id ((#) (to_byte (leftchar * 4 + v div 16))) (a2b 2 (v mod 16) 0 s)
             else if quad_pos = 2
             then map_sum id ((#) (to_byte (leftchar * 16 + v div 4))) (a2b 3 (v mod 4) 0 s)
             else map_sum id ((#) (to_byte (leftchar * 64 + v))) (a2b 0 0 0 s)))"

definition b64decode :: "string \<Rightarrow> string + byte list" where
  "b64decode s =
     (if list_all (\<lambda>c. (of_char c :: int) < 128) s then a2b 0 0 0 s
      else Inl ''string argument should contain only ASCII characters'')"

section \<open>The round trip\<close>

lemma length_alphabet: "length BASE64_ALPHABET = 64"
  by (simp add: BASE64_ALPHABET_def)

lemma index_of_nth:
  "distinct ds \<Longrightarrow> k < length ds \<Longrightarrow> digit_index (ds ! k) i ds = Some (i + int k)"
proof (induction ds arbitrary: i k)
  case (Cons d ds)
  show ?case
  proof (cases k)
    case (Suc j)
    then have "ds ! j \<noteq> d" using Cons.prems by auto
    with Suc Cons show ?thesis by (simp add: Cons.IH)
  qed simp
qed simp

lemma distinct_alphabet: "distinct BASE64_ALPHABET"
  by (simp add: BASE64_ALPHABET_def)

lemma b64_value_char [simp]: "0 \<le> n \<Longrightarrow> n < 64 \<Longrightarrow> b64_value (b64_char n) = Some n"
  using index_of_nth [of BASE64_ALPHABET "nat n" 0]
  by (simp add: b64_value_def b64_char_def length_alphabet distinct_alphabet)

lemma alphabet_plain: "c \<in> set BASE64_ALPHABET \<Longrightarrow> c \<noteq> CHR ''='' \<and> (of_char c :: int) < 128"
  by (simp add: BASE64_ALPHABET_def) (elim disjE; simp)

lemma b64_char_plain [simp]:
  assumes "0 \<le> n" "n < 64"
  shows "b64_char n \<noteq> CHR ''=''" "(of_char (b64_char n) :: int) < 128"
proof -
  have "b64_char n \<in> set BASE64_ALPHABET" using assms by (simp add: b64_char_def length_alphabet)
  then show "b64_char n \<noteq> CHR ''=''" "(of_char (b64_char n) :: int) < 128" using alphabet_plain by blast+
qed

lemma uint_byte: "0 \<le> uint (b :: byte)" "uint (b :: byte) < 256"
  using uint_ge_0 [of b] uint_lt2p [of b] by simp_all

lemma sextets:
  fixes a b :: byte
  shows "0 \<le> uint a div 4 \<and> uint a div 4 < 64 \<and> 0 \<le> uint a mod 4 * 16 \<and> uint a mod 4 * 16 < 64 \<and>
    0 \<le> uint a mod 4 * 16 + uint b div 16 \<and> uint a mod 4 * 16 + uint b div 16 < 64 \<and>
    0 \<le> uint a mod 16 * 4 \<and> uint a mod 16 * 4 < 64 \<and>
    0 \<le> uint a mod 16 * 4 + uint b div 64 \<and> uint a mod 16 * 4 + uint b div 64 < 64"
  using uint_byte [of a] uint_byte [of b] by (simp add: pos_imp_zdiv_nonneg_iff) (intro conjI; linarith)

lemma high_bits [simp]:
  fixes b :: byte
  shows "uint b div 16 div 16 = 0" "uint b div 16 mod 16 = uint b div 16" "uint b div 64 div 4 = 0" "uint b div 64 mod 4 = uint b div 64"
proof -
  have q: "0 \<le> uint b div 16" "uint b div 16 < 16" "0 \<le> uint b div 64" "uint b div 64 < 4"
    using uint_byte [of b] by (simp_all add: pos_imp_zdiv_nonneg_iff)
  show "uint b div 16 div 16 = 0" "uint b div 16 mod 16 = uint b div 16" "uint b div 64 div 4 = 0" "uint b div 64 mod 4 = uint b div 64"
    using div_pos_pos_trivial [OF q(1,2)] mod_pos_pos_trivial [OF q(1,2)] div_pos_pos_trivial [OF q(3,4)]
      mod_pos_pos_trivial [OF q(3,4)] by simp_all
qed

lemma to_byte_uint [simp]: "to_byte (uint b) = b"
  by (simp add: to_byte_def)

lemma a2b_encode: "a2b 0 l p (b64encode bs) = Inr bs"
proof (induction bs arbitrary: l p rule: b64encode.induct)
  case (2 a)
  show ?case using sextets [of a a] by simp
next
  case (3 a b)
  show ?case using sextets [of a b] sextets [of b b] by simp
next
  case (4 a b c bs)
  show ?case using sextets [of a b] sextets [of b c] by (simp add: "4.IH")
qed simp

lemma b64encode_ascii: "list_all (\<lambda>c. (of_char c :: int) < 128) (b64encode bs)"
proof (induction bs rule: b64encode.induct)
  case (2 a)
  then show ?case using sextets [of a a] by simp
next
  case (3 a b)
  then show ?case using sextets [of a b] sextets [of b b] by simp
next
  case (4 a b c bs)
  then show ?case using sextets [of a b] sextets [of b c] by simp
qed simp

theorem b64_roundtrip [simp]: "b64decode (b64encode bs) = Inr bs"
  by (simp add: b64decode_def b64encode_ascii a2b_encode)

end
