(* ===== verification/Process_Buffer.thy ===== *)
theory Process_Buffer
  imports Py_Text
begin

text \<open>
  A background process on the host (\<open>environment/local_process.py\<close>): the child runs on a pseudo
  terminal, a reader thread drains it into a rolling buffer of its last bytes, and the handle reads
  the buffer by offsets into the whole output. What the operating system answers is the argument
  of an operation: each read of the terminal with the poll of the child beside it, each wait
  for its end, the lookup of its process group. Times are rationals.

  The abstract view of a process is the list of all bytes its child has written. The buffer is always the end
  of that list, a read is a window of it, and a reader that follows the offsets it is given sees
  every byte once. The last is proved in the locale \<open>output_source\<close>, for any handle whose reads
  are such windows.
\<close>

section \<open>State\<close>

record proc =
  p_session_id :: string
  p_command :: string
  p_pid :: int
  p_started_at :: rat
  p_finished_at :: "rat option"
  p_buffer_bytes :: int
  p_buffer :: "byte list"
  p_total_bytes :: int
  p_exit_code :: "int option"
  p_exit_event :: bool
  p_last_output_at :: rat

definition DEFAULT_BUFFER_BYTES :: int where "DEFAULT_BUFFER_BYTES = 200 * 1024"

text \<open>\<open>uuid4\<close>, the clock and the child's process id are given.\<close>

definition proc_init :: "string \<Rightarrow> rat \<Rightarrow> int \<Rightarrow> int \<Rightarrow> string \<Rightarrow> proc" where
  "proc_init uuid_hex now pid buffer_bytes command =
     \<lparr>p_session_id = ''proc_'' @ take 12 uuid_hex, p_command = command, p_pid = pid, p_started_at = now,
      p_finished_at = None, p_buffer_bytes = buffer_bytes, p_buffer = [], p_total_bytes = 0, p_exit_code = None,
      p_exit_event = False, p_last_output_at = now\<rparr>"

section \<open>The reader thread\<close>

definition append_chunk :: "rat \<Rightarrow> byte list \<Rightarrow> proc \<Rightarrow> proc" where
  "append_chunk now chunk p =
     (let buf = p_buffer p @ chunk;
          overflow = int (length buf) - p_buffer_bytes p
      in p\<lparr>p_buffer := (if overflow > 0 then drop (nat overflow) buf else buf),
           p_total_bytes := p_total_bytes p + int (length chunk), p_last_output_at := now\<rparr>)"

text \<open>What one \<open>os.read\<close> of the terminal gives, and what one round of the loop meets: the read, whether
  the child has ended, the second read in that case, and the time.\<close>

datatype pty_read = Chunk "byte list" | WouldBlock | Eio | OtherErrno

record reader_input =
  ri_read :: pty_read
  ri_polled :: bool
  ri_again :: pty_read
  ri_now :: rat

text \<open>A round ends the loop or goes on with the state it leaves.\<close>

datatype round = Break | Continue proc

definition take_chunk :: "rat \<Rightarrow> byte list \<Rightarrow> proc \<Rightarrow> round" where
  "take_chunk now chunk p = (if chunk = [] then Break else Continue (append_chunk now chunk p))"

definition reader_round :: "reader_input \<Rightarrow> proc \<Rightarrow> round" where
  "reader_round i p =
     (case ri_read i of
        Chunk chunk \<Rightarrow> take_chunk (ri_now i) chunk p
      | WouldBlock \<Rightarrow>
          if ri_polled i then (case ri_again i of Chunk chunk \<Rightarrow> take_chunk (ri_now i) chunk p | _ \<Rightarrow> Break)
          else Continue p
      | Eio \<Rightarrow> Break
      | OtherErrno \<Rightarrow> Break)"

text \<open>The \<open>finally\<close> part: the wait of at most five seconds gives the return code, or none when the child
  is still there.\<close>

definition reader_finally :: "int option \<Rightarrow> rat \<Rightarrow> proc \<Rightarrow> proc" where
  "reader_finally returncode now p = p\<lparr>p_exit_code := returncode, p_finished_at := Some now, p_exit_event := True\<rparr>"

fun reader_loop :: "int option \<Rightarrow> rat \<Rightarrow> reader_input list \<Rightarrow> proc \<Rightarrow> proc" where
  "reader_loop returncode now [] p = p"
| "reader_loop returncode now (i # is) p =
     (case reader_round i p of
        Break \<Rightarrow> reader_finally returncode now p
      | Continue p' \<Rightarrow> reader_loop returncode now is p')"

text \<open>Without a pseudo terminal the output comes from a pipe.\<close>

fun pipe_reader_loop :: "int option \<Rightarrow> rat \<Rightarrow> (byte list \<times> rat) list \<Rightarrow> proc \<Rightarrow> proc" where
  "pipe_reader_loop returncode now [] p = p"
| "pipe_reader_loop returncode now ((chunk, t) # cs) p =
     (case take_chunk t chunk p of
        Break \<Rightarrow> reader_finally returncode now p
      | Continue p' \<Rightarrow> pipe_reader_loop returncode now cs p')"

section \<open>The handle\<close>

definition is_running :: "proc \<Rightarrow> bool" where
  "is_running p \<longleftrightarrow> \<not> p_exit_event p"

definition idle_seconds :: "rat \<Rightarrow> proc \<Rightarrow> rat" where
  "idle_seconds now p = now - p_last_output_at p"

text \<open>\<open>xs[i:j]\<close> for an \<open>i\<close> within the list; a negative \<open>j\<close> counts from the end.\<close>

definition slice_from :: "'a list \<Rightarrow> int \<Rightarrow> int \<Rightarrow> 'a list" where
  "slice_from xs i j =
     (let stop = (if j < 0 then max 0 (j + int (length xs)) else j)
      in take (nat (stop - i)) (drop (nat i) xs))"

definition proc_read :: "int \<Rightarrow> int option \<Rightarrow> proc \<Rightarrow> byte list \<times> int \<times> int option" where
  "proc_read offset limit p =
     (let buffer_start = p_total_bytes p - int (length (p_buffer p));
          slice_start = max 0 (min (max offset buffer_start - buffer_start) (int (length (p_buffer p))));
          data = (case limit of
                    None \<Rightarrow> drop (nat slice_start) (p_buffer p)
                  | Some l \<Rightarrow> slice_from (p_buffer p) slice_start (slice_start + l))
      in (data, buffer_start + slice_start + int (length data), p_exit_code p))"

text \<open>\<open>os.write\<close> to the terminal, which does not block, answers how many bytes it took or fails; the
  handle ignores the number. The result names the bytes that reach the child.\<close>

definition proc_write :: "(byte list \<Rightarrow> string + nat) \<Rightarrow> byte list \<Rightarrow> proc \<Rightarrow> byte list py" where
  "proc_write os_write data p =
     (if p_exit_event p then Inl (RuntimeError (''process '' @ p_session_id p @ '' has already exited''))
      else case os_write data of Inl m \<Rightarrow> Inl (OSError m) | Inr n \<Rightarrow> Inr (take n data))"

text \<open>Killing sends signals to the process group, waiting for the reader in between: the lookup of the group, whether each
  signal finds it, and the process as the reader has left it after each wait.\<close>

datatype signal = SIGTERM | SIGKILL

record kill_input =
  ki_has_group :: bool
  ki_term_found :: bool
  ki_after_term :: proc
  ki_kill_found :: bool
  ki_after_kill :: proc

definition proc_kill :: "kill_input \<Rightarrow> proc \<Rightarrow> signal list \<times> proc" where
  "proc_kill k p =
     (if p_exit_event p then ([], p)
      else if \<not> ki_has_group k then ([], p)
      else if \<not> ki_term_found k then ([], p)
      else if p_exit_event (ki_after_term k) then ([SIGTERM], ki_after_term k)
      else if \<not> ki_kill_found k then ([SIGTERM], ki_after_term k)
      else ([SIGTERM, SIGKILL], ki_after_kill k))"

text \<open>Waiting returns the exit code of the process as the reader has left it when the wait ends.\<close>

definition proc_wait :: "proc \<Rightarrow> int option" where
  "proc_wait after = p_exit_code after"

section \<open>The output as a whole\<close>

text \<open>\<open>holds_output out p\<close>: the child has written \<open>out\<close>, and the buffer holds its end.\<close>

definition last_bytes :: "int \<Rightarrow> 'a list \<Rightarrow> 'a list" where
  "last_bytes n xs = drop (nat (int (length xs) - n)) xs"

definition holds_output :: "byte list \<Rightarrow> proc \<Rightarrow> bool" where
  "holds_output out p \<longleftrightarrow>
     0 \<le> p_buffer_bytes p \<and> p_total_bytes p = int (length out) \<and> p_buffer p = last_bytes (p_buffer_bytes p) out"

text \<open>The bytes a list of rounds delivers.\<close>

fun delivered :: "reader_input list \<Rightarrow> byte list" where
  "delivered [] = []"
| "delivered (i # is) =
     (case (if ri_read i = WouldBlock \<and> ri_polled i then ri_again i else ri_read i) of
        Chunk chunk \<Rightarrow> if chunk = [] then [] else chunk @ delivered is
      | WouldBlock \<Rightarrow> if ri_read i = WouldBlock \<and> \<not> ri_polled i then delivered is else []
      | _ \<Rightarrow> [])"

lemma length_last_bytes: "0 \<le> n \<Longrightarrow> int (length (last_bytes n xs)) = min n (int (length xs))"
  by (auto simp: last_bytes_def)

lemma last_bytes_append:
  assumes "0 \<le> n"
  shows "last_bytes n (last_bytes n xs @ ys) = last_bytes n (xs @ ys)"
proof (cases "int (length xs) \<le> n")
  case False
  then have l: "length (last_bytes n xs) = nat n" using length_last_bytes [OF assms, of xs] assms by simp
  let ?k = "nat (int (length xs) - n)"
  have "last_bytes n xs @ ys = drop ?k (xs @ ys)" using False assms by (simp add: last_bytes_def)
  then have "last_bytes n (last_bytes n xs @ ys) = drop (nat (int (length (drop ?k (xs @ ys))) - n) + ?k) (xs @ ys)"
    by (simp only: last_bytes_def [of n "drop _ _"] drop_drop)
  moreover have "nat (int (length (drop ?k (xs @ ys))) - n) + ?k = nat (int (length (xs @ ys)) - n)"
    using False assms by simp
  ultimately show ?thesis by (simp only: last_bytes_def)
qed (simp add: last_bytes_def)

lemma holds_output_init: "0 \<le> n \<Longrightarrow> holds_output [] (proc_init u now pid n c)"
  by (simp add: holds_output_def proc_init_def last_bytes_def)

lemma holds_output_append: "holds_output out p \<Longrightarrow> holds_output (out @ chunk) (append_chunk now chunk p)"
proof -
  assume h: "holds_output out p"
  let ?n = "p_buffer_bytes p"
  have n: "0 \<le> ?n" and b: "p_buffer p = last_bytes ?n out" using h by (auto simp: holds_output_def)
  have "p_buffer (append_chunk now chunk p) = last_bytes ?n (p_buffer p @ chunk)"
    by (auto simp: append_chunk_def last_bytes_def Let_def)
  also have "\<dots> = last_bytes ?n (out @ chunk)" by (simp add: b last_bytes_append [OF n])
  finally have "p_buffer (append_chunk now chunk p) = last_bytes ?n (out @ chunk)" .
  moreover have "p_buffer_bytes (append_chunk now chunk p) = ?n" "p_total_bytes (append_chunk now chunk p) = int (length (out @ chunk))"
    using h by (simp_all add: holds_output_def append_chunk_def Let_def)
  ultimately show ?thesis using n by (simp only: holds_output_def)
qed

lemma holds_output_finally [simp]: "holds_output out (reader_finally rc now p) = holds_output out p"
  by (simp add: holds_output_def reader_finally_def)

lemma reader_loop_holds: "holds_output out p \<Longrightarrow> holds_output (out @ delivered is) (reader_loop rc now is p)"
proof (induction "is" arbitrary: out p)
  case (Cons i "is")
  note step = Cons.IH [OF holds_output_append [OF Cons.prems]]
  show ?case
  proof (cases "ri_read i")
    case (Chunk chunk)
    with Cons step [of chunk "ri_now i"] show ?thesis by (simp add: reader_round_def take_chunk_def)
  next
    case WouldBlock
    show ?thesis
    proof (cases "ri_polled i")
      case True
      with WouldBlock Cons step show ?thesis
        by (cases "ri_again i") (auto simp: reader_round_def take_chunk_def)
    qed (use WouldBlock Cons in \<open>simp add: reader_round_def\<close>)
  qed (use Cons in \<open>simp_all add: reader_round_def\<close>)
qed simp

lemma reader_loop_bytes [simp]: "p_buffer_bytes (reader_loop rc now is p) = p_buffer_bytes p"
proof (induction "is" arbitrary: p)
  case (Cons i "is")
  show ?case
    by (auto simp: reader_round_def take_chunk_def reader_finally_def append_chunk_def Let_def Cons.IH
          split: pty_read.splits round.splits if_splits)
qed simp

section \<open>Reading\<close>

text \<open>The specification of a read: the window of the whole output from an offset, cut to what is still kept.\<close>

definition window :: "byte list \<Rightarrow> int \<Rightarrow> int \<Rightarrow> int option \<Rightarrow> byte list" where
  "window out kept_from offset limit =
     (let rest = drop (nat (max offset kept_from)) out
      in case limit of None \<Rightarrow> rest | Some l \<Rightarrow> take (nat l) rest)"

definition kept_from :: "proc \<Rightarrow> int" where
  "kept_from p = p_total_bytes p - int (length (p_buffer p))"

lemma holds_kept: "holds_output out p \<Longrightarrow> 0 \<le> kept_from p \<and> kept_from p \<le> int (length out) \<and> p_buffer p = drop (nat (kept_from p)) out"
  by (auto simp: holds_output_def kept_from_def last_bytes_def)

lemma proc_read_window:
  assumes "holds_output out p" and "case limit of None \<Rightarrow> True | Some l \<Rightarrow> 0 \<le> l"
  shows "proc_read offset limit p =
    (window out (kept_from p) offset limit,
     min (max offset (kept_from p)) (int (length out)) + int (length (window out (kept_from p) offset limit)), p_exit_code p)"
proof -
  let ?k = "kept_from p" and ?n = "int (length (p_buffer p))"
  have k: "0 \<le> ?k" "?k \<le> int (length out)" and b: "p_buffer p = drop (nat ?k) out" using holds_kept [OF assms(1)] by auto
  have n: "?n = int (length out) - ?k" using k by (simp add: b)
  define s where "s = max 0 (min (max offset ?k - ?k) ?n)"
  have s: "?k + s = min (max offset ?k) (int (length out))" using k n by (auto simp: s_def)
  have d: "drop (nat s) (p_buffer p) = drop (nat (max offset ?k)) out"
  proof (cases "max offset ?k \<le> int (length out)")
    case True
    then have "nat s + nat ?k = nat (max offset ?k)" using k n by (auto simp: s_def)
    then show ?thesis by (simp add: b)
  next
    case False
    then have "length out \<le> nat s + nat ?k" "length out \<le> nat (max offset ?k)" using k n by (auto simp: s_def)
    then show ?thesis by (simp add: b)
  qed
  have "0 \<le> s" by (simp add: s_def)
  then have w: "(case limit of None \<Rightarrow> drop (nat s) (p_buffer p) | Some l \<Rightarrow> slice_from (p_buffer p) s (s + l)) = window out ?k offset limit"
    using assms(2) by (cases limit) (auto simp: slice_from_def window_def d Let_def)
  have "proc_read offset limit p = (let data = (case limit of None \<Rightarrow> drop (nat s) (p_buffer p) | Some l \<Rightarrow> slice_from (p_buffer p) s (s + l))
      in (data, ?k + s + int (length data), p_exit_code p))"
    by (simp only: proc_read_def Let_def kept_from_def s_def)
  then show ?thesis by (simp only: w s Let_def)
qed

section \<open>Following the offsets\<close>

locale output_source =
  fixes shows_output :: "byte list \<Rightarrow> int \<Rightarrow> 'h \<Rightarrow> bool"
    and read :: "int \<Rightarrow> int option \<Rightarrow> 'h \<Rightarrow> byte list \<times> int"
  assumes read_window: "shows_output out k h \<Longrightarrow> 0 \<le> offset \<Longrightarrow> 0 < l \<Longrightarrow> k \<le> offset \<Longrightarrow> offset \<le> int (length out) \<Longrightarrow>
      read offset (Some l) h = (take (nat l) (drop (nat offset) out), offset + int (length (take (nat l) (drop (nat offset) out))))"
    and kept_range: "shows_output out k h \<Longrightarrow> 0 \<le> k \<and> k \<le> int (length out)"
begin

fun pages :: "nat \<Rightarrow> int \<Rightarrow> int \<Rightarrow> 'h \<Rightarrow> byte list" where
  "pages 0 offset l h = []"
| "pages (Suc n) offset l h = (case read offset (Some l) h of (data, next) \<Rightarrow> data @ pages n next l h)"

lemma pages_window:
  assumes "shows_output out k h" "0 < l" "k \<le> offset" "offset \<le> int (length out)"
  shows "pages n offset l h = take (n * nat l) (drop (nat offset) out)"
  using assms(3,4)
proof (induction n arbitrary: offset)
  case (Suc n)
  have o: "0 \<le> offset" using Suc.prems kept_range [OF assms(1)] by simp
  let ?page = "take (nat l) (drop (nat offset) out)"
  have len: "length ?page = min (nat l) (length out - nat offset)" by simp
  have "pages n (offset + int (length ?page)) l h = take (n * nat l) (drop (nat (offset + int (length ?page))) out)"
    using Suc.prems o by (intro Suc.IH) auto
  also have "drop (nat (offset + int (length ?page))) out = drop (nat l) (drop (nat offset) out)"
    using o Suc.prems assms(2) by (auto simp: len nat_add_distrib add.commute min_def)
  finally show ?case
    using Suc.prems o by (simp add: read_window [OF assms(1) o assms(2)] take_add)
qed simp

lemma pages_complete:
  assumes "shows_output out k h" "0 < l" "k \<le> offset" "offset \<le> int (length out)" "length out \<le> n * nat l + nat offset"
  shows "pages n offset l h = drop (nat offset) out"
  using pages_window [OF assms(1-4), of n] assms(5) by simp

end

definition local_page :: "int \<Rightarrow> int option \<Rightarrow> proc \<Rightarrow> byte list \<times> int" where
  "local_page offset limit p = (case proc_read offset limit p of (data, next, _) \<Rightarrow> (data, next))"

interpretation local_source: output_source "\<lambda>out k p. holds_output out p \<and> k = kept_from p" local_page
proof unfold_locales
  fix out k and p :: proc and offset l :: int
  assume a: "holds_output out p \<and> k = kept_from p" and o: "0 \<le> offset" "0 < l" "k \<le> offset" "offset \<le> int (length out)"
  then have "window out k offset (Some l) = take (nat l) (drop (nat offset) out)" "min (max offset k) (int (length out)) = offset"
    by (simp_all add: window_def max_def min_def)
  with a o show "local_page offset (Some l) p
      = (take (nat l) (drop (nat offset) out), offset + int (length (take (nat l) (drop (nat offset) out))))"
    using proc_read_window [of out p "Some l" offset] by (simp only: local_page_def) simp
next
  fix out k and p :: proc
  assume "holds_output out p \<and> k = kept_from p"
  then show "0 \<le> k \<and> k \<le> int (length out)" using holds_kept by blast
qed

section \<open>Properties\<close>

text \<open>C30: After any rounds of the reader a process holds exactly the end of what its child has written, cut
  to the buffer's size, and following the log page by page from any offset that is still kept gives every later
  byte of the output once and in order, whatever the page size.\<close>

theorem log_pages_give_the_output:
  assumes "0 \<le> n" and "p = reader_loop rc now is (proc_init u t pid n c)"
    and "kept_from p \<le> offset" and "offset \<le> int (length (delivered is))" and "0 < l"
    and "length (delivered is) \<le> m * nat l + nat offset"
  shows "p_buffer p = last_bytes n (delivered is) \<and> output_source.pages local_page m offset l p = drop (nat offset) (delivered is)"
proof -
  have h: "holds_output (delivered is) p"
    using reader_loop_holds [OF holds_output_init [OF assms(1)]] assms(2) by fastforce
  have "p_buffer_bytes p = n" by (simp add: assms(2) reader_loop_bytes proc_init_def)
  then show ?thesis
    using local_source.pages_complete [OF conjI [OF h refl] assms(5,3,4,6)] h by (simp add: holds_output_def)
qed

theorem log_pages_give_the_output_witness:
  "output_source.pages local_page 3 2 2 (reader_loop (Some 0) 9
       [\<lparr>ri_read = Chunk [1, 2, 3], ri_polled = False, ri_again = Eio, ri_now = 1\<rparr>,
        \<lparr>ri_read = WouldBlock, ri_polled = False, ri_again = Eio, ri_now = 2\<rparr>,
        \<lparr>ri_read = WouldBlock, ri_polled = True, ri_again = Chunk [4, 5], ri_now = 3\<rparr>,
        \<lparr>ri_read = Eio, ri_polled = True, ri_again = Eio, ri_now = 4\<rparr>] (proc_init ''0123456789abcdef'' 0 7 4 ''make''))
     = [3, 4, 5]"
  by (rule log_pages_give_the_output [where n = 4, OF _ refl, THEN conjunct2, THEN trans])
    (simp_all add: reader_round_def take_chunk_def append_chunk_def reader_finally_def proc_init_def kept_from_def)

text \<open>A child that has closed its terminal and still runs is given up by the reader after the wait of five seconds: the
  handle calls it ended, without an exit code, and killing it sends no signal at all.\<close>

lemma detached_child_is_not_killed:
  assumes "ri_read i = Eio" and "p_exit_event p = False"
  shows "let q = reader_loop None now [i] p
    in \<not> is_running q \<and> proc_wait q = None \<and> proc_kill k q = ([], q)"
  using assms by (simp add: reader_round_def reader_finally_def is_running_def proc_wait_def proc_kill_def)

text \<open>What the terminal does not take of a write is lost without an error.\<close>

lemma short_write_is_silent:
  assumes "is_running p" and "n < length data" and "os_write data = Inr n"
  shows "\<exists>taken. proc_write os_write data p = Inr taken \<and> length taken < length data"
  using assms by (simp add: proc_write_def is_running_def)

end
