(* ===== verification/Sandbox_Runtime.thy ===== *)
theory Sandbox_Runtime
  imports Uploads Environ Base64 Process_Buffer
begin

text \<open>
  The server inside a sandbox container (\<open>sandbox/runtime/server.py\<close>, with the messages of
  \<open>sandbox/runtime/protocol.py\<close>): running a command, reading, writing, listing, deleting and zipping files
  under the workspace root, and the background processes of the container. The container's operating
  system and file system are the record \<open>container\<close> over a state of its own; the zip format is a
  parameter with it. A request is one constructor for each route, with the parameters the framework decodes from
  the URL and the body; the bounds a route declares on a number are checked here, and what the framework answers to a
  violation is a field of the container, as is its rendering of JSON.
\<close>

section \<open>The container\<close>

record dir_entry =
  de_name :: string
  de_stat :: "(int \<times> int) option"
  de_symlink :: bool
  de_dir :: bool

record zip_member =
  zm_filename :: string
  zm_open_error :: "string option"
  zm_data :: "byte list"
  zm_read_error :: "string option"

text \<open>A command's run: when the shell ends and with which code, when both of its pipes reach their end, how long a
  killed shell takes to go, and the chunks of its output with the times they arrive.\<close>

record exec_run =
  er_exit_at :: "rat option"
  er_returncode :: "int option"
  er_closed_at :: "rat option"
  er_reaped_after :: rat
  er_stdout :: "(rat \<times> byte list) list"
  er_stderr :: "(rat \<times> byte list) list"

type_synonym env_vars = "(string \<times> string) list"

text \<open>An operation of the file system that changes it: the error it raises, if any, and the state it leaves in
  either case.\<close>

type_synonym 'w op = "'w \<Rightarrow> env_exn option \<times> 'w"

record 'w container =
  ct_environ :: environ
  ct_host :: "'w \<Rightarrow> host"
  ct_root :: path
  ct_exists :: "path \<Rightarrow> 'w \<Rightarrow> bool"
  ct_is_symlink :: "path \<Rightarrow> 'w \<Rightarrow> bool"
  ct_scandir :: "path \<Rightarrow> 'w \<Rightarrow> env_exn + dir_entry list"
  ct_rglob :: "path \<Rightarrow> 'w \<Rightarrow> path list"
  ct_read :: "path \<Rightarrow> 'w \<Rightarrow> env_exn + byte list"
  ct_write :: "path \<Rightarrow> byte list \<Rightarrow> 'w op"
  ct_mkdirs :: "path \<Rightarrow> 'w op"
  ct_chmod :: "path \<Rightarrow> int \<Rightarrow> 'w op"
  ct_unlink :: "path \<Rightarrow> 'w op"
  ct_rmtree :: "path \<Rightarrow> 'w op"
  ct_zip :: "(string \<times> byte list) list \<Rightarrow> byte list"
  ct_unzip :: "byte list \<Rightarrow> string + zip_member list"
  ct_clock :: "'w \<Rightarrow> rat"
  ct_uuid :: "'w \<Rightarrow> string"
  ct_exec :: "string \<Rightarrow> string option \<Rightarrow> env_vars option \<Rightarrow> 'w \<Rightarrow> exec_run option \<times> 'w"
  ct_popen :: "string \<Rightarrow> path option \<Rightarrow> env_vars option \<Rightarrow> 'w \<Rightarrow> (string + int) \<times> 'w"
  ct_pty_write :: "string \<Rightarrow> byte list \<Rightarrow> 'w \<Rightarrow> string + nat"
  ct_kill :: "string \<Rightarrow> 'w \<Rightarrow> kill_input"
  ct_show_float :: "rat \<Rightarrow> string"
  ct_render :: "pyval \<Rightarrow> string"
  ct_invalid :: pyval

record 'w shim =
  sh_world :: 'w
  sh_procs :: "(string \<times> proc) list"

section \<open>Paths\<close>

definition RUNTIME_PORT :: int where "RUNTIME_PORT = 8080"

definition env_or :: "environ \<Rightarrow> string \<Rightarrow> string \<Rightarrow> string" where
  "env_or environ name dflt = (if env_stripped environ name = [] then dflt else env_stripped environ name)"

definition shim_workspace_root :: "environ \<Rightarrow> path \<Rightarrow> host \<Rightarrow> path py" where
  "shim_workspace_root environ cwd h =
     (let s = env_or environ ''SANDBOX_WORKSPACE'' ''/workspace''
      in path_resolve h (if is_absolute s then path_parts s else cwd @ path_parts s))"

definition DEFAULT_EXEC_TIMEOUT_SEC :: "environ \<Rightarrow> (string \<Rightarrow> rat option) \<Rightarrow> rat option" where
  "DEFAULT_EXEC_TIMEOUT_SEC environ parse_float = parse_float (env_or environ ''SANDBOX_EXEC_TIMEOUT_SEC'' ''600'')"

definition resolve_within_workspace :: "'w container \<Rightarrow> 'w \<Rightarrow> string \<Rightarrow> path http" where
  "resolve_within_workspace ct w raw =
     (case path_resolve (ct_host ct w) (if is_absolute raw then path_parts raw else ct_root ct @ path_parts raw) of
        Inl _ \<Rightarrow> Inl Uncaught
      | Inr target \<Rightarrow>
          if is_relative_to target (ct_root ct) then Inr target
          else Inl (HTTPException 403 (''path '' @ py_repr_str raw @ '' escapes workspace root '' @ path_str (ct_root ct))))"

section \<open>Running a command\<close>

definition PROCESS_INHERITED_ENV_KEYS :: "string list" where
  "PROCESS_INHERITED_ENV_KEYS = [''PATH'', ''HOME'', ''USER'', ''LANG'', ''LC_ALL'']"

definition resolve_env :: "environ \<Rightarrow> env_vars option \<Rightarrow> env_vars option" where
  "resolve_env environ requested =
     (case requested of
        None \<Rightarrow> None
      | Some req \<Rightarrow>
          Some (fold (\<lambda>(k, x) d. dict_set d k x) req
            (List.map_filter (\<lambda>k. map_option (Pair k) (environ k)) PROCESS_INHERITED_ENV_KEYS)))"

text \<open>The drain of one pipe: the chunks that have arrived by a time, up to the empty one at its end.\<close>

fun drain_pipe :: "rat option \<Rightarrow> (rat \<times> byte list) list \<Rightarrow> byte list" where
  "drain_pipe until [] = []"
| "drain_pipe until ((t, chunk) # cs) =
     (if chunk = [] \<or> (case until of None \<Rightarrow> False | Some u \<Rightarrow> t > u) then [] else chunk @ drain_pipe until cs)"

record exec_response =
  xr_exit_code :: int
  xr_stdout :: string
  xr_stderr :: string
  xr_timed_out :: bool

text \<open>The answer to a command and when it comes, or none if the request never ends: the timeout bounds the wait for
  the shell, not the drain of its pipes after it.\<close>

definition timed_out_response :: "rat \<Rightarrow> exec_run \<Rightarrow> rat \<times> exec_response" where
  "timed_out_response timeout r =
     (let over = timeout + min (er_reaped_after r) 5
      in (over, \<lparr>xr_exit_code = -1, xr_stdout = utf8_decode (drain_pipe (Some over) (er_stdout r)),
                xr_stderr = utf8_decode (drain_pipe (Some over) (er_stderr r)), xr_timed_out = True\<rparr>))"

definition run_exec :: "rat \<Rightarrow> exec_run \<Rightarrow> (rat \<times> exec_response) option" where
  "run_exec timeout r =
     (if (case er_exit_at r of Some t \<Rightarrow> t \<le> timeout | None \<Rightarrow> False)
      then map_option (\<lambda>closed. (max (the (er_exit_at r)) closed,
             \<lparr>xr_exit_code = (case er_returncode r of Some c \<Rightarrow> c | None \<Rightarrow> 0),
              xr_stdout = utf8_decode (drain_pipe None (er_stdout r)), xr_stderr = utf8_decode (drain_pipe None (er_stderr r)),
              xr_timed_out = False\<rparr>)) (er_closed_at r)
      else Some (timed_out_response timeout r))"

definition exec_body :: "exec_response \<Rightarrow> pyval" where
  "exec_body x = PyDict [(''exit_code'', PyInt (xr_exit_code x)), (''stdout'', PyStr (xr_stdout x)),
     (''stderr'', PyStr (xr_stderr x)), (''timed_out'', PyBool (xr_timed_out x))]"

definition exec_command ::
  "'w container \<Rightarrow> rat \<Rightarrow> string \<Rightarrow> rat option \<Rightarrow> string option \<Rightarrow> env_vars option \<Rightarrow> 'w \<Rightarrow> (rat \<times> pyval) option http \<times> 'w" where
  "exec_command ct dflt_timeout command timeout cwd env w =
     (case ct_exec ct command cwd (resolve_env (ct_environ ct) env) w of
        (None, w') \<Rightarrow> (Inl Uncaught, w')
      | (Some r, w') \<Rightarrow>
          (Inr (map_option (map_prod id exec_body) (run_exec (case timeout of Some t \<Rightarrow> t | None \<Rightarrow> dflt_timeout) r)), w'))"

section \<open>Files\<close>

definition shim_read_file :: "'w container \<Rightarrow> string \<Rightarrow> 'w \<Rightarrow> pyval http" where
  "shim_read_file ct p w =
     py_bind (resolve_within_workspace ct w p) (\<lambda>target.
       case ct_read ct target w of
         Inl (ENotFound m) \<Rightarrow> Inl (HTTPException 404 m)
       | Inl (EIsADirectory m) \<Rightarrow> Inl (HTTPException 400 m)
       | Inl (EPermission m) \<Rightarrow> Inl (HTTPException 403 m)
       | Inl _ \<Rightarrow> Inl Uncaught
       | Inr data \<Rightarrow> Inr (PyDict [(''content_b64'', PyStr (b64encode data))]))"

definition entry_kind :: "dir_entry \<Rightarrow> string" where
  "entry_kind e = (if de_symlink e then ''symlink'' else if de_dir e then ''dir'' else ''file'')"

text \<open>The listing loop: it stops at the limit, and an entry that cannot be examined is skipped.\<close>

fun list_rows :: "int \<Rightarrow> pyval list \<Rightarrow> dir_entry list \<Rightarrow> pyval list \<times> bool" where
  "list_rows limit acc [] = (acc, False)"
| "list_rows limit acc (e # es) =
     (if int (length acc) \<ge> limit then (acc, True)
      else case de_stat e of
             None \<Rightarrow> list_rows limit acc es
           | Some (sz, mtime) \<Rightarrow>
               list_rows limit
                 (acc @ [PyDict [(''name'', PyStr (de_name e)), (''kind'', PyStr (entry_kind e)), (''size'', PyInt sz), (''mtime'', PyInt mtime)]]) es)"

definition sorted_entries :: "dir_entry list \<Rightarrow> dir_entry list" where
  "sorted_entries es = map snd (sort_items (map (\<lambda>e. (de_name e, e)) es))"

definition need_dir :: "'w container \<Rightarrow> string \<Rightarrow> path \<Rightarrow> 'w \<Rightarrow> unit http" where
  "need_dir ct p target w =
     (if \<not> ct_exists ct target w then Inl (HTTPException 404 (p @ '' not found''))
      else if \<not> host_is_dir (ct_host ct w) target then Inl (HTTPException 400 (p @ '' is not a directory''))
      else Inr ())"

definition list_files :: "'w container \<Rightarrow> string \<Rightarrow> int \<Rightarrow> 'w \<Rightarrow> pyval http" where
  "list_files ct p limit w =
     py_bind (resolve_within_workspace ct w p) (\<lambda>target.
     py_bind (need_dir ct p target w) (\<lambda>_.
       case ct_scandir ct target w of
         Inl _ \<Rightarrow> Inl Uncaught
       | Inr es \<Rightarrow> (case list_rows limit [] (sorted_entries es) of
           (rows, truncated) \<Rightarrow> Inr (PyDict [(''entries'', PyList rows), (''truncated'', PyBool truncated)]))))"

definition ok_body :: pyval where
  "ok_body = PyDict [(''status'', PyStr ''ok'')]"

definition parent :: "path \<Rightarrow> path" where
  "parent p = butlast p"

text \<open>The steps of a write share one handler of their errors; a payload that is no base64 is not among
  them.\<close>

definition write_error :: "env_exn \<Rightarrow> http_exn" where
  "write_error e = (case e of ENotFound m \<Rightarrow> HTTPException 404 m | EPermission m \<Rightarrow> HTTPException 403 m
     | EOther _ \<Rightarrow> Uncaught | _ \<Rightarrow> HTTPException 400 (env_exn_text e))"

definition shim_write_file :: "'w container \<Rightarrow> string \<Rightarrow> string \<Rightarrow> int option \<Rightarrow> 'w \<Rightarrow> pyval http \<times> 'w" where
  "shim_write_file ct p content_b64 mode w =
     (case resolve_within_workspace ct w p of
        Inl e \<Rightarrow> (Inl e, w)
      | Inr target \<Rightarrow>
          (case b64decode content_b64 of
             Inl _ \<Rightarrow> (Inl Uncaught, w)
           | Inr data \<Rightarrow>
               (case ct_mkdirs ct (parent target) w of
                  (Some e, w1) \<Rightarrow> (Inl (write_error e), w1)
                | (None, w1) \<Rightarrow>
                    (case ct_write ct target data w1 of
                       (Some e, w2) \<Rightarrow> (Inl (write_error e), w2)
                     | (None, w2) \<Rightarrow>
                         (case mode of
                            None \<Rightarrow> (Inr ok_body, w2)
                          | Some m \<Rightarrow>
                              (case ct_chmod ct target m w2 of
                                 (Some e, w3) \<Rightarrow> (Inl (write_error e), w3)
                               | (None, w3) \<Rightarrow> (Inr ok_body, w3)))))))"

definition delete_error :: "env_exn \<Rightarrow> http_exn" where
  "delete_error e = (case e of ENotFound m \<Rightarrow> HTTPException 404 m | EIsADirectory m \<Rightarrow> HTTPException 400 m
     | EPermission m \<Rightarrow> HTTPException 403 m | EOther _ \<Rightarrow> Uncaught | _ \<Rightarrow> HTTPException 500 (env_exn_text e))"

definition shim_delete_file :: "'w container \<Rightarrow> string \<Rightarrow> bool \<Rightarrow> 'w \<Rightarrow> pyval http \<times> 'w" where
  "shim_delete_file ct p recursive w =
     (case resolve_within_workspace ct w p of
        Inl e \<Rightarrow> (Inl e, w)
      | Inr target \<Rightarrow>
          if target = ct_root ct then (Inl (HTTPException 400 ''cannot delete workspace root''), w)
          else (case (if recursive \<and> host_is_dir (ct_host ct w) target \<and> \<not> ct_is_symlink ct target w
                      then ct_rmtree ct target w else ct_unlink ct target w) of
                  (Some e, w') \<Rightarrow> (Inl (delete_error e), w')
                | (None, w') \<Rightarrow> (Inr ok_body, w')))"

section \<open>Archives\<close>

fun zip_entries :: "'w container \<Rightarrow> path \<Rightarrow> 'w \<Rightarrow> path list \<Rightarrow> (string \<times> byte list) list http" where
  "zip_entries ct target w [] = Inr []"
| "zip_entries ct target w (p # ps) =
     (if ct_is_symlink ct p w \<or> \<not> host_is_file (ct_host ct w) p then zip_entries ct target w ps
      else case ct_read ct p w of
             Inl _ \<Rightarrow> Inl Uncaught
           | Inr data \<Rightarrow> py_bind (zip_entries ct target w ps) (\<lambda>rest.
               Inr ((py_join ''/'' (drop (length target) p), data) # rest)))"

definition shim_download_zip :: "'w container \<Rightarrow> string \<Rightarrow> 'w \<Rightarrow> http_response http" where
  "shim_download_zip ct p w =
     py_bind (resolve_within_workspace ct w p) (\<lambda>target.
     py_bind (need_dir ct p target w) (\<lambda>_.
     py_bind (zip_entries ct target w (ct_rglob ct target w)) (\<lambda>es.
       Inr \<lparr>hr_content = ct_zip ct es, hr_media_type = ''application/zip'',
            hr_headers = [(''Content-Disposition'', ''attachment; filename='' @ [DQUOTE]
              @ (if path_name target = [] then ''workspace'' else path_name target) @ ''.zip'' @ [DQUOTE])]\<rparr>)))"

text \<open>\<open>(target / filename).as_posix()\<close>: an absolute name replaces the target.\<close>

definition member_path :: "path \<Rightarrow> string \<Rightarrow> string" where
  "member_path target filename =
     (if is_absolute filename then path_str (path_parts filename) else path_str (target @ path_parts filename))"

fun resolve_all :: "'w container \<Rightarrow> 'w \<Rightarrow> string list \<Rightarrow> path list http" where
  "resolve_all ct w [] = Inr []"
| "resolve_all ct w (raw # raws) =
     py_bind (resolve_within_workspace ct w raw) (\<lambda>p. py_bind (resolve_all ct w raws) (\<lambda>ps. Inr (p # ps)))"

definition invalid_zip :: "string \<Rightarrow> http_exn" where
  "invalid_zip m = HTTPException 400 (''invalid zip: '' @ m)"

text \<open>Extracting one member: an archive whose member cannot be opened is found out before the file is, a bad checksum after
  the data is written.\<close>

definition extract_member :: "'w container \<Rightarrow> zip_member \<Rightarrow> path \<Rightarrow> 'w \<Rightarrow> unit http \<times> 'w" where
  "extract_member ct m dest w =
     (if endswith (zm_filename m) ''/''
      then (case ct_mkdirs ct dest w of (Some _, w') \<Rightarrow> (Inl Uncaught, w') | (None, w') \<Rightarrow> (Inr (), w'))
      else (case ct_mkdirs ct (parent dest) w of
              (Some _, w1) \<Rightarrow> (Inl Uncaught, w1)
            | (None, w1) \<Rightarrow>
                (case zm_open_error m of
                   Some e \<Rightarrow> (Inl (invalid_zip e), w1)
                 | None \<Rightarrow>
                     (case ct_write ct dest (zm_data m) w1 of
                        (Some _, w2) \<Rightarrow> (Inl Uncaught, w2)
                      | (None, w2) \<Rightarrow> (case zm_read_error m of Some e \<Rightarrow> (Inl (invalid_zip e), w2) | None \<Rightarrow> (Inr (), w2))))))"

fun extract_members :: "'w container \<Rightarrow> (zip_member \<times> path) list \<Rightarrow> 'w \<Rightarrow> unit http \<times> 'w" where
  "extract_members ct [] w = (Inr (), w)"
| "extract_members ct ((m, dest) # ms) w =
     (case extract_member ct m dest w of
        (Inl e, w') \<Rightarrow> (Inl e, w')
      | (Inr _, w') \<Rightarrow> extract_members ct ms w')"

definition shim_upload_zip :: "'w container \<Rightarrow> string \<Rightarrow> byte list \<Rightarrow> 'w \<Rightarrow> pyval http \<times> 'w" where
  "shim_upload_zip ct p body w =
     (case resolve_within_workspace ct w p of
        Inl e \<Rightarrow> (Inl e, w)
      | Inr target \<Rightarrow>
          (case ct_unzip ct body of
             Inl m \<Rightarrow> (Inl (invalid_zip m), w)
           | Inr members \<Rightarrow>
               (case resolve_all ct w (map (\<lambda>m. member_path target (zm_filename m)) members) of
                  Inl e \<Rightarrow> (Inl e, w)
                | Inr dests \<Rightarrow>
                    (case ct_mkdirs ct target w of
                       (Some _, w1) \<Rightarrow> (Inl Uncaught, w1)
                     | (None, w1) \<Rightarrow>
                         (case extract_members ct (zip members dests) w1 of
                            (Inl e, w2) \<Rightarrow> (Inl e, w2)
                          | (Inr _, w2) \<Rightarrow> (Inr ok_body, w2))))))"

section \<open>Processes\<close>

definition PROCESS_BUFFER_BYTES :: int where "PROCESS_BUFFER_BYTES = 200 * 1024"
definition PROCESS_MAX_SESSIONS :: int where "PROCESS_MAX_SESSIONS = 64"

text \<open>The container's process is the host's process with a buffer of its own size; its read has no exit code, and
  its kill returns one.\<close>

definition container_process :: "string \<Rightarrow> rat \<Rightarrow> int \<Rightarrow> string \<Rightarrow> proc" where
  "container_process uuid_hex now pid command = proc_init uuid_hex now pid PROCESS_BUFFER_BYTES command"

definition container_reader_loop :: "int option \<Rightarrow> rat \<Rightarrow> reader_input list \<Rightarrow> proc \<Rightarrow> proc" where
  "container_reader_loop = reader_loop"

definition container_read :: "int \<Rightarrow> int option \<Rightarrow> proc \<Rightarrow> byte list \<times> int" where
  "container_read offset limit p =
     (let buffer_start = p_total_bytes p - int (length (p_buffer p));
          slice_start = max 0 (min (max offset buffer_start - buffer_start) (int (length (p_buffer p))));
          data = (case limit of
                    None \<Rightarrow> drop (nat slice_start) (p_buffer p)
                  | Some l \<Rightarrow> slice_from (p_buffer p) slice_start (slice_start + l))
      in (data, buffer_start + slice_start + int (length data)))"

definition container_kill :: "kill_input \<Rightarrow> proc \<Rightarrow> int option \<times> proc" where
  "container_kill k p =
     (if p_exit_event p then (p_exit_code p, p)
      else if \<not> ki_has_group k then (p_exit_code p, p)
      else if \<not> ki_term_found k then (p_exit_code p, p)
      else if p_exit_event (ki_after_term k) then (p_exit_code (ki_after_term k), ki_after_term k)
      else if \<not> ki_kill_found k then (p_exit_code (ki_after_term k), ki_after_term k)
      else (p_exit_code (ki_after_kill k), ki_after_kill k))"

definition opt_int :: "int option \<Rightarrow> pyval" where
  "opt_int x = (case x of None \<Rightarrow> PyNone | Some i \<Rightarrow> PyInt i)"

definition container_status :: "'w container \<Rightarrow> 'w \<Rightarrow> proc \<Rightarrow> pyval" where
  "container_status ct w p =
     (let idle = idle_seconds (ct_clock ct w) p
      in PyDict [(''session_id'', PyStr (p_session_id p)), (''pid'', PyInt (p_pid p)), (''command'', PyStr (p_command p)),
        (''is_running'', PyBool (is_running p)), (''exit_code'', opt_int (p_exit_code p)), (''output_size'', PyInt (p_total_bytes p)),
        (''idle_seconds'', PyFloat idle (ct_show_float ct idle))])"

definition get_process :: "string \<Rightarrow> 'w shim \<Rightarrow> proc http" where
  "get_process sid s =
     (case map_of (sh_procs s) sid of
        Some p \<Rightarrow> Inr p
      | None \<Rightarrow> Inl (HTTPException 404 (''unknown session '' @ py_repr_str sid)))"

text \<open>An operating system error of the resolution is an error of the spawn, its other errors are not caught.\<close>

definition resolve_process_cwd :: "'w container \<Rightarrow> 'w \<Rightarrow> string option \<Rightarrow> path option http" where
  "resolve_process_cwd ct w raw =
     (case raw of
        None \<Rightarrow> Inr None
      | Some p \<Rightarrow>
          (case path_resolve (ct_host ct w) (if is_absolute p then path_parts p else ct_root ct @ path_parts p) of
             Inl (OSError m) \<Rightarrow> Inl (HTTPException 500 (''spawn failed: '' @ m))
           | _ \<Rightarrow> py_bind (resolve_within_workspace ct w p) (\<lambda>q. Inr (Some q))))"

definition spawn_process :: "'w container \<Rightarrow> string \<Rightarrow> string option \<Rightarrow> env_vars option \<Rightarrow> 'w shim \<Rightarrow> pyval http \<times> 'w shim" where
  "spawn_process ct command cwd env s =
     (let alive = int (length (filter (is_running \<circ> snd) (sh_procs s)))
      in if alive \<ge> PROCESS_MAX_SESSIONS
         then (Inl (HTTPException 429
                (''too many live sessions ('' @ string_of_int alive @ ''/'' @ string_of_int PROCESS_MAX_SESSIONS @ '')'')), s)
         else case resolve_process_cwd ct (sh_world s) cwd of
                Inl e \<Rightarrow> (Inl e, s)
              | Inr dir \<Rightarrow>
                  (case ct_popen ct command dir (resolve_env (ct_environ ct) env) (sh_world s) of
                     (Inl m, w') \<Rightarrow> (Inl (HTTPException 500 (''spawn failed: '' @ m)), s\<lparr>sh_world := w'\<rparr>)
                   | (Inr pid, w') \<Rightarrow>
                       (let p = container_process (ct_uuid ct (sh_world s)) (ct_clock ct (sh_world s)) pid command
                        in (Inr (PyDict [(''session_id'', PyStr (p_session_id p)), (''pid'', PyInt pid)]),
                            s\<lparr>sh_world := w', sh_procs := dict_set (sh_procs s) (p_session_id p) p\<rparr>))))"

definition list_processes :: "'w container \<Rightarrow> 'w shim \<Rightarrow> pyval" where
  "list_processes ct s = PyDict [(''sessions'', PyList (map (container_status ct (sh_world s) \<circ> snd) (sh_procs s)))]"

definition process_status :: "'w container \<Rightarrow> string \<Rightarrow> 'w shim \<Rightarrow> pyval http" where
  "process_status ct sid s = py_bind (get_process sid s) (\<lambda>p. Inr (container_status ct (sh_world s) p))"

definition process_output :: "string \<Rightarrow> int \<Rightarrow> int option \<Rightarrow> 'w shim \<Rightarrow> pyval http" where
  "process_output sid offset limit s =
     py_bind (get_process sid s) (\<lambda>p.
       case container_read offset limit p of
         (data, next_offset) \<Rightarrow>
           Inr (PyDict [(''data_b64'', PyStr (b64encode data)), (''next_offset'', PyInt next_offset), (''exit_code'', opt_int (p_exit_code p))]))"

definition newline_byte :: byte where "newline_byte = 0x0A"

definition submitted :: "bool \<Rightarrow> byte list \<Rightarrow> byte list" where
  "submitted submit payload = (if submit \<and> (payload = [] \<or> last payload \<noteq> newline_byte) then payload @ [newline_byte] else payload)"

definition process_stdin :: "'w container \<Rightarrow> string \<Rightarrow> string \<Rightarrow> bool \<Rightarrow> 'w shim \<Rightarrow> pyval http" where
  "process_stdin ct sid data_b64 submit s =
     py_bind (get_process sid s) (\<lambda>p.
       case b64decode data_b64 of
         Inl m \<Rightarrow> Inl (HTTPException 400 (''bad base64: '' @ m))
       | Inr payload \<Rightarrow>
           (case proc_write (\<lambda>d. ct_pty_write ct sid d (sh_world s)) (submitted submit payload) p of
              Inl (RuntimeError m) \<Rightarrow> Inl (HTTPException 409 m)
            | Inl _ \<Rightarrow> Inl Uncaught
            | Inr _ \<Rightarrow> Inr ok_body))"

definition process_kill :: "'w container \<Rightarrow> string \<Rightarrow> 'w shim \<Rightarrow> pyval http \<times> 'w shim" where
  "process_kill ct sid s =
     (case get_process sid s of
        Inl e \<Rightarrow> (Inl e, s)
      | Inr p \<Rightarrow>
          (case container_kill (ct_kill ct sid (sh_world s)) p of
             (code, p') \<Rightarrow>
               (Inr (PyDict [(''exit_code'', PyInt (case code of Some c \<Rightarrow> c | None \<Rightarrow> -1))]), s\<lparr>sh_procs := dict_set (sh_procs s) sid p'\<rparr>)))"

section \<open>Routing\<close>

datatype shim_request =
    RqHealthz
  | RqExec string "rat option" "string option" "env_vars option"
  | RqRead string
  | RqList string int
  | RqWrite string string "int option"
  | RqDelete string bool
  | RqDownloadZip string
  | RqUploadZip string "byte list"
  | RqSpawn string "string option" "env_vars option"
  | RqProcesses
  | RqStatus string
  | RqOutput string int "int option"
  | RqStdin string string bool
  | RqKill string

record reply =
  rp_status :: int
  rp_json :: "pyval option"
  rp_text :: string
  rp_content :: "byte list"

definition json_reply :: "'w container \<Rightarrow> int \<Rightarrow> pyval \<Rightarrow> reply" where
  "json_reply ct status v = \<lparr>rp_status = status, rp_json = Some v, rp_text = ct_render ct v, rp_content = utf8_encode (ct_render ct v)\<rparr>"

text \<open>What the framework makes of a handler's result.\<close>

definition error_reply :: "'w container \<Rightarrow> http_exn \<Rightarrow> reply" where
  "error_reply ct e = (case e of
       HTTPException status detail \<Rightarrow> json_reply ct status (PyDict [(''detail'', PyStr detail)])
     | Uncaught \<Rightarrow> \<lparr>rp_status = 500, rp_json = None, rp_text = ''Internal Server Error'', rp_content = utf8_encode ''Internal Server Error''\<rparr>)"

definition answer :: "'w container \<Rightarrow> pyval http \<Rightarrow> reply" where
  "answer ct r = (case r of Inl e \<Rightarrow> error_reply ct e | Inr v \<Rightarrow> json_reply ct 200 v)"

definition validated :: "'w container \<Rightarrow> bool \<Rightarrow> reply \<Rightarrow> reply" where
  "validated ct valid r = (if valid then r else json_reply ct 422 (PyDict [(''detail'', ct_invalid ct)]))"

definition with_world :: "'w shim \<Rightarrow> reply \<times> 'w \<Rightarrow> reply option \<times> 'w shim" where
  "with_world s rw = (case rw of (r, w) \<Rightarrow> (Some r, s\<lparr>sh_world := w\<rparr>))"

text \<open>A request may never be answered (\<open>None\<close>): a command whose pipes stay open.\<close>

fun serve :: "'w container \<Rightarrow> rat \<Rightarrow> shim_request \<Rightarrow> 'w shim \<Rightarrow> reply option \<times> 'w shim" where
  "serve ct dflt RqHealthz s = (Some (json_reply ct 200 (PyDict [(''status'', PyStr ''ok''), (''port'', PyInt RUNTIME_PORT)])), s)"
| "serve ct dflt (RqExec command timeout cwd env) s =
     (case exec_command ct dflt command timeout cwd env (sh_world s) of
        (Inl e, w) \<Rightarrow> (Some (error_reply ct e), s\<lparr>sh_world := w\<rparr>)
      | (Inr r, w) \<Rightarrow> (map_option (\<lambda>(t, body). json_reply ct 200 body) r, s\<lparr>sh_world := w\<rparr>))"
| "serve ct dflt (RqRead p) s = (Some (answer ct (shim_read_file ct p (sh_world s))), s)"
| "serve ct dflt (RqList p limit) s =
     (Some (validated ct (1 \<le> limit \<and> limit \<le> 10000) (answer ct (list_files ct p limit (sh_world s)))), s)"
| "serve ct dflt (RqWrite p b mode) s = with_world s (apfst (answer ct) (shim_write_file ct p b mode (sh_world s)))"
| "serve ct dflt (RqDelete p recursive) s = with_world s (apfst (answer ct) (shim_delete_file ct p recursive (sh_world s)))"
| "serve ct dflt (RqDownloadZip p) s =
     (Some (case shim_download_zip ct p (sh_world s) of
        Inl e \<Rightarrow> error_reply ct e
      | Inr r \<Rightarrow> \<lparr>rp_status = 200, rp_json = None, rp_text = utf8_decode (hr_content r), rp_content = hr_content r\<rparr>), s)"
| "serve ct dflt (RqUploadZip p body) s = with_world s (apfst (answer ct) (shim_upload_zip ct p body (sh_world s)))"
| "serve ct dflt (RqSpawn command cwd env) s = apfst (Some \<circ> answer ct) (spawn_process ct command cwd env s)"
| "serve ct dflt RqProcesses s = (Some (json_reply ct 200 (list_processes ct s)), s)"
| "serve ct dflt (RqStatus sid) s = (Some (answer ct (process_status ct sid s)), s)"
| "serve ct dflt (RqOutput sid offset limit) s =
     (Some (validated ct (0 \<le> offset \<and> (case limit of None \<Rightarrow> True | Some l \<Rightarrow> 0 < l)) (answer ct (process_output sid offset limit s))), s)"
| "serve ct dflt (RqStdin sid data submit) s = (Some (answer ct (process_stdin ct sid data submit s)), s)"
| "serve ct dflt (RqKill sid) s = apfst (Some \<circ> answer ct) (process_kill ct sid s)"

section \<open>Confinement\<close>

text \<open>A path that resolves to itself: no dots and no links on the way. An operation on any other path may end up
  anywhere.\<close>

definition plain_path :: "'w container \<Rightarrow> 'w \<Rightarrow> path \<Rightarrow> bool" where
  "plain_path ct w p \<longleftrightarrow> realpath (ct_host ct w) p = p"

text \<open>What the operating system documents of resolving: it is done once, it goes for every parent, and
  neither writing a file nor making directories under resolved paths puts a link on a resolved path.\<close>

definition resolves_well :: "'w container \<Rightarrow> bool" where
  "resolves_well ct \<longleftrightarrow>
     (\<forall>w p. plain_path ct w (realpath (ct_host ct w) p)) \<and>
     (\<forall>w p. plain_path ct w p \<longrightarrow> plain_path ct w (parent p)) \<and>
     (\<forall>w p q. plain_path ct w p \<and> plain_path ct w q \<longrightarrow>
        (\<forall>d. plain_path ct (snd (ct_write ct p d w)) q) \<and> plain_path ct (snd (ct_mkdirs ct p w)) q)"

text \<open>A property of the container's state that the operations of the file system keep when they are used on resolved
  paths within the workspace: changes under the root, no removal of the root itself, and the creation of the
  root's parent, which exists.\<close>

definition workspace_ops_keep :: "'w container \<Rightarrow> ('w \<Rightarrow> bool) \<Rightarrow> bool" where
  "workspace_ops_keep ct I \<longleftrightarrow>
     (\<forall>w p. I w \<and> plain_path ct w p \<and> is_relative_to p (ct_root ct) \<longrightarrow>
        (\<forall>d. I (snd (ct_write ct p d w))) \<and> I (snd (ct_mkdirs ct p w)) \<and> (\<forall>m. I (snd (ct_chmod ct p m w))) \<and>
        (p \<noteq> ct_root ct \<longrightarrow> I (snd (ct_unlink ct p w)) \<and> I (snd (ct_rmtree ct p w)))) \<and>
     (\<forall>w. I w \<and> plain_path ct w (ct_root ct) \<longrightarrow> I (snd (ct_mkdirs ct (parent (ct_root ct)) w)))"

text \<open>A path a request may touch.\<close>

definition confined :: "'w container \<Rightarrow> 'w \<Rightarrow> path \<Rightarrow> bool" where
  "confined ct w p \<longleftrightarrow> plain_path ct w p \<and> is_relative_to p (ct_root ct)"

lemma relative_parent: "is_relative_to p rt \<Longrightarrow> p \<noteq> rt \<Longrightarrow> is_relative_to (parent p) rt"
proof -
  assume r: "is_relative_to p rt" and n: "p \<noteq> rt"
  have "length rt < length p"
  proof (rule ccontr)
    assume "\<not> length rt < length p"
    then have "p = rt" using r by (simp add: is_relative_to_def)
    with n show False by simp
  qed
  then show ?thesis using r by (simp add: is_relative_to_def parent_def butlast_conv_take)
qed

lemma keep_ops:
  assumes "workspace_ops_keep ct I" "I w" "confined ct w p"
  shows "I (snd (ct_write ct p d w))" "I (snd (ct_mkdirs ct p w))" "I (snd (ct_chmod ct p m w))"
    "p \<noteq> ct_root ct \<Longrightarrow> I (snd (ct_unlink ct p w))" "p \<noteq> ct_root ct \<Longrightarrow> I (snd (ct_rmtree ct p w))"
    "resolves_well ct \<Longrightarrow> I (snd (ct_mkdirs ct (parent p) w))"
proof -
  assume rw: "resolves_well ct"
  show "I (snd (ct_mkdirs ct (parent p) w))"
  proof (cases "p = ct_root ct")
    case False
    then have "confined ct w (parent p)"
      using assms(3) rw relative_parent [of p "ct_root ct"] by (auto simp: confined_def resolves_well_def)
    then show ?thesis using assms(1,2) by (auto simp: workspace_ops_keep_def confined_def)
  qed (use assms in \<open>auto simp: workspace_ops_keep_def confined_def\<close>)
qed (use assms in \<open>auto simp: workspace_ops_keep_def confined_def\<close>)

lemma within_steps:
  assumes "resolves_well ct" and "confined ct w p" and "confined ct w q"
  shows "confined ct (snd (ct_write ct p d w)) q" "confined ct (snd (ct_mkdirs ct p w)) q" "confined ct (snd (ct_mkdirs ct (parent p) w)) q"
  using assms by (auto simp: confined_def resolves_well_def)

text \<open>The steps of a request: each keeps the property, and what was within the workspace stays within.\<close>

lemma keep_parent_step:
  "\<lbrakk>workspace_ops_keep ct I; resolves_well ct; I w; confined ct w p; ct_mkdirs ct (parent p) w = (r, w')\<rbrakk>
   \<Longrightarrow> I w' \<and> (\<forall>q. confined ct w q \<longrightarrow> confined ct w' q)"
  using keep_ops(6) within_steps(3) by (metis snd_conv)

lemma keep_write_step:
  "\<lbrakk>workspace_ops_keep ct I; resolves_well ct; I w; confined ct w p; ct_write ct p d w = (r, w')\<rbrakk>
   \<Longrightarrow> I w' \<and> (\<forall>q. confined ct w q \<longrightarrow> confined ct w' q)"
  using keep_ops(1) within_steps(1) by (metis snd_conv)

lemma keep_mkdirs_step:
  "\<lbrakk>workspace_ops_keep ct I; resolves_well ct; I w; confined ct w p; ct_mkdirs ct p w = (r, w')\<rbrakk>
   \<Longrightarrow> I w' \<and> (\<forall>q. confined ct w q \<longrightarrow> confined ct w' q)"
  using keep_ops(2) within_steps(2) by (metis snd_conv)

lemma resolve_within_inside:
  "resolve_within_workspace ct w raw = Inr p \<Longrightarrow> resolves_well ct \<Longrightarrow> confined ct w p"
  by (auto simp: resolve_within_workspace_def path_resolve_def resolves_well_def confined_def split: sum.splits if_splits option.splits)

lemma resolve_all_inside: "resolve_all ct w raws = Inr ps \<Longrightarrow> resolves_well ct \<Longrightarrow> list_all (confined ct w) ps"
  by (induction raws arbitrary: ps) (auto simp: py_bind_Inr_iff dest: resolve_within_inside)

lemma write_keeps:
  assumes k: "workspace_ops_keep ct I" and rw: "resolves_well ct" and I: "I w"
  shows "I (snd (shim_write_file ct p b mode w))"
proof (cases "resolve_within_workspace ct w p")
  case (Inr t)
  have t: "confined ct w t" using resolve_within_inside [OF Inr rw] .
  obtain r1 w1 where m: "ct_mkdirs ct (parent t) w = (r1, w1)" by fastforce
  obtain r2 w2 where wr: "ct_write ct t (case b64decode b of Inr d \<Rightarrow> d | Inl _ \<Rightarrow> []) w1 = (r2, w2)" by fastforce
  have I1: "I w1" "confined ct w1 t" using keep_parent_step [OF k rw I t m] t by blast+
  have I2: "I w2" "confined ct w2 t" using keep_write_step [OF k rw I1 wr] I1(2) by blast+
  have "I (snd (ct_chmod ct t md w2))" for md by (rule keep_ops(3) [OF k I2])
  then show ?thesis using I I1(1) I2(1) m wr Inr
    by (auto simp: shim_write_file_def split: sum.splits option.splits prod.splits) (metis snd_conv)+
qed (simp add: shim_write_file_def I)

lemma delete_keeps:
  assumes k: "workspace_ops_keep ct I" and rw: "resolves_well ct" and I: "I w"
  shows "I (snd (shim_delete_file ct p recursive w))"
proof (cases "resolve_within_workspace ct w p")
  case (Inr t)
  note del = keep_ops(4,5) [OF k I resolve_within_inside [OF Inr rw]]
  show ?thesis using I Inr del
    by (cases "ct_rmtree ct t w"; cases "ct_unlink ct t w") (auto simp: shim_delete_file_def split: option.splits)
qed (simp add: shim_delete_file_def I)

lemma extract_keeps:
  assumes k: "workspace_ops_keep ct I" and rw: "resolves_well ct" and I: "I w" and d: "confined ct w dest"
  shows "I (snd (extract_member ct m dest w)) \<and> (\<forall>q. confined ct w q \<longrightarrow> confined ct (snd (extract_member ct m dest w)) q)"
proof -
  obtain r0 w0 where m0: "ct_mkdirs ct dest w = (r0, w0)" by fastforce
  obtain r1 w1 where m1: "ct_mkdirs ct (parent dest) w = (r1, w1)" by fastforce
  obtain r2 w2 where wr: "ct_write ct dest (zm_data m) w1 = (r2, w2)" by fastforce
  have "I w0 \<and> (\<forall>q. confined ct w q \<longrightarrow> confined ct w0 q)" by (rule keep_mkdirs_step [OF k rw I d m0])
  moreover have I1: "I w1 \<and> (\<forall>q. confined ct w q \<longrightarrow> confined ct w1 q)" by (rule keep_parent_step [OF k rw I d m1])
  moreover have "I w2 \<and> (\<forall>q. confined ct w1 q \<longrightarrow> confined ct w2 q)" using I1 d by (intro keep_write_step [OF k rw _ _ wr]) auto
  ultimately show ?thesis using m0 m1 wr by (simp add: extract_member_def split: option.splits)
qed

lemma extract_all_keeps:
  assumes k: "workspace_ops_keep ct I" and rw: "resolves_well ct"
  shows "I w \<Longrightarrow> list_all (confined ct w) (map snd mds) \<Longrightarrow> I (snd (extract_members ct mds w))"
proof (induction mds arbitrary: w)
  case (Cons md mds)
  obtain m dest where md: "md = (m, dest)" by (cases md)
  obtain r w' where e: "extract_member ct m dest w = (r, w')" by fastforce
  have I': "I w'" "list_all (confined ct w') (map snd mds)"
    using extract_keeps [OF k rw Cons.prems(1), of dest m] Cons.prems(2) md e by (auto simp: list_all_iff)
  have rest: "I (snd (extract_members ct mds w'))" using I' by (rule Cons.IH)
  show ?case
  proof (cases r)
    case (Inl x)
    then have "extract_members ct (md # mds) w = (Inl x, w')" by (simp add: md e)
    then show ?thesis using I' by simp
  next
    case (Inr u)
    then have "extract_members ct (md # mds) w = extract_members ct mds w'" by (simp add: md e)
    then show ?thesis using rest by simp
  qed
qed simp

lemma upload_keeps:
  assumes k: "workspace_ops_keep ct I" and rw: "resolves_well ct" and I: "I w"
  shows "I (snd (shim_upload_zip ct p body w))"
proof (cases "resolve_within_workspace ct w p")
  case (Inr t)
  note t = resolve_within_inside [OF Inr rw]
  show ?thesis
  proof (cases "ct_unzip ct body")
    case (Inr ms)
    note unz = this
    show ?thesis
    proof (cases "resolve_all ct w (map (\<lambda>m. member_path t (zm_filename m)) ms)")
      case (Inr dests)
      obtain r1 w1 where m: "ct_mkdirs ct t w = (r1, w1)" by fastforce
      have I1: "I w1" "\<forall>q. confined ct w q \<longrightarrow> confined ct w1 q" using keep_mkdirs_step [OF k rw I t m] by blast+
      have "list_all (confined ct w1) (map snd (zip ms dests))"
        using resolve_all_inside [OF Inr rw] I1(2) by (auto simp: list_all_iff dest: set_zip_rightD)
      from extract_all_keeps [OF k rw I1(1) this]
      have "I (snd (extract_members ct (zip ms dests) w1))" .
      moreover have "snd (shim_upload_zip ct p body w) \<in> {w1, snd (extract_members ct (zip ms dests) w1)}"
        by (cases r1; cases "extract_members ct (zip ms dests) w1"; cases "fst (extract_members ct (zip ms dests) w1)")
          (simp_all add: shim_upload_zip_def \<open>resolve_within_workspace ct w p = Inr t\<close> unz Inr m)
      ultimately show ?thesis using I1(1) by auto
    qed (use \<open>resolve_within_workspace ct w p = Inr t\<close> unz I in \<open>simp add: shim_upload_zip_def\<close>)
  qed (use \<open>resolve_within_workspace ct w p = Inr t\<close> I in \<open>simp add: shim_upload_zip_def\<close>)
qed (simp add: shim_upload_zip_def I)

fun file_request :: "shim_request \<Rightarrow> bool" where
  "file_request (RqRead _) = True"
| "file_request (RqList _ _) = True"
| "file_request (RqWrite _ _ _) = True"
| "file_request (RqDelete _ _) = True"
| "file_request (RqDownloadZip _) = True"
| "file_request (RqUploadZip _ _) = True"
| "file_request _ = False"

lemma with_world_snd [simp]: "sh_world (snd (with_world s (apfst f rw))) = snd rw"
  by (cases rw) (simp add: with_world_def)

text \<open>C32: No file request reaches outside the workspace: whatever its path, its payload or the members of its archive, and
  whatever dots or links they go through, a property of the container that survives changes at resolved paths
  below the workspace root, other than the removal of the root, survives the request. Of operations on
  paths that are not resolved nothing is assumed.\<close>

theorem file_requests_stay_in_the_workspace:
  assumes "resolves_well ct" and "workspace_ops_keep ct I" and "file_request rq" and "I (sh_world s)"
  shows "I (sh_world (snd (serve ct dflt rq s)))"
  using assms by (cases rq) (simp_all add: write_keeps delete_keeps upload_keeps)

text \<open>A container for examples: a file system of files only, with the workspace beside other files.\<close>

definition no_kill :: kill_input where
  "no_kill = \<lparr>ki_has_group = False, ki_term_found = False, ki_after_term = proc_init [] 0 0 0 [], ki_kill_found = False,
     ki_after_kill = proc_init [] 0 0 0 []\<rparr>"

definition demo_container :: "(path \<times> byte list) list container" where
  "demo_container =
     \<lparr>ct_environ = (\<lambda>_. None), ct_host = (\<lambda>_. linkless), ct_root = [''workspace''], ct_exists = (\<lambda>p w. map_of w p \<noteq> None),
      ct_is_symlink = (\<lambda>_ _. False), ct_scandir = (\<lambda>_ _. Inr []), ct_rglob = (\<lambda>_ _. []),
      ct_read = (\<lambda>p w. case map_of w p of None \<Rightarrow> Inl (ENotFound (path_str p)) | Some d \<Rightarrow> Inr d),
      ct_write = (\<lambda>p d w. (None, (p, d) # w)), ct_mkdirs = (\<lambda>_ w. (None, w)), ct_chmod = (\<lambda>_ _ w. (None, w)),
      ct_unlink = (\<lambda>p w. (None, filter (\<lambda>(q, _). q \<noteq> p) w)), ct_rmtree = (\<lambda>p w. (None, filter (\<lambda>(q, _). \<not> is_relative_to q p) w)),
      ct_zip = (\<lambda>_. []), ct_unzip = (\<lambda>_. Inr []), ct_clock = (\<lambda>_. 0), ct_uuid = (\<lambda>_. ''0123456789abcdef''),
      ct_exec = (\<lambda>_ _ _ w. (None, w)), ct_popen = (\<lambda>_ _ _ w. (Inr 7, w)), ct_pty_write = (\<lambda>_ d _. Inr (length d)),
      ct_kill = (\<lambda>_ _. no_kill), ct_show_float = (\<lambda>_. ''0.0''), ct_render = py_repr, ct_invalid = PyNone\<rparr>"

text \<open>The same with a link \<open>/workspace/out\<close> to \<open>/etc\<close>, and with dots that are followed.\<close>

definition walk :: "path \<Rightarrow> string \<Rightarrow> path" where
  "walk at_path c = (if c = ''..'' then butlast at_path else if at_path @ [c] = [''workspace'', ''out''] then [''etc''] else at_path @ [c])"

definition follow :: "path \<Rightarrow> path" where
  "follow p = foldl walk [] p"

definition linked_container :: "(path \<times> byte list) list container" where
  "linked_container = demo_container\<lparr>ct_host := (\<lambda>_. linkless\<lparr>realpath := follow\<rparr>),
     ct_write := (\<lambda>p d w. (None, (follow p, d) # w)), ct_unlink := (\<lambda>p w. (None, filter (\<lambda>(q, _). q \<noteq> follow p) w)),
     ct_rmtree := (\<lambda>p w. (None, filter (\<lambda>(q, _). \<not> is_relative_to q (follow p)) w))\<rparr>"

definition clean :: "path \<Rightarrow> bool" where
  "clean p \<longleftrightarrow> ''..'' \<notin> set p \<and> take 2 p \<noteq> [''workspace'', ''out'']"

lemma clean_walk: "clean p \<Longrightarrow> clean (walk p c)"
  by (cases p rule: rev_cases) (auto simp: walk_def clean_def take_Cons' split: if_splits)

lemma clean_follow: "clean (follow p)"
proof -
  have "clean (foldl walk at_path p)" if "clean at_path" for at_path
    using that by (induction p arbitrary: at_path) (simp_all add: clean_walk)
  then show ?thesis by (simp add: follow_def clean_def)
qed

lemma clean_butlast: "clean (p @ [c]) \<Longrightarrow> clean p \<and> c \<noteq> ''..'' \<and> p @ [c] \<noteq> [''workspace'', ''out'']"
  by (auto simp: clean_def take_Cons' split: if_splits)

lemma follow_clean: "clean p \<Longrightarrow> follow p = p"
proof (induction p rule: rev_induct)
  case (snoc c p)
  then show ?case using clean_butlast [OF snoc.prems] by (simp add: follow_def walk_def)
qed (simp add: follow_def)

lemma follow_fixed: "follow p = p \<longleftrightarrow> clean p"
  using clean_follow [of p] follow_clean by metis

lemma linked_resolves_well: "resolves_well linked_container"
proof -
  have "clean (parent p)" if "clean p" for p
    using that clean_butlast [of "butlast p" "last p"] by (cases "p = []") (auto simp: parent_def)
  then show ?thesis using clean_follow
    by (simp add: resolves_well_def plain_path_def linked_container_def follow_fixed demo_container_def)
qed

definition secret_kept :: "(path \<times> byte list) list \<Rightarrow> bool" where
  "secret_kept w \<longleftrightarrow> map_of w [''etc'', ''shadow''] = Some [1]"

lemma map_of_filtered: "P k \<Longrightarrow> map_of (filter (\<lambda>(q, d). P q) w) k = map_of w k"
  by (induction w) auto

lemma linked_ops_keep: "workspace_ops_keep linked_container secret_kept"
proof -
  have "\<not> is_relative_to [''etc'', ''shadow''] p" "[''etc'', ''shadow''] \<noteq> p" if "is_relative_to p [''workspace'']" for p
    using that by (cases p; simp add: is_relative_to_def)+
  then show ?thesis
    by (auto simp: workspace_ops_keep_def linked_container_def demo_container_def secret_kept_def plain_path_def
        map_of_filtered [where P = "\<lambda>q. q \<noteq> p" for p] map_of_filtered [where P = "\<lambda>q. \<not> is_relative_to q p" for p])
qed

theorem file_requests_stay_in_the_workspace_witness:
  "let s = \<lparr>sh_world = [([''etc'', ''shadow''], [1])], sh_procs = []\<rparr>
   in secret_kept (sh_world (snd (serve linked_container 600 (RqWrite ''../etc/shadow'' ''AA=='' None) s))) \<and>
     secret_kept (sh_world (snd (serve linked_container 600 (RqDelete ''out/shadow'' False) s)))"
proof -
  have s: "secret_kept (sh_world \<lparr>sh_world = [([''etc'', ''shadow''], [1])], sh_procs = []\<rparr>)" by (simp add: secret_kept_def)
  show ?thesis unfolding Let_def
    by (intro conjI file_requests_stay_in_the_workspace [OF linked_resolves_well linked_ops_keep _ s]) simp_all
qed

text \<open>The same operations outside the guard would reach the secret.\<close>

lemma unresolved_paths_escape:
  "\<not> secret_kept (snd (ct_write linked_container [''workspace'', ''..'', ''etc'', ''shadow''] [0] [([''etc'', ''shadow''], [1])]))"
  "\<not> secret_kept (snd (ct_unlink linked_container [''workspace'', ''out'', ''shadow''] [([''etc'', ''shadow''], [1])]))"
  by (simp_all add: linked_container_def secret_kept_def follow_def walk_def)

text \<open>An archive with a member that leaves the workspace is refused before anything is written.\<close>

lemma resolve_all_refuses:
  "raw \<in> set raws \<Longrightarrow> resolve_within_workspace ct w raw = Inl e \<Longrightarrow> \<exists>e'. resolve_all ct w raws = Inl e'"
proof (induction raws)
  case (Cons x xs)
  then show ?case by (cases "resolve_within_workspace ct w x"; cases "resolve_all ct w xs") auto
qed simp

lemma escaping_archive_writes_nothing:
  assumes "resolve_within_workspace ct w p = Inr target" and "ct_unzip ct body = Inr members" and "m \<in> set members"
    and "resolve_within_workspace ct w (member_path target (zm_filename m)) = Inl e"
  shows "\<exists>e'. shim_upload_zip ct p body w = (Inl e', w)"
proof -
  have "member_path target (zm_filename m) \<in> set (map (\<lambda>m. member_path target (zm_filename m)) members)" using assms(3) by simp
  from resolve_all_refuses [OF this assms(4)] show ?thesis using assms(1,2) by (auto simp: shim_upload_zip_def)
qed

text \<open>Deleting a symbolic link deletes the file it points to, and the link stays: the path is resolved first.\<close>

lemma deleting_a_link_deletes_its_target:
  assumes "resolve_within_workspace ct w link = Inr target" and "target \<noteq> ct_root ct" and "\<not> recursive"
  shows "snd (shim_delete_file ct link recursive w) = snd (ct_unlink ct target w)"
  using assms by (cases "ct_unlink ct target w") (auto simp: shim_delete_file_def split: option.splits)

text \<open>The timeout of a command does not bound the request: a child that the shell leaves behind with its output open
  keeps it waiting.\<close>

lemma left_behind_child_outlasts_the_timeout:
  assumes "er_exit_at r = Some t" and "t \<le> timeout" and "er_closed_at r = Some u" and "u > timeout"
  shows "\<exists>x. run_exec timeout r = Some (u, x) \<and> \<not> xr_timed_out x"
  using assms by (simp add: run_exec_def)

section \<open>Live sessions\<close>

text \<open>What happens to the server: it serves a request, or the reader thread of a running process goes through some rounds.\<close>

datatype shim_event = Served shim_request | Drained string "int option" rat "reader_input list"

definition shim_step :: "'w container \<Rightarrow> rat \<Rightarrow> shim_event \<Rightarrow> 'w shim \<Rightarrow> 'w shim" where
  "shim_step ct dflt ev s = (case ev of
       Served rq \<Rightarrow> snd (serve ct dflt rq s)
     | Drained sid rc now is \<Rightarrow>
         (case map_of (sh_procs s) sid of
            Some p \<Rightarrow> if is_running p then s\<lparr>sh_procs := dict_set (sh_procs s) sid (container_reader_loop rc now is p)\<rparr> else s
          | None \<Rightarrow> s))"

definition live_count :: "(string \<times> proc) list \<Rightarrow> nat" where
  "live_count ps = length (filter (is_running \<circ> snd) ps)"

lemma live_set_new: "live_count (dict_set ps sid p) \<le> live_count ps + 1"
  by (induction ps) (auto simp: live_count_def)

lemma live_set_old: "map_of ps sid = Some q \<Longrightarrow> is_running q \<Longrightarrow> live_count (dict_set ps sid p) \<le> live_count ps"
  by (induction ps) (auto simp: live_count_def)

lemma live_kill: "map_of ps sid = Some q \<Longrightarrow> live_count (dict_set ps sid (snd (container_kill k q))) \<le> live_count ps"
proof (cases "is_running q")
  case False
  assume m: "map_of ps sid = Some q"
  have "snd (container_kill k q) = q" using False by (simp add: container_kill_def is_running_def)
  moreover have "dict_set ps sid q = ps" using m by (induction ps) auto
  ultimately show ?thesis by simp
qed (simp add: live_set_old)

lemma live_spawn: "live_count (sh_procs s) \<le> 64 \<Longrightarrow> live_count (sh_procs (snd (spawn_process ct c cwd env s))) \<le> 64"
proof -
  assume a: "live_count (sh_procs s) \<le> 64"
  show ?thesis
  proof (cases "int (live_count (sh_procs s)) \<ge> PROCESS_MAX_SESSIONS")
    case True
    then show ?thesis using a by (simp add: spawn_process_def live_count_def)
  next
    case False
    then have "live_count (dict_set (sh_procs s) sid p) \<le> 64" for sid p
      using live_set_new [of "sh_procs s" sid p] by (simp add: PROCESS_MAX_SESSIONS_def)
    then show ?thesis using a
      by (auto simp: spawn_process_def Let_def live_count_def split: sum.splits prod.splits)
  qed
qed

lemma live_serve: "live_count (sh_procs s) \<le> 64 \<Longrightarrow> live_count (sh_procs (snd (serve ct dflt rq s))) \<le> 64"
proof (cases rq)
  case (RqSpawn c cwd env)
  assume "live_count (sh_procs s) \<le> 64"
  then show ?thesis using RqSpawn live_spawn by simp
next
  case (RqKill sid)
  assume a: "live_count (sh_procs s) \<le> 64"
  show ?thesis
  proof (cases "map_of (sh_procs s) sid")
    case (Some p)
    obtain code p' where k: "container_kill (ct_kill ct sid (sh_world s)) p = (code, p')" by fastforce
    show ?thesis using a RqKill Some k live_kill [OF Some, of "ct_kill ct sid (sh_world s)"]
      by (simp add: process_kill_def get_process_def)
  qed (use a RqKill in \<open>simp add: process_kill_def get_process_def\<close>)
next
  case (RqExec c t cwd env)
  assume "live_count (sh_procs s) \<le> 64"
  then show ?thesis using RqExec by (cases "exec_command ct dflt c t cwd env (sh_world s)") (auto split: sum.splits)
qed (auto simp: with_world_def split: prod.splits)

text \<open>C33: However requests and the ends of processes interleave, a container never has more than 64 live
  sessions.\<close>

theorem live_sessions_are_bounded:
  "length (filter (is_running \<circ> snd) (sh_procs (fold (shim_step ct dflt) evs \<lparr>sh_world = w, sh_procs = []\<rparr>))) \<le> 64"
proof -
  have "live_count (sh_procs s) \<le> 64 \<Longrightarrow> live_count (sh_procs (fold (shim_step ct dflt) evs s)) \<le> 64" for s
  proof (induction evs arbitrary: s)
    case (Cons ev evs)
    have "live_count (sh_procs (shim_step ct dflt ev s)) \<le> 64"
    proof (cases ev)
      case (Drained sid rc now "is")
      then show ?thesis using Cons.prems live_set_old [of "sh_procs s" sid] 
        by (auto simp: shim_step_def split: option.splits intro: order_trans)
    qed (use Cons.prems live_serve in \<open>simp add: shim_step_def\<close>)
    then show ?case using Cons.IH by simp
  qed simp
  then show ?thesis by (simp add: live_count_def)
qed

end
