(* ===== verification/Polling.thy ===== *)
theory Polling
  imports Py_Prelude
begin

text \<open>
  Loops that poll until something happens or a deadline passes. Time is a rational beside the state
  of the world; a sleep takes at least as long as it is asked to, a call takes some time, and the world
  goes on meanwhile. A loop may run forever, so it is a partial function; the locale \<open>deadline_poll\<close> shows once that a
  loop whose rounds give up after a deadline returns, and within how many rounds.
\<close>

section \<open>Time\<close>

record 'n timing =
  tm_late :: "'n \<Rightarrow> rat"
  tm_busy :: "'n \<Rightarrow> rat"
  tm_progress :: "'n \<Rightarrow> 'n"

text \<open>The state of a polling loop: the time, what the loop keeps, and the world.\<close>

type_synonym ('l, 'n) timed = "rat \<times> 'l \<times> 'n"

definition sleep :: "'n timing \<Rightarrow> rat \<Rightarrow> ('l, 'n) timed \<Rightarrow> ('l, 'n) timed" where
  "sleep tm d s = (case s of (t, l, n) \<Rightarrow> (t + d + max 0 (tm_late tm n), l, tm_progress tm n))"

definition timed_call :: "'n timing \<Rightarrow> ('l \<times> 'n \<Rightarrow> 'r \<times> 'l \<times> 'n) \<Rightarrow> ('l, 'n) timed \<Rightarrow> 'r \<times> ('l, 'n) timed" where
  "timed_call tm f s = (case s of (t, l, n) \<Rightarrow> (case f (l, n) of (r, l', n') \<Rightarrow> (r, t + max 0 (tm_busy tm n), l', n')))"

lemma sleep_advances: "fst s + d \<le> fst (sleep tm d s)"
  by (simp add: sleep_def split: prod.splits)

lemma timed_call_advances: "timed_call tm f s = (r, s') \<Longrightarrow> fst s \<le> fst s'"
  by (auto simp: timed_call_def split: prod.splits)

section \<open>Loops\<close>

text \<open>A round either answers or asks for a sleep, which may depend on the state.\<close>

partial_function (option) poll_loop :: "('s \<Rightarrow> 'r option \<times> 's) \<Rightarrow> ('s \<Rightarrow> 's) \<Rightarrow> 's \<Rightarrow> ('r \<times> 's) option" where
  "poll_loop turn nap s =
     (case turn s of
        (Some r, s') \<Rightarrow> Some (r, s')
      | (None, s') \<Rightarrow> poll_loop turn nap (nap s'))"

fun poll_rounds :: "nat \<Rightarrow> ('s \<Rightarrow> 'r option \<times> 's) \<Rightarrow> ('s \<Rightarrow> 's) \<Rightarrow> 's \<Rightarrow> ('r \<times> 's) option" where
  "poll_rounds 0 turn nap s = None"
| "poll_rounds (Suc n) turn nap s =
     (case turn s of
        (Some r, s') \<Rightarrow> Some (r, s')
      | (None, s') \<Rightarrow> poll_rounds n turn nap (nap s'))"

lemma poll_rounds_loop: "poll_rounds n turn nap s = Some x \<Longrightarrow> poll_loop turn nap s = Some x"
proof (induction n arbitrary: s)
  case (Suc n)
  then show ?case by (subst poll_loop.simps) (auto split: prod.splits option.splits)
qed simp

lemma poll_loop_last:
  assumes "poll_loop turn nap s = Some (r, s')"
  shows "\<exists>s0. turn s0 = (Some r, s')"
proof -
  have "\<exists>s0. turn s0 = (Some (fst x), snd x)" if "poll_loop turn nap s = Some x" for x
  proof (rule poll_loop.raw_induct [where P = "\<lambda>turn nap s x. \<exists>s0. turn s0 = (Some (fst x), snd x)", OF _ that])
    fix loop :: "('b \<Rightarrow> 'a option \<times> 'b) \<Rightarrow> ('b \<Rightarrow> 'b) \<Rightarrow> 'b \<Rightarrow> ('a \<times> 'b) option" and turn nap s x
    assume ih: "\<And>turn nap s x. loop turn nap s = Some x \<Longrightarrow> \<exists>s0. turn s0 = (Some (fst x), snd x)"
      and step: "(case turn s of (None, s') \<Rightarrow> loop turn nap (nap s') | (Some r, s') \<Rightarrow> Some (r, s')) = Some x"
    obtain a s1 where t: "turn s = (a, s1)" by (rule prod.exhaust)
    show "\<exists>s0. turn s0 = (Some (fst x), snd x)"
    proof (cases a)
      case None
      then show ?thesis using ih [of turn nap "nap s1" x] step t by simp
    next
      case (Some r')
      then show ?thesis using step t by (intro exI [of _ s]) auto
    qed
  qed
  from this [OF assms] show ?thesis by simp
qed

definition rounds_before :: "rat \<Rightarrow> rat \<Rightarrow> nat" where
  "rounds_before remaining step = Suc (nat \<lceil>remaining / step\<rceil>)"

lemma rounds_before_less:
  assumes "0 < step" and "remaining' \<le> remaining - step" and "0 < remaining"
  shows "rounds_before remaining' step < rounds_before remaining step"
proof -
  have "remaining' / step \<le> (remaining - step) / step" by (rule divide_right_mono) (use assms in auto)
  also have "\<dots> = remaining / step - 1" using assms(1) by (simp add: diff_divide_distrib)
  finally have "\<lceil>remaining' / step\<rceil> \<le> \<lceil>remaining / step\<rceil> - 1" by (metis ceiling_diff_one ceiling_mono)
  moreover have "0 < \<lceil>remaining / step\<rceil>" using assms by simp
  ultimately show ?thesis by (simp add: rounds_before_def)
qed

locale deadline_poll =
  fixes inv :: "'s \<Rightarrow> bool" and turn :: "'s \<Rightarrow> 'r option \<times> 's" and nap :: "'s \<Rightarrow> 's" and clock :: "'s \<Rightarrow> rat" and deadline step :: rat
  assumes step_pos: "0 < step"
    and turn_inv: "inv s \<Longrightarrow> inv (snd (turn s))"
    and nap_inv: "inv s \<Longrightarrow> inv (nap s)"
    and turn_forward: "inv s \<Longrightarrow> clock s \<le> clock (snd (turn s))"
    and nap_forward: "inv s \<Longrightarrow> clock s + step \<le> clock (nap s)"
    and gives_up: "inv s \<Longrightarrow> fst (turn s) = None \<Longrightarrow> clock (snd (turn s)) < deadline"
begin

lemma rounds_return:
  "inv s \<Longrightarrow> rounds_before (deadline - clock s) step \<le> n \<Longrightarrow> \<exists>x. poll_rounds n turn nap s = Some x"
proof (induction n arbitrary: s)
  case 0
  then show ?case by (simp add: rounds_before_def)
next
  case (Suc n)
  obtain a s' where r: "turn s = (a, s')" by fastforce
  have i: "inv s'" using turn_inv [OF Suc.prems(1)] r by simp
  show ?case
  proof (cases a)
    case None
    have "clock s' < deadline" using gives_up [OF Suc.prems(1)] r None by simp
    moreover have "clock s \<le> clock s'" "clock s' + step \<le> clock (nap s')"
      using turn_forward [OF Suc.prems(1)] r nap_forward [OF i] by simp_all
    ultimately have "rounds_before (deadline - clock (nap s')) step < rounds_before (deadline - clock s) step"
      by (intro rounds_before_less step_pos) simp_all
    then have "\<exists>x. poll_rounds n turn nap (nap s') = Some x" using Suc.prems by (intro Suc.IH nap_inv i) simp
    then show ?thesis using r None by simp
  qed (use r in simp)
qed

lemma loop_returns_within:
  "inv s \<Longrightarrow> \<exists>x. poll_rounds (rounds_before (deadline - clock s) step) turn nap s = Some x \<and> poll_loop turn nap s = Some x"
proof -
  assume "inv s"
  from rounds_return [OF this order_refl] obtain x
    where x: "poll_rounds (rounds_before (deadline - clock s) step) turn nap s = Some x" by (elim exE)
  then have "poll_loop turn nap s = Some x" by (rule poll_rounds_loop)
  with x show ?thesis by (intro exI conjI)
qed

end

end
