(* ===== verification/Sandbox_Env.thy ===== *)
theory Sandbox_Env
  imports Sandbox_Runtime Polling
begin

text \<open>
  The environment of a user inside a sandbox, seen from the agent: the client of the container's
  server (\<open>environment/sandbox.py\<close>) and its handle on a background process
  (\<open>environment/sandbox_process.py\<close>). The network is the argument \<open>send\<close>: given the headers, a time limit and a
  request it answers, or fails with the name and the text of an error, and goes on to a state of its own.
  The direct network, on which the server of \<open>Sandbox_Runtime\<close> answers, joins the two
  components: through it the client sees the files, the errors and the output of the container.
\<close>

section \<open>The client\<close>

record headers =
  hd_authorization :: string
  hd_routing_token :: string
  hd_port :: string

type_synonym 'n send = "headers \<Rightarrow> rat \<Rightarrow> shim_request \<Rightarrow> 'n \<Rightarrow> ((string \<times> string) + reply) \<times> 'n"

record client =
  sc_name :: string
  sc_owner :: string
  sc_internet_access :: bool
  sc_root :: path
  sc_closed :: bool
  sc_initialized :: bool
  sc_last_probe_error :: string
  sc_routing_interval :: rat
  sc_gone :: bool
  sc_headers :: headers
  sc_routing_refreshed_at :: rat

definition client_init ::
  "string \<Rightarrow> string \<Rightarrow> string \<Rightarrow> string \<Rightarrow> string \<Rightarrow> path \<Rightarrow> rat \<Rightarrow> bool \<Rightarrow> rat \<Rightarrow> client" where
  "client_init name routing_token sandbox_token owner port root0 interval internet now =
     \<lparr>sc_name = name, sc_owner = owner, sc_internet_access = internet, sc_root = root0, sc_closed = False, sc_initialized = False,
      sc_last_probe_error = [], sc_routing_interval = interval, sc_gone = False,
      sc_headers = \<lparr>hd_authorization = ''Bearer '' @ sandbox_token, hd_routing_token = routing_token, hd_port = port\<rparr>,
      sc_routing_refreshed_at = now\<rparr>"

definition note_response :: "reply \<Rightarrow> client \<Rightarrow> client" where
  "note_response r c =
     (if \<not> sc_initialized c then c
      else if rp_status r \<in> set [502, 503, 504] then c\<lparr>sc_gone := True\<rparr> else c)"

text \<open>Every answer passes the hook.\<close>

definition call_shim :: "'n send \<Rightarrow> rat \<Rightarrow> shim_request \<Rightarrow> client \<times> 'n \<Rightarrow> ((string \<times> string) + reply) \<times> client \<times> 'n" where
  "call_shim send limit rq cn =
     (case send (sc_headers (fst cn)) limit rq (snd cn) of
        (Inl e, n) \<Rightarrow> (Inl e, fst cn, n)
      | (Inr r, n) \<Rightarrow> (Inr r, note_response r (fst cn), n))"

definition cache_identity :: "client \<Rightarrow> string" where
  "cache_identity c = (if sc_name c = [] then sc_owner c else sc_name c)"

section \<open>Becoming ready\<close>

definition HEALTHZ_TIMEOUT_SEC :: rat where "HEALTHZ_TIMEOUT_SEC = 180"
definition POLL_INTERVAL_SEC :: rat where "POLL_INTERVAL_SEC = 3"

definition probe_healthz :: "'n send \<Rightarrow> client \<times> 'n \<Rightarrow> bool \<times> client \<times> 'n" where
  "probe_healthz send cn =
     (case call_shim send 10 RqHealthz cn of
        (Inl (name, m), c, n) \<Rightarrow> (False, c\<lparr>sc_last_probe_error := name @ '': '' @ m\<rparr>, n)
      | (Inr r, c, n) \<Rightarrow>
          if rp_status r \<noteq> 200
          then (False, c\<lparr>sc_last_probe_error := ''HTTP '' @ string_of_int (rp_status r) @ '': '' @ take 200 (rp_text r)\<rparr>, n)
          else (True, c, n))"

definition never_ready :: "string \<Rightarrow> rat \<Rightarrow> client \<Rightarrow> string" where
  "never_ready label deadline_sec c =
     ''sandbox '' @ label @ '' never became ready within '' @ string_of_int \<lfloor>deadline_sec + 1 / 2\<rfloor> @ ''s (sandbox='' @ sc_name c @ '')''
     @ (if sc_last_probe_error c = [] then [] else '' last_error='' @ py_repr_str (sc_last_probe_error c))"

text \<open>One round of \<open>_wait_for\<close>: the probe, then the look at the clock.\<close>

definition ready_round ::
  "'n send \<Rightarrow> 'n timing \<Rightarrow> string \<Rightarrow> rat \<Rightarrow> rat \<Rightarrow> (client, 'n) timed \<Rightarrow> (env_exn + unit) option \<times> (client, 'n) timed" where
  "ready_round send tm label deadline_sec deadline s =
     (case timed_call tm (probe_healthz send) s of
        (True, s') \<Rightarrow> (Some (Inr ()), s')
      | (False, s') \<Rightarrow>
          if fst s' \<ge> deadline then (Some (Inl (EOSError (never_ready label deadline_sec (fst (snd s'))))), s')
          else (None, s'))"

definition wait_ready ::
  "'n send \<Rightarrow> 'n timing \<Rightarrow> string \<Rightarrow> rat \<Rightarrow> (client, 'n) timed \<Rightarrow> ((env_exn + unit) \<times> (client, 'n) timed) option" where
  "wait_ready send tm label deadline_sec s =
     (case s of (t, c, n) \<Rightarrow>
        poll_loop (ready_round send tm label deadline_sec (t + deadline_sec)) (sleep tm POLL_INTERVAL_SEC)
          (t, c\<lparr>sc_last_probe_error := []\<rparr>, n))"

definition initialize ::
  "'n send \<Rightarrow> 'n timing \<Rightarrow> (client, 'n) timed \<Rightarrow> ((env_exn + unit) \<times> (client, 'n) timed) option" where
  "initialize send tm s =
     (if sc_initialized (fst (snd s)) then Some (Inr (), s)
      else map_option (\<lambda>(r, t, c, n). case r of Inl e \<Rightarrow> (Inl e, t, c, n) | Inr _ \<Rightarrow> (Inr (), t, c\<lparr>sc_initialized := True\<rparr>, n))
             (wait_ready send tm ''/healthz'' HEALTHZ_TIMEOUT_SEC s))"

section \<open>Credentials\<close>

text \<open>What an injected closure answers: a token, that the sandbox is gone, or any other error.\<close>

datatype minted = Minted string | BackendGone | MintFailed

definition apply_sandbox_token :: "string \<Rightarrow> client \<Rightarrow> client" where
  "apply_sandbox_token tok c = c\<lparr>sc_headers := (sc_headers c)\<lparr>hd_authorization := ''Bearer '' @ tok\<rparr>\<rparr>"

definition refresh_routing_token :: "string \<Rightarrow> rat \<Rightarrow> client \<Rightarrow> client" where
  "refresh_routing_token tok now c =
     c\<lparr>sc_headers := (sc_headers c)\<lparr>hd_routing_token := tok\<rparr>, sc_routing_refreshed_at := now\<rparr>"

definition routing_token_age_seconds :: "rat \<Rightarrow> client \<Rightarrow> rat" where
  "routing_token_age_seconds now c = now - sc_routing_refreshed_at c"

definition refresh_auth ::
  "('n \<Rightarrow> minted \<times> 'n) option \<Rightarrow> ('n \<Rightarrow> minted \<times> 'n) option \<Rightarrow> rat \<Rightarrow> client \<times> 'n \<Rightarrow> bool \<times> client \<times> 'n" where
  "refresh_auth minter fetcher now cn =
     (case cn of (c, n) \<Rightarrow>
        if sc_gone c then (False, c, n)
        else case minter of
               None \<Rightarrow> (True, c, n)
             | Some mint \<Rightarrow>
                 (case mint n of
                    (BackendGone, n') \<Rightarrow> (False, c, n')
                  | (MintFailed, n') \<Rightarrow> (True, c, n')
                  | (Minted tok, n') \<Rightarrow>
                      (let c' = apply_sandbox_token tok c
                       in if routing_token_age_seconds now c' < sc_routing_interval c' then (True, c', n')
                          else case fetcher of
                                 None \<Rightarrow> (True, c', n')
                               | Some fetch \<Rightarrow>
                                   (case fetch n' of
                                      (BackendGone, n'') \<Rightarrow> (False, c', n'')
                                    | (MintFailed, n'') \<Rightarrow> (True, c', n'')
                                    | (Minted tok', n'') \<Rightarrow> (True, refresh_routing_token tok' now c', n'')))))"

definition close_client :: "client \<Rightarrow> client" where
  "close_client c = (if sc_closed c then c else c\<lparr>sc_closed := True\<rparr>)"

definition close_sync :: "client \<Rightarrow> client" where
  "close_sync c = c\<lparr>sc_closed := True\<rparr>"

section \<open>Commands\<close>

definition exec_failure :: "string \<Rightarrow> exec_response" where
  "exec_failure m = \<lparr>xr_exit_code = -1, xr_stdout = [], xr_stderr = m, xr_timed_out = False\<rparr>"

text \<open>An answer that is no object, or a number that is none, is an error nobody handles.\<close>

definition execute_result :: "pyval \<Rightarrow> env_exn + exec_response" where
  "execute_result v =
     (case as_dict v of
        None \<Rightarrow> Inl (EOther ''get'')
      | Some d \<Rightarrow>
          (case py_int (dict_get_default d ''exit_code'' (PyInt (-1))) of
             Inl _ \<Rightarrow> Inl (EOther ''exit_code'')
           | Inr code \<Rightarrow>
               Inr \<lparr>xr_exit_code = code, xr_stdout = py_str (dict_get_default d ''stdout'' (PyStr [])),
                    xr_stderr = py_str (dict_get_default d ''stderr'' (PyStr [])), xr_timed_out = truthy (dict_get_default d ''timed_out'' (PyBool False))\<rparr>))"

definition sb_execute ::
  "'n send \<Rightarrow> string \<Rightarrow> rat option \<Rightarrow> env_vars option \<Rightarrow> client \<times> 'n \<Rightarrow> (env_exn + exec_response) \<times> client \<times> 'n" where
  "sb_execute send command timeout env cn =
     (case call_shim send (case timeout of Some t \<Rightarrow> t + 30 | None \<Rightarrow> 600) (RqExec command timeout None env) cn of
        (Inl (_, m), cn') \<Rightarrow> (Inr (exec_failure (''sandbox /exec transport error: '' @ m)), cn')
      | (Inr r, cn') \<Rightarrow>
          if rp_status r \<noteq> 200
          then (Inr (exec_failure (''sandbox /exec HTTP '' @ string_of_int (rp_status r) @ '': '' @ rp_text r)), cn')
          else (case rp_json r of
                  None \<Rightarrow> (Inr (exec_failure (''non-JSON response: '' @ rp_text r)), cn')
                | Some v \<Rightarrow> (execute_result v, cn')))"

section \<open>Files\<close>

definition sandbox_message :: "string \<Rightarrow> path \<Rightarrow> string \<Rightarrow> string" where
  "sandbox_message op p detail = ''sandbox '' @ op @ ''('' @ path_str p @ ''): '' @ detail"

text \<open>An answer that fails becomes an error of the kind the host's file system would raise. \<open>FileExistsError\<close> is an \<open>OSError\<close>
  that no caller tells apart.\<close>

definition file_http_error :: "string \<Rightarrow> path \<Rightarrow> reply \<Rightarrow> env_exn" where
  "file_http_error op p r =
     (let found = (case rp_json r of
                     None \<Rightarrow> Some (rp_text r)
                   | Some v \<Rightarrow> map_option (\<lambda>d. py_str (dict_get_default d ''detail'' (PyStr (rp_text r)))) (as_dict v))
      in case found of
           None \<Rightarrow> EOther ''get''
         | Some detail \<Rightarrow>
             if rp_status r = 404 then ENotFound (sandbox_message op p detail)
             else if rp_status r = 403 then EPermission (sandbox_message op p detail)
             else if rp_status r = 400 \<and> contains (py_lower detail) ''is a directory'' then EIsADirectory (sandbox_message op p detail)
             else if rp_status r = 400 \<and> contains (py_lower detail) ''not a directory'' then ENotADirectory (sandbox_message op p detail)
             else if rp_status r = 400 \<and> contains (py_lower detail) ''file exists'' then EOSError (sandbox_message op p detail)
             else EOSError (''sandbox '' @ op @ ''('' @ path_str p @ '') HTTP '' @ string_of_int (rp_status r) @ '': '' @ detail))"

definition file_call ::
  "'n send \<Rightarrow> rat \<Rightarrow> string \<Rightarrow> path \<Rightarrow> shim_request \<Rightarrow> (reply \<Rightarrow> env_exn + 'a) \<Rightarrow> client \<times> 'n \<Rightarrow> (env_exn + 'a) \<times> client \<times> 'n" where
  "file_call send limit op p rq ok cn =
     (case call_shim send limit rq cn of
        (Inl (_, m), cn') \<Rightarrow> (Inl (EOther m), cn')
      | (Inr r, cn') \<Rightarrow> (if rp_status r = 200 then ok r else Inl (file_http_error op p r), cn'))"

definition read_payload :: "path \<Rightarrow> reply \<Rightarrow> env_exn + byte list" where
  "read_payload p r =
     (case rp_json r of
        None \<Rightarrow> Inl (EOSError (''sandbox read_file('' @ path_str p @ '') '' @ EMDASH @ '' non-JSON response: '' @ py_repr_str (rp_text r)))
      | Some v \<Rightarrow>
          (case as_dict v of
             None \<Rightarrow> Inl (EOther ''get'')
           | Some d \<Rightarrow>
               (case dict_get d ''content_b64'' of
                  PyNone \<Rightarrow> Inl (EOSError (''sandbox read_file('' @ path_str p @ '') '' @ EMDASH @ '' response missing ''
                    @ py_repr_str ''content_b64'' @ '': '' @ py_repr v))
                | PyStr s \<Rightarrow> (case b64decode s of Inl m \<Rightarrow> Inl (EOther m) | Inr data \<Rightarrow> Inr data)
                | _ \<Rightarrow> Inl (EOther ''argument should be a bytes-like object or ASCII string''))))"

definition sb_read_file :: "'n send \<Rightarrow> path \<Rightarrow> client \<times> 'n \<Rightarrow> (env_exn + byte list) \<times> client \<times> 'n" where
  "sb_read_file send p = file_call send 60 ''read_file'' p (RqRead (path_str p)) (read_payload p)"

definition list_payload :: "path \<Rightarrow> reply \<Rightarrow> env_exn + (pyval list \<times> bool)" where
  "list_payload p r =
     (case rp_json r of
        None \<Rightarrow> Inl (EOSError (''sandbox list_directory('' @ path_str p @ '') '' @ EMDASH @ '' non-JSON response: '' @ py_repr_str (rp_text r)))
      | Some v \<Rightarrow>
          (case as_dict v of
             None \<Rightarrow> Inl (EOther ''get'')
           | Some d \<Rightarrow>
               (case dict_get_default d ''entries'' (PyList []) of
                  PyList es \<Rightarrow> Inr (es, truthy (dict_get_default d ''truncated'' (PyBool False)))
                | _ \<Rightarrow> Inl (EOther ''entries''))))"

definition sb_list_directory :: "'n send \<Rightarrow> path \<Rightarrow> int \<Rightarrow> client \<times> 'n \<Rightarrow> (env_exn + (pyval list \<times> bool)) \<times> client \<times> 'n" where
  "sb_list_directory send p limit = file_call send 30 ''list_directory'' p (RqList (path_str p) limit) (list_payload p)"

definition sb_write_file :: "'n send \<Rightarrow> path \<Rightarrow> string + byte list \<Rightarrow> client \<times> 'n \<Rightarrow> (env_exn + unit) \<times> client \<times> 'n" where
  "sb_write_file send p content =
     (let content_bytes = (case content of Inl t \<Rightarrow> utf8_encode t | Inr b \<Rightarrow> b)
      in file_call send 120 ''write_file'' p (RqWrite (path_str p) (b64encode content_bytes) None) (\<lambda>_. Inr ()))"

definition sb_make_dir :: "'n send \<Rightarrow> path \<Rightarrow> client \<times> 'n \<Rightarrow> (env_exn + unit) \<times> client \<times> 'n" where
  "sb_make_dir send p cn =
     (case sb_execute send (''mkdir -p '' @ shlex_quote (path_str p)) None None cn of
        (Inl e, cn') \<Rightarrow> (Inl e, cn')
      | (Inr x, cn') \<Rightarrow>
          (if xr_exit_code x \<noteq> 0
           then Inl (EOSError (if xr_stderr x = [] then ''mkdir failed for '' @ path_str p else xr_stderr x)) else Inr (), cn'))"

definition sb_delete_file :: "'n send \<Rightarrow> path \<Rightarrow> bool \<Rightarrow> client \<times> 'n \<Rightarrow> (env_exn + unit) \<times> client \<times> 'n" where
  "sb_delete_file send p recursive = file_call send 30 ''delete_file'' p (RqDelete (path_str p) recursive) (\<lambda>_. Inr ())"

definition sb_download_zip :: "'n send \<Rightarrow> path \<Rightarrow> client \<times> 'n \<Rightarrow> (env_exn + byte list) \<times> client \<times> 'n" where
  "sb_download_zip send p = file_call send 120 ''download_zip'' p (RqDownloadZip (path_str p)) (\<lambda>r. Inr (rp_content r))"

definition sb_upload_zip :: "'n send \<Rightarrow> path \<Rightarrow> byte list \<Rightarrow> client \<times> 'n \<Rightarrow> (env_exn + unit) \<times> client \<times> 'n" where
  "sb_upload_zip send p data = file_call send 300 ''upload_zip'' p (RqUploadZip (path_str p) data) (\<lambda>_. Inr ())"

section \<open>Processes\<close>

definition raise_for_status :: "reply \<Rightarrow> env_exn + reply" where
  "raise_for_status r =
     (if 200 \<le> rp_status r \<and> rp_status r < 300 then Inr r else Inl (EOther (''HTTP '' @ string_of_int (rp_status r))))"

definition json_of :: "reply \<Rightarrow> env_exn + pydict" where
  "json_of r = (case rp_json r of None \<Rightarrow> Inl (EOther ''JSONDecodeError'')
     | Some v \<Rightarrow> (case as_dict v of None \<Rightarrow> Inl (EOther ''get'') | Some d \<Rightarrow> Inr d))"

definition int_field :: "pyval \<Rightarrow> env_exn + int" where
  "int_field v = (case py_int v of Inl _ \<Rightarrow> Inl (EOther ''int'') | Inr i \<Rightarrow> Inr i)"

definition item :: "pydict \<Rightarrow> string \<Rightarrow> env_exn + pyval" where
  "item d k = (case map_of d k of None \<Rightarrow> Inl (EOther k) | Some v \<Rightarrow> Inr v)"

text \<open>A call whose answer must be a success with a JSON object.\<close>

definition json_call :: "'n send \<Rightarrow> rat \<Rightarrow> shim_request \<Rightarrow> client \<times> 'n \<Rightarrow> (env_exn + pydict) \<times> client \<times> 'n" where
  "json_call send limit rq cn =
     (case call_shim send limit rq cn of
        (Inl (_, m), cn') \<Rightarrow> (Inl (EOther m), cn')
      | (Inr r, cn') \<Rightarrow> (py_bind (raise_for_status r) json_of, cn'))"

record sproc =
  sp_session_id :: string
  sp_pid :: int
  sp_command :: string
  sp_started_at :: rat
  sp_finished_at :: "rat option"
  sp_exit_code :: pyval
  sp_output_size :: int
  sp_last_status_at :: rat
  sp_last_idle_seconds :: rat
  sp_is_running :: bool

definition sproc_init :: "string \<Rightarrow> int \<Rightarrow> string \<Rightarrow> rat \<Rightarrow> sproc" where
  "sproc_init sid pid command now =
     \<lparr>sp_session_id = sid, sp_pid = pid, sp_command = command, sp_started_at = now, sp_finished_at = None, sp_exit_code = PyNone,
      sp_output_size = 0, sp_last_status_at = 0, sp_last_idle_seconds = 0, sp_is_running = True\<rparr>"

definition sb_spawn_process ::
  "'n send \<Rightarrow> rat \<Rightarrow> string \<Rightarrow> path option \<Rightarrow> env_vars option \<Rightarrow> client \<times> 'n \<Rightarrow> (env_exn + sproc) \<times> client \<times> 'n" where
  "sb_spawn_process send now command cwd env cn =
     (case json_call send 60 (RqSpawn command (map_option path_str cwd) env) cn of
        (r, cn') \<Rightarrow>
          (py_bind r (\<lambda>d. py_bind (item d ''session_id'') (\<lambda>sid. py_bind (item d ''pid'') (\<lambda>pid. py_bind (int_field pid) (\<lambda>n.
             Inr (sproc_init (py_str sid) n command now))))), cn'))"

definition process_row :: "pyval \<Rightarrow> env_exn + pydict" where
  "process_row v =
     (case as_dict v of
        None \<Rightarrow> Inl (EOther ''subscript'')
      | Some s \<Rightarrow>
          py_bind (item s ''session_id'') (\<lambda>sid. py_bind (item s ''command'') (\<lambda>command. py_bind (item s ''is_running'') (\<lambda>running.
            Inr [(''session_id'', sid), (''command'', command), (''running'', running), (''exit_code'', dict_get s ''exit_code''),
              (''idle_seconds'', dict_get_default s ''idle_seconds'' (PyFloat 0 ''0.0'')), (''output_size'', dict_get_default s ''output_size'' (PyInt 0)),
              (''pid'', dict_get_default s ''pid'' (PyInt 0)), (''started_at'', PyFloat 0 ''0.0'')]))))"

fun process_rows :: "pyval list \<Rightarrow> env_exn + pydict list" where
  "process_rows [] = Inr []"
| "process_rows (v # vs) = py_bind (process_row v) (\<lambda>r. py_bind (process_rows vs) (\<lambda>rs. Inr (r # rs)))"

definition sb_list_processes :: "'n send \<Rightarrow> client \<times> 'n \<Rightarrow> (env_exn + pydict list) \<times> client \<times> 'n" where
  "sb_list_processes send cn =
     (case json_call send 30 RqProcesses cn of
        (r, cn') \<Rightarrow>
          (py_bind r (\<lambda>d. case dict_get_default d ''sessions'' (PyList []) of PyList vs \<Rightarrow> process_rows vs | _ \<Rightarrow> Inl (EOther ''sessions'')), cn'))"

definition sb_kill_process :: "'n send \<Rightarrow> string \<Rightarrow> client \<times> 'n \<Rightarrow> (env_exn + bool) \<times> client \<times> 'n" where
  "sb_kill_process send sid cn =
     (case call_shim send 30 (RqKill sid) cn of
        (Inl (_, m), cn') \<Rightarrow> (Inl (EOther m), cn')
      | (Inr r, cn') \<Rightarrow> (if rp_status r = 404 then Inr False else py_bind (raise_for_status r) (\<lambda>_. Inr True), cn'))"

section \<open>The handle on a process\<close>

definition sp_idle_seconds :: "rat \<Rightarrow> sproc \<Rightarrow> rat" where
  "sp_idle_seconds now h = sp_last_idle_seconds h + max 0 (now - sp_last_status_at h)"

definition finished_now :: "rat \<Rightarrow> sproc \<Rightarrow> sproc" where
  "finished_now now h = (if sp_finished_at h = None then h\<lparr>sp_finished_at := Some now\<rparr> else h)"

text \<open>A number of the answer that is none stops the update where it is.\<close>

definition apply_status :: "rat \<Rightarrow> pydict \<Rightarrow> sproc \<Rightarrow> env_exn option \<times> sproc" where
  "apply_status now body h =
     (let running = truthy (dict_get_default body ''is_running'' (PyBool False));
          h1 = h\<lparr>sp_is_running := running, sp_exit_code := dict_get body ''exit_code''\<rparr>
      in case int_field (dict_get_default body ''output_size'' (PyInt 0)) of
           Inl e \<Rightarrow> (Some e, h1)
         | Inr sz \<Rightarrow>
             (case py_float (dict_get_default body ''idle_seconds'' (PyFloat 0 ''0.0'')) of
                Inl _ \<Rightarrow> (Some (EOther ''float''), h1\<lparr>sp_output_size := sz\<rparr>)
              | Inr (idle, _) \<Rightarrow>
                  (let h2 = h1\<lparr>sp_output_size := sz, sp_last_idle_seconds := idle, sp_last_status_at := now\<rparr>
                   in (None, if running then h2 else finished_now now h2))))"

text \<open>The default time limit of the client is a minute.\<close>

definition refresh_status :: "'n send \<Rightarrow> rat \<Rightarrow> sproc \<Rightarrow> client \<times> 'n \<Rightarrow> env_exn option \<times> sproc \<times> client \<times> 'n" where
  "refresh_status send now h cn =
     (case json_call send 60 (RqStatus (sp_session_id h)) cn of
        (Inl e, cn') \<Rightarrow> (Some e, h, cn')
      | (Inr body, cn') \<Rightarrow> (case apply_status now body h of (r, h') \<Rightarrow> (r, h', cn')))"

definition sp_output :: "rat \<Rightarrow> sproc \<Rightarrow> pydict \<Rightarrow> env_exn + ((byte list \<times> int \<times> pyval) \<times> sproc)" where
  "sp_output now h body =
     py_bind (item body ''data_b64'') (\<lambda>b.
       case b of
         PyStr s \<Rightarrow>
           (case b64decode s of
              Inl m \<Rightarrow> Inl (EOther m)
            | Inr data \<Rightarrow>
                py_bind (item body ''next_offset'') (\<lambda>nx. py_bind (int_field nx) (\<lambda>next_offset.
                  (let code = dict_get body ''exit_code'';
                       h' = h\<lparr>sp_exit_code := code\<rparr>
                   in Inr ((data, next_offset, code),
                           if code = PyNone then h' else finished_now now (h'\<lparr>sp_is_running := False\<rparr>))))))
       | _ \<Rightarrow> Inl (EOther ''data_b64''))"

definition sp_read ::
  "'n send \<Rightarrow> rat \<Rightarrow> int \<Rightarrow> int option \<Rightarrow> sproc \<Rightarrow> client \<times> 'n \<Rightarrow> (env_exn + ((byte list \<times> int \<times> pyval) \<times> sproc)) \<times> client \<times> 'n" where
  "sp_read send now offset limit h cn =
     (case json_call send 60 (RqOutput (sp_session_id h) offset limit) cn of (r, cn') \<Rightarrow> (py_bind r (sp_output now h), cn'))"

text \<open>A write raises \<open>RuntimeError\<close> when the process has ended, or the errors of the call.\<close>

datatype write_result = Written | AlreadyExited string | WriteFailed env_exn

definition sp_write :: "'n send \<Rightarrow> byte list \<Rightarrow> sproc \<Rightarrow> client \<times> 'n \<Rightarrow> write_result \<times> sproc \<times> client \<times> 'n" where
  "sp_write send data h cn =
     (let gone = AlreadyExited (''process '' @ sp_session_id h @ '' has already exited'')
      in if \<not> sp_is_running h then (gone, h, cn)
         else case call_shim send 60 (RqStdin (sp_session_id h) (b64encode data) False) cn of
                (Inl (_, m), cn') \<Rightarrow> (WriteFailed (EOther m), h, cn')
              | (Inr r, cn') \<Rightarrow>
                  if rp_status r = 409 then (gone, h\<lparr>sp_is_running := False\<rparr>, cn')
                  else (case raise_for_status r of Inl e \<Rightarrow> (WriteFailed e, h, cn') | Inr _ \<Rightarrow> (Written, h, cn')))"

definition sp_kill :: "'n send \<Rightarrow> rat \<Rightarrow> sproc \<Rightarrow> client \<times> 'n \<Rightarrow> (env_exn + sproc) \<times> client \<times> 'n" where
  "sp_kill send now h cn =
     (if \<not> sp_is_running h then (Inr h, cn)
      else case json_call send 60 (RqKill (sp_session_id h)) cn of
             (r, cn') \<Rightarrow>
               (py_bind r (\<lambda>body. py_bind (int_field (dict_get_default body ''exit_code'' (PyInt (-1)))) (\<lambda>code.
                  Inr (finished_now now (h\<lparr>sp_exit_code := PyInt code, sp_is_running := False\<rparr>)))), cn'))"

text \<open>Waiting for the end: the rounds carry the delay, which grows by half up to a second.\<close>

record waiting =
  wt_delay :: rat
  wt_handle :: sproc
  wt_client :: client

definition sp_wait_round ::
  "'n send \<Rightarrow> 'n timing \<Rightarrow> rat option \<Rightarrow> (waiting, 'n) timed \<Rightarrow> (env_exn + pyval) option \<times> (waiting, 'n) timed" where
  "sp_wait_round send tm deadline s =
     (case timed_call tm (\<lambda>(l, n). case refresh_status send (fst s) (wt_handle l) (wt_client l, n) of
             (r, h, c, n') \<Rightarrow> (r, l\<lparr>wt_handle := h, wt_client := c\<rparr>, n')) s of
        (Some e, s') \<Rightarrow> (Some (Inl e), s')
      | (None, s') \<Rightarrow>
          (let h = wt_handle (fst (snd s'))
           in if \<not> sp_is_running h then (Some (Inr (sp_exit_code h)), s')
              else if (case deadline of None \<Rightarrow> False | Some d \<Rightarrow> fst s' \<ge> d) then (Some (Inr PyNone), s')
              else (None, s')))"

definition sp_wait_nap :: "'n timing \<Rightarrow> (waiting, 'n) timed \<Rightarrow> (waiting, 'n) timed" where
  "sp_wait_nap tm s =
     (case sleep tm (wt_delay (fst (snd s))) s of (t, l, n) \<Rightarrow> (t, l\<lparr>wt_delay := min (wt_delay l * (3 / 2)) 1\<rparr>, n))"

definition sp_wait ::
  "'n send \<Rightarrow> 'n timing \<Rightarrow> rat option \<Rightarrow> rat \<Rightarrow> sproc \<Rightarrow> client \<times> 'n \<Rightarrow> ((env_exn + pyval) \<times> (waiting, 'n) timed) option" where
  "sp_wait send tm timeout now h cn =
     poll_loop (sp_wait_round send tm (map_option (\<lambda>d. now + d) timeout)) (sp_wait_nap tm)
       (now, \<lparr>wt_delay = 1 / 10, wt_handle = h, wt_client = fst cn\<rparr>, snd cn)"

section \<open>The waits end\<close>

interpretation ready: deadline_poll "\<lambda>_. True" "ready_round send tm label deadline_sec deadline" "sleep tm POLL_INTERVAL_SEC" fst deadline POLL_INTERVAL_SEC
  for send :: "'n send" and tm label deadline_sec deadline
proof unfold_locales
  show "0 < POLL_INTERVAL_SEC" by (simp add: POLL_INTERVAL_SEC_def)
  show "fst s + POLL_INTERVAL_SEC \<le> fst (sleep tm POLL_INTERVAL_SEC s)" for s :: "(client, 'n) timed" by (rule sleep_advances)
next
  fix s :: "(client, 'n) timed"
  obtain b s' where c: "timed_call tm (probe_healthz send) s = (b, s')" by (rule prod.exhaust)
  have "fst s \<le> fst s'" using timed_call_advances [OF c] .
  then show "fst s \<le> fst (snd (ready_round send tm label deadline_sec deadline s))"
    by (cases b) (simp_all add: ready_round_def c)
  show "fst (ready_round send tm label deadline_sec deadline s) = None \<Longrightarrow>
      fst (snd (ready_round send tm label deadline_sec deadline s)) < deadline"
    by (cases b) (auto simp: ready_round_def c split: if_splits)
qed auto

text \<open>The delay between two looks is at least a tenth of a second.\<close>

definition wait_inv :: "(waiting, 'n) timed \<Rightarrow> bool" where
  "wait_inv s \<longleftrightarrow> wt_delay (fst (snd s)) \<ge> 1 / 10"

interpretation ending: deadline_poll wait_inv "sp_wait_round send tm (Some deadline)" "sp_wait_nap tm" fst deadline "1 / 10"
  for send :: "'n send" and tm deadline
proof unfold_locales
  fix s :: "(waiting, 'n) timed"
  let ?f = "\<lambda>(l, n). case refresh_status send (fst s) (wt_handle l) (wt_client l, n) of (r, h, c, n') \<Rightarrow> (r, l\<lparr>wt_handle := h, wt_client := c\<rparr>, n')"
  obtain r s' where c: "timed_call tm ?f s = (r, s')" by (rule prod.exhaust)
  have adv: "fst s \<le> fst s'" using timed_call_advances [OF c] .
  have same: "wt_delay (fst (snd s')) = wt_delay (fst (snd s))"
    using c by (auto simp: timed_call_def split: prod.splits)
  have snd_round: "snd (sp_wait_round send tm (Some deadline) s) = s'"
    unfolding sp_wait_round_def c by (simp add: Let_def split: option.splits)
  assume inv: "wait_inv s"
  show "wait_inv (snd (sp_wait_round send tm (Some deadline) s))" using inv same by (simp add: snd_round wait_inv_def)
  show "wait_inv (sp_wait_nap tm s)" using inv by (auto simp: wait_inv_def sp_wait_nap_def sleep_def split: prod.splits)
  show "fst s \<le> fst (snd (sp_wait_round send tm (Some deadline) s))" using adv by (simp add: snd_round)
  show "fst s + 1 / 10 \<le> fst (sp_wait_nap tm s)"
    using inv sleep_advances [of s "wt_delay (fst (snd s))" tm] by (auto simp: wait_inv_def sp_wait_nap_def split: prod.splits)
  show "fst (sp_wait_round send tm (Some deadline) s) = None \<Longrightarrow> fst (snd (sp_wait_round send tm (Some deadline) s)) < deadline"
    unfolding snd_round by (simp add: sp_wait_round_def c Let_def split: option.splits if_splits)
qed simp

text \<open>The waits of the sandbox client end. Whatever the network answers and however late a sleep is, becoming ready takes at most 61 probes,
  and waiting for a process with a time limit returns after at most ten looks for each second of it and one more.\<close>

theorem sandbox_waits_end:
  "(\<exists>x. wait_ready send tm label HEALTHZ_TIMEOUT_SEC (t, c, n) = Some x \<and>
      poll_rounds 61 (ready_round send tm label HEALTHZ_TIMEOUT_SEC (t + HEALTHZ_TIMEOUT_SEC)) (sleep tm POLL_INTERVAL_SEC)
        (t, c\<lparr>sc_last_probe_error := []\<rparr>, n) = Some x) \<and>
   (\<exists>y. sp_wait send tm (Some d) t h (c, n) = Some y \<and>
      poll_rounds (rounds_before d (1 / 10)) (sp_wait_round send tm (Some (t + d))) (sp_wait_nap tm)
        (t, \<lparr>wt_delay = 1 / 10, wt_handle = h, wt_client = c\<rparr>, n) = Some y)"
proof
  have "rounds_before (t + HEALTHZ_TIMEOUT_SEC - fst (t, c\<lparr>sc_last_probe_error := []\<rparr>, n)) POLL_INTERVAL_SEC = 61"
    by (simp add: rounds_before_def HEALTHZ_TIMEOUT_SEC_def POLL_INTERVAL_SEC_def)
  then show "\<exists>x. wait_ready send tm label HEALTHZ_TIMEOUT_SEC (t, c, n) = Some x \<and>
      poll_rounds 61 (ready_round send tm label HEALTHZ_TIMEOUT_SEC (t + HEALTHZ_TIMEOUT_SEC)) (sleep tm POLL_INTERVAL_SEC)
        (t, c\<lparr>sc_last_probe_error := []\<rparr>, n) = Some x"
    using ready.loop_returns_within [OF TrueI, where s = "(t, c\<lparr>sc_last_probe_error := []\<rparr>, n)" and deadline = "t + HEALTHZ_TIMEOUT_SEC"
        and send = send and tm = tm and label = label and deadline_sec = HEALTHZ_TIMEOUT_SEC]
    by (simp add: wait_ready_def conj_commute)
  have "wait_inv (t, \<lparr>wt_delay = 1 / 10, wt_handle = h, wt_client = c\<rparr>, n)" by (simp add: wait_inv_def)
  from ending.loop_returns_within [OF this, where deadline = "t + d" and send = send and tm = tm]
  show "\<exists>y. sp_wait send tm (Some d) t h (c, n) = Some y \<and>
      poll_rounds (rounds_before d (1 / 10)) (sp_wait_round send tm (Some (t + d))) (sp_wait_nap tm)
        (t, \<lparr>wt_delay = 1 / 10, wt_handle = h, wt_client = c\<rparr>, n) = Some y"
    by (simp add: sp_wait_def conj_commute)
qed

section \<open>Through the network to the container\<close>

text \<open>A network that hands every request to the container's server; a request that is never answered runs into the
  time limit of the call.\<close>

definition direct :: "'w container \<Rightarrow> rat \<Rightarrow> 'w shim send" where
  "direct ct dflt hds limit rq s =
     (case serve ct dflt rq s of (Some r, s') \<Rightarrow> (Inr r, s') | (None, s') \<Rightarrow> (Inl (''ReadTimeout'', []), s'))"

lemma status_replies [simp]:
  "rp_status (json_reply ct st v) = st" "rp_json (json_reply ct st v) = Some v" "rp_status (error_reply ct (HTTPException st m)) = st"
  "rp_status (error_reply ct Uncaught) = 500" "rp_json (error_reply ct Uncaught) = None"
  "rp_json (error_reply ct (HTTPException st m)) = Some (PyDict [(''detail'', PyStr m)])"
  by (simp_all add: json_reply_def error_reply_def)

lemma note_success [simp]: "rp_status r < 500 \<Longrightarrow> note_response r c = c"
  by (auto simp: note_response_def)

lemma container_read_proc: "container_read offset limit p = (case proc_read offset limit p of (data, next, _) \<Rightarrow> (data, next))"
  by (simp add: container_read_def proc_read_def Let_def)

definition sandbox_page :: "'w container \<Rightarrow> rat \<Rightarrow> int \<Rightarrow> int option \<Rightarrow> sproc \<times> client \<times> 'w shim \<Rightarrow> byte list \<times> int" where
  "sandbox_page ct dflt offset limit hcs =
     (case hcs of (h, cs) \<Rightarrow>
        (case fst (sp_read (direct ct dflt) 0 offset limit h cs) of
           Inr ((data, next, _), _) \<Rightarrow> (data, next)
         | Inl _ \<Rightarrow> ([], offset)))"

definition container_shows :: "byte list \<Rightarrow> int \<Rightarrow> sproc \<times> client \<times> 'w shim \<Rightarrow> bool" where
  "container_shows out k hcs \<longleftrightarrow>
     (case hcs of (h, _, s) \<Rightarrow> \<exists>p. map_of (sh_procs s) (sp_session_id h) = Some p \<and> holds_output out p \<and> k = kept_from p)"

lemma sandbox_page_local:
  assumes "map_of (sh_procs s) (sp_session_id h) = Some p" "0 \<le> offset" "0 < l"
  shows "sandbox_page ct dflt offset (Some l) (h, c, s) = local_page offset (Some l) p"
proof -
  obtain data nx code where r: "proc_read offset (Some l) p = (data, nx, code)" by (rule prod_cases3)
  let ?body = "[(''data_b64'', PyStr (b64encode data)), (''next_offset'', PyInt nx), (''exit_code'', opt_int (p_exit_code p))]"
  have "json_call (direct ct dflt) 60 (RqOutput (sp_session_id h) offset (Some l)) (c, s) = (Inr ?body, c, s)"
    using assms by (simp add: json_call_def call_shim_def direct_def validated_def answer_def process_output_def get_process_def
        container_read_proc r raise_for_status_def json_of_def as_dict_def)
  then have "fst (sp_read (direct ct dflt) 0 offset (Some l) h (c, s)) = sp_output 0 h ?body" by (simp add: sp_read_def)
  also have "\<exists>e h'. sp_output 0 h ?body = Inr ((data, nx, e), h')"
    by (simp add: sp_output_def item_def int_field_def py_int_def Let_def)
  finally show ?thesis by (auto simp: sandbox_page_def local_page_def r)
qed

interpretation sandbox_source: output_source container_shows "sandbox_page ct dflt" for ct :: "'w container" and dflt
proof unfold_locales
  fix out k and hcs :: "sproc \<times> client \<times> 'w shim" and offset l :: int
  assume a: "container_shows out k hcs" "0 \<le> offset" "0 < l" "k \<le> offset" "offset \<le> int (length out)"
  obtain h c s where hcs: "hcs = (h, c, s)" by (rule prod_cases3)
  then obtain p where p: "map_of (sh_procs s) (sp_session_id h) = Some p" "holds_output out p" "k = kept_from p"
    using a(1) by (auto simp: container_shows_def)
  show "sandbox_page ct dflt offset (Some l) hcs
      = (take (nat l) (drop (nat offset) out), offset + int (length (take (nat l) (drop (nat offset) out))))"
    unfolding hcs sandbox_page_local [OF p(1) a(2,3)] by (rule local_source.read_window [OF conjI [OF p(2,3)] a(2-5)])
next
  fix out k and hcs :: "sproc \<times> client \<times> 'w shim"
  assume "container_shows out k hcs"
  then show "0 \<le> k \<and> k \<le> int (length out)" using holds_kept by (fastforce simp: container_shows_def)
qed

text \<open>C34: The log of a sandboxed process is the log of the process in its container: following the offsets through the
  network, in pages of any size and through the base64 of the answers, gives every byte the container still keeps from
  an offset on, once and in order.\<close>

theorem sandbox_log_is_the_containers:
  assumes "map_of (sh_procs s) (sp_session_id h) = Some p" and "holds_output out p"
    and "kept_from p \<le> offset" and "offset \<le> int (length out)" and "0 < l" and "length out \<le> m * nat l + nat offset"
  shows "output_source.pages (sandbox_page ct dflt) m offset l (h, c, s) = drop (nat offset) out"
proof -
  have "container_shows out (kept_from p) (h, c, s)" using assms(1,2) by (auto simp: container_shows_def)
  from sandbox_source.pages_complete [OF this assms(5,3,4,6)] show ?thesis .
qed

theorem sandbox_log_is_the_containers_witness:
  "output_source.pages (sandbox_page demo_container 600) 2 1 2
     (sproc_init ''proc_1'' 7 ''make'' 0, client_init ''sb'' ''rt'' ''tok'' ''ann'' ''8080'' [''workspace''] 1800 False 0,
      \<lparr>sh_world = [], sh_procs = [(''proc_1'', append_chunk 1 [1, 2, 3] (proc_init ''1'' 0 7 10 ''make''))]\<rparr>) = drop (nat 1) [1, 2, 3]"
  by (rule sandbox_log_is_the_containers [where p = "append_chunk 1 [1, 2, 3] (proc_init ''1'' 0 7 10 ''make'')"])
    (simp_all add: sproc_init_def holds_output_def append_chunk_def proc_init_def last_bytes_def kept_from_def)

section \<open>Files and errors\<close>

text \<open>What the container's answer to a read is for the client: its bytes, one of the three kinds of error the
  server has a status for, or a plain error of the operating system for every other kind, of which the server only
  says that it failed.\<close>

definition container_read_file :: "'w container \<Rightarrow> path \<Rightarrow> path \<Rightarrow> 'w \<Rightarrow> env_exn + byte list" where
  "container_read_file ct p q w =
     (case ct_read ct q w of
        Inr data \<Rightarrow> Inr data
      | Inl (ENotFound m) \<Rightarrow> Inl (ENotFound (sandbox_message ''read_file'' p m))
      | Inl (EPermission m) \<Rightarrow> Inl (EPermission (sandbox_message ''read_file'' p m))
      | Inl (EIsADirectory m) \<Rightarrow> Inl (EIsADirectory (sandbox_message ''read_file'' p m))
      | Inl _ \<Rightarrow> Inl (EOSError (''sandbox read_file('' @ path_str p @ '') HTTP 500: Internal Server Error'')))"

text \<open>The text the operating system has for the error.\<close>

definition says_directory :: "env_exn + byte list \<Rightarrow> bool" where
  "says_directory r \<longleftrightarrow> (case r of Inl (EIsADirectory m) \<Rightarrow> contains (py_lower m) ''is a directory'' | _ \<Rightarrow> True)"

lemma status_500: "string_of_int 500 = ''500''"
  by code_simp

lemma sb_read_direct:
  assumes "resolve_within_workspace ct (sh_world s) (path_str p) = Inr q" and "says_directory (ct_read ct q (sh_world s))"
  shows "sb_read_file (direct ct dflt) p (c, s) = (container_read_file ct p q (sh_world s), fst (snd (sb_read_file (direct ct dflt) p (c, s))), s)"
proof (cases "ct_read ct q (sh_world s)")
  case (Inl e)
  then show ?thesis using assms
    by (cases e) (simp_all add: sb_read_file_def file_call_def call_shim_def direct_def shim_read_file_def answer_def container_read_file_def
        file_http_error_def as_dict_def dict_get_default_def py_str_def says_directory_def status_500 error_reply_def)
next
  case (Inr d)
  then show ?thesis using assms
    by (simp add: sb_read_file_def file_call_def call_shim_def direct_def shim_read_file_def answer_def container_read_file_def
        read_payload_def as_dict_def dict_get_def dict_get_default_def)
qed

lemma sb_write_direct:
  "snd (snd (sb_write_file (direct ct dflt) p (Inr d) (c, s))) = s\<lparr>sh_world := snd (shim_write_file ct (path_str p) (b64encode d) None (sh_world s))\<rparr>"
  "fst (sb_write_file (direct ct dflt) p (Inr d) (c, s)) = Inr () \<longleftrightarrow>
     (\<exists>v. fst (shim_write_file ct (path_str p) (b64encode d) None (sh_world s)) = Inr v)"
proof -
  obtain r w where x: "shim_write_file ct (path_str p) (b64encode d) None (sh_world s) = (r, w)" by (rule prod.exhaust)
  have fails: "rp_status (error_reply ct e) \<noteq> 200" if "r = Inl e" for e
    using x that by (auto simp: shim_write_file_def write_error_def resolve_within_workspace_def
        split: sum.splits if_splits option.splits prod.splits env_exn.splits)
  show "snd (snd (sb_write_file (direct ct dflt) p (Inr d) (c, s))) = s\<lparr>sh_world := snd (shim_write_file ct (path_str p) (b64encode d) None (sh_world s))\<rparr>"
    by (simp add: sb_write_file_def Let_def file_call_def call_shim_def direct_def with_world_def x)
  show "fst (sb_write_file (direct ct dflt) p (Inr d) (c, s)) = Inr () \<longleftrightarrow>
      (\<exists>v. fst (shim_write_file ct (path_str p) (b64encode d) None (sh_world s)) = Inr v)"
    using fails by (cases r) (auto simp: sb_write_file_def Let_def file_call_def call_shim_def direct_def with_world_def x answer_def)
qed

text \<open>C35: Through the network the files of a sandbox are those of its container. A read returns the bytes the container
  has; when the container finds no file, no permission, or a directory, it raises the error of that kind, and for
  any other error of the container, a path that goes through a file among them, a plain error without its kind
  and message. A write that succeeds has created the parent directory and stored exactly the bytes, on
  the path that the container resolves. The messages of the operating system are assumed to name a directory
  as it does.\<close>

theorem sandbox_files_are_the_containers:
  assumes "resolve_within_workspace ct (sh_world s) (path_str p) = Inr q" and "says_directory (ct_read ct q (sh_world s))"
  shows "fst (sb_read_file (direct ct dflt) p (c, s)) = container_read_file ct p q (sh_world s) \<and>
    (fst (sb_write_file (direct ct dflt) p (Inr d) (c, s)) = Inr () \<longrightarrow>
      (\<exists>w1. ct_mkdirs ct (parent q) (sh_world s) = (None, w1) \<and>
        ct_write ct q d w1 = (None, sh_world (snd (snd (sb_write_file (direct ct dflt) p (Inr d) (c, s)))))))"
proof
  show "fst (sb_read_file (direct ct dflt) p (c, s)) = container_read_file ct p q (sh_world s)"
    by (subst sb_read_direct [OF assms]) simp
  show "fst (sb_write_file (direct ct dflt) p (Inr d) (c, s)) = Inr () \<longrightarrow>
      (\<exists>w1. ct_mkdirs ct (parent q) (sh_world s) = (None, w1) \<and>
        ct_write ct q d w1 = (None, sh_world (snd (snd (sb_write_file (direct ct dflt) p (Inr d) (c, s))))))"
    using assms(1) unfolding sb_write_direct
    by (auto simp: shim_write_file_def split: prod.splits option.splits)
qed

theorem sandbox_files_are_the_containers_witness:
  "fst (sb_read_file (direct demo_container 600) [''workspace'', ''a'']
      (client_init ''sb'' ''rt'' ''tok'' ''ann'' ''8080'' [''workspace''] 1800 False 0, \<lparr>sh_world = [([''workspace'', ''a''], [1, 2])], sh_procs = []\<rparr>))
    = container_read_file demo_container [''workspace'', ''a''] [''workspace'', ''a''] [([''workspace'', ''a''], [1, 2])]"
  using sandbox_files_are_the_containers [of demo_container "\<lparr>sh_world = [([''workspace'', ''a''], [1, 2])], sh_procs = []\<rparr>"
      "[''workspace'', ''a'']" "[''workspace'', ''a'']" 600 "client_init ''sb'' ''rt'' ''tok'' ''ann'' ''8080'' [''workspace''] 1800 False 0"]
  by (simp add: demo_container_def resolve_within_workspace_def path_resolve_def linkless_def path_str_def path_parts_def is_absolute_def
      startswith_def is_relative_to_def says_directory_def)

text \<open>The kind of an error the server has no status for is lost on the way.\<close>

lemma not_a_directory_loses_its_kind:
  assumes "resolve_within_workspace ct (sh_world s) (path_str p) = Inr q" and "ct_read ct q (sh_world s) = Inl (ENotADirectory m)"
  shows "fst (sb_read_file (direct ct dflt) p (c, s)) =
    Inl (EOSError (''sandbox read_file('' @ path_str p @ '') HTTP 500: Internal Server Error''))"
  by (subst sb_read_direct [OF assms(1)]) (simp_all add: container_read_file_def says_directory_def assms(2))

section \<open>A sandbox that is gone\<close>

text \<open>What is done with a client after it became ready.\<close>

datatype client_step = Calling rat shim_request | Refreshing rat | Closing | ClosingSync

definition client_run ::
  "'n send \<Rightarrow> ('n \<Rightarrow> minted \<times> 'n) option \<Rightarrow> ('n \<Rightarrow> minted \<times> 'n) option \<Rightarrow> client_step list \<Rightarrow> client \<times> 'n \<Rightarrow> client \<times> 'n" where
  "client_run send minter fetcher =
     fold (\<lambda>st cn. case st of
         Calling limit rq \<Rightarrow> snd (call_shim send limit rq cn)
       | Refreshing now \<Rightarrow> snd (refresh_auth minter fetcher now cn)
       | Closing \<Rightarrow> apfst close_client cn
       | ClosingSync \<Rightarrow> apfst close_sync cn)"

lemma refresh_flags:
  "sc_gone (fst (snd (refresh_auth minter fetcher now cn))) = sc_gone (fst cn)"
  "sc_initialized (fst (snd (refresh_auth minter fetcher now cn))) = sc_initialized (fst cn)"
  by (cases cn; simp add: refresh_auth_def apply_sandbox_token_def refresh_routing_token_def Let_def
      split: prod.splits option.splits minted.splits)+

lemma call_flags:
  "sc_gone (fst cn) \<Longrightarrow> sc_gone (fst (snd (call_shim send limit rq cn)))"
  "sc_initialized (fst (snd (call_shim send limit rq cn))) = sc_initialized (fst cn)"
  by (auto simp: call_shim_def note_response_def split: prod.splits sum.splits)

lemma client_run_gone: "sc_gone (fst cn) \<Longrightarrow> sc_gone (fst (client_run send minter fetcher steps cn))"
proof (induction steps arbitrary: cn)
  case (Cons st steps)
  have "sc_gone (fst (case st of Calling limit rq \<Rightarrow> snd (call_shim send limit rq cn) | Refreshing now \<Rightarrow> snd (refresh_auth minter fetcher now cn)
       | Closing \<Rightarrow> apfst close_client cn | ClosingSync \<Rightarrow> apfst close_sync cn))"
    using Cons.prems by (cases st; cases cn) (auto simp: call_flags refresh_flags close_client_def close_sync_def)
  from Cons.IH [OF this] show ?case by (simp add: client_run_def)
qed (simp add: client_run_def)

text \<open>A ready client that meets a gateway error is retired for good: whatever is done with it afterwards, the next refresh
  reports it as gone without asking for a token, so that it is replaced; while a sandbox boots the same answers
  leave the client alone.\<close>

theorem gateway_error_retires_the_client:
  assumes "send (sc_headers c) limit rq n = (Inr r, n')" and "rp_status r \<in> {502, 503, 504}"
  shows "case call_shim send limit rq (c, n) of (_, c', n'') \<Rightarrow>
    (if sc_initialized c
     then (case client_run send minter fetcher steps (c', n'') of (c2, n2) \<Rightarrow> refresh_auth minter fetcher now (c2, n2) = (False, c2, n2))
     else c' = c)"
proof -
  have call: "call_shim send limit rq (c, n) = (Inr r, note_response r c, n')" using assms(1) by (simp add: call_shim_def)
  obtain c2 n2 where run: "client_run send minter fetcher steps (note_response r c, n') = (c2, n2)" by (rule prod.exhaust)
  have "sc_gone c2" if "sc_initialized c"
    using client_run_gone [of "(note_response r c, n')" send minter fetcher steps] that assms(2) run by (simp add: note_response_def)
  moreover have "note_response r c = c" if "\<not> sc_initialized c" using that by (simp add: note_response_def)
  moreover have "refresh_auth minter fetcher now (c2, n2) = (False, c2, n2)" if "sc_gone c2" using that by (simp add: refresh_auth_def)
  ultimately show ?thesis by (simp add: call run)
qed

theorem gateway_error_retires_the_client_witness:
  "case call_shim (\<lambda>_ _ _ n. (Inr \<lparr>rp_status = 503, rp_json = None, rp_text = [], rp_content = []\<rparr>, n)) 30 RqProcesses
      ((client_init ''sb'' ''rt'' ''tok'' ''ann'' ''8080'' [''workspace''] 1800 False 0)\<lparr>sc_initialized := True\<rparr>, ()) of (_, c', n'') \<Rightarrow>
    (if sc_initialized ((client_init ''sb'' ''rt'' ''tok'' ''ann'' ''8080'' [''workspace''] 1800 False 0)\<lparr>sc_initialized := True\<rparr>)
     then (case client_run (\<lambda>_ _ _ n. (Inr \<lparr>rp_status = 503, rp_json = None, rp_text = [], rp_content = []\<rparr>, n)) None None [Closing] (c', n'') of
       (c2, n2) \<Rightarrow> refresh_auth None None 5 (c2, n2) = (False, c2, n2))
     else c' = (client_init ''sb'' ''rt'' ''tok'' ''ann'' ''8080'' [''workspace''] 1800 False 0)\<lparr>sc_initialized := True\<rparr>)"
  by (rule gateway_error_retires_the_client [where r = "\<lparr>rp_status = 503, rp_json = None, rp_text = [], rp_content = []\<rparr>"]) simp_all

end
