(* ===== verification/Process_Registry.thy ===== *)
theory Process_Registry
  imports Py_Prelude
begin

text \<open>
  The registry of background processes (\<open>environment/registry.py\<close>): one per session, in a store of the
  module ordered by last use. What a handle says of itself when it is asked is the record \<open>view\<close>; it changes
  from call to call, since processes end on their own. The clock is an argument of the operations
  that read it.

  A registry forgets finished handles, after ten minutes or when it is full, and a store forgets
  registries without a running handle; neither ever forgets a running one.
\<close>

section \<open>State\<close>

record 'h view =
  v_session_id :: "'h \<Rightarrow> string"
  v_running :: "'h \<Rightarrow> bool"
  v_finished_at :: "'h \<Rightarrow> rat option"

definition DEFAULT_MAX_SESSIONS :: nat where "DEFAULT_MAX_SESSIONS = 32"
definition DEFAULT_FINISHED_TTL_S :: rat where "DEFAULT_FINISHED_TTL_S = 600"
definition DEFAULT_MAX_SESSION_REGISTRIES :: nat where "DEFAULT_MAX_SESSION_REGISTRIES = 128"

record 'h process_registry =
  r_max :: nat
  r_ttl :: rat
  r_handles :: "(string \<times> 'h) list"

definition new_registry :: "'h process_registry" where
  "new_registry = \<lparr>r_max = DEFAULT_MAX_SESSIONS, r_ttl = DEFAULT_FINISHED_TTL_S, r_handles = []\<rparr>"

type_synonym 'h registries = "(string \<times> 'h process_registry) list"

section \<open>One registry\<close>

definition expired :: "'h view \<Rightarrow> rat \<Rightarrow> rat \<Rightarrow> 'h \<Rightarrow> bool" where
  "expired v now ttl h \<longleftrightarrow>
     \<not> v_running v h \<and> (case v_finished_at v h of None \<Rightarrow> False | Some t \<Rightarrow> now - t > ttl)"

definition gc :: "'h view \<Rightarrow> rat \<Rightarrow> 'h process_registry \<Rightarrow> 'h process_registry" where
  "gc v now reg = reg\<lparr>r_handles := filter (\<lambda>(_, h). \<not> expired v now (r_ttl reg) h) (r_handles reg)\<rparr>"

text \<open>The loop of \<open>_enforce_cap\<close> over the keys as they were, oldest first.\<close>

fun evict_finished :: "'h view \<Rightarrow> nat \<Rightarrow> string list \<Rightarrow> (string \<times> 'h) list \<Rightarrow> (string \<times> 'h) list" where
  "evict_finished v cap [] hs = hs"
| "evict_finished v cap (sid # sids) hs =
     (if length hs \<le> cap then hs
      else case map_of hs sid of
             Some h \<Rightarrow> evict_finished v cap sids (if v_running v h then hs else dict_pop hs sid)
           | None \<Rightarrow> evict_finished v cap sids hs)"

definition enforce_cap :: "'h view \<Rightarrow> 'h process_registry \<Rightarrow> 'h process_registry" where
  "enforce_cap v reg = reg\<lparr>r_handles := evict_finished v (r_max reg) (map fst (r_handles reg)) (r_handles reg)\<rparr>"

definition register_process :: "'h view \<Rightarrow> 'h \<Rightarrow> 'h process_registry \<Rightarrow> 'h process_registry" where
  "register_process v h reg = enforce_cap v (reg\<lparr>r_handles := dict_set (r_handles reg) (v_session_id v h) h\<rparr>)"

definition registry_get :: "'h view \<Rightarrow> rat \<Rightarrow> string \<Rightarrow> 'h process_registry \<Rightarrow> 'h option \<times> 'h process_registry" where
  "registry_get v now sid reg = (map_of (r_handles (gc v now reg)) sid, gc v now reg)"

definition list_running :: "'h view \<Rightarrow> rat \<Rightarrow> 'h process_registry \<Rightarrow> 'h list \<times> 'h process_registry" where
  "list_running v now reg = (filter (v_running v) (map snd (r_handles (gc v now reg))), gc v now reg)"

definition list_finished :: "'h view \<Rightarrow> rat \<Rightarrow> 'h process_registry \<Rightarrow> 'h list \<times> 'h process_registry" where
  "list_finished v now reg = (filter (\<lambda>h. \<not> v_running v h) (map snd (r_handles (gc v now reg))), gc v now reg)"

definition registry_all :: "'h view \<Rightarrow> rat \<Rightarrow> 'h process_registry \<Rightarrow> 'h list \<times> 'h process_registry" where
  "registry_all v now reg = (map snd (r_handles (gc v now reg)), gc v now reg)"

section \<open>The store of sessions\<close>

definition has_running :: "'h view \<Rightarrow> 'h process_registry \<Rightarrow> bool" where
  "has_running v reg \<longleftrightarrow> list_ex (\<lambda>(_, h). v_running v h) (r_handles reg)"

definition evictable :: "'h view \<Rightarrow> string \<Rightarrow> 'h registries \<Rightarrow> string option" where
  "evictable v protected regs =
     first_some (\<lambda>(key, reg). if key = protected then None else if has_running v reg then None else Some key) regs"

lemma evictable_Some:
  assumes "evictable v protected regs = Some key"
  shows "key \<noteq> protected" "\<exists>reg. (key, reg) \<in> set regs \<and> \<not> has_running v reg"
  using first_some_Some [OF assms [unfolded evictable_def]] by (auto split: if_splits)

lemma length_dict_pop_less: "(k, x) \<in> set d \<Longrightarrow> length (dict_pop d k) < length d"
  unfolding dict_pop_def by (rule length_filter_less [where x = "(k, x)"]) auto

function prune_registries :: "'h view \<Rightarrow> 'h registries \<Rightarrow> 'h registries" where
  "prune_registries v regs =
     (if length regs \<le> DEFAULT_MAX_SESSION_REGISTRIES then regs
      else case evictable v (fst (last regs)) regs of
             None \<Rightarrow> regs
           | Some key \<Rightarrow> prune_registries v (dict_pop regs key))"
  by pat_completeness auto

termination
  by (relation "measure (\<lambda>(v, regs). length regs)") (auto dest!: evictable_Some(2) intro: length_dict_pop_less)

declare prune_registries.simps [simp del]

definition move_to_end :: "string \<Rightarrow> (string \<times> 'v) list \<Rightarrow> 'v \<Rightarrow> (string \<times> 'v) list" where
  "move_to_end k d x = dict_pop d k @ [(k, x)]"

definition for_session :: "'h view \<Rightarrow> string \<Rightarrow> 'h registries \<Rightarrow> 'h registries" where
  "for_session v key regs =
     (let reg = (case map_of regs key of None \<Rightarrow> new_registry | Some r \<Rightarrow> r)
      in prune_registries v (move_to_end key regs reg))"

definition all_handles :: "'h view \<Rightarrow> rat \<Rightarrow> 'h registries \<Rightarrow> 'h list \<times> 'h registries" where
  "all_handles v now regs =
     (concat (map (\<lambda>(_, reg). fst (registry_all v now reg)) regs), map (\<lambda>(key, reg). (key, snd (registry_all v now reg))) regs)"

text \<open>The search collects garbage in the registries it passes.\<close>

fun find_handle :: "'h view \<Rightarrow> rat \<Rightarrow> string \<Rightarrow> 'h registries \<Rightarrow> 'h option \<times> 'h registries" where
  "find_handle v now sid [] = (None, [])"
| "find_handle v now sid ((key, reg) # regs) =
     (case registry_get v now sid reg of
        (Some h, reg') \<Rightarrow> (Some h, (key, reg') # regs)
      | (None, reg') \<Rightarrow> (case find_handle v now sid regs of (r, regs') \<Rightarrow> (r, (key, reg') # regs')))"

section \<open>Resolving a tool's registry\<close>

text \<open>What a tool context carries: the id of its session if it has one, and whether it has a state at all.
  The registry stored in the state under \<open>temp:process_registry\<close> is part of the world beside the
  session store; without a session and a state the registry belongs to nobody.\<close>

record tool_ctx =
  tc_session_id :: "string option"
  tc_has_state :: bool

record 'h proc_store =
  ps_sessions :: "'h registries"
  ps_temp :: "'h process_registry option"

datatype registry_ref = SessionRef string | StateRef | OrphanRef

definition session_key_from_context :: "tool_ctx \<Rightarrow> string option" where
  "session_key_from_context ctx = tc_session_id ctx"

definition for_state :: "'h proc_store \<Rightarrow> 'h proc_store" where
  "for_state st = (case ps_temp st of Some _ \<Rightarrow> st | None \<Rightarrow> st\<lparr>ps_temp := Some new_registry\<rparr>)"

definition resolve_registry :: "'h view \<Rightarrow> tool_ctx option \<Rightarrow> 'h proc_store \<Rightarrow> registry_ref \<times> 'h proc_store" where
  "resolve_registry v ctx st =
     (case ctx of
        None \<Rightarrow> (OrphanRef, st)
      | Some c \<Rightarrow>
          (case session_key_from_context c of
             Some key \<Rightarrow> (SessionRef key, st\<lparr>ps_sessions := for_session v key (ps_sessions st)\<rparr>)
           | None \<Rightarrow> if tc_has_state c then (StateRef, for_state st) else (OrphanRef, st)))"

definition registry_at :: "registry_ref \<Rightarrow> 'h proc_store \<Rightarrow> 'h process_registry" where
  "registry_at ref st =
     (case ref of
        SessionRef key \<Rightarrow> (case map_of (ps_sessions st) key of Some r \<Rightarrow> r | None \<Rightarrow> new_registry)
      | StateRef \<Rightarrow> (case ps_temp st of Some r \<Rightarrow> r | None \<Rightarrow> new_registry)
      | OrphanRef \<Rightarrow> new_registry)"

definition put_registry :: "registry_ref \<Rightarrow> 'h process_registry \<Rightarrow> 'h proc_store \<Rightarrow> 'h proc_store" where
  "put_registry ref reg st =
     (case ref of
        SessionRef key \<Rightarrow> st\<lparr>ps_sessions := dict_set (ps_sessions st) key reg\<rparr>
      | StateRef \<Rightarrow> st\<lparr>ps_temp := Some reg\<rparr>
      | OrphanRef \<Rightarrow> st)"

section \<open>Running handles stay\<close>

lemma map_of_filter_keep:
  "map_of d k = Some x \<Longrightarrow> distinct (map fst d) \<Longrightarrow> P (k, x) \<Longrightarrow> map_of (filter P d) k = Some x"
proof (induction d)
  case (Cons kv d)
  obtain k' y where kv: "kv = (k', y)" by (cases kv)
  show ?case
  proof (cases "k' = k")
    case False
    with Cons kv show ?thesis by auto
  next
    case True
    with Cons kv show ?thesis by auto
  qed
qed simp

lemma distinct_filter_fst: "distinct (map fst d) \<Longrightarrow> distinct (map fst (filter P d))"
  by (simp add: distinct_map_filter)

lemma distinct_dict_set: "distinct (map fst d) \<Longrightarrow> distinct (map fst (dict_set d k x))"
proof -
  assume d: "distinct (map fst d)"
  have keys: "set (map fst (dict_set d k x)) = insert k (set (map fst d))" for d :: "(string \<times> 'a) list"
    by (induction d) auto
  show ?thesis using d
  proof (induction d)
    case (Cons kv d)
    then show ?case using keys [of d] by (cases kv) (auto simp: image_iff)
  qed simp
qed

lemma gc_keeps_running:
  "map_of (r_handles reg) sid = Some h \<Longrightarrow> distinct (map fst (r_handles reg)) \<Longrightarrow> v_running v h \<Longrightarrow>
     map_of (r_handles (gc v now reg)) sid = Some h"
  by (simp add: gc_def map_of_filter_keep expired_def)

lemma evict_finished_keeps_running:
  "map_of hs sid = Some h \<Longrightarrow> v_running v h \<Longrightarrow> map_of (evict_finished v cap sids hs) sid = Some h"
proof (induction sids arbitrary: hs)
  case (Cons s sids)
  show ?case
  proof (cases "map_of hs s")
    case (Some g)
    have "map_of (if v_running v g then hs else dict_pop hs s) sid = Some h"
      using Cons.prems Some by auto
    from Cons.IH [OF this Cons.prems(2)] show ?thesis using Some Cons.prems by simp
  qed (use Cons in auto)
qed simp

lemma evict_finished_distinct: "distinct (map fst hs) \<Longrightarrow> distinct (map fst (evict_finished v cap sids hs))"
  by (induction sids arbitrary: hs) (auto simp: dict_pop_def distinct_filter_fst split: option.splits)

lemma evict_finished_mono: "set (evict_finished v cap sids hs) \<subseteq> set hs"
proof (induction sids arbitrary: hs)
  case (Cons s sids)
  have "set (evict_finished v cap sids (dict_pop hs s)) \<subseteq> set hs"
    using Cons [of "dict_pop hs s"] by (auto simp: dict_pop_def)
  then show ?case using Cons [of hs] by (auto split: option.splits)
qed simp

lemma evict_finished_bound:
  "distinct (map fst hs) \<Longrightarrow> {k. \<exists>h. (k, h) \<in> set hs \<and> \<not> v_running v h} \<subseteq> set sids \<Longrightarrow>
   length (evict_finished v cap sids hs) \<le> cap \<or> (\<forall>(k, h) \<in> set (evict_finished v cap sids hs). v_running v h)"
proof (induction sids arbitrary: hs)
  case (Cons s sids)
  show ?case
  proof (cases "length hs \<le> cap")
    case False
    define hs' where "hs' = (case map_of hs s of Some h \<Rightarrow> (if v_running v h then hs else dict_pop hs s) | None \<Rightarrow> hs)"
    have step: "evict_finished v cap (s # sids) hs = evict_finished v cap sids hs'"
      using False by (simp add: hs'_def split: option.splits)
    have d: "distinct (map fst hs')" using Cons.prems(1) by (auto simp: hs'_def dict_pop_def distinct_filter_fst split: option.splits)
    have "{k. \<exists>h. (k, h) \<in> set hs' \<and> \<not> v_running v h} \<subseteq> set sids"
    proof
      fix k assume "k \<in> {k. \<exists>h. (k, h) \<in> set hs' \<and> \<not> v_running v h}"
      then obtain h where h: "(k, h) \<in> set hs'" "\<not> v_running v h" by blast
      have in_hs: "(k, h) \<in> set hs" using h(1) by (auto simp: hs'_def dict_pop_def split: option.splits if_splits)
      have "k \<noteq> s"
      proof
        assume "k = s"
        then have "map_of hs s = Some h" using in_hs Cons.prems(1) by simp
        then show False using h \<open>k = s\<close> by (auto simp: hs'_def dict_pop_def)
      qed
      then show "k \<in> set sids" using in_hs h(2) Cons.prems(2) by auto
    qed
    from Cons.IH [OF d this] show ?thesis by (simp only: step)
  qed simp
qed auto

lemma register_keeps_running:
  assumes "map_of (r_handles reg) sid = Some h" "v_running v h" "v_session_id v g = sid \<longrightarrow> g = h"
  shows "map_of (r_handles (register_process v g reg)) sid = Some h"
  using assms by (auto simp: register_process_def enforce_cap_def intro!: evict_finished_keeps_running)

lemma register_finds:
  "v_running v h \<Longrightarrow> map_of (r_handles (register_process v h reg)) (v_session_id v h) = Some h"
  by (simp add: register_process_def enforce_cap_def evict_finished_keeps_running)

text \<open>A store is well formed when its keys and those of every registry are distinct.\<close>

definition regs_wf :: "'h registries \<Rightarrow> bool" where
  "regs_wf regs \<longleftrightarrow> distinct (map fst regs) \<and> (\<forall>(_, reg) \<in> set regs. distinct (map fst (r_handles reg)))"

lemma regs_wf_filter: "regs_wf regs \<Longrightarrow> regs_wf (filter P regs)"
  by (auto simp: regs_wf_def distinct_filter_fst)

lemma prune_registries_wf: "regs_wf regs \<Longrightarrow> regs_wf (prune_registries v regs)"
proof (induction v regs rule: prune_registries.induct)
  case (1 v regs)
  then show ?case
    by (subst prune_registries.simps) (auto simp: dict_pop_def regs_wf_filter split: option.splits)
qed

lemma prune_keeps:
  assumes "regs_wf regs" "map_of regs key = Some reg" "has_running v reg \<or> key = fst (last regs)"
  shows "map_of (prune_registries v regs) key = Some reg"
  using assms
proof (induction v regs rule: prune_registries.induct)
  case (1 v regs)
  show ?case
  proof (cases "length regs \<le> DEFAULT_MAX_SESSION_REGISTRIES \<or> evictable v (fst (last regs)) regs = None")
    case True
    then show ?thesis using 1 by (subst prune_registries.simps) (auto split: option.splits)
  next
    case False
    then obtain k where k: "evictable v (fst (last regs)) regs = Some k" by auto
    note e = evictable_Some [OF k]
    have "k \<noteq> key"
    proof
      assume "k = key"
      then obtain r where "(key, r) \<in> set regs" "\<not> has_running v r" using e(2) by auto
      then have "r = reg" using "1.prems"(1,2) by (auto simp: regs_wf_def)
      then show False using \<open>\<not> has_running v r\<close> "1.prems"(3) e(1) \<open>k = key\<close> by auto
    qed
    moreover have ne: "regs \<noteq> []" using "1.prems"(2) by auto
    moreover have "last (dict_pop regs k) = last regs"
    proof -
      have "dict_pop (butlast regs @ [last regs]) k = filter (\<lambda>kv. fst kv \<noteq> k) (butlast regs) @ [last regs]"
        using e(1) by (simp add: dict_pop_def)
      then have "dict_pop regs k = filter (\<lambda>kv. fst kv \<noteq> k) (butlast regs) @ [last regs]" using ne by simp
      then show ?thesis by simp
    qed
    ultimately have "map_of (prune_registries v (dict_pop regs k)) key = Some reg"
      using 1 False k by (intro "1.IH") (auto simp: dict_pop_def regs_wf_filter intro: map_of_filter_keep simp: regs_wf_def distinct_filter_fst)
    then show ?thesis using False k by (subst prune_registries.simps) simp
  qed
qed

lemma prune_bound:
  "length (prune_registries v regs) \<le> DEFAULT_MAX_SESSION_REGISTRIES \<or>
   evictable v (fst (last (prune_registries v regs))) (prune_registries v regs) = None"
proof (induction v regs rule: prune_registries.induct)
  case (1 v regs)
  show ?case
  proof (cases "length regs \<le> DEFAULT_MAX_SESSION_REGISTRIES")
    case True
    then show ?thesis by (simp add: prune_registries.simps [of v regs])
  next
    case False
    then show ?thesis using 1
      by (cases "evictable v (fst (last regs)) regs") (simp_all add: prune_registries.simps [of v regs])
  qed
qed

section \<open>Runs\<close>

text \<open>What can happen to the store: a tool registers a handle, looks one up or lists them in the registry of its
  context, and the host environment lists every handle or searches for one.\<close>

datatype 'h reg_event =
    EvRegister "tool_ctx option" 'h
  | EvGet "tool_ctx option" string
  | EvList "tool_ctx option"
  | EvAllHandles
  | EvFind string

definition in_registry :: "'h view \<Rightarrow> tool_ctx option \<Rightarrow> ('h process_registry \<Rightarrow> 'h process_registry) \<Rightarrow> 'h proc_store \<Rightarrow> 'h proc_store" where
  "in_registry v ctx f st =
     (case resolve_registry v ctx st of (ref, st') \<Rightarrow> put_registry ref (f (registry_at ref st')) st')"

fun reg_step :: "'h view \<Rightarrow> rat \<Rightarrow> 'h reg_event \<Rightarrow> 'h proc_store \<Rightarrow> 'h proc_store" where
  "reg_step v now (EvRegister ctx h) st = in_registry v ctx (register_process v h) st"
| "reg_step v now (EvGet ctx sid) st = in_registry v ctx (\<lambda>r. snd (registry_get v now sid r)) st"
| "reg_step v now (EvList ctx) st = in_registry v ctx (\<lambda>r. snd (list_finished v now (snd (list_running v now r)))) st"
| "reg_step v now EvAllHandles st = st\<lparr>ps_sessions := snd (all_handles v now (ps_sessions st))\<rparr>"
| "reg_step v now (EvFind sid) st = st\<lparr>ps_sessions := snd (find_handle v now sid (ps_sessions st))\<rparr>"

definition reg_run :: "('h view \<times> rat \<times> 'h reg_event) list \<Rightarrow> 'h proc_store \<Rightarrow> 'h proc_store" where
  "reg_run evs st = fold (\<lambda>(v, now, ev). reg_step v now ev) evs st"

definition registered :: "string \<Rightarrow> string \<Rightarrow> 'h \<Rightarrow> 'h registries \<Rightarrow> bool" where
  "registered key sid h regs \<longleftrightarrow> regs_wf regs \<and> (\<exists>reg. map_of regs key = Some reg \<and> map_of (r_handles reg) sid = Some h)"

text \<open>What a change of one registry must respect.\<close>

definition reg_ok :: "('h process_registry \<Rightarrow> 'h process_registry) \<Rightarrow> bool" where
  "reg_ok f \<longleftrightarrow> (\<forall>reg. distinct (map fst (r_handles reg)) \<longrightarrow> distinct (map fst (r_handles (f reg))))"

definition reg_keeps :: "string \<Rightarrow> 'h \<Rightarrow> ('h process_registry \<Rightarrow> 'h process_registry) \<Rightarrow> bool" where
  "reg_keeps sid h f \<longleftrightarrow> (\<forall>reg. distinct (map fst (r_handles reg)) \<longrightarrow> map_of (r_handles reg) sid = Some h \<longrightarrow>
     map_of (r_handles (f reg)) sid = Some h)"

lemma reg_ok_gc: "reg_ok (gc v now)"
  by (simp add: reg_ok_def gc_def distinct_filter_fst)

lemma reg_ok_register: "reg_ok (register_process v h)"
  by (simp add: reg_ok_def register_process_def enforce_cap_def evict_finished_distinct distinct_dict_set)

lemma reg_ok_comp: "reg_ok f \<Longrightarrow> reg_ok g \<Longrightarrow> reg_ok (\<lambda>r. g (f r))"
  by (simp add: reg_ok_def)

lemma reg_keeps_gc: "v_running v h \<Longrightarrow> reg_keeps sid h (gc v now)"
  by (simp add: reg_keeps_def gc_keeps_running)

lemma reg_keeps_comp: "reg_ok f \<Longrightarrow> reg_keeps sid h f \<Longrightarrow> reg_keeps sid h g \<Longrightarrow> reg_keeps sid h (\<lambda>r. g (f r))"
  by (simp add: reg_keeps_def reg_ok_def)

lemma reg_keeps_register: "v_running v h \<Longrightarrow> v_session_id v g = sid \<longrightarrow> g = h \<Longrightarrow> reg_keeps sid h (register_process v g)"
  by (simp add: reg_keeps_def register_keeps_running)

lemma regs_wf_set: "regs_wf regs \<Longrightarrow> distinct (map fst (r_handles reg)) \<Longrightarrow> regs_wf (dict_set regs key reg)"
proof -
  assume w: "regs_wf regs" and d: "distinct (map fst (r_handles reg))"
  have "set (dict_set regs key reg) \<subseteq> insert (key, reg) (set regs)" by (induction regs) auto
  then show ?thesis using w d distinct_dict_set [of regs key reg] by (auto simp: regs_wf_def)
qed

lemma regs_wf_map_of: "regs_wf regs \<Longrightarrow> map_of regs key = Some reg \<Longrightarrow> distinct (map fst (r_handles reg))"
  by (auto simp: regs_wf_def dest!: map_of_SomeD)

lemma for_session_wf: "regs_wf regs \<Longrightarrow> regs_wf (for_session v key regs)"
proof -
  assume w: "regs_wf regs"
  let ?reg = "case map_of regs key of None \<Rightarrow> new_registry | Some r \<Rightarrow> r"
  have "distinct (map fst (r_handles ?reg))"
    using regs_wf_map_of [OF w] by (auto simp: new_registry_def split: option.splits)
  moreover have "regs_wf (dict_pop regs key)" "key \<notin> fst ` set (dict_pop regs key)"
    using w by (auto simp: dict_pop_def regs_wf_filter)
  ultimately have "regs_wf (move_to_end key regs ?reg)" by (auto simp: move_to_end_def regs_wf_def)
  then show ?thesis by (simp add: for_session_def Let_def prune_registries_wf)
qed

lemma for_session_keeps:
  assumes w: "regs_wf regs" and m: "map_of regs k = Some reg" and keep: "has_running v reg \<or> k = key"
  shows "map_of (for_session v key regs) k = Some reg"
proof -
  let ?reg = "case map_of regs key of None \<Rightarrow> new_registry | Some r \<Rightarrow> r"
  have d: "distinct (map fst (r_handles ?reg))"
    using regs_wf_map_of [OF w] by (auto simp: new_registry_def split: option.splits)
  have wf: "regs_wf (move_to_end key regs ?reg)" using w d by (auto simp: move_to_end_def dict_pop_def regs_wf_def distinct_filter_fst)
  have "map_of (move_to_end key regs ?reg) k = Some reg" using m by (auto simp: move_to_end_def map_add_def)
  moreover have "fst (last (move_to_end key regs ?reg)) = key" by (simp add: move_to_end_def)
  ultimately show ?thesis using prune_keeps [OF wf, of k reg v] keep by (simp add: for_session_def Let_def)
qed

lemma for_session_present: "regs_wf regs \<Longrightarrow> map_of (for_session v key regs) key = Some (case map_of regs key of None \<Rightarrow> new_registry | Some r \<Rightarrow> r)"
proof -
  assume w: "regs_wf regs"
  let ?reg = "case map_of regs key of None \<Rightarrow> new_registry | Some r \<Rightarrow> r"
  have d: "distinct (map fst (r_handles ?reg))"
    using regs_wf_map_of [OF w] by (auto simp: new_registry_def split: option.splits)
  have wf: "regs_wf (move_to_end key regs ?reg)" using w d by (auto simp: move_to_end_def dict_pop_def regs_wf_def distinct_filter_fst)
  have "map_of (move_to_end key regs ?reg) key = Some ?reg" by (simp add: move_to_end_def map_add_def)
  moreover have "fst (last (move_to_end key regs ?reg)) = key" by (simp add: move_to_end_def)
  ultimately show ?thesis using prune_keeps [OF wf, of key ?reg v] by (simp only: for_session_def Let_def) simp
qed

lemma running_registry: "map_of (r_handles reg) sid = Some h \<Longrightarrow> v_running v h \<Longrightarrow> has_running v reg"
  by (auto simp: has_running_def list_ex_iff dest!: map_of_SomeD)

lemma registered_for_session: "registered key sid h regs \<Longrightarrow> v_running v h \<Longrightarrow> registered key sid h (for_session v k regs)"
  by (auto simp: registered_def for_session_wf intro: for_session_keeps running_registry)

lemma in_registry_registered:
  assumes r: "registered key sid h (ps_sessions st)" and v: "v_running v h" and ok: "reg_ok f"
    and keep: "\<And>c. ctx = Some c \<Longrightarrow> tc_session_id c = Some key \<Longrightarrow> reg_keeps sid h f"
  shows "registered key sid h (ps_sessions (in_registry v ctx f st))"
proof (cases "\<exists>c k. ctx = Some c \<and> tc_session_id c = Some k")
  case False
  then have "ps_sessions (in_registry v ctx f st) = ps_sessions st"
    by (auto simp: in_registry_def resolve_registry_def session_key_from_context_def for_state_def put_registry_def split: option.splits)
  with r show ?thesis by simp
next
  case True
  then obtain c k where c: "ctx = Some c" "tc_session_id c = Some k" by blast
  let ?regs = "for_session v k (ps_sessions st)"
  have wf: "regs_wf ?regs" using r by (simp add: registered_def for_session_wf)
  obtain rk where rk: "map_of ?regs k = Some rk" using for_session_present [of "ps_sessions st" v k] r by (auto simp: registered_def)
  have eq: "ps_sessions (in_registry v ctx f st) = dict_set ?regs k (f rk)"
    by (simp add: c in_registry_def resolve_registry_def session_key_from_context_def put_registry_def registry_at_def rk)
  have "distinct (map fst (r_handles rk))" using regs_wf_map_of [OF wf rk] .
  then have wf': "regs_wf (dict_set ?regs k (f rk))" using ok wf by (simp add: regs_wf_set reg_ok_def)
  obtain reg where reg: "map_of ?regs key = Some reg" "map_of (r_handles reg) sid = Some h"
    using registered_for_session [OF r v, of k] by (auto simp: registered_def)
  have "\<exists>reg. map_of (dict_set ?regs k (f rk)) key = Some reg \<and> map_of (r_handles reg) sid = Some h"
  proof (cases "k = key")
    case True
    then have "reg_keeps sid h f" using keep c by simp
    then have "map_of (r_handles (f rk)) sid = Some h"
      using True reg rk regs_wf_map_of [OF wf rk] by (simp add: reg_keeps_def)
    then show ?thesis using True by simp
  qed (use reg in simp)
  with wf' show ?thesis by (simp add: registered_def eq)
qed

text \<open>A pass over the store in which some registries collect their garbage.\<close>

definition swept :: "'h view \<Rightarrow> rat \<Rightarrow> string \<times> 'h process_registry \<Rightarrow> string \<times> 'h process_registry \<Rightarrow> bool" where
  "swept v now kr kr' \<longleftrightarrow> fst kr' = fst kr \<and> (snd kr' = snd kr \<or> snd kr' = gc v now (snd kr))"

lemma swept_keys: "list_all2 (swept v now) regs regs' \<Longrightarrow> map fst regs' = map fst regs"
  by (induction rule: list_all2_induct) (auto simp: swept_def)

lemma swept_distinct:
  "list_all2 (swept v now) regs regs' \<Longrightarrow> (\<forall>(_, r) \<in> set regs. distinct (map fst (r_handles r))) \<Longrightarrow>
   (\<forall>(_, r) \<in> set regs'. distinct (map fst (r_handles r)))"
proof (induction rule: list_all2_induct)
  case (Cons kr regs kr' regs')
  then show ?case using reg_ok_gc [of v now] by (auto simp: swept_def reg_ok_def case_prod_beta)
qed simp

lemma swept_map_of:
  "list_all2 (swept v now) regs regs' \<Longrightarrow> map_of regs key = Some reg \<Longrightarrow> map_of regs' key = Some reg \<or> map_of regs' key = Some (gc v now reg)"
proof (induction rule: list_all2_induct)
  case (Cons kr regs kr' regs')
  then show ?case by (cases kr; cases kr') (auto simp: swept_def split: if_splits)
qed simp

lemma registered_swept:
  assumes "registered key sid h regs" "list_all2 (swept v now) regs regs'" "v_running v h"
  shows "registered key sid h regs'"
proof -
  obtain reg where w: "regs_wf regs" and m: "map_of regs key = Some reg" "map_of (r_handles reg) sid = Some h"
    using assms(1) by (auto simp: registered_def)
  have "regs_wf regs'" using w swept_keys [OF assms(2)] swept_distinct [OF assms(2)] by (simp add: regs_wf_def)
  moreover have "map_of (r_handles (gc v now reg)) sid = Some h"
    by (rule gc_keeps_running [OF m(2) regs_wf_map_of [OF w m(1)] assms(3)])
  ultimately show ?thesis using swept_map_of [OF assms(2) m(1)] m(2) by (auto simp: registered_def)
qed

lemma all_handles_swept: "list_all2 (swept v now) regs (snd (all_handles v now regs))"
  by (induction regs) (auto simp: all_handles_def registry_all_def swept_def)

lemma find_handle_swept: "list_all2 (swept v now) regs (snd (find_handle v now s regs))"
proof (induction regs)
  case (Cons kr regs)
  obtain r regs' where f: "find_handle v now s regs = (r, regs')" by (cases "find_handle v now s regs")
  have "list_all2 (swept v now) regs regs" by (simp add: list_all2_same swept_def)
  moreover have "swept v now kr kr" "swept v now kr (fst kr, gc v now (snd kr))" by (simp_all add: swept_def)
  ultimately show ?case using Cons f
    by (cases kr; cases "map_of (r_handles (gc v now (snd kr))) s") (auto simp: registry_get_def)
qed simp

text \<open>The events under which a handle must stay: it runs whenever the store is touched, and nothing else is registered
  under its id in its session.\<close>

definition undisturbed :: "string \<Rightarrow> string \<Rightarrow> 'h \<Rightarrow> 'h view \<times> rat \<times> 'h reg_event \<Rightarrow> bool" where
  "undisturbed key sid h e \<longleftrightarrow>
     (case e of (v, now, ev) \<Rightarrow> v_running v h \<and>
        (case ev of
           EvRegister (Some c) g \<Rightarrow> tc_session_id c = Some key \<and> v_session_id v g = sid \<longrightarrow> g = h
         | _ \<Rightarrow> True))"

lemma reg_step_registered:
  assumes "registered key sid h (ps_sessions st)" "undisturbed key sid h (v, now, ev)"
  shows "registered key sid h (ps_sessions (reg_step v now ev st))"
proof -
  have v: "v_running v h" using assms(2) by (simp add: undisturbed_def)
  note keeps = in_registry_registered [OF assms(1) v]
  show ?thesis
  proof (cases ev)
    case (EvRegister ctx g)
    with assms(2) v show ?thesis
      by (auto intro!: keeps simp: reg_ok_register undisturbed_def intro: reg_keeps_register)
  next
    case (EvGet ctx s)
    then show ?thesis using keeps [OF reg_ok_gc reg_keeps_gc [OF v]] by (simp add: registry_get_def)
  next
    case (EvList ctx)
    then show ?thesis
      using keeps [OF reg_ok_comp [OF reg_ok_gc reg_ok_gc] reg_keeps_comp [OF reg_ok_gc reg_keeps_gc [OF v] reg_keeps_gc [OF v]]]
      by (simp add: list_finished_def list_running_def)
  qed (use registered_swept [OF assms(1) all_handles_swept v] registered_swept [OF assms(1) find_handle_swept v] in simp_all)
qed

lemma reg_run_registered:
  "registered key sid h (ps_sessions st) \<Longrightarrow> list_all (undisturbed key sid h) evs \<Longrightarrow> registered key sid h (ps_sessions (reg_run evs st))"
proof (induction evs arbitrary: st)
  case (Cons e evs)
  obtain v now ev where e: "e = (v, now, ev)" by (cases e)
  have "registered key sid h (ps_sessions (reg_step v now ev st))" using Cons.prems e by (auto intro: reg_step_registered)
  from Cons.IH [OF this] Cons.prems e show ?case by (simp add: reg_run_def)
qed (simp add: reg_run_def)

lemma register_registered:
  assumes "regs_wf (ps_sessions st)" "v_running v h" "tc_session_id c = Some key"
  shows "registered key (v_session_id v h) h (ps_sessions (reg_step v now (EvRegister (Some c) h) st))"
proof -
  let ?regs = "for_session v key (ps_sessions st)"
  have wf: "regs_wf ?regs" using assms(1) by (rule for_session_wf)
  obtain rk where rk: "map_of ?regs key = Some rk" using for_session_present [OF assms(1), of v key] by auto
  have "ps_sessions (reg_step v now (EvRegister (Some c) h) st) = dict_set ?regs key (register_process v h rk)"
    by (simp add: assms(3) in_registry_def resolve_registry_def session_key_from_context_def put_registry_def registry_at_def rk)
  moreover have "regs_wf (dict_set ?regs key (register_process v h rk))"
    using regs_wf_set [OF wf] regs_wf_map_of [OF wf rk] reg_ok_register [of v h] by (simp add: reg_ok_def)
  ultimately show ?thesis using register_finds [of v h rk] assms(2) by (simp add: registered_def)
qed

section \<open>Properties\<close>

text \<open>C31: A running process is never forgotten. Once a tool of a session has registered its handle,
  any sequence of later registrations, lookups, listings and searches of any session, during which the
  process runs and nobody registers another handle under its id, ends in a store where a lookup from that session finds it,
  however full the store and the registry became.\<close>

theorem running_handle_stays_reachable:
  assumes "regs_wf (ps_sessions st)" and "tc_session_id c = Some key" and "v_running v h"
    and "list_all (undisturbed key (v_session_id v h) h) evs" and "v_running v' h"
  shows "case resolve_registry v' (Some c) (reg_run evs (reg_step v now (EvRegister (Some c) h) st)) of
      (ref, st') \<Rightarrow> fst (registry_get v' now' (v_session_id v h) (registry_at ref st')) = Some h"
proof -
  let ?st = "reg_run evs (reg_step v now (EvRegister (Some c) h) st)"
  have "registered key (v_session_id v h) h (ps_sessions ?st)"
    by (rule reg_run_registered [OF register_registered [OF assms(1,3,2)] assms(4)])
  from registered_for_session [OF this assms(5), of key]
  obtain reg where r: "regs_wf (for_session v' key (ps_sessions ?st))" "map_of (for_session v' key (ps_sessions ?st)) key = Some reg"
    "map_of (r_handles reg) (v_session_id v h) = Some h" by (auto simp: registered_def)
  have "map_of (r_handles (gc v' now' reg)) (v_session_id v h) = Some h"
    by (rule gc_keeps_running [OF r(3) regs_wf_map_of [OF r(1,2)] assms(5)])
  then show ?thesis
    by (simp add: assms(2) resolve_registry_def session_key_from_context_def registry_at_def registry_get_def r(2) del: reg_step.simps)
qed

definition all_running :: "string view" where
  "all_running = \<lparr>v_session_id = id, v_running = (\<lambda>_. True), v_finished_at = (\<lambda>_. None)\<rparr>"

definition only_a_running :: "string view" where
  "only_a_running = \<lparr>v_session_id = id, v_running = (\<lambda>h. h = ''a''), v_finished_at = (\<lambda>_. Some 0)\<rparr>"

theorem running_handle_stays_reachable_witness:
  "case resolve_registry only_a_running (Some \<lparr>tc_session_id = Some ''s'', tc_has_state = True\<rparr>)
      (reg_run [(only_a_running, 700, EvRegister (Some \<lparr>tc_session_id = Some ''s'', tc_has_state = True\<rparr>) ''b''),
                (only_a_running, 800, EvList (Some \<lparr>tc_session_id = Some ''t'', tc_has_state = True\<rparr>)), (only_a_running, 900, EvAllHandles)]
        (reg_step all_running 0 (EvRegister (Some \<lparr>tc_session_id = Some ''s'', tc_has_state = True\<rparr>) ''a'')
          \<lparr>ps_sessions = [], ps_temp = None\<rparr>)) of
    (ref, st') \<Rightarrow> fst (registry_get only_a_running 1000 (v_session_id all_running ''a'') (registry_at ref st')) = Some ''a''"
  by (rule running_handle_stays_reachable [where key = "''s''"])
    (simp_all add: regs_wf_def all_running_def only_a_running_def undisturbed_def)

text \<open>A registry over its cap holds running handles only.\<close>

lemma registry_over_cap_is_all_running:
  assumes "distinct (map fst (r_handles reg))"
  shows "length (r_handles (register_process v h reg)) \<le> r_max reg \<or> (\<forall>(k, g) \<in> set (r_handles (register_process v h reg)). v_running v g)"
proof -
  let ?hs = "dict_set (r_handles reg) (v_session_id v h) h"
  have "{k. \<exists>h. (k, h) \<in> set ?hs \<and> \<not> v_running v h} \<subseteq> set (map fst ?hs)" by force
  from evict_finished_bound [OF distinct_dict_set [OF assms] this, of "r_max reg"]
  show ?thesis by (simp add: register_process_def enforce_cap_def)
qed

text \<open>A tool without a session and a state registers into a registry that no later call sees.\<close>

lemma orphan_registration_is_lost: "reg_step v now (EvRegister None h) st = st"
  by (simp add: in_registry_def resolve_registry_def put_registry_def)

end
