(* ===== verification/Handles.thy ===== *)
theory Handles
  imports Sandbox_Env Process_Registry
begin

text \<open>
  The interface of a background process (\<open>environment/process.py\<close>) as a record of operations on a handle
  and the world it lives in, and its two implementations: the processes of the host, with what
  \<open>environment/local.py\<close> does with them, and the handles on the processes of a sandbox. What the
  operating system does on the host while a call waits is a parameter.
\<close>

section \<open>The interface\<close>

record ('h, 'n) handle_io =
  hi_session_id :: "'h \<Rightarrow> string"
  hi_pid :: "'h \<Rightarrow> 'n \<Rightarrow> int"
  hi_command :: "'h \<Rightarrow> 'n \<Rightarrow> string"
  hi_started_at :: "'h \<Rightarrow> 'n \<Rightarrow> rat"
  hi_finished_at :: "'h \<Rightarrow> 'n \<Rightarrow> rat option"
  hi_running :: "'h \<Rightarrow> 'n \<Rightarrow> bool"
  hi_exit_code :: "'h \<Rightarrow> 'n \<Rightarrow> pyval"
  hi_output_size :: "'h \<Rightarrow> 'n \<Rightarrow> int"
  hi_idle_seconds :: "rat \<Rightarrow> 'h \<Rightarrow> 'n \<Rightarrow> rat"
  hi_read :: "rat \<Rightarrow> int \<Rightarrow> int option \<Rightarrow> 'h \<Rightarrow> 'n \<Rightarrow> (env_exn + (byte list \<times> int \<times> pyval)) \<times> 'n"
  hi_write :: "byte list \<Rightarrow> 'h \<Rightarrow> 'n \<Rightarrow> write_result \<times> 'n"
  hi_kill :: "rat \<Rightarrow> 'h \<Rightarrow> 'n \<Rightarrow> (env_exn + unit) \<times> 'n"
  hi_wait :: "rat option \<Rightarrow> 'h \<Rightarrow> rat \<Rightarrow> 'n \<Rightarrow> ((env_exn + pyval) \<times> rat \<times> 'n) option"

definition view_of :: "('h, 'n) handle_io \<Rightarrow> 'n \<Rightarrow> 'h view" where
  "view_of io n = \<lparr>v_session_id = hi_session_id io, v_running = (\<lambda>h. hi_running io h n), v_finished_at = (\<lambda>h. hi_finished_at io h n)\<rparr>"

section \<open>The host\<close>

text \<open>The processes of the host by their ids; a handle is the id of a process.\<close>

type_synonym host_procs = "(string \<times> proc) list"

record host_os =
  os_kill :: "string \<Rightarrow> host_procs \<Rightarrow> kill_input"
  os_pty_write :: "string \<Rightarrow> byte list \<Rightarrow> host_procs \<Rightarrow> string + nat"
  os_blocked :: "rat option \<Rightarrow> string \<Rightarrow> rat \<Rightarrow> host_procs \<Rightarrow> (rat \<times> host_procs) option"

definition host_proc :: "string \<Rightarrow> host_procs \<Rightarrow> proc" where
  "host_proc sid ps = (case map_of ps sid of Some p \<Rightarrow> p | None \<Rightarrow> proc_init [] 0 0 0 [])"

definition local_io :: "host_os \<Rightarrow> (string, host_procs) handle_io" where
  "local_io os =
     \<lparr>hi_session_id = (\<lambda>h. h), hi_pid = (\<lambda>h ps. p_pid (host_proc h ps)), hi_command = (\<lambda>h ps. p_command (host_proc h ps)),
      hi_started_at = (\<lambda>h ps. p_started_at (host_proc h ps)), hi_finished_at = (\<lambda>h ps. p_finished_at (host_proc h ps)),
      hi_running = (\<lambda>h ps. is_running (host_proc h ps)), hi_exit_code = (\<lambda>h ps. opt_int (p_exit_code (host_proc h ps))),
      hi_output_size = (\<lambda>h ps. p_total_bytes (host_proc h ps)), hi_idle_seconds = (\<lambda>now h ps. idle_seconds now (host_proc h ps)),
      hi_read = (\<lambda>now offset limit h ps. (case proc_read offset limit (host_proc h ps) of (d, nx, code) \<Rightarrow> (Inr (d, nx, opt_int code), ps))),
      hi_write = (\<lambda>data h ps. (case proc_write (\<lambda>d. os_pty_write os h d ps) data (host_proc h ps) of
           Inl (RuntimeError m) \<Rightarrow> AlreadyExited m | Inl (OSError m) \<Rightarrow> WriteFailed (EOSError m) | Inl _ \<Rightarrow> WriteFailed (EOther []) | Inr _ \<Rightarrow> Written, ps)),
      hi_kill = (\<lambda>now h ps. (Inr (), dict_set ps h (snd (proc_kill (os_kill os h ps) (host_proc h ps))))),
      hi_wait = (\<lambda>timeout h now ps. map_option (\<lambda>(t, ps'). (Inr (opt_int (proc_wait (host_proc h ps'))), t, ps')) (os_blocked os timeout h now ps))\<rparr>"

section \<open>The local environment\<close>

definition handle_to_row :: "('h, 'n) handle_io \<Rightarrow> (rat \<Rightarrow> pyval) \<Rightarrow> rat \<Rightarrow> 'n \<Rightarrow> 'h \<Rightarrow> pydict" where
  "handle_to_row io float_val now n h =
     [(''session_id'', PyStr (hi_session_id io h)), (''command'', PyStr (hi_command io h n)), (''running'', PyBool (hi_running io h n)),
      (''exit_code'', hi_exit_code io h n), (''idle_seconds'', float_val (hi_idle_seconds io now h n)),
      (''output_size'', PyInt (hi_output_size io h n)), (''pid'', PyInt (hi_pid io h n)), (''started_at'', float_val (hi_started_at io h n))]"

definition local_scan :: "dir_entry list \<Rightarrow> int \<Rightarrow> pyval list \<times> bool" where
  "local_scan entries limit = list_rows limit [] (sorted_entries entries)"

text \<open>The variables of the child: those of the server itself, overridden by the ones passed, when any are.\<close>

definition spawn_env :: "env_vars \<Rightarrow> env_vars option \<Rightarrow> env_vars option" where
  "spawn_env os_environ env =
     (case env of Some (kv # kvs) \<Rightarrow> Some (fold (\<lambda>(k, x) d. dict_set d k x) (kv # kvs) os_environ) | _ \<Rightarrow> None)"

definition local_list_processes ::
  "('h, 'n) handle_io \<Rightarrow> (rat \<Rightarrow> pyval) \<Rightarrow> rat \<Rightarrow> 'n \<Rightarrow> 'h registries \<Rightarrow> pydict list \<times> 'h registries" where
  "local_list_processes io float_val now n regs =
     apfst (map (handle_to_row io float_val now n)) (all_handles (view_of io n) now regs)"

definition local_kill_process ::
  "('h, 'n) handle_io \<Rightarrow> rat \<Rightarrow> string \<Rightarrow> 'n \<Rightarrow> 'h registries \<Rightarrow> (env_exn + bool) \<times> 'n \<times> 'h registries" where
  "local_kill_process io now sid n regs =
     (case find_handle (view_of io n) now sid regs of
        (None, regs') \<Rightarrow> (Inr False, n, regs')
      | (Some h, regs') \<Rightarrow> (case hi_kill io now h n of (r, n') \<Rightarrow> (py_bind r (\<lambda>_. Inr True), n', regs')))"

section \<open>The sandbox\<close>

record 'm sandbox_world =
  sw_handles :: "(string \<times> sproc) list"
  sw_client :: client
  sw_net :: 'm

definition sw_proc :: "string \<Rightarrow> 'm sandbox_world \<Rightarrow> sproc" where
  "sw_proc sid w = (case map_of (sw_handles w) sid of Some h \<Rightarrow> h | None \<Rightarrow> sproc_init sid 0 [] 0)"

definition sw_put :: "sproc \<Rightarrow> client \<times> 'm \<Rightarrow> 'm sandbox_world \<Rightarrow> 'm sandbox_world" where
  "sw_put h cn w = w\<lparr>sw_handles := dict_set (sw_handles w) (sp_session_id h) h, sw_client := fst cn, sw_net := snd cn\<rparr>"

definition sandbox_io :: "'m send \<Rightarrow> 'm timing \<Rightarrow> (string, 'm sandbox_world) handle_io" where
  "sandbox_io send tm =
     \<lparr>hi_session_id = (\<lambda>h. h), hi_pid = (\<lambda>h w. sp_pid (sw_proc h w)), hi_command = (\<lambda>h w. sp_command (sw_proc h w)),
      hi_started_at = (\<lambda>h w. sp_started_at (sw_proc h w)), hi_finished_at = (\<lambda>h w. sp_finished_at (sw_proc h w)),
      hi_running = (\<lambda>h w. sp_is_running (sw_proc h w)), hi_exit_code = (\<lambda>h w. sp_exit_code (sw_proc h w)),
      hi_output_size = (\<lambda>h w. sp_output_size (sw_proc h w)), hi_idle_seconds = (\<lambda>now h w. sp_idle_seconds now (sw_proc h w)),
      hi_read = (\<lambda>now offset limit h w. (case sp_read send now offset limit (sw_proc h w) (sw_client w, sw_net w) of
           (Inl e, cn) \<Rightarrow> (Inl e, w\<lparr>sw_client := fst cn, sw_net := snd cn\<rparr>)
         | (Inr (d, sp), cn) \<Rightarrow> (Inr d, sw_put sp cn w))),
      hi_write = (\<lambda>data h w. (case sp_write send data (sw_proc h w) (sw_client w, sw_net w) of (r, sp, cn) \<Rightarrow> (r, sw_put sp cn w))),
      hi_kill = (\<lambda>now h w. (case sp_kill send now (sw_proc h w) (sw_client w, sw_net w) of
           (Inl e, cn) \<Rightarrow> (Inl e, w\<lparr>sw_client := fst cn, sw_net := snd cn\<rparr>)
         | (Inr sp, cn) \<Rightarrow> (Inr (), sw_put sp cn w))),
      hi_wait = (\<lambda>timeout h now w. map_option (\<lambda>(r, t, l, m). (r, t, sw_put (wt_handle l) (wt_client l, m) w))
           (sp_wait send tm timeout now (sw_proc h w) (sw_client w, sw_net w)))\<rparr>"

text \<open>Until its first status answer a sandbox handle knows nothing of its process: it reports no output, and the time since the
  epoch as the time without output.\<close>

lemma unrefreshed_handle_is_blind:
  assumes "map_of (sw_handles w) sid = Some (sproc_init sid pid command t0)"
  shows "hi_output_size (sandbox_io send tm) sid w = 0" "0 \<le> now \<Longrightarrow> hi_idle_seconds (sandbox_io send tm) now sid w = now"
  using assms by (simp_all add: sandbox_io_def sw_proc_def sproc_init_def sp_idle_seconds_def)

text \<open>A wait with a time limit on a sandboxed process returns.\<close>

lemma sandbox_wait_returns: "\<exists>x. hi_wait (sandbox_io send tm) (Some d) h now w = Some x"
proof -
  have "wait_inv (now, \<lparr>wt_delay = 1 / 10, wt_handle = sw_proc h w, wt_client = sw_client w\<rparr>, sw_net w)" by (simp add: wait_inv_def)
  from ending.loop_returns_within [OF this, where deadline = "now + d" and send = send and tm = tm]
  show ?thesis by (auto simp: sandbox_io_def sp_wait_def)
qed

end
