(* ===== verification/Interactive.thy ===== *)
theory Interactive
  imports Py_Text Py_Regex
begin

text \<open>
  Recognising a process that waits for input (\<open>tools/processes/interactive.py\<close>): the end of its output, without
  the escape sequences of a terminal, against the prompts of common programs.
\<close>

definition INTERACTIVE_IDLE_SECONDS :: rat where "INTERACTIVE_IDLE_SECONDS = 3"
definition INSPECT_WINDOW_BYTES :: nat where "INSPECT_WINDOW_BYTES = 512"

section \<open>Escape sequences\<close>

definition ansi_param :: "byte \<Rightarrow> bool" where
  "ansi_param b \<longleftrightarrow> (0x30 \<le> b \<and> b \<le> 0x39) \<or> b = 0x3B \<or> b = 0x3F"

definition ansi_final :: "byte \<Rightarrow> bool" where
  "ansi_final b \<longleftrightarrow> (0x41 \<le> b \<and> b \<le> 0x5A) \<or> (0x61 \<le> b \<and> b \<le> 0x7A)"

text \<open>What follows the sequence at the start of the bytes, if there is one.\<close>

definition after_ansi :: "byte list \<Rightarrow> byte list option" where
  "after_ansi bs =
     (case bs of
        e # br # rest \<Rightarrow>
          if e = 0x1B \<and> br = 0x5B
          then (case dropWhile ansi_param rest of b # r \<Rightarrow> if ansi_final b then Some r else None | [] \<Rightarrow> None)
          else None
      | _ \<Rightarrow> None)"

lemma after_ansi_shorter: "after_ansi bs = Some r \<Longrightarrow> length r < length bs"
proof -
  assume a: "after_ansi bs = Some r"
  then obtain e br rest b where bs: "bs = e # br # rest" "dropWhile ansi_param rest = b # r"
    by (auto simp: after_ansi_def split: list.splits if_splits)
  have "length (b # r) \<le> length rest" using length_dropWhile_le [of ansi_param rest] bs(2) by simp
  then show ?thesis using bs(1) by simp
qed

function strip_ansi :: "byte list \<Rightarrow> byte list" where
  "strip_ansi [] = []"
| "strip_ansi (b # bs) = (case after_ansi (b # bs) of Some r \<Rightarrow> strip_ansi r | None \<Rightarrow> b # strip_ansi bs)"
  by pat_completeness auto
termination
  by (relation "measure length") (auto dest: after_ansi_shorter)

section \<open>Prompts\<close>

abbreviation sp_star :: regex where "sp_star \<equiv> Star (Cls py_isspace)"
abbreviation sp_plus :: regex where "sp_plus \<equiv> plus (Cls py_isspace)"
abbreviation colon_or_mark :: regex where "colon_or_mark \<equiv> Cls (\<lambda>c. c = CHR '':'' \<or> c = CHR ''?'')"

definition one_of :: "string \<Rightarrow> regex" where
  "one_of s = Cls (\<lambda>c. c \<in> set s)"

definition password_word :: regex where
  "password_word = Seq (lit ''pass'') (alts [lit ''word'', lit ''phrase''])"

definition PROMPT_PATTERNS :: "regex list" where
  "PROMPT_PATTERNS =
     [ignore_case (seqs [password_word, sp_star, colon_or_mark, sp_star, text_end]),
      ignore_case (seqs [password_word, sp_plus, lit ''for'', sp_plus, plus (Cls (\<lambda>c. \<not> py_isspace c)), sp_star, colon_or_mark, sp_star, text_end]),
      seqs [lit ''['', one_of ''yY'', lit ''/'', one_of ''nN'', lit '']'', sp_star, text_end],
      seqs [lit ''('', one_of ''yY'', lit ''es/'', one_of ''nN'', lit ''o)'', opt (lit ''?''), sp_star, text_end],
      seqs [lit ''('', one_of ''yY'', lit ''/'', one_of ''nN'', lit '')'', opt (lit ''?''), sp_star, text_end],
      seqs [LineStart, lit ''>>>'', sp_star, text_end],
      seqs [LineStart, lit ''In'', sp_star, lit ''['', plus (Cls digit_09), lit '']:'', sp_star, text_end],
      seqs [LineStart, lit ''(Pdb)'', sp_star, text_end]]"

text \<open>\<open>text.replace("\r\n", "\n")\<close>.\<close>

fun unify_newlines :: "string \<Rightarrow> string" where
  "unify_newlines (c # d # s) = (if c = CHR 0x0D \<and> d = NL then NL # unify_newlines s else c # unify_newlines (d # s))"
| "unify_newlines s = s"

definition last_n :: "nat \<Rightarrow> 'a list \<Rightarrow> 'a list" where
  "last_n n xs = drop (length xs - n) xs"

definition detect_interactive_prompt :: "byte list \<Rightarrow> rat \<Rightarrow> string option" where
  "detect_interactive_prompt tail idle =
     (if idle < INTERACTIVE_IDLE_SECONDS then None
      else if tail = [] then None
      else let window = strip_ansi (last_n INSPECT_WINDOW_BYTES tail);
               normalized = rstrip_chars (\<lambda>c. c = CHR 0x0D) (unify_newlines (utf8_decode window))
           in first_some (\<lambda>r. re_search r normalized) PROMPT_PATTERNS)"

section \<open>What a detection means\<close>

text \<open>Expressions that match only up to the end of the text.\<close>

definition to_end :: "regex \<Rightarrow> bool" where
  "to_end r \<longleftrightarrow> (\<forall>p q. q \<in> set (re_match r p) \<longrightarrow> rrest q = [])"

lemma to_end_Seq: "to_end b \<Longrightarrow> to_end (Seq a b)"
  by (auto simp: to_end_def)

lemma to_end_text_end: "to_end (Seq text_end Eps)" "to_end (Seq (ignore_case text_end) Eps)"
  by (auto simp: to_end_def text_end_def split: if_splits list.splits)

lemma prompts_reach_the_end: "list_all to_end PROMPT_PATTERNS"
  by (simp add: PROMPT_PATTERNS_def seqs_def to_end_Seq to_end_text_end)

lemma search_text_suffix: "to_end r \<Longrightarrow> search_text r prev s = Some m \<Longrightarrow> \<exists>u. s = u @ m"
proof (induction s arbitrary: prev)
  case (Cons c s)
  show ?case
  proof (cases "re_match r \<lparr>rprev = prev, rrest = c # s, rcap = None\<rparr>")
    case Nil
    then obtain u where "s = u @ m" using Cons by auto
    then show ?thesis by (intro exI [of _ "c # u"]) simp
  next
    case (Cons q qs)
    then have "q \<in> set (re_match r \<lparr>rprev = prev, rrest = c # s, rcap = None\<rparr>)" by simp
    then have "rrest q = []" using Cons.prems(1) unfolding to_end_def by blast
    then show ?thesis using Cons Cons.prems(2) by simp
  qed
qed (auto split: list.splits)

text \<open>A prompt is reported only for a process that has been quiet for three seconds, and it is the end of what the process has
  shown.\<close>

lemma prompt_is_the_end_of_the_output:
  assumes "detect_interactive_prompt tail idle = Some m"
  shows "3 \<le> idle \<and> tail \<noteq> [] \<and>
    (\<exists>u. rstrip_chars (\<lambda>c. c = CHR 0x0D) (unify_newlines (utf8_decode (strip_ansi (last_n INSPECT_WINDOW_BYTES tail)))) = u @ m)"
proof -
  have g: "3 \<le> idle" "tail \<noteq> []" using assms by (auto simp: detect_interactive_prompt_def INTERACTIVE_IDLE_SECONDS_def split: if_splits)
  from assms g obtain r where "r \<in> set PROMPT_PATTERNS"
    "re_search r (rstrip_chars (\<lambda>c. c = CHR 0x0D) (unify_newlines (utf8_decode (strip_ansi (last_n INSPECT_WINDOW_BYTES tail))))) = Some m"
    by (auto simp: detect_interactive_prompt_def Let_def INTERACTIVE_IDLE_SECONDS_def dest!: first_some_Some)
  then show ?thesis
    using g search_text_suffix [of r None] prompts_reach_the_end by (auto simp: re_search_def list_all_iff)
qed

end
