(* ===== verification/Process_Tool.thy ===== *)
theory Process_Tool
  imports Handles Interactive Output_Overflow
begin

text \<open>
  The two tools that run shell commands: \<open>bash\<close> (\<open>tools/processes/terminal.py\<close>), which moves a command that outlasts its time limit to
  the background, and \<open>process\<close> (\<open>tools/processes/process.py\<close>), which starts, inspects and drives background processes.
  Both work on any handle interface of \<open>Handles\<close>, against the registry of their context. The state
  of a tool call is the time, the store of registries and the world of the handles; a call that
  need not return is an \<open>option\<close>. The regular expressions a model writes are compiled by a
  parameter.
\<close>

section \<open>The tools' surroundings\<close>

record ('h, 'n) tool_env =
  te_host :: host
  te_working_dir :: path
  te_spawn :: "string \<Rightarrow> path \<Rightarrow> env_vars option \<Rightarrow> rat \<Rightarrow> 'n \<Rightarrow> (env_exn + 'h) \<times> 'n"
  te_secret_env :: "'n \<Rightarrow> env_vars"
  te_write_file :: "path \<Rightarrow> string \<Rightarrow> 'n \<Rightarrow> unit py \<times> 'n"
  te_new_id :: "'n \<Rightarrow> string"
  te_compile :: "string \<Rightarrow> string + (string \<Rightarrow> string option)"
  te_float :: "rat \<Rightarrow> pyval"

type_synonym ('h, 'n) tool_state = "('h proc_store, 'n) timed"
type_synonym ('h, 'n) tool_result = "((env_exn + pydict) \<times> ('h, 'n) tool_state) option"

definition tool_error :: "string \<Rightarrow> pydict" where
  "tool_error m = [(''error'', PyStr m)]"

definition of_py_exn :: "'a py \<Rightarrow> env_exn + 'a" where
  "of_py_exn r = (case r of Inl _ \<Rightarrow> Inl (EOther []) | Inr x \<Rightarrow> Inr x)"

text \<open>\<open>s.replace(old, new)\<close> for a pattern that is not empty.\<close>

function replace_all :: "string \<Rightarrow> string \<Rightarrow> string \<Rightarrow> string" where
  "replace_all old new s =
     (if old = [] then s
      else case s of
             [] \<Rightarrow> []
           | c # cs \<Rightarrow> if startswith s old then new @ replace_all old new (drop (length old) s) else c # replace_all old new cs)"
  by pat_completeness auto
termination
  by (relation "measure (\<lambda>(old, new, s). length s)") auto

declare replace_all.simps [simp del]

definition open_handle :: "('h, 'n) tool_env \<Rightarrow> string \<Rightarrow> path \<Rightarrow> rat \<Rightarrow> 'n \<Rightarrow> (env_exn + 'h) \<times> 'n" where
  "open_handle te command cwd now n =
     te_spawn te command cwd (if te_secret_env te n = [] then None else Some (te_secret_env te n)) now n"

section \<open>Bash\<close>

definition finished_result :: "pyval \<Rightarrow> string \<times> bool \<times> string option \<Rightarrow> pydict" where
  "finished_result code out =
     (case out of (output, truncated, overflow_path) \<Rightarrow>
        [(''stdout'', PyStr output), (''stderr'', PyStr []), (''exit_code'', code), (''timed_out'', PyBool False), (''truncated'', PyBool truncated)]
        @ (if str_or_empty overflow_path = [] then [] else [(''stdout_overflow_path'', PyStr (str_or_empty overflow_path))]))"

definition promoted_result :: "('h, 'n) handle_io \<Rightarrow> 'n \<Rightarrow> 'h \<Rightarrow> string \<Rightarrow> string \<Rightarrow> pydict" where
  "promoted_result io n h partial command =
     [(''session_id'', PyStr (hi_session_id io h)), (''pid'', PyInt (hi_pid io h n)), (''status'', PyStr ''running''), (''timed_out'', PyBool True),
      (''partial_output'', PyStr partial), (''command'', PyStr command),
      (''hint'', PyStr (''Foreground timeout exceeded; the command is now backgrounded as session '' @ hi_session_id io h
        @ ''. Drive it via the process tool (poll/wait/kill/write).''))]"

definition bash :: "('h, 'n) tool_env \<Rightarrow> ('h, 'n) handle_io \<Rightarrow> tool_ctx option \<Rightarrow> string \<Rightarrow> rat \<Rightarrow> ('h, 'n) tool_state \<Rightarrow> ('h, 'n) tool_result" where
  "bash te io ctx command timeout s =
     (case s of (t, st, n) \<Rightarrow>
        (case path_resolve (te_host te) (te_working_dir te) of
           Inl _ \<Rightarrow> Some (Inl (EOther []), s)
         | Inr rt \<Rightarrow>
             (case open_handle te command rt t n of
                (Inl e, n1) \<Rightarrow> Some (Inl e, t, st, n1)
              | (Inr h, n1) \<Rightarrow>
                  (case hi_wait io (Some timeout) h t n1 of
                     None \<Rightarrow> None
                   | Some (Inl e, t2, n2) \<Rightarrow> Some (Inl e, t2, st, n2)
                   | Some (Inr code, t2, n2) \<Rightarrow>
                       (case hi_read io t2 0 None h n2 of
                          (Inl e, n3) \<Rightarrow> Some (Inl e, t2, st, n3)
                        | (Inr (data, _, _), n3) \<Rightarrow>
                            if code \<noteq> PyNone
                            then (case emit_stream (te_host te) (te_working_dir te) (te_write_file te) ''stdout'' (te_new_id te n3) (utf8_decode data) n3 of
                                    (Inl _, n4) \<Rightarrow> Some (Inl (EOther []), t2, st, n4)
                                  | (Inr out, n4) \<Rightarrow> Some (Inr (finished_result code out), t2, st, n4))
                            else Some (Inr (promoted_result io n3 h (fst (make_preview (utf8_decode data) TERMINAL_OUTPUT_LIMIT TERMINAL_OUTPUT_MAX_LINES)) command),
                                       t2, in_registry (view_of io n3) ctx (register_process (view_of io n3) h) st, n3))))))"

section \<open>Process\<close>

record process_args =
  pa_action :: string
  pa_session_id :: "string option"
  pa_offset :: int
  pa_limit :: int
  pa_timeout :: "rat option"
  pa_data :: "string option"
  pa_submit :: bool
  pa_pattern :: "string option"
  pa_command :: "string option"
  pa_cwd :: "string option"

definition POLL_TAIL_BYTES :: int where "POLL_TAIL_BYTES = 1024"
definition DEFAULT_LOG_LIMIT :: int where "DEFAULT_LOG_LIMIT = 8192"
definition WAIT_FOR_POLL_S :: rat where "WAIT_FOR_POLL_S = 1 / 5"
definition DEFAULT_WAIT_FOR_TIMEOUT_S :: rat where "DEFAULT_WAIT_FOR_TIMEOUT_S = 60"

definition status_word :: "bool \<Rightarrow> pyval" where
  "status_word running = PyStr (if running then ''running'' else ''exited'')"

definition summarize :: "('h, 'n) tool_env \<Rightarrow> ('h, 'n) handle_io \<Rightarrow> 'n \<Rightarrow> 'h \<Rightarrow> pyval" where
  "summarize te io n h =
     PyDict [(''session_id'', PyStr (hi_session_id io h)), (''command'', PyStr (hi_command io h n)), (''pid'', PyInt (hi_pid io h n)),
       (''status'', status_word (hi_running io h n)), (''exit_code'', hi_exit_code io h n), (''started_at'', te_float te (hi_started_at io h n)),
       (''finished_at'', case hi_finished_at io h n of None \<Rightarrow> PyNone | Some f \<Rightarrow> te_float te f), (''output_size'', PyInt (hi_output_size io h n))]"

definition poll_hint :: string where
  "poll_hint = ''Process appears to be waiting on stdin. Either rerun with non-interactive flags (e.g. -y, --yes), or drive it via ''
     @ ''process(action='' @ [SQUOTE] @ ''write'' @ [SQUOTE] @ '', session_id=..., data='' @ [SQUOTE] @ ''...'' @ [SQUOTE] @ '').''"

definition poll :: "('h, 'n) handle_io \<Rightarrow> rat \<Rightarrow> 'h \<Rightarrow> 'n \<Rightarrow> (env_exn + pydict) \<times> 'n" where
  "poll io now h n =
     (case hi_read io now (max 0 (hi_output_size io h n - POLL_TAIL_BYTES)) None h n of
        (Inl e, n') \<Rightarrow> (Inl e, n')
      | (Inr (data, _, code), n') \<Rightarrow>
          (Inr ([(''session_id'', PyStr (hi_session_id io h)), (''status'', status_word (hi_running io h n')), (''exit_code'', code),
             (''tail'', PyStr (utf8_decode data)), (''output_size'', PyInt (hi_output_size io h n'))]
             @ (case (if hi_running io h n' then detect_interactive_prompt data (hi_idle_seconds io now h n') else None) of
                  None \<Rightarrow> []
                | Some prompt \<Rightarrow> [(''interactive'', PyBool True), (''prompt'', PyStr prompt), (''hint'', PyStr poll_hint)])), n'))"

text \<open>One round of waiting for a pattern: the whole buffer is read and searched, then the process and the clock are looked at.\<close>

definition wait_for_round ::
  "('h, 'n) handle_io \<Rightarrow> 'n timing \<Rightarrow> 'h \<Rightarrow> string \<Rightarrow> (string \<Rightarrow> string option) \<Rightarrow> rat \<Rightarrow> ('l, 'n) timed \<Rightarrow> (env_exn + pydict) option \<times> ('l, 'n) timed" where
  "wait_for_round io tm h pattern search deadline s =
     (case timed_call tm (\<lambda>(l, n). case hi_read io (fst s) 0 None h n of (r, n') \<Rightarrow> (r, l, n')) s of
        (Inl e, s') \<Rightarrow> (Some (Inl e), s')
      | (Inr (data, _, code), s') \<Rightarrow>
          (let tail = PyStr (utf8_decode (last_n (nat POLL_TAIL_BYTES) data));
               running = hi_running io h (snd (snd s'));
               sid = (''session_id'', PyStr (hi_session_id io h))
           in case search (utf8_decode data) of
                Some m \<Rightarrow>
                  (Some (Inr [sid, (''matched'', PyBool True), (''pattern'', PyStr pattern), (''match'', PyStr m), (''status'', status_word running),
                     (''exit_code'', code), (''tail'', tail), (''timed_out'', PyBool False)]), s')
              | None \<Rightarrow>
                  if \<not> running
                  then (Some (Inr [sid, (''matched'', PyBool False), (''pattern'', PyStr pattern), (''status'', PyStr ''exited''),
                     (''exit_code'', code), (''tail'', tail), (''timed_out'', PyBool False),
                     (''hint'', PyStr ''Process exited before the pattern appeared.'')]), s')
                  else if fst s' \<ge> deadline
                  then (Some (Inr [sid, (''matched'', PyBool False), (''pattern'', PyStr pattern), (''status'', PyStr ''running''),
                     (''exit_code'', PyNone), (''tail'', tail), (''timed_out'', PyBool True)]), s')
                  else (None, s')))"

definition wait_for ::
  "('h, 'n) tool_env \<Rightarrow> ('h, 'n) handle_io \<Rightarrow> 'n timing \<Rightarrow> 'h \<Rightarrow> string \<Rightarrow> rat \<Rightarrow> ('l, 'n) timed \<Rightarrow> ((env_exn + pydict) \<times> ('l, 'n) timed) option" where
  "wait_for te io tm h pattern timeout s =
     (case te_compile te pattern of
        Inl m \<Rightarrow> Some (Inr (tool_error (''invalid pattern '' @ py_repr_str pattern @ '': '' @ m)), s)
      | Inr search \<Rightarrow> poll_loop (wait_for_round io tm h pattern search (fst s + timeout)) (sleep tm WAIT_FOR_POLL_S) s)"

definition spawn_dir :: "('h, 'n) tool_env \<Rightarrow> string option \<Rightarrow> (string + path) py" where
  "spawn_dir te cwd =
     py_bind (path_resolve (te_host te) (te_working_dir te)) (\<lambda>rt.
       case cwd of None \<Rightarrow> Inr (Inr rt) | Some c \<Rightarrow> path_under_root (te_host te) c rt)"

definition spawn_tool ::
  "('h, 'n) tool_env \<Rightarrow> ('h, 'n) handle_io \<Rightarrow> tool_ctx option \<Rightarrow> string \<Rightarrow> string option \<Rightarrow> ('h, 'n) tool_state \<Rightarrow> (env_exn + pydict) \<times> ('h, 'n) tool_state" where
  "spawn_tool te io ctx command cwd s =
     (case s of (t, st, n) \<Rightarrow>
        (case spawn_dir te cwd of
           Inl _ \<Rightarrow> (Inl (EOther []), s)
         | Inr (Inl err) \<Rightarrow> (Inr (tool_error (replace_all ''Path outside'' ''cwd outside'' err)), s)
         | Inr (Inr dir) \<Rightarrow>
             (case open_handle te command dir t n of
                (Inl e, n') \<Rightarrow> (Inl e, t, st, n')
              | (Inr h, n') \<Rightarrow>
                  (Inr [(''session_id'', PyStr (hi_session_id io h)), (''pid'', PyInt (hi_pid io h n')), (''status'', PyStr ''running''), (''command'', PyStr command)],
                   t, in_registry (view_of io n') ctx (register_process (view_of io n') h) st, n'))))"

definition utf8_payload :: "bool \<Rightarrow> string \<Rightarrow> byte list" where
  "utf8_payload submit data = submitted submit (utf8_encode data)"

definition write_tool :: "('h, 'n) handle_io \<Rightarrow> 'h \<Rightarrow> bool \<Rightarrow> string option \<Rightarrow> 'n \<Rightarrow> (env_exn + pydict) \<times> 'n" where
  "write_tool io h submit data n =
     (case data of
        None \<Rightarrow> (Inr (tool_error (''action '' @ py_repr_str ''write'' @ '' requires data'')), n)
      | Some text \<Rightarrow>
          (let payload = utf8_payload submit text;
               failed = (\<lambda>m. tool_error (''write failed ('' @ m @ ''); the process may have exited''))
           in case hi_write io payload h n of
                (AlreadyExited m, n') \<Rightarrow> (Inr (failed m), n')
              | (WriteFailed e, n') \<Rightarrow> (if is_os_error e then Inr (failed (env_exn_text e)) else Inl e, n')
              | (Written, n') \<Rightarrow>
                  (Inr [(''session_id'', PyStr (hi_session_id io h)), (''status'', PyStr ''written''), (''bytes'', PyInt (int (length payload)))], n')))"

definition kill_tool :: "('h, 'n) handle_io \<Rightarrow> rat \<Rightarrow> 'h \<Rightarrow> 'n \<Rightarrow> (env_exn + pydict) \<times> 'n" where
  "kill_tool io now h n =
     (case hi_kill io now h n of
        (Inl e, n') \<Rightarrow> (Inl e, n')
      | (Inr _, n') \<Rightarrow> (Inr [(''session_id'', PyStr (hi_session_id io h)), (''status'', PyStr ''killed''), (''exit_code'', hi_exit_code io h n')], n'))"

definition log_tool :: "('h, 'n) handle_io \<Rightarrow> rat \<Rightarrow> 'h \<Rightarrow> int \<Rightarrow> int \<Rightarrow> 'n \<Rightarrow> (env_exn + pydict) \<times> 'n" where
  "log_tool io now h offset limit n =
     (case hi_read io now offset (Some limit) h n of
        (Inl e, n') \<Rightarrow> (Inl e, n')
      | (Inr (chunk, next_offset, code), n') \<Rightarrow>
          (Inr [(''session_id'', PyStr (hi_session_id io h)), (''data'', PyStr (utf8_decode chunk)), (''offset'', PyInt offset),
             (''next_offset'', PyInt next_offset), (''exit_code'', code), (''status'', status_word (hi_running io h n'))], n'))"

definition wait_tool :: "('h, 'n) handle_io \<Rightarrow> rat option \<Rightarrow> 'h \<Rightarrow> rat \<Rightarrow> 'n \<Rightarrow> ((env_exn + pydict) \<times> rat \<times> 'n) option" where
  "wait_tool io timeout h now n =
     map_option (\<lambda>(r, t, n'). (py_bind r (\<lambda>code.
         Inr [(''session_id'', PyStr (hi_session_id io h)), (''status'', status_word (hi_running io h n')), (''exit_code'', code),
           (''timed_out'', PyBool (hi_running io h n'))]), t, n'))
       (hi_wait io timeout h now n)"

definition HANDLE_ACTIONS :: "string list" where
  "HANDLE_ACTIONS = [''poll'', ''log'', ''wait'', ''wait_for'', ''kill'', ''write'']"

text \<open>What the actions on a handle do once it is found.\<close>

definition handle_action ::
  "('h, 'n) tool_env \<Rightarrow> ('h, 'n) handle_io \<Rightarrow> 'n timing \<Rightarrow> process_args \<Rightarrow> 'h \<Rightarrow> ('h, 'n) tool_state \<Rightarrow> ('h, 'n) tool_result" where
  "handle_action te io tm a h s =
     (case s of (t, st, n) \<Rightarrow>
        (let here = (\<lambda>(r, n'). Some (r, t, st, n'))
         in if pa_action a = ''poll'' then here (poll io t h n)
            else if pa_action a = ''log'' then here (log_tool io t h (pa_offset a) (pa_limit a) n)
            else if pa_action a = ''wait_for'' then
              (if str_or_empty (pa_pattern a) = [] then Some (Inr (tool_error (''action '' @ py_repr_str ''wait_for'' @ '' requires pattern'')), s)
               else wait_for te io tm h (str_or_empty (pa_pattern a)) (case pa_timeout a of None \<Rightarrow> DEFAULT_WAIT_FOR_TIMEOUT_S | Some d \<Rightarrow> d) s)
            else if pa_action a = ''wait'' then map_option (\<lambda>(r, t', n'). (r, t', st, n')) (wait_tool io (pa_timeout a) h t n)
            else if pa_action a = ''kill'' then here (kill_tool io t h n)
            else here (write_tool io h (pa_submit a) (pa_data a) n)))"

definition process ::
  "('h, 'n) tool_env \<Rightarrow> ('h, 'n) handle_io \<Rightarrow> 'n timing \<Rightarrow> tool_ctx option \<Rightarrow> process_args \<Rightarrow> ('h, 'n) tool_state \<Rightarrow> ('h, 'n) tool_result" where
  "process te io tm ctx a s =
     (case s of (t, st0, n) \<Rightarrow>
        (case resolve_registry (view_of io n) ctx st0 of (ref, st) \<Rightarrow>
           if pa_action a = ''list'' then
             (case list_running (view_of io n) t (registry_at ref st) of (running, reg1) \<Rightarrow>
               (case list_finished (view_of io n) t reg1 of (finished, reg2) \<Rightarrow>
                  Some (Inr [(''running'', PyList (map (summarize te io n) running)), (''finished'', PyList (map (summarize te io n) finished))],
                        t, put_registry ref reg2 st, n)))
           else if pa_action a = ''spawn'' then
             (if str_or_empty (pa_command a) = [] then Some (Inr (tool_error (''action '' @ py_repr_str ''spawn'' @ '' requires command'')), t, st, n)
              else Some (spawn_tool te io ctx (str_or_empty (pa_command a)) (pa_cwd a) (t, st, n)))
           else if pa_action a \<notin> set HANDLE_ACTIONS then Some (Inr (tool_error (''unknown action '' @ py_repr_str (pa_action a))), t, st, n)
           else if str_or_empty (pa_session_id a) = [] then
             Some (Inr (tool_error (''action '' @ py_repr_str (pa_action a) @ '' requires session_id'')), t, st, n)
           else (case registry_get (view_of io n) t (str_or_empty (pa_session_id a)) (registry_at ref st) of
                   (None, reg) \<Rightarrow>
                     Some (Inr (tool_error (''no such session '' @ py_repr_str (str_or_empty (pa_session_id a)))), t, put_registry ref reg st, n)
                 | (Some h, reg) \<Rightarrow> handle_action te io tm a h (t, put_registry ref reg st, n))))"

section \<open>Waiting for a pattern\<close>

interpretation pattern_wait: deadline_poll "\<lambda>_. True" "wait_for_round io tm h pattern search deadline" "sleep tm WAIT_FOR_POLL_S" fst deadline WAIT_FOR_POLL_S
  for io :: "('h, 'n) handle_io" and tm h pattern search deadline
proof unfold_locales
  show "0 < WAIT_FOR_POLL_S" by (simp add: WAIT_FOR_POLL_S_def)
  show "fst s + WAIT_FOR_POLL_S \<le> fst (sleep tm WAIT_FOR_POLL_S s)" for s :: "('l, 'n) timed" by (rule sleep_advances)
next
  fix s :: "('l, 'n) timed"
  let ?f = "\<lambda>(l, n). case hi_read io (fst s) 0 None h n of (r, n') \<Rightarrow> (r, l, n')"
  obtain r s' where c: "timed_call tm ?f s = (r, s')" by (rule prod.exhaust)
  have "snd (wait_for_round io tm h pattern search deadline s) = s'"
    unfolding wait_for_round_def c by (auto simp: Let_def split: sum.splits option.splits)
  then show "fst s \<le> fst (snd (wait_for_round io tm h pattern search deadline s))" using timed_call_advances [OF c] by simp
  show "fst (wait_for_round io tm h pattern search deadline s) = None \<Longrightarrow> fst (snd (wait_for_round io tm h pattern search deadline s)) < deadline"
    unfolding wait_for_round_def c by (auto simp: Let_def split: sum.splits option.splits if_splits)
qed auto

text \<open>C36: Waiting for a pattern always returns: however the process behaves and however late a sleep is, the tool looks at most
  five times for each second of its time limit and once more (301 times with the default of a minute), then it answers.\<close>

theorem wait_for_returns:
  "wait_for te io tm h pattern timeout s \<noteq> None \<and>
   (\<forall>search. te_compile te pattern = Inr search \<longrightarrow>
      poll_rounds (rounds_before timeout (1 / 5)) (wait_for_round io tm h pattern search (fst s + timeout)) (sleep tm WAIT_FOR_POLL_S) s
        = wait_for te io tm h pattern timeout s) \<and>
   rounds_before DEFAULT_WAIT_FOR_TIMEOUT_S (1 / 5) = 301"
proof -
  have r: "poll_loop (wait_for_round io tm h pattern search (fst s + timeout)) (sleep tm WAIT_FOR_POLL_S) s \<noteq> None \<and>
      poll_rounds (rounds_before timeout (1 / 5)) (wait_for_round io tm h pattern search (fst s + timeout)) (sleep tm WAIT_FOR_POLL_S) s
        = poll_loop (wait_for_round io tm h pattern search (fst s + timeout)) (sleep tm WAIT_FOR_POLL_S) s" for search
    using pattern_wait.loop_returns_within [OF TrueI, where s = s and deadline = "fst s + timeout" and io = io and tm = tm and h = h
        and pattern = pattern and search = search]
    by (elim exE conjE) (simp add: WAIT_FOR_POLL_S_def del: split_paired_Ex)
  have "rounds_before DEFAULT_WAIT_FOR_TIMEOUT_S (1 / 5) = 301"
    by (simp add: rounds_before_def DEFAULT_WAIT_FOR_TIMEOUT_S_def)
  moreover have "wait_for te io tm h pattern timeout s \<noteq> None"
    using r by (cases "te_compile te pattern") (simp_all add: wait_for_def del: not_None_eq)
  moreover have "poll_rounds (rounds_before timeout (1 / 5)) (wait_for_round io tm h pattern search (fst s + timeout)) (sleep tm WAIT_FOR_POLL_S) s
        = wait_for te io tm h pattern timeout s" if "te_compile te pattern = Inr search" for search
    using r [of search] that by (simp add: wait_for_def del: not_None_eq)
  ultimately show ?thesis by blast
qed

text \<open>The tools' own functions on the surroundings of the examples: a process of the host.\<close>

definition idle_os :: host_os where
  "idle_os = \<lparr>os_kill = (\<lambda>_ _. no_kill), os_pty_write = (\<lambda>_ d _. Inr (length d)), os_blocked = (\<lambda>_ _ t ps. Some (t, ps))\<rparr>"

definition still :: "'n timing" where
  "still = \<lparr>tm_late = (\<lambda>_. 0), tm_busy = (\<lambda>_. 0), tm_progress = (\<lambda>n. n)\<rparr>"

definition demo_tools :: "(string, host_procs) tool_env" where
  "demo_tools =
     \<lparr>te_host = linkless, te_working_dir = [''workspace''], te_spawn = (\<lambda>c p e t n. (Inr ''proc_1'', (''proc_1'', proc_init ''1'' t 7 100 c) # n)),
      te_secret_env = (\<lambda>_. []), te_write_file = (\<lambda>_ _ n. (Inr (), n)), te_new_id = (\<lambda>_. ''0''),
      te_compile = (\<lambda>pt. Inr (\<lambda>s. if contains s pt then Some pt else None)), te_float = (\<lambda>_. PyNone)\<rparr>"

theorem wait_for_returns_witness:
  "poll_rounds (rounds_before 60 (1 / 5)) (wait_for_round (local_io idle_os) still ''proc_1'' ''ready'' (\<lambda>s. if contains s ''ready'' then Some ''ready'' else None) 60)
      (sleep still WAIT_FOR_POLL_S) (0, (), [(''proc_1'', proc_init ''1'' 0 7 100 ''serve'')]) \<noteq> None"
proof -
  let ?s = "(0, (), [(''proc_1'', proc_init ''1'' 0 7 100 ''serve'')]) :: (unit, host_procs) timed"
  have c: "te_compile demo_tools ''ready'' = Inr (\<lambda>s. if contains s ''ready'' then Some ''ready'' else None)" by (simp add: demo_tools_def)
  show ?thesis using wait_for_returns [of demo_tools "local_io idle_os" still "''proc_1''" "''ready''" 60 ?s] c
    by (simp del: not_None_eq)
qed

lemma wait_for_round_answer:
  assumes "wait_for_round io tm h pattern search deadline s0 = (Some (Inr d), s')"
  shows "\<exists>now n0 data nx code. hi_read io now 0 None h n0 = (Inr (data, nx, code), snd (snd s')) \<and>
    dict_get d ''matched'' = PyBool (search (utf8_decode data) \<noteq> None) \<and>
    dict_get d ''timed_out'' = PyBool (search (utf8_decode data) = None \<and> hi_running io h (snd (snd s'))) \<and>
    (dict_get d ''timed_out'' = PyBool True \<longrightarrow> deadline \<le> fst s')"
proof -
  obtain t l n where s0: "s0 = (t, l, n)" by (rule prod_cases3)
  obtain r n' where rd: "hi_read io t 0 None h n = (r, n')" by (rule prod.exhaust)
  have call: "timed_call tm (\<lambda>(l, n). case hi_read io (fst s0) 0 None h n of (r, n') \<Rightarrow> (r, l, n')) s0 = (r, t + max 0 (tm_busy tm n), l, n')"
    by (simp add: s0 timed_call_def rd)
  show ?thesis
  proof (cases r)
    case (Inl e)
    then show ?thesis using assms unfolding wait_for_round_def call by simp
  next
    case (Inr x)
    obtain data nx code where x: "x = (data, nx, code)" by (rule prod_cases3)
    have s': "s' = (t + max 0 (tm_busy tm n), l, n')"
      using assms unfolding wait_for_round_def call by (auto simp: Inr x Let_def split: option.splits if_splits)
    show ?thesis using assms rd unfolding wait_for_round_def call s'
      by (intro exI [of _ t] exI [of _ n] exI [of _ data] exI [of _ nx] exI [of _ code])
        (auto simp: Inr x Let_def dict_get_def dict_get_default_def split: option.splits if_splits)
  qed
qed

text \<open>The answer to waiting for a pattern is true of the output it was taken from: it reports a match exactly when the expression matches the text read
  last, and a time-out exactly when there is none, the process still runs, and the time limit is over.\<close>

theorem wait_for_answers_truly:
  assumes "te_compile te pattern = Inr search" and "wait_for te io tm h pattern timeout s = Some (Inr d, s')"
  shows "\<exists>now n0 data nx code. hi_read io now 0 None h n0 = (Inr (data, nx, code), snd (snd s')) \<and>
    dict_get d ''matched'' = PyBool (search (utf8_decode data) \<noteq> None) \<and>
    dict_get d ''timed_out'' = PyBool (search (utf8_decode data) = None \<and> hi_running io h (snd (snd s'))) \<and>
    (dict_get d ''timed_out'' = PyBool True \<longrightarrow> fst s + timeout \<le> fst s')"
proof -
  from assms have "poll_loop (wait_for_round io tm h pattern search (fst s + timeout)) (sleep tm WAIT_FOR_POLL_S) s = Some (Inr d, s')"
    by (simp add: wait_for_def)
  from poll_loop_last [OF this] obtain s0 where "wait_for_round io tm h pattern search (fst s + timeout) s0 = (Some (Inr d), s')" by blast
  from wait_for_round_answer [OF this] show ?thesis .
qed

definition ready_proc :: proc where
  "ready_proc = append_chunk 1 [0x67, 0x6F] (proc_init ''1'' 0 7 100 ''serve'')"

lemma ready_proc_round:
  "wait_for_round (local_io idle_os) still ''proc_1'' ''go'' (\<lambda>s. if contains s ''go'' then Some ''go'' else None) 60 (0, (), [(''proc_1'', ready_proc)])
    = (Some (Inr [(''session_id'', PyStr ''proc_1''), (''matched'', PyBool True), (''pattern'', PyStr ''go''), (''match'', PyStr ''go''), (''status'', PyStr ''running''),
       (''exit_code'', PyNone), (''tail'', PyStr ''go''), (''timed_out'', PyBool False)]), 0, (), [(''proc_1'', ready_proc)])"
  by code_simp

theorem wait_for_answers_truly_witness:
  "\<exists>d s' now n0 data nx code. wait_for demo_tools (local_io idle_os) still ''proc_1'' ''go'' 60 (0, (), [(''proc_1'', ready_proc)]) = Some (Inr d, s') \<and>
    hi_read (local_io idle_os) now 0 None ''proc_1'' n0 = (Inr (data, nx, code), snd (snd s')) \<and>
    dict_get d ''matched'' = PyBool (contains (utf8_decode data) ''go'')"
proof -
  let ?s = "(0, (), [(''proc_1'', ready_proc)]) :: (unit, host_procs) timed"
  have c: "te_compile demo_tools ''go'' = Inr (\<lambda>s. if contains s ''go'' then Some ''go'' else None)" by (simp add: demo_tools_def)
  obtain d where w: "wait_for demo_tools (local_io idle_os) still ''proc_1'' ''go'' 60 ?s = Some (Inr d, ?s)"
    using ready_proc_round by (simp add: wait_for_def c poll_loop.simps [of _ _ ?s])
  have m: "((if b then Some (''go'' :: string) else None) \<noteq> None) = b" for b by simp
  from wait_for_answers_truly [OF c w, unfolded m] w show ?thesis by blast
qed

section \<open>Spawning\<close>

text \<open>A process starts in the workspace or below it.\<close>

lemma spawn_dir_inside:
  assumes "spawn_dir te (Some c) = Inr (Inr dir)"
  shows "\<exists>rt rt'. path_resolve (te_host te) (te_working_dir te) = Inr rt \<and> path_resolve (te_host te) rt = Inr rt' \<and> is_relative_to dir rt'"
  using assms by (auto simp: spawn_dir_def path_under_root_def py_bind_Inr_iff split: if_splits)

lemma refused_spawn_changes_nothing:
  "spawn_dir te cwd = Inr (Inl err) \<Longrightarrow> snd (spawn_tool te io ctx command cwd s) = s"
  by (cases s) (simp add: spawn_tool_def)

text \<open>The tools start no other command than the one they were called with.\<close>

lemma bash_spawns_its_command:
  assumes "\<And>p e t n. sp command p e t n = te_spawn te command p e t n"
  shows "bash (te\<lparr>te_spawn := sp\<rparr>) io ctx command timeout s = bash te io ctx command timeout s"
proof -
  have "open_handle (te\<lparr>te_spawn := sp\<rparr>) command cwd now n = open_handle te command cwd now n" for cwd now n
    using assms by (simp add: open_handle_def)
  moreover have "te_host (te\<lparr>te_spawn := sp\<rparr>) = te_host te" "te_working_dir (te\<lparr>te_spawn := sp\<rparr>) = te_working_dir te"
    "te_write_file (te\<lparr>te_spawn := sp\<rparr>) = te_write_file te" "te_new_id (te\<lparr>te_spawn := sp\<rparr>) = te_new_id te" by simp_all
  ultimately show ?thesis unfolding bash_def by presburger
qed

lemma process_spawns_its_command:
  fixes te :: "('h, 'n) tool_env"
  assumes "\<And>p e t n. pa_action a = ''spawn'' \<Longrightarrow> sp (str_or_empty (pa_command a)) p e t n = te_spawn te (str_or_empty (pa_command a)) p e t n"
  shows "process (te\<lparr>te_spawn := sp\<rparr>) io tm ctx a s = process te io tm ctx a s"
proof -
  let ?te = "te\<lparr>te_spawn := sp\<rparr>"
  have sm: "summarize ?te io n = summarize te io n" for n
  proof
    show "summarize ?te io n h = summarize te io n h" for h by (cases "hi_finished_at io h n") (simp_all add: summarize_def)
  qed
  have wf: "wait_for ?te io tm h pattern timeout s = wait_for te io tm h pattern timeout s" for h pattern timeout and s :: "('h, 'n) tool_state"
    by (simp add: wait_for_def)
  have ha: "handle_action ?te io tm a h s = handle_action te io tm a h s" for h s
    unfolding handle_action_def wf ..
  have sd: "spawn_dir ?te cwd = spawn_dir te cwd" for cwd
    by (cases cwd) (simp_all add: spawn_dir_def)
  have sp: "spawn_tool ?te io ctx (str_or_empty (pa_command a)) cwd s = spawn_tool te io ctx (str_or_empty (pa_command a)) cwd s"
    if "pa_action a = ''spawn''" for cwd s
  proof -
    have oh: "open_handle ?te (str_or_empty (pa_command a)) cwd now n = open_handle te (str_or_empty (pa_command a)) cwd now n" for cwd now n
      using assms [OF that] by (simp add: open_handle_def)
    show ?thesis unfolding spawn_tool_def sd oh ..
  qed
  show ?thesis
  proof (cases "pa_action a = ''spawn''")
    case True
    show ?thesis unfolding process_def sm ha sp [OF True] ..
  next
    case False
    obtain t st0 n where s: "s = (t, st0, n)" by (rule prod_cases3)
    obtain ref st where rr: "resolve_registry (view_of io n) ctx st0 = (ref, st)" by (rule prod.exhaust)
    show ?thesis unfolding process_def sm ha using False by (simp add: s rr)
  qed
qed

text \<open>They write nothing to a process but the data they were called with.\<close>

lemma view_of_write [simp]: "view_of (io\<lparr>hi_write := hw\<rparr>) n = view_of io n"
  by (simp add: view_of_def)

lemma other_fields:
  "hi_session_id (io\<lparr>hi_write := hw\<rparr>) = hi_session_id io" "hi_pid (io\<lparr>hi_write := hw\<rparr>) = hi_pid io"
  "hi_command (io\<lparr>hi_write := hw\<rparr>) = hi_command io" "hi_started_at (io\<lparr>hi_write := hw\<rparr>) = hi_started_at io"
  "hi_finished_at (io\<lparr>hi_write := hw\<rparr>) = hi_finished_at io" "hi_running (io\<lparr>hi_write := hw\<rparr>) = hi_running io"
  "hi_exit_code (io\<lparr>hi_write := hw\<rparr>) = hi_exit_code io" "hi_output_size (io\<lparr>hi_write := hw\<rparr>) = hi_output_size io"
  "hi_idle_seconds (io\<lparr>hi_write := hw\<rparr>) = hi_idle_seconds io" "hi_read (io\<lparr>hi_write := hw\<rparr>) = hi_read io"
  "hi_kill (io\<lparr>hi_write := hw\<rparr>) = hi_kill io" "hi_wait (io\<lparr>hi_write := hw\<rparr>) = hi_wait io"
  by simp_all

lemmas io_unchanged = view_of_write other_fields

lemma bash_writes_nothing: "bash te (io\<lparr>hi_write := hw\<rparr>) ctx command timeout s = bash te io ctx command timeout s"
  unfolding bash_def promoted_result_def io_unchanged ..

lemma process_writes_its_data:
  fixes io :: "('h, 'n) handle_io"
  assumes "\<And>typed h n. pa_action a = ''write'' \<Longrightarrow> pa_data a = Some typed \<Longrightarrow>
    hw (utf8_payload (pa_submit a) typed) h n = hi_write io (utf8_payload (pa_submit a) typed) h n"
  shows "process te (io\<lparr>hi_write := hw\<rparr>) tm ctx a s = process te io tm ctx a s"
proof -
  let ?io = "io\<lparr>hi_write := hw\<rparr>"
  have sm: "summarize te ?io n = summarize te io n" for n unfolding summarize_def io_unchanged ..
  have sp: "spawn_tool te ?io ctx command cwd s = spawn_tool te io ctx command cwd s" for command cwd s
    unfolding spawn_tool_def io_unchanged ..
  have wfr: "wait_for_round ?io tm h pattern search deadline = wait_for_round io tm h pattern search deadline"
    for h pattern search deadline and tm :: "'n timing"
    by (rule ext) (simp only: wait_for_round_def io_unchanged)
  have tools: "poll ?io now h n = poll io now h n" "log_tool ?io now h off lim n = log_tool io now h off lim n"
    "kill_tool ?io now h n = kill_tool io now h n" "wait_tool ?io w h now n = wait_tool io w h now n"
    "wait_for te ?io tm h pattern timeout st = wait_for te io tm h pattern timeout st"
    for now h n off lim w pattern timeout and st :: "('h, 'n) tool_state"
    unfolding poll_def log_tool_def kill_tool_def wait_tool_def wait_for_def wfr io_unchanged by (rule refl)+
  have ha: "handle_action te ?io tm a h s = handle_action te io tm a h s" if "pa_action a \<in> set HANDLE_ACTIONS" for h s
  proof (cases "pa_action a = ''write''")
    case True
    have wt: "write_tool ?io h (pa_submit a) (pa_data a) n = write_tool io h (pa_submit a) (pa_data a) n" for h n
    proof (cases "pa_data a")
      case (Some typed)
      have "hi_write ?io (utf8_payload (pa_submit a) typed) h n = hi_write io (utf8_payload (pa_submit a) typed) h n"
        using assms [OF True Some] by simp
      then show ?thesis unfolding write_tool_def Some option.case Let_def io_unchanged by (rule arg_cong)
    qed (simp add: write_tool_def)
    show ?thesis unfolding handle_action_def tools wt ..
  next
    case False
    obtain t st n where s: "s = (t, st, n)" by (rule prod_cases3)
    show ?thesis using that False unfolding handle_action_def tools by (auto simp: s HANDLE_ACTIONS_def)
  qed
  show ?thesis
  proof (cases "pa_action a \<in> set HANDLE_ACTIONS")
    case True
    show ?thesis unfolding process_def io_unchanged sm sp ha [OF True] ..
  next
    case False
    obtain t st0 n where s: "s = (t, st0, n)" by (rule prod_cases3)
    obtain ref st where rr: "resolve_registry (view_of io n) ctx st0 = (ref, st)" by (rule prod.exhaust)
    show ?thesis using False unfolding process_def io_unchanged sm sp by (simp add: s rr)
  qed
qed

text \<open>Polling a sandboxed process before its first status answer reads its whole buffer, not the tail of a kilobyte.\<close>

lemma unrefreshed_poll_reads_everything:
  assumes "map_of (sw_handles w) sid = Some (sproc_init sid pid command t0)"
  shows "max 0 (hi_output_size (sandbox_io send tm) sid w - POLL_TAIL_BYTES) = 0"
  using unrefreshed_handle_is_blind(1) [OF assms, of send tm] by (simp add: POLL_TAIL_BYTES_def)

end
