(* ===== verification/Models.thy ===== *)
theory Models
  imports Base64 Py_Json Environ
begin

text \<open>
  Choosing the model of a turn (\<open>models/registry.py\<close>, \<open>models/selector.py\<close>, \<open>models/dispatcher.py\<close>,
  \<open>models/capabilities.py\<close>), the threshold of compaction (\<open>context/compaction_threshold.py\<close>) and the helpers for media
  (\<open>models/media.py\<close>). A backend is an unknown type; building one is the argument \<open>build\<close>. Fractions are exact.
\<close>

section \<open>The registry\<close>

definition DEFAULT_MODEL_NAME :: string where "DEFAULT_MODEL_NAME = ''gemini-3.7-flash''"
definition DEFAULT_INPUT_TOKEN_LIMIT :: int where "DEFAULT_INPUT_TOKEN_LIMIT = 200000"

record 'c model_capabilities =
  mc_max_image_bytes :: "int option"
  mc_can_view_mime :: "string option \<Rightarrow> bool"
  mc_prepare_contents :: "('c list \<Rightarrow> 'c list) option"

definition GEMINI_CAPABILITIES :: "'c model_capabilities" where
  "GEMINI_CAPABILITIES = \<lparr>mc_max_image_bytes = None, mc_can_view_mime = (\<lambda>_. True), mc_prepare_contents = None\<rparr>"

record 'c model_descriptor =
  md_input_token_limit :: int
  md_capabilities :: "'c model_capabilities"

definition MODELS :: "(string \<times> 'c model_descriptor) list" where
  "MODELS =
     [(''gemini-3.7-flash'', \<lparr>md_input_token_limit = 1000000, md_capabilities = GEMINI_CAPABILITIES\<rparr>),
      (''gemini-3.1-pro-preview'', \<lparr>md_input_token_limit = 1000000, md_capabilities = GEMINI_CAPABILITIES\<rparr>)]"

definition model_names :: "string list" where
  "model_names = map fst (MODELS :: (string \<times> unit model_descriptor) list)"

definition input_token_limit :: "string option \<Rightarrow> int" where
  "input_token_limit name =
     (case (case name of None \<Rightarrow> None | Some n \<Rightarrow> map_of (MODELS :: (string \<times> unit model_descriptor) list) n) of
        None \<Rightarrow> DEFAULT_INPUT_TOKEN_LIMIT
      | Some d \<Rightarrow> md_input_token_limit d)"

definition capabilities_of :: "string option \<Rightarrow> 'c model_capabilities" where
  "capabilities_of name =
     (case (case name of None \<Rightarrow> None | Some n \<Rightarrow> map_of MODELS n) of
        None \<Rightarrow> GEMINI_CAPABILITIES
      | Some d \<Rightarrow> md_capabilities d)"

text \<open>The lazy registry: a backend is built on first access and kept.\<close>

definition lazy_get :: "(string \<Rightarrow> 'b) \<Rightarrow> string \<Rightarrow> (string \<times> 'b) list \<Rightarrow> 'b option \<times> (string \<times> 'b) list" where
  "lazy_get build name cache =
     (if name \<notin> set model_names then (None, cache)
      else case map_of cache name of
             Some b \<Rightarrow> (Some b, cache)
           | None \<Rightarrow> (Some (build name), dict_set cache name (build name)))"

section \<open>The selector\<close>

definition SELECTED_MODEL_STATE_KEY :: string where "SELECTED_MODEL_STATE_KEY = ''selected_model''"

text \<open>\<open>choice in MODEL_REGISTRY\<close>; a list or a dictionary cannot be looked up.\<close>

definition known_model :: "pyval \<Rightarrow> string option py" where
  "known_model choice =
     (case choice of
        PyStr s \<Rightarrow> Inr (if s \<in> set model_names then Some s else None)
      | PyList _ \<Rightarrow> Inl (TypeError ''unhashable type'')
      | PyDict _ \<Rightarrow> Inl (TypeError ''unhashable type'')
      | _ \<Rightarrow> Inr None)"

definition resolve_from_env :: "environ \<Rightarrow> string" where
  "resolve_from_env environ =
     (case environ ''LHA_ROOT_MODEL'' of
        None \<Rightarrow> DEFAULT_MODEL_NAME
      | Some s \<Rightarrow> if s \<in> set model_names then s else DEFAULT_MODEL_NAME)"

definition resolve_model :: "environ \<Rightarrow> pydict option \<Rightarrow> string py" where
  "resolve_model environ state =
     (case state of
        None \<Rightarrow> Inr (resolve_from_env environ)
      | Some s \<Rightarrow>
          if s = [] then Inr (resolve_from_env environ)
          else py_bind (known_model (dict_get s SELECTED_MODEL_STATE_KEY)) (\<lambda>m.
                 Inr (case m of Some name \<Rightarrow> name | None \<Rightarrow> resolve_from_env environ)))"

definition window_fraction :: "(string \<Rightarrow> rat option) \<Rightarrow> environ \<Rightarrow> rat" where
  "window_fraction float_of environ =
     (case environ ''LHA_COMPACTION_WINDOW_FRACTION'' of
        None \<Rightarrow> 3 / 4
      | Some raw \<Rightarrow>
          (case float_of raw of
             None \<Rightarrow> 3 / 4
           | Some v \<Rightarrow> if 0 < v \<and> v < 1 then v else 3 / 4))"

definition compaction_token_threshold :: "(string \<Rightarrow> rat option) \<Rightarrow> environ \<Rightarrow> int \<Rightarrow> int" where
  "compaction_token_threshold float_of environ limit = max 1 (rat_trunc (of_int limit * window_fraction float_of environ))"

text \<open>The compaction configuration, when there is one, and its threshold, when it has one.\<close>

definition apply_compaction_threshold :: "(string \<Rightarrow> rat option) \<Rightarrow> environ \<Rightarrow> string \<Rightarrow> int option option \<Rightarrow> int option option" where
  "apply_compaction_threshold float_of environ model config =
     (case config of
        Some (Some _) \<Rightarrow> Some (Some (compaction_token_threshold float_of environ (input_token_limit (Some model))))
      | _ \<Rightarrow> config)"

definition select_model_callback ::
  "(string \<Rightarrow> rat option) \<Rightarrow> environ \<Rightarrow> pydict option \<Rightarrow> int option option \<Rightarrow> (string \<times> int option option) py" where
  "select_model_callback float_of environ state config =
     py_bind (resolve_model environ state) (\<lambda>model. Inr (model, apply_compaction_threshold float_of environ model config))"

section \<open>The dispatcher\<close>

definition unknown_model :: "string \<Rightarrow> py_exn" where
  "unknown_model name =
     ValueError (''unknown model '' @ py_repr_str name @ ''; available: '' @ py_repr (PyList (map PyStr (sorted_strings model_names))))"

text \<open>A call is routed to its backend, with the request's contents as the model's capabilities want them.\<close>

definition dispatch_backend ::
  "(string \<Rightarrow> 'b) \<Rightarrow> string \<Rightarrow> string option \<Rightarrow> 'c list \<Rightarrow> (string \<times> 'b) list \<Rightarrow> (string \<times> 'b \<times> 'c list) py \<times> (string \<times> 'b) list" where
  "dispatch_backend build dflt requested contents cache =
     (let name = (case requested of None \<Rightarrow> dflt | Some r \<Rightarrow> if r = [] then dflt else r)
      in case lazy_get build name cache of
           (None, cache') \<Rightarrow> (Inl (unknown_model name), cache')
         | (Some b, cache') \<Rightarrow>
             (Inr (name, b, case mc_prepare_contents (capabilities_of (Some name)) of
                              None \<Rightarrow> contents
                            | Some prepare \<Rightarrow> if contents = [] then contents else prepare contents), cache'))"

section \<open>Media\<close>

definition b64_len :: "nat \<Rightarrow> nat" where
  "b64_len n = 4 * ((n + 2) div 3)"

definition starts_with :: "byte list \<Rightarrow> byte list \<Rightarrow> bool" where
  "starts_with data p \<longleftrightarrow> take (length p) data = p"

definition sniff_image_or_pdf_mime :: "byte list option \<Rightarrow> string option" where
  "sniff_image_or_pdf_mime data =
     (case data of
        None \<Rightarrow> None
      | Some d \<Rightarrow>
          if d = [] then None
          else if starts_with d [0x89, 0x50, 0x4E, 0x47, 0x0D, 0x0A, 0x1A, 0x0A] then Some ''image/png''
          else if starts_with d [0xFF, 0xD8, 0xFF] then Some ''image/jpeg''
          else if take 6 d \<in> {[0x47, 0x49, 0x46, 0x38, 0x37, 0x61], [0x47, 0x49, 0x46, 0x38, 0x39, 0x61]} then Some ''image/gif''
          else if take 4 d = [0x52, 0x49, 0x46, 0x46] \<and> take 4 (drop 8 d) = [0x57, 0x45, 0x42, 0x50] then Some ''image/webp''
          else if starts_with d [0x25, 0x50, 0x44, 0x46, 0x2D] then Some ''application/pdf''
          else None)"

section \<open>Lemmas\<close>

lemma default_known: "DEFAULT_MODEL_NAME \<in> set model_names"
  by code_simp

lemma resolve_from_env_known: "resolve_from_env environ \<in> set model_names"
  using default_known by (auto simp: resolve_from_env_def split: option.splits)

lemma known_model_known: "known_model v = Inr (Some name) \<Longrightarrow> name \<in> set model_names"
  by (auto simp: known_model_def split: pyval.splits if_splits)

lemma resolve_model_known: "resolve_model environ state = Inr name \<Longrightarrow> name \<in> set model_names"
  using resolve_from_env_known [of environ]
  by (auto simp: resolve_model_def py_bind_Inr_iff dest: known_model_known split: option.splits if_splits)

lemma threshold_in_window:
  assumes "1 \<le> limit"
  shows "1 \<le> compaction_token_threshold float_of environ limit \<and> compaction_token_threshold float_of environ limit \<le> limit"
proof -
  let ?f = "window_fraction float_of environ"
  have f: "0 < ?f" "?f < 1" by (auto simp: window_fraction_def split: option.splits)
  have l: "0 < (of_int limit :: rat)" using assms by simp
  have "of_int limit * ?f \<le> of_int limit * 1" using f l by (intro mult_left_mono) auto
  then have "\<lfloor>of_int limit * ?f\<rfloor> \<le> limit" by linarith
  moreover have "0 \<le> of_int limit * ?f" using f l by simp
  ultimately show ?thesis using assms by (simp add: compaction_token_threshold_def rat_trunc_def)
qed

text \<open>The length the \<open>read\<close> tool computes is that of the encoding.\<close>

lemma b64_len_exact: "length (b64encode bs) = b64_len (length bs)"
proof (induction bs rule: b64encode.induct)
  case (4 a b c bs)
  have "(length (a # b # c # bs) + 2) div 3 = (length bs + 2) div 3 + 1" by simp
  then show ?case using 4 by (simp add: b64_len_def)
qed (simp_all add: b64_len_def)

lemma nothing_prepared [simp]: "mc_prepare_contents (capabilities_of name) = None"
  by (auto simp: capabilities_of_def MODELS_def GEMINI_CAPABILITIES_def split: option.splits if_splits)

definition cache_ok :: "(string \<Rightarrow> 'b) \<Rightarrow> (string \<times> 'b) list \<Rightarrow> bool" where
  "cache_ok build cache \<longleftrightarrow> (\<forall>name b. map_of cache name = Some b \<longrightarrow> name \<in> set model_names \<and> b = build name)"

lemma lazy_get_transparent:
  assumes "cache_ok build cache"
  shows "fst (lazy_get build name cache) = (if name \<in> set model_names then Some (build name) else None) \<and>
    cache_ok build (snd (lazy_get build name cache))"
  using assms by (auto simp: lazy_get_def cache_ok_def split: option.splits)

text \<open>A model chosen for a turn always has a backend, whatever the session's state and the environment hold: the dispatcher runs the model the
  selector named, on the contents of the request, and never refuses it. The threshold of compaction lies within that model's window.\<close>

theorem selected_model_is_dispatched:
  assumes "select_model_callback float_of environ state config = Inr (name, config')" and "cache_ok build cache"
  shows "\<exists>cache'. dispatch_backend build dflt (Some name) contents cache = (Inr (name, build name, contents), cache') \<and> cache_ok build cache' \<and>
    (\<forall>n. config' = Some (Some n) \<longrightarrow> config \<noteq> None \<and> 1 \<le> n \<and> n \<le> input_token_limit (Some name))"
proof -
  from assms(1) have r: "resolve_model environ state = Inr name" and c: "config' = apply_compaction_threshold float_of environ name config"
    by (auto simp: select_model_callback_def py_bind_Inr_iff)
  have k: "name \<in> set model_names" by (rule resolve_model_known [OF r])
  then have ne: "name \<noteq> []" by (auto simp: model_names_def MODELS_def)
  obtain cache' where "lazy_get build name cache = (Some (build name), cache')" "cache_ok build cache'"
    using lazy_get_transparent [OF assms(2), of name] k by (metis prod.collapse)
  moreover have "1 \<le> input_token_limit (Some name)" using k by (auto simp: model_names_def MODELS_def input_token_limit_def)
  ultimately show ?thesis using ne c threshold_in_window
    by (auto simp: dispatch_backend_def apply_compaction_threshold_def split: option.splits)
qed

theorem selected_model_is_dispatched_witness:
  "\<exists>cache'. dispatch_backend (\<lambda>n. n) [] (Some ''gemini-3.1-pro-preview'') [()] [] = (Inr (''gemini-3.1-pro-preview'', ''gemini-3.1-pro-preview'', [()]), cache')"
proof -
  have "select_model_callback (\<lambda>_. None) (\<lambda>_. None) (Some [(''selected_model'', PyStr ''gemini-3.1-pro-preview'')]) None = Inr (''gemini-3.1-pro-preview'', None)"
    by code_simp
  from selected_model_is_dispatched [OF this, of "\<lambda>n. n" "[]" "[]" "[()]"] show ?thesis by (auto simp: cache_ok_def)
qed

end
