(* ===== verification/Past_Sessions.thy ===== *)
theory Past_Sessions
  imports Ui_Telemetry "HOL-Library.Sublist"
begin

text \<open>
  Recalling other chat sessions (\<open>tools/past_sessions.py\<close>): the index of recent sessions and the events of one. The session
  service is the record \<open>session_service\<close>, its two calls as they answer at that moment; a call that
  raises gives the text of the exception. Floats are shown by the parameter \<open>flt\<close>.
\<close>

section \<open>Sessions\<close>

record epart =
  ep_text :: "string option"
  ep_blob :: "(string option \<times> string option) option"

record session_event =
  se_author :: "string option"
  se_parts :: "epart list option"
  se_timestamp :: "rat option"

record chat_session =
  ch_id :: string
  ch_user_id :: string
  ch_last_update_time :: rat
  ch_state :: pydict
  ch_events :: "session_event list"

record session_service =
  sv_list_sessions :: "string \<Rightarrow> string option \<Rightarrow> string + chat_session list"
  sv_get_session :: "string \<Rightarrow> string \<Rightarrow> string \<Rightarrow> string + chat_session option"

definition parts_of_event :: "session_event \<Rightarrow> epart list" where
  "parts_of_event e = (case se_parts e of None \<Rightarrow> [] | Some ps \<Rightarrow> ps)"

text \<open>The texts of an event's parts that are more than white space, stripped.\<close>

definition part_texts :: "epart list \<Rightarrow> string list" where
  "part_texts ps = filter (\<lambda>s. s \<noteq> []) (map py_strip (List.map_filter ep_text ps))"

definition recent_first :: "chat_session list \<Rightarrow> chat_session list" where
  "recent_first ss = sort_key (\<lambda>s. - ch_last_update_time s) ss"

section \<open>The helper\<close>

definition DEFAULT_INDEX_LIMIT :: int where "DEFAULT_INDEX_LIMIT = 20"
definition MAX_INDEX_LIMIT :: int where "MAX_INDEX_LIMIT = 50"
definition DEFAULT_EVENT_LIMIT :: int where "DEFAULT_EVENT_LIMIT = 100"
definition MAX_EVENT_LIMIT :: int where "MAX_EVENT_LIMIT = 200"
definition TITLE_MAX_LEN :: nat where "TITLE_MAX_LEN = 80"
definition EVENT_TEXT_MAX_LEN :: nat where "EVENT_TEXT_MAX_LEN = 800"

definition event_title :: "session_event \<Rightarrow> string option" where
  "event_title e =
     (if se_author e \<noteq> Some ''user'' then None
      else case part_texts (parts_of_event e) of
             [] \<Rightarrow> None
           | t # _ \<Rightarrow> Some (take TITLE_MAX_LEN (hd (py_splitlines t))))"

definition derive_title :: "chat_session \<Rightarrow> string" where
  "derive_title s =
     (case as_str (dict_get (ch_state s) ''lha_chat_title'') of
        Some explicit \<Rightarrow>
          if py_strip explicit \<noteq> [] then take TITLE_MAX_LEN (py_strip explicit)
          else (case first_some event_title (ch_events s) of Some t \<Rightarrow> t | None \<Rightarrow> ''Untitled chat'')
      | None \<Rightarrow> (case first_some event_title (ch_events s) of Some t \<Rightarrow> t | None \<Rightarrow> ''Untitled chat''))"

definition started_at :: "chat_session \<Rightarrow> rat" where
  "started_at s = (case first_some se_timestamp (ch_events s) of Some t \<Rightarrow> t | None \<Rightarrow> ch_last_update_time s)"

definition recalled_text :: "session_event \<Rightarrow> string option" where
  "recalled_text e =
     (case part_texts (parts_of_event e) of
        [] \<Rightarrow> None
      | chunks \<Rightarrow>
          (let joined = py_join [NL] chunks
           in Some (if length joined > EVENT_TEXT_MAX_LEN then take EVENT_TEXT_MAX_LEN joined @ [ELLIPSIS] else joined)))"

definition normalize_author :: "string option \<Rightarrow> string" where
  "normalize_author a = (if a = Some ''user'' then ''user'' else ''assistant'')"

definition capped_limit :: "int option \<Rightarrow> int \<Rightarrow> int \<Rightarrow> nat" where
  "capped_limit limit dflt mx =
     nat (min (max (case limit of None \<Rightarrow> dflt | Some l \<Rightarrow> if l = 0 then dflt else l) 1) mx)"

definition recall_error :: "string \<Rightarrow> pydict" where
  "recall_error m = [(''success'', PyBool False), (''error'', PyStr m)]"

definition index_entry :: "(rat \<Rightarrow> pyval) \<Rightarrow> chat_session \<Rightarrow> pyval" where
  "index_entry flt s =
     PyDict [(''session_id'', PyStr (ch_id s)), (''started_at'', flt (started_at s)), (''title'', PyStr (derive_title s))]"

definition fetched :: "session_service \<Rightarrow> string \<Rightarrow> string \<Rightarrow> chat_session \<Rightarrow> chat_session option" where
  "fetched svc app user stub = (case sv_get_session svc app user (ch_id stub) of Inl _ \<Rightarrow> None | Inr s \<Rightarrow> s)"

definition index_sessions :: "session_service \<Rightarrow> string \<Rightarrow> string \<Rightarrow> string option \<Rightarrow> nat \<Rightarrow> chat_session list \<Rightarrow> chat_session list" where
  "index_sessions svc app user current cap ss =
     List.map_filter (fetched svc app user)
       (take cap (recent_first (filter (\<lambda>s. Some (ch_id s) \<noteq> current) ss)))"

definition drill_events :: "(rat \<Rightarrow> pyval) \<Rightarrow> session_event list \<Rightarrow> pyval list" where
  "drill_events flt es =
     List.map_filter
       (\<lambda>e. map_option (\<lambda>t. PyDict [(''author'', PyStr (normalize_author (se_author e))), (''text'', PyStr t),
            (''timestamp'', flt (case se_timestamp e of None \<Rightarrow> 0 | Some x \<Rightarrow> x))]) (recalled_text e)) es"

definition drill_result :: "(rat \<Rightarrow> pyval) \<Rightarrow> nat \<Rightarrow> chat_session \<Rightarrow> pydict" where
  "drill_result flt cap s =
     (let events = drill_events flt (ch_events s);
          truncated = length events > cap;
          shown = (if truncated then keep_last cap events else events)
      in [(''success'', PyBool True), (''mode'', PyStr ''drill''), (''session_id'', PyStr (ch_id s)), (''title'', PyStr (derive_title s)),
          (''events'', PyList shown), (''event_count'', PyInt (int (length shown))), (''truncated'', PyBool truncated)])"

definition recall_past_sessions_entries ::
  "(rat \<Rightarrow> pyval) \<Rightarrow> session_service \<Rightarrow> string \<Rightarrow> string \<Rightarrow> string option \<Rightarrow> string option \<Rightarrow> int option \<Rightarrow> pydict" where
  "recall_past_sessions_entries flt svc app user current session_id limit =
     (case session_id of
        None \<Rightarrow>
          (case sv_list_sessions svc app (Some user) of
             Inl err \<Rightarrow> recall_error (''list_sessions failed: '' @ err)
           | Inr ss \<Rightarrow>
               (let out = map (index_entry flt) (index_sessions svc app user current (capped_limit limit DEFAULT_INDEX_LIMIT MAX_INDEX_LIMIT) ss)
                in [(''success'', PyBool True), (''mode'', PyStr ''index''), (''sessions'', PyList out), (''count'', PyInt (int (length out)))]))
      | Some sid \<Rightarrow>
          if current = Some sid
          then recall_error ''Refusing to read the current session; you already have its events in context.''
          else (case sv_get_session svc app user sid of
                  Inl err \<Rightarrow> recall_error (''get_session failed: '' @ err)
                | Inr None \<Rightarrow> recall_error (''Session '' @ py_repr_str sid @ '' not found for this user.'')
                | Inr (Some s) \<Rightarrow> drill_result flt (capped_limit limit DEFAULT_EVENT_LIMIT MAX_EVENT_LIMIT) s))"

section \<open>What a recall shows\<close>

lemma capped_limit_bounds: "1 \<le> mx \<Longrightarrow> 1 \<le> capped_limit l d mx \<and> int (capped_limit l d mx) \<le> mx"
  by (auto simp: capped_limit_def split: option.splits)

lemma length_map_filter_le: "length (List.map_filter f xs) \<le> length xs"
  by (simp add: List.map_filter_def)

lemma set_map_filter_iff: "y \<in> set (List.map_filter f xs) \<longleftrightarrow> (\<exists>x \<in> set xs. f x = Some y)"
  by (auto simp: List.map_filter_def image_iff)

lemma fetched_iff: "fetched svc app user stub = Some s \<longleftrightarrow> sv_get_session svc app user (ch_id stub) = Inr (Some s)"
  by (cases "sv_get_session svc app user (ch_id stub)") (simp_all add: fetched_def)

lemma index_sessions_bounded: "length (index_sessions svc app user current cap ss) \<le> cap"
  unfolding index_sessions_def by (rule order_trans [OF length_map_filter_le]) simp

lemma index_sessions_source:
  assumes "s \<in> set (index_sessions svc app user current cap ss)"
  obtains stub where "stub \<in> set ss" "Some (ch_id stub) \<noteq> current" "sv_get_session svc app user (ch_id stub) = Inr (Some s)"
proof -
  from assms obtain stub where "stub \<in> set (take cap (recent_first (filter (\<lambda>s. Some (ch_id s) \<noteq> current) ss)))"
    and g: "sv_get_session svc app user (ch_id stub) = Inr (Some s)"
    by (auto simp: index_sessions_def set_map_filter_iff fetched_iff)
  then have "stub \<in> set (filter (\<lambda>s. Some (ch_id s) \<noteq> current) ss)"
    using set_take_subset by (fastforce simp: recent_first_def)
  then show ?thesis using g that by auto
qed

text \<open>A session is not skipped for an older one: what the index leaves out beyond its cap is no newer than what it keeps.\<close>

lemma index_prefers_recent:
  assumes "a \<in> set (take cap (recent_first ss))" and "b \<in> set (drop cap (recent_first ss))"
  shows "ch_last_update_time b \<le> ch_last_update_time a"
proof -
  have "sorted (map (\<lambda>s. - ch_last_update_time s) (recent_first ss))" by (simp add: recent_first_def)
  then have "sorted (map (\<lambda>s. - ch_last_update_time s) (take cap (recent_first ss) @ drop cap (recent_first ss)))" by simp
  then show ?thesis using assms unfolding map_append sorted_append by fastforce
qed

lemma recalled_text_length: "recalled_text e = Some t \<Longrightarrow> length t \<le> 801"
  by (auto simp: recalled_text_def Let_def EVENT_TEXT_MAX_LEN_def split: list.splits if_splits)

text \<open>The session a recall is made from is never shown, and neither are sessions the service does not give for the user; an index has at most 50
  entries, and a session at most 200 events of at most 801 characters.\<close>

lemma recall_keeps_to_other_sessions:
  assumes "\<And>sid s. sv_get_session svc app user sid = Inr (Some s) \<Longrightarrow> ch_id s = sid"
    and "dict_get (recall_past_sessions_entries flt svc app user (Some current) session_id limit) ''success'' = PyBool True"
  shows "case session_id of
      None \<Rightarrow> \<exists>ss shown. sv_list_sessions svc app (Some user) = Inr ss \<and> length shown \<le> 50 \<and>
        dict_get (recall_past_sessions_entries flt svc app user (Some current) session_id limit) ''sessions'' = PyList (map (index_entry flt) shown) \<and>
        (\<forall>s \<in> set shown. ch_id s \<noteq> current \<and> (\<exists>stub \<in> set ss. ch_id stub = ch_id s))
    | Some sid \<Rightarrow> sid \<noteq> current \<and> (\<exists>s shown. sv_get_session svc app user sid = Inr (Some s) \<and> length shown \<le> 200 \<and>
        dict_get (recall_past_sessions_entries flt svc app user (Some current) session_id limit) ''events'' = PyList shown \<and>
        suffix shown (drill_events flt (ch_events s)))"
proof (cases session_id)
  case None
  let ?cap = "capped_limit limit DEFAULT_INDEX_LIMIT MAX_INDEX_LIMIT"
  from assms(2) None obtain ss where ss: "sv_list_sessions svc app (Some user) = Inr ss"
    by (auto simp: recall_past_sessions_entries_def recall_error_def dict_get_def dict_get_default_def split: sum.splits)
  let ?shown = "index_sessions svc app user (Some current) ?cap ss"
  have cap: "?cap \<le> 50"
    using capped_limit_bounds [of MAX_INDEX_LIMIT limit DEFAULT_INDEX_LIMIT] by (simp add: MAX_INDEX_LIMIT_def)
  have "length ?shown \<le> 50" using index_sessions_bounded cap by (rule order_trans)
  moreover have "ch_id s \<noteq> current \<and> (\<exists>stub \<in> set ss. ch_id stub = ch_id s)" if "s \<in> set ?shown" for s
    using that by (rule index_sessions_source) (use assms(1) in fastforce)
  ultimately show ?thesis using None ss
    by (auto simp: recall_past_sessions_entries_def Let_def dict_get_def dict_get_default_def)
next
  case (Some sid)
  let ?cap = "capped_limit limit DEFAULT_EVENT_LIMIT MAX_EVENT_LIMIT"
  have cap: "?cap \<le> 200"
    using capped_limit_bounds [of MAX_EVENT_LIMIT limit DEFAULT_EVENT_LIMIT] by (simp add: MAX_EVENT_LIMIT_def)
  from assms(2) Some obtain s where ne: "sid \<noteq> current" and s: "sv_get_session svc app user sid = Inr (Some s)"
    by (auto simp: recall_past_sessions_entries_def recall_error_def dict_get_def dict_get_default_def split: sum.splits option.splits if_splits)
  let ?evs = "drill_events flt (ch_events s)"
  let ?shown = "if length ?evs > ?cap then keep_last ?cap ?evs else ?evs"
  have "length ?shown \<le> 200" using cap length_keep_last [of ?cap ?evs] by auto
  moreover have "suffix ?shown ?evs" by (auto simp: keep_last_def suffix_drop)
  moreover have "dict_get (recall_past_sessions_entries flt svc app user (Some current) session_id limit) ''events'' = PyList ?shown"
    using ne s Some by (simp add: recall_past_sessions_entries_def drill_result_def Let_def dict_get_def dict_get_default_def)
  ultimately show ?thesis using Some ne s by auto
qed

end
