(* ===== verification/Memory_Bank.thy ===== *)
theory Memory_Bank
  imports Memory_Writes Http "HOL-Library.Multiset"
begin

text \<open>
  Reading and consolidating memories: the adapter over the memory services (\<open>memory/adapter.py\<close>), what is sent to the extractor
  (\<open>memory/content_sanitizer.py\<close>), the user's profile (\<open>memory/user_profile.py\<close>), the listing (\<open>memory/memory_list.py\<close>,
  \<open>api/memories.py\<close>) and the nightly review (\<open>memory/dream_review.py\<close>, \<open>scheduler/dream_review_endpoint.py\<close>). The client of
  the memory service is the record \<open>bank\<close>; a call that raises is the left of a sum. A session service has both of its calls.
\<close>

section \<open>Sanitizing content\<close>

definition extractor_can_ingest :: "string option \<Rightarrow> bool" where
  "extractor_can_ingest mime =
     (case mime of
        None \<Rightarrow> False
      | Some mt \<Rightarrow>
          mt \<noteq> [] \<and>
          (let base = py_lower (py_strip (hd (py_split_on CHR '';'' mt)))
           in base = ''application/pdf'' \<or> startswith base ''image/''))"

definition placeholder :: "string option \<times> string option \<Rightarrow> epart" where
  "placeholder blob =
     (case blob of (mime, name) \<Rightarrow>
        (let mt = (if str_or_empty mime = [] then ''unknown'' else str_or_empty mime);
             label = (if str_or_empty name = [] then mt else py_strip (mt @ '' '' @ str_or_empty name))
         in \<lparr>ep_text = Some (''[attachment omitted: '' @ label @ '']''), ep_blob = None\<rparr>))"

definition omitted :: "epart \<Rightarrow> bool" where
  "omitted p = (case ep_blob p of None \<Rightarrow> False | Some blob \<Rightarrow> \<not> extractor_can_ingest (fst blob))"

definition sanitize_content_for_memory :: "epart list option \<Rightarrow> epart list option" where
  "sanitize_content_for_memory content =
     (case content of
        None \<Rightarrow> None
      | Some parts \<Rightarrow>
          if parts = [] then content
          else if \<not> list_ex omitted parts then content
          else Some (map (\<lambda>p. if omitted p then placeholder (the (ep_blob p)) else p) parts))"

section \<open>The adapter\<close>

definition FETCH_CAP :: nat where "FETCH_CAP = 500"

definition MARKERS :: "(string \<times> string) list" where
  "MARKERS = [(''[user_profile]'', ''user_profile''), (''[user] '', ''user''), (''[agent] '', ''agent'')]"

record memory_write_entry =
  mw_scope :: string
  mw_content :: string
  mw_ts_ms :: int
  mw_session_id :: "string option"

definition parse_marker :: "string option \<Rightarrow> (string \<times> string) option" where
  "parse_marker txt =
     (case txt of
        None \<Rightarrow> None
      | Some t \<Rightarrow>
          if t = [] then None
          else first_some (\<lambda>(prefix, scope).
                 if startswith t prefix
                 then Some (scope, rstrip_chars py_isspace (lstrip_chars (\<lambda>c. c = NL) (drop (length prefix) t)))
                 else None) MARKERS)"

definition engine_resource_name :: "environ \<Rightarrow> string \<Rightarrow> string option \<Rightarrow> string option \<Rightarrow> string" where
  "engine_resource_name environ engine_id project location =
     (let sfx = ''reasoningEngines/'' @ engine_id;
          pinned = env_stripped environ ''AGENT_ENGINE_RESOURCE_NAME''
      in if endswith pinned sfx then pinned
         else if str_or_empty project \<noteq> [] \<and> str_or_empty location \<noteq> []
         then ''projects/'' @ str_or_empty project @ ''/locations/'' @ str_or_empty location @ ''/'' @ sfx
         else sfx)"

definition ACTION_KEYS :: "(string \<times> string) list" where
  "ACTION_KEYS = [(''CREATED'', ''created''), (''UPDATED'', ''updated''), (''DELETED'', ''deleted'')]"

definition bump :: "string \<Rightarrow> (string \<times> int) list \<Rightarrow> (string \<times> int) list" where
  "bump k counts = dict_set counts k (dict_get_default counts k 0 + 1)"

definition count_actions :: "string list \<Rightarrow> (string \<times> int) list" where
  "count_actions actions =
     foldl (\<lambda>counts a. case map_of ACTION_KEYS a of None \<Rightarrow> counts | Some k \<Rightarrow> bump k counts)
       [(''created'', 0), (''updated'', 0), (''deleted'', 0)] actions"

text \<open>A stored fact, with the seconds of its update, or of its creation when there is none.\<close>

record bank_memory =
  bm_fact :: "string option"
  bm_time :: "rat option"

record 'm bank =
  bk_retrieve_profiles :: "string \<Rightarrow> string \<Rightarrow> 'm \<Rightarrow> string + pydict option"
  bk_generate :: "string \<Rightarrow> string \<Rightarrow> epart list option list \<Rightarrow> bool \<Rightarrow> 'm \<Rightarrow> (string + string list) \<times> 'm"
  bk_retrieve :: "string \<Rightarrow> string \<Rightarrow> nat \<Rightarrow> 'm \<Rightarrow> string + bank_memory list"

type_synonym session_events = "(string \<times> (string \<times> session_event list) list) list"

datatype 'm adapter = NoopMemoryAdapter | InMemoryMemoryAdapter session_events | VertexMemoryAdapter "'m bank"

definition supports_profiles :: "'m adapter \<Rightarrow> bool" where
  "supports_profiles ad = (case ad of VertexMemoryAdapter _ \<Rightarrow> True | _ \<Rightarrow> False)"

definition retrieve_profile :: "'m adapter \<Rightarrow> string \<Rightarrow> string \<Rightarrow> 'm \<Rightarrow> pydict option" where
  "retrieve_profile ad app user m =
     (case ad of
        VertexMemoryAdapter bk \<Rightarrow>
          (case bk_retrieve_profiles bk app user m of
             Inl _ \<Rightarrow> None
           | Inr None \<Rightarrow> None
           | Inr (Some p) \<Rightarrow> if p = [] then None else Some p)
      | _ \<Rightarrow> None)"

definition generate_profile ::
  "'m adapter \<Rightarrow> string \<Rightarrow> string \<Rightarrow> session_event list \<Rightarrow> bool \<Rightarrow> 'm \<Rightarrow> (string + (string \<times> int) list) \<times> 'm" where
  "generate_profile ad app user events consolidate m =
     (case ad of
        VertexMemoryAdapter bk \<Rightarrow>
          (case bk_generate bk app user (map (\<lambda>e. sanitize_content_for_memory (se_parts e)) events) (\<not> consolidate) m of
             (Inl e, m') \<Rightarrow> (Inl e, m')
           | (Inr actions, m') \<Rightarrow> (Inr (count_actions actions), m'))
      | _ \<Rightarrow> (Inl ''this memory backend has no structured profiles'', m))"

definition millis :: "rat option \<Rightarrow> int" where
  "millis t = (case t of None \<Rightarrow> 0 | Some r \<Rightarrow> rat_trunc (r * 1000))"

definition event_entry :: "string \<Rightarrow> session_event \<Rightarrow> memory_write_entry option" where
  "event_entry sid e =
     (let text_parts = filter (\<lambda>s. s \<noteq> []) (List.map_filter ep_text (parts_of_event e))
      in if text_parts = [] then None
         else map_option (\<lambda>(scope, body). \<lparr>mw_scope = scope, mw_content = body, mw_ts_ms = millis (se_timestamp e), mw_session_id = Some sid\<rparr>)
                (parse_marker (Some (py_join [NL] text_parts))))"

definition fact_entry :: "bank_memory \<Rightarrow> memory_write_entry option" where
  "fact_entry bm =
     map_option (\<lambda>(scope, body). \<lparr>mw_scope = scope, mw_content = body, mw_ts_ms = millis (bm_time bm), mw_session_id = None\<rparr>)
       (case parse_marker (bm_fact bm) of
          Some x \<Rightarrow> Some x
        | None \<Rightarrow> if py_strip (str_or_empty (bm_fact bm)) = [] then None else Some (''user'', py_strip (str_or_empty (bm_fact bm))))"

definition list_all_entries :: "'m adapter \<Rightarrow> string \<Rightarrow> string \<Rightarrow> 'm \<Rightarrow> string + memory_write_entry list" where
  "list_all_entries ad app user m =
     (case ad of
        NoopMemoryAdapter \<Rightarrow> Inr []
      | InMemoryMemoryAdapter st \<Rightarrow>
          Inr (concat (map (\<lambda>(sid, events). List.map_filter (event_entry sid) events) (dict_get_default st (app @ ''/'' @ user) [])))
      | VertexMemoryAdapter bk \<Rightarrow>
          (case bk_retrieve bk app user FETCH_CAP m of
             Inl e \<Rightarrow> Inl e
           | Inr page \<Rightarrow> Inr (take FETCH_CAP (List.map_filter fact_entry page))))"

section \<open>The profile\<close>

definition bullets :: regex where
  "bullets = plus (Seq (Cls (\<lambda>c. c \<in> set ''-*+'')) spaces1)"

definition strip_bullets :: "string \<Rightarrow> string" where
  "strip_bullets s = (case re_match bullets \<lparr>rprev = None, rrest = s, rcap = None\<rparr> of [] \<Rightarrow> s | q # _ \<Rightarrow> rrest q)"

fun clean_items :: "string list \<Rightarrow> pyval list \<Rightarrow> string list" where
  "clean_items seen [] = []"
| "clean_items seen (PyStr s # vs) =
     (let item = py_strip (strip_bullets (py_strip s))
      in if item = [] \<or> py_lower item \<in> set seen then clean_items seen vs
         else item # clean_items (py_lower item # seen) vs)"
| "clean_items seen (_ # vs) = clean_items seen vs"

definition clean_list :: "pyval \<Rightarrow> string list" where
  "clean_list v = (case v of PyStr s \<Rightarrow> clean_items [] [PyStr s] | PyList vs \<Rightarrow> clean_items [] vs | _ \<Rightarrow> [])"

definition profile_field :: "pydict \<Rightarrow> string \<Rightarrow> string" where
  "profile_field profile k = py_strip (py_str (or_else (dict_get profile k) (PyStr [])))"

definition render_profile :: "pydict \<Rightarrow> bool \<Rightarrow> string" where
  "render_profile profile include_lists =
     (let summary = profile_field profile ''summary'';
          role = profile_field profile ''role'';
          style = profile_field profile ''working_style'';
          show_lists = (include_lists \<or> \<not> (summary \<noteq> [] \<or> role \<noteq> [] \<or> style \<noteq> []));
          interests = (if show_lists then clean_list (dict_get profile ''interests'') else []);
          facts = (if show_lists then clean_list (dict_get profile ''durable_facts'') else []);
          fields = (if role \<noteq> [] then [(''Role'', role)] else []) @
                   (if interests \<noteq> [] then [(''Interests'', py_join '', '' interests)] else []) @
                   (if style \<noteq> [] then [(''Working style'', style)] else []);
          rows = (if summary \<noteq> [] then [summary] else []) @
                   (if fields \<noteq> [] \<or> facts \<noteq> []
                    then (if summary \<noteq> [] then [[]] else []) @
                         map (\<lambda>(label, v). ''- **'' @ label @ '':** '' @ v) fields @ map (\<lambda>f. ''- '' @ f) facts
                    else [])
      in py_strip (py_join [NL] rows))"

definition load_user_profile :: "'m adapter \<Rightarrow> string \<Rightarrow> string \<Rightarrow> bool \<Rightarrow> 'm \<Rightarrow> string" where
  "load_user_profile ad app user include_lists m =
     (if app = [] \<or> user = [] then []
      else case retrieve_profile ad app user m of None \<Rightarrow> [] | Some p \<Rightarrow> render_profile p include_lists)"

definition render_user_profile :: "pydict option \<Rightarrow> string" where
  "render_user_profile state =
     (case state of
        None \<Rightarrow> []
      | Some s \<Rightarrow>
          (let p = dict_get s ''user_profile''
           in if \<not> truthy p \<or> py_strip (py_str p) = [] then []
              else ''## User Profile'' @ [NL, NL] @ py_strip (py_str p)))"

section \<open>The listing\<close>

definition count_scopes :: "memory_write_entry list \<Rightarrow> (string \<times> int) list" where
  "count_scopes es = foldl (\<lambda>counts e. bump (mw_scope e) counts) [(''user'', 0), (''agent'', 0), (''user_profile'', 0)] es"

record memory_list_result =
  ml_entries :: "memory_write_entry list"
  ml_counts :: "(string \<times> int) list"
  ml_has_more :: bool

definition latest_first :: "memory_write_entry list \<Rightarrow> memory_write_entry list" where
  "latest_first es = sort_key (\<lambda>e. - mw_ts_ms e) (rev es)"

definition newest_ts :: "memory_write_entry list \<Rightarrow> int" where
  "newest_ts es = (case map mw_ts_ms es of [] \<Rightarrow> 0 | t # ts \<Rightarrow> foldl max t ts)"

definition list_memory_writes :: "'m adapter \<Rightarrow> string \<Rightarrow> string \<Rightarrow> nat \<Rightarrow> nat \<Rightarrow> 'm \<Rightarrow> string + memory_list_result" where
  "list_memory_writes ad app user limit offset m =
     (case list_all_entries ad app user m of
        Inl e \<Rightarrow> Inl e
      | Inr found \<Rightarrow>
          (let es = latest_first found;
               counts = count_scopes es;
               page = take limit (drop offset es);
               has_more = offset + limit < length es;
               profile = (if offset = 0 then load_user_profile ad app user True m else [])
           in Inr (if profile = []
                   then \<lparr>ml_entries = page, ml_counts = counts, ml_has_more = has_more\<rparr>
                   else \<lparr>ml_entries = \<lparr>mw_scope = ''user_profile'', mw_content = profile, mw_ts_ms = newest_ts es, mw_session_id = None\<rparr> # page,
                         ml_counts = bump ''user_profile'' counts, ml_has_more = has_more\<rparr>)))"

definition get_memories :: "'m adapter \<Rightarrow> nat \<Rightarrow> nat \<Rightarrow> string \<Rightarrow> 'm \<Rightarrow> memory_list_result http" where
  "get_memories ad limit offset user m =
     (case list_memory_writes ad APP_NAME user limit offset m of
        Inl _ \<Rightarrow> Inl (HTTPException 500 ''memory listing failed'')
      | Inr r \<Rightarrow> Inr r)"

section \<open>The nightly review\<close>

definition SESSION_SOURCE_KEY :: string where "SESSION_SOURCE_KEY = ''system:session_source''"
definition SCHEDULER_SOURCE :: string where "SCHEDULER_SOURCE = ''scheduler''"

definition session_limit :: "environ \<Rightarrow> nat" where
  "session_limit environ =
     (case parse_int (env_raw environ ''LHA_DREAM_SESSION_LIMIT'') of
        None \<Rightarrow> 50
      | Some v \<Rightarrow> if v > 0 then nat v else 50)"

definition lookback_seconds :: "(string \<Rightarrow> rat option) \<Rightarrow> environ \<Rightarrow> rat" where
  "lookback_seconds float_of environ =
     (let hours = (case float_of (env_raw environ ''LHA_DREAM_LOOKBACK_HOURS'') of None \<Rightarrow> 24 | Some h \<Rightarrow> h)
      in (if hours \<le> 0 then 24 else hours) * 3600)"

definition has_text :: "session_event \<Rightarrow> bool" where
  "has_text e = list_ex (\<lambda>p. str_or_empty (ep_text p) \<noteq> []) (parts_of_event e)"

definition is_scheduler_session :: "chat_session \<Rightarrow> bool" where
  "is_scheduler_session s = (dict_get (ch_state s) SESSION_SOURCE_KEY = PyStr SCHEDULER_SOURCE)"

definition list_active_users :: "session_service \<Rightarrow> string \<Rightarrow> rat \<Rightarrow> string list" where
  "list_active_users svc app since_ts =
     (case sv_list_sessions svc app None of
        Inl _ \<Rightarrow> []
      | Inr ss \<Rightarrow>
          sorted_strings (dedup (map ch_user_id
            (filter (\<lambda>s. ch_user_id s \<noteq> [] \<and> ch_last_update_time s \<ge> since_ts \<and> \<not> is_scheduler_session s) ss))))"

definition reviewed_session :: "session_service \<Rightarrow> string \<Rightarrow> string \<Rightarrow> chat_session \<Rightarrow> (string \<times> session_event list) option" where
  "reviewed_session svc app user stub =
     (if ch_id stub = [] then None
      else case sv_get_session svc app user (ch_id stub) of
             Inl _ \<Rightarrow> None
           | Inr full \<Rightarrow> Some (ch_id stub, case full of None \<Rightarrow> [] | Some s \<Rightarrow> ch_events s))"

definition collect_user_sessions :: "session_service \<Rightarrow> string \<Rightarrow> string \<Rightarrow> nat \<Rightarrow> (string \<times> session_event list) list option" where
  "collect_user_sessions svc app user limit =
     (case sv_list_sessions svc app (Some user) of
        Inl _ \<Rightarrow> None
      | Inr ss \<Rightarrow> Some (List.map_filter (reviewed_session svc app user) (take limit (recent_first (filter (\<lambda>s. \<not> is_scheduler_session s) ss)))))"

definition review_failure :: "string \<Rightarrow> pydict" where
  "review_failure why = [(''success'', PyBool False), (''reason'', PyStr why)]"

definition review_events :: "(string \<times> session_event list) list \<Rightarrow> session_event list" where
  "review_events sessions = filter has_text (concat (map snd sessions))"

definition run_dream_review_for_user ::
  "environ \<Rightarrow> 'm adapter \<Rightarrow> string \<Rightarrow> string \<Rightarrow> session_service option \<Rightarrow> 'm \<Rightarrow> pydict \<times> 'm" where
  "run_dream_review_for_user environ ad app user sessions_svc m =
     (if environ ''LHA_DREAM_REVIEW'' = Some ''0'' then (review_failure ''dream review disabled by LHA_DREAM_REVIEW env'', m)
      else if app = [] \<or> user = [] then (review_failure ''no app_name / user_id'', m)
      else case sessions_svc of
        None \<Rightarrow> (review_failure ''no session service for session lookup'', m)
      | Some svc \<Rightarrow>
          if \<not> supports_profiles ad then (review_failure ''structured profiles require Vertex Memory Bank'', m)
          else case collect_user_sessions svc app user (session_limit environ) of
            None \<Rightarrow> (review_failure ''session service does not support session lookup (needs list_sessions/get_session)'', m)
          | Some sessions \<Rightarrow>
              (let events = review_events sessions;
                   consolidate = (environ ''LHA_MEMORY_CONSOLIDATION'' \<noteq> Some ''0'')
               in if events = [] then (review_failure ''no recent session content to review'', m)
                  else case generate_profile ad app user events consolidate m of
                         (Inl _, m') \<Rightarrow> (review_failure ''profile generation failed'', m')
                       | (Inr counts, m') \<Rightarrow>
                           ([(''success'', PyBool True), (''sessions_reviewed'', PyInt (int (length sessions))),
                             (''consolidation'', PyDict (if consolidate then (''ran'', PyBool True) # map (\<lambda>(k, n). (k, PyInt n)) counts
                                else [(''ran'', PyBool False), (''reason'', PyStr ''disabled'')]))], m')))"

fun review_users ::
  "(string \<Rightarrow> 'm \<Rightarrow> pydict \<times> 'm) \<Rightarrow> string list \<Rightarrow> nat \<times> nat \<times> string list \<Rightarrow> 'm \<Rightarrow> (nat \<times> nat \<times> string list) \<times> 'm" where
  "review_users f [] acc m = (acc, m)"
| "review_users f (u # us) (reviewed, failed, errors) m =
     (case f u m of (r, m') \<Rightarrow>
        review_users f us (if truthy (dict_get r ''success'') then (reviewed + 1, failed, errors) else (reviewed, failed + 1, errors @ [u])) m')"

record 'm runner =
  rn_adapter :: "'m adapter option"
  rn_session_service :: "session_service option"
  rn_app_name :: "string option"

definition tick_skipped :: "string \<Rightarrow> int \<times> pydict" where
  "tick_skipped why = (200, [(''reviewed'', PyInt 0), (''failed'', PyInt 0), (''reason'', PyStr why)])"

definition dream_review_tick ::
  "(string \<Rightarrow> rat option) \<Rightarrow> environ \<Rightarrow> rat \<Rightarrow> 'm runner \<Rightarrow> string list \<Rightarrow> string \<Rightarrow> 'm \<Rightarrow> (int \<times> pydict) \<times> 'm" where
  "dream_review_tick float_of environ now rn user_ids payload_app m =
     (case rn_adapter rn of
        None \<Rightarrow> (tick_skipped ''memory service not registered'', m)
      | Some ad \<Rightarrow>
          (case rn_session_service rn of
             None \<Rightarrow> (tick_skipped ''session service not registered'', m)
           | Some svc \<Rightarrow>
               (let app = (if str_or_empty (rn_app_name rn) = [] then payload_app else str_or_empty (rn_app_name rn))
                in if app = [] then (tick_skipped ''no app_name'', m)
                   else let users = (if user_ids = [] then list_active_users svc app (now - lookback_seconds float_of environ) else user_ids)
                        in if users = [] then (tick_skipped ''no active users'', m)
                           else case review_users (\<lambda>u. run_dream_review_for_user environ ad app u (Some svc)) users (0, 0, []) m of
                                  ((reviewed, failed, errors), m') \<Rightarrow>
                                    ((if reviewed = 0 \<and> failed > 0 then 500 else 200,
                                      [(''reviewed'', PyInt (int reviewed)), (''failed'', PyInt (int failed)), (''errors'', PyList (map PyStr errors))]), m'))))"

section \<open>What the extractor is given\<close>

lemma placeholder_fine: "\<not> omitted (placeholder b)"
  by (simp add: placeholder_def omitted_def Let_def split: prod.splits)

text \<open>After sanitizing, the extractor can take every attachment, the other parts are as they were and in their places, and sanitizing again changes nothing.\<close>

lemma sanitized_content_is_extractable:
  assumes "sanitize_content_for_memory (Some ps) = Some qs"
  shows "list_all (\<lambda>q. \<not> omitted q) qs" and "length qs = length ps"
    and "\<And>i. i < length ps \<Longrightarrow> \<not> omitted (ps ! i) \<Longrightarrow> qs ! i = ps ! i" and "sanitize_content_for_memory (Some qs) = Some qs"
proof -
  have qs: "qs = map (\<lambda>p. if omitted p then placeholder (the (ep_blob p)) else p) ps"
    using assms by (auto simp: sanitize_content_for_memory_def list_ex_iff map_idI split: if_splits)
  then show all: "list_all (\<lambda>q. \<not> omitted q) qs" by (auto simp: list_all_iff placeholder_fine)
  show "length qs = length ps" using qs by simp
  show "\<And>i. i < length ps \<Longrightarrow> \<not> omitted (ps ! i) \<Longrightarrow> qs ! i = ps ! i" using qs by simp
  show "sanitize_content_for_memory (Some qs) = Some qs"
    using all by (auto simp: sanitize_content_for_memory_def list_ex_iff list_all_iff)
qed

section \<open>What was written is listed\<close>

lemma rstrip_stripped: "py_strip c = c \<Longrightarrow> rstrip_chars py_isspace c = c"
  unfolding py_strip_fixed_iff rstrip_chars_def by (cases "rev c") (auto simp: hd_rev [symmetric])

text \<open>A vetted entry that the tool has written is listed with its scope and its text.\<close>

lemma marker_roundtrip:
  assumes "scope \<in> set VALID_SCOPES" and "py_strip c = c" and "c \<noteq> []"
  shows "parse_marker (Some (scoped_text scope c)) = Some (scope, c)"
proof -
  obtain d ds where c: "c = d # ds" using assms(3) by (cases c) auto
  have "\<not> py_isspace d" using py_strip_no_lead [of c d ds] assms(2) c by simp
  then have "d \<noteq> NL" by (auto simp: py_isspace_def)
  then have "lstrip_chars (\<lambda>x. x = NL) c = c" by (simp add: c lstrip_chars_def)
  then show ?thesis using assms(1) rstrip_stripped [OF assms(2)]
    by (auto simp: parse_marker_def scoped_text_def VALID_SCOPES_def MARKERS_def startswith_def)
qed

text \<open>The listing shows every entry once, the newest first; the pages of a size, put together, are the listing.\<close>

lemma latest_first_sorted: "sorted (map (\<lambda>e. - mw_ts_ms e) (latest_first es))"
  by (simp add: latest_first_def)

lemma latest_first_mset: "mset (latest_first es) = mset es"
  by (simp add: latest_first_def)

lemma pages_are_the_listing: "concat (map (\<lambda>k. take n (drop (k * n) xs)) [0..<p]) = take (p * n) xs"
proof (induction p)
  case (Suc p)
  have "take (p * n) xs @ take n (drop (p * n) xs) = take (p * n + n) xs" by (simp add: take_add)
  then show ?case using Suc by (simp add: add.commute)
qed simp

theorem memory_pages_are_complete:
  assumes "list_all_entries ad app user m = Inr found"
  shows "(\<exists>r pin. list_memory_writes ad app user n (k * n) m = Inr r \<and> ml_entries r = pin @ take n (drop (k * n) (latest_first found)) \<and>
       length pin \<le> 1 \<and> (0 < k * n \<longrightarrow> pin = []) \<and> (ml_has_more r \<longleftrightarrow> (k + 1) * n < length found)) \<and>
    concat (map (\<lambda>k. take n (drop (k * n) (latest_first found))) [0..<p]) = take (p * n) (latest_first found) \<and>
    mset (latest_first found) = mset found \<and> sorted (map (\<lambda>e. - mw_ts_ms e) (latest_first found))"
proof -
  let ?r = "list_memory_writes ad app user n (k * n) m"
  have len: "length (latest_first found) = length found" by (metis latest_first_mset size_mset)
  have "\<exists>r pin. ?r = Inr r \<and> ml_entries r = pin @ take n (drop (k * n) (latest_first found)) \<and>
       length pin \<le> 1 \<and> (0 < k * n \<longrightarrow> pin = []) \<and> (ml_has_more r \<longleftrightarrow> (k + 1) * n < length found)"
  proof (cases "(if k * n = 0 then load_user_profile ad app user True m else []) = []")
    case True
    then show ?thesis using len by (intro exI [of _ "[]"] exI conjI) (auto simp: list_memory_writes_def assms Let_def add.commute)
  next
    case False
    then have "k * n = 0" by presburger
    then show ?thesis using False len
      by (intro exI [of _ "[\<lparr>mw_scope = ''user_profile'', mw_content = load_user_profile ad app user True m, mw_ts_ms = newest_ts (latest_first found), mw_session_id = None\<rparr>]"] exI conjI)
        (auto simp: list_memory_writes_def assms Let_def)
  qed
  then show ?thesis using pages_are_the_listing latest_first_mset latest_first_sorted by blast
qed

section \<open>The profile's lists\<close>

lemma clean_items_distinct:
  "distinct (map py_lower (clean_items seen vs)) \<and> set (map py_lower (clean_items seen vs)) \<inter> set seen = {} \<and> [] \<notin> set (clean_items seen vs)"
proof (induction seen vs rule: clean_items.induct)
  case (2 seen s vs)
  then show ?case by (auto simp: Let_def)
qed simp_all

text \<open>No entry of a profile's list is blank or repeats another up to case.\<close>

lemma clean_list_distinct: "distinct (map py_lower (clean_list v)) \<and> [] \<notin> set (clean_list v)"
  using clean_items_distinct [of "[]"] by (auto simp: clean_list_def simp del: clean_items.simps split: pyval.split)

section \<open>What is reviewed\<close>

lemma collected_sessions:
  assumes "collect_user_sessions svc app user limit = Some sessions"
  shows "length sessions \<le> limit \<and> (\<forall>(sid, evs) \<in> set sessions. \<exists>ss stub. sv_list_sessions svc app (Some user) = Inr ss \<and> stub \<in> set ss \<and>
    ch_id stub = sid \<and> \<not> is_scheduler_session stub \<and>
    (evs = [] \<or> (\<exists>s. sv_get_session svc app user sid = Inr (Some s) \<and> evs = ch_events s)))"
proof -
  from assms obtain ss where ss: "sv_list_sessions svc app (Some user) = Inr ss"
    and s: "sessions = List.map_filter (reviewed_session svc app user) (take limit (recent_first (filter (\<lambda>s. \<not> is_scheduler_session s) ss)))"
    by (auto simp: collect_user_sessions_def split: sum.splits)
  have "length sessions \<le> limit" unfolding s by (rule order_trans [OF length_map_filter_le]) simp
  moreover have "\<exists>stub \<in> set ss. ch_id stub = sid \<and> \<not> is_scheduler_session stub \<and>
      (evs = [] \<or> (\<exists>s. sv_get_session svc app user sid = Inr (Some s) \<and> evs = ch_events s))" if "(sid, evs) \<in> set sessions" for sid evs
  proof -
    from that obtain stub where t: "stub \<in> set (take limit (recent_first (filter (\<lambda>s. \<not> is_scheduler_session s) ss)))"
      and r: "reviewed_session svc app user stub = Some (sid, evs)" unfolding s set_map_filter_iff by blast
    from t have "stub \<in> set (recent_first (filter (\<lambda>s. \<not> is_scheduler_session s) ss))" by (rule in_set_takeD)
    then have "stub \<in> set ss" "\<not> is_scheduler_session stub" by (simp_all add: recent_first_def)
    then show ?thesis using r by (auto simp: reviewed_session_def split: if_splits sum.splits option.splits)
  qed
  ultimately show ?thesis using ss by fastforce
qed

definition reviewable :: "session_service \<Rightarrow> string \<Rightarrow> string \<Rightarrow> session_event \<Rightarrow> bool" where
  "reviewable svc app user e \<longleftrightarrow> has_text e \<and> (\<exists>ss stub s. sv_list_sessions svc app (Some user) = Inr ss \<and> stub \<in> set ss \<and>
     \<not> is_scheduler_session stub \<and> sv_get_session svc app user (ch_id stub) = Inr (Some s) \<and> e \<in> set (ch_events s))"

text \<open>A review of a user sends the service only events with text from that user's own sessions, none from a session the scheduler made, each
  sanitized; what else happens leaves the store as it was.\<close>

theorem review_reads_the_users_own_sessions:
  assumes "run_dream_review_for_user environ (VertexMemoryAdapter bk) app user svc m = (r, m')"
  shows "m' = m \<or> (\<exists>sv events off. svc = Some sv \<and> events \<noteq> [] \<and> list_all (reviewable sv app user) events \<and>
    m' = snd (bk_generate bk app user (map (\<lambda>e. sanitize_content_for_memory (se_parts e)) events) off m))"
proof (cases "\<exists>sv sessions. svc = Some sv \<and> collect_user_sessions sv app user (session_limit environ) = Some sessions \<and> review_events sessions \<noteq> []")
  case False
  then show ?thesis using assms by (auto simp: run_dream_review_for_user_def Let_def split: if_splits option.splits)
next
  case True
  then obtain sv sessions where sv: "svc = Some sv" and c: "collect_user_sessions sv app user (session_limit environ) = Some sessions"
    and e: "review_events sessions \<noteq> []" by blast
  have "reviewable sv app user ev" if "ev \<in> set (review_events sessions)" for ev
  proof -
    from that obtain sid evs where x: "(sid, evs) \<in> set sessions" "ev \<in> set evs" and h: "has_text ev" by (auto simp: review_events_def)
    then show ?thesis using collected_sessions [OF c] h unfolding reviewable_def by fastforce
  qed
  then have "list_all (reviewable sv app user) (review_events sessions)" by (simp add: list_all_iff)
  then show ?thesis using assms sv c e
    by (auto simp: run_dream_review_for_user_def Let_def generate_profile_def split: if_splits prod.splits sum.splits) (metis snd_conv)+
qed

lemma review_users_counts:
  "fst (review_users f us (a, b, es) m) = (a', b', es') \<Longrightarrow> a' + b' = a + b + length us \<and> length es' + b = length es + b' \<and> prefix es es' \<and> set es' \<subseteq> set es \<union> set us"
proof (induction us arbitrary: a b es m)
  case (Cons u us)
  obtain r m1 where f: "f u m = (r, m1)" by (rule prod.exhaust)
  show ?case
  proof (cases "truthy (dict_get r ''success'')")
    case True
    then show ?thesis using Cons.IH [of "a + 1" b es m1] Cons.prems by (auto simp: f)
  next
    case False
    then show ?thesis using Cons.IH [of a "b + 1" "es @ [u]" m1] Cons.prems by (auto simp: f dest: append_prefixD)
  qed
qed simp

end
