(* ===== verification/Slash_Commands.thy ===== *)
theory Slash_Commands
  imports Models Memory_Bank Policies Permission_Rules Workspace_Paths Routine_Store
begin

text \<open>
  Slash commands (\<open>commands/__init__.py\<close>, \<open>commands/dispatcher.py\<close>). A command reads and writes the session state, the routine
  store, the rules and the memory; these are the record \<open>cmd_world\<close>, where the calls that drop a user's cached secrets are recorded too. What it looks up from outside is the record \<open>cmd_env\<close>: whether
  the state is a plain dictionary, the active environment, and the outcomes of refreshing the skills and of
  upgrading the sandbox. A callback context has its invocation context, and the routine store is the one in memory. Its reply is a text or an exception, next to the world it leaves.
\<close>

section \<open>Requests\<close>

record rq_content =
  rq_role :: string
  rq_texts :: "string option list"

definition first_text :: "string option list \<Rightarrow> string option" where
  "first_text ts = first_some (\<lambda>t. case t of None \<Rightarrow> None | Some s \<Rightarrow> if s = [] then None else Some s) ts"

text \<open>The latest text of the user: from the end, the first user content that has one.\<close>

definition last_user_text :: "rq_content list \<Rightarrow> string option" where
  "last_user_text contents = first_some (\<lambda>c. if rq_role c = ''user'' then first_text (rq_texts c) else None) (rev contents)"

fun replace_first_text :: "string \<Rightarrow> string option list \<Rightarrow> string option list option" where
  "replace_first_text new [] = None"
| "replace_first_text new (t # ts) =
     (if str_or_empty t \<noteq> [] then Some (Some new # ts) else map_option ((#) t) (replace_first_text new ts))"

fun rewrite_rev :: "string \<Rightarrow> rq_content list \<Rightarrow> rq_content list" where
  "rewrite_rev new [] = []"
| "rewrite_rev new (c # cs) =
     (if rq_role c \<noteq> ''user'' then c # rewrite_rev new cs
      else case replace_first_text new (rq_texts c) of
             Some ts \<Rightarrow> c\<lparr>rq_texts := ts\<rparr> # cs
           | None \<Rightarrow> c # rewrite_rev new cs)"

definition rewrite_last_user_text :: "string \<Rightarrow> rq_content list \<Rightarrow> rq_content list" where
  "rewrite_last_user_text new contents = rev (rewrite_rev new (rev contents))"

section \<open>The handlers\<close>

record 'm cmd_world =
  cm_state :: "pydict option"
  cm_routines :: routine_memory
  cm_rules :: perm_store
  cm_memory :: 'm
  cm_dropped_secrets :: "string list"

record 'm cmd_env =
  ce_environ :: environ
  ce_plain_state :: bool
  ce_active_env :: "overlay_env option"
  ce_files :: overlay_fs
  ce_host :: host
  ce_root :: path
  ce_adapter :: "'m adapter"
  ce_sessions :: "session_service option"
  ce_app_name :: string
  ce_user_id :: string
  ce_request_user :: string
  ce_skills :: "string list"
  ce_reload :: "pydict option"
  ce_catalog :: pyval
  ce_upgrade :: "pydict py"
  ce_isoformat :: "int \<Rightarrow> string"

type_synonym 'm handler = "string \<Rightarrow> 'm cmd_world \<Rightarrow> string py \<times> 'm cmd_world"

definition plain_state :: "'m cmd_env \<Rightarrow> 'm cmd_world \<Rightarrow> pydict option" where
  "plain_state ce w = (if ce_plain_state ce then cm_state w else None)"

definition available_models :: string where
  "available_models = py_join '', '' (sorted_strings model_names)"

definition cmd_model :: "'m cmd_env \<Rightarrow> 'm handler" where
  "cmd_model ce args w =
     (let name = py_strip args in
      if name = [] then
        (py_bind (resolve_model (ce_environ ce) (plain_state ce w)) (\<lambda>current.
           Inr (''current: '' @ current @ [NL] @ ''available: '' @ available_models)), w)
      else if name \<notin> set model_names then (Inr (''unknown model '' @ py_repr_str name @ ''; available: '' @ available_models), w)
      else case cm_state w of
             None \<Rightarrow> (Inr (''/model '' @ name @ '': no session state available''), w)
           | Some s \<Rightarrow> (Inr (''model set to '' @ name @ '' for this session''), w\<lparr>cm_state := Some (dict_set s SELECTED_MODEL_STATE_KEY (PyStr name))\<rparr>))"

definition strip_slash :: "string \<Rightarrow> string" where
  "strip_slash s = rstrip_chars (\<lambda>c. c = CHR ''/'') (lstrip_chars (\<lambda>c. c = CHR ''/'') s)"

definition cmd_workspace :: "'m cmd_env \<Rightarrow> 'm handler" where
  "cmd_workspace ce args w =
     (let arg = py_strip args in
      if arg = [] then
        (py_bind (window_dirs (plain_state ce w)) (\<lambda>current.
           Inr (if current \<noteq> [] then ''workspace focus: '' @ py_join '', '' current
                else ''workspace focus: (whole workspace) '' @ EMDASH @ '' set one with /workspace <subdir>'')), w)
      else case cm_state w of
        None \<Rightarrow> (Inr ''/workspace: no session state available'', w)
      | Some s \<Rightarrow>
          if arg = ''/'' \<or> arg = ''--all''
          then (Inr (''workspace focus cleared '' @ EMDASH @ '' now spanning the whole workspace''),
                w\<lparr>cm_state := Some (dict_set s WORKSPACE_WINDOW_STATE_KEY (PyList []))\<rparr>)
          else if ce_active_env ce = None then (Inl (RuntimeError ''no active environment''), w)
          else case py_bind (path_resolve (ce_host ce) (ce_root ce)) (path_under_root (ce_host ce) (strip_slash arg)) of
                 Inl e \<Rightarrow> (Inl e, w)
               | Inr (Inl _) \<Rightarrow> (Inr (''/workspace: directory not found: '' @ arg), w)
               | Inr (Inr resolved) \<Rightarrow>
                   if \<not> host_is_dir (ce_host ce) resolved then (Inr (''/workspace: directory not found: '' @ arg), w)
                   else (Inr (''workspace focus set to '' @ strip_slash arg @ ''/ for this session''),
                         w\<lparr>cm_state := Some (dict_set s WORKSPACE_WINDOW_STATE_KEY (PyList [PyStr (strip_slash arg)]))\<rparr>))"

definition grant_line :: "nat \<times> pyval \<Rightarrow> string py" where
  "grant_line ig =
     (case ig of (i, g) \<Rightarrow>
        (case g of
           PyDict d \<Rightarrow> Inr (''  ['' @ string_of_nat i @ ''] '' @ py_str (dict_get_default d ''tool_name'' (PyStr ''?'')) @ '' ''
                         @ py_str (dict_get_default d ''signature'' (PyDict [])))
         | _ \<Rightarrow> Inl (AttributeError ''get'')))"

fun all_lines :: "string py list \<Rightarrow> string list py" where
  "all_lines [] = Inr []"
| "all_lines (l # ls) = py_bind l (\<lambda>x. py_bind (all_lines ls) (\<lambda>xs. Inr (x # xs)))"

definition list_grants :: "pydict option \<Rightarrow> string py" where
  "list_grants state =
     (let v = (case state of None \<Rightarrow> PyNone | Some s \<Rightarrow> dict_get s POLICY_GRANTS_STATE_KEY) in
      if \<not> truthy v then Inr ''no active grants''
      else case v of
             PyList gs \<Rightarrow>
               py_bind (all_lines (map grant_line (enumerate 0 gs))) (\<lambda>ls.
                 Inr (py_join [NL] ((string_of_nat (length gs) @ '' active grant(s):'') # ls)))
           | _ \<Rightarrow> Inl (AttributeError ''get''))"

text \<open>A command reaches the guards as a \<open>bash\<close> command, as a \<open>process\<close> command or as data for a process: one grant for each.\<close>

definition grant_shape :: "string \<Rightarrow> string \<Rightarrow> string \<Rightarrow> pydict option \<Rightarrow> (pydict \<times> pydict option) py" where
  "grant_shape tool_name key command state = policy_grant ''grant'' (Some tool_name) (PyDict [(key, PyStr command)]) None state"

definition cmd_grant :: "'m handler" where
  "cmd_grant args w =
     (let command = py_strip args in
      if command = [] then (list_grants (cm_state w), w)
      else case grant_shape BASH ''command'' command (cm_state w) of
        Inl e \<Rightarrow> (Inl e, w)
      | Inr (result, st1) \<Rightarrow>
          if \<not> truthy (dict_get result ''granted'')
          then (Inr (''/grant failed: '' @ py_str (dict_get_default result ''error'' (PyStr ''unknown''))), w\<lparr>cm_state := st1\<rparr>)
          else case grant_shape PROCESS ''command'' command st1 of
            Inl e \<Rightarrow> (Inl e, w\<lparr>cm_state := st1\<rparr>)
          | Inr (_, st2) \<Rightarrow>
              (case grant_shape PROCESS ''data'' command st2 of
                 Inl e \<Rightarrow> (Inl e, w\<lparr>cm_state := st2\<rparr>)
               | Inr (_, st3) \<Rightarrow>
                   (Inr (if truthy (dict_get result ''duplicate'') then ''grant for command='' @ py_repr_str command @ '' already active''
                         else ''granted command='' @ py_repr_str command @ '' for this session''), w\<lparr>cm_state := st3\<rparr>)))"

definition session_grant_line :: "pyval \<Rightarrow> string py" where
  "session_grant_line g =
     (case g of
        PyDict d \<Rightarrow>
          Inr (''  '' @ [CHR 0xB7] @ '' '' @ py_str (dict_get d ''toolName'') @ '' ''
            @ py_str (or_else (dict_get d ''commandPrefix'') (dict_get d ''toolName'')))
      | _ \<Rightarrow> Inl (AttributeError ''get''))"

text \<open>Without an active environment there are no persisted rules.\<close>

definition persisted_count :: "'m cmd_env \<Rightarrow> perm_store \<Rightarrow> (nat \<times> perm_store) py" where
  "persisted_count ce rules =
     (case load_persisted_rules (ce_active_env ce) (ce_files ce) rules of
        Inl (RuntimeError _) \<Rightarrow> Inr (0, rules)
      | Inl e \<Rightarrow> Inl e
      | Inr (persisted, rules') \<Rightarrow> Inr (length persisted, rules'))"

definition cmd_permissions :: "'m cmd_env \<Rightarrow> 'm handler" where
  "cmd_permissions ce args w =
     (if py_lower (py_strip args) = ''clear''
      then (Inr ''session permission grants cleared'', w\<lparr>cm_state := snd (write_session_grants (cm_state w) [])\<rparr>)
      else
        (let grants = read_session_grants (cm_state w) in
         case persisted_count ce (cm_rules w) of
           Inl e \<Rightarrow> (Inl e, w)
         | Inr (persisted, rules') \<Rightarrow>
             (py_bind (all_lines (map session_grant_line grants)) (\<lambda>ls.
                Inr (py_join [NL] ((if grants = [] then [''no session permission grants'']
                    else (string_of_nat (length grants) @ '' session grant(s):'') # ls) @
                  [string_of_nat persisted @ '' persisted rule(s) in .lha/permissions.jsonl'',
                   ''use '' @ [BTICK] @ ''/permissions clear'' @ [BTICK] @ '' to drop session grants'']))), w\<lparr>cm_rules := rules'\<rparr>)))"

definition routine_line :: "'m cmd_env \<Rightarrow> routine_row \<Rightarrow> string" where
  "routine_line ce r = ''- '' @ rr_id r @ ''  ('' @ rr_schedule r @ '')  next: '' @ ce_isoformat ce (rr_next_fire_at r)"

text \<open>\<open>args.strip().split(maxsplit=1)\<close>: the first word and what follows it.\<close>

definition split_word :: "string \<Rightarrow> string \<times> string option" where
  "split_word s =
     (let t = py_strip s;
          w = takeWhile (\<lambda>c. \<not> py_isspace c) t;
          rest = dropWhile py_isspace (drop (length w) t)
      in (w, if rest = [] then None else Some rest))"

definition cmd_routines :: "'m cmd_env \<Rightarrow> 'm handler" where
  "cmd_routines ce args w =
     (case split_word args of (word0, rest) \<Rightarrow>
        (case (if py_lower word0 = ''remove'' then rest else None) of
           Some rid \<Rightarrow>
             (case mem_cancel (py_strip rid) (ce_request_user ce) (cm_routines w) of
                (ok, rs) \<Rightarrow>
                  (Inr (if ok then ''Removed routine '' @ [SQUOTE] @ py_strip rid @ [SQUOTE] @ ''.'' else ''No such routine.''), w\<lparr>cm_routines := rs\<rparr>))
         | None \<Rightarrow>
             (let rows = mem_list_for_user (ce_request_user ce) (cm_routines w)
              in (Inr (if rows = [] then ''No routines scheduled.''
                       else ''Scheduled routines:'' @ [NL] @ py_join [NL] (map (routine_line ce) rows)), w))))"

definition cmd_yolo :: "'m handler" where
  "cmd_yolo args w =
     (case cm_state w of
        None \<Rightarrow> (Inr ''/yolo: no session state available'', w)
      | Some s \<Rightarrow>
          (let new_mode = (if dict_get_default s APPROVAL_MODE_STATE_KEY (PyStr ''default'') = PyStr ''yolo'' then ''default'' else ''yolo'')
           in (Inr (if new_mode = ''yolo''
                    then ''Approval mode: YOLO '' @ EMDASH @ '' risky commands auto-approved this session. Catastrophic and secret-exfil blocks still apply.''
                    else ''Approval mode: default '' @ EMDASH @ '' interactive approval required for risky commands.''),
               w\<lparr>cm_state := Some (dict_set s APPROVAL_MODE_STATE_KEY (PyStr new_mode))\<rparr>)))"

definition cmd_dream_review :: "'m cmd_env \<Rightarrow> 'm handler" where
  "cmd_dream_review ce args w =
     (case run_dream_review_for_user (ce_environ ce) (ce_adapter ce) (ce_app_name ce) (ce_user_id ce) (ce_sessions ce) (cm_memory w) of
        (result, m') \<Rightarrow>
          (Inr (if truthy (dict_get result ''success'')
                then ''dream-review done '' @ EMDASH @ '' profile consolidated from '' @ py_str (dict_get_default result ''sessions_reviewed'' (PyInt 0)) @ '' session(s)''
                else ''dream-review skipped: '' @ py_str (dict_get_default result ''reason'' (PyStr ''unknown''))), w\<lparr>cm_memory := m'\<rparr>))"

definition str_items :: "pyval \<Rightarrow> string list" where
  "str_items v = (case v of PyList xs \<Rightarrow> List.map_filter as_str xs | _ \<Rightarrow> [])"

definition MIDDOT :: string where "MIDDOT = [CHR 0x20, CHR 0xB7, CHR 0x20]"

definition cmd_reload :: "'m cmd_env \<Rightarrow> 'm handler" where
  "cmd_reload ce args w0 =
     (let w = (if ce_user_id ce = [] then w0 else w0\<lparr>cm_dropped_secrets := cm_dropped_secrets w0 @ [ce_user_id ce]\<rparr>) in
      case ce_reload ce of
        None \<Rightarrow> (Inr ''/reload: no skill toolset bound'', w)
      | Some diff \<Rightarrow>
          (let loaded = str_items (dict_get diff ''loaded''); removed = str_items (dict_get diff ''removed'')
           in (Inr (''reloaded'' @ MIDDOT @ py_join MIDDOT ([''skills: '' @ py_str (dict_get diff ''total'')]
                 @ (if loaded = [] then [] else [''+'' @ py_join '', '' loaded]) @ (if removed = [] then [] else [''-'' @ py_join '', '' removed]))),
               w\<lparr>cm_state := map_option (\<lambda>s. dict_set s ''bound_skills'' (ce_catalog ce)) (cm_state w)\<rparr>)))"

definition cmd_sandbox_upgrade :: "'m cmd_env \<Rightarrow> 'm handler" where
  "cmd_sandbox_upgrade ce args w =
     (if ce_user_id ce = [] then (Inr ''/sandbox-upgrade: no user context'', w)
      else (py_bind (ce_upgrade ce) (\<lambda>result.
        let version = py_str (dict_get_default result ''version'' (PyStr ''?'')); status = dict_get result ''status''
        in Inr (if status = PyStr ''upgraded'' then ''sandbox upgraded to '' @ version @ MIDDOT @ ''/workspace migrated''
                else if status = PyStr ''already_current'' then ''already on '' @ version @ '' '' @ EMDASH @ '' nothing to upgrade''
                else if status = PyStr ''no_sandbox'' then ''no sandbox to upgrade yet '' @ EMDASH @ '' one provisions on your next session''
                else ''/sandbox-upgrade unavailable: '' @ py_str (dict_get_default result ''reason'' (PyStr ''sandbox backend off'')))), w))"

definition BUILTIN_COMMAND_REGISTRY :: "'m cmd_env \<Rightarrow> (string \<times> 'm handler) list" where
  "BUILTIN_COMMAND_REGISTRY ce =
     [(''dream-review'', cmd_dream_review ce), (''reload'', cmd_reload ce), (''model'', cmd_model ce), (''workspace'', cmd_workspace ce),
      (''sandbox-upgrade'', cmd_sandbox_upgrade ce), (''grant'', cmd_grant), (''permissions'', cmd_permissions ce), (''routines'', cmd_routines ce),
      (''yolo'', cmd_yolo)]"

section \<open>The dispatcher\<close>

datatype dispatch_result = PassOn "rq_content list" | Reply string

definition dispatch_command :: "'m cmd_env \<Rightarrow> rq_content list \<Rightarrow> 'm cmd_world \<Rightarrow> dispatch_result \<times> 'm cmd_world" where
  "dispatch_command ce contents w =
     (case last_user_text contents of
        None \<Rightarrow> (PassOn contents, w)
      | Some t \<Rightarrow>
          if \<not> startswith t ''/'' then (PassOn contents, w)
          else let cmd = takeWhile (\<lambda>c. c \<noteq> CHR '' '') (drop 1 t);
                   rest = drop 1 (dropWhile (\<lambda>c. c \<noteq> CHR '' '') (drop 1 t))
               in case map_of (BUILTIN_COMMAND_REGISTRY ce) cmd of
                    None \<Rightarrow>
                      (PassOn (if cmd \<in> set (ce_skills ce) then rewrite_last_user_text (py_strip (''Use the '' @ cmd @ '' skill. '' @ rest)) contents
                               else contents), w)
                  | Some handler \<Rightarrow>
                      (case handler rest w of
                         (Inr reply, w') \<Rightarrow> (Reply reply, w')
                       | (Inl _, w') \<Rightarrow> (Reply (''[/'' @ cmd @ '' failed; see server logs]''), w')))"

section \<open>When a command runs\<close>

lemma plain_text_passes:
  "last_user_text contents = Some t \<Longrightarrow> \<not> startswith t ''/'' \<Longrightarrow> dispatch_command ce contents w = (PassOn contents, w)"
  by (simp add: dispatch_command_def)

lemma first_text_None: "list_all (\<lambda>t. str_or_empty t = []) ts \<Longrightarrow> first_text ts = None"
  by (auto simp: first_text_def first_some_None_iff list_all_iff str_or_empty_def split: option.splits)

text \<open>The text of a command is looked for in the whole history: after a message without text, an image say, the
  dispatcher finds the user's earlier message and runs its command again.\<close>

lemma textless_message_repeats_the_command:
  assumes "list_all (\<lambda>t. str_or_empty t = []) (rq_texts c)" and "list_all (\<lambda>c. rq_role c \<noteq> ''user'') answers"
  shows "last_user_text (contents @ answers @ [c]) = last_user_text contents"
proof -
  have "first_some (\<lambda>c. if rq_role c = ''user'' then first_text (rq_texts c) else None) (rev answers @ cs) =
      first_some (\<lambda>c. if rq_role c = ''user'' then first_text (rq_texts c) else None) cs" if "list_all (\<lambda>c. rq_role c \<noteq> ''user'') answers" for answers cs
    using that by (induction answers arbitrary: cs) simp_all
  then show ?thesis using assms first_text_None by (simp add: last_user_text_def)
qed

definition yolo_turn :: rq_content where "yolo_turn = \<lparr>rq_role = ''user'', rq_texts = [Some ''/yolo'']\<rparr>"
definition image_turn :: rq_content where "image_turn = \<lparr>rq_role = ''user'', rq_texts = [None]\<rparr>"
definition model_turn :: "string \<Rightarrow> rq_content" where "model_turn t = \<lparr>rq_role = ''model'', rq_texts = [Some t]\<rparr>"

lemma image_after_yolo_toggles_again:
  assumes "cm_state w = Some s" and "dict_get_default s APPROVAL_MODE_STATE_KEY (PyStr ''default'') = PyStr ''yolo''"
  shows "\<exists>reply. dispatch_command ce [yolo_turn, model_turn t, image_turn] w =
    (Reply reply, w\<lparr>cm_state := Some (dict_set s APPROVAL_MODE_STATE_KEY (PyStr ''default''))\<rparr>)"
proof -
  have "last_user_text ([yolo_turn] @ [model_turn t] @ [image_turn]) = last_user_text [yolo_turn]"
    by (rule textless_message_repeats_the_command) (simp_all add: image_turn_def model_turn_def str_or_empty_def)
  then have l: "last_user_text [yolo_turn, model_turn t, image_turn] = Some ''/yolo''"
    by (simp add: last_user_text_def yolo_turn_def first_text_def)
  have c: "takeWhile (\<lambda>c. c \<noteq> CHR '' '') (drop 1 ''/yolo'') = ''yolo''" "startswith ''/yolo'' ''/''" by code_simp+
  have h: "map_of (BUILTIN_COMMAND_REGISTRY ce) ''yolo'' = Some cmd_yolo" by (simp add: BUILTIN_COMMAND_REGISTRY_def)
  show ?thesis unfolding dispatch_command_def l using assms by (simp only: option.case c not_True_eq_False if_False Let_def h) (simp add: cmd_yolo_def)
qed

section \<open>What a grant lifts\<close>

definition grants_ok :: "pydict \<Rightarrow> bool" where
  "grants_ok s \<longleftrightarrow> list_all (\<lambda>g. as_dict g \<noteq> None) (stored_grants s)"

definition exempts :: "string \<Rightarrow> string \<Rightarrow> string \<Rightarrow> string \<Rightarrow> pyval \<Rightarrow> bool" where
  "exempts tool_name key command tn args \<longleftrightarrow> tn = tool_name \<and> (\<exists>d. args = PyDict d \<and> dict_get d key = PyStr command)"

lemma find_duplicate_ok: "list_all (\<lambda>g. as_dict g \<noteq> None) gs \<Longrightarrow> \<exists>r. find_duplicate tn sg gs = Inr r"
  by (induction gs) (auto simp: as_dict_def split: pyval.splits)

lemma find_duplicate_Some:
  "find_duplicate tn sg gs = Inr (Some e) \<Longrightarrow>
     \<exists>g. e = PyDict g \<and> PyDict g \<in> set gs \<and> dict_get g ''tool_name'' = PyStr tn \<and> py_eq (dict_get g ''signature'') (PyDict sg)"
  by (induction gs) (auto split: pyval.splits if_splits)

lemma duplicate_signature:
  assumes "py_eq v (PyDict [(key, PyStr c)])"
  shows "v = PyDict [(key, PyStr c)]"
proof (cases v)
  case (PyDict d)
  with assms have "length d = 1" and i: "py_eq_items d [(key, PyStr c)]" by auto
  then obtain k w where "d = [(k, w)]" by (cases d) auto
  then show ?thesis using i PyDict by (auto split: if_splits)
qed (use assms in auto)

lemma grant_shape_effect:
  assumes "grants_ok s" and "tool_name \<noteq> []"
  shows "\<exists>r s'. grant_shape tool_name key command (Some s) = Inr (r, Some s') \<and> grants_ok s' \<and> truthy (dict_get r ''granted'') \<and>
    (\<forall>tn args. granted (Some s') tn args \<longleftrightarrow> granted (Some s) tn args \<or> exempts tool_name key command tn args)"
proof -
  let ?sg = "[(key, PyStr command)]" and ?g = "[(''tool_name'', PyStr tool_name), (''signature'', PyDict [(key, PyStr command)])]"
  have m: "grant_matches ?g tn args \<longleftrightarrow> exempts tool_name key command tn args" for tn args
    using grant_matches_new [of ?sg tool_name tn args] by (auto simp: exempts_def)
  obtain dup where dup: "find_duplicate tool_name ?sg (stored_grants s) = Inr dup"
    using find_duplicate_ok assms(1) unfolding grants_ok_def by blast
  show ?thesis
  proof (cases dup)
    case None
    let ?s' = "dict_set s POLICY_GRANTS_STATE_KEY (PyList (stored_grants s @ [PyDict ?g]))"
    have "grant_shape tool_name key command (Some s) = Inr ([(''granted'', PyBool True), (''grant'', PyDict ?g)], Some ?s')"
      using dup None assms(2) by (simp add: grant_shape_def policy_grant_def grant_op_def require_state_def Let_def)
    moreover have a: "active_grants ?s' = active_grants s @ [?g]"
      unfolding active_grants_set active_grants_stored [of s] by (simp add: List.map_filter_def)
    have "granted (Some ?s') tn args \<longleftrightarrow> granted (Some s) tn args \<or> exempts tool_name key command tn args" for tn args
      unfolding granted_def option.case find_grant_iff a using m by auto
    moreover have "grants_ok ?s'" using assms(1) by (simp add: grants_ok_def stored_grants_def)
    moreover have "truthy (dict_get [(''granted'', PyBool True), (''grant'', PyDict ?g)] ''granted'')" by (simp add: dict_get_def dict_get_default_def)
    ultimately show ?thesis by blast
  next
    case (Some e)
    then obtain g where g: "PyDict g \<in> set (stored_grants s)" "dict_get g ''tool_name'' = PyStr tool_name" "dict_get g ''signature'' = PyDict ?sg"
      using find_duplicate_Some dup duplicate_signature by blast
    have "grant_matches g tn args \<longleftrightarrow> exempts tool_name key command tn args" for tn args
      using g by (auto simp: grant_matches_def grant_signature_def exempts_def split: pyval.splits)
    moreover have "g \<in> set (active_grants s)" using g(1) by (force simp: active_grants_stored List.map_filter_def)
    ultimately have "granted (Some s) tn args" if "exempts tool_name key command tn args" for tn args
      using that unfolding granted_def option.case find_grant_iff by blast
    moreover have "grant_shape tool_name key command (Some s) = Inr ([(''granted'', PyBool True), (''grant'', e), (''duplicate'', PyBool True)], Some s)"
      using dup Some assms(2) by (simp add: grant_shape_def policy_grant_def grant_op_def require_state_def Let_def)
    ultimately show ?thesis using assms(1) by (auto simp: dict_get_def dict_get_default_def)
  qed
qed

text \<open>After \<open>/grant\<close> with a command, the calls the policy guard exempts are those it exempted before, \<open>bash\<close> calls with that command, and
  \<open>process\<close> calls that carry it as their command or as their data.\<close>

lemma cmd_grant_effect:
  assumes "cm_state w = Some s" and "grants_ok s" and "py_strip args0 \<noteq> []"
  shows "\<exists>reply s'. cmd_grant args0 w = (Inr reply, w\<lparr>cm_state := Some s'\<rparr>) \<and> grants_ok s' \<and>
    (granted (Some s') tn args \<longleftrightarrow> granted (Some s) tn args \<or> exempts BASH ''command'' (py_strip args0) tn args \<or>
       exempts PROCESS ''command'' (py_strip args0) tn args \<or> exempts PROCESS ''data'' (py_strip args0) tn args)"
proof -
  have ne: "BASH \<noteq> []" "PROCESS \<noteq> []" by (simp_all add: tool_name_defs)
  let ?c = "py_strip args0"
  obtain r1 s1 where 1: "grant_shape BASH ''command'' ?c (Some s) = Inr (r1, Some s1)" "grants_ok s1" "truthy (dict_get r1 ''granted'')"
    "\<forall>tn args. granted (Some s1) tn args \<longleftrightarrow> granted (Some s) tn args \<or> exempts BASH ''command'' ?c tn args"
    using grant_shape_effect [OF assms(2) ne(1)] by blast
  obtain r2 s2 where 2: "grant_shape PROCESS ''command'' ?c (Some s1) = Inr (r2, Some s2)" "grants_ok s2"
    "\<forall>tn args. granted (Some s2) tn args \<longleftrightarrow> granted (Some s1) tn args \<or> exempts PROCESS ''command'' ?c tn args"
    using grant_shape_effect [OF 1(2) ne(2)] by blast
  obtain r3 s3 where 3: "grant_shape PROCESS ''data'' ?c (Some s2) = Inr (r3, Some s3)" "grants_ok s3"
    "\<forall>tn args. granted (Some s3) tn args \<longleftrightarrow> granted (Some s2) tn args \<or> exempts PROCESS ''data'' ?c tn args"
    using grant_shape_effect [OF 2(2) ne(2)] by blast
  have "\<exists>reply. cmd_grant args0 w = (Inr reply, w\<lparr>cm_state := Some s3\<rparr>)"
    using assms(1,3) 1(1,3) 2(1) 3(1) by (simp add: cmd_grant_def Let_def)
  then show ?thesis using 1(4) 2(3) 3(2,3) by blast
qed

text \<open>C39: The arguments of a granted call are not compared as a whole. After \<open>/grant\<close> with some command, a \<open>write\<close> to a running shell that names that command
  beside its data passes the policy guard with any data, although without the grant the guard blocks it when the classifier denies the data.\<close>

theorem granted_command_carries_any_data:
  assumes "cm_state w = Some s" and "grants_ok s" and "py_strip args0 \<noteq> []" and "pol_store_ok st"
    and "args = PyDict [(''action'', PyStr ''write''), (''session_id'', PyStr sid), (''data'', PyStr data), (''command'', PyStr (py_strip args0))]"
    and "classify data = Some (TDeny, why)" and "\<not> granted (Some s) PROCESS args"
  shows "fst (policies_guard search env fs ask_is_deny PROCESS args (Some s) st) \<noteq> None \<and>
    (\<exists>reply s'. cmd_grant args0 w = (Inr reply, w\<lparr>cm_state := Some s'\<rparr>) \<and> fst (policies_guard search env fs ask_is_deny PROCESS args (Some s') st) = None)"
proof
  have "command_for PROCESS args = Some data"
    unfolding assms(5) by (simp add: command_for_def PROCESS_def BASH_def dict_get_def dict_get_default_def)
  then show "fst (policies_guard search env fs ask_is_deny PROCESS args (Some s) st) \<noteq> None"
    using policies_floor [OF assms(4) _ assms(7), of search env fs ask_is_deny] assms(6) by (auto simp: PROCESS_def)
  have e: "exempts PROCESS ''command'' (py_strip args0) PROCESS args" unfolding assms(5) by (simp add: exempts_def dict_get_def dict_get_default_def)
  from cmd_grant_effect [OF assms(1-3), of PROCESS args] obtain reply s' where
    "cmd_grant args0 w = (Inr reply, w\<lparr>cm_state := Some s'\<rparr>)" "granted (Some s') PROCESS args" using e by blast
  then show "\<exists>reply s'. cmd_grant args0 w = (Inr reply, w\<lparr>cm_state := Some s'\<rparr>) \<and> fst (policies_guard search env fs ask_is_deny PROCESS args (Some s') st) = None"
    using policies_guard_granted [of "Some s'" PROCESS args] by blast
qed

definition fresh_world :: "unit cmd_world" where
  "fresh_world = \<lparr>cm_state = Some [], cm_routines = [], cm_rules = fresh_perm_store, cm_memory = (), cm_dropped_secrets = []\<rparr>"

theorem granted_command_carries_any_data_witness:
  "\<exists>reply s'. cmd_grant '' make clean'' fresh_world = (Inr reply, fresh_world\<lparr>cm_state := Some s'\<rparr>) \<and>
    fst (policies_guard (\<lambda>_ _. None) None empty_fs False PROCESS
      (PyDict [(''action'', PyStr ''write''), (''session_id'', PyStr ''proc_1''), (''data'', PyStr ''rm -rf /''), (''command'', PyStr ''make clean'')]) (Some s') fresh_pol_store) = None"
proof -
  have c: "classify ''rm -rf /'' = Some (TDeny, ''recursive force-delete of a system/home root'')" by code_simp
  have p: "py_strip '' make clean'' = ''make clean''" by code_simp
  have g: "\<not> granted (Some []) PROCESS a" for a by (simp add: granted_def find_matching_grant_def active_grants_def)
  have o: "grants_ok []" by (simp add: grants_ok_def stored_grants_def)
  from granted_command_carries_any_data [where w = fresh_world and s = "[]" and ?args0.0 = "'' make clean''" and sid = "''proc_1''" and search = "\<lambda>_ _. None"
      and env = None and fs = empty_fs and ask_is_deny = False, OF _ o _ fresh_pol_store_ok refl c g] p
  show ?thesis by (simp add: fresh_world_def)
qed

end
