(* ===== verification/Skill_Forks.thy ===== *)
theory Skill_Forks
  imports Memory_Bank Tool_Gate File_Ops
begin

text \<open>
  What runs beside the agent after a turn: the counters of skill use (\<open>memory/skill_telemetry.py\<close>), the curator
  (\<open>memory/skill_curator.py\<close>), and the forks with their gate (\<open>memory/_fork.py\<close>, \<open>memory/review_fork.py\<close>,
  \<open>memory/flush_fork.py\<close>, the drain time of \<open>memory/sibling_agent_plugin.py\<close>). A fork that is scheduled is recorded as a value; the texts of the
  review prompts are named, not spelled out.
\<close>

section \<open>Telemetry\<close>

definition SKILL_TELEMETRY_STATE_KEY :: string where "SKILL_TELEMETRY_STATE_KEY = ''skill_telemetry''"
definition SKILLS_PREFIX :: string where "SKILLS_PREFIX = ''.agents/skills/''"

definition is_success :: "pyval \<Rightarrow> bool" where
  "is_success response =
     (case response of
        PyDict d \<Rightarrow> map_of d ''error'' = None \<and> dict_get d ''success'' \<noteq> PyBool False
      | _ \<Rightarrow> False)"

definition empty_record :: pydict where
  "empty_record = [(''views'', PyInt 0), (''manages'', PyInt 0), (''last_used'', PyNone)]"

fun drop_dot_slash :: "string \<Rightarrow> string" where
  "drop_dot_slash (c # d # s) = (if c = CHR ''.'' \<and> d = CHR ''/'' then drop_dot_slash s else c # d # s)"
| "drop_dot_slash s = s"

definition skill_name_from_path :: "pyval \<Rightarrow> string option" where
  "skill_name_from_path p =
     (case p of
        PyStr s \<Rightarrow>
          if s = [] then None
          else let normalized = drop_dot_slash (map (\<lambda>c. if c = CHR 0x5C then CHR ''/'' else c) s) in
            if \<not> startswith normalized SKILLS_PREFIX then None
            else let rest = drop (length SKILLS_PREFIX) normalized;
                     name = takeWhile (\<lambda>c. c \<noteq> CHR ''/'') rest
                 in if CHR ''/'' \<notin> set rest \<or> name = [] then None else Some name
      | _ \<Rightarrow> None)"

definition classify_call :: "string \<Rightarrow> pydict \<Rightarrow> (string \<times> string) option" where
  "classify_call tool_name args =
     (if tool_name = LOAD_SKILL then
        (case or_else (dict_get args ''skill_name'') (dict_get args ''name'') of
           PyStr s \<Rightarrow> if s = [] then None else Some (''views'', s)
         | _ \<Rightarrow> None)
      else if tool_name \<in> {WRITE, EDIT} then map_option (\<lambda>n. (''manages'', n)) (skill_name_from_path (dict_get args ''path''))
      else None)"

definition need_dict :: "pyval \<Rightarrow> pydict \<Rightarrow> pydict py" where
  "need_dict v dflt = (if \<not> truthy v then Inr dflt else case v of PyDict d \<Rightarrow> Inr d | _ \<Rightarrow> Inl (AttributeError ''get''))"

definition skill_telemetry_callback :: "string \<Rightarrow> string \<Rightarrow> pyval \<Rightarrow> pyval \<Rightarrow> pydict \<Rightarrow> pydict py" where
  "skill_telemetry_callback now tool_name args response state =
     (if tool_name \<notin> {LOAD_SKILL, WRITE, EDIT} then Inr state
      else if \<not> is_success response then Inr state
      else case args of
             PyDict d \<Rightarrow>
               (case classify_call tool_name d of
                  None \<Rightarrow> Inr state
                | Some (bump_key, skill_name) \<Rightarrow>
                    py_bind (need_dict (dict_get state SKILL_TELEMETRY_STATE_KEY) []) (\<lambda>telem.
                    py_bind (need_dict (dict_get telem skill_name) empty_record) (\<lambda>rec.
                    py_bind (py_int (dict_get_default rec bump_key (PyInt 0))) (\<lambda>n.
                      Inr (dict_set state SKILL_TELEMETRY_STATE_KEY (PyDict (dict_set telem skill_name
                        (PyDict (dict_set (dict_set rec bump_key (PyInt (n + 1))) ''last_used'' (PyStr now)))))))))
             )
           | _ \<Rightarrow> Inr state)"

section \<open>The curator\<close>

definition MIN_MANAGES_FOR_PROMOTION :: int where "MIN_MANAGES_FOR_PROMOTION = 3"
definition MIN_VIEWS_FOR_REVIEW :: int where "MIN_VIEWS_FOR_REVIEW = 5"
definition CURATOR_MARKER :: string where "CURATOR_MARKER = ''[skill_curator]''"

definition promotion_text :: "string \<Rightarrow> int \<Rightarrow> string \<Rightarrow> string" where
  "promotion_text skill_name manages session_id =
     CURATOR_MARKER @ '' Skill '' @ [SQUOTE] @ skill_name @ [SQUOTE] @ '' is reliable ('' @ string_of_int manages
       @ '' successful edits in session '' @ session_id @ '')''"

definition review_text :: "string \<Rightarrow> string" where
  "review_text skill_name =
     CURATOR_MARKER @ '' Skill '' @ [SQUOTE] @ skill_name @ [SQUOTE] @ '' is read often but never edited '' @ EMDASH @ '' review for promotion to docs''"

definition write_curator_entry :: "'m memory_service \<Rightarrow> string \<Rightarrow> string \<Rightarrow> string \<Rightarrow> string \<Rightarrow> 'm \<Rightarrow> 'm py" where
  "write_curator_entry svc entry app user session_id m =
     py_bind (entry_exists svc app user entry m) (\<lambda>found.
       if found then Inr m
       else write_memory_event svc entry ''skill_curator'' ''skill_curator'' ''system'' app user session_id m)"

text \<open>The two counters of a record, when they are numbers.\<close>

definition skill_counts :: "pyval \<Rightarrow> (int \<times> int) option" where
  "skill_counts rec =
     (case rec of
        PyDict d \<Rightarrow>
          (case py_int (or_else (dict_get_default d ''views'' (PyInt 0)) (PyInt 0)) of
             Inl _ \<Rightarrow> None
           | Inr views \<Rightarrow>
               (case py_int (or_else (dict_get_default d ''manages'' (PyInt 0)) (PyInt 0)) of
                  Inl _ \<Rightarrow> None
                | Inr manages \<Rightarrow> Some (views, manages)))
      | _ \<Rightarrow> None)"

definition curator_text :: "string \<Rightarrow> string \<Rightarrow> pyval \<Rightarrow> string option" where
  "curator_text session_id skill_name rec =
     (if skill_name = [] then None
      else case skill_counts rec of
             None \<Rightarrow> None
           | Some (views, manages) \<Rightarrow>
               if manages \<ge> MIN_MANAGES_FOR_PROMOTION then Some (promotion_text skill_name manages session_id)
               else if views \<ge> MIN_VIEWS_FOR_REVIEW \<and> manages = 0 then Some (review_text skill_name)
               else None)"

fun run_skill_curator :: "'m memory_service \<Rightarrow> string \<Rightarrow> string \<Rightarrow> string \<Rightarrow> pydict \<Rightarrow> 'm \<Rightarrow> 'm py" where
  "run_skill_curator svc app user session_id [] m = Inr m"
| "run_skill_curator svc app user session_id ((skill_name, rec) # telemetry) m =
     (case curator_text session_id skill_name rec of
        None \<Rightarrow> run_skill_curator svc app user session_id telemetry m
      | Some entry \<Rightarrow>
          py_bind (write_curator_entry svc entry app user session_id m) (\<lambda>m'. run_skill_curator svc app user session_id telemetry m'))"

definition skill_curator_callback :: "'m memory_ctx \<Rightarrow> pydict \<Rightarrow> 'm \<Rightarrow> 'm py" where
  "skill_curator_callback ctx state m =
     (case mx_memory_service ctx of
        None \<Rightarrow> Inr m
      | Some svc \<Rightarrow>
          (let telemetry = dict_get state SKILL_TELEMETRY_STATE_KEY
           in if \<not> truthy telemetry then Inr m
              else case telemetry of
                     PyDict t \<Rightarrow> run_skill_curator svc (mx_app_name ctx) (mx_user_id ctx) (mx_session_id ctx) t m
                   | _ \<Rightarrow> Inl (AttributeError ''items'')))"

section \<open>Forks\<close>

definition text_of_event :: "session_event \<Rightarrow> string" where
  "text_of_event e = concat (List.map_filter ep_text (parts_of_event e))"

definition format_conversation_snapshot :: "session_event list \<Rightarrow> string" where
  "format_conversation_snapshot events =
     (let blocks = map (\<lambda>e. ''['' @ (if str_or_empty (se_author e) = [] then ''?'' else str_or_empty (se_author e)) @ '']'' @ [NL] @ text_of_event e)
                     (filter (\<lambda>e. text_of_event e \<noteq> []) events);
          body = (if blocks = [] then ''(no conversation)'' else py_join [NL, NL] blocks)
      in ''<CONVERSATION>'' @ [NL] @ body @ [NL] @ ''</CONVERSATION>'')"

definition whitelist_callback :: "string list \<Rightarrow> string \<Rightarrow> (string \<Rightarrow> pyval \<Rightarrow> pydict option) \<Rightarrow> string \<Rightarrow> pyval \<Rightarrow> pydict option" where
  "whitelist_callback allowed fork_name extra_check name args =
     (if name \<notin> set allowed
      then Some [(''error'', PyStr (''Tool '' @ py_repr_str name @ '' is not available in the '' @ fork_name @ '' fork. Allowed: ''
             @ py_repr (PyList (map PyStr (sorted_strings allowed))) @ ''.''))]
      else extra_check name args)"

definition REVIEW_TOOL_NAMES :: "string list" where "REVIEW_TOOL_NAMES = [MEMORY, LOAD_SKILL, WRITE, EDIT]"
definition FLUSH_TOOL_NAMES :: "string list" where "FLUSH_TOOL_NAMES = [MEMORY]"

definition is_skills_path :: "pyval \<Rightarrow> bool" where
  "is_skills_path args = (case args of PyDict d \<Rightarrow> skill_name_from_path (dict_get d ''path'') \<noteq> None | _ \<Rightarrow> False)"

definition skills_path_check :: "string \<Rightarrow> pyval \<Rightarrow> pydict option" where
  "skills_path_check name args =
     (if name \<in> {WRITE, EDIT} \<and> \<not> is_skills_path args
      then Some [(''error'', PyStr (''Tool '' @ py_repr_str name @ '' in the review fork may only write to '' @ [SQUOTE]
             @ ''.agents/skills/<name>/...'' @ [SQUOTE] @ '' paths.''))]
      else None)"

definition review_gate :: "string \<Rightarrow> pyval \<Rightarrow> 'w \<Rightarrow> (pydict option \<times> 'w) py" where
  "review_gate name args w = Inr (whitelist_callback REVIEW_TOOL_NAMES ''review'' skills_path_check name args, w)"

definition flush_gate :: "string \<Rightarrow> pyval \<Rightarrow> 'w \<Rightarrow> (pydict option \<times> 'w) py" where
  "flush_gate name args w = Inr (whitelist_callback FLUSH_TOOL_NAMES ''flush'' (\<lambda>_ _. None) name args, w)"

datatype review_prompt = MEMORY_REVIEW_PROMPT | COMBINED_REVIEW_PROMPT | FLUSH_PROMPT

definition pick_prompt :: "pyval \<Rightarrow> review_prompt" where
  "pick_prompt telemetry =
     (case telemetry of
        PyDict t \<Rightarrow>
          if list_ex (\<lambda>(_, rec). case skill_counts rec of None \<Rightarrow> False | Some (views, manages) \<Rightarrow> views > 0 \<or> manages > 0) t
          then COMBINED_REVIEW_PROMPT else MEMORY_REVIEW_PROMPT
      | _ \<Rightarrow> MEMORY_REVIEW_PROMPT)"

record sibling =
  sb_agent :: string
  sb_snapshot :: string
  sb_prompt :: review_prompt
  sb_app_name :: string
  sb_user_id :: string

text \<open>Telemetry that is neither missing nor a dictionary makes \<open>values\<close> fail, after the slot has been claimed.\<close>

definition review_fork_callback ::
  "(string \<Rightarrow> rat option) \<Rightarrow> environ \<Rightarrow> rat \<times> string \<Rightarrow> 'm memory_ctx \<Rightarrow> session_event list \<Rightarrow> pydict \<Rightarrow> (py_exn + sibling option) \<times> pydict" where
  "review_fork_callback float_of environ now ctx events state =
     (if environ ''LHA_REVIEW_FORK'' = Some ''0'' then (Inr None, state)
      else if mx_memory_service ctx = None then (Inr None, state)
      else case try_claim float_of environ now ''review_fork'' (Some state) of
             (False, _) \<Rightarrow> (Inr None, state)
           | (True, state') \<Rightarrow>
               (let s = (case state' of None \<Rightarrow> state | Some x \<Rightarrow> x);
                    telemetry = dict_get s SKILL_TELEMETRY_STATE_KEY
                in if truthy telemetry \<and> as_dict telemetry = None then (Inl (AttributeError ''values''), s)
                   else (Inr (Some \<lparr>sb_agent = ''review_fork'', sb_snapshot = format_conversation_snapshot events, sb_prompt = pick_prompt telemetry,
                           sb_app_name = mx_app_name ctx, sb_user_id = mx_user_id ctx\<rparr>), s)))"

definition spawn_flush_fork :: "environ \<Rightarrow> 'm memory_service option \<Rightarrow> string \<Rightarrow> string \<Rightarrow> session_event list \<Rightarrow> sibling option" where
  "spawn_flush_fork environ svc app user events =
     (if environ ''LHA_PRE_COMPRESS_FLUSH'' = Some ''0'' \<or> svc = None \<or> events = [] then None
      else Some \<lparr>sb_agent = ''flush_fork'', sb_snapshot = format_conversation_snapshot events, sb_prompt = FLUSH_PROMPT, sb_app_name = app, sb_user_id = user\<rparr>)"

definition resolve_drain_timeout :: "(string \<Rightarrow> rat option) \<Rightarrow> environ \<Rightarrow> rat option \<Rightarrow> rat" where
  "resolve_drain_timeout float_of environ override =
     (case override of
        Some v \<Rightarrow> min (9 / 2) (max 0 v)
      | None \<Rightarrow>
          (case environ ''LHA_SIBLING_DRAIN_TIMEOUT'' of
             None \<Rightarrow> 4
           | Some raw \<Rightarrow> (case float_of raw of None \<Rightarrow> 4 | Some v \<Rightarrow> min (9 / 2) (max 0 v))))"

section \<open>What the forks may do\<close>

lemma drain_below_budget: "resolve_drain_timeout float_of environ override < 5"
  by (auto simp: resolve_drain_timeout_def min_def split: option.splits)

lemma whitelist_error: "whitelist_callback al fk ck name args = Some r \<Longrightarrow> ck name args = Some r \<or> (\<exists>msg. r = [(''error'', PyStr msg)])"
  by (auto simp: whitelist_callback_def split: if_splits)

interpretation review: answering_guard review_gate
proof
  show "review_gate tn args w = Inr (Some r, w') \<Longrightarrow> \<exists>msg. dict_get r ''error'' = PyStr msg" for tn args w r w'
    by (auto simp: review_gate_def skills_path_check_def dict_get_def dict_get_default_def dest!: whitelist_error split: if_splits)
qed

interpretation flush: answering_guard flush_gate
proof
  show "flush_gate tn args w = Inr (Some r, w') \<Longrightarrow> \<exists>msg. dict_get r ''error'' = PyStr msg" for tn args w r w'
    by (auto simp: flush_gate_def dict_get_def dict_get_default_def dest!: whitelist_error)
qed

lemma review_gate_pass:
  "review_gate tn args w = Inr (None, w') \<longleftrightarrow> w' = w \<and> tn \<in> set REVIEW_TOOL_NAMES \<and> (tn = WRITE \<or> tn = EDIT \<longrightarrow> is_skills_path args)"
  by (auto simp: review_gate_def whitelist_callback_def skills_path_check_def split: if_splits)

lemma flush_gate_pass: "flush_gate tn args w = Inr (None, w') \<longleftrightarrow> w' = w \<and> tn = MEMORY"
  by (auto simp: flush_gate_def whitelist_callback_def FLUSH_TOOL_NAMES_def)

section \<open>Counting\<close>

text \<open>What a call counts for, and the counters as a function of the skill.\<close>

record skill_call =
  sk_tool :: string
  sk_args :: pyval
  sk_response :: pyval

definition counted :: "skill_call \<Rightarrow> (string \<times> string) option" where
  "counted c = (if is_success (sk_response c) then (case sk_args c of PyDict d \<Rightarrow> classify_call (sk_tool c) d | _ \<Rightarrow> None) else None)"

definition skill_table :: "pydict \<Rightarrow> pydict" where
  "skill_table s = (case dict_get s SKILL_TELEMETRY_STATE_KEY of PyDict t \<Rightarrow> t | _ \<Rightarrow> [])"

definition skill_record :: "pydict \<Rightarrow> string \<Rightarrow> pydict" where
  "skill_record s name = (case dict_get (skill_table s) name of PyDict r \<Rightarrow> r | _ \<Rightarrow> empty_record)"

definition uses :: "pydict \<Rightarrow> string \<Rightarrow> string \<Rightarrow> int" where
  "uses s k name = (case dict_get (skill_record s name) k of PyInt n \<Rightarrow> n | _ \<Rightarrow> 0)"

definition record_ok :: "pydict \<Rightarrow> bool" where
  "record_ok r \<longleftrightarrow> (\<exists>i. dict_get r ''views'' = PyInt i) \<and> (\<exists>j. dict_get r ''manages'' = PyInt j)"

definition telemetry_ok :: "pydict \<Rightarrow> bool" where
  "telemetry_ok s \<longleftrightarrow> (dict_get s SKILL_TELEMETRY_STATE_KEY = PyNone \<or> (\<exists>t. dict_get s SKILL_TELEMETRY_STATE_KEY = PyDict t)) \<and>
     (\<forall>name v. map_of (skill_table s) name = Some v \<longrightarrow> (\<exists>r. v = PyDict r \<and> record_ok r))"

lemma empty_record_ok: "record_ok empty_record"
  by (simp add: record_ok_def empty_record_def dict_get_def dict_get_default_def)

lemma telemetry_ok_dicts:
  assumes "telemetry_ok s"
  shows "need_dict (dict_get s SKILL_TELEMETRY_STATE_KEY) [] = Inr (skill_table s)"
    and "need_dict (dict_get (skill_table s) name) empty_record = Inr (skill_record s name)" and "record_ok (skill_record s name)"
proof -
  show "need_dict (dict_get s SKILL_TELEMETRY_STATE_KEY) [] = Inr (skill_table s)"
    using assms by (auto simp: telemetry_ok_def need_dict_def skill_table_def)
  show ok: "record_ok (skill_record s name)"
  proof (cases "map_of (skill_table s) name")
    case None
    then show ?thesis by (simp add: skill_record_def dict_get_def dict_get_default_def empty_record_ok)
  next
    case (Some v)
    then obtain r where "v = PyDict r" "record_ok r" using assms unfolding telemetry_ok_def by blast
    then show ?thesis using Some by (simp add: skill_record_def dict_get_def dict_get_default_def)
  qed
  show "need_dict (dict_get (skill_table s) name) empty_record = Inr (skill_record s name)"
  proof (cases "map_of (skill_table s) name")
    case None
    then show ?thesis by (simp add: need_dict_def skill_record_def dict_get_def dict_get_default_def)
  next
    case (Some v)
    then obtain r where v: "v = PyDict r" and r: "record_ok r" using assms unfolding telemetry_ok_def by blast
    then have "r \<noteq> []" by (auto simp: record_ok_def dict_get_def dict_get_default_def)
    then show ?thesis using Some v by (simp add: need_dict_def skill_record_def dict_get_def dict_get_default_def)
  qed
qed

lemma classify_call_keys: "classify_call tn d = Some (k, n) \<Longrightarrow> k \<in> {''views'', ''manages''} \<and> tn \<in> {LOAD_SKILL, WRITE, EDIT}"
  by (auto simp: classify_call_def split: if_splits pyval.splits)

lemma skill_telemetry_step:
  assumes ok: "telemetry_ok s"
  shows "\<exists>s'. skill_telemetry_callback now (sk_tool c) (sk_args c) (sk_response c) s = Inr s' \<and> telemetry_ok s' \<and>
    (\<forall>k \<in> {''views'', ''manages''}. \<forall>name. uses s' k name = uses s k name + (if counted c = Some (k, name) then 1 else 0))"
proof (cases "counted c")
  case None
  then have "skill_telemetry_callback now (sk_tool c) (sk_args c) (sk_response c) s = Inr s"
    by (auto simp: skill_telemetry_callback_def counted_def split: pyval.splits)
  then show ?thesis using ok None by simp
next
  case (Some x)
  obtain bk sn where x: "x = (bk, sn)" by (rule prod.exhaust)
  from Some x obtain d where d: "sk_args c = PyDict d" and cl: "classify_call (sk_tool c) d = Some (bk, sn)" and su: "is_success (sk_response c)"
    by (auto simp: counted_def split: if_splits pyval.splits)
  have bk: "bk \<in> {''views'', ''manages''}" and tn: "sk_tool c \<in> {LOAD_SKILL, WRITE, EDIT}" using classify_call_keys [OF cl] by blast+
  let ?r = "skill_record s sn"
  obtain n where n: "dict_get ?r bk = PyInt n" using telemetry_ok_dicts(3) [OF ok, of sn] bk by (auto simp: record_ok_def)
  then have n': "py_int (dict_get_default ?r bk (PyInt 0)) = Inr n"
    by (auto simp: dict_get_def dict_get_default_def py_int_def split: option.splits)
  define r' where "r' = dict_set (dict_set ?r bk (PyInt (n + 1))) ''last_used'' (PyStr now)"
  define s' where "s' = dict_set s SKILL_TELEMETRY_STATE_KEY (PyDict (dict_set (skill_table s) sn (PyDict r')))"
  have call: "skill_telemetry_callback now (sk_tool c) (sk_args c) (sk_response c) s = Inr s'"
    using d cl su tn n' telemetry_ok_dicts(1,2) [OF ok] by (simp add: skill_telemetry_callback_def s'_def r'_def)
  have t: "skill_table s' = dict_set (skill_table s) sn (PyDict r')" by (simp add: s'_def skill_table_def)
  have rec: "skill_record s' name = (if name = sn then r' else skill_record s name)" for name by (simp add: skill_record_def t)
  have r_ok: "record_ok r'" using telemetry_ok_dicts(3) [OF ok, of sn] bk by (auto simp: record_ok_def r'_def)
  have "telemetry_ok s'" using ok r_ok unfolding telemetry_ok_def t by (auto simp: s'_def)
  moreover have "uses s' k name = uses s k name + (if counted c = Some (k, name) then 1 else 0)" if "k \<in> {''views'', ''manages''}" for k name
    using that n bk by (auto simp: uses_def rec r'_def Some x)
  ultimately show ?thesis using call by blast
qed

fun telemetry_run :: "(string \<times> skill_call) list \<Rightarrow> pydict \<Rightarrow> pydict py" where
  "telemetry_run [] s = Inr s"
| "telemetry_run ((now, c) # cs) s =
     py_bind (skill_telemetry_callback now (sk_tool c) (sk_args c) (sk_response c) s) (telemetry_run cs)"

text \<open>The counters count: along any sequence of tool calls the callback never raises, and afterwards the views and edits recorded of a skill have grown by the number of
  successful calls that read or wrote it.\<close>

theorem skill_counters_count_calls:
  assumes "telemetry_ok s" and "k \<in> {''views'', ''manages''}"
  shows "\<exists>s'. telemetry_run cs s = Inr s' \<and> telemetry_ok s' \<and>
    uses s' k name = uses s k name + int (length (filter (\<lambda>c. counted (snd c) = Some (k, name)) cs))"
  using assms(1)
proof (induction cs arbitrary: s)
  case Nil
  then show ?case by simp
next
  case (Cons x cs)
  obtain now c where x: "x = (now, c)" by (rule prod.exhaust)
  from skill_telemetry_step [OF Cons.prems, of now c] obtain s1 where
    1: "skill_telemetry_callback now (sk_tool c) (sk_args c) (sk_response c) s = Inr s1" "telemetry_ok s1"
    "uses s1 k name = uses s k name + (if counted c = Some (k, name) then 1 else 0)" using assms(2) by blast
  from Cons.IH [OF 1(2)] obtain s' where "telemetry_run cs s1 = Inr s'" "telemetry_ok s'"
    "uses s' k name = uses s1 k name + int (length (filter (\<lambda>c. counted (snd c) = Some (k, name)) cs))" by blast
  then show ?case using 1 x by simp
qed

section \<open>The curator writes once\<close>

lemma curator_entry_distinct:
  assumes "finds_exact svc held" and "distinct (held m)" and "entry \<noteq> []" and "write_curator_entry svc entry app user sid m = Inr m'"
  shows "distinct (held m')"
proof -
  let ?ev = "\<lparr>me_invocation_id = ''skill_curator'', me_author = ''system'', me_text = entry, me_scope = ''skill_curator''\<rparr>"
  from assms(4) consider "m' = m" | "entry_exists svc app user entry m = Inr False" "mem_add_events svc app user [?ev] sid m = Inr m'"
    by (auto simp: write_curator_entry_def py_bind_Inr_iff write_memory_event_def split: if_splits)
  then show ?thesis using fresh_write_distinct [OF assms(1,2), of ?ev] assms(2,3) by cases auto
qed

lemma curator_text_nonempty: "curator_text sid name rec = Some entry \<Longrightarrow> entry \<noteq> []"
  by (auto simp: curator_text_def promotion_text_def review_text_def CURATOR_MARKER_def split: if_splits option.splits)

lemma curator_distinct:
  assumes "finds_exact svc held"
  shows "distinct (held m) \<Longrightarrow> run_skill_curator svc app user sid t m = Inr m' \<Longrightarrow> distinct (held m')"
proof (induction t arbitrary: m)
  case (Cons x t)
  obtain name rec where x: "x = (name, rec)" by (rule prod.exhaust)
  show ?case
  proof (cases "curator_text sid name rec")
    case None
    then show ?thesis using Cons x by simp
  next
    case (Some entry)
    then obtain m1 where "write_curator_entry svc entry app user sid m = Inr m1" "run_skill_curator svc app user sid t m1 = Inr m'"
      using Cons.prems(2) x by (auto simp: py_bind_Inr_iff)
    then show ?thesis using Cons.IH curator_entry_distinct [OF assms Cons.prems(1) curator_text_nonempty [OF Some]] by blast
  qed
qed simp

theorem skill_counters_count_calls_witness:
  "\<exists>s'. telemetry_run [(''t'', \<lparr>sk_tool = WRITE, sk_args = PyDict [(''path'', PyStr ''./.agents/skills/pdf/SKILL.md'')], sk_response = PyDict []\<rparr>)] [] = Inr s' \<and>
     uses s' ''manages'' ''pdf'' = 1"
proof -
  let ?cs = "[(''t'', \<lparr>sk_tool = WRITE, sk_args = PyDict [(''path'', PyStr ''./.agents/skills/pdf/SKILL.md'')], sk_response = PyDict []\<rparr>)]"
  have "telemetry_ok []" by (simp add: telemetry_ok_def skill_table_def dict_get_def dict_get_default_def)
  from skill_counters_count_calls [OF this, of "''manages''" ?cs "''pdf''"] obtain s' where
    "telemetry_run ?cs [] = Inr s'" "uses s' ''manages'' ''pdf'' = uses [] ''manages'' ''pdf'' + int (length (filter (\<lambda>c. counted (snd c) = Some (''manages'', ''pdf'')) ?cs))"
    by auto
  moreover have "uses [] ''manages'' ''pdf'' = 0" "length (filter (\<lambda>c. counted (snd c) = Some (''manages'', ''pdf'')) ?cs) = 1" by code_simp+
  ultimately show ?thesis by auto
qed

section \<open>The way out of the skills directory\<close>

text \<open>A host without links on which a resolved path has its dots removed.\<close>

fun undot :: "path \<Rightarrow> path \<Rightarrow> path" where
  "undot acc [] = rev acc"
| "undot acc (c # cs) = (if c = ''..'' then undot (drop 1 acc) cs else undot (c # acc) cs)"

definition dotted_services :: services where
  "dotted_services =
     \<lparr>svc_host = \<lparr>realpath = undot [], resolve_error = (\<lambda>_. None), host_is_dir = (\<lambda>_. False), host_is_file = (\<lambda>_. False), host_lexists = (\<lambda>_. False),
        host_home = [''home'']\<rparr>, svc_root = [''workspace''], svc_on_host_fs = False, svc_read_error = (\<lambda>_. None), svc_write_error = (\<lambda>_ _. None),
      svc_store = utf8_encode, svc_execute = (\<lambda>_. Inr \<lparr>exec_stdout = [], exec_stderr = [], exit_code = 0\<rparr>)\<rparr>"

definition climbing_path :: string where
  "climbing_path = ''.agents/skills/x/../../../.lha/permissions.jsonl''"

text \<open>C38: The gate of the review fork looks at the prefix of a path only, and it is the fork's only guard. A path that climbs out of
  \<open>.agents/skills\<close> passes it and is written where it leads, here into the file of permission rules, which the policy guard keeps the agent itself from writing.\<close>

theorem review_fork_writes_guardrails:
  "review_gate WRITE (PyDict [(''path'', PyStr climbing_path), (''content'', PyStr content)]) w = Inr (None, w) \<and>
   fw_files (snd (write_file dotted_services climbing_path content \<lparr>fw_files = Map.empty, fw_state = None\<rparr>))
     [''workspace'', ''.lha'', ''permissions.jsonl''] = Some (utf8_encode content) \<and>
   fst (policies_guard search env fs ask_is_deny WRITE (PyDict [(''path'', PyStr climbing_path), (''content'', PyStr content)]) (Some []) fresh_pol_store) \<noteq> None"
proof (intro conjI)
  have "skill_name_from_path (PyStr climbing_path) = Some ''x''" by code_simp
  then show "review_gate WRITE (PyDict [(''path'', PyStr climbing_path), (''content'', PyStr content)]) w = Inr (None, w)"
    by (auto simp: review_gate_pass REVIEW_TOOL_NAMES_def is_skills_path_def dict_get_def dict_get_default_def)
  have r: "resolve_in_session_window dotted_services climbing_path None = Inr (Inr [''workspace'', ''.lha'', ''permissions.jsonl''])"
    and d: "\<not> is_write_denied (svc_host dotted_services) [''workspace'', ''.lha'', ''permissions.jsonl'']"
    by code_simp+
  have py: "endswith (path_str [''workspace'', ''.lha'', ''permissions.jsonl'']) ''.py'' = False" by code_simp
  show "fw_files (snd (write_file dotted_services climbing_path content \<lparr>fw_files = Map.empty, fw_state = None\<rparr>))
     [''workspace'', ''.lha'', ''permissions.jsonl''] = Some (utf8_encode content)"
    using r d py by (simp add: write_file_def write_then_def svc_write_def finish_write_def dotted_services_def py_bind_def
        split: sum.splits)
  have "contains climbing_path ''/.lha/''" by code_simp
  then show "fst (policies_guard search env fs ask_is_deny WRITE (PyDict [(''path'', PyStr climbing_path), (''content'', PyStr content)]) (Some []) fresh_pol_store) \<noteq> None"
    by (intro guardrail_files_are_write_protected [OF fresh_pol_store_ok, where k = "''path''" and path = climbing_path])
      (auto simp: empty_state_not_granted PATH_ARG_NAMES_def)
qed

end
