(* ===== verification/Url_Redaction.thy ===== *)
theory Url_Redaction
  imports Py_Json Tool_Names
begin

text \<open>
  Hiding signed links from the model (\<open>context/artifact_url_redaction.py\<close>). A part of a request is here the name and the response of its
  function response, when it has one; a content without parts is an empty list.
\<close>

type_synonym fr_part = "(string \<times> pyval) option"

definition REDACTED_URL :: string where
  "REDACTED_URL = ''[link delivered to the user automatically '' @ EMDASH @ '' do not repeat it]''"

definition shows_url :: "fr_part \<Rightarrow> bool" where
  "shows_url p =
     (case p of
        None \<Rightarrow> False
      | Some (name, v) \<Rightarrow>
          name = ARTIFACT \<and>
          (case as_dict v of
             None \<Rightarrow> False
           | Some resp \<Rightarrow> (case as_str (dict_get resp ''url'') of None \<Rightarrow> False | Some u \<Rightarrow> u \<noteq> REDACTED_URL)))"

definition redact_part :: "fr_part \<Rightarrow> fr_part" where
  "redact_part p =
     (if shows_url p
      then map_option (\<lambda>(name, v). (name, PyDict (dict_set (the (as_dict v)) ''url'' (PyStr REDACTED_URL)))) p
      else p)"

definition redact_artifact_urls :: "fr_part list list \<Rightarrow> fr_part list list \<times> nat" where
  "redact_artifact_urls contents =
     (map (map redact_part) contents, length (filter shows_url (concat contents)))"

lemma redacted_shows_nothing: "\<not> shows_url (redact_part p)"
proof (cases "shows_url p")
  case True
  then obtain name resp where "p = Some (name, PyDict resp)" by (auto simp: shows_url_def split: option.splits)
  then show ?thesis using True by (simp add: redact_part_def shows_url_def)
qed (simp add: redact_part_def)

lemma redact_part_other:
  "p = Some (name, PyDict resp) \<Longrightarrow> k \<noteq> ''url'' \<Longrightarrow> \<exists>resp'. redact_part p = Some (name, PyDict resp') \<and> dict_get resp' k = dict_get resp k"
  by (auto simp: redact_part_def)

text \<open>No artifact response the model is sent shows a link; parts that show none, other fields and the number of parts stay as they are, and a second pass finds nothing.\<close>

theorem model_sees_no_artifact_link:
  "list_all (list_all (\<lambda>p. \<not> shows_url p)) (fst (redact_artifact_urls contents)) \<and>
   map length (fst (redact_artifact_urls contents)) = map length contents \<and>
   snd (redact_artifact_urls (fst (redact_artifact_urls contents))) = 0 \<and>
   (snd (redact_artifact_urls contents) = 0 \<longrightarrow> fst (redact_artifact_urls contents) = contents)"
proof (intro conjI impI)
  show "list_all (list_all (\<lambda>p. \<not> shows_url p)) (fst (redact_artifact_urls contents))"
    by (auto simp: redact_artifact_urls_def list_all_iff redacted_shows_nothing)
  show "map length (fst (redact_artifact_urls contents)) = map length contents" by (simp add: redact_artifact_urls_def)
  show "snd (redact_artifact_urls (fst (redact_artifact_urls contents))) = 0"
    by (auto simp: redact_artifact_urls_def filter_empty_conv redacted_shows_nothing)
  assume "snd (redact_artifact_urls contents) = 0"
  then have "\<forall>ps \<in> set contents. \<forall>p \<in> set ps. \<not> shows_url p" by (auto simp: redact_artifact_urls_def filter_empty_conv)
  then have "map redact_part ps = ps" if "ps \<in> set contents" for ps using that by (intro map_idI) (simp add: redact_part_def)
  then show "fst (redact_artifact_urls contents) = contents" by (simp add: redact_artifact_urls_def map_idI)
qed

end
