(* ===== verification/Reminders.thy ===== *)
theory Reminders
  imports Iteration_Budget Memory_Bank Workspace_Paths
begin

text \<open>
  The reminders appended to a request before each model call (\<open>conversation/reminders.py\<close>). The hint on the environment, the line on secrets and the date
  are arguments. The result is the texts that were appended, in order, and the exception that ended the callback, if one did.
\<close>

definition DEFAULT_WARN_AT_REMAINING :: int where "DEFAULT_WARN_AT_REMAINING = 5"
definition MAX_ERROR_CHARS :: nat where "MAX_ERROR_CHARS = 800"
definition REMINDER_MAX_ITERATIONS :: int where "REMINDER_MAX_ITERATIONS = 50"

definition wrap_reminder :: "string \<Rightarrow> string" where
  "wrap_reminder body = ''<system-reminder>'' @ [NL] @ py_strip body @ [NL] @ ''</system-reminder>''"

definition build_budget_reminder :: "int \<Rightarrow> int \<Rightarrow> int \<Rightarrow> string option" where
  "build_budget_reminder iteration max_its warn_at =
     (if max_its \<le> 0 then None
      else if max_its - iteration > warn_at then None
      else Some (wrap_reminder (''Iteration budget running low: '' @ string_of_int (max (max_its - iteration) 0) @ '' of '' @ string_of_int max_its
        @ '' iterations remain before this turn is force-stopped. Wrap up '' @ EMDASH
        @ '' finish the current step, then deliver your result rather than starting new long-running work.'')))"

definition error_excerpt :: "pyval \<Rightarrow> string" where
  "error_excerpt v =
     (let t = py_str v in if length t > MAX_ERROR_CHARS then take MAX_ERROR_CHARS t @ '' ['' @ [ELLIPSIS] @ ''truncated]'' else t)"

definition build_error_reminder :: "pyval \<Rightarrow> string option" where
  "build_error_reminder last_error =
     (if \<not> truthy last_error then None
      else Some (wrap_reminder (''Your last tool call failed: '' @ error_excerpt last_error @ [NL]
        @ ''Before retrying, diagnose the cause '' @ EMDASH @ '' read the failing file or its test, check what changed. ''
        @ ''Do not re-run the same call with a tweaked flag; that is a retry, not a fix.'')))"

definition build_line_reminder :: "string \<Rightarrow> string option" where
  "build_line_reminder line = (if line = [] then None else Some (wrap_reminder line))"

definition build_volatile_reminder :: "string \<Rightarrow> bool \<Rightarrow> pydict \<Rightarrow> string option py" where
  "build_volatile_reminder today always_include_date state =
     (let profile = render_user_profile (Some state) in
      py_bind (window_dirs (Some state)) (\<lambda>window.
        let lines0 = (if profile = [] then [] else [profile]) @
              (case render_window window of None \<Rightarrow> [] | Some focus \<Rightarrow> [focus]) @
              (if truthy (dict_get state ''iteration'') then [''Iteration: '' @ py_str (dict_get state ''iteration'')] else []);
            lines1 = lines0 @ (if always_include_date \<or> lines0 \<noteq> [] then [''Today is '' @ today @ ''.''] else [])
        in Inr (if lines1 = [] then None else Some (wrap_reminder (py_join [NL, NL] lines1)))))"

definition option_list :: "'a option \<Rightarrow> 'a list" where
  "option_list x = (case x of None \<Rightarrow> [] | Some y \<Rightarrow> [y])"

definition handoff_delivered :: "pydict \<Rightarrow> bool" where
  "handoff_delivered state \<longleftrightarrow>
     truthy (dict_get state HALT_HANDOFF_DELIVERED_STATE_KEY) \<or> truthy (dict_get state HANDOFF_DELIVERED_STATE_KEY)"

definition reminder_injection_callback :: "string \<Rightarrow> string \<Rightarrow> string \<Rightarrow> int \<Rightarrow> pydict \<Rightarrow> string list \<times> py_exn option" where
  "reminder_injection_callback today env_hint secrets_line max_its state =
     (if handoff_delivered state then ([], None)
      else case build_volatile_reminder today True state of
             Inl e \<Rightarrow> ([], Some e)
           | Inr volatile \<Rightarrow>
               (let first = option_list volatile @ option_list (build_line_reminder env_hint) @ option_list (build_line_reminder secrets_line) in
                case py_int (or_else (dict_get state ''iteration'') (PyInt 0)) of
                  Inl e \<Rightarrow> (first, Some e)
                | Inr iteration \<Rightarrow>
                    (first @ option_list (build_budget_reminder iteration max_its DEFAULT_WARN_AT_REMAINING)
                       @ option_list (build_error_reminder (dict_get state ''last_error'')), None)))"

lemma error_excerpt_bounded: "length (error_excerpt v) \<le> 813"
  by (auto simp: error_excerpt_def MAX_ERROR_CHARS_def Let_def)

lemma length_option_list: "length (option_list x) \<le> 1"
  by (auto simp: option_list_def split: option.splits)

text \<open>The warning comes when five iterations or fewer are left, and not before.\<close>

lemma budget_reminder_iff: "0 < m \<Longrightarrow> build_budget_reminder n m w \<noteq> None \<longleftrightarrow> m - w \<le> n"
  by (auto simp: build_budget_reminder_def)

text \<open>Once a halt has been delivered, by either consumer, a request gets no reminder; otherwise at most five, the last of which, when a tool call failed, is the one on the
  error.\<close>

lemma reminders_stop_after_handoff:
  "handoff_delivered state \<Longrightarrow> reminder_injection_callback today env_hint secrets_line m state = ([], None)"
  by (simp add: reminder_injection_callback_def)

lemma reminders_bounded:
  assumes "reminder_injection_callback today env_hint secrets_line m state = (texts, exn)"
  shows "length texts \<le> 5"
proof -
  have b: "length (option_list a @ option_list b @ option_list c) \<le> 3" "length ((option_list a @ option_list b @ option_list c) @ option_list d @ option_list e) \<le> 5"
    for a b c d e :: "string option"
    using length_option_list [of a] length_option_list [of b] length_option_list [of c] length_option_list [of d] length_option_list [of e] by simp_all
  show ?thesis using assms
    by (auto simp: reminder_injection_callback_def Let_def split: if_splits sum.splits
        intro: b(2) [unfolded append_assoc] order_trans [OF b(1)])
qed

end
