(* ===== verification/Spec2Isabelle.thy ===== *)
theory Spec2Isabelle
  imports Iteration_Budget Subagents File_Ops Output_Pruning Routines Sandbox_Provider Identity Uploads Process_Tool Slash_Commands Skill_Forks Url_Redaction Reminders
begin

text \<open>
  A verification development for the long-horizon agent service of the Cymbal agentic suite
  (\<open>services/long-horizon-agent/horizon\<close>, below written \<open>horizon\<close>).

  \<^bold>\<open>The program.\<close> The service runs a language-model agent for many turns over a workspace. A model
  turn proposes tool calls. Before a call runs, the callbacks of \<open>horizon/agent.py\<close> judge it:
  the exfiltration guard, the policy guard and the permission gate, in this order, and the
  first that answers replaces the call. After a call the guardrails plugin counts failures;
  after a model response it looks for lack of progress; before a model request the halt
  consumer and the iteration budget may end the turn with a handoff. Tools read and write
  files through the active environment, spill large results to files, and older results are
  pruned from the history. A delegated child agent runs under its own guard with a budget of
  approvals it may ask the user for. All of them keep their state in the session state, a
  dictionary that outlives the turn.

  \<^bold>\<open>Shared theories.\<close>
  \<^item> \<open>Py_Prelude\<close>: exceptions as the left of a sum, JSON-shaped values, dictionaries in insertion
    order, the string methods of Python on code points below 256.
  \<^item> \<open>Py_Json\<close>, \<open>Json_Roundtrip\<close>: \<open>json.dumps\<close> and \<open>json.loads\<close> and that the second undoes the
    first; \<open>str.splitlines\<close>. The parser runs on fuel one above the length of the text, more
    than the depth of any value in it.
  \<^item> \<open>Py_Regex\<close>: syntax trees for the fixed expressions of the sources and a matcher that lists
    matches in backtracking order. \<open>Py_Text\<close>: lines, and UTF-8 on 8-bit words. \<open>Shell_Lex\<close>: the
    standard library's \<open>shlex\<close>. \<open>Ip_Address\<close>: the standard library's \<open>ipaddress\<close>.
  \<^item> \<open>Tool_Names\<close>: \<open>tools/names.py\<close>.

  \<^bold>\<open>Components and what is shown of them.\<close>
  \<^item> \<open>Iteration_Budget\<close> (\<open>conversation/iteration_budget.py\<close>, \<open>conversation/iteration_budget_plugin.py\<close>): the
    budget object, its persistence and the plugin's callbacks. The plugin over a session
    refines the object over a list of events; a spent budget halts; a halt is final.
  \<^item> \<open>Halt_Delivery\<close> (\<open>guardrails/halt_consumer.py\<close>, \<open>conversation/graceful_halt.py\<close>): the locale \<open>halt_gate\<close>
    states what both deliverers of a halt promise and is interpreted on both.
  \<^item> \<open>Halt_Guards\<close> (\<open>guardrails/no_progress.py\<close>, \<open>guardrails/repeated_failure.py\<close>,
    \<open>guardrails/guardrails_plugin.py\<close>): each guard latches a halt exactly when its specification
    over the history says so, and the reset at a turn boundary clears every trace.
  \<^item> \<open>Command_Classify\<close>, \<open>Command_Safety\<close> (\<open>guardrails/command_classify.py\<close>, \<open>guardrails/command_safety.py\<close>):
    segment splitting is exactly the splitting of the command at its unquoted operators, the substitution
    test is exact on plain text, a denied segment denies the command, wrappers with the options the table knows
    do not hide a forced delete; what other options and an escaped \<open>&\<close> do hide.
  \<^item> \<open>Overlay\<close> (\<open>guardrails/_jsonl.py\<close>, \<open>guardrails/_regex_safety.py\<close>, \<open>guardrails/_overlay.py\<close>): the
    locale \<open>overlay_loader\<close> states when a cached loader is transparent; it is interpreted on
    the host and sandbox loaders of \<open>Permission_Rules\<close> and on that of \<open>Policies\<close>.
  \<^item> \<open>Permission_Rules\<close>, \<open>Permission_Guard\<close> (\<open>guardrails/permission_rules.py\<close>,
    \<open>guardrails/permission_guard.py\<close>, \<open>tools/_hitl.py\<close>): resolution, narrowing of tenant allows, the
    round trip of an appended rule, isolation of tenants, every segment judged, no call
    without cause, and approvals that stick.
  \<^item> \<open>Policy_Grants\<close>, \<open>Policies\<close> (\<open>guardrails/policy_grants.py\<close>, \<open>guardrails/policies.py\<close>): grants exempt
    exactly their call; the bundled rules hold under every overlay and cache.
  \<^item> \<open>Exfil_Config\<close>, \<open>Exfil_Guard\<close> (\<open>guardrails/exfil_config.py\<close>, \<open>guardrails/exfil_guard.py\<close>): the default
    scans hold under every overlay, the allowlist matches whole labels, the metadata address
    is recognised in every numeric spelling, and two spellings that escape.
  \<^item> \<open>Tool_Gate\<close> (the callbacks of \<open>agent.py\<close>): the locales \<open>answering_guard\<close> and \<open>before_tool_guard\<close> are the
    contract of a guard, interpreted on every guard and on the chain; a call runs only past
    all three; hammering at a refused call halts the agent; a command on a second line escapes.
  \<^item> \<open>Child_Guard\<close> (\<open>subagents/child_guard.py\<close>, \<open>subagents/profiles.py\<close>, \<open>subagents/resurface_context.py\<close>,
    \<open>subagents/ask_parent.py\<close>): a child is confined to its profile and the policy floor. In
    the step relation \<open>child_step\<close> each call has its own copy of the context, so the approval budget
    bounds each call and not the run.
  \<^item> \<open>Ui_Telemetry\<close> (\<open>telemetry/ui.py\<close>): the capped lists the chat shows.
  \<^item> \<open>Delegation\<close> (\<open>subagents/toolsets.py\<close>, \<open>subagents/delegate_builder.py\<close>, \<open>subagents/delegate_runner.py\<close>,
    \<open>subagents/delegate.py\<close>): the calls made to the agent framework are recorded, and its answers are
    functions of them. A child is given confined tools, counts as completed only below its cap,
    is resumed by an approval in the session that paused and is never started over.
  \<^item> \<open>Subagents\<close> (\<open>subagents/registry.py\<close>, \<open>subagents/spawn.py\<close>, \<open>subagents/subagent.py\<close>,
    \<open>subagents/transcript.py\<close>): along every run of the step relation \<open>fleet_step\<close>, in which waits may
    overlap, every background child is handed out in the end, and in an orderly run only once; a cancelled child
    loses its result.
  \<^item> \<open>Replacers\<close>, \<open>Workspace_Paths\<close>, \<open>Output_Overflow\<close>, \<open>File_Ops\<close> (\<open>tools/_replacers.py\<close>, \<open>tools/_paths.py\<close>,
    \<open>workspace_window.py\<close>, \<open>tools/_output_overflow.py\<close>, \<open>tools/file_ops.py\<close>): an anchor resolves to
    text of the file with the same words, a batch of edits equals single edits, an edit applies its whole
    batch to one file of the workspace or none of it, though a failing write may leave that file changed; a
    preview keeps to its byte cap and shows as much of both ends as fits.
  \<^item> \<open>Output_Pruning\<close> (\<open>context/tool_output_pruning.py\<close>): pruning spares recent and protected results.
  \<^item> \<open>Secrets\<close> (\<open>secrets/dotenv.py\<close>, \<open>secrets/store.py\<close>): both stores interpret the locale \<open>secret_store\<close>, a
    map of names for each user; the remote one reaches it through a cache and one JSON document
    for each user. What an environment file of any mix of lines gives.
  \<^item> \<open>Routine_Store\<close> (\<open>scheduler/cron.py\<close>, \<open>scheduler/routine_store.py\<close>,
    \<open>scheduler/routine_postgres_store.py\<close>, the retry of \<open>infrastructure/db_resilience.py\<close>): the locale \<open>routine_store\<close> is
    interpreted on the store in memory and on the tables of the database; they differ in two respects
    only, keep a routine to its owner, fire it once for a date, and survive lost connections.
  \<^item> \<open>Routines\<close> (\<open>routines/*.py\<close>, \<open>secrets/inject.py\<close>, \<open>scheduler/routine_tick_endpoint.py\<close>, \<open>scheduler/sessions.py\<close>):
    no routine without consent, and then the one that was shown; a fired one is confined to its sandbox, owner and secrets and
    leaves the context as it was; a tick tries every claim; a taken name reports success.
  \<^item> \<open>Sandbox_Lifecycle\<close>, \<open>Sandbox_Provider\<close> (\<open>sandbox/lifecycle.py\<close>, \<open>sandbox/provider.py\<close>, the choice of
    the provider in \<open>conversation/session_start.py\<close>):
    calls of the cloud service are functions on its state (the type \<open>call\<close>); all instances find the same
    sandbox, pruning keeps the newest snapshots, with the sandbox backend production never falls back to the host, names
    keep users and routines apart up to sanitizing, and names that sanitize alike do not.

  \<^item> \<open>Environ\<close> (\<open>infrastructure/env.py\<close>), \<open>Http\<close>: environment variables and the errors of request handlers.
  \<^item> \<open>Identity\<close> (\<open>auth/identity.py\<close>, \<open>auth/oauth_verify.py\<close>, \<open>scheduler/auth.py\<close>): a request gets only an identity of
    the configured mode; through the cache a token is accepted only while its confirmation lasts, for whichever audience.
  \<^item> \<open>Uploads\<close> (\<open>api/uploads.py\<close>): the routes stay inside the workspace, and the label of a path leads
    back to it.

  \<^item> \<open>Base64\<close>: the standard library's coder on 8-bit words; decoding undoes encoding.
  \<^item> \<open>Process_Buffer\<close> (\<open>environment/local_process.py\<close>): a process of the host and its rolling output
    buffer. The buffer refines the whole output: it is its last part within the cap, and paging
    by offsets reads everything that has not been evicted, once and in order. The locale \<open>output_source\<close> is what a
    reader of output relies on.
  \<^item> \<open>Process_Registry\<close> (\<open>environment/registry.py\<close>): the registries of the
    sessions; a handle is forgotten only after its process has finished.
  \<^item> \<open>Polling\<close>: loops that look, sleep and look again until a deadline. The locale \<open>deadline_poll\<close> bounds the
    number of rounds; it is interpreted on the three loops of the sources.
  \<^item> \<open>Sandbox_Runtime\<close> (\<open>sandbox/runtime/server.py\<close>, \<open>sandbox/runtime/protocol.py\<close>): the server inside the container, one
    function for each request. Every file operation stays in the workspace, dots and links included, and along every run at most 64
    sessions are live.
  \<^item> \<open>Sandbox_Env\<close> (\<open>environment/sandbox.py\<close>, \<open>environment/sandbox_process.py\<close>): the client of that server, composed
    with it over a network that may fail. Files and logs read through the client are those of the container, with the kinds of three
    errors, waits end, and an error of the gateway retires the client.
  \<^item> \<open>Handles\<close>, \<open>Interactive\<close>, \<open>Process_Tool\<close> (\<open>environment/process.py\<close>, \<open>tools/processes/*.py\<close>): both kinds of process behind one interface,
    the recognition of prompts, and the tools \<open>bash\<close> and \<open>process\<close>. Waiting for a pattern returns and
    reports what was read; below, in this theory, the tools are composed with the guards.
  \<^item> \<open>Past_Sessions\<close>, \<open>Memory_Writes\<close>, \<open>Memory_Bank\<close> (\<open>tools/past_sessions.py\<close>, \<open>memory/_content_safety.py\<close>,
    \<open>memory/_throttle.py\<close>, \<open>memory/_writer.py\<close>, \<open>memory/add_memory_tool.py\<close>, \<open>memory/auto_capture.py\<close>, \<open>memory/adapter.py\<close>,
    \<open>memory/content_sanitizer.py\<close>, \<open>memory/user_profile.py\<close>, \<open>memory/memory_list.py\<close>, \<open>memory/dream_review.py\<close>,
    \<open>scheduler/dream_review_endpoint.py\<close>, \<open>api/memories.py\<close>): what is written is vetted and written once, forks are throttled, a recall never
    shows the session it is made from, pages of the listing are complete, and a review reads the user's own sessions only.
  \<^item> \<open>Skill_Forks\<close> (\<open>memory/skill_telemetry.py\<close>, \<open>memory/skill_curator.py\<close>, \<open>memory/_fork.py\<close>, \<open>memory/review_fork.py\<close>,
    \<open>memory/flush_fork.py\<close>): the counters count, the gates are interpretations of \<open>answering_guard\<close>, and the review fork's gate has a way out.
  \<^item> \<open>Models\<close> (\<open>models/*.py\<close>, \<open>context/compaction_threshold.py\<close>): the model chosen for a turn always has a backend, and compaction
    fires within its window.
  \<^item> \<open>Slash_Commands\<close> (\<open>commands/*.py\<close>): every command on the session state and the stores; what a grant lifts, and what it
    lifts beyond that.
  \<^item> \<open>Url_Redaction\<close>, \<open>Reminders\<close> (\<open>context/artifact_url_redaction.py\<close>, \<open>conversation/reminders.py\<close>): a request shows no signed link, and
    reminders stop after a halt.

  \<^bold>\<open>Parameters.\<close> What is not in the sources enters as arguments: SHA-256, compiling and searching a
  tenant's regular expression (the record \<open>engines\<close>), the operating system's view of paths
  (the record \<open>host\<close>), the environment's reads, writes and commands (the record \<open>services\<close>),
  the clock, the arithmetic of cron schedules (the record \<open>cron\<close>), the client of the sandbox service
  (the record \<open>vertex\<close>), the agent framework (the record \<open>framework\<close>), the order and the locks of database rows,
  the container's files and processes (the record \<open>container\<close>), the network between client and container, the
  operating system below a process handle (the record \<open>host_os\<close>), how long calls and sleeps take (the record \<open>timing\<close>), the session and memory
  services (the records \<open>session_service\<close>, \<open>memory_service\<close>, \<open>bank\<close>), the conversion of a text to a float. Hypotheses about them are stated where they are used.

  \<^bold>\<open>Not modelled.\<close> Log messages and telemetry; characters beyond code point 255, apart from the few
  in literals; rounding of floats; concurrency between calls of one session, apart from the waits for children. The other HTTP
  routes, the OAuth round trip, the A2A bridge and the assembly of the agent mostly
  call frameworks and services. The search tool of \<open>file_ops\<close> runs a generated script inside
  the environment. The system prompt, the loading of skills and the summaries of compaction assemble
  texts for a model or have one write them.
\<close>

section \<open>The guards and the tools together\<close>

text \<open>The two tools pass the environment the command the guards have judged.\<close>

definition denied_command :: "string \<Rightarrow> bool" where
  "denied_command c \<longleftrightarrow> (case classify c of Some (TDeny, _) \<Rightarrow> True | _ \<Rightarrow> False)"

lemma denied_command_iff: "denied_command c \<longleftrightarrow> (\<exists>why. classify c = Some (TDeny, why))"
  by (auto simp: denied_command_def split: option.splits tier.splits)

lemma empty_command_not_denied: "\<not> denied_command []"
  by code_simp

lemma passed_call_not_denied:
  assumes "before_tool_chain eng env headless now tn args w = Inr (None, w')" and "tn \<noteq> []"
    and "pol_store_ok (tw_pol w)" and "\<not> granted (session_state w) tn args" and "command_for tn args = Some c"
  shows "\<not> denied_command c"
proof
  assume "denied_command c"
  then have "fst (policies_guard (eng_search_ci eng) env (gw_fs (tw_gate w)) False tn args (session_state w) (tw_pol w)) \<noteq> None"
    using policies_floor [OF assms(3,2,4)] assms(5) by (auto simp: denied_command_iff)
  with assms(1) show False unfolding before_tool_chain_pass by auto
qed

lemma command_for_tools:
  "dict_get d ''command'' = PyStr c \<Longrightarrow> command_for BASH (PyDict d) = Some c"
  "dict_get d ''action'' = PyStr ''spawn'' \<Longrightarrow> command_for PROCESS (PyDict d) = as_str (dict_get d ''command'')"
  "dict_get d ''action'' = PyStr ''write'' \<Longrightarrow> command_for PROCESS (PyDict d) = as_str (dict_get d ''data'')"
  by (simp_all add: command_for_def BASH_def PROCESS_def split: option.split)

text \<open>C40: Once the guards have let a call of \<open>bash\<close> or \<open>process\<close> pass in a session without an exact grant for it, no
  command that the classifier denies reaches a shell through it, neither as a command to start nor as
  text written to a running process: two environments that differ only in what they do with denied commands,
  and two interfaces to processes that differ only in what they do with denied texts, run the call alike,
  whatever its action, its other arguments and the state of the registries.\<close>

theorem denied_commands_are_never_spawned:
  assumes "before_tool_chain eng env headless now tn (PyDict d) w = Inr (None, w')"
    and "pol_store_ok (tw_pol w)" and "\<not> granted (session_state w) tn (PyDict d)"
    and "\<And>c p e t n. \<not> denied_command c \<Longrightarrow> sp c p e t n = te_spawn te c p e t n"
    and "\<And>typed submit h n. \<not> denied_command typed \<Longrightarrow>
      hw (utf8_payload submit typed) h n = hi_write io (utf8_payload submit typed) h n"
  shows "(tn = BASH \<and> dict_get d ''command'' = PyStr c \<longrightarrow>
      bash (te\<lparr>te_spawn := sp\<rparr>) (io\<lparr>hi_write := hw\<rparr>) ctx c timeout s = bash te io ctx c timeout s) \<and>
    (tn = PROCESS \<and> dict_get d ''action'' = PyStr (pa_action a) \<and> as_str (dict_get d ''command'') = pa_command a \<and>
        as_str (dict_get d ''data'') = pa_data a \<longrightarrow>
      process (te\<lparr>te_spawn := sp\<rparr>) (io\<lparr>hi_write := hw\<rparr>) tm ctx a s = process te io tm ctx a s)"
proof (intro conjI impI; elim conjE)
  assume t: "tn = BASH" and c: "dict_get d ''command'' = PyStr c"
  have "\<not> denied_command c"
    using passed_call_not_denied [OF assms(1) _ assms(2,3)] command_for_tools(1) [OF c] t by (simp add: BASH_def)
  then show "bash (te\<lparr>te_spawn := sp\<rparr>) (io\<lparr>hi_write := hw\<rparr>) ctx c timeout s = bash te io ctx c timeout s"
    unfolding bash_writes_nothing by (intro bash_spawns_its_command assms(4))
next
  assume t: "tn = PROCESS" and act: "dict_get d ''action'' = PyStr (pa_action a)"
    and cmd: "as_str (dict_get d ''command'') = pa_command a" and data: "as_str (dict_get d ''data'') = pa_data a"
  note passed = passed_call_not_denied [OF assms(1) _ assms(2,3)]
  have "\<not> denied_command (str_or_empty (pa_command a))" if "pa_action a = ''spawn''"
  proof (cases "pa_command a")
    case None
    then show ?thesis by (simp add: str_or_empty_def empty_command_not_denied)
  next
    case (Some c)
    then show ?thesis
      using passed command_for_tools(2) [of d] act cmd that t by (simp add: str_or_empty_def PROCESS_def)
  qed
  moreover have "\<not> denied_command typed" if "pa_action a = ''write''" and "pa_data a = Some typed" for typed
    using passed command_for_tools(3) [of d] act data that t by (simp add: PROCESS_def)
  ultimately show "process (te\<lparr>te_spawn := sp\<rparr>) (io\<lparr>hi_write := hw\<rparr>) tm ctx a s = process te io tm ctx a s"
    using process_writes_its_data [of a hw io "te\<lparr>te_spawn := sp\<rparr>" tm ctx s] process_spawns_its_command [of a sp te io tm ctx s] assms(4,5)
    by simp
qed

text \<open>An environment that refuses to run what the classifier denies, and an ordinary one, on a harmless call.\<close>

theorem denied_commands_are_never_spawned_witness:
  "bash (demo_tools\<lparr>te_spawn := (\<lambda>c p e t n. if denied_command c then (Inl (EOther []), n) else te_spawn demo_tools c p e t n)\<rparr>)
     ((local_io idle_os)\<lparr>hi_write := hi_write (local_io idle_os)\<rparr>) None ''ls'' 10 (0, \<lparr>ps_sessions = [], ps_temp = None\<rparr>, []) =
   bash demo_tools (local_io idle_os) None ''ls'' 10 (0, \<lparr>ps_sessions = [], ps_temp = None\<rparr>, [])"
proof -
  have p: "before_tool_chain quiet_engines None False 0 BASH (PyDict [(''command'', PyStr ''ls'')]) (tool_start None) = Inr (None, tool_start None)"
    using default_chain_passes [OF ls_facts(1) first_block_quiet [OF quiet_engines_quiet ls_facts(2)] ls_facts(3,4)]
    by (simp add: bash_args_def)
  have o: "pol_store_ok (tw_pol (tool_start None))" by (simp add: tool_start_def fresh_pol_store_ok)
  have g: "\<not> granted (session_state (tool_start None)) BASH (PyDict [(''command'', PyStr ''ls'')])"
    using empty_state_not_granted by (simp add: tool_start_def)
  show ?thesis
    using denied_commands_are_never_spawned [OF p o g, of
        "\<lambda>c p e t n. if denied_command c then (Inl (EOther []), n) else te_spawn demo_tools c p e t n" demo_tools
        "hi_write (local_io idle_os)" "local_io idle_os" "''ls''" None 10 "(0, \<lparr>ps_sessions = [], ps_temp = None\<rparr>, [])"]
    by (simp add: dict_get_def dict_get_default_def)
qed

end
